(* ===== verification/StreamFi_Prelude.thy ===== *)
theory StreamFi_Prelude
  imports Complex_Main "HOL-Library.Char_ord" "HOL-Library.List_Lexorder" "HOL-Library.Word"
begin

text \<open>
  Generic material shared by the component theories: decimal digit strings (what
  BigInt(s), n.toString(), padStart and repeat do on them), JavaScript numbers with
  their non-finite values, result values for operations that may throw, and
  lemmas on lists that several components use.
\<close>

named_theorems digit_simps \<open>evaluation of decimal digit strings\<close>
named_theorems step_simps \<open>unfolding of the handlers and step functions\<close>

section \<open>Results of operations that may throw\<close>

type_synonym ('e, 'a) result = "'e + 'a"

fun result_bind :: "('e, 'a) result \<Rightarrow> ('a \<Rightarrow> ('e, 'b) result) \<Rightarrow> ('e, 'b) result" where
  "result_bind (Inl e) f = Inl e"
| "result_bind (Inr a) f = f a"

fun result_ok :: "('e, 'a) result \<Rightarrow> bool" where
  "result_ok (Inl e) = False"
| "result_ok (Inr a) = True"

lemma result_bind_Inr_iff:
  "result_bind r f = Inr b \<longleftrightarrow> (\<exists>a. r = Inr a \<and> f a = Inr b)"
  by (cases r) auto

lemma result_bind_Inl_iff:
  "result_bind r f = Inl e \<longleftrightarrow> r = Inl e \<or> (\<exists>a. r = Inr a \<and> f a = Inl e)"
  by (cases r) auto

lemma result_ok_iff: "result_ok r \<longleftrightarrow> (\<exists>a. r = Inr a)"
  by (cases r) auto

section \<open>JavaScript numbers\<close>

text \<open>
  A number argument that the code checks with isFinite, isInteger or isNaN.  A finite
  number is an exact rational: the integers the SDK handles (seconds, ledgers, limits)
  are below 2 to the 53, where IEEE doubles are exact.
\<close>

datatype jsnum = NaN | Infinity | NegInfinity | Num rat

fun is_finite_num :: "jsnum \<Rightarrow> bool" where
  "is_finite_num (Num _) = True"
| "is_finite_num _ = False"

fun is_integer_num :: "jsnum \<Rightarrow> bool" where
  "is_integer_num (Num r) = (of_int \<lfloor>r\<rfloor> = r)"
| "is_integer_num _ = False"

fun int_of_num :: "jsnum \<Rightarrow> int" where
  "int_of_num (Num r) = \<lfloor>r\<rfloor>"
| "int_of_num _ = 0"

lemma is_integer_num_of_int [simp]: "is_integer_num (Num (of_int z))"
  by simp

section \<open>Decimal digit strings\<close>

definition is_digit :: "char \<Rightarrow> bool" where
  "is_digit c = (48 \<le> (of_char c :: nat) \<and> (of_char c :: nat) \<le> 57)"

definition digit_val :: "char \<Rightarrow> nat" where
  "digit_val c = of_char c - 48"

definition digit_char :: "nat \<Rightarrow> char" where
  "digit_char d = char_of (48 + d)"

definition digits_val :: "string \<Rightarrow> nat" where
  "digits_val s = foldl (\<lambda>a c. 10 * a + digit_val c) 0 s"

fun show_nat :: "nat \<Rightarrow> string" where
  "show_nat n = (if n < 10 then [digit_char n] else show_nat (n div 10) @ [digit_char (n mod 10)])"

declare show_nat.simps [simp del]

definition show_int :: "int \<Rightarrow> string" where
  "show_int z = (if z < 0 then CHR ''-'' # show_nat (nat (- z)) else show_nat (nat z))"

definition pad_start :: "nat \<Rightarrow> char \<Rightarrow> string \<Rightarrow> string" where
  "pad_start w c s = replicate (w - length s) c @ s"

lemma digit_val_digit_char [simp]: "d < 10 \<Longrightarrow> digit_val (digit_char d) = d"
  by (simp add: digit_val_def digit_char_def)

lemma is_digit_digit_char [simp]: "d < 10 \<Longrightarrow> is_digit (digit_char d)"
  by (simp add: is_digit_def digit_char_def)

lemma digit_val_zero [simp]: "digit_val CHR ''0'' = 0"
  by (simp add: digit_val_def)

lemma is_digit_zero [simp]: "is_digit CHR ''0''"
  by (simp add: is_digit_def)

lemma is_digit_minus [simp]: "\<not> is_digit CHR ''-''"
  by (simp add: is_digit_def)

lemma is_digit_dot [simp]: "\<not> is_digit CHR ''.''"
  by (simp add: is_digit_def)

lemma digit_val_less: "is_digit c \<Longrightarrow> digit_val c < 10"
  by (auto simp: is_digit_def digit_val_def)

lemma foldl_digits:
  "foldl (\<lambda>a c. 10 * a + digit_val c) a s = a * 10 ^ length s + digits_val s"
proof (induction s arbitrary: a)
  case (Cons c s)
  have "foldl (\<lambda>a c. 10 * a + digit_val c) a (c # s)
      = (10 * a + digit_val c) * 10 ^ length s + digits_val s"
    using Cons.IH by simp
  moreover have "digits_val (c # s) = digit_val c * 10 ^ length s + digits_val s"
    using Cons.IH [of "digit_val c"] by (simp add: digits_val_def)
  ultimately show ?case by (simp add: algebra_simps)
qed (simp add: digits_val_def)

lemma digits_val_Nil [simp]: "digits_val [] = 0"
  by (simp add: digits_val_def)

lemma digits_val_Cons: "digits_val (c # s) = digit_val c * 10 ^ length s + digits_val s"
  using foldl_digits [of "digit_val c" s] by (simp add: digits_val_def)

lemma digits_val_append [digit_simps]:
  "digits_val (s @ t) = digits_val s * 10 ^ length t + digits_val t"
  using foldl_digits [of "digits_val s" t] by (simp add: digits_val_def)

lemma digits_val_replicate_zero [simp]: "digits_val (replicate k CHR ''0'') = 0"
  by (induction k) (simp_all add: digits_val_Cons)

lemma digits_val_less: "list_all is_digit s \<Longrightarrow> digits_val s < 10 ^ length s"
proof (induction s)
  case (Cons c s)
  then have "digit_val c \<le> 9" "digits_val s < 10 ^ length s"
    using digit_val_less [of c] by auto
  then have "digit_val c * 10 ^ length s + digits_val s < 9 * 10 ^ length s + 10 ^ length s"
    by (intro add_le_less_mono mult_le_mono1) auto
  then show ?case by (simp add: digits_val_Cons)
qed simp

lemma digits_val_single [simp]: "digits_val [c] = digit_val c"
  by (simp add: digits_val_def)

lemma digits_val_show_nat [simp]: "digits_val (show_nat n) = n"
proof (induction n rule: show_nat.induct)
  case (1 n)
  then show ?case
    by (subst show_nat.simps) (auto simp: digits_val_append)
qed

lemma show_nat_digits [simp]: "list_all is_digit (show_nat n)"
proof (induction n rule: show_nat.induct)
  case (1 n)
  then show ?case by (subst show_nat.simps) auto
qed

lemma show_nat_not_Nil [simp]: "show_nat n \<noteq> []"
  by (subst show_nat.simps) simp

lemma show_nat_inject [simp]: "show_nat m = show_nat n \<longleftrightarrow> m = n"
  by (metis digits_val_show_nat)

lemma show_nat_length: "n < 10 ^ k \<Longrightarrow> 0 < k \<Longrightarrow> length (show_nat n) \<le> k"
proof (induction k arbitrary: n)
  case (Suc k)
  show ?case
  proof (cases "n < 10")
    case True then show ?thesis by (subst show_nat.simps) simp
  next
    case False
    with Suc.prems have "0 < k" by (cases k) auto
    moreover have "n div 10 < 10 ^ k" using Suc.prems by (simp add: less_mult_imp_div_less mult.commute)
    ultimately show ?thesis using Suc.IH False by (subst show_nat.simps) simp
  qed
qed simp

lemma show_nat_no_char: "\<not> is_digit c \<Longrightarrow> c \<notin> set (show_nat n)"
  using show_nat_digits [of n] by (auto simp: list_all_iff)

lemma pad_start_digits [simp]: "list_all is_digit s \<Longrightarrow> list_all is_digit (pad_start w CHR ''0'' s)"
  by (auto simp: pad_start_def list_all_iff)

lemma digits_val_pad_start [simp]: "digits_val (pad_start w CHR ''0'' s) = digits_val s"
  by (simp add: pad_start_def digits_val_append)

lemma length_pad_start [simp]: "length (pad_start w c s) = max w (length s)"
  by (simp add: pad_start_def)

lemma show_int_inject [simp]: "show_int x = show_int y \<longleftrightarrow> x = y"
proof
  assume eq: "show_int x = show_int y"
  have minus: "CHR ''-'' # s \<noteq> show_nat n" for s n
    using show_nat_digits [of n]
    by (metis (no_types, lifting) is_digit_minus list.pred_inject(2))
  show "x = y"
    using eq minus minus [symmetric] by (auto simp: show_int_def split: if_splits)
qed simp

section \<open>Splitting a string at the first occurrence of a character\<close>

definition index_of :: "char \<Rightarrow> string \<Rightarrow> nat option" where
  "index_of c s = (let p = takeWhile (\<lambda>x. x \<noteq> c) s in
     if length p < length s then Some (length p) else None)"

lemma index_of_None: "index_of c s = None \<longleftrightarrow> c \<notin> set s"
  by (induction s) (auto simp: index_of_def Let_def)

lemma index_of_append [simp]:
  "c \<notin> set s \<Longrightarrow> index_of c (s @ c # t) = Some (length s)"
  by (induction s) (auto simp: index_of_def Let_def split: if_splits)

section \<open>Rounding division\<close>

definition round_half_up :: "int \<Rightarrow> int \<Rightarrow> int" where
  "round_half_up n d = (2 * n + d) div (2 * d)"

lemma round_half_up_error:
  assumes "0 < d"
  shows "2 * \<bar>round_half_up n d * d - n\<bar> \<le> d"
proof -
  let ?q = "(2 * n + d) div (2 * d)"
  have "0 \<le> (2 * n + d) mod (2 * d)" "(2 * n + d) mod (2 * d) < 2 * d"
    using assms by auto
  moreover have "2 * n + d = 2 * d * ?q + (2 * n + d) mod (2 * d)" by simp
  ultimately have "2 * d * ?q \<le> 2 * n + d" "2 * n + d < 2 * d * ?q + 2 * d" by linarith+
  then show ?thesis unfolding round_half_up_def by (simp add: abs_if algebra_simps)
qed

end
