(* ===== verification/Js_Values.thy ===== *)
theory Js_Values
  imports StreamFi_Prelude
begin

text \<open>
  JavaScript values as trees, and bigintSafeStringify of src/utils.ts over them.  The
  function returns its argument itself when nothing changed; the model returns the
  value together with the outcome of the identity test result === argument.
\<close>

datatype jsval = JUndefined | JNull | JBool bool | JNumber jsnum | JBigint int | JString string
  | JArray "jsval list" | JObject "(string \<times> jsval) list"

text \<open>The strict equality of a primitive with itself: only NaN differs from itself.\<close>

fun identical_self :: "jsval \<Rightarrow> bool" where
  "identical_self (JNumber n) = (n \<noteq> NaN)"
| "identical_self _ = True"

fun bigintSafe :: "jsval \<Rightarrow> jsval \<times> bool" where
  "bigintSafe (JBigint n) = (JString (show_int n), False)"
| "bigintSafe (JArray vs) =
    (let rs = map bigintSafe vs; changed = (\<exists>r \<in> set rs. \<not> snd r)
     in if changed then (JArray (map fst rs), False) else (JArray vs, True))"
| "bigintSafe (JObject kvs) =
    (let rs = map (\<lambda>kv. (fst kv, bigintSafe (snd kv))) kvs;
         changed = (\<exists>r \<in> set rs. \<not> snd (snd r))
     in if changed then (JObject (map (\<lambda>r. (fst r, fst (snd r))) rs), False) else (JObject kvs, True))"
| "bigintSafe v = (v, identical_self v)"

definition bigintSafeStringify :: "jsval \<Rightarrow> jsval" where
  "bigintSafeStringify v = fst (bigintSafe v)"

text \<open>The specification: the same tree with every bigint leaf replaced.\<close>

fun stringify_leaves :: "jsval \<Rightarrow> jsval" where
  "stringify_leaves (JBigint n) = JString (show_int n)"
| "stringify_leaves (JArray vs) = JArray (map stringify_leaves vs)"
| "stringify_leaves (JObject kvs) = JObject (map (\<lambda>kv. (fst kv, stringify_leaves (snd kv))) kvs)"
| "stringify_leaves v = v"

fun bigint_free :: "jsval \<Rightarrow> bool" where
  "bigint_free (JBigint n) = False"
| "bigint_free (JArray vs) = (\<forall>v \<in> set vs. bigint_free v)"
| "bigint_free (JObject kvs) = (\<forall>kv \<in> set kvs. bigint_free (snd kv))"
| "bigint_free v = True"

fun nan_free :: "jsval \<Rightarrow> bool" where
  "nan_free (JNumber n) = (n \<noteq> NaN)"
| "nan_free (JArray vs) = (\<forall>v \<in> set vs. nan_free v)"
| "nan_free (JObject kvs) = (\<forall>kv \<in> set kvs. nan_free (snd kv))"
| "nan_free v = True"

lemma bigintSafe_value: "fst (bigintSafe v) = stringify_leaves v \<and> (snd (bigintSafe v) \<longrightarrow> fst (bigintSafe v) = v)"
proof (induction v rule: stringify_leaves.induct)
  case (2 vs)
  then show ?case
    by (auto simp: Let_def intro!: map_cong map_idI [symmetric]) metis
next
  case (3 kvs)
  then show ?case
    by (auto simp: Let_def comp_def intro!: map_cong map_idI [symmetric] prod_eqI)
      (metis fst_conv prod.collapse snd_conv)+
qed auto

lemma bigint_free_stringify: "bigint_free (stringify_leaves v)"
  by (induction v rule: stringify_leaves.induct) auto

lemma stringify_leaves_bigint_free: "bigint_free v \<Longrightarrow> stringify_leaves v = v"
  by (induction v rule: stringify_leaves.induct) (auto intro!: map_idI prod_eqI)

lemma bigintSafe_same: "snd (bigintSafe v) \<longleftrightarrow> bigint_free v \<and> nan_free v"
  by (induction v rule: stringify_leaves.induct) (auto simp: Let_def)

section \<open>Reading values\<close>

fun typeof_js :: "jsval \<Rightarrow> string" where
  "typeof_js JUndefined = ''undefined''"
| "typeof_js JNull = ''object''"
| "typeof_js (JBool _) = ''boolean''"
| "typeof_js (JNumber _) = ''number''"
| "typeof_js (JBigint _) = ''bigint''"
| "typeof_js (JString _) = ''string''"
| "typeof_js (JArray _) = ''object''"
| "typeof_js (JObject _) = ''object''"

fun field_of :: "jsval \<Rightarrow> string \<Rightarrow> jsval" where
  "field_of (JObject kvs) k = (case map_of kvs k of Some v \<Rightarrow> v | None \<Rightarrow> JUndefined)"
| "field_of _ k = JUndefined"

section \<open>Properties\<close>

text \<open>
  bigintSafeStringify replaces exactly the bigint leaves, at any depth, by their
  decimal strings: the result has no bigint left, a second pass changes nothing, and
  the lazily cloned tree is the eagerly mapped one.  The argument itself is returned
  exactly when the tree holds neither a bigint nor a NaN.
\<close>
theorem bigintSafeStringify_correct:
  "bigintSafeStringify v = stringify_leaves v \<and> bigint_free (bigintSafeStringify v) \<and>
   bigintSafeStringify (bigintSafeStringify v) = bigintSafeStringify v \<and>
   (snd (bigintSafe v) \<longleftrightarrow> bigint_free v \<and> nan_free v)"
  by (simp add: bigintSafeStringify_def bigintSafe_value bigint_free_stringify
      stringify_leaves_bigint_free bigintSafe_same)

end
