(* ===== verification/Js_Strings.thy ===== *)
theory Js_Strings
  imports StreamFi_Prelude
begin

text \<open>
  The string functions of the language the SDK relies on: trim, BigInt(s) and
  Number(s).  Strings are byte strings; white space is the Latin-1 part of it.
\<close>

section \<open>White space\<close>

definition is_space :: "char \<Rightarrow> bool" where
  "is_space c = ((of_char c :: nat) \<in> {9, 10, 11, 12, 13, 32, 160})"

definition trim :: "string \<Rightarrow> string" where
  "trim s = rev (dropWhile is_space (rev (dropWhile is_space s)))"

lemma digit_not_space: "is_digit c \<Longrightarrow> \<not> is_space c"
  by (auto simp: is_digit_def is_space_def)

lemma show_nat_no_space: "filter (\<lambda>c. \<not> is_space c) (show_nat n) = show_nat n"
  using show_nat_digits [of n] by (auto simp: filter_id_conv list_all_iff digit_not_space)

lemma is_space_blank [simp]: "is_space CHR '' ''"
  by (simp add: is_space_def)

lemma dropWhile_solid: "s \<noteq> [] \<Longrightarrow> \<not> P (hd s) \<Longrightarrow> dropWhile P s = s"
  by (cases s) auto

lemma trim_solid:
  "s \<noteq> [] \<Longrightarrow> \<not> is_space (hd s) \<Longrightarrow> \<not> is_space (last s) \<Longrightarrow> trim s = s"
  by (simp add: trim_def dropWhile_solid hd_rev)

lemma hd_show_nat: "\<not> is_space (hd (show_nat n))"
  using show_nat_digits [of n] by (cases "show_nat n") (auto simp: digit_not_space)

section \<open>BigInt of a string\<close>

definition hex_digit :: "char \<Rightarrow> nat option" where
  "hex_digit c = (let n = of_char c :: nat in
     if 48 \<le> n \<and> n \<le> 57 then Some (n - 48)
     else if 65 \<le> n \<and> n \<le> 70 then Some (n - 55)
     else if 97 \<le> n \<and> n \<le> 102 then Some (n - 87)
     else None)"

fun radix_value :: "nat \<Rightarrow> nat \<Rightarrow> string \<Rightarrow> nat option" where
  "radix_value b acc [] = Some acc"
| "radix_value b acc (c # s) =
    (case hex_digit c of None \<Rightarrow> None | Some d \<Rightarrow> if d < b then radix_value b (acc * b + d) s else None)"

definition bigint_of_string :: "string \<Rightarrow> int option" where
  "bigint_of_string str =
    (let s = trim str in
     if s = [] then Some 0
     else if take 2 s = ''0x'' \<or> take 2 s = ''0X'' then
       (if drop 2 s = [] then None else map_option int (radix_value 16 0 (drop 2 s)))
     else if take 2 s = ''0o'' \<or> take 2 s = ''0O'' then
       (if drop 2 s = [] then None else map_option int (radix_value 8 0 (drop 2 s)))
     else if take 2 s = ''0b'' \<or> take 2 s = ''0B'' then
       (if drop 2 s = [] then None else map_option int (radix_value 2 0 (drop 2 s)))
     else if hd s = CHR ''-'' \<or> hd s = CHR ''+'' then
       (if tl s = [] then None
        else map_option (\<lambda>n. if hd s = CHR ''-'' then - int n else int n) (radix_value 10 0 (tl s)))
     else map_option int (radix_value 10 0 s))"

section \<open>Number of a string\<close>

definition exponent_value :: "string \<Rightarrow> int option" where
  "exponent_value e =
    (let ds = (if e \<noteq> [] \<and> (hd e = CHR ''-'' \<or> hd e = CHR ''+'') then tl e else e)
     in if ds = [] \<or> \<not> list_all is_digit ds then None
        else Some (if hd e = CHR ''-'' then - int (digits_val ds) else int (digits_val ds)))"

definition ten_to :: "int \<Rightarrow> rat" where
  "ten_to e = (if 0 \<le> e then 10 ^ nat e else 1 / 10 ^ nat (- e))"

definition unsigned_decimal :: "string \<Rightarrow> rat option" where
  "unsigned_decimal u =
    (let w = takeWhile is_digit u; r1 = dropWhile is_digit u;
         dot = (r1 \<noteq> [] \<and> hd r1 = CHR ''.'');
         f = (if dot then takeWhile is_digit (tl r1) else []);
         r2 = (if dot then dropWhile is_digit (tl r1) else r1);
         m = of_nat (digits_val (w @ f)) / 10 ^ length f
     in if w = [] \<and> f = [] then None
        else if r2 = [] then Some m
        else if hd r2 = CHR ''e'' \<or> hd r2 = CHR ''E''
          then map_option (\<lambda>e. m * ten_to e) (exponent_value (tl r2))
        else None)"

definition prefixed_radix :: "string \<Rightarrow> nat option" where
  "prefixed_radix s =
    (if take 2 s = ''0x'' \<or> take 2 s = ''0X'' then Some 16
     else if take 2 s = ''0o'' \<or> take 2 s = ''0O'' then Some 8
     else if take 2 s = ''0b'' \<or> take 2 s = ''0B'' then Some 2 else None)"

definition number_of_string :: "string \<Rightarrow> jsnum" where
  "number_of_string str =
    (let s = trim str in
     if s = [] then Num 0
     else case prefixed_radix s of
       Some b \<Rightarrow> (if drop 2 s = [] then NaN
          else case radix_value b 0 (drop 2 s) of Some n \<Rightarrow> Num (of_nat n) | None \<Rightarrow> NaN)
     | None \<Rightarrow>
         let signed = (hd s = CHR ''-'' \<or> hd s = CHR ''+''); neg = (hd s = CHR ''-'');
             u = (if signed then tl s else s)
         in if u = ''Infinity'' then (if neg then NegInfinity else Infinity)
            else case unsigned_decimal u of
              Some r \<Rightarrow> Num (if neg then - r else r) | None \<Rightarrow> NaN)"

text \<open>Decimal integers read back exactly, whichever of the two conversions is used.\<close>

lemma digit_hex: "is_digit c \<Longrightarrow> hex_digit c = Some (digit_val c)"
  by (simp add: hex_digit_def is_digit_def digit_val_def Let_def)

lemma radix_value_digits:
  "list_all is_digit s \<Longrightarrow> radix_value 10 acc s = Some (foldl (\<lambda>a c. 10 * a + digit_val c) acc s)"
  by (induction s arbitrary: acc) (auto simp: digit_hex digit_val_less mult.commute)

lemma trim_digits:
  assumes "list_all is_digit s" "s \<noteq> []"
  shows "trim s = s"
  using assms hd_in_set [of s] last_in_set [of s]
  by (intro trim_solid) (auto simp: list_all_iff digit_not_space)

lemma digits_no_radix:
  assumes "list_all is_digit s"
  shows "take 2 s \<noteq> ''0x'' \<and> take 2 s \<noteq> ''0X'' \<and> take 2 s \<noteq> ''0o'' \<and> take 2 s \<noteq> ''0O'' \<and>
    take 2 s \<noteq> ''0b'' \<and> take 2 s \<noteq> ''0B''"
proof -
  have "list_all is_digit (take 2 s)" using assms by (auto simp: list_all_iff dest: in_set_takeD)
  then show ?thesis by (auto simp: is_digit_def)
qed

lemma bigint_of_digits:
  assumes "list_all is_digit s" "s \<noteq> []"
  shows "bigint_of_string s = Some (int (digits_val s))"
proof -
  have "is_digit (hd s)" using assms hd_in_set [of s] by (auto simp: list_all_iff)
  then have "hd s \<noteq> CHR ''-''" "hd s \<noteq> CHR ''+''" by (auto simp: is_digit_def)
  then show ?thesis
    using assms digits_no_radix [OF assms(1)]
    by (simp add: bigint_of_string_def trim_digits radix_value_digits digits_val_def)
qed

lemma bigint_of_show_nat [simp]: "bigint_of_string (show_nat n) = Some (int n)"
  using bigint_of_digits [of "show_nat n"] by simp

lemma number_of_digits:
  assumes "list_all is_digit s" "s \<noteq> []"
  shows "number_of_string s = Num (of_nat (digits_val s))"
proof -
  have tw: "takeWhile is_digit s = s" and dw: "dropWhile is_digit s = []"
    using assms by (auto simp: list_all_iff takeWhile_eq_all_conv dropWhile_eq_Nil_conv)
  have "unsigned_decimal s = Some (of_nat (digits_val s))"
    unfolding unsigned_decimal_def Let_def tw dw using assms by simp
  moreover have "is_digit (hd s)" using assms hd_in_set [of s] by (auto simp: list_all_iff)
  then have "hd s \<noteq> CHR ''-''" "hd s \<noteq> CHR ''+''" "s \<noteq> ''Infinity''" by (auto simp: is_digit_def)
  ultimately show ?thesis
    using assms digits_no_radix [OF assms(1)]
    by (simp add: number_of_string_def trim_digits prefixed_radix_def Let_def)
qed

end
