(* ===== verification/Durations.thy ===== *)
theory Durations
  imports Js_Strings
begin

text \<open>
  formatDuration and parseDuration of src/utils.ts.  The global regular expression of
  parseDuration is the scanner duration_tokens: at each position the longest digit
  run, optional white space and a unit letter, otherwise one character is skipped.
\<close>

section \<open>Formatting\<close>

definition formatDuration :: "jsnum \<Rightarrow> (string, string) result" where
  "formatDuration sec =
    (case sec of
       Num r \<Rightarrow>
         if r < 0 then Inl ''seconds must be a non-negative finite number''
         else let total = \<lfloor>r\<rfloor> in
           if total < 60 then Inr (show_int total @ ''s'')
           else if total < 3600 then
             let mins = total div 60; secs = total mod 60
             in Inr (if secs > 0 then show_int mins @ ''m '' @ show_int secs @ ''s'' else show_int mins @ ''m'')
           else if total < 86400 then
             let hrs = total div 3600; mins = (total mod 3600) div 60
             in Inr (if mins > 0 then show_int hrs @ ''h '' @ show_int mins @ ''m'' else show_int hrs @ ''h'')
           else
             let dys = total div 86400; hrs = (total mod 86400) div 3600
             in Inr (if hrs > 0 then show_int dys @ ''d '' @ show_int hrs @ ''h'' else show_int dys @ ''d'')
     | _ \<Rightarrow> Inl ''seconds must be a non-negative finite number'')"

section \<open>Parsing\<close>

definition unit_seconds :: "char \<Rightarrow> nat option" where
  "unit_seconds c =
    (if c = CHR ''d'' \<or> c = CHR ''D'' then Some 86400
     else if c = CHR ''h'' \<or> c = CHR ''H'' then Some 3600
     else if c = CHR ''m'' \<or> c = CHR ''M'' then Some 60
     else if c = CHR ''s'' \<or> c = CHR ''S'' then Some 1
     else None)"

text \<open>A match at the start of s: the seconds it stands for and the characters it spans.\<close>

definition match_token :: "string \<Rightarrow> (nat \<times> nat) option" where
  "match_token s =
    (let ds = takeWhile is_digit s; r = dropWhile is_digit s;
         ws = takeWhile is_space r; u = dropWhile is_space r
     in if ds = [] then None
        else case u of [] \<Rightarrow> None
        | c # _ \<Rightarrow> (case unit_seconds c of None \<Rightarrow> None
            | Some k \<Rightarrow> Some (digits_val ds * k, length ds + length ws + 1)))"

function duration_tokens :: "string \<Rightarrow> (nat \<times> nat) list" where
  "duration_tokens [] = []"
| "duration_tokens (c # s) =
    (case match_token (c # s) of
       None \<Rightarrow> duration_tokens s
     | Some (v, k) \<Rightarrow> (v, k) # duration_tokens (drop k (c # s)))"
  by pat_completeness auto
termination
  by (relation "measure length")
     (auto simp: match_token_def Let_def split: if_splits list.splits option.splits)

definition parseDuration :: "string \<Rightarrow> (string, nat) result" where
  "parseDuration input =
    (if trim input = [] then Inl ''Invalid duration string''
     else
       let trimmed = trim input;
           toks = duration_tokens trimmed;
           totalSecs = sum_list (map fst toks);
           matchedLength = sum_list (map snd toks);
           strippedLength = length (filter (\<lambda>c. \<not> is_space c) trimmed)
       in if toks = [] \<or> matchedLength \<noteq> strippedLength then Inl ''Unparseable duration string''
          else Inr totalSecs)"

section \<open>Scanning what formatDuration prints\<close>

lemma unit_not_digit: "unit_seconds c = Some k \<Longrightarrow> \<not> is_digit c \<and> \<not> is_space c"
proof -
  assume "unit_seconds c = Some k"
  then have "c \<in> set ''dDhHmMsS''" by (auto simp: unit_seconds_def split: if_splits)
  moreover have "list_all (\<lambda>c. \<not> is_digit c \<and> \<not> is_space c) ''dDhHmMsS''"
    by (simp add: is_digit_def is_space_def)
  ultimately show ?thesis unfolding list_all_iff by blast
qed

lemma match_token_number:
  assumes "list_all is_digit ds" "ds \<noteq> []" "unit_seconds u = Some k"
  shows "match_token (ds @ u # rest) = Some (digits_val ds * k, length ds + 1)"
proof -
  have "takeWhile is_digit (ds @ u # rest) = ds" "dropWhile is_digit (ds @ u # rest) = u # rest"
    using assms unit_not_digit [OF assms(3)]
    by (auto simp: list_all_iff takeWhile_append dropWhile_append)
  then show ?thesis using assms unit_not_digit [OF assms(3)] by (simp add: match_token_def)
qed

lemma duration_tokens_number:
  assumes "unit_seconds u = Some k"
  shows "duration_tokens (show_nat n @ u # rest) = (n * k, length (show_nat n) + 1) # duration_tokens rest"
proof -
  obtain c ds where c: "show_nat n = c # ds" by (cases "show_nat n") auto
  have "match_token (show_nat n @ u # rest) = Some (n * k, length (show_nat n) + 1)"
    using match_token_number [of "show_nat n" u k rest] assms by simp
  moreover have "drop (length (show_nat n) + 1) (show_nat n @ u # rest) = rest" by simp
  ultimately show ?thesis unfolding c by simp
qed

lemma duration_tokens_space: "duration_tokens (CHR '' '' # s) = duration_tokens s"
  by (simp add: match_token_def is_digit_def)

definition duration_text :: "(nat \<times> char) list \<Rightarrow> string" where
  "duration_text ps = concat (map (\<lambda>(n, u). show_nat n @ [u]) ps)"

lemma parse_one:
  assumes "unit_seconds u = Some k"
  shows "parseDuration (show_nat n @ [u]) = Inr (n * k)"
proof -
  have t: "trim (show_nat n @ [u]) = show_nat n @ [u]"
    using unit_not_digit [OF assms] hd_show_nat [of n] by (intro trim_solid) auto
  show ?thesis
    using duration_tokens_number [OF assms, of n "[]"] unit_not_digit [OF assms]
    by (simp add: parseDuration_def t show_nat_no_space)
qed

lemma parse_two:
  assumes "unit_seconds u = Some k" "unit_seconds v = Some l"
  shows "parseDuration (show_nat m @ u # CHR '' '' # show_nat n @ [v]) = Inr (m * k + n * l)"
proof -
  let ?s = "show_nat m @ u # CHR '' '' # show_nat n @ [v]"
  have t: "trim ?s = ?s"
    using unit_not_digit [OF assms(2)] hd_show_nat [of m] by (intro trim_solid) auto
  have "duration_tokens ?s = [(m * k, length (show_nat m) + 1), (n * l, length (show_nat n) + 1)]"
    using duration_tokens_number [OF assms(1), of m "CHR '' '' # show_nat n @ [v]"]
      duration_tokens_number [OF assms(2), of n "[]"]
    by (simp del: duration_tokens.simps(2) add: duration_tokens_space)
  moreover have "filter (\<lambda>c. \<not> is_space c) ?s = show_nat m @ u # show_nat n @ [v]"
    using unit_not_digit [OF assms(1)] unit_not_digit [OF assms(2)]
    by (simp add: show_nat_no_space)
  ultimately show ?thesis by (simp add: parseDuration_def t)
qed

section \<open>Properties\<close>


lemma unit_letters [simp]:
  "unit_seconds CHR ''d'' = Some 86400" "unit_seconds CHR ''h'' = Some 3600"
  "unit_seconds CHR ''m'' = Some 60" "unit_seconds CHR ''s'' = Some 1"
  by (simp_all add: unit_seconds_def)

lemma formatDuration_cases:
  fixes n :: nat
  shows "formatDuration (Num (of_nat n)) = Inr
    (if n < 60 then show_nat n @ ''s''
     else if n < 3600 then
       if n mod 60 > 0 then show_nat (n div 60) @ ''m '' @ show_nat (n mod 60) @ ''s'' else show_nat (n div 60) @ ''m''
     else if n < 86400 then
       if (n mod 3600) div 60 > 0 then show_nat (n div 3600) @ ''h '' @ show_nat ((n mod 3600) div 60) @ ''m''
       else show_nat (n div 3600) @ ''h''
     else if (n mod 86400) div 3600 > 0 then show_nat (n div 86400) @ ''d '' @ show_nat ((n mod 86400) div 3600) @ ''h''
       else show_nat (n div 86400) @ ''d'')"
proof -
  have fl: "\<lfloor>of_nat n :: rat\<rfloor> = int n" by simp
  have sh: "show_int (int k) = show_nat k" for k by (simp add: show_int_def)
  have div: "int n div 60 = int (n div 60)" "int n mod 60 = int (n mod 60)"
    "int n div 3600 = int (n div 3600)" "int n mod 3600 div 60 = int (n mod 3600 div 60)"
    "int n div 86400 = int (n div 86400)" "int n mod 86400 div 3600 = int (n mod 86400 div 3600)"
    by (simp_all add: zdiv_int zmod_int)
  have neg: "\<not> (of_nat n :: rat) < 0" by simp
  have lt: "int n < numeral k \<longleftrightarrow> n < numeral k" for k by simp
  have pos: "(0 < int k) = (0 < k)" for k by simp
  show ?thesis
    unfolding formatDuration_def jsnum.case fl Let_def div sh lt pos if_not_P [OF neg]
    by (simp only: if_distrib [of Inr])
qed

lemma duration_truncation:
  fixes n :: nat
  shows "3600 \<le> n \<Longrightarrow> n div 3600 * 3600 + (n mod 3600) div 60 * 60 = n - n mod 60"
    and "n div 60 * 60 + n mod 60 = n"
    and "n div 86400 * 86400 + (n mod 86400) div 3600 * 3600 = n - n mod 3600"
proof -
  have "n mod 3600 mod 60 = n mod 60" by (simp add: mod_mod_cancel)
  then show "n div 3600 * 3600 + (n mod 3600) div 60 * 60 = n - n mod 60"
    using div_mult_mod_eq [of n 3600] div_mult_mod_eq [of "n mod 3600" 60] by linarith
  have "n mod 86400 mod 3600 = n mod 3600" by (simp add: mod_mod_cancel)
  then show "n div 86400 * 86400 + (n mod 86400) div 3600 * 3600 = n - n mod 3600"
    using div_mult_mod_eq [of n 86400] div_mult_mod_eq [of "n mod 86400" 3600] by linarith
qed simp

text \<open>
  parseDuration reads back what formatDuration prints, up to the resolution the
  printed form has: exact below an hour, whole minutes below a day, whole hours above.
\<close>
theorem parse_format_duration:
  fixes n :: nat
  shows "result_bind (formatDuration (Num (of_nat n))) parseDuration
    = Inr (n - n mod (if n < 3600 then 1 else if n < 86400 then 60 else 3600))"
proof -
  note trunc = duration_truncation [of n]
  have m: "parseDuration (show_nat a @ ''m '' @ show_nat b @ ''s'') = Inr (a * 60 + b)" for a b
    using parse_two [of "CHR ''m''" 60 "CHR ''s''" 1 a b] by simp
  have h: "parseDuration (show_nat a @ ''h '' @ show_nat b @ ''m'') = Inr (a * 3600 + b * 60)" for a b
    using parse_two [of "CHR ''h''" 3600 "CHR ''m''" 60 a b] by simp
  have d: "parseDuration (show_nat a @ ''d '' @ show_nat b @ ''h'') = Inr (a * 86400 + b * 3600)" for a b
    using parse_two [of "CHR ''d''" 86400 "CHR ''h''" 3600 a b] by simp
  have s1: "parseDuration (show_nat a @ ''s'') = Inr a" "parseDuration (show_nat a @ ''m'') = Inr (a * 60)"
    "parseDuration (show_nat a @ ''h'') = Inr (a * 3600)" "parseDuration (show_nat a @ ''d'') = Inr (a * 86400)" for a
    using parse_one [of "CHR ''s''" 1 a] parse_one [of "CHR ''m''" 60 a] parse_one [of "CHR ''h''" 3600 a]
      parse_one [of "CHR ''d''" 86400 a] by simp_all
  let ?P = "\<lambda>r. result_bind (formatDuration (Num (of_nat n))) parseDuration = Inr r"
  note eval = formatDuration_cases result_bind.simps if_distrib [of parseDuration] s1 m h d
  consider "n < 60" | "60 \<le> n" "n < 3600" | "3600 \<le> n" "n < 86400" | "86400 \<le> n" by linarith
  then show ?thesis
  proof cases
    case 1 then show ?thesis unfolding eval by simp
  next
    case 2
    then have "?P n" unfolding eval using trunc(2) by (cases "n mod 60 = 0") simp_all
    then show ?thesis using 2 by simp
  next
    case 3
    then have "?P (n div 3600 * 3600 + n mod 3600 div 60 * 60)" unfolding eval by simp
    then show ?thesis using 3 by (simp only: trunc) simp
  next
    case 4
    then have "?P (n div 86400 * 86400 + n mod 86400 div 3600 * 3600)" unfolding eval by simp
    then show ?thesis using 4 by (simp only: trunc) simp
  qed
qed

text \<open>Two inputs the token-length check gets wrong: inner white space counts as matched.\<close>

lemma parseDuration_inner_space:
  "parseDuration ''1 hx'' = Inr 3600" "parseDuration ''1 h'' = Inl ''Unparseable duration string''"
  by (simp_all add: parseDuration_def trim_def match_token_def is_digit_def is_space_def digits_val_def digit_val_def)

end
