(* ===== verification/Error_Codes.thy ===== *)
theory Error_Codes
  imports StreamFi_Prelude
begin

text \<open>
  The error catalogues of src/errors.ts: numeric codes, messages and recovery hints of
  the three contracts.  Strings are UTF-8 byte sequences where the source has
  typographic characters.
\<close>

section \<open>Typographic characters of the source text\<close>

definition em_dash :: string where "em_dash = [CHR 0xE2, CHR 0x80, CHR 0x94]"
definition apostrophe :: string where "apostrophe = [CHR 0xE2, CHR 0x80, CHR 0x99]"
definition le_sign :: string where "le_sign = [CHR 0xE2, CHR 0x89, CHR 0xA4]"
definition quote :: string where "quote = [CHR 0x27]"

section \<open>Codes, messages and hints\<close>

datatype StreamErrorCode = NotAuthorized
  | StreamNotFound
  | StreamCancelled
  | StreamNotStarted
  | StreamEnded
  | NothingToWithdraw
  | InsufficientDeposit
  | InvalidTimeRange
  | AlreadyPaused
  | NotPaused
  | ClawbackDisabled
  | ArithmeticOverflow
  | PauseThresholdNotMet
  | AlreadyInitialized
  | InvalidAmount

primrec stream_code :: "StreamErrorCode \<Rightarrow> int" where
  "stream_code StreamErrorCode.NotAuthorized = 1"
| "stream_code StreamErrorCode.StreamNotFound = 2"
| "stream_code StreamErrorCode.StreamCancelled = 3"
| "stream_code StreamErrorCode.StreamNotStarted = 4"
| "stream_code StreamErrorCode.StreamEnded = 5"
| "stream_code StreamErrorCode.NothingToWithdraw = 6"
| "stream_code StreamErrorCode.InsufficientDeposit = 7"
| "stream_code StreamErrorCode.InvalidTimeRange = 8"
| "stream_code StreamErrorCode.AlreadyPaused = 9"
| "stream_code StreamErrorCode.NotPaused = 10"
| "stream_code StreamErrorCode.ClawbackDisabled = 11"
| "stream_code StreamErrorCode.ArithmeticOverflow = 12"
| "stream_code StreamErrorCode.PauseThresholdNotMet = 13"
| "stream_code StreamErrorCode.AlreadyInitialized = 14"
| "stream_code StreamErrorCode.InvalidAmount = 15"

definition stream_code_all :: "StreamErrorCode list" where
  "stream_code_all = [StreamErrorCode.NotAuthorized, StreamErrorCode.StreamNotFound, StreamErrorCode.StreamCancelled, StreamErrorCode.StreamNotStarted, StreamErrorCode.StreamEnded, StreamErrorCode.NothingToWithdraw, StreamErrorCode.InsufficientDeposit, StreamErrorCode.InvalidTimeRange, StreamErrorCode.AlreadyPaused, StreamErrorCode.NotPaused, StreamErrorCode.ClawbackDisabled, StreamErrorCode.ArithmeticOverflow, StreamErrorCode.PauseThresholdNotMet, StreamErrorCode.AlreadyInitialized, StreamErrorCode.InvalidAmount]"

datatype FactoryErrorCode = NotInitialized
  | InvalidDeposit
  | InvalidRate
  | InvalidTimeRange
  | InsufficientDeposit
  | BackdatedStream
  | AlreadyInitialized
  | RateExceedsMax
  | DurationTooShort
  | ArithmeticOverflow

primrec factory_code :: "FactoryErrorCode \<Rightarrow> int" where
  "factory_code FactoryErrorCode.NotInitialized = 1"
| "factory_code FactoryErrorCode.InvalidDeposit = 2"
| "factory_code FactoryErrorCode.InvalidRate = 3"
| "factory_code FactoryErrorCode.InvalidTimeRange = 4"
| "factory_code FactoryErrorCode.InsufficientDeposit = 5"
| "factory_code FactoryErrorCode.BackdatedStream = 6"
| "factory_code FactoryErrorCode.AlreadyInitialized = 7"
| "factory_code FactoryErrorCode.RateExceedsMax = 8"
| "factory_code FactoryErrorCode.DurationTooShort = 9"
| "factory_code FactoryErrorCode.ArithmeticOverflow = 10"

definition factory_code_all :: "FactoryErrorCode list" where
  "factory_code_all = [FactoryErrorCode.NotInitialized, FactoryErrorCode.InvalidDeposit, FactoryErrorCode.InvalidRate, FactoryErrorCode.InvalidTimeRange, FactoryErrorCode.InsufficientDeposit, FactoryErrorCode.BackdatedStream, FactoryErrorCode.AlreadyInitialized, FactoryErrorCode.RateExceedsMax, FactoryErrorCode.DurationTooShort, FactoryErrorCode.ArithmeticOverflow]"

datatype GovernorErrorCode = NotAuthorized
  | InvalidParam
  | AlreadyInitialized

primrec governor_code :: "GovernorErrorCode \<Rightarrow> int" where
  "governor_code GovernorErrorCode.NotAuthorized = 1"
| "governor_code GovernorErrorCode.InvalidParam = 2"
| "governor_code GovernorErrorCode.AlreadyInitialized = 3"

definition governor_code_all :: "GovernorErrorCode list" where
  "governor_code_all = [GovernorErrorCode.NotAuthorized, GovernorErrorCode.InvalidParam, GovernorErrorCode.AlreadyInitialized]"

primrec STREAM_MESSAGES :: "StreamErrorCode \<Rightarrow> string" where
  "STREAM_MESSAGES StreamErrorCode.NotAuthorized =
    ''Caller is not the sender or recipient of this stream.''"
| "STREAM_MESSAGES StreamErrorCode.StreamNotFound =
    ''Stream not found.''"
| "STREAM_MESSAGES StreamErrorCode.StreamCancelled =
    ''This stream has been cancelled.''"
| "STREAM_MESSAGES StreamErrorCode.StreamNotStarted =
    ''Stream has not started yet.''"
| "STREAM_MESSAGES StreamErrorCode.StreamEnded =
    ''Stream has passed its end time.''"
| "STREAM_MESSAGES StreamErrorCode.NothingToWithdraw =
    ''Nothing to withdraw '' @ em_dash @ '' balance is zero.''"
| "STREAM_MESSAGES StreamErrorCode.InsufficientDeposit =
    ''Deposit is too small for the requested stream duration.''"
| "STREAM_MESSAGES StreamErrorCode.InvalidTimeRange =
    ''end_time must be greater than start_time.''"
| "STREAM_MESSAGES StreamErrorCode.AlreadyPaused =
    ''Stream is already paused.''"
| "STREAM_MESSAGES StreamErrorCode.NotPaused =
    ''Stream is not currently paused.''"
| "STREAM_MESSAGES StreamErrorCode.ClawbackDisabled =
    ''Clawback was not enabled when this stream was created.''"
| "STREAM_MESSAGES StreamErrorCode.ArithmeticOverflow =
    ''Integer overflow in stream calculation.''"
| "STREAM_MESSAGES StreamErrorCode.PauseThresholdNotMet =
    ''force_cancel called before the 30-day pause threshold elapsed.''"
| "STREAM_MESSAGES StreamErrorCode.AlreadyInitialized =
    ''Stream has already been initialized.''"
| "STREAM_MESSAGES StreamErrorCode.InvalidAmount =
    ''Amount must be greater than zero.''"

primrec FACTORY_MESSAGES :: "FactoryErrorCode \<Rightarrow> string" where
  "FACTORY_MESSAGES FactoryErrorCode.NotInitialized =
    ''Factory has not been initialized.''"
| "FACTORY_MESSAGES FactoryErrorCode.InvalidDeposit =
    ''Deposit must be greater than zero.''"
| "FACTORY_MESSAGES FactoryErrorCode.InvalidRate =
    ''rate_per_sec must be greater than zero.''"
| "FACTORY_MESSAGES FactoryErrorCode.InvalidTimeRange =
    ''end_time must be greater than start_time.''"
| "FACTORY_MESSAGES FactoryErrorCode.InsufficientDeposit =
    ''Deposit doesn'' @ quote @ ''t cover rate_per_sec for at least one second, or the full declared duration.''"
| "FACTORY_MESSAGES FactoryErrorCode.BackdatedStream =
    ''start_time cannot be in the past.''"
| "FACTORY_MESSAGES FactoryErrorCode.AlreadyInitialized =
    ''Factory has already been initialized.''"
| "FACTORY_MESSAGES FactoryErrorCode.RateExceedsMax =
    ''rate_per_sec exceeds the governor'' @ quote @ ''s max_rate_per_second.''"
| "FACTORY_MESSAGES FactoryErrorCode.DurationTooShort =
    ''Stream duration is below the governor'' @ quote @ ''s min_duration_seconds.''"
| "FACTORY_MESSAGES FactoryErrorCode.ArithmeticOverflow =
    ''Integer overflow validating deposit against duration.''"

primrec GOVERNOR_MESSAGES :: "GovernorErrorCode \<Rightarrow> string" where
  "GOVERNOR_MESSAGES GovernorErrorCode.NotAuthorized =
    ''Caller is not the current governor authority.''"
| "GOVERNOR_MESSAGES GovernorErrorCode.InvalidParam =
    ''Parameter failed validation (e.g. fee_bps > 10_000, zero duration/rate).''"
| "GOVERNOR_MESSAGES GovernorErrorCode.AlreadyInitialized =
    ''Governor has already been initialized.''"

primrec STREAM_RECOVERY_HINTS :: "StreamErrorCode \<Rightarrow> string" where
  "STREAM_RECOVERY_HINTS StreamErrorCode.NotAuthorized =
    ''Verify the calling account matches the stream'' @ apostrophe @ ''s sender or recipient; sign with the correct keypair, wallet, or signer for this operation.''"
| "STREAM_RECOVERY_HINTS StreamErrorCode.StreamNotFound =
    ''Confirm the stream ID exists and was created on the network you'' @ apostrophe @ ''re currently connected to (mainnet vs. testnet IDs do not overlap).''"
| "STREAM_RECOVERY_HINTS StreamErrorCode.StreamCancelled =
    ''This stream was already cancelled '' @ em_dash @ '' no further withdrawals, pauses, or resumes are possible. Create a new stream instead.''"
| "STREAM_RECOVERY_HINTS StreamErrorCode.StreamNotStarted =
    ''Wait until the stream'' @ apostrophe @ ''s startTime is reached before withdrawing or otherwise interacting with it.''"
| "STREAM_RECOVERY_HINTS StreamErrorCode.StreamEnded =
    ''The stream has passed its endTime. Withdraw any remaining balance; no further streaming will occur.''"
| "STREAM_RECOVERY_HINTS StreamErrorCode.NothingToWithdraw =
    ''Call withdrawable() first '' @ em_dash @ '' the balance may already be fully withdrawn, or the stream may not have accrued anything yet.''"
| "STREAM_RECOVERY_HINTS StreamErrorCode.InsufficientDeposit =
    ''Increase depositAmount or shorten durationSeconds so the resulting rate covers at least one second of streaming.''"
| "STREAM_RECOVERY_HINTS StreamErrorCode.InvalidTimeRange =
    ''Ensure endTime (or stopTime) is strictly greater than startTime.''"
| "STREAM_RECOVERY_HINTS StreamErrorCode.AlreadyPaused =
    ''The stream is already paused '' @ em_dash @ '' call resume() before pausing it again.''"
| "STREAM_RECOVERY_HINTS StreamErrorCode.NotPaused =
    ''The stream is not currently paused '' @ em_dash @ '' pause() must be called before resume().''"
| "STREAM_RECOVERY_HINTS StreamErrorCode.ClawbackDisabled =
    ''This stream was created with clawbackEnabled: false. Clawback is only available on streams created with that flag set.''"
| "STREAM_RECOVERY_HINTS StreamErrorCode.ArithmeticOverflow =
    ''Reduce the amount, rate, or duration involved '' @ em_dash @ '' the computation overflowed the contract'' @ apostrophe @ ''s 128-bit integer range.''"
| "STREAM_RECOVERY_HINTS StreamErrorCode.PauseThresholdNotMet =
    ''force_cancel requires the stream to have been paused for at least 30 days. Wait for the threshold to elapse, or use cancel() instead if you'' @ apostrophe @ ''re authorized to.''"
| "STREAM_RECOVERY_HINTS StreamErrorCode.AlreadyInitialized =
    ''This stream contract has already been initialized '' @ em_dash @ '' initialize() is a one-time setup call per deployment.''"
| "STREAM_RECOVERY_HINTS StreamErrorCode.InvalidAmount =
    ''Provide an amount greater than zero.''"

primrec FACTORY_RECOVERY_HINTS :: "FactoryErrorCode \<Rightarrow> string" where
  "FACTORY_RECOVERY_HINTS FactoryErrorCode.NotInitialized =
    ''The factory has not been initialized yet '' @ em_dash @ '' this is normally done once during protocol deployment/governance setup.''"
| "FACTORY_RECOVERY_HINTS FactoryErrorCode.InvalidDeposit =
    ''depositAmount must be greater than zero.''"
| "FACTORY_RECOVERY_HINTS FactoryErrorCode.InvalidRate =
    ''The computed ratePerSecond must be greater than zero '' @ em_dash @ '' check your depositAmount/durationSeconds math.''"
| "FACTORY_RECOVERY_HINTS FactoryErrorCode.InvalidTimeRange =
    ''Ensure endTime is strictly greater than startTime.''"
| "FACTORY_RECOVERY_HINTS FactoryErrorCode.InsufficientDeposit =
    ''Increase the deposit so it covers at least one second of streaming at the given rate across the full declared duration.''"
| "FACTORY_RECOVERY_HINTS FactoryErrorCode.BackdatedStream =
    ''startTime must be now or in the future '' @ em_dash @ '' check for clock skew or a stale timestamp before building the transaction.''"
| "FACTORY_RECOVERY_HINTS FactoryErrorCode.AlreadyInitialized =
    ''The factory has already been initialized '' @ em_dash @ '' this is a one-time setup call.''"
| "FACTORY_RECOVERY_HINTS FactoryErrorCode.RateExceedsMax =
    ''Lower ratePerSecond below the governor'' @ apostrophe @ ''s configured max_rate_per_second, or ask governance to raise the limit.''"
| "FACTORY_RECOVERY_HINTS FactoryErrorCode.DurationTooShort =
    ''Increase durationSeconds to at least the governor'' @ apostrophe @ ''s configured min_duration_seconds.''"
| "FACTORY_RECOVERY_HINTS FactoryErrorCode.ArithmeticOverflow =
    ''Reduce the deposit or duration involved '' @ em_dash @ '' the validation computation overflowed.''"

primrec GOVERNOR_RECOVERY_HINTS :: "GovernorErrorCode \<Rightarrow> string" where
  "GOVERNOR_RECOVERY_HINTS GovernorErrorCode.NotAuthorized =
    ''Only the current governor authority can perform this action '' @ em_dash @ '' verify you'' @ apostrophe @ ''re signing with the configured governor address.''"
| "GOVERNOR_RECOVERY_HINTS GovernorErrorCode.InvalidParam =
    ''Check fee_bps (must be '' @ le_sign @ '' 10,000) and any duration/rate parameters passed to setConfig '' @ em_dash @ '' one of them failed validation.''"
| "GOVERNOR_RECOVERY_HINTS GovernorErrorCode.AlreadyInitialized =
    ''The governor has already been initialized '' @ em_dash @ '' this is a one-time setup call.''"

end
