(* ===== verification/Errors.thy ===== *)
theory Errors
  imports Error_Codes Js_Strings
begin

text \<open>
  The error classes of src/errors.ts and the functions that build, translate and
  classify errors.  A thrown JavaScript value is a tree: an error object with its
  class, message, the properties the code inspects and its cause, or a bare string.
\<close>

section \<open>Contracts and catalogues\<close>

datatype ConduitContract = Stream | Factory | Governor

primrec contract_name :: "ConduitContract \<Rightarrow> string" where
  "contract_name Stream = ''stream''"
| "contract_name Factory = ''factory''"
| "contract_name Governor = ''governor''"

definition UNKNOWN_CONTRACT_ERROR_CODE :: int where "UNKNOWN_CONTRACT_ERROR_CODE = -1"

definition stream_of_code :: "int \<Rightarrow> StreamErrorCode option" where
  "stream_of_code n = find (\<lambda>c. stream_code c = n) stream_code_all"

definition factory_of_code :: "int \<Rightarrow> FactoryErrorCode option" where
  "factory_of_code n = find (\<lambda>c. factory_code c = n) factory_code_all"

definition governor_of_code :: "int \<Rightarrow> GovernorErrorCode option" where
  "governor_of_code n = find (\<lambda>c. governor_code c = n) governor_code_all"

definition MESSAGES_BY_CONTRACT :: "ConduitContract \<Rightarrow> int \<Rightarrow> string option" where
  "MESSAGES_BY_CONTRACT contract n =
    (case contract of
       Stream \<Rightarrow> map_option STREAM_MESSAGES (stream_of_code n)
     | Factory \<Rightarrow> map_option FACTORY_MESSAGES (factory_of_code n)
     | Governor \<Rightarrow> map_option GOVERNOR_MESSAGES (governor_of_code n))"

definition RECOVERY_HINTS_BY_CONTRACT :: "ConduitContract \<Rightarrow> int \<Rightarrow> string option" where
  "RECOVERY_HINTS_BY_CONTRACT contract n =
    (case contract of
       Stream \<Rightarrow> map_option STREAM_RECOVERY_HINTS (stream_of_code n)
     | Factory \<Rightarrow> map_option FACTORY_RECOVERY_HINTS (factory_of_code n)
     | Governor \<Rightarrow> map_option GOVERNOR_RECOVERY_HINTS (governor_of_code n))"

definition DEFAULT_RECOVERY_HINT :: string where
  "DEFAULT_RECOVERY_HINT = ''No troubleshooting hint is available for this error code. Check the contract'' @ apostrophe @
     ''s errors.rs and the Conduit protocol docs for its meaning.''"

definition getRecoveryHint :: "ConduitContract \<Rightarrow> int \<Rightarrow> string" where
  "getRecoveryHint contract n =
    (case RECOVERY_HINTS_BY_CONTRACT contract n of Some h \<Rightarrow> h | None \<Rightarrow> DEFAULT_RECOVERY_HINT)"

definition known_code :: "ConduitContract \<Rightarrow> int \<Rightarrow> bool" where
  "known_code contract n = (MESSAGES_BY_CONTRACT contract n \<noteq> None)"

definition last_code :: "ConduitContract \<Rightarrow> int" where
  "last_code contract = (case contract of Stream \<Rightarrow> 15 | Factory \<Rightarrow> 10 | Governor \<Rightarrow> 3)"

lemma find_code_range:
  "(stream_of_code n \<noteq> None) = (1 \<le> n \<and> n \<le> 15)"
  "(factory_of_code n \<noteq> None) = (1 \<le> n \<and> n \<le> 10)"
  "(governor_of_code n \<noteq> None) = (1 \<le> n \<and> n \<le> 3)"
  by (simp_all add: stream_of_code_def factory_of_code_def governor_of_code_def find_None_iff
      stream_code_all_def factory_code_all_def governor_code_all_def)
     presburger+

lemma known_code_range: "known_code contract n \<longleftrightarrow> 1 \<le> n \<and> n \<le> last_code contract"
  using find_code_range [of n]
  by (cases contract) (simp_all add: known_code_def MESSAGES_BY_CONTRACT_def last_code_def)

section \<open>Error objects\<close>

datatype StreamLifecycleState = LCancelled | LNot_started | LEnded | LPaused | LActive

primrec lifecycle_name :: "StreamLifecycleState \<Rightarrow> string" where
  "lifecycle_name LCancelled = ''cancelled''"
| "lifecycle_name LNot_started = ''not_started''"
| "lifecycle_name LEnded = ''ended''"
| "lifecycle_name LPaused = ''paused''"
| "lifecycle_name LActive = ''active''"

definition STATE_BY_CODE :: "int \<Rightarrow> StreamLifecycleState option" where
  "STATE_BY_CODE n =
    (if n = stream_code StreamErrorCode.StreamCancelled then Some LCancelled
     else if n = stream_code StreamErrorCode.StreamNotStarted then Some LNot_started
     else if n = stream_code StreamErrorCode.StreamEnded then Some LEnded
     else if n = stream_code StreamErrorCode.AlreadyPaused then Some LPaused
     else if n = stream_code StreamErrorCode.NotPaused then Some LActive
     else None)"

record HorizonResultCodes =
  transaction_code :: "string option"
  operation_codes :: "string list option"

datatype (plugins only: code size) error_class =
    PlainError
  | TypeErrorClass
  | NamedError string
  | ConduitErrorClass ConduitContract int
  | GovernorInvalidParamError
  | StreamNotFoundError int
  | AmountExceedsWithdrawableError int
  | UnauthorizedStreamActionError string string
  | InvalidStreamStateError string int
  | ClawbackNotEnabledError
  | RateExceedsMaxError
  | DurationTooShortError
  | BackdatedStreamError
  | UnsupportedChainError string
  | StreamFiNetworkError
  | InsufficientBalanceError int int
  | RateLimitError "rat option"
  | RpcServiceUnavailableError "rat option"
  | CircuitOpenError string "int option"
  | IndexerTimeoutError string int
  | OperationAbortedError string
  | ConfirmationTimeoutError string int int
  | SignatureTimeoutError int
  | UserCancelledError string
  | AlbedoCancelError
  | NetworkMismatchError string string
  | WalletTimeoutError string int
  | AlbedoInvalidSignatureError int
  | BadAuthError HorizonResultCodes
  | HorizonTransactionError HorizonResultCodes
  | SorobanRpcError
  | ValidationError "string list"
  | IndexerMaxPagesExceededError int int
  | ContractErrorClass "ConduitContract option" "int option"

datatype code_value = NumCode int | StrCode string

datatype thrown =
    ErrorObject error_class string "code_value option" "int option" "int option" "thrown option"
  | ThrownString string

text \<open>
  The arguments of an error object are its class, message, own code property, own
  status, the status of its response property, and its cause.
\<close>

fun err_class :: "thrown \<Rightarrow> error_class option" where
  "err_class (ErrorObject c _ _ _ _ _) = Some c"
| "err_class (ThrownString _) = None"

fun err_message :: "thrown \<Rightarrow> string" where
  "err_message (ErrorObject _ m _ _ _ _) = m"
| "err_message (ThrownString s) = s"

fun err_cause :: "thrown \<Rightarrow> thrown option" where
  "err_cause (ErrorObject _ _ _ _ _ c) = c"
| "err_cause (ThrownString _) = None"

definition new_error :: "error_class \<Rightarrow> string \<Rightarrow> thrown" where
  "new_error c m = ErrorObject c m None None None None"

text \<open>Contract and code of the instances of ConduitError, subclasses included.\<close>

fun conduit_code :: "error_class \<Rightarrow> (ConduitContract \<times> int) option" where
  "conduit_code (ConduitErrorClass c n) = Some (c, n)"
| "conduit_code GovernorInvalidParamError = Some (Governor, governor_code GovernorErrorCode.InvalidParam)"
| "conduit_code (StreamNotFoundError _) = Some (Stream, stream_code StreamErrorCode.StreamNotFound)"
| "conduit_code (AmountExceedsWithdrawableError _) = Some (Stream, stream_code StreamErrorCode.NothingToWithdraw)"
| "conduit_code (UnauthorizedStreamActionError _ _) = Some (Stream, stream_code StreamErrorCode.NotAuthorized)"
| "conduit_code (InvalidStreamStateError _ n) = Some (Stream, n)"
| "conduit_code ClawbackNotEnabledError = Some (Stream, stream_code StreamErrorCode.ClawbackDisabled)"
| "conduit_code RateExceedsMaxError = Some (Factory, factory_code FactoryErrorCode.RateExceedsMax)"
| "conduit_code DurationTooShortError = Some (Factory, factory_code FactoryErrorCode.DurationTooShort)"
| "conduit_code BackdatedStreamError = Some (Factory, factory_code FactoryErrorCode.BackdatedStream)"
| "conduit_code _ = None"

fun err_name :: "error_class \<Rightarrow> string" where
  "err_name PlainError = ''Error''"
| "err_name TypeErrorClass = ''TypeError''"
| "err_name (NamedError n) = n"
| "err_name (ConduitErrorClass _ _) = ''ConduitError''"
| "err_name GovernorInvalidParamError = ''GovernorInvalidParamError''"
| "err_name (StreamNotFoundError _) = ''StreamNotFoundError''"
| "err_name (AmountExceedsWithdrawableError _) = ''AmountExceedsWithdrawableError''"
| "err_name (UnauthorizedStreamActionError _ _) = ''UnauthorizedStreamActionError''"
| "err_name (InvalidStreamStateError _ _) = ''InvalidStreamStateError''"
| "err_name ClawbackNotEnabledError = ''ClawbackNotEnabledError''"
| "err_name RateExceedsMaxError = ''RateExceedsMaxError''"
| "err_name DurationTooShortError = ''DurationTooShortError''"
| "err_name BackdatedStreamError = ''BackdatedStreamError''"
| "err_name (UnsupportedChainError _) = ''UnsupportedChainError''"
| "err_name StreamFiNetworkError = ''StreamFiNetworkError''"
| "err_name (InsufficientBalanceError _ _) = ''InsufficientBalanceError''"
| "err_name (RateLimitError _) = ''RateLimitError''"
| "err_name (RpcServiceUnavailableError _) = ''RpcServiceUnavailableError''"
| "err_name (CircuitOpenError _ _) = ''CircuitOpenError''"
| "err_name (IndexerTimeoutError _ _) = ''IndexerTimeoutError''"
| "err_name (OperationAbortedError _) = ''OperationAbortedError''"
| "err_name (ConfirmationTimeoutError _ _ _) = ''ConfirmationTimeoutError''"
| "err_name (SignatureTimeoutError _) = ''SignatureTimeoutError''"
| "err_name (UserCancelledError _) = ''UserCancelledError''"
| "err_name AlbedoCancelError = ''AlbedoCancelError''"
| "err_name (NetworkMismatchError _ _) = ''NetworkMismatchError''"
| "err_name (WalletTimeoutError _ _) = ''WalletTimeoutError''"
| "err_name (AlbedoInvalidSignatureError _) = ''AlbedoInvalidSignatureError''"
| "err_name (BadAuthError _) = ''BadAuthError''"
| "err_name (HorizonTransactionError _) = ''HorizonTransactionError''"
| "err_name SorobanRpcError = ''SorobanRpcError''"
| "err_name (ValidationError _) = ''ValidationError''"
| "err_name (IndexerMaxPagesExceededError _ _) = ''IndexerMaxPagesExceededError''"
| "err_name (ContractErrorClass _ _) = ''ContractError''"

text \<open>The code property an object shows: the numeric code of the typed errors, or its own.\<close>

fun err_code :: "thrown \<Rightarrow> code_value option" where
  "err_code (ErrorObject c _ k _ _ _) =
    (case conduit_code c of Some (_, n) \<Rightarrow> Some (NumCode n)
     | None \<Rightarrow> (case c of ContractErrorClass _ n \<Rightarrow> map_option NumCode n | _ \<Rightarrow> k))"
| "err_code (ThrownString _) = None"

section \<open>Constructors\<close>

definition conduit_error :: "ConduitContract \<Rightarrow> int \<Rightarrow> string option \<Rightarrow> thrown" where
  "conduit_error contract n detail =
    new_error (ConduitErrorClass contract n)
      (case detail of Some d \<Rightarrow> d
       | None \<Rightarrow> (case MESSAGES_BY_CONTRACT contract n of Some m \<Rightarrow> m
           | None \<Rightarrow> ''ConduitError('' @ contract_name contract @ '', #'' @ show_int n @ '')''))"

definition governor_invalid_param :: "string option \<Rightarrow> thrown" where
  "governor_invalid_param detail = new_error GovernorInvalidParamError
    (case detail of Some d \<Rightarrow> d | None \<Rightarrow> GOVERNOR_MESSAGES GovernorErrorCode.InvalidParam)"

definition stream_not_found :: "int \<Rightarrow> thrown" where
  "stream_not_found i = new_error (StreamNotFoundError i) (''Stream '' @ show_int i @ '' not found'')"

definition amount_exceeds_withdrawable :: "int \<Rightarrow> int \<Rightarrow> thrown" where
  "amount_exceeds_withdrawable available requested =
    new_error (AmountExceedsWithdrawableError available)
      (''Requested amount ('' @ show_int requested @ '') exceeds the withdrawable balance ('' @
       show_int available @ '').'')"

definition unauthorized_stream_action :: "string \<Rightarrow> string \<Rightarrow> thrown" where
  "unauthorized_stream_action operation caller =
    new_error (UnauthorizedStreamActionError operation caller)
      (quote @ caller @ quote @ '' is not authorized to perform '' @ quote @ operation @ quote @ '' on this stream.'')"

definition invalid_stream_state :: "string \<Rightarrow> int \<Rightarrow> thrown" where
  "invalid_stream_state operation n =
    new_error (InvalidStreamStateError operation n)
      (case STATE_BY_CODE n of
         Some st \<Rightarrow> ''Cannot '' @ operation @ '': stream is '' @ lifecycle_name st @ ''.''
       | None \<Rightarrow> ''Cannot '' @ operation @ '': stream is in an invalid state for this action.'')"

definition clawback_not_enabled :: thrown where
  "clawback_not_enabled = new_error ClawbackNotEnabledError (STREAM_MESSAGES StreamErrorCode.ClawbackDisabled)"

definition rate_exceeds_max :: thrown where
  "rate_exceeds_max = new_error RateExceedsMaxError (FACTORY_MESSAGES FactoryErrorCode.RateExceedsMax)"

definition duration_too_short :: thrown where
  "duration_too_short = new_error DurationTooShortError (FACTORY_MESSAGES FactoryErrorCode.DurationTooShort)"

definition backdated_stream :: thrown where
  "backdated_stream = new_error BackdatedStreamError (FACTORY_MESSAGES FactoryErrorCode.BackdatedStream)"

definition plain_error :: "string \<Rightarrow> thrown" where
  "plain_error m = new_error PlainError m"

definition aborted :: thrown where
  "aborted = new_error (NamedError ''AbortError'') ''Aborted''"

section \<open>Host error messages\<close>

text \<open>
  The regular expression Error(Contract, #digits) with optional white space before
  the hash: the leftmost match, its digit run maximal and closed by a parenthesis.
\<close>

definition strip_prefix :: "string \<Rightarrow> string \<Rightarrow> string option" where
  "strip_prefix p s = (if take (length p) s = p then Some (drop (length p) s) else None)"

definition contract_error_at :: "string \<Rightarrow> nat option" where
  "contract_error_at s =
    (case strip_prefix ''Error(Contract,'' s of None \<Rightarrow> None
     | Some r \<Rightarrow>
         (case strip_prefix ''#'' (dropWhile is_space r) of None \<Rightarrow> None
          | Some ds \<Rightarrow>
              let n = takeWhile is_digit ds; rest = dropWhile is_digit ds
              in if n \<noteq> [] \<and> rest \<noteq> [] \<and> hd rest = CHR '')'' then Some (digits_val n) else None))"

fun find_contract_error :: "string \<Rightarrow> nat option" where
  "find_contract_error [] = None"
| "find_contract_error (c # s) =
    (case contract_error_at (c # s) of Some n \<Rightarrow> Some n | None \<Rightarrow> find_contract_error s)"

fun find_wasm_invalid_action :: "string \<Rightarrow> bool" where
  "find_wasm_invalid_action [] = False"
| "find_wasm_invalid_action (c # s) =
    ((case strip_prefix ''Error(WasmVm,'' (c # s) of None \<Rightarrow> False
      | Some r \<Rightarrow> strip_prefix ''InvalidAction)'' (dropWhile is_space r) \<noteq> None)
     \<or> find_wasm_invalid_action s)"

text \<open>fromStroopsInternal: JavaScript division truncates and keeps the sign in the remainder.\<close>

definition strip_trailing_zeros :: "string \<Rightarrow> string" where
  "strip_trailing_zeros s = rev (dropWhile (\<lambda>c. c = CHR ''0'') (rev s))"

definition fromStroopsInternal :: "int \<Rightarrow> string" where
  "fromStroopsInternal stroops =
    (let factor = 10000000;
         whole = (if stroops < 0 then - ((- stroops) div factor) else stroops div factor);
         rem = (if stroops < 0 then - ((- stroops) mod factor) else stroops mod factor);
         digits = strip_trailing_zeros (pad_start 7 CHR ''0'' (show_int rem))
     in show_int whole @ ''.'' @ (if digits = [] then ''0'' else digits))"

definition insufficient_balance :: "int \<Rightarrow> int \<Rightarrow> string option \<Rightarrow> thrown" where
  "insufficient_balance current required detail =
    new_error (InsufficientBalanceError current required)
      (''You need at least '' @ fromStroopsInternal required @ '' XLM to create this stream (you have '' @
       fromStroopsInternal current @ '' XLM).'' @
       (case detail of Some d \<Rightarrow> (if d = [] then [] else '' ('' @ d @ '')'') | None \<Rightarrow> []))"

definition message_detail :: "ConduitContract \<Rightarrow> int \<Rightarrow> string \<Rightarrow> string" where
  "message_detail contract n message =
    (case MESSAGES_BY_CONTRACT contract n of Some m \<Rightarrow> m | None \<Rightarrow> ''undefined'') @ '' ('' @ message @ '')''"

definition fromSorobanMessage :: "ConduitContract \<Rightarrow> string \<Rightarrow> thrown" where
  "fromSorobanMessage contract message =
    (if find_wasm_invalid_action message then insufficient_balance 0 0 (Some message)
     else case find_contract_error message of
       None \<Rightarrow> plain_error message
     | Some k \<Rightarrow>
         let n = int k in
         if \<not> known_code contract n then plain_error message
         else if contract = Factory \<and> n = factory_code FactoryErrorCode.RateExceedsMax then rate_exceeds_max
         else if contract = Factory \<and> n = factory_code FactoryErrorCode.DurationTooShort then duration_too_short
         else if contract = Factory \<and> n = factory_code FactoryErrorCode.BackdatedStream then backdated_stream
         else if contract = Governor \<and> n = governor_code GovernorErrorCode.InvalidParam then
           governor_invalid_param (Some (message_detail contract n message))
         else conduit_error contract n (Some (message_detail contract n message)))"

text \<open>fromContractError reads the code property of the raw value; String(raw) is an argument.\<close>

definition fromContractError :: "ConduitContract \<Rightarrow> int option \<Rightarrow> string \<Rightarrow> thrown" where
  "fromContractError contract raw_code raw_text =
    (case raw_code of
       Some n \<Rightarrow>
         if known_code contract n then
           (if contract = Governor \<and> n = governor_code GovernorErrorCode.InvalidParam
            then governor_invalid_param None else conduit_error contract n None)
         else conduit_error contract UNKNOWN_CONTRACT_ERROR_CODE (Some raw_text)
     | None \<Rightarrow> conduit_error contract UNKNOWN_CONTRACT_ERROR_CODE (Some raw_text))"

definition translateStreamError :: "thrown \<Rightarrow> string \<Rightarrow> string \<Rightarrow> thrown" where
  "translateStreamError err operation caller =
    (case err_class err of
       None \<Rightarrow> err
     | Some c \<Rightarrow>
         (case conduit_code c of
            Some (Stream, n) \<Rightarrow>
              if n = stream_code StreamErrorCode.NotAuthorized then unauthorized_stream_action operation caller
              else if n = stream_code StreamErrorCode.ClawbackDisabled then clawback_not_enabled
              else if STATE_BY_CODE n \<noteq> None then invalid_stream_state operation n
              else err
          | _ \<Rightarrow> err))"

section \<open>Parsing contract errors\<close>

definition extract_once :: "thrown \<Rightarrow> int option" where
  "extract_once e =
    (case err_code e of
       Some (NumCode n) \<Rightarrow> if n > 0 then Some n else map_option int (find_contract_error (err_message e))
     | _ \<Rightarrow> map_option int (find_contract_error (err_message e)))"

fun extractContractErrorCode :: "nat \<Rightarrow> thrown option \<Rightarrow> int option" where
  "extractContractErrorCode 0 _ = None"
| "extractContractErrorCode (Suc depth) None = None"
| "extractContractErrorCode (Suc depth) (Some e) =
    (case extract_once e of Some n \<Rightarrow> Some n | None \<Rightarrow> extractContractErrorCode depth (err_cause e))"

definition contractsDefiningCode :: "int \<Rightarrow> ConduitContract list" where
  "contractsDefiningCode n = filter (\<lambda>c. known_code c n) [Stream, Factory, Governor]"

record ContractErrorContext =
  ctx_streamId :: "int option"
  ctx_operation :: "string option"
  ctx_caller :: "string option"

definition contract_error :: "string \<Rightarrow> ConduitContract option \<Rightarrow> int option \<Rightarrow> thrown" where
  "contract_error m c n = new_error (ContractErrorClass c n) m"

definition ambiguity_text :: "ConduitContract list \<Rightarrow> int \<Rightarrow> string" where
  "ambiguity_text cs n =
    (case map (\<lambda>c. contract_name c @ '' #'' @ show_int n @ '' ('' @
        (case MESSAGES_BY_CONTRACT c n of Some m \<Rightarrow> m | None \<Rightarrow> ''undefined'') @ '')'') cs of
       [] \<Rightarrow> []
     | t # ts \<Rightarrow> t @ concat (map (\<lambda>x. '', '' @ x) ts))"

definition given :: "string option \<Rightarrow> bool" where
  "given s = (case s of Some x \<Rightarrow> x \<noteq> [] | None \<Rightarrow> False)"

definition typed_contract_error :: "ConduitContract \<Rightarrow> int \<Rightarrow> ContractErrorContext \<Rightarrow> thrown" where
  "typed_contract_error scope n ctx =
    (case scope of
       Governor \<Rightarrow>
         if n = governor_code GovernorErrorCode.InvalidParam then governor_invalid_param None
         else conduit_error scope n None
     | Factory \<Rightarrow>
         if n = factory_code FactoryErrorCode.RateExceedsMax then rate_exceeds_max
         else if n = factory_code FactoryErrorCode.DurationTooShort then duration_too_short
         else if n = factory_code FactoryErrorCode.BackdatedStream then backdated_stream
         else conduit_error scope n None
     | Stream \<Rightarrow>
         if n = stream_code StreamErrorCode.ClawbackDisabled then clawback_not_enabled
         else if n = stream_code StreamErrorCode.NotAuthorized \<and> given (ctx_operation ctx) \<and> given (ctx_caller ctx)
           then unauthorized_stream_action (the (ctx_operation ctx)) (the (ctx_caller ctx))
         else if n = stream_code StreamErrorCode.StreamNotFound \<and> ctx_streamId ctx \<noteq> None
           then stream_not_found (the (ctx_streamId ctx))
         else if STATE_BY_CODE n \<noteq> None \<and> given (ctx_operation ctx)
           then invalid_stream_state (the (ctx_operation ctx)) n
         else conduit_error scope n None)"

definition parseContractError :: "thrown \<Rightarrow> ConduitContract option \<Rightarrow> ContractErrorContext \<Rightarrow> thrown" where
  "parseContractError e contract ctx =
    (if (case err_class e of Some c \<Rightarrow> conduit_code c \<noteq> None | None \<Rightarrow> False) then e
     else case extractContractErrorCode 5 (Some e) of
       None \<Rightarrow> (case e of ThrownString s \<Rightarrow> plain_error s | _ \<Rightarrow> e)
     | Some n \<Rightarrow>
         (case (case contract of Some c \<Rightarrow> Inr c
                | None \<Rightarrow> (case contractsDefiningCode n of [c] \<Rightarrow> Inr c | cs \<Rightarrow> Inl cs)) of
            Inl [] \<Rightarrow> contract_error (''Unknown contract error code #'' @ show_int n @ ''.'') None (Some n)
          | Inl cs \<Rightarrow> contract_error (''Contract error code #'' @ show_int n @ '' is ambiguous '' @ em_dash @
                '' it is defined by more than one contract: '' @ ambiguity_text cs n @
                ''. Pass the contract to disambiguate.'') None (Some n)
          | Inr scope \<Rightarrow>
              if \<not> known_code scope n then
                contract_error (''Unknown '' @ contract_name scope @ '' contract error code #'' @ show_int n @ ''.'')
                  (Some scope) (Some n)
              else typed_contract_error scope n ctx))"

section \<open>Transport and Horizon errors\<close>

text \<open>
  parseRetryAfterMs: a header value is a number of seconds or a date.  Date.parse and
  the current time in milliseconds are arguments.
\<close>

definition parseRetryAfterMs :: "(string \<Rightarrow> int option) \<Rightarrow> int \<Rightarrow> string option \<Rightarrow> rat option" where
  "parseRetryAfterMs date_parse nowMs raw =
    (case raw of None \<Rightarrow> None
     | Some r \<Rightarrow>
         if trim r = [] then None
         else case number_of_string (trim r) of
           Num d \<Rightarrow> if d \<ge> 0 then Some (d * 1000)
                    else map_option (\<lambda>t. of_int (max 0 (t - nowMs))) (date_parse (trim r))
         | _ \<Rightarrow> map_option (\<lambda>t. of_int (max 0 (t - nowMs))) (date_parse (trim r)))"

definition fromRpcError ::
    "(string \<Rightarrow> int option) \<Rightarrow> int \<Rightarrow> string option \<Rightarrow> thrown \<Rightarrow> thrown option" where
  "fromRpcError date_parse nowMs retry_after raw =
    (case raw of ThrownString _ \<Rightarrow> None
     | ErrorObject c m k st response cause \<Rightarrow>
         if response = Some 429 then
           Some (new_error (RateLimitError (parseRetryAfterMs date_parse nowMs retry_after))
             ''RPC node rate limit exceeded (429). Back off and retry against the same endpoint.'')
         else if response = Some 503 then
           Some (new_error (RpcServiceUnavailableError (parseRetryAfterMs date_parse nowMs retry_after))
             ''RPC node service unavailable (503). The endpoint may be down; consider failing over to a different RPC URL.'')
         else if err_code raw = Some (NumCode 429) \<or> err_code raw = Some (NumCode (-32029)) then
           Some (new_error (RateLimitError None)
             ''RPC node rate limit exceeded (JSON-RPC error). Back off and retry.'')
         else None)"

definition HORIZON_BAD_AUTH_CODES :: "string list" where
  "HORIZON_BAD_AUTH_CODES = [''tx_bad_auth'', ''tx_bad_auth_extra'', ''op_bad_auth'']"

definition HORIZON_UNDERFUNDED_CODES :: "string list" where
  "HORIZON_UNDERFUNDED_CODES = [''tx_insufficient_balance'', ''op_underfunded'', ''op_low_reserve'']"

definition join_with :: "string \<Rightarrow> string list \<Rightarrow> string" where
  "join_with sep ss = (case ss of [] \<Rightarrow> [] | s # r \<Rightarrow> s @ concat (map (\<lambda>x. sep @ x) r))"

definition horizon_codes :: "HorizonResultCodes \<Rightarrow> string list" where
  "horizon_codes rc =
    (case transaction_code rc of Some t \<Rightarrow> [t] | None \<Rightarrow> []) @
    (case operation_codes rc of Some os \<Rightarrow> os | None \<Rightarrow> [])"

text \<open>
  mapHorizonError after extractHorizonResultCodes: the codes found in the response, the
  detail text if it is a string, and the error to fall back to when there are none.
\<close>

definition mapHorizonError :: "HorizonResultCodes option \<Rightarrow> string option \<Rightarrow> thrown \<Rightarrow> thrown" where
  "mapHorizonError resultCodes detail json =
    (case resultCodes of
       None \<Rightarrow> (case json of ThrownString s \<Rightarrow> plain_error s | _ \<Rightarrow> json)
     | Some rc \<Rightarrow>
         let codes = horizon_codes rc in
         if list_ex (\<lambda>c. c \<in> set HORIZON_UNDERFUNDED_CODES) codes then
           insufficient_balance 0 0 (Some (''Horizon result codes: '' @ join_with '', '' codes))
         else if list_ex (\<lambda>c. c \<in> set HORIZON_BAD_AUTH_CODES) codes then
           new_error (BadAuthError rc)
             (''Transaction rejected: missing or invalid signature(s) ('' @ join_with '', '' codes @ '').'')
         else
           new_error (HorizonTransactionError rc)
             (case detail of Some d \<Rightarrow> d
              | None \<Rightarrow> (case transaction_code rc of
                  Some t \<Rightarrow> if t = [] then ''Horizon rejected the transaction.''
                    else ''Horizon rejected the transaction: '' @ t @
                      (case operation_codes rc of
                         Some os \<Rightarrow> if os = [] then [] else '' ('' @ join_with '', '' os @ '')''
                       | None \<Rightarrow> [])
                | None \<Rightarrow> ''Horizon rejected the transaction.'')))"

section \<open>Classification\<close>

definition CONDUIT_ERROR_NAMES :: "string list" where
  "CONDUIT_ERROR_NAMES =
    [''SorobanRpcError'', ''ConduitError'', ''UnsupportedChainError'', ''StreamFiNetworkError'',
     ''InsufficientBalanceError'', ''RateLimitError'', ''RpcServiceUnavailableError'',
     ''IndexerTimeoutError'', ''OperationAbortedError'', ''StreamNotFoundError'',
     ''AmountExceedsWithdrawableError'', ''UnauthorizedStreamActionError'',
     ''InvalidStreamStateError'', ''ClawbackNotEnabledError'', ''RateExceedsMaxError'',
     ''DurationTooShortError'', ''BackdatedStreamError'', ''ConfirmationTimeoutError'',
     ''SignatureTimeoutError'', ''CircuitOpenError'', ''ValidationError'',
     ''IndexerMaxPagesExceededError'', ''UserCancelledError'', ''AlbedoCancelError'',
     ''NetworkMismatchError'', ''BadAuthError'', ''HorizonTransactionError'']"

fun isConduitError :: "thrown \<Rightarrow> bool" where
  "isConduitError (ErrorObject c _ _ _ _ _) = (err_name c \<in> set CONDUIT_ERROR_NAMES)"
| "isConduitError (ThrownString _) = False"

definition RECOVERABLE_HTTP_STATUSES :: "int list" where
  "RECOVERABLE_HTTP_STATUSES = [408, 425, 429, 500, 502, 503, 504]"

definition RECOVERABLE_NODE_CODES :: "string list" where
  "RECOVERABLE_NODE_CODES =
    [''ECONNRESET'', ''ECONNREFUSED'', ''ECONNABORTED'', ''ETIMEDOUT'', ''ENOTFOUND'',
     ''EAI_AGAIN'', ''EPIPE'', ''ENETUNREACH'', ''EHOSTUNREACH'', ''UND_ERR_CONNECT_TIMEOUT'']"

definition RECOVERABLE_ERROR_NAMES :: "string list" where
  "RECOVERABLE_ERROR_NAMES =
    [''RateLimitError'', ''RpcServiceUnavailableError'', ''StreamFiNetworkError'',
     ''IndexerTimeoutError'', ''ConfirmationTimeoutError'', ''CircuitOpenError'', ''TimeoutError'']"

definition lower_char :: "char \<Rightarrow> char" where
  "lower_char c = (let n = of_char c :: nat in if 65 \<le> n \<and> n \<le> 90 then char_of (n + 32) else c)"

fun contains_text :: "string \<Rightarrow> string \<Rightarrow> bool" where
  "contains_text p [] = (p = [])"
| "contains_text p (c # s) = (take (length p) (c # s) = p \<or> contains_text p s)"

definition network_text :: "string \<Rightarrow> bool" where
  "network_text m = (let l = map lower_char m in
     contains_text ''failed to fetch'' l \<or> contains_text ''network'' l \<or> contains_text ''load failed'' l)"

fun isRecoverableOnce :: "thrown \<Rightarrow> bool option" where
  "isRecoverableOnce (ThrownString _) = None"
| "isRecoverableOnce (ErrorObject c m k st response cause) =
    (if err_name c \<in> set RECOVERABLE_ERROR_NAMES then Some True
     else if err_name c = ''OperationAbortedError'' \<or> err_name c = ''AbortError'' then Some False
     else if isConduitError (ErrorObject c m k st response cause) then Some False
     else
       (case (case st of Some s \<Rightarrow> Some s | None \<Rightarrow> response) of
          Some s \<Rightarrow> Some (s \<in> set RECOVERABLE_HTTP_STATUSES)
        | None \<Rightarrow>
            (case err_code (ErrorObject c m k st response cause) of
               Some (NumCode n) \<Rightarrow> if n \<in> set RECOVERABLE_HTTP_STATUSES then Some True else None
             | Some (StrCode s) \<Rightarrow>
                 if s \<in> set RECOVERABLE_NODE_CODES then Some True
                 else if c = TypeErrorClass \<and> network_text m then Some True else None
             | None \<Rightarrow> if c = TypeErrorClass \<and> network_text m then Some True else None)))"

fun recoverable_chain :: "nat \<Rightarrow> thrown option \<Rightarrow> bool" where
  "recoverable_chain 0 _ = False"
| "recoverable_chain (Suc depth) None = False"
| "recoverable_chain (Suc depth) (Some e) =
    (case isRecoverableOnce e of Some verdict \<Rightarrow> verdict | None \<Rightarrow> recoverable_chain depth (err_cause e))"

definition isRecoverableError :: "thrown \<Rightarrow> bool" where
  "isRecoverableError e = recoverable_chain 5 (Some e)"

end
