(* ===== verification/Error_Properties.thy ===== *)
theory Error_Properties
  imports Errors
begin

text \<open>
  What the error functions of theory Errors guarantee: codes survive the mapping to
  typed classes, host messages are read back, and classification along causes.
\<close>

section \<open>Codes of constructed errors\<close>

named_theorems error_class_simps \<open>classes of the errors built by the constructors\<close>

lemma constructed_classes [error_class_simps]:
  "err_class (conduit_error c n d) = Some (ConduitErrorClass c n)"
  "err_class (governor_invalid_param d) = Some GovernorInvalidParamError"
  "err_class (stream_not_found i) = Some (StreamNotFoundError i)"
  "err_class (amount_exceeds_withdrawable a r) = Some (AmountExceedsWithdrawableError a)"
  "err_class (unauthorized_stream_action oper caller) = Some (UnauthorizedStreamActionError oper caller)"
  "err_class (invalid_stream_state oper n) = Some (InvalidStreamStateError oper n)"
  "err_class clawback_not_enabled = Some ClawbackNotEnabledError"
  "err_class rate_exceeds_max = Some RateExceedsMaxError"
  "err_class duration_too_short = Some DurationTooShortError"
  "err_class backdated_stream = Some BackdatedStreamError"
  "err_class (plain_error m) = Some PlainError"
  "err_class (contract_error m co cn) = Some (ContractErrorClass co cn)"
  "err_class (insufficient_balance a b d) = Some (InsufficientBalanceError a b)"
  by (simp_all add: conduit_error_def governor_invalid_param_def stream_not_found_def
      amount_exceeds_withdrawable_def unauthorized_stream_action_def invalid_stream_state_def
      clawback_not_enabled_def rate_exceeds_max_def duration_too_short_def backdated_stream_def
      plain_error_def contract_error_def insufficient_balance_def new_error_def)

lemma typed_contract_error_code:
  "\<exists>c. err_class (typed_contract_error scope n ctx) = Some c \<and> conduit_code c = Some (scope, n)"
  by (cases scope) (auto simp: typed_contract_error_def error_class_simps)

lemma contractsDefiningCode_unique:
  "contractsDefiningCode n = [c] \<longleftrightarrow> c = Stream \<and> 11 \<le> n \<and> n \<le> 15"
  by (auto simp: contractsDefiningCode_def known_code_range last_code_def split: if_splits)

section \<open>Reading codes out of host messages\<close>

lemma strip_prefix_append [simp]: "strip_prefix p (p @ s) = Some s"
  by (simp add: strip_prefix_def)

lemma contract_error_at_host:
  "contract_error_at (''Error(Contract, #'' @ show_nat n @ '')'' @ rest) = Some n"
proof -
  have a: "''Error(Contract, #'' @ show_nat n @ '')'' @ rest
      = ''Error(Contract,'' @ '' #'' @ show_nat n @ '')'' @ rest" by simp
  have sp: "\<not> is_space CHR ''#''" "is_space CHR '' ''" by (simp_all add: is_space_def)
  have d: "takeWhile is_digit (show_nat n @ CHR '')'' # rest) = show_nat n"
    "dropWhile is_digit (show_nat n @ CHR '')'' # rest) = CHR '')'' # rest"
    using show_nat_digits [of n] by (auto simp: list_all_iff takeWhile_append dropWhile_append is_digit_def)
  have h: "strip_prefix ''#'' (CHR ''#'' # s) = Some s" for s by (simp add: strip_prefix_def)
  show ?thesis
    unfolding a contract_error_at_def strip_prefix_append
    using sp by (simp add: h d)
qed

lemma find_contract_error_host:
  "find_contract_error (''HostError: Error(Contract, #'' @ show_nat n @ '')'' @ rest) = Some n"
proof -
  let ?m = "''Error(Contract, #'' @ show_nat n @ '')'' @ rest"
  have "find_contract_error ?m = Some n"
    using contract_error_at_host [of n rest] by simp
  moreover have "contract_error_at (c # s) = None" if "c \<noteq> CHR ''E''" for c s
    using that by (simp add: contract_error_at_def strip_prefix_def)
  moreover have "contract_error_at (''Error: '' @ s) = None" for s
    by (simp add: contract_error_at_def strip_prefix_def)
  ultimately show ?thesis by simp
qed

lemma find_wasm_skip:
  "CHR ''E'' \<notin> set p \<Longrightarrow> find_wasm_invalid_action (p @ s) = find_wasm_invalid_action s"
  by (induction p) (auto simp: strip_prefix_def)

lemma find_wasm_host:
  "find_wasm_invalid_action (''HostError: Error(Contract, #'' @ show_nat n @ '')'' @ rest)
    = find_wasm_invalid_action rest"
proof -
  have "CHR ''E'' \<notin> set (show_nat n @ '')'')" by (simp add: show_nat_no_char is_digit_def)
  then have tail: "find_wasm_invalid_action (show_nat n @ CHR '')'' # rest) = find_wasm_invalid_action rest"
    using find_wasm_skip [of "show_nat n @ '')''" rest] by simp
  have host: "find_wasm_invalid_action (''Host'' @ s) = find_wasm_invalid_action s"
    "find_wasm_invalid_action (''rror: '' @ s) = find_wasm_invalid_action s"
    "find_wasm_invalid_action (''rror(Contract, #'' @ s) = find_wasm_invalid_action s" for s
    by (rule find_wasm_skip, simp)+
  have miss: "strip_prefix ''Error(WasmVm,'' (CHR ''E'' # ''rror: '' @ s) = None"
    "strip_prefix ''Error(WasmVm,'' (CHR ''E'' # ''rror(Contract, #'' @ s) = None" for s
    by (simp_all add: strip_prefix_def)
  have e: "find_wasm_invalid_action (CHR ''E'' # ''rror: '' @ s) = find_wasm_invalid_action s"
    "find_wasm_invalid_action (CHR ''E'' # ''rror(Contract, #'' @ s) = find_wasm_invalid_action s" for s
    unfolding find_wasm_invalid_action.simps(2) miss by (simp_all only: host option.case simp_thms)
  have "''HostError: Error(Contract, #'' @ show_nat n @ '')'' @ rest
      = ''Host'' @ (CHR ''E'' # ''rror: '' @ (CHR ''E'' # ''rror(Contract, #'' @ (show_nat n @ CHR '')'' # rest)))"
    by simp
  then show ?thesis by (simp only: host e tail)
qed

section \<open>Cause chains\<close>

fun causes :: "thrown \<Rightarrow> thrown list" where
  "causes (ErrorObject c m k st r (Some e)) = ErrorObject c m k st r (Some e) # causes e"
| "causes e = [e]"

lemma causes_step: "causes e = e # (case err_cause e of Some d \<Rightarrow> causes d | None \<Rightarrow> [])"
  by (cases e rule: causes.cases) auto

definition first_verdict :: "thrown list \<Rightarrow> bool" where
  "first_verdict es = (case List.find (\<lambda>e. isRecoverableOnce e \<noteq> None) es of
     Some e \<Rightarrow> isRecoverableOnce e = Some True | None \<Rightarrow> False)"

lemma recoverable_chain_causes: "recoverable_chain d (Some e) = first_verdict (take d (causes e))"
proof (induction d arbitrary: e)
  case (Suc d)
  show ?case
  proof (cases "isRecoverableOnce e")
    case None
    then have "recoverable_chain (Suc d) (Some e) = recoverable_chain d (err_cause e)" by simp
    moreover have "first_verdict (take (Suc d) (causes e))
        = first_verdict (take d (case err_cause e of Some d \<Rightarrow> causes d | None \<Rightarrow> []))"
      using None by (subst causes_step) (simp add: first_verdict_def)
    ultimately show ?thesis using Suc.IH
      by (cases "err_cause e"; cases d) (auto simp: first_verdict_def)
  next
    case (Some v)
    then show ?thesis by (subst causes_step) (simp add: first_verdict_def)
  qed
qed (simp add: first_verdict_def)

section \<open>Properties\<close>

text \<open>
  parseContractError never changes what failed: when a code is found in an error that is
  not typed yet, the result is an instance of ConduitError with exactly the requested
  contract and that code (whatever dedicated class it gets), or, when the catalogue of
  the contract does not know the code, a ContractError that still carries it.  Without a
  contract only codes 11 to 15 are resolved, and only to the stream contract.
\<close>
theorem parseContractError_keeps_code:
  assumes "case err_class e of Some c \<Rightarrow> conduit_code c = None | None \<Rightarrow> True"
    and "extractContractErrorCode 5 (Some e) = Some n"
  shows "\<exists>c. err_class (parseContractError e contract ctx) = Some c \<and>
    (case contract of
       Some k \<Rightarrow> (if known_code k n then conduit_code c = Some (k, n) else c = ContractErrorClass (Some k) (Some n))
     | None \<Rightarrow> (if 11 \<le> n \<and> n \<le> 15 then conduit_code c = Some (Stream, n) else c = ContractErrorClass None (Some n)))"
proof -
  have untyped: "\<not> (case err_class e of Some c \<Rightarrow> conduit_code c \<noteq> None | None \<Rightarrow> False)"
    using assms(1) by (simp split: option.splits)
  show ?thesis
  proof (cases contract)
    case (Some k)
    then show ?thesis
      using assms(2) untyped typed_contract_error_code [of k n ctx]
      by (simp add: parseContractError_def error_class_simps)
  next
    case None
    show ?thesis
    proof (cases "11 \<le> n \<and> n \<le> 15")
      case True
      then have "contractsDefiningCode n = [Stream]" "known_code Stream n"
        by (simp_all add: contractsDefiningCode_unique known_code_range last_code_def)
      then show ?thesis
        using None True assms(2) untyped typed_contract_error_code [of Stream n ctx]
        by (simp add: parseContractError_def)
    next
      case False
      then have "contractsDefiningCode n \<noteq> [c]" for c by (simp add: contractsDefiningCode_unique)
      then show ?thesis
        using None False assms(2) untyped
        by (simp add: parseContractError_def split: list.split) (auto simp: error_class_simps)
    qed
  qed
qed

definition no_context :: ContractErrorContext where
  "no_context = \<lparr> ctx_streamId = None, ctx_operation = None, ctx_caller = None \<rparr>"

lemma parseContractError_keeps_code_witness:
  "\<exists>c. err_class (parseContractError (ErrorObject PlainError ''x'' (Some (NumCode 8)) None None None)
      (Some Factory) no_context) = Some c \<and> conduit_code c = Some (Factory, 8)"
  using parseContractError_keeps_code [of "ErrorObject PlainError ''x'' (Some (NumCode 8)) None None None" 8 "Some Factory" no_context]
  by (simp add: eval_nat_numeral extract_once_def known_code_range last_code_def)

text \<open>
  Host error messages are decoded faithfully: for every catalogued code n the message
  HostError: Error(Contract, #n) with any trailing text becomes an instance of
  ConduitError with that contract and code; an uncatalogued code stays a plain error with
  the whole message.  Only the WasmVm InvalidAction marker in the trailing text takes
  precedence and reports an insufficient balance.
\<close>
theorem fromSorobanMessage_decodes:
  fixes n :: nat
  defines "msg rest \<equiv> ''HostError: Error(Contract, #'' @ show_nat n @ '')'' @ rest"
  shows "\<exists>c. err_class (fromSorobanMessage k (msg rest)) = Some c \<and>
    (if find_wasm_invalid_action rest then c = InsufficientBalanceError 0 0
     else if known_code k (int n) then conduit_code c = Some (k, int n)
     else c = PlainError \<and> err_message (fromSorobanMessage k (msg rest)) = msg rest)"
proof -
  have f: "find_contract_error (msg rest) = Some n" "find_wasm_invalid_action (msg rest) = find_wasm_invalid_action rest"
    unfolding msg_def by (rule find_contract_error_host, rule find_wasm_host)
  consider "find_wasm_invalid_action rest"
    | "\<not> find_wasm_invalid_action rest" "\<not> known_code k (int n)"
    | "\<not> find_wasm_invalid_action rest" "known_code k (int n)" by blast
  then show ?thesis
  proof cases
    case 1 then show ?thesis by (simp add: fromSorobanMessage_def f error_class_simps)
  next
    case 2 then show ?thesis
      by (simp add: fromSorobanMessage_def f error_class_simps) (simp add: plain_error_def new_error_def)
  next
    case 3 then show ?thesis
      by (cases k) (auto simp: fromSorobanMessage_def f error_class_simps Let_def)
  qed
qed

text \<open>
  Retrying is decided by the first error of the cause chain, at most five deep, that the
  classification knows: its verdict is the answer, and a chain nobody recognises is not
  retried.  A contract rejection or a cancellation by the caller is never retried.
\<close>
theorem isRecoverableError_first_verdict:
  "isRecoverableError e = first_verdict (take 5 (causes e)) \<and>
   (err_class e = Some (ConduitErrorClass k n) \<or> err_class e = Some (OperationAbortedError oper) \<or>
    err_class e = Some (NamedError ''AbortError'') \<longrightarrow> \<not> isRecoverableError e)"
proof -
  have "isRecoverableOnce e = Some False"
    if "err_class e = Some (ConduitErrorClass k n) \<or> err_class e = Some (OperationAbortedError oper) \<or>
      err_class e = Some (NamedError ''AbortError'')"
    using that by (cases e) (auto simp: RECOVERABLE_ERROR_NAMES_def CONDUIT_ERROR_NAMES_def)
  moreover have "isRecoverableOnce e = Some False \<Longrightarrow> \<not> isRecoverableError e"
    by (simp add: isRecoverableError_def eval_nat_numeral)
  moreover have "isRecoverableError e = first_verdict (take 5 (causes e))"
    by (simp only: isRecoverableError_def recoverable_chain_causes)
  ultimately show ?thesis by blast
qed

lemma isRecoverableError_first_verdict_witness:
  "\<not> isRecoverableError (conduit_error Stream 6 None)"
  using isRecoverableError_first_verdict [of "conduit_error Stream 6 None" Stream 6 "''x''", THEN conjunct2]
  by (simp add: error_class_simps)

end
