(* ===== verification/Amounts.thy ===== *)
theory Amounts
  imports StreamFi_Prelude
begin

text \<open>
  Token amounts of src/utils.ts: display strings to stroops and back (toStroops,
  fromStroops), rates and yields (calculateRate, calculateYield) and display
  formatting (formatTokenAmount).  A bigint is an int, a decimals argument a nat.
\<close>

section \<open>Powers of ten\<close>

definition POW10 :: "int list" where
  "POW10 = [1, 10, 100, 1000, 10000, 100000, 1000000, 10000000,
    100000000, 1000000000, 10000000000, 100000000000,
    1000000000000, 10000000000000, 100000000000000,
    1000000000000000, 10000000000000000, 100000000000000000,
    1000000000000000000, 10000000000000000000]"

text \<open>
  Above the table the code computes BigInt(10 ** decimals): an IEEE double, that is
  the exact power rounded to 53 significant bits, ties to even.
\<close>

function shift_to_53 :: "nat \<Rightarrow> nat" where
  "shift_to_53 n = (if n < 2 ^ 53 then 0 else Suc (shift_to_53 (n div 2)))"
  by pat_completeness auto
termination by (relation "measure id") auto

declare shift_to_53.simps [simp del]

definition round_double :: "nat \<Rightarrow> nat" where
  "round_double n = (let k = shift_to_53 n; q = n div 2 ^ k; r = n mod 2 ^ k in
     (if 2 * r > 2 ^ k \<or> (2 * r = 2 ^ k \<and> odd q) then q + 1 else q) * 2 ^ k)"

definition pow10 :: "nat \<Rightarrow> int" where
  "pow10 d = (if d < length POW10 then POW10 ! d else int (round_double (10 ^ d)))"

lemma pow10_table: "d < 20 \<Longrightarrow> pow10 d = 10 ^ d"
proof -
  assume "d < 20"
  moreover have "list_all (\<lambda>d. POW10 ! d = 10 ^ d) [0..<20]"
    by code_simp
  moreover have "length POW10 = 20" by (simp add: POW10_def)
  ultimately show ?thesis by (simp add: pow10_def list_all_iff)
qed

lemma pow10_exact: "d \<le> 22 \<Longrightarrow> pow10 d = 10 ^ d"
proof (cases "d < 20")
  case False
  assume "d \<le> 22"
  with False consider "d = 20" | "d = 21" | "d = 22" by linarith
  then show ?thesis
  proof cases
    case 1
    have "round_double (10 ^ 20) = 10 ^ 20"
      by (simp add: round_double_def shift_to_53.simps Let_def)
    with 1 show ?thesis by (simp add: pow10_def POW10_def)
  next
    case 2
    have "round_double (10 ^ 21) = 10 ^ 21"
      by (simp add: round_double_def shift_to_53.simps Let_def)
    with 2 show ?thesis by (simp add: pow10_def POW10_def)
  next
    case 3
    have "round_double (10 ^ 22) = 10 ^ 22"
      by (simp add: round_double_def shift_to_53.simps Let_def)
    with 3 show ?thesis by (simp add: pow10_def POW10_def)
  qed
qed (simp add: pow10_table)

lemma pow10_23: "pow10 23 = 99999999999999991611392"
  by (simp add: pow10_def POW10_def round_double_def shift_to_53.simps Let_def)

section \<open>Display string to stroops\<close>

datatype amount_error = Invalid_amount_format string | Bad_duration jsnum

definition amount_syntax :: "string \<Rightarrow> bool" where
  "amount_syntax s = (let r = dropWhile is_digit s in
     r = [] \<or> (hd r = CHR ''.'' \<and> list_all is_digit (tl r)))"

definition toStroops :: "string \<Rightarrow> nat \<Rightarrow> (amount_error, int) result" where
  "toStroops amount decimals =
    (if \<not> amount_syntax amount \<or> amount = ''.'' \<or> amount = [] then Inl (Invalid_amount_format amount)
     else
       let whole = (case index_of CHR ''.'' amount of None \<Rightarrow> amount | Some i \<Rightarrow> take i amount);
           frac = (case index_of CHR ''.'' amount of None \<Rightarrow> [] | Some i \<Rightarrow> drop (i + 1) amount);
           needed = decimals + 1;
           fracPadded = (if length frac \<ge> needed then take needed frac
                         else frac @ replicate (needed - length frac) CHR ''0'');
           fracValue = int (digits_val fracPadded);
           roundingDigit = digit_val (fracPadded ! decimals);
           roundedFrac = (if roundingDigit \<ge> 5 then fracValue div 10 + 1 else fracValue div 10)
       in Inr (int (digits_val whole) * pow10 decimals + roundedFrac))"

fun trim_end :: "string \<Rightarrow> nat \<Rightarrow> nat" where
  "trim_end s 0 = 0"
| "trim_end s (Suc e) = (if Suc e > 1 \<and> s ! e = CHR ''0'' then trim_end s e else Suc e)"

definition fromStroops :: "int \<Rightarrow> nat \<Rightarrow> string" where
  "fromStroops stroops decimals =
    (let neg = stroops < 0;
         absv = (if neg then - stroops else stroops);
         factor = pow10 decimals;
         whole = absv div factor;
         rem = absv mod factor;
         frac = pad_start decimals CHR ''0'' (show_int rem);
         trimmed = take (trim_end frac (length frac)) frac
     in (if neg then ''-'' else '''') @ show_int whole @ ''.'' @ trimmed)"

lemma trim_end_le: "trim_end f e \<le> e"
  by (induction e) auto

lemma trim_end_pos: "0 < e \<Longrightarrow> 0 < trim_end f e"
  by (induction e) auto

lemma take_trim_end:
  "e \<le> length f \<Longrightarrow> take (trim_end f e) f @ replicate (e - trim_end f e) CHR ''0'' = take e f"
proof (induction e)
  case (Suc e)
  show ?case
  proof (cases "Suc e > 1 \<and> f ! e = CHR ''0''")
    case True
    have "take (trim_end f e) f @ replicate (Suc e - trim_end f e) CHR ''0''
        = (take (trim_end f e) f @ replicate (e - trim_end f e) CHR ''0'') @ [CHR ''0'']"
      using trim_end_le [of f e] by (simp add: Suc_diff_le replicate_append_same)
    also have "\<dots> = take (Suc e) f"
      using Suc True by (simp add: take_Suc_conv_app_nth)
    finally show ?thesis using True by simp
  next
    case False
    then have "trim_end f (Suc e) = Suc e" by auto
    then show ?thesis by simp
  qed
qed simp

section \<open>Syntax of amounts and their exact value\<close>

definition amount_parts :: "string \<Rightarrow> string \<times> string" where
  "amount_parts s = (takeWhile is_digit s, tl (dropWhile is_digit s))"

definition amount_value :: "string \<Rightarrow> rat" where
  "amount_value s = (case amount_parts s of (w, f) \<Rightarrow>
     of_nat (digits_val w) + of_nat (digits_val f) / 10 ^ length f)"

lemma digits_no_dot: "list_all is_digit w \<Longrightarrow> CHR ''.'' \<notin> set w"
  by (auto simp: list_all_iff)

lemma amount_syntax_cases:
  assumes "amount_syntax s"
  obtains (whole) "list_all is_digit s" "amount_parts s = (s, [])"
  | (frac) w f where "s = w @ CHR ''.'' # f" "list_all is_digit w" "list_all is_digit f"
      "amount_parts s = (w, f)"
proof (cases "dropWhile is_digit s")
  case Nil
  then have "list_all is_digit s" by (simp add: list_all_iff dropWhile_eq_Nil_conv)
  moreover have "takeWhile is_digit s = s" using Nil by (simp add: takeWhile_eq_all_conv dropWhile_eq_Nil_conv)
  ultimately show ?thesis using that(1) Nil by (simp add: amount_parts_def)
next
  case (Cons c r)
  with assms have "c = CHR ''.''" "list_all is_digit r" by (auto simp: amount_syntax_def)
  moreover have "s = takeWhile is_digit s @ c # r" using Cons by (metis takeWhile_dropWhile_id)
  moreover have "list_all is_digit (takeWhile is_digit s)" by (auto simp: list_all_iff dest: set_takeWhileD)
  ultimately show ?thesis using that(2) Cons by (simp add: amount_parts_def)
qed

lemma amount_syntax_dot:
  "list_all is_digit w \<Longrightarrow> list_all is_digit f \<Longrightarrow> amount_syntax (w @ CHR ''.'' # f)"
  by (simp add: amount_syntax_def dropWhile_append list_all_iff)

text \<open>The digits kept by toStroops: the fraction cut or padded to one digit more than needed.\<close>

definition frac_digits :: "string \<Rightarrow> nat \<Rightarrow> string" where
  "frac_digits f n = (if length f \<ge> n then take n f else f @ replicate (n - length f) CHR ''0'')"

definition round_last :: "string \<Rightarrow> nat \<Rightarrow> int" where
  "round_last p d = (if digit_val (p ! d) \<ge> 5 then int (digits_val p) div 10 + 1
                     else int (digits_val p) div 10)"

lemma length_frac_digits [simp]: "length (frac_digits f n) = n"
  by (simp add: frac_digits_def)

lemma toStroops_parts:
  assumes "amount_syntax s" "s \<noteq> ''.''" "s \<noteq> []" "amount_parts s = (w, f)"
  shows "toStroops s d = Inr (int (digits_val w) * pow10 d + round_last (frac_digits f (d + 1)) d)"
  using assms(1)
proof (cases rule: amount_syntax_cases)
  case whole
  then have "index_of CHR ''.'' s = None" by (simp add: index_of_None digits_no_dot)
  with whole assms show ?thesis
    by (simp add: toStroops_def frac_digits_def round_last_def Let_def)
next
  case (frac w' f')
  then have "index_of CHR ''.'' s = Some (length w')" by (simp add: digits_no_dot)
  with frac assms show ?thesis
    by (simp add: toStroops_def frac_digits_def round_last_def Let_def)
qed

lemma toStroops_error_iff:
  "(\<exists>e. toStroops s d = Inl e) \<longleftrightarrow> \<not> amount_syntax s \<or> s = ''.'' \<or> s = []"
  by (auto simp: toStroops_def Let_def)


section \<open>Rounding of toStroops\<close>

lemma digits_val_last:
  assumes "length p = Suc d"
  shows "digits_val p = digits_val (take d p) * 10 + digit_val (p ! d)"
proof -
  have "p = take d p @ [p ! d]" using assms
    by (metis lessI order_refl take_Suc_conv_app_nth take_all)
  then have "digits_val p = digits_val (take d p @ [p ! d])" by simp
  then show ?thesis by (simp add: digits_val_append)
qed

lemma round_digit:
  fixes g x :: nat
  assumes "g < 10"
  shows "(if 5 \<le> g then int (x * 10 + g) div 10 + 1 else int (x * 10 + g) div 10)
       = (int (x * 10 + g) + 5) div 10"
  using assms by auto

lemma round_last_value:
  assumes "length p = Suc d" "list_all is_digit p"
  shows "round_last p d = (int (digits_val p) + 5) div 10"
proof -
  have "digit_val (p ! d) < 10" using assms by (auto simp: list_all_length intro: digit_val_less)
  then show ?thesis
    unfolding round_last_def digits_val_last [OF assms(1)] by (rule round_digit)
qed

text \<open>
  Cutting the fraction one digit behind the rounding position does not change the
  rounded value: the scaled value differs by less than one unit of that digit.
\<close>

lemma frac_digits_digits [simp]: "list_all is_digit f \<Longrightarrow> list_all is_digit (frac_digits f n)"
  by (auto simp: frac_digits_def list_all_iff dest: in_set_takeD)

lemma digits_val_frac_digits:
  assumes "list_all is_digit f"
  shows "int (digits_val (frac_digits f n)) = (int (digits_val f) * 10 ^ n) div 10 ^ length f"
proof (cases "length f \<ge> n")
  case True
  let ?t = "take n f" and ?r = "drop n f"
  have f: "digits_val f = digits_val ?t * 10 ^ length ?r + digits_val ?r"
    using digits_val_append [of ?t ?r] by simp
  have r: "digits_val ?r < 10 ^ length ?r"
    using assms by (intro digits_val_less) (auto simp: list_all_iff dest: in_set_dropD)
  have p: "(10::int) ^ length f = 10 ^ n * 10 ^ length ?r"
    using True by (simp flip: power_add)
  have "(int (digits_val f) * 10 ^ n) div 10 ^ length f = int (digits_val f) div 10 ^ length ?r"
    unfolding p by (simp add: mult.commute [of _ "10 ^ n"])
  also have "\<dots> = int (digits_val f div 10 ^ length ?r)" by (simp add: zdiv_int)
  also have "digits_val f div 10 ^ length ?r = digits_val ?t"
    using r unfolding f by simp
  finally show ?thesis using True by (simp add: frac_digits_def)
next
  case False
  then have "(10::int) ^ n = 10 ^ length f * 10 ^ (n - length f)" by (simp flip: power_add)
  then show ?thesis using False
    by (simp add: frac_digits_def digits_val_append)
qed

lemma round_after_cut:
  fixes v :: int
  assumes "0 < q"
  shows "((10 * v) div q + 5) div 10 = (2 * v + q) div (2 * q)"
proof -
  have "(10 * v) div q + 5 = (10 * v + 5 * q) div q" using assms by simp
  then have "((10 * v) div q + 5) div 10 = (10 * v + 5 * q) div (q * 10)"
    using assms by (simp add: zdiv_zmult2_eq)
  also have "\<dots> = (5 * (2 * v + q)) div (5 * (2 * q))" by (simp add: algebra_simps)
  also have "\<dots> = (2 * v + q) div (2 * q)" by (rule div_mult_mult1) simp
  finally show ?thesis .
qed

lemma round_frac_digits:
  assumes "list_all is_digit f"
  shows "round_last (frac_digits f (d + 1)) d
       = round_half_up (int (digits_val f) * 10 ^ d) (10 ^ length f)"
proof -
  have "round_last (frac_digits f (d + 1)) d = (int (digits_val (frac_digits f (d + 1))) + 5) div 10"
    using assms by (intro round_last_value) auto
  also have "int (digits_val (frac_digits f (d + 1)))
      = (10 * (int (digits_val f) * 10 ^ d)) div 10 ^ length f"
    using digits_val_frac_digits [OF assms, of "d + 1"] by (simp add: algebra_simps)
  also have "(\<dots> + 5) div 10 = round_half_up (int (digits_val f) * 10 ^ d) (10 ^ length f)"
    unfolding round_half_up_def by (rule round_after_cut) simp
  finally show ?thesis .
qed

lemma round_half_up_shift:
  assumes "0 < q"
  shows "round_half_up (a * q + b) q = a + round_half_up b q"
proof -
  have eq: "2 * (a * q + b) + q = a * (2 * q) + (2 * b + q)" by (simp add: algebra_simps)
  show ?thesis unfolding round_half_up_def eq using assms by (intro div_mult_self3) simp
qed

lemma round_half_up_floor:
  assumes "0 < q"
  shows "round_half_up n q = \<lfloor>(of_int n / of_int q + 1 / 2 :: rat)\<rfloor>"
proof -
  have "(of_int n / of_int q + 1 / 2 :: rat) = of_int (2 * n + q) / of_int (2 * q)"
    using assms by (simp add: field_simps)
  then show ?thesis unfolding round_half_up_def by (simp only: floor_divide_of_int_eq)
qed

lemma toStroops_round:
  assumes "amount_syntax s" "s \<noteq> ''.''" "s \<noteq> []" "amount_parts s = (w, f)" "d \<le> 22"
  shows "toStroops s d = Inr (round_half_up (int (digits_val (w @ f)) * 10 ^ d) (10 ^ length f))"
proof -
  have f: "list_all is_digit f" using assms(1)
    by (cases rule: amount_syntax_cases) (use assms(4) in auto)
  let ?q = "(10::int) ^ length f"
  have "int (digits_val (w @ f)) * 10 ^ d = (int (digits_val w) * 10 ^ d) * ?q + int (digits_val f) * 10 ^ d"
    by (simp add: digits_val_append algebra_simps)
  then show ?thesis
    using toStroops_parts [OF assms(1-4), of d]
    by (simp add: round_frac_digits [OF f, simplified] pow10_exact [OF assms(5)] round_half_up_shift)
qed


section \<open>Round trip\<close>

lemma frac_digits_trim:
  assumes "length f \<le> n" "0 < length f"
  shows "frac_digits (take (trim_end f (length f)) f) n = f @ replicate (n - length f) CHR ''0''"
proof -
  let ?e = "trim_end f (length f)"
  have e: "?e \<le> length f" by (rule trim_end_le)
  have "frac_digits (take ?e f) n = take ?e f @ replicate (n - ?e) CHR ''0''"
    using e assms by (auto simp: frac_digits_def min_def)
  also have "n - ?e = (length f - ?e) + (n - length f)" using e assms by simp
  also have "take ?e f @ replicate \<dots> CHR ''0''
      = (take ?e f @ replicate (length f - ?e) CHR ''0'') @ replicate (n - length f) CHR ''0''"
    by (simp only: replicate_add append_assoc)
  also have "\<dots> = f @ replicate (n - length f) CHR ''0''"
    using take_trim_end [of "length f" f] by simp
  finally show ?thesis .
qed

lemma show_int_nonneg: "0 \<le> z \<Longrightarrow> show_int z = show_nat (nat z)"
  by (simp add: show_int_def)

lemma fromStroops_nonneg:
  fixes d :: nat and n :: int
  assumes "0 \<le> n"
  defines "fr \<equiv> pad_start d CHR ''0'' (show_nat (nat (n mod pow10 d)))"
  assumes "0 < pow10 d"
  shows "fromStroops n d = show_nat (nat (n div pow10 d)) @ CHR ''.'' # take (trim_end fr (length fr)) fr"
  using assms by (simp add: fromStroops_def show_int_nonneg Let_def pos_imp_zdiv_nonneg_iff)

lemma round_last_zero:
  "list_all is_digit f \<Longrightarrow> length f = Suc d \<Longrightarrow> digits_val f = 10 * k \<Longrightarrow> round_last f d = int k"
  by (simp add: round_last_value)

lemma toStroops_fromStroops_nonneg:
  assumes "0 \<le> n" "d \<le> 22"
  shows "toStroops (fromStroops n d) d = Inr n"
proof -
  let ?w = "show_nat (nat (n div 10 ^ d))" and ?r = "nat (n mod 10 ^ d)"
  let ?frac = "pad_start d CHR ''0'' (show_nat ?r)"
  let ?t = "take (trim_end ?frac (length ?frac)) ?frac"
  have p: "pow10 d = 10 ^ d" using assms(2) by (rule pow10_exact)
  have len: "length (show_nat ?r) \<le> max 1 d"
  proof (cases "d = 0")
    case True then show ?thesis by (simp add: show_nat.simps)
  next
    case False
    have "n mod 10 ^ d < 10 ^ d" by simp
    then have "?r < 10 ^ d" by (simp add: nat_less_iff)
    then show ?thesis using False show_nat_length [of ?r d] by simp
  qed
  have s: "fromStroops n d = ?w @ CHR ''.'' # ?t"
    using fromStroops_nonneg [of n d] assms(1) by (simp add: p)
  have digits: "list_all is_digit ?frac" by simp
  then have "list_all is_digit ?t" unfolding list_all_iff by (blast dest: in_set_takeD)
  note digits = this digits
  have syn: "amount_syntax (fromStroops n d)" unfolding s
    using digits by (intro amount_syntax_dot) auto
  have parts: "amount_parts (fromStroops n d) = (?w, ?t)"
    unfolding s amount_parts_def using show_nat_digits [of "nat (n div 10 ^ d)"]
    by (simp add: list_all_iff takeWhile_append dropWhile_append)
  have lf: "length ?frac = max 1 d" using len
    by (cases "show_nat ?r") auto
  have "frac_digits ?t (d + 1) = ?frac @ replicate (d + 1 - length ?frac) CHR ''0''"
    using lf by (intro frac_digits_trim) auto
  moreover have "round_last (?frac @ replicate (d + 1 - length ?frac) CHR ''0'') d = int ?r"
  proof (cases "d = 0")
    case True
    then show ?thesis using lf by (simp add: round_last_def pad_start_def show_nat.simps)
  next
    case False
    then show ?thesis using lf digits
      by (intro round_last_zero) (auto simp: digits_val_append list_all_iff)
  qed
  moreover have "fromStroops n d \<noteq> ''.''" "fromStroops n d \<noteq> []" unfolding s by (auto simp: append_eq_Cons_conv)
  ultimately have "toStroops (fromStroops n d) d = Inr (int (digits_val ?w) * 10 ^ d + int ?r)"
    using toStroops_parts [OF syn _ _ parts, of d] by (simp add: p)
  also have "int (digits_val ?w) * 10 ^ d + int ?r = n"
    using assms(1) div_mult_mod_eq [of n "10 ^ d"] by (simp add: pos_imp_zdiv_nonneg_iff)
  finally show ?thesis .
qed

section \<open>Rates and yields\<close>

definition calculateRate :: "string \<Rightarrow> jsnum \<Rightarrow> nat \<Rightarrow> (amount_error, int) result" where
  "calculateRate depositAmount durationSecs decimals =
    (if \<not> is_integer_num durationSecs \<or> int_of_num durationSecs \<le> 0 then Inl (Bad_duration durationSecs)
     else result_bind (toStroops depositAmount decimals) (\<lambda>stroops.
       let divisor = int_of_num durationSecs in
       if divisor = 0 then Inr 0
       else let quotient = stroops div divisor; remainder = stroops - quotient * divisor
            in Inr (if remainder * 2 \<ge> divisor then quotient + 1 else quotient)))"

definition calculateYield :: "int \<Rightarrow> jsnum \<Rightarrow> nat \<Rightarrow> (amount_error, string) result" where
  "calculateYield ratePerSecond durationSecs decimals =
    (if \<not> is_integer_num durationSecs \<or> int_of_num durationSecs \<le> 0 then Inl (Bad_duration durationSecs)
     else let totalStroops = ratePerSecond * int_of_num durationSecs
          in Inr (fromStroops totalStroops decimals))"

lemma double_quotient:
  fixes a :: int
  assumes "a = k * q + r"
  shows "2 * a + q = k * (2 * q) + (2 * r + q)"
  using assms by (simp add: algebra_simps)

lemma half_step:
  fixes r :: int
  assumes "0 \<le> r" "r < q"
  shows "(2 * r + q) div (2 * q) = (if r * 2 \<ge> q then 1 else 0)"
proof (cases "r * 2 \<ge> q")
  case True
  then have "(2 * r + q) div (2 * q) = 1"
    using assms by (intro int_div_pos_eq [where r = "2 * r - q"]) auto
  with True show ?thesis by simp
next
  case False
  then have "(2 * r + q) div (2 * q) = 0"
    using assms by (intro div_pos_pos_trivial) auto
  with False show ?thesis by simp
qed

lemma round_quotient:
  fixes a q :: int
  assumes "0 < q"
  shows "(let k = a div q; r = a - k * q in if r * 2 \<ge> q then k + 1 else k) = round_half_up a q"
proof -
  let ?k = "a div q" and ?r = "a mod q"
  have r: "a - ?k * q = ?r" by (simp add: minus_div_mult_eq_mod)
  have bounds: "0 \<le> ?r" "?r < q" using assms by auto
  have eq: "2 * a + q = ?k * (2 * q) + (2 * ?r + q)"
    by (rule double_quotient) simp
  have "round_half_up a q = ?k + (2 * ?r + q) div (2 * q)"
    unfolding round_half_up_def eq using assms by (intro div_mult_self3) simp
  moreover have "(2 * ?r + q) div (2 * q) = (if ?r * 2 \<ge> q then 1 else 0)"
    using bounds by (rule half_step)
  ultimately show ?thesis unfolding Let_def r by simp
qed

lemma calculateRate_round:
  assumes "0 < t" "toStroops s d = Inr a"
  shows "calculateRate s (Num (of_int t)) d = Inr (round_half_up a t)"
  using assms round_quotient [OF assms(1), of a]
  by (simp add: calculateRate_def Let_def)

lemma calculateRate_bad: "\<not> (is_integer_num t \<and> 0 < int_of_num t) \<Longrightarrow> calculateRate s t d = Inl (Bad_duration t)"
  by (auto simp: calculateRate_def)

section \<open>Formatting of token amounts\<close>

definition formatTokenAmount :: "int \<Rightarrow> nat \<Rightarrow> nat option \<Rightarrow> string" where
  "formatTokenAmount amountBI decimals displayDecimals =
    (let displayDec = (case displayDecimals of Some k \<Rightarrow> k | None \<Rightarrow> decimals);
         factor = pow10 decimals;
         displayFactor = pow10 displayDec;
         neg = amountBI < 0;
         absAmount = (if neg then - amountBI else amountBI);
         whole = absAmount div factor;
         rem = absAmount mod factor;
         sign = (if neg then ''-'' else '''')
     in if displayDec = 0 then
          let rounded = (if rem * 2 \<ge> factor then whole + 1 else whole)
          in sign @ show_int rounded
        else
          let scaledRem = (rem * displayFactor + factor div 2) div factor;
              cappedRem = (if scaledRem \<ge> displayFactor then 0 else scaledRem);
              carry = (if scaledRem \<ge> displayFactor then 1 else 0);
              wholeWithCarry = whole + carry;
              fracStr = pad_start displayDec CHR ''0'' (show_int cappedRem)
          in sign @ show_int wholeWithCarry @ ''.'' @ fracStr)"

lemma scaled_round:
  fixes r :: int
  assumes "even f \<or> f = 1" "0 < f"
  shows "(r + f div 2) div f = round_half_up r f"
proof (cases "even f")
  case True
  then obtain g where f: "f = 2 * g" by blast
  have "round_half_up r f = (2 * (r + g)) div (2 * f)" unfolding round_half_up_def f by simp
  also have "\<dots> = (r + g) div f" by (rule div_mult_mult1) simp
  finally show ?thesis by (simp add: f)
next
  case False
  with assms have "f = 1" by simp
  then show ?thesis by (simp add: round_half_up_def)
qed

lemma round_half_up_mono: "a \<le> b \<Longrightarrow> 0 < q \<Longrightarrow> round_half_up a q \<le> round_half_up b q"
  unfolding round_half_up_def by (intro zdiv_mono1) auto

lemma round_half_up_exact [simp]: "0 < q \<Longrightarrow> round_half_up (k * q) q = k"
  using round_half_up_shift [of q k 0] by (simp add: round_half_up_def div_pos_pos_trivial)

lemma round_half_up_nonneg: "0 \<le> a \<Longrightarrow> 0 < q \<Longrightarrow> 0 \<le> round_half_up a q"
  unfolding round_half_up_def by (simp add: pos_imp_zdiv_nonneg_iff)

lemma carry_split:
  fixes k :: int
  assumes "0 \<le> s" "s \<le> m" "0 < m"
  shows "k + (if s \<ge> m then 1 else 0) = (k * m + s) div m"
    and "(if s \<ge> m then 0 else s) = (k * m + s) mod m"
  using assms by (cases "s = m"; simp add: div_pos_pos_trivial)+

lemma even_power_ten: "even ((10::int) ^ d) \<or> (10::int) ^ d = 1"
  by (cases d) auto

lemma formatTokenAmount_rounded:
  fixes a :: int and d e :: nat
  assumes "d \<le> 22" "e \<le> 22"
  defines "q \<equiv> round_half_up (\<bar>a\<bar> * 10 ^ e) (10 ^ d)"
  shows "formatTokenAmount a d (Some e) =
    (if a < 0 then ''-'' else '''') @
    (if e = 0 then show_int q
     else show_int (q div 10 ^ e) @ ''.'' @ pad_start e CHR ''0'' (show_int (q mod 10 ^ e)))"
proof -
  let ?f = "(10::int) ^ d" and ?g = "(10::int) ^ e"
  let ?w = "\<bar>a\<bar> div ?f" and ?r = "\<bar>a\<bar> mod ?f"
  let ?s = "round_half_up (?r * ?g) ?f"
  have absa: "(if a < 0 then - a else a) = \<bar>a\<bar>" by simp
  have q: "q = ?w * ?g + ?s"
  proof -
    have "\<bar>a\<bar> * ?g = (?w * ?f + ?r) * ?g" by (simp only: div_mult_mod_eq)
    also have "\<dots> = (?w * ?g) * ?f + ?r * ?g" by (simp only: algebra_simps)
    finally show ?thesis unfolding q_def by (simp add: round_half_up_shift)
  qed
  have s0: "0 \<le> ?s" by (intro round_half_up_nonneg) auto
  have "?s \<le> round_half_up (?g * ?f) ?f"
    by (intro round_half_up_mono) (auto simp: mult.commute [of _ ?g] intro!: mult_left_mono less_imp_le)
  then have s1: "?s \<le> ?g" by simp
  have scaled: "(?r * ?g + ?f div 2) div ?f = ?s"
    using even_power_ten by (intro scaled_round) auto
  have r0: "(if ?r * 2 \<ge> ?f then ?w + 1 else ?w) = round_half_up \<bar>a\<bar> ?f"
    using round_quotient [of ?f "\<bar>a\<bar>"] by (simp only: Let_def minus_div_mult_eq_mod) simp
  show ?thesis
  proof (cases "e = 0")
    case True
    then have "q = round_half_up \<bar>a\<bar> ?f" by (simp add: q_def)
    with True r0 show ?thesis
      by (simp add: formatTokenAmount_def pow10_exact assms absa Let_def split: if_splits)
  next
    case False
    have "?w + (if ?s \<ge> ?g then 1 else 0) = q div ?g" "(if ?s \<ge> ?g then 0 else ?s) = q mod ?g"
      unfolding q by (rule carry_split [OF s0 s1]; simp)+
    with False show ?thesis
      by (simp only: formatTokenAmount_def pow10_exact assms absa Let_def scaled option.case if_False append_Nil)
  qed
qed

section \<open>Properties\<close>

lemma amount_value_nonneg: "0 \<le> amount_value s"
  by (simp add: amount_value_def split: prod.split)

lemma amount_value_scaled:
  "amount_parts s = (w, f) \<Longrightarrow>
   amount_value s * 10 ^ d = of_int (int (digits_val (w @ f)) * 10 ^ d) / of_int (10 ^ length f)"
  by (simp add: amount_value_def digits_val_append field_simps)

text \<open>
  toStroops rounds the exact decimal value of its input half up: for every string
  of the accepted syntax and every decimals the table of powers covers exactly, the
  result is the floor of value * 10^decimals + 1/2, although the code only looks at
  one digit behind the rounding position.
\<close>
theorem toStroops_is_rounded_value:
  assumes "amount_syntax s" "s \<noteq> ''.''" "s \<noteq> []" "d \<le> 22"
  shows "toStroops s d = Inr \<lfloor>amount_value s * 10 ^ d + 1 / 2\<rfloor>"
proof -
  obtain w f where parts: "amount_parts s = (w, f)" by fastforce
  have "toStroops s d = Inr (round_half_up (int (digits_val (w @ f)) * 10 ^ d) (10 ^ length f))"
    using assms parts by (intro toStroops_round)
  then show ?thesis
    by (subst (asm) round_half_up_floor) (simp_all only: amount_value_scaled [OF parts] zero_less_power zero_less_numeral)
qed

lemma toStroops_is_rounded_value_witness:
  "toStroops ''1.23456785'' 7 = Inr \<lfloor>amount_value ''1.23456785'' * 10 ^ 7 + 1 / 2\<rfloor>"
  by (rule toStroops_is_rounded_value) (simp_all add: amount_syntax_def is_digit_def)

text \<open>
  fromStroops followed by toStroops is the identity on every non-negative amount,
  and the sign that fromStroops prints for a negative one is refused by toStroops.
\<close>
theorem stroops_round_trip:
  assumes "d \<le> 22"
  shows "toStroops (fromStroops n d) d =
    (if n < 0 then Inl (Invalid_amount_format (fromStroops n d)) else Inr n)"
proof (cases "n < 0")
  case True
  then obtain r where "fromStroops n d = CHR ''-'' # r" by (simp add: fromStroops_def Let_def)
  then have "\<not> amount_syntax (fromStroops n d)" by (simp add: amount_syntax_def)
  with True show ?thesis by (simp add: toStroops_def)
next
  case False
  with assms show ?thesis by (simp add: toStroops_fromStroops_nonneg)
qed

lemma stroops_round_trip_witness:
  "toStroops (fromStroops 100000001 7) 7 = Inr 100000001 \<and>
   toStroops (fromStroops (-5) 7) 7 = Inl (Invalid_amount_format (fromStroops (-5) 7))"
  using stroops_round_trip [of 7 100000001] stroops_round_trip [of 7 "-5"] by simp

text \<open>
  calculateRate picks the rate whose accrual over the whole duration is nearest
  the deposit: the drift after durationSecs seconds is at most half a second's worth
  of the duration in stroops; a duration that is not a positive integer is refused
  before the amount is looked at.
\<close>
theorem calculateRate_nearest:
  assumes "d \<le> 22" "0 \<le> deposit" "0 < t"
  shows "\<exists>rate. calculateRate (fromStroops deposit d) (Num (of_int t)) d = Inr rate \<and>
    2 * \<bar>rate * t - deposit\<bar> \<le> t"
proof -
  have "toStroops (fromStroops deposit d) d = Inr deposit"
    using assms by (simp add: toStroops_fromStroops_nonneg)
  then have "calculateRate (fromStroops deposit d) (Num (of_int t)) d = Inr (round_half_up deposit t)"
    using assms(3) by (rule calculateRate_round [rotated])
  with round_half_up_error [OF assms(3), of deposit] show ?thesis by blast
qed

lemma calculateRate_nearest_witness:
  "\<exists>rate. calculateRate (fromStroops 1000000000 7) (Num (of_int 2592000)) 7 = Inr rate \<and>
    2 * \<bar>rate * 2592000 - 1000000000\<bar> \<le> (2592000 :: int)"
  using calculateRate_nearest [of 7 1000000000 2592000] by simp

text \<open>
  formatTokenAmount prints the magnitude rounded half up to the requested number
  of decimals, with the carry out of the fraction propagated into the whole part and
  exactly that many fraction digits: reading the two printed parts back gives the
  rounded value.
\<close>
theorem formatTokenAmount_reads_back:
  assumes "d \<le> 22" "e \<le> 22" "0 < e"
  shows "\<exists>w f. formatTokenAmount a d (Some e) = (if a < 0 then ''-'' else '''') @ w @ ''.'' @ f \<and>
    list_all is_digit w \<and> list_all is_digit f \<and> length f = e \<and>
    int (digits_val (w @ f)) = round_half_up (\<bar>a\<bar> * 10 ^ e) (10 ^ d)"
proof -
  define q where "q = round_half_up (\<bar>a\<bar> * 10 ^ e) (10 ^ d)"
  have q: "0 \<le> q" unfolding q_def by (intro round_half_up_nonneg) auto
  let ?w = "show_int (q div 10 ^ e)" and ?f = "pad_start e CHR ''0'' (show_int (q mod 10 ^ e))"
  have w: "?w = show_nat (nat (q div 10 ^ e))" using q by (simp add: show_int_nonneg pos_imp_zdiv_nonneg_iff)
  have f: "?f = pad_start e CHR ''0'' (show_nat (nat (q mod 10 ^ e)))" by (simp add: show_int_nonneg)
  have "nat (q mod 10 ^ e) < 10 ^ e" by (simp add: nat_less_iff)
  then have len: "length ?f = e" using assms(3) show_nat_length [of "nat (q mod 10 ^ e)" e]
    unfolding f by simp
  have "int (digits_val (?w @ ?f)) = q div 10 ^ e * 10 ^ e + q mod 10 ^ e"
    using q len unfolding w f by (simp add: digits_val_append pos_imp_zdiv_nonneg_iff)
  then have "int (digits_val (?w @ ?f)) = q" by (simp only: div_mult_mod_eq)
  moreover have "formatTokenAmount a d (Some e) = (if a < 0 then ''-'' else '''') @ ?w @ ''.'' @ ?f"
    using formatTokenAmount_rounded [OF assms(1,2)] assms(3) by (simp add: q_def)
  ultimately show ?thesis using len w f q_def by (metis pad_start_digits show_nat_digits)
qed

lemma formatTokenAmount_reads_back_witness:
  "\<exists>w f. formatTokenAmount 99999999 7 (Some 2) = w @ ''.'' @ f \<and>
    list_all is_digit w \<and> list_all is_digit f \<and> length f = 2 \<and>
    int (digits_val (w @ f)) = round_half_up (\<bar>99999999\<bar> * 10 ^ 2) (10 ^ 7)"
  using formatTokenAmount_reads_back [of 7 2 99999999] by simp

end
