(* ===== verification/Stream_Math.thy ===== *)
theory Stream_Math
  imports Amounts
begin

text \<open>
  Stream snapshots (StreamInfo of src/types/index.ts) and the local accrual mathematics
  over them: progress, withdrawable and streamed amounts, status and sums of
  src/utils.ts, and the pure helpers at the top and the bottom of src/streams.ts.
  Date.now is always an explicit argument: the current time in whole seconds.
\<close>

section \<open>Stream snapshots\<close>

record StreamInfo =
  stream_id :: int
  address :: string
  sender :: string
  recipient :: string
  token :: string
  ratePerSecond :: int
  startTime :: int
  endTime :: int
  withdrawn :: int
  paused :: bool
  pausedAt :: int
  cancelled :: bool
  clawbackEnabled :: bool

section \<open>Local projections (src/utils.ts)\<close>

definition streamProgress :: "StreamInfo \<Rightarrow> int \<Rightarrow> jsnum" where
  "streamProgress stream nowSec =
    (if nowSec < startTime stream then Num 0
     else if endTime stream = 0 then NaN
     else if nowSec \<ge> endTime stream then Num 1
     else Num (of_int (nowSec - startTime stream) / of_int (endTime stream - startTime stream)))"

definition remainingTime :: "StreamInfo \<Rightarrow> int \<Rightarrow> int" where
  "remainingTime stream nowSec =
    (if endTime stream = 0 \<or> nowSec \<ge> endTime stream then 0 else endTime stream - nowSec)"

definition estimatedCompletionDate :: "StreamInfo \<Rightarrow> int" where
  "estimatedCompletionDate stream = endTime stream * 1000"

definition normalizeProgress :: "jsnum \<Rightarrow> jsnum" where
  "normalizeProgress v = (if v = NaN then Num (1 / 2) else v)"

definition withdrawableLocal :: "StreamInfo \<Rightarrow> int \<Rightarrow> int" where
  "withdrawableLocal stream nowSec =
    (if cancelled stream then 0
     else
       let endClamped = (if endTime stream > 0 \<and> nowSec > endTime stream then endTime stream else nowSec);
           effectiveNow = (if paused stream \<and> pausedAt stream < endClamped then pausedAt stream else endClamped)
       in if effectiveNow < startTime stream then 0
          else let elapsed = effectiveNow - startTime stream
               in if elapsed \<le> 0 then 0
                  else let streamed = ratePerSecond stream * elapsed;
                           available = streamed - withdrawn stream
                       in if available > 0 then available else 0)"

definition streamedTotalLocal :: "StreamInfo \<Rightarrow> int \<Rightarrow> int" where
  "streamedTotalLocal stream nowSec =
    (if cancelled stream then withdrawn stream
     else
       let endClamped = (if endTime stream > 0 \<and> nowSec > endTime stream then endTime stream else nowSec);
           effectiveNow = (if paused stream \<and> pausedAt stream < endClamped then pausedAt stream else endClamped)
       in if effectiveNow < startTime stream then 0
          else let elapsed = effectiveNow - startTime stream
               in if elapsed \<le> 0 then 0 else ratePerSecond stream * elapsed)"

datatype stream_status = Active | Paused | Completed | Cancelled

definition streamStatus :: "StreamInfo \<Rightarrow> int \<Rightarrow> stream_status" where
  "streamStatus stream nowSec =
    (if cancelled stream then Cancelled
     else if endTime stream \<noteq> 0 \<and> nowSec \<ge> endTime stream then Completed
     else if paused stream then Paused
     else Active)"

definition sumWithdrawable :: "StreamInfo list \<Rightarrow> int \<Rightarrow> int" where
  "sumWithdrawable streams nowSec = foldl (\<lambda>total stream. total + withdrawableLocal stream nowSec) 0 streams"

definition sumStreamedTotal :: "StreamInfo list \<Rightarrow> int \<Rightarrow> int" where
  "sumStreamedTotal streams nowSec = foldl (\<lambda>total stream. total + streamedTotalLocal stream nowSec) 0 streams"

section \<open>Pure helpers of src/streams.ts\<close>

record DurationBreakdown =
  days :: int
  hours :: int
  minutes :: int
  seconds :: int
  totalSeconds :: int

definition calculateStreamRemainingDuration :: "int \<Rightarrow> int \<Rightarrow> DurationBreakdown" where
  "calculateStreamRemainingDuration endT now =
    (let remainingSeconds = max 0 (endT - now)
     in \<lparr> days = remainingSeconds div 86400,
          hours = (remainingSeconds mod 86400) div 3600,
          minutes = (remainingSeconds mod 3600) div 60,
          seconds = remainingSeconds mod 60,
          totalSeconds = remainingSeconds \<rparr>)"

definition calculateWithdrawableAmount :: "StreamInfo \<Rightarrow> int \<Rightarrow> int" where
  "calculateWithdrawableAmount stream currentTimestamp =
    (if cancelled stream then 0
     else
       let endClamped = (if endTime stream > 0 \<and> currentTimestamp > endTime stream
                         then endTime stream else currentTimestamp);
           effectiveNow = (if paused stream \<and> pausedAt stream < endClamped
                           then pausedAt stream else endClamped)
       in if effectiveNow < startTime stream then 0
          else let elapsed = effectiveNow - startTime stream
               in if elapsed \<le> 0 then 0
                  else let streamed = ratePerSecond stream * elapsed;
                           available = streamed - withdrawn stream
                       in if available > 0 then available else 0)"

definition calculateVestedPercentage :: "StreamInfo \<Rightarrow> int \<Rightarrow> rat" where
  "calculateVestedPercentage stream currentTimestamp =
    (if cancelled stream then 0
     else let total = endTime stream - startTime stream in
       if endTime stream \<le> 0 \<or> total \<le> 0 then 0
       else
         let endClamped = (if currentTimestamp > endTime stream then endTime stream else currentTimestamp);
             effectiveNow = (if paused stream \<and> pausedAt stream < endClamped
                             then pausedAt stream else endClamped)
         in if effectiveNow \<le> startTime stream then 0
            else let ratio = of_int (effectiveNow - startTime stream) / of_int total
                 in if ratio > 1 then 1 else ratio)"

definition isStreamCancellableByAccount ::
    "StreamInfo \<Rightarrow> string \<Rightarrow> int option \<Rightarrow> int option \<Rightarrow> int \<Rightarrow> bool" where
  "isStreamCancellableByAccount stream walletAddress pauseThresholdSeconds currentTimestamp nowSec =
    (if walletAddress = [] then False
     else if cancelled stream then False
     else if walletAddress = sender stream then True
     else if walletAddress = recipient stream then
       (case pauseThresholdSeconds of
          None \<Rightarrow> False
        | Some threshold \<Rightarrow>
            if \<not> paused stream then False
            else let now = (case currentTimestamp of Some t \<Rightarrow> t | None \<Rightarrow> nowSec)
                 in now - pausedAt stream \<ge> threshold)
     else False)"

record SimulatedWithdraw =
  withdrawAmount :: int
  withdrawable :: int
  remainingWithdrawable :: int
  estimatedFee :: int
  exceedsAvailable :: bool

definition BASE_FEE :: int where "BASE_FEE = 100"

definition simulateWithdraw ::
    "StreamInfo \<Rightarrow> int option \<Rightarrow> int option \<Rightarrow> int option \<Rightarrow> int \<Rightarrow> SimulatedWithdraw" where
  "simulateWithdraw stream amount currentTimestamp fee nowSec =
    (let now = (case currentTimestamp of Some t \<Rightarrow> t | None \<Rightarrow> nowSec);
         available = calculateWithdrawableAmount stream now;
         requested = (case amount of Some a \<Rightarrow> a | None \<Rightarrow> available);
         exceeds = requested > available;
         taken = (if exceeds then available else requested)
     in \<lparr> withdrawAmount = taken, withdrawable = available,
          remainingWithdrawable = available - taken,
          estimatedFee = (case fee of Some f \<Rightarrow> f | None \<Rightarrow> BASE_FEE),
          exceedsAvailable = exceeds \<rparr>)"

definition calculateAccruedAmount :: "StreamInfo \<Rightarrow> int \<Rightarrow> int" where
  "calculateAccruedAmount stream asOfTimestamp =
    (if asOfTimestamp < startTime stream \<or> cancelled stream then 0
     else
       let effectiveTime = (if endTime stream > 0 then min asOfTimestamp (endTime stream) else asOfTimestamp);
           elapsed = max 0 (effectiveTime - startTime stream)
       in ratePerSecond stream * elapsed)"

section \<open>The accrual clock\<close>

text \<open>
  The time up to which a stream accrues: the end time first, then the pause.  Every
  projection above is a function of this clamped clock.
\<close>

definition effective_now :: "StreamInfo \<Rightarrow> int \<Rightarrow> int" where
  "effective_now s t =
    (let e = (if endTime s > 0 \<and> t > endTime s then endTime s else t)
     in if paused s \<and> pausedAt s < e then pausedAt s else e)"

definition elapsed_seconds :: "StreamInfo \<Rightarrow> int \<Rightarrow> int" where
  "elapsed_seconds s t = max 0 (effective_now s t - startTime s)"

lemma effective_now_mono: "t \<le> u \<Longrightarrow> effective_now s t \<le> effective_now s u"
  by (auto simp: effective_now_def Let_def)

lemma effective_now_le: "effective_now s t \<le> t"
  by (auto simp: effective_now_def Let_def)

lemma effective_now_after_end:
  "0 < endTime s \<Longrightarrow> endTime s \<le> t \<Longrightarrow> effective_now s t = effective_now s (endTime s)"
  by (auto simp: effective_now_def Let_def)

lemma effective_now_after_pause:
  "paused s \<Longrightarrow> pausedAt s \<le> t \<Longrightarrow> effective_now s t = effective_now s (pausedAt s)"
  by (auto simp: effective_now_def Let_def)

lemma elapsed_seconds_nonneg [simp]: "0 \<le> elapsed_seconds s t"
  by (simp add: elapsed_seconds_def)

lemma elapsed_seconds_mono: "t \<le> u \<Longrightarrow> elapsed_seconds s t \<le> elapsed_seconds s u"
  using effective_now_mono [of t u s] by (simp add: elapsed_seconds_def)

lemma streamedTotalLocal_clock:
  "streamedTotalLocal s t = (if cancelled s then withdrawn s else ratePerSecond s * elapsed_seconds s t)"
  by (auto simp: streamedTotalLocal_def elapsed_seconds_def effective_now_def Let_def)

lemma withdrawableLocal_clock:
  assumes "0 \<le> withdrawn s"
  shows "withdrawableLocal s t =
    (if cancelled s then 0 else max 0 (ratePerSecond s * elapsed_seconds s t - withdrawn s))"
  using assms by (auto simp: withdrawableLocal_def elapsed_seconds_def effective_now_def Let_def)

lemma calculateWithdrawableAmount_eq: "calculateWithdrawableAmount s t = withdrawableLocal s t"
  by (simp add: calculateWithdrawableAmount_def withdrawableLocal_def)

lemma calculateAccruedAmount_clock:
  "\<not> paused s \<Longrightarrow> \<not> cancelled s \<Longrightarrow> calculateAccruedAmount s t = ratePerSecond s * elapsed_seconds s t"
  by (auto simp: calculateAccruedAmount_def elapsed_seconds_def effective_now_def Let_def min_def max_def)

section \<open>Contract of an accrual projection\<close>

text \<open>
  What every consumer of a projection relies on: it never goes down, is never
  negative and stops at the end time.  The clients are the sums over many streams.
\<close>

definition snapshot_ok :: "StreamInfo \<Rightarrow> bool" where
  "snapshot_ok s = (0 \<le> ratePerSecond s \<and> 0 \<le> withdrawn s)"

locale accrual =
  fixes accrued :: "StreamInfo \<Rightarrow> int \<Rightarrow> int"
  assumes nonneg: "snapshot_ok s \<Longrightarrow> 0 \<le> accrued s t"
    and mono: "snapshot_ok s \<Longrightarrow> t \<le> u \<Longrightarrow> accrued s t \<le> accrued s u"
    and settled: "snapshot_ok s \<Longrightarrow> 0 < endTime s \<Longrightarrow> endTime s \<le> t \<Longrightarrow>
      accrued s t = accrued s (endTime s)"
begin

lemma total_sum_list:
  "foldl (\<lambda>total s. total + accrued s t) z ss = z + sum_list (map (\<lambda>s. accrued s t) ss)"
  by (induction ss arbitrary: z) auto

lemma total_nonneg:
  "list_all snapshot_ok ss \<Longrightarrow> 0 \<le> foldl (\<lambda>total s. total + accrued s t) 0 ss"
  unfolding total_sum_list by (induction ss) (auto simp: nonneg)

lemma total_mono:
  "list_all snapshot_ok ss \<Longrightarrow> t \<le> u \<Longrightarrow>
   foldl (\<lambda>total s. total + accrued s t) 0 ss \<le> foldl (\<lambda>total s. total + accrued s u) 0 ss"
  unfolding total_sum_list by (induction ss) (auto intro!: add_mono mono)

lemma total_settled:
  assumes "list_all (\<lambda>s. snapshot_ok s \<and> 0 < endTime s \<and> endTime s \<le> t) ss" "t \<le> u"
  shows "foldl (\<lambda>total s. total + accrued s u) 0 ss = foldl (\<lambda>total s. total + accrued s t) 0 ss"
proof -
  have "accrued s u = accrued s t" if "s \<in> set ss" for s
    using that assms settled [of s t] settled [of s u] by (auto simp: list_all_iff)
  then show ?thesis unfolding total_sum_list by (auto intro!: arg_cong [of _ _ sum_list])
qed

end

locale pausable_accrual = accrual +
  assumes frozen: "snapshot_ok s \<Longrightarrow> paused s \<Longrightarrow> pausedAt s \<le> t \<Longrightarrow>
      accrued s t = accrued s (pausedAt s)"
begin

lemma total_frozen:
  assumes "list_all (\<lambda>s. snapshot_ok s \<and> paused s \<and> pausedAt s \<le> t) ss" "t \<le> u"
  shows "foldl (\<lambda>total s. total + accrued s u) 0 ss = foldl (\<lambda>total s. total + accrued s t) 0 ss"
proof -
  have "accrued s u = accrued s t" if "s \<in> set ss" for s
    using that assms frozen [of s t] frozen [of s u] by (auto simp: list_all_iff)
  then show ?thesis unfolding total_sum_list by (auto intro!: arg_cong [of _ _ sum_list])
qed

end

lemma rate_elapsed_mono:
  "snapshot_ok s \<Longrightarrow> t \<le> u \<Longrightarrow> ratePerSecond s * elapsed_seconds s t \<le> ratePerSecond s * elapsed_seconds s u"
  by (intro mult_left_mono elapsed_seconds_mono) (auto simp: snapshot_ok_def)

lemma elapsed_after_end:
  "0 < endTime s \<Longrightarrow> endTime s \<le> t \<Longrightarrow> elapsed_seconds s t = elapsed_seconds s (endTime s)"
  unfolding elapsed_seconds_def by (simp only: effective_now_after_end [of s t])

lemma elapsed_after_pause:
  "paused s \<Longrightarrow> pausedAt s \<le> t \<Longrightarrow> elapsed_seconds s t = elapsed_seconds s (pausedAt s)"
  unfolding elapsed_seconds_def by (simp only: effective_now_after_pause [of s t])

interpretation streamed: pausable_accrual streamedTotalLocal
proof (unfold_locales, goal_cases)
  case (1 s t) then show ?case by (simp add: streamedTotalLocal_clock snapshot_ok_def)
next
  case (2 s t u) then show ?case by (simp add: streamedTotalLocal_clock rate_elapsed_mono)
next
  case (3 s t) then show ?case by (simp add: streamedTotalLocal_clock elapsed_after_end [of s t])
next
  case (4 s t) then show ?case by (simp add: streamedTotalLocal_clock elapsed_after_pause [of s t])
qed

interpretation available: pausable_accrual withdrawableLocal
proof (unfold_locales, goal_cases)
  case (1 s t) then show ?case by (simp add: withdrawableLocal_clock snapshot_ok_def)
next
  case (2 s t u)
  then show ?case using rate_elapsed_mono [of s t u]
    by (auto simp: withdrawableLocal_clock snapshot_ok_def max_def)
next
  case (3 s t) then show ?case
    by (simp add: withdrawableLocal_clock snapshot_ok_def elapsed_after_end [of s t])
next
  case (4 s t) then show ?case
    by (simp add: withdrawableLocal_clock snapshot_ok_def elapsed_after_pause [of s t])
qed

interpretation accrued_amount: accrual calculateAccruedAmount
proof (unfold_locales, goal_cases)
  case (1 s t) then show ?case by (simp add: calculateAccruedAmount_def snapshot_ok_def Let_def)
next
  case (2 s t u)
  then show ?case
    by (auto simp: calculateAccruedAmount_def snapshot_ok_def Let_def intro!: mult_left_mono mult_nonneg_nonneg)
next
  case (3 s t) then show ?case by (auto simp: calculateAccruedAmount_def Let_def)
qed

section \<open>Properties\<close>

text \<open>
  C1: The withdrawable balance and the withdrawn counter partition what has streamed: for
  a live stream their sum is the streamed total, or the withdrawn counter itself when
  that is already larger, and the two implementations in src/utils.ts and
  src/streams.ts agree on it at every time.
\<close>
theorem withdrawable_partitions_streamed:
  assumes "snapshot_ok s" "\<not> cancelled s"
  shows "withdrawableLocal s t + withdrawn s = max (withdrawn s) (streamedTotalLocal s t) \<and>
    calculateWithdrawableAmount s t = withdrawableLocal s t"
  using assms by (auto simp: withdrawableLocal_clock streamedTotalLocal_clock snapshot_ok_def
      calculateWithdrawableAmount_eq)

definition sample_stream :: StreamInfo where
  "sample_stream = \<lparr> stream_id = 1, address = ''C1'', sender = ''GA'', recipient = ''GB'',
     token = ''native'', ratePerSecond = 3, startTime = 100, endTime = 200, withdrawn = 60,
     paused = False, pausedAt = 0, cancelled = False, clawbackEnabled = False \<rparr>"

lemma withdrawable_partitions_streamed_witness:
  "withdrawableLocal sample_stream 150 + 60 = max 60 (streamedTotalLocal sample_stream 150) \<and>
   calculateWithdrawableAmount sample_stream 150 = 90"
proof -
  have "withdrawableLocal sample_stream 150 = 90" by (simp add: withdrawableLocal_def sample_stream_def)
  then show ?thesis
    using withdrawable_partitions_streamed [of sample_stream 150]
    by (simp add: snapshot_ok_def sample_stream_def)
qed

text \<open>
  Portfolio sums behave like a clock that only runs forward: both sums are
  non-negative and monotone in time, whatever mix of paused, cancelled and ended
  streams is summed, and once every stream has ended or is paused they never move again.
\<close>
theorem portfolio_sums_monotone:
  assumes "list_all snapshot_ok ss" "t \<le> u"
  shows "0 \<le> sumWithdrawable ss t \<and> sumWithdrawable ss t \<le> sumWithdrawable ss u \<and>
    0 \<le> sumStreamedTotal ss t \<and> sumStreamedTotal ss t \<le> sumStreamedTotal ss u \<and>
    (list_all (\<lambda>s. 0 < endTime s \<and> endTime s \<le> t \<or> paused s \<and> pausedAt s \<le> t) ss \<longrightarrow>
      sumWithdrawable ss u = sumWithdrawable ss t \<and> sumStreamedTotal ss u = sumStreamedTotal ss t)"
proof -
  have still: "streamedTotalLocal s u = streamedTotalLocal s t \<and> withdrawableLocal s u = withdrawableLocal s t"
    if "snapshot_ok s" "0 < endTime s \<and> endTime s \<le> t \<or> paused s \<and> pausedAt s \<le> t" for s
    using that assms(2) streamed.settled [of s t] streamed.settled [of s u]
      available.settled [of s t] available.settled [of s u] streamed.frozen [of s t]
      streamed.frozen [of s u] available.frozen [of s t] available.frozen [of s u] by auto
  show ?thesis
    using assms still available.total_nonneg available.total_mono streamed.total_nonneg streamed.total_mono
    unfolding sumWithdrawable_def sumStreamedTotal_def
    by (auto simp: list_all_iff intro!: foldl_cong)
qed

lemma portfolio_sums_monotone_witness:
  "sumWithdrawable [sample_stream, sample_stream \<lparr> paused := True, pausedAt := 130 \<rparr>] 150
     \<le> sumWithdrawable [sample_stream, sample_stream \<lparr> paused := True, pausedAt := 130 \<rparr>] 190"
  using portfolio_sums_monotone [of "[sample_stream, sample_stream \<lparr> paused := True, pausedAt := 130 \<rparr>]" 150 190]
  by (simp add: snapshot_ok_def sample_stream_def)

text \<open>
  C3: The offline withdrawal preview is exact: the amount it takes never exceeds what is
  withdrawable, and the remainder it announces is what the local projection reports
  for the snapshot whose withdrawn counter has grown by that amount.
\<close>
theorem simulateWithdraw_exact:
  assumes "snapshot_ok s" "case amount of None \<Rightarrow> True | Some a \<Rightarrow> 0 \<le> a"
  shows "let r = simulateWithdraw s amount (Some t) fee nowSec in
    0 \<le> withdrawAmount r \<and> withdrawAmount r \<le> withdrawable r \<and>
    withdrawable r = withdrawableLocal s t \<and>
    (\<not> cancelled s \<longrightarrow>
      remainingWithdrawable r = withdrawableLocal (s \<lparr> withdrawn := withdrawn s + withdrawAmount r \<rparr>) t) \<and>
    (exceedsAvailable r \<longleftrightarrow> (\<exists>a. amount = Some a \<and> a > withdrawableLocal s t))"
proof -
  have clock: "elapsed_seconds (s \<lparr> withdrawn := w \<rparr>) t = elapsed_seconds s t" for w
    by (simp add: elapsed_seconds_def effective_now_def Let_def)
  show ?thesis
    using assms available.nonneg [of s t]
    by (auto simp: simulateWithdraw_def Let_def calculateWithdrawableAmount_eq withdrawableLocal_clock
        snapshot_ok_def clock split: option.splits)
qed

lemma simulateWithdraw_exact_witness:
  "remainingWithdrawable (simulateWithdraw sample_stream (Some 50) (Some 150) None 0) = 40"
  using simulateWithdraw_exact [of sample_stream "Some 50" 150 None 0]
  by (simp add: snapshot_ok_def sample_stream_def simulateWithdraw_def calculateWithdrawableAmount_def Let_def)

text \<open>
  C26: For a bounded live stream the vested fraction of the duration is the vested
  fraction of the deposit: the percentage times the full payout is the streamed total
  at every time, pause and end clamping included; and it stays between 0 and 1.
\<close>
theorem vested_percentage_of_deposit:
  assumes "\<not> cancelled s" "0 < endTime s" "startTime s < endTime s"
  shows "0 \<le> calculateVestedPercentage s t \<and> calculateVestedPercentage s t \<le> 1 \<and>
    calculateVestedPercentage s t * of_int (ratePerSecond s * (endTime s - startTime s))
      = of_int (streamedTotalLocal s t)"
proof -
  have eff: "effective_now s t \<le> endTime s" using assms by (auto simp: effective_now_def Let_def)
  have "calculateVestedPercentage s t
      = of_int (elapsed_seconds s t) / of_int (endTime s - startTime s)"
    using assms eff
    by (auto simp: calculateVestedPercentage_def elapsed_seconds_def effective_now_def Let_def
        field_simps simp flip: of_int_diff split: if_splits)
  moreover have "elapsed_seconds s t \<le> endTime s - startTime s"
    using assms eff by (simp add: elapsed_seconds_def)
  ultimately show ?thesis using assms
    by (simp only: streamedTotalLocal_clock if_False of_int_mult)
       (simp add: divide_le_eq flip: of_int_diff)
qed

lemma vested_percentage_of_deposit_witness:
  "calculateVestedPercentage sample_stream 150 * 300 = of_int (streamedTotalLocal sample_stream 150)"
  using vested_percentage_of_deposit [of sample_stream 150] by (simp add: sample_stream_def)

lemma portfolio_single_mono:
  assumes "snapshot_ok s" "t \<le> u"
  shows "withdrawableLocal s t \<le> withdrawableLocal s u" "streamedTotalLocal s t \<le> streamedTotalLocal s u"
  using available.mono [OF assms] streamed.mono [OF assms] by auto

end
