(* ===== verification/Lru_Cache.thy ===== *)
theory Lru_Cache
  imports Stream_Math
begin

text \<open>
  LruMemoCache of src/lru-memo-cache.ts.  The JavaScript Map is an association list in
  insertion order, oldest first; deadlines are absolute times in milliseconds and the
  clock is an argument.  Stored values are never undefined, as in all uses in the SDK.
\<close>

section \<open>State\<close>

record ('k, 'v) lru =
  lru_store :: "('k \<times> 'v) list"
  lru_expires :: "('k \<times> rat) list"
  cacheHits :: nat
  cacheMisses :: nat
  hitExecutionTimeMs :: rat
  missExecutionTimeMs :: rat
  maxSize :: int
  defaultTtlMs :: "jsnum option"

datatype lru_error = Bad_ttl | Bad_key | Not_json | Not_object | Bad_version | Bad_entries

definition positive_finite :: "jsnum \<Rightarrow> bool" where
  "positive_finite t = (case t of Num r \<Rightarrow> 0 < r | _ \<Rightarrow> False)"

definition lru_new :: "int \<Rightarrow> jsnum option \<Rightarrow> (lru_error, ('k, 'v) lru) result" where
  "lru_new maxEntries ttl =
    (if (case ttl of Some t \<Rightarrow> \<not> positive_finite t | None \<Rightarrow> False) then Inl Bad_ttl
     else Inr \<lparr> lru_store = [], lru_expires = [], cacheHits = 0, cacheMisses = 0,
       hitExecutionTimeMs = 0, missExecutionTimeMs = 0, maxSize = maxEntries, defaultTtlMs = ttl \<rparr>)"

definition remove_key :: "'k \<Rightarrow> ('k \<times> 'b) list \<Rightarrow> ('k \<times> 'b) list" where
  "remove_key k xs = filter (\<lambda>p. fst p \<noteq> k) xs"

section \<open>Operations\<close>

definition isExpired :: "rat \<Rightarrow> 'k \<Rightarrow> ('k, 'v) lru \<Rightarrow> bool" where
  "isExpired now k c = (case map_of (lru_expires c) k of Some e \<Rightarrow> now \<ge> e | None \<Rightarrow> False)"

definition lru_remove :: "'k \<Rightarrow> ('k, 'v) lru \<Rightarrow> ('k, 'v) lru" where
  "lru_remove k c = c \<lparr> lru_store := remove_key k (lru_store c), lru_expires := remove_key k (lru_expires c) \<rparr>"

definition lru_get :: "rat \<Rightarrow> 'k \<Rightarrow> ('k, 'v) lru \<Rightarrow> 'v option \<times> ('k, 'v) lru" where
  "lru_get now k c =
    (if isExpired now k c then (None, lru_remove k c)
     else case map_of (lru_store c) k of
       Some v \<Rightarrow> (Some v, c \<lparr> lru_store := remove_key k (lru_store c) @ [(k, v)] \<rparr>)
     | None \<Rightarrow> (None, c))"

definition lru_insert :: "'k \<Rightarrow> 'v \<Rightarrow> rat option \<Rightarrow> ('k, 'v) lru \<Rightarrow> ('k, 'v) lru" where
  "lru_insert k v deadline c =
    (let c1 = (if k \<in> fst ` set (lru_store c) then lru_remove k c
               else if int (length (lru_store c)) \<ge> maxSize c then
                 (case lru_store c of (oldest, _) # _ \<Rightarrow> lru_remove oldest c | [] \<Rightarrow> c)
               else c)
     in c1 \<lparr> lru_store := lru_store c1 @ [(k, v)],
             lru_expires := (case deadline of Some e \<Rightarrow> remove_key k (lru_expires c1) @ [(k, e)]
                             | None \<Rightarrow> lru_expires c1) \<rparr>)"

definition lru_set :: "rat \<Rightarrow> 'k \<Rightarrow> 'v \<Rightarrow> jsnum option \<Rightarrow> ('k, 'v) lru \<Rightarrow> (lru_error, ('k, 'v) lru) result" where
  "lru_set now k v ttl c =
    (case ttl of
       None \<Rightarrow> Inr (lru_insert k v None c)
     | Some t \<Rightarrow> if \<not> positive_finite t then Inl Bad_ttl
         else Inr (lru_insert k v (case t of Num r \<Rightarrow> Some (now + r) | _ \<Rightarrow> None) c))"

definition recordHit :: "rat \<Rightarrow> ('k, 'v) lru \<Rightarrow> ('k, 'v) lru" where
  "recordHit elapsed c = c \<lparr> cacheHits := cacheHits c + 1, hitExecutionTimeMs := hitExecutionTimeMs c + elapsed \<rparr>"

definition recordMiss :: "rat \<Rightarrow> ('k, 'v) lru \<Rightarrow> ('k, 'v) lru" where
  "recordMiss elapsed c = c \<lparr> cacheMisses := cacheMisses c + 1, missExecutionTimeMs := missExecutionTimeMs c + elapsed \<rparr>"

definition lru_clear :: "('k, 'v) lru \<Rightarrow> ('k, 'v) lru" where
  "lru_clear c = c \<lparr> lru_store := [], lru_expires := [], cacheHits := 0, cacheMisses := 0,
     hitExecutionTimeMs := 0, missExecutionTimeMs := 0 \<rparr>"

record memo_metrics =
  mm_cacheHits :: nat
  mm_cacheMisses :: nat
  measuredSpeedupPercent :: "rat option"

definition lru_metrics :: "('k, 'v) lru \<Rightarrow> memo_metrics" where
  "lru_metrics c =
    (let avgHit = (if cacheHits c > 0 then Some (hitExecutionTimeMs c / of_nat (cacheHits c)) else None);
         avgMiss = (if cacheMisses c > 0 then Some (missExecutionTimeMs c / of_nat (cacheMisses c)) else None)
     in \<lparr> mm_cacheHits = cacheHits c, mm_cacheMisses = cacheMisses c,
          measuredSpeedupPercent =
            (case (avgHit, avgMiss) of
               (Some h, Some m) \<Rightarrow> if m > 0 then Some ((m - h) / m * 100) else None
             | _ \<Rightarrow> None) \<rparr>)"

text \<open>
  Snapshots: what JSON.parse yields for a persisted cache, sorted by the checks of
  hydrate.  A key is serializable when it is a string or a number.
\<close>

datatype ('k, 'v) raw_entry = Junk_entry | Raw_entry 'k 'v "rat option"

datatype ('k, 'v) snapshot = Not_json_text | Non_object | Payload int "('k, 'v) raw_entry list option"

definition lru_serialize ::
    "('k \<Rightarrow> bool) \<Rightarrow> rat \<Rightarrow> ('k, 'v) lru \<Rightarrow> (lru_error, ('k, 'v) snapshot) result" where
  "lru_serialize serializable now c =
    (if list_ex (\<lambda>p. \<not> serializable (fst p)) (lru_store c) then Inl Bad_key
     else Inr (Payload 1 (Some
       (map (\<lambda>p. Raw_entry (fst p) (snd p) (map_of (lru_expires c) (fst p)))
         (filter (\<lambda>p. \<not> isExpired now (fst p) c) (lru_store c))))))"

fun hydrate_entries ::
    "('k \<Rightarrow> bool) \<Rightarrow> rat \<Rightarrow> ('k, 'v) raw_entry list \<Rightarrow> nat \<Rightarrow> ('k, 'v) lru
      \<Rightarrow> (lru_error, nat) result \<times> ('k, 'v) lru" where
  "hydrate_entries serializable now [] restored c = (Inr restored, c)"
| "hydrate_entries serializable now (Junk_entry # es) restored c =
    hydrate_entries serializable now es restored c"
| "hydrate_entries serializable now (Raw_entry k v e # es) restored c =
    (if \<not> serializable k then (Inl Bad_key, c)
     else if (case e of Some x \<Rightarrow> now \<ge> x | None \<Rightarrow> False)
       then hydrate_entries serializable now es restored c
     else hydrate_entries serializable now es (restored + 1) (lru_insert k v e c))"

definition lru_hydrate ::
    "('k \<Rightarrow> bool) \<Rightarrow> rat \<Rightarrow> ('k, 'v) snapshot \<Rightarrow> ('k, 'v) lru \<Rightarrow> (lru_error, nat) result \<times> ('k, 'v) lru" where
  "lru_hydrate serializable now snap c =
    (case snap of
       Not_json_text \<Rightarrow> (Inl Not_json, c)
     | Non_object \<Rightarrow> (Inl Not_object, c)
     | Payload version entries \<Rightarrow>
         if version \<noteq> 1 then (Inl Bad_version, c)
         else case entries of None \<Rightarrow> (Inl Bad_entries, c)
         | Some es \<Rightarrow> hydrate_entries serializable now es 0 c)"

section \<open>Invariant\<close>

definition lru_inv :: "('k, 'v) lru \<Rightarrow> bool" where
  "lru_inv c = (distinct (map fst (lru_store c)) \<and> distinct (map fst (lru_expires c)) \<and>
    fst ` set (lru_expires c) \<subseteq> fst ` set (lru_store c) \<and>
    int (length (lru_store c)) \<le> max 1 (maxSize c))"

lemma fst_remove_key [simp]: "fst ` set (remove_key k xs) = fst ` set xs - {k}"
  by (auto simp: remove_key_def)

lemma distinct_remove_key [simp]: "distinct (map fst xs) \<Longrightarrow> distinct (map fst (remove_key k xs))"
  by (auto simp: remove_key_def distinct_map_filter)

lemma map_of_remove_key: "map_of (remove_key k xs) j = (if j = k then None else map_of xs j)"
  by (induction xs) (auto simp: remove_key_def)

lemma remove_key_id: "k \<notin> fst ` set xs \<Longrightarrow> remove_key k xs = xs"
  by (induction xs) (auto simp: remove_key_def)

lemma length_remove_key:
  "distinct (map fst xs) \<Longrightarrow> k \<in> fst ` set xs \<Longrightarrow> Suc (length (remove_key k xs)) = length xs"
proof (induction xs)
  case (Cons x xs)
  show ?case
  proof (cases "fst x = k")
    case True
    then have "remove_key k xs = xs" using Cons.prems by (intro remove_key_id) auto
    with True show ?thesis by (simp add: remove_key_def)
  qed (use Cons in \<open>auto simp: remove_key_def\<close>)
qed simp


lemma length_remove_key_le: "length (remove_key k xs) \<le> length xs"
  by (simp add: remove_key_def)

lemma lru_inv_remove: "lru_inv c \<Longrightarrow> lru_inv (lru_remove k c)"
  using length_remove_key_le [of k "lru_store c"] by (auto simp: lru_inv_def lru_remove_def)

lemma lru_inv_get: "lru_inv c \<Longrightarrow> lru_inv (snd (lru_get now k c))"
proof (cases "map_of (lru_store c) k")
  case (Some v)
  assume inv: "lru_inv c"
  have "k \<in> fst ` set (lru_store c)" using Some by (metis domI dom_map_of_conv_image_fst)
  moreover have "Suc (length (remove_key k (lru_store c))) = length (lru_store c)"
    using inv calculation by (intro length_remove_key) (auto simp: lru_inv_def)
  ultimately show ?thesis
    using inv Some lru_inv_remove [OF inv, of k]
    by (auto simp: lru_get_def lru_inv_def)
qed (auto simp: lru_get_def lru_inv_remove)

text \<open>The state just before the new pair is appended: room for it, and the key is gone.\<close>

definition make_room :: "'k \<Rightarrow> ('k, 'v) lru \<Rightarrow> ('k, 'v) lru" where
  "make_room k c =
    (if k \<in> fst ` set (lru_store c) then lru_remove k c
     else if int (length (lru_store c)) \<ge> maxSize c then
       (case lru_store c of (oldest, _) # _ \<Rightarrow> lru_remove oldest c | [] \<Rightarrow> c)
     else c)"

lemma lru_insert_room:
  "lru_insert k v deadline c = (let c1 = make_room k c in
     c1 \<lparr> lru_store := lru_store c1 @ [(k, v)],
          lru_expires := (case deadline of Some e \<Rightarrow> remove_key k (lru_expires c1) @ [(k, e)]
                          | None \<Rightarrow> lru_expires c1) \<rparr>)"
  by (simp add: lru_insert_def make_room_def)

lemma make_room:
  assumes "lru_inv c"
  shows "lru_inv (make_room k c)" "k \<notin> fst ` set (lru_store (make_room k c))"
    "int (length (lru_store (make_room k c))) < max 1 (maxSize c)" "maxSize (make_room k c) = maxSize c"
proof -
  have "maxSize (lru_remove j c) = maxSize c" for j by (simp add: lru_remove_def)
  then show "maxSize (make_room k c) = maxSize c" by (auto simp: make_room_def split: list.split)
  show "lru_inv (make_room k c)"
    using assms lru_inv_remove [OF assms] by (auto simp: make_room_def split: list.split)
  show "k \<notin> fst ` set (lru_store (make_room k c))"
    by (auto simp: make_room_def lru_remove_def split: list.split if_splits)
  have d: "distinct (map fst (lru_store c))" using assms by (simp add: lru_inv_def)
  show "int (length (lru_store (make_room k c))) < max 1 (maxSize c)"
  proof (cases "lru_store c")
    case (Cons p ps)
    obtain j w where p: "p = (j, w)" by force
    have "Suc (length (remove_key i (lru_store c))) = length (lru_store c)" if "i \<in> fst ` set (lru_store c)" for i
      using d that by (rule length_remove_key)
    then show ?thesis
      using assms Cons p by (auto simp: make_room_def lru_remove_def lru_inv_def)
  qed (auto simp: make_room_def)
qed

lemma lru_inv_insert:
  assumes "lru_inv c"
  shows "lru_inv (lru_insert k v deadline c)"
  using make_room [OF assms, of k]
  by (auto simp: lru_insert_room Let_def lru_inv_def split: option.split)

lemma lru_inv_set: "lru_inv c \<Longrightarrow> lru_set now k v ttl c = Inr c' \<Longrightarrow> lru_inv c'"
  by (auto simp: lru_set_def lru_inv_insert split: option.splits if_splits)

lemma lru_inv_counters:
  "lru_inv c \<Longrightarrow> lru_inv (recordHit t c)" "lru_inv c \<Longrightarrow> lru_inv (recordMiss t c)" "lru_inv (lru_clear c)"
  by (simp_all add: lru_inv_def recordHit_def recordMiss_def lru_clear_def)

lemma lru_inv_new: "lru_new n ttl = Inr c \<Longrightarrow> lru_inv c"
  by (auto simp: lru_new_def lru_inv_def split: if_splits)

lemma lru_inv_hydrate_entries: "lru_inv c \<Longrightarrow> lru_inv (snd (hydrate_entries S now es n c))"
  by (induction S now es n c rule: hydrate_entries.induct) (auto simp: lru_inv_insert)

section \<open>What the cache answers\<close>

definition lru_contents :: "rat \<Rightarrow> ('k, 'v) lru \<Rightarrow> 'k \<Rightarrow> 'v option" where
  "lru_contents t c k = (if isExpired t k c then None else map_of (lru_store c) k)"

lemma lru_get_contents: "fst (lru_get t k c) = lru_contents t c k"
  by (simp add: lru_get_def lru_contents_def split: option.split)

lemma isExpired_mono: "isExpired t k c \<Longrightarrow> t \<le> u \<Longrightarrow> isExpired u k c"
  by (auto simp: isExpired_def split: option.splits)

lemma map_of_move_to_end:
  "map_of (remove_key k xs @ [(k, v)]) j = (if j = k then Some v else map_of xs j)"
  by (auto simp: map_add_def map_of_remove_key split: option.split)

lemma lru_contents_get_forgets:
  assumes "lru_contents u (snd (lru_get t k c)) j = Some w"
  shows "lru_contents u c j = Some w"
proof (cases "isExpired t k c")
  case True
  then have "snd (lru_get t k c) = lru_remove k c" by (simp add: lru_get_def)
  with assms show ?thesis
    by (auto simp: lru_contents_def lru_remove_def isExpired_def map_of_remove_key split: if_splits)
next
  case False
  have "lru_contents u (snd (lru_get t k c)) j = lru_contents u c j"
  proof -
    have "isExpired u j (snd (lru_get t k c)) = isExpired u j c"
      using False by (simp add: lru_get_def isExpired_def split: option.split)
    moreover have "map_of (lru_store (snd (lru_get t k c))) j = map_of (lru_store c) j"
      using False by (auto simp: lru_get_def map_of_move_to_end simp del: map_of_append split: option.split)
    ultimately show ?thesis by (simp add: lru_contents_def)
  qed
  with assms show ?thesis by simp
qed

lemma lru_contents_make_room: "lru_contents u (make_room k c) j = Some w \<Longrightarrow> lru_contents u c j = Some w"
  by (auto simp: make_room_def lru_remove_def lru_contents_def isExpired_def map_of_remove_key
      split: list.splits if_splits option.splits)

lemma lru_contents_insert:
  assumes "lru_contents u (lru_insert k v d c) j = Some w"
  shows "(j = k \<and> w = v) \<or> lru_contents u c j = Some w"
proof (cases "j = k")
  case True
  have "k \<notin> fst ` set (lru_store (make_room k c))"
    by (auto simp: make_room_def lru_remove_def split: list.split if_splits)
  then have "map_of (lru_store (make_room k c)) k = None" by (simp add: map_of_eq_None_iff)
  then show ?thesis using assms True
    by (auto simp: lru_insert_room Let_def lru_contents_def map_add_def split: if_splits)
next
  case False
  then have st: "map_of (lru_store (lru_insert k v d c)) j = map_of (lru_store (make_room k c)) j"
    by (simp add: lru_insert_room Let_def map_add_def split: option.split)
  have ex: "isExpired u j (lru_insert k v d c) = isExpired u j (make_room k c)"
    using False
    by (cases d) (simp_all add: lru_insert_room Let_def isExpired_def map_add_def map_of_remove_key split: option.split)
  have "lru_contents u (make_room k c) j = Some w"
    using assms by (simp only: lru_contents_def st ex)
  then have "lru_contents u c j = Some w" by (rule lru_contents_make_room)
  then show ?thesis by (rule disjI2)
qed

lemma lru_insert_hit:
  assumes "case d of Some e \<Rightarrow> u < e | None \<Rightarrow> True" "lru_inv c"
  shows "lru_contents u (lru_insert k v d c) k = Some v"
proof -
  have r: "k \<notin> fst ` set (lru_store (make_room k c))" "lru_inv (make_room k c)"
    using make_room [OF assms(2)] by auto
  then have "map_of (lru_store (make_room k c)) k = None" "map_of (lru_expires (make_room k c)) k = None"
    by (auto simp: lru_inv_def map_of_eq_None_iff)
  then show ?thesis using assms
    by (auto simp: lru_insert_room Let_def lru_contents_def isExpired_def map_add_def map_of_remove_key split: option.splits)
qed

section \<open>Interface of a memoising cache\<close>

text \<open>
  What a client that memoises a function needs of a cache: lookups answer what is stored
  and only forget, storing adds at most the stored pair.
\<close>

locale memo_cache =
  fixes lookup :: "rat \<Rightarrow> 'k \<Rightarrow> 'c \<Rightarrow> 'v option \<times> 'c"
    and put :: "'k \<Rightarrow> 'v \<Rightarrow> 'c \<Rightarrow> 'c"
    and contents :: "rat \<Rightarrow> 'c \<Rightarrow> 'k \<Rightarrow> 'v option"
  assumes lookup_value: "fst (lookup t k c) = contents t c k"
    and lookup_forgets: "contents u (snd (lookup t k c)) j = Some w \<Longrightarrow> contents u c j = Some w"
    and put_adds: "contents u (put k v c) j = Some w \<Longrightarrow> (j = k \<and> w = v) \<or> contents u c j = Some w"

locale memoised = memo_cache lookup put contents
  for lookup :: "rat \<Rightarrow> 'k \<Rightarrow> 'c \<Rightarrow> 'v option \<times> 'c"
    and put :: "'k \<Rightarrow> 'v \<Rightarrow> 'c \<Rightarrow> 'c"
    and contents :: "rat \<Rightarrow> 'c \<Rightarrow> 'k \<Rightarrow> 'v option" +
  fixes key :: "'a \<Rightarrow> 'k" and compute :: "'a \<Rightarrow> 'v"
  assumes key_determines: "key x = key y \<Longrightarrow> compute x = compute y"
begin

lemma sound_hit:
  assumes "\<forall>u k v. contents u c k = Some v \<longrightarrow> (\<exists>x. key x = k \<and> v = compute x)"
    and "fst (lookup t (key x) c) = Some v"
  shows "v = compute x"
proof -
  have "contents t c (key x) = Some v" using assms(2) by (simp add: lookup_value)
  then obtain y where "key y = key x" "v = compute y" using assms(1) by blast
  then show ?thesis using key_determines [of y x] by simp
qed

lemma sound_lookup:
  assumes "\<forall>u k v. contents u c k = Some v \<longrightarrow> (\<exists>x. key x = k \<and> v = compute x)"
  shows "\<forall>u k v. contents u (snd (lookup t j c)) k = Some v \<longrightarrow> (\<exists>x. key x = k \<and> v = compute x)"
  using assms lookup_forgets by blast

lemma sound_put:
  assumes "\<forall>u k v. contents u c k = Some v \<longrightarrow> (\<exists>x. key x = k \<and> v = compute x)"
  shows "\<forall>u k v. contents u (put (key x) (compute x) c) k = Some v \<longrightarrow> (\<exists>x. key x = k \<and> v = compute x)"
  using assms put_adds by blast

end

interpretation lru: memo_cache lru_get "\<lambda>k v. lru_insert k v None" lru_contents
proof (unfold_locales, goal_cases)
  case 1 show ?case by (rule lru_get_contents)
next
  case 2 then show ?case by (rule lru_contents_get_forgets)
next
  case 3 then show ?case by (rule lru_contents_insert)
qed

section \<open>Recency order\<close>

text \<open>A memoised access without deadlines: look up, and insert on a miss.\<close>

definition lru_access :: "rat \<Rightarrow> ('k, 'v) lru \<Rightarrow> 'k \<times> 'v \<Rightarrow> ('k, 'v) lru" where
  "lru_access now c kv =
    (case lru_get now (fst kv) c of
       (Some _, c') \<Rightarrow> c'
     | (None, c') \<Rightarrow> lru_insert (fst kv) (snd kv) None c')"

definition last_n :: "nat \<Rightarrow> 'a list \<Rightarrow> 'a list" where
  "last_n n xs = drop (length xs - n) xs"

lemma last_n_append: "length ys = n \<or> (length ys \<le> n \<and> xs = []) \<Longrightarrow> last_n n (xs @ ys) = ys"
  by (auto simp: last_n_def)

lemma remdups_snoc: "remdups (xs @ [x]) = filter (\<lambda>y. y \<noteq> x) (remdups xs) @ [x]"
  by (induction xs) auto

lemma length_filter_neq:
  "distinct b \<Longrightarrow> x \<in> set b \<Longrightarrow> Suc (length (filter (\<lambda>y. y \<noteq> x) b)) = length b"
proof (induction b)
  case (Cons y b)
  have "filter (\<lambda>y. y \<noteq> x) b = b" if "x \<notin> set b" using that by (induction b) auto
  then show ?case using Cons by (cases "y = x") auto
qed simp

lemma last_n_snoc:
  assumes "0 < n" and that: "distinct r"
  shows "last_n n (filter (\<lambda>y. y \<noteq> x) r @ [x]) =
    (let b = last_n n r in
     if x \<in> set b then filter (\<lambda>y. y \<noteq> x) b @ [x]
     else if length b \<ge> n then tl b @ [x] else b @ [x])"
proof -
  define a b where "a = take (length r - n) r" and "b = last_n n r"
  have r: "r = a @ b" by (simp add: a_def b_def last_n_def)
  have len: "length b = n \<or> (length b < n \<and> a = [])"
    by (cases "n \<le> length r") (auto simp: a_def b_def last_n_def)
  let ?f = "filter (\<lambda>y. y \<noteq> x)"
  have lb: "last_n n r = b" by (simp add: b_def)
  show ?thesis
  proof (cases "x \<in> set b")
    case True
    have "Suc (length (?f b)) = length b"
      using True that unfolding r by (intro length_filter_neq) auto
    then have "last_n n (?f a @ (?f b @ [x])) = ?f b @ [x]"
      using len by (intro last_n_append) auto
    then show ?thesis using True unfolding lb Let_def by (simp add: r)
  next
    case False
    then have fb: "?f b = b" by (auto simp: filter_id_conv)
    show ?thesis
    proof (cases "length b \<ge> n")
      case True
      then have "length b = n" using len by auto
      with assms obtain h t where b: "b = h # t" by (cases b) auto
      have "last_n n ((?f a @ [h]) @ (t @ [x])) = t @ [x]"
        using \<open>length b = n\<close> b by (intro last_n_append) auto
      then show ?thesis using True False fb b unfolding lb Let_def by (simp add: r)
    next
      case f: False
      then have "last_n n (?f a @ (b @ [x])) = b @ [x]" using len by (intro last_n_append) auto
      then show ?thesis using f False fb unfolding lb Let_def by (simp add: r)
    qed
  qed
qed

lemma map_fst_remove_key: "map fst (remove_key k xs) = filter (\<lambda>y. y \<noteq> k) (map fst xs)"
  by (induction xs) (auto simp: remove_key_def)

lemma lru_access_keys:
  assumes "lru_inv c" "lru_expires c = []" "0 < maxSize c"
  shows "map fst (lru_store (lru_access now c kv)) =
    (let b = map fst (lru_store c) in
     if fst kv \<in> set b then filter (\<lambda>y. y \<noteq> fst kv) b @ [fst kv]
     else if int (length b) \<ge> maxSize c then tl b @ [fst kv] else b @ [fst kv])"
    and "lru_expires (lru_access now c kv) = []" "maxSize (lru_access now c kv) = maxSize c"
    "lru_inv (lru_access now c kv)"
proof -
  obtain k v where kv: "kv = (k, v)" by force
  have e: "\<not> isExpired now j c" for j by (simp add: isExpired_def assms(2))
  have head: "map fst (remove_key a ((a, w) # ps)) = map fst ps"
    if "lru_store c = (a, w) # ps" for a w ps
  proof -
    have "a \<notin> fst ` set ps" using assms(1) that by (auto simp: lru_inv_def)
    then show ?thesis using remove_key_id [of a ps] by (simp add: remove_key_def)
  qed
  have hit: "map_of (lru_store c) k = None \<longleftrightarrow> k \<notin> fst ` set (lru_store c)"
    by (simp add: map_of_eq_None_iff)
  show "map fst (lru_store (lru_access now c kv)) =
    (let b = map fst (lru_store c) in
     if fst kv \<in> set b then filter (\<lambda>y. y \<noteq> fst kv) b @ [fst kv]
     else if int (length b) \<ge> maxSize c then tl b @ [fst kv] else b @ [fst kv])"
  proof (cases "map_of (lru_store c) k")
    case (Some w)
    then show ?thesis using hit by (simp add: lru_access_def lru_get_def e kv map_fst_remove_key Let_def)
  next
    case None
    then show ?thesis using hit assms(3)
      by (auto simp: lru_access_def lru_get_def e kv lru_insert_def lru_remove_def Let_def head split: list.split)
  qed
  show "lru_expires (lru_access now c kv) = []" "maxSize (lru_access now c kv) = maxSize c"
    by (auto simp: lru_access_def lru_get_def e kv lru_insert_def lru_remove_def Let_def assms(2) remove_key_def
        split: option.split list.split)
  show "lru_inv (lru_access now c kv)"
    using assms(1) lru_inv_get [OF assms(1), of now k]
    by (auto simp: lru_access_def kv lru_inv_insert split: prod.split option.split)
qed

lemma lru_run_keys:
  assumes "lru_inv c" "lru_expires c = []" "0 < maxSize c" "lru_store c = []"
  shows "map fst (lru_store (foldl (lru_access now) c kvs)) = last_n (nat (maxSize c)) (remdups (map fst kvs)) \<and>
    lru_inv (foldl (lru_access now) c kvs) \<and> lru_expires (foldl (lru_access now) c kvs) = [] \<and>
    maxSize (foldl (lru_access now) c kvs) = maxSize c"
proof (induction kvs rule: rev_induct)
  case Nil
  then show ?case using assms by (simp add: last_n_def)
next
  case (snoc kv kvs)
  let ?c = "foldl (lru_access now) c kvs"
  have step: "lru_inv ?c" "lru_expires ?c = []" "0 < maxSize ?c" using snoc assms by auto
  have ln: "last_n (nat (maxSize c)) (filter (\<lambda>y. y \<noteq> fst kv) (remdups (map fst kvs)) @ [fst kv]) =
    (let b = last_n (nat (maxSize c)) (remdups (map fst kvs)) in
     if fst kv \<in> set b then filter (\<lambda>y. y \<noteq> fst kv) b @ [fst kv]
     else if length b \<ge> nat (maxSize c) then tl b @ [fst kv] else b @ [fst kv])"
    using assms(3) by (intro last_n_snoc) auto
  have "nat (maxSize c) \<le> n \<longleftrightarrow> maxSize c \<le> int n" for n by (simp add: nat_le_iff)
  then show ?case
    using lru_access_keys [OF step, of now kv] snoc ln by (simp add: remdups_snoc Let_def)
qed

section \<open>Snapshots\<close>

lemma hydrate_unexpired:
  assumes "\<forall>(k, v, e) \<in> set es. S k \<and> (case e of Some x \<Rightarrow> now < x | None \<Rightarrow> True)"
    and "distinct (map fst (lru_store c) @ map fst es)" "lru_inv c"
    and "int (length (lru_store c) + length es) \<le> maxSize c"
  shows "hydrate_entries S now (map (\<lambda>(k, v, e). Raw_entry k v e) es) n c =
    (Inr (n + length es), c \<lparr> lru_store := lru_store c @ map (\<lambda>(k, v, e). (k, v)) es,
       lru_expires := lru_expires c @ List.map_filter (\<lambda>(k, v, e). map_option (Pair k) e) es \<rparr>)"
  using assms
proof (induction es arbitrary: n c)
  case Nil
  then show ?case by (simp add: map_filter_simps)
next
  case (Cons x es)
  obtain k v e where x: "x = (k, v, e)" by (cases x) auto
  have fresh: "k \<notin> fst ` set (lru_store c)" using Cons.prems(2) x by auto
  then have "k \<notin> fst ` set (lru_expires c)" using Cons.prems(3) by (auto simp: lru_inv_def)
  then have rk: "remove_key k (lru_expires c) = lru_expires c" by (rule remove_key_id)
  have room: "make_room k c = c" using fresh Cons.prems(4) by (simp add: make_room_def)
  let ?c = "lru_insert k v e c"
  have ins: "?c = c \<lparr> lru_store := lru_store c @ [(k, v)],
      lru_expires := (case e of Some t \<Rightarrow> lru_expires c @ [(k, t)] | None \<Rightarrow> lru_expires c) \<rparr>"
    by (simp add: lru_insert_room room rk Let_def split: option.split)
  have "hydrate_entries S now (map (\<lambda>(k, v, e). Raw_entry k v e) es) (n + 1) ?c =
    (Inr (n + 1 + length es), ?c \<lparr> lru_store := lru_store ?c @ map (\<lambda>(k, v, e). (k, v)) es,
       lru_expires := lru_expires ?c @ List.map_filter (\<lambda>(k, v, e). map_option (Pair k) e) es \<rparr>)"
    using Cons.prems lru_inv_insert [OF Cons.prems(3), of k v e]
    by (intro Cons.IH) (auto simp: ins x)
  moreover have "\<not> (case e of Some x \<Rightarrow> now \<ge> x | None \<Rightarrow> False)" "S k"
    using Cons.prems(1) x by (auto split: option.splits)
  ultimately show ?case unfolding x
    by (simp add: ins map_filter_simps split: option.split)
qed

definition live_entries :: "rat \<Rightarrow> ('k, 'v) lru \<Rightarrow> ('k \<times> 'v \<times> rat option) list" where
  "live_entries now c = map (\<lambda>p. (fst p, snd p, map_of (lru_expires c) (fst p)))
     (filter (\<lambda>p. \<not> isExpired now (fst p) c) (lru_store c))"

lemma serialize_live:
  "list_all (\<lambda>p. S (fst p)) (lru_store c) \<Longrightarrow>
   lru_serialize S now c = Inr (Payload 1 (Some (map (\<lambda>(k, v, e). Raw_entry k v e) (live_entries now c))))"
  by (auto simp: lru_serialize_def live_entries_def list_all_iff list_ex_iff)

lemma map_of_map_filter_option:
  assumes "distinct (map fst es)"
  shows "map_of (List.map_filter (\<lambda>(k, v, e). map_option (Pair k) e) es) j =
    (case map_of (map (\<lambda>(k, v, e). (k, e)) es) j of Some e \<Rightarrow> e | None \<Rightarrow> None)"
  using assms
proof (induction es)
  case (Cons x es)
  obtain k v e where x: "x = (k, v, e)" by (cases x) auto
  have "map_of (List.map_filter (\<lambda>(k, v, e). map_option (Pair k) e) es) k = None"
    using Cons.prems x by (force simp: map_of_eq_None_iff List.map_filter_def split: option.splits)
  then show ?case using Cons x by (cases e) (auto simp: map_filter_simps)
qed (simp add: map_filter_simps)

lemma map_of_key_function:
  "map_of (map (\<lambda>p. (fst p, g (fst p))) xs) k = (if k \<in> fst ` set xs then Some (g k) else None)"
  by (induction xs) auto

section \<open>Properties\<close>

text \<open>
  C30: The cache is least recently used in the exact sense: after any sequence of memoised
  accesses its keys are the most recently accessed distinct keys, as many as fit, in the
  order of their last access.  The store never exceeds its limit.
\<close>
theorem lru_keeps_most_recent:
  assumes "lru_new n None = Inr c" "0 < n"
  shows "map fst (lru_store (foldl (lru_access now) c kvs)) = last_n (nat n) (remdups (map fst kvs)) \<and>
    int (length (lru_store (foldl (lru_access now) c kvs))) \<le> n"
proof -
  have c: "lru_inv c" "lru_expires c = []" "maxSize c = n" "lru_store c = []"
    using assms(1) lru_inv_new [OF assms(1)] by (auto simp: lru_new_def)
  have "length (last_n (nat n) xs) \<le> nat n" for xs :: "'a list" by (simp add: last_n_def)
  then show ?thesis using lru_run_keys [of c now kvs] c assms(2)
    by (metis length_map nat_int nat_le_eq_zle of_nat_0_le_iff order_less_imp_le)
qed

lemma lru_keeps_most_recent_witness:
  "\<exists>c. lru_new 2 None = Inr c \<and> map fst (lru_store (foldl (lru_access 0) c
     [(''a'', 1 :: int), (''b'', 2), (''a'', 1), (''c'', 3)])) = [''a'', ''c'']"
proof -
  obtain c :: "(string, int) lru" where c: "lru_new 2 None = Inr c" by (simp add: lru_new_def)
  show ?thesis
    using lru_keeps_most_recent [OF c, of 0 "[(''a'', 1), (''b'', 2), (''a'', 1), (''c'', 3)]"] c
    by (auto simp: last_n_def)
qed

text \<open>
  A persisted cache survives the round trip: hydrating an empty cache of at least the
  same size from a snapshot restores exactly the entries that are still alive, in the
  same eviction order and with their original deadlines, and reports their number.
\<close>
theorem lru_snapshot_round_trip:
  assumes "lru_inv c" "list_all (\<lambda>p. S (fst p)) (lru_store c)" "lru_serialize S now c = Inr snap"
    and "lru_new m ttl = Inr c0" "int (length (lru_store c)) \<le> m"
  shows "fst (lru_hydrate S now snap c0) = Inr (length (live_entries now c)) \<and>
    lru_store (snd (lru_hydrate S now snap c0)) = filter (\<lambda>p. \<not> isExpired now (fst p) c) (lru_store c) \<and>
    (\<forall>k u. now \<le> u \<longrightarrow> lru_contents u (snd (lru_hydrate S now snap c0)) k = lru_contents u c k)"
proof -
  let ?es = "live_entries now c" and ?live = "filter (\<lambda>p. \<not> isExpired now (fst p) c) (lru_store c)"
  have snap: "snap = Payload 1 (Some (map (\<lambda>(k, v, e). Raw_entry k v e) ?es))"
    using assms(2,3) serialize_live [of S c now] by simp
  have c0: "lru_store c0 = []" "lru_expires c0 = []" "maxSize c0 = m" "lru_inv c0"
    using assms(4) lru_inv_new [OF assms(4)] by (auto simp: lru_new_def split: if_splits)
  have d: "distinct (map fst (lru_store c))" using assms(1) by (simp add: lru_inv_def)
  have mf: "map fst ?es = map fst ?live" by (simp add: live_entries_def comp_def)
  have dl: "distinct (map fst ?live)" using d by (simp add: distinct_map_filter)
  have len: "length ?es \<le> length (lru_store c)" by (simp add: live_entries_def)
  have ok: "\<forall>(k, v, e) \<in> set ?es. S k \<and> (case e of Some x \<Rightarrow> now < x | None \<Rightarrow> True)"
    using assms(2) by (auto simp: live_entries_def list_all_iff isExpired_def split: option.splits)
  let ?h = "c0 \<lparr> lru_store := map (\<lambda>(k, v, e). (k, v)) ?es,
       lru_expires := List.map_filter (\<lambda>(k, v, e). map_option (Pair k) e) ?es \<rparr>"
  have h: "lru_hydrate S now snap c0 = (Inr (length ?es), ?h)"
    using hydrate_unexpired [of ?es S now c0 0] ok mf dl c0 assms(5) len
    by (simp add: snap lru_hydrate_def)
  have st: "map (\<lambda>(k, v, e). (k, v)) ?es = ?live" by (simp add: live_entries_def comp_def)
  have sub: "map_of (map (\<lambda>(k, v, e). (k, e)) ?es) k =
      (if k \<in> fst ` set ?live then Some (map_of (lru_expires c) k) else None)" for k
    using map_of_key_function [of "map_of (lru_expires c)" ?live k] by (simp add: live_entries_def comp_def)
  have contents: "lru_contents u ?h k = lru_contents u c k" if "now \<le> u" for k u
  proof (cases "k \<in> fst ` set ?live")
    case True
    then obtain v where kv: "(k, v) \<in> set ?live" by auto
    then have "map_of ?live k = Some v" "map_of (lru_store c) k = Some v"
      using dl d by (auto intro!: map_of_is_SomeI)
    moreover have "map_of (lru_expires ?h) k = map_of (lru_expires c) k"
      using True by (simp add: map_of_map_filter_option mf dl sub)
    ultimately show ?thesis by (simp add: lru_contents_def isExpired_def st)
  next
    case False
    then have "map_of ?live k = None" by (simp add: map_of_eq_None_iff)
    moreover have "lru_contents u c k = None"
    proof (cases "map_of (lru_store c) k")
      case (Some v)
      then have "isExpired now k c" using False map_of_SomeD by (fastforce simp: image_iff)
      then show ?thesis using isExpired_mono [of now k c u] that by (simp add: lru_contents_def)
    qed (simp add: lru_contents_def)
    ultimately show ?thesis by (simp add: lru_contents_def st)
  qed
  show ?thesis using h st contents by auto
qed

lemma lru_snapshot_round_trip_witness:
  "\<exists>(c :: (string, int) lru) c0 snap. lru_store c = [(''a'', 1), (''b'', 2)] \<and> lru_serialize (\<lambda>_. True) 5 c = Inr snap \<and>
     lru_store (snd (lru_hydrate (\<lambda>_. True) 5 snap c0)) = [(''b'', 2)]"
proof -
  define c :: "(string, int) lru" where "c = \<lparr> lru_store = [(''a'', 1), (''b'', 2)], lru_expires = [(''a'', 3), (''b'', 9)],
    cacheHits = 0, cacheMisses = 0, hitExecutionTimeMs = 0, missExecutionTimeMs = 0, maxSize = 2, defaultTtlMs = None \<rparr>"
  have inv: "lru_inv c" by (simp add: lru_inv_def c_def)
  have ser: "\<exists>snap. lru_serialize (\<lambda>_. True) 5 c = Inr snap" by (simp add: lru_serialize_def list_ex_iff)
  then obtain snap where s: "lru_serialize (\<lambda>_. True) 5 c = Inr snap" by blast
  obtain c0 :: "(string, int) lru" where n: "lru_new 2 None = Inr c0" by (simp add: lru_new_def)
  have "lru_store (snd (lru_hydrate (\<lambda>_. True) 5 snap c0)) = filter (\<lambda>p. \<not> isExpired 5 (fst p) c) (lru_store c)"
    using lru_snapshot_round_trip [OF inv _ s n] by (simp add: list_all_iff c_def)
  then show ?thesis using s by (intro exI [of _ c] exI [of _ c0] exI [of _ snap]) (simp add: c_def isExpired_def)
qed

end
