(* ===== verification/Memo_Modules.thy ===== *)
theory Memo_Modules
  imports Lru_Cache
begin

text \<open>
  The memoising batch helpers of src/module26.ts, src/module36.ts, src/module44.ts,
  src/module48.ts and src/module49.ts.  Every call receives the wall clock in
  milliseconds and the measured execution time as a tick.  A cache filled through set
  without a time-to-live is lru_insert with no deadline.
\<close>

section \<open>Ticks, items and the chunked loop\<close>

type_synonym tick = "int \<times> rat"

definition clock_sec :: "tick \<Rightarrow> int" where
  "clock_sec tk = fst tk div 1000"

definition clock_ms :: "tick \<Rightarrow> rat" where
  "clock_ms tk = of_int (fst tk)"

record stream_item =
  item_id :: string
  item_stream :: StreamInfo
  item_timestamp :: "int option"

definition item_now :: "tick \<Rightarrow> stream_item \<Rightarrow> int" where
  "item_now tk item = (case item_timestamp item of Some t \<Rightarrow> t | None \<Rightarrow> clock_sec tk)"

text \<open>
  The loop for (i = 0; i < n; i += chunk) over the items i to min (i + chunk) n.  A chunk
  size of zero or below never gets past the first items: the loop does not return.
\<close>

partial_function (option) chunk_loop ::
    "('s \<Rightarrow> 'a \<Rightarrow> 's) \<Rightarrow> int \<Rightarrow> 'a list \<Rightarrow> int \<Rightarrow> 's \<Rightarrow> 's option" where
  "chunk_loop f chunk items i s =
    (if i \<ge> int (length items) then Some s
     else let chunkEnd = min (i + chunk) (int (length items));
              s' = foldl f s (drop (nat i) (take (nat chunkEnd) items))
          in chunk_loop f chunk items (i + chunk) s')"

lemma drop_split: "j \<le> k \<Longrightarrow> drop j xs = drop j (take k xs) @ drop k xs"
  using append_take_drop_id [of "k - j" "drop j xs"] by (simp add: drop_take)

lemma chunk_loop_foldl:
  assumes "0 < chunk" "0 \<le> i" "i \<le> int (length items) \<or> drop (nat i) items = []"
  shows "chunk_loop f chunk items i s = Some (foldl f s (drop (nat i) items))"
  using assms
proof (induction "nat (int (length items) - i)" arbitrary: i s rule: less_induct)
  case less
  show ?case
  proof (cases "i \<ge> int (length items)")
    case True
    then show ?thesis by (simp add: chunk_loop.simps)
  next
    case False
    let ?e = "min (i + chunk) (int (length items))"
    let ?part = "drop (nat i) (take (nat ?e) items)"
    have split: "drop (nat i) items = ?part @ drop (nat (i + chunk)) items"
    proof -
      have le: "nat i \<le> nat ?e" using less.prems False by auto
      have "drop (nat i) items = ?part @ drop (nat ?e) items" using le by (rule drop_split)
      also have "drop (nat ?e) items = drop (nat (i + chunk)) items" by (auto simp: min_def)
      finally show ?thesis .
    qed
    have "chunk_loop f chunk items (i + chunk) (foldl f s ?part)
        = Some (foldl f (foldl f s ?part) (drop (nat (i + chunk)) items))"
      using less.prems False by (intro less.hyps) auto
    then show ?thesis using False by (subst chunk_loop.simps) (simp add: Let_def split)
  qed
qed

lemma chunk_loop_all: "0 < chunk \<Longrightarrow> chunk_loop f chunk items 0 s = Some (foldl f s items)"
  using chunk_loop_foldl [of chunk 0 items f s] by simp

section \<open>Key texts\<close>

definition flag_text :: "bool \<Rightarrow> string" where
  "flag_text b = (if b then ''1'' else ''0'')"

lemma flag_text_eq [simp]: "flag_text a = flag_text b \<longleftrightarrow> a = b"
  by (simp add: flag_text_def)

lemma underscore_free [simp]: "CHR ''_'' \<notin> set (show_int z)" "CHR ''_'' \<notin> set (flag_text b)"
  using show_nat_no_char [of "CHR ''_''"] by (auto simp: show_int_def flag_text_def is_digit_def)

text \<open>The last field of a key is recovered when it holds no separator.\<close>

lemma last_field:
  assumes "c \<notin> set t" "c \<notin> set t'"
  shows "s @ c # t = s' @ c # t' \<longleftrightarrow> s = s' \<and> t = t'"
proof
  assume "s @ c # t = s' @ c # t'"
  then have "rev t @ c # rev s = rev t' @ c # rev s'" by (metis rev.simps(2) rev_append append_assoc append_Cons append_Nil)
  moreover have "takeWhile (\<lambda>x. x \<noteq> c) (rev t @ c # r) = rev t" if "c \<notin> set t" for t r
    using that by (auto simp: takeWhile_append)
  moreover have "dropWhile (\<lambda>x. x \<noteq> c) (rev t @ c # r) = c # r" if "c \<notin> set t" for t r
    using that by (auto simp: dropWhile_append)
  ultimately show "s = s' \<and> t = t'" using assms
    by (metis list.inject rev_rev_ident)
qed simp

section \<open>Module 44: liquidity risk\<close>

datatype LiquidityRiskLevel = Inactive | Critical | Warning | Healthy

record StreamRiskAssessment =
  ra_id :: string
  runwaySecs :: "int option"
  riskLevel :: LiquidityRiskLevel
  ra_isCached :: bool
  ra_computedAt :: int

record module44 =
  m44_enable :: bool
  m44_chunk :: int
  criticalThresholdSecs :: int
  warningThresholdSecs :: int
  m44_cache :: "(string, StreamRiskAssessment) lru"
  totalAssessed :: nat
  m44_time :: rat

definition empty_lru :: "int \<Rightarrow> ('k, 'v) lru" where
  "empty_lru n = \<lparr> lru_store = [], lru_expires = [], cacheHits = 0, cacheMisses = 0,
     hitExecutionTimeMs = 0, missExecutionTimeMs = 0, maxSize = n, defaultTtlMs = None \<rparr>"

definition module44_new ::
    "int option \<Rightarrow> bool option \<Rightarrow> int option \<Rightarrow> int option \<Rightarrow> int option \<Rightarrow> (string, module44) result" where
  "module44_new cacheSize enableOptimization batchChunkSize critical warning =
    (let c = (case critical of Some x \<Rightarrow> x | None \<Rightarrow> 86400);
         w = (case warning of Some x \<Rightarrow> x | None \<Rightarrow> 604800)
     in if c < 0 then Inl ''Module44: criticalThresholdSecs cannot be negative''
        else if w \<le> c then Inl ''Module44: warningThresholdSecs must be greater than criticalThresholdSecs''
        else Inr \<lparr> m44_enable = (case enableOptimization of Some b \<Rightarrow> b | None \<Rightarrow> True),
          m44_chunk = (case batchChunkSize of Some n \<Rightarrow> n | None \<Rightarrow> 50),
          criticalThresholdSecs = c, warningThresholdSecs = w,
          m44_cache = empty_lru (case cacheSize of Some n \<Rightarrow> n | None \<Rightarrow> 1000),
          totalAssessed = 0, m44_time = 0 \<rparr>)"

definition computeAssessment :: "int \<Rightarrow> int \<Rightarrow> string \<Rightarrow> StreamInfo \<Rightarrow> int \<Rightarrow> StreamRiskAssessment" where
  "computeAssessment critical warning i stream nowSec =
    (if cancelled stream \<or> paused stream \<or> ratePerSecond stream \<le> 0 then
       \<lparr> ra_id = i, runwaySecs = Some 0, riskLevel = Inactive, ra_isCached = False, ra_computedAt = nowSec \<rparr>
     else if endTime stream = 0 then
       \<lparr> ra_id = i, runwaySecs = None, riskLevel = Healthy, ra_isCached = False, ra_computedAt = nowSec \<rparr>
     else
       let runway = max 0 (endTime stream - nowSec);
           level = (if runway \<le> 0 then Inactive
                    else if runway < critical then Critical
                    else if runway < warning then Warning
                    else Healthy)
       in \<lparr> ra_id = i, runwaySecs = Some runway, riskLevel = level, ra_isCached = False, ra_computedAt = nowSec \<rparr>)"

definition key44 :: "string \<times> StreamInfo \<times> int \<Rightarrow> string" where
  "key44 x = (case x of (i, stream, nowSec) \<Rightarrow>
     i @ CHR ''_'' # flag_text (paused stream) @ CHR ''_'' # flag_text (cancelled stream) @
     CHR ''_'' # show_int (ratePerSecond stream) @ CHR ''_'' # show_int (endTime stream) @
     CHR ''_'' # show_int nowSec)"

definition assessSingleItem :: "module44 \<Rightarrow> tick \<Rightarrow> stream_item \<Rightarrow> StreamRiskAssessment \<times> module44" where
  "assessSingleItem m tk item =
    (let nowSec = item_now tk item;
         cacheKey = key44 (item_id item, item_stream item, nowSec);
         looked = (if m44_enable m then lru_get (clock_ms tk) cacheKey (m44_cache m) else (None, m44_cache m))
     in case fst looked of
          Some cached \<Rightarrow>
            (cached \<lparr> ra_isCached := True \<rparr>,
             m \<lparr> m44_cache := recordHit (snd tk) (snd looked),
                 totalAssessed := totalAssessed m + 1, m44_time := m44_time m + snd tk \<rparr>)
        | None \<Rightarrow>
            let r = computeAssessment (criticalThresholdSecs m) (warningThresholdSecs m) (item_id item)
                      (item_stream item) nowSec;
                c = (if m44_enable m then lru_insert cacheKey r None (snd looked) else snd looked)
            in (r, m \<lparr> m44_cache := recordMiss (snd tk) c,
                       totalAssessed := totalAssessed m + 1, m44_time := m44_time m + snd tk \<rparr>))"

definition assessBatch ::
    "module44 \<Rightarrow> (tick \<times> stream_item) list \<Rightarrow> (StreamRiskAssessment list \<times> module44) option" where
  "assessBatch m items =
    chunk_loop (\<lambda>(rs, m) (tk, item). case assessSingleItem m tk item of (r, m') \<Rightarrow> (rs @ [r], m'))
      (m44_chunk m) items 0 ([], m)"

definition estimateTopUpNeeded :: "StreamInfo \<Rightarrow> int \<Rightarrow> int \<Rightarrow> int" where
  "estimateTopUpNeeded stream targetRunwaySecs nowSec =
    (if targetRunwaySecs \<le> 0 \<or> ratePerSecond stream \<le> 0 \<or> cancelled stream \<or> paused stream then 0
     else if endTime stream = 0 then 0
     else let currentRunwaySecs = max 0 (endTime stream - nowSec)
          in if currentRunwaySecs \<ge> targetRunwaySecs then 0
             else ratePerSecond stream * (targetRunwaySecs - currentRunwaySecs))"

definition m44_clearCache :: "module44 \<Rightarrow> module44" where
  "m44_clearCache m = m \<lparr> m44_cache := lru_clear (m44_cache m), totalAssessed := 0, m44_time := 0 \<rparr>"

record module_metrics =
  mt_total :: nat
  mt_hits :: nat
  mt_misses :: nat
  mt_speedup :: "rat option"
  mt_average :: rat

definition m44_metrics :: "module44 \<Rightarrow> module_metrics" where
  "m44_metrics m =
    (let c = lru_metrics (m44_cache m)
     in \<lparr> mt_total = totalAssessed m, mt_hits = mm_cacheHits c, mt_misses = mm_cacheMisses c,
          mt_speedup = (if m44_enable m then measuredSpeedupPercent c else None),
          mt_average = (if totalAssessed m > 0 then m44_time m / of_nat (totalAssessed m) else 0) \<rparr>)"

lemma key44_determines:
  "key44 x = key44 y \<Longrightarrow> (\<lambda>(i, s, t). computeAssessment c w i s t) x = (\<lambda>(i, s, t). computeAssessment c w i s t) y"
proof -
  assume eq: "key44 x = key44 y"
  obtain i s t j r u where x: "x = (i, s, t)" and y: "y = (j, r, u)" by (cases x; cases y) auto
  have "i = j \<and> paused s = paused r \<and> cancelled s = cancelled r \<and> ratePerSecond s = ratePerSecond r \<and>
      endTime s = endTime r \<and> t = u"
    using eq unfolding x y key44_def
    by (simp only: prod.case append_assoc [symmetric] append_Cons [symmetric] last_field underscore_free
        append.assoc [symmetric] flag_text_eq show_int_inject simp_thms)
  then show ?thesis by (simp add: x y computeAssessment_def)
qed

interpretation m44: memoised lru_get "\<lambda>k v. lru_insert k v None" lru_contents
    key44 "\<lambda>(i, s, t). computeAssessment critical warning i s t" for critical warning
  by unfold_locales (rule key44_determines)

lemma lru_contents_counters [simp]:
  "lru_contents u (recordHit t c) = lru_contents u c" "lru_contents u (recordMiss t c) = lru_contents u c"
  by (rule ext, simp add: lru_contents_def isExpired_def recordHit_def recordMiss_def)+

lemma lru_contents_empty [simp]: "lru_contents u (empty_lru n) k = None" "lru_contents u (lru_clear c) k = None"
  by (simp_all add: lru_contents_def isExpired_def empty_lru_def lru_clear_def)

definition direct44 :: "module44 \<Rightarrow> tick \<times> stream_item \<Rightarrow> StreamRiskAssessment" where
  "direct44 m x = (case x of (tk, item) \<Rightarrow>
     computeAssessment (criticalThresholdSecs m) (warningThresholdSecs m) (item_id item) (item_stream item) (item_now tk item))"

definition m44_sound :: "module44 \<Rightarrow> bool" where
  "m44_sound m = (\<forall>u k v. lru_contents u (m44_cache m) k = Some v \<longrightarrow>
     (\<exists>x. key44 x = k \<and> v = (\<lambda>(i, s, t). computeAssessment (criticalThresholdSecs m) (warningThresholdSecs m) i s t) x))"

definition m44_config :: "module44 \<Rightarrow> bool \<times> int \<times> int \<times> int" where
  "m44_config m = (m44_enable m, m44_chunk m, criticalThresholdSecs m, warningThresholdSecs m)"

lemma uncached [simp]: "(computeAssessment c w i s t) \<lparr> ra_isCached := False \<rparr> = computeAssessment c w i s t"
  by (simp add: computeAssessment_def Let_def)

lemma assess_step:
  assumes "m44_sound m"
  shows "(fst (assessSingleItem m tk item)) \<lparr> ra_isCached := False \<rparr> = direct44 m (tk, item) \<and>
    m44_sound (snd (assessSingleItem m tk item)) \<and>
    m44_config (snd (assessSingleItem m tk item)) = m44_config m"
proof -
  let ?x = "(item_id item, item_stream item, item_now tk item)"
  let ?comp = "\<lambda>(i, s, t). computeAssessment (criticalThresholdSecs m) (warningThresholdSecs m) i s t"
  let ?c = "m44_cache m"
  note sound = assms [unfolded m44_sound_def]
  note look = m44.sound_lookup [OF sound, of "clock_ms tk" "key44 ?x"]
  show ?thesis
  proof (cases "m44_enable m")
    case True
    show ?thesis
    proof (cases "fst (lru_get (clock_ms tk) (key44 ?x) ?c)")
      case (Some v)
      then have "v = ?comp ?x" by (rule m44.sound_hit [OF sound])
      with Some True look show ?thesis
        by (simp add: assessSingleItem_def direct44_def m44_sound_def m44_config_def Let_def)
    next
      case None
      from m44.sound_put [OF look, of ?x] None True show ?thesis
        by (simp add: assessSingleItem_def direct44_def m44_sound_def m44_config_def Let_def)
    qed
  next
    case False
    with sound show ?thesis
      by (simp add: assessSingleItem_def direct44_def m44_sound_def m44_config_def Let_def)
  qed
qed

lemma assess_fold:
  assumes "m44_sound m"
  shows "let res = foldl (\<lambda>(rs, m) (tk, item). case assessSingleItem m tk item of (r, m') \<Rightarrow> (rs @ [r], m')) (rs0, m) items in
    map (\<lambda>r. r \<lparr> ra_isCached := False \<rparr>) (fst res) = map (\<lambda>r. r \<lparr> ra_isCached := False \<rparr>) rs0 @ map (direct44 m) items \<and>
    m44_sound (snd res) \<and> m44_config (snd res) = m44_config m"
  using assms
proof (induction items arbitrary: rs0 m)
  case (Cons x items)
  obtain tk item where x: "x = (tk, item)" by (cases x) blast
  obtain r m' where step: "assessSingleItem m tk item = (r, m')" by (cases "assessSingleItem m tk item") blast
  have s: "r \<lparr> ra_isCached := False \<rparr> = direct44 m (tk, item)" "m44_sound m'" "m44_config m' = m44_config m"
    using assess_step [OF Cons.prems, of tk item] step by auto
  have d: "direct44 m' = direct44 m" using s(3) by (auto simp: direct44_def m44_config_def fun_eq_iff)
  show ?case using Cons.IH [OF s(2), of "rs0 @ [r]"] s d by (simp add: x step Let_def)
qed simp

lemma module44_new_sound: "module44_new cs en ch cr wr = Inr m \<Longrightarrow> m44_sound m"
  by (auto simp: module44_new_def m44_sound_def Let_def split: if_splits)

text \<open>
  Memoisation in Module 44 is invisible: whatever batches were assessed before, on whatever
  clock, with any cache size and with the cache on or off, a further batch returns for every
  item exactly the assessment computed from scratch, up to the isCached flag, in input
  order; it always returns when the chunk size is positive.
\<close>
theorem module44_memo_transparent:
  assumes "module44_new cs en ch cr wr = Inr m0" "0 < m44_chunk m0"
    and "assessBatch m0 history = Some (rs0, m1)"
  shows "\<exists>rs m2. assessBatch m1 items = Some (rs, m2) \<and>
    map (\<lambda>r. r \<lparr> ra_isCached := False \<rparr>) rs =
    map (\<lambda>(tk, item). computeAssessment (criticalThresholdSecs m0) (warningThresholdSecs m0) (item_id item)
       (item_stream item) (item_now tk item)) items"
proof -
  have m1: "m44_sound m1" "m44_config m1 = m44_config m0"
    using assess_fold [OF module44_new_sound [OF assms(1)], of "[]" history] assms(2,3)
    by (auto simp: assessBatch_def chunk_loop_all Let_def)
  then have ch: "0 < m44_chunk m1" using assms(2) by (simp add: m44_config_def)
  have d: "direct44 m1 = (\<lambda>(tk, item). computeAssessment (criticalThresholdSecs m0) (warningThresholdSecs m0)
      (item_id item) (item_stream item) (item_now tk item))"
    using m1(2) by (auto simp: direct44_def m44_config_def fun_eq_iff)
  show ?thesis
    using assess_fold [OF m1(1), of "[]" items] ch
    unfolding assessBatch_def chunk_loop_all [OF ch] Let_def d
    by (metis (no_types, lifting) append_Nil list.simps(8) prod.collapse)
qed

definition sample_item :: stream_item where
  "sample_item = \<lparr> item_id = ''a'', item_stream = sample_stream, item_timestamp = Some 150 \<rparr>"

lemma module44_memo_transparent_witness:
  "\<exists>m0 m1 rs m2 rs0. module44_new None None None None None = Inr m0 \<and>
     assessBatch m0 [((0, 1), sample_item)] = Some (rs0, m1) \<and>
     assessBatch m1 [((5, 1), sample_item)] = Some (rs, m2) \<and>
     map (\<lambda>r. r \<lparr> ra_isCached := False \<rparr>) rs = [computeAssessment 86400 604800 ''a'' sample_stream 150]"
proof -
  obtain m0 where m0: "module44_new None None None None None = Inr m0"
    and f: "m44_chunk m0 = 50" "criticalThresholdSecs m0 = 86400" "warningThresholdSecs m0 = 604800"
    by (simp add: module44_new_def)
  then obtain rs0 m1 where b: "assessBatch m0 [((0, 1), sample_item)] = Some (rs0, m1)"
    by (simp add: assessBatch_def chunk_loop_all) (metis surj_pair)
  show ?thesis
    using module44_memo_transparent [OF m0 _ b, of "[((5, 1), sample_item)]"] m0 b f
    by (auto simp: sample_item_def item_now_def)
qed

section \<open>Modules 48 and 49: batch evaluation\<close>

record evaluation =
  ev_withdrawable :: int
  ev_progress :: jsnum
  ev_computedAt :: int

record batch_result =
  br_id :: string
  br_value :: evaluation
  br_isCached :: bool

definition evaluate :: "StreamInfo \<Rightarrow> int \<Rightarrow> evaluation" where
  "evaluate stream nowSec =
    \<lparr> ev_withdrawable = withdrawableLocal stream nowSec,
      ev_progress = normalizeProgress (streamProgress stream nowSec), ev_computedAt = nowSec \<rparr>"

record module49 =
  m49_enable :: bool
  m49_chunk :: int
  m49_cache :: "(string, evaluation) lru"
  m49_total :: nat
  m49_hits :: nat
  m49_misses :: nat
  m49_time :: rat

definition module49_new :: "int option \<Rightarrow> bool option \<Rightarrow> int option \<Rightarrow> module49" where
  "module49_new cacheSize enableOptimization batchChunkSize =
    \<lparr> m49_enable = (case enableOptimization of Some b \<Rightarrow> b | None \<Rightarrow> True),
      m49_chunk = (case batchChunkSize of Some n \<Rightarrow> n | None \<Rightarrow> 50),
      m49_cache = empty_lru (case cacheSize of Some n \<Rightarrow> n | None \<Rightarrow> 1000),
      m49_total = 0, m49_hits = 0, m49_misses = 0, m49_time = 0 \<rparr>"

definition key49 :: "string \<times> StreamInfo \<times> int \<Rightarrow> string" where
  "key49 x = (case x of (i, stream, nowSec) \<Rightarrow>
     i @ CHR ''_'' # show_int (withdrawn stream) @ CHR ''_'' # flag_text (paused stream) @
     CHR ''_'' # flag_text (cancelled stream) @ CHR ''_'' # show_int (pausedAt stream) @
     CHR ''_'' # show_int (ratePerSecond stream) @ CHR ''_'' # show_int (startTime stream) @
     CHR ''_'' # show_int (endTime stream) @ CHR ''_'' # show_int nowSec)"

definition processSingleItem49 :: "module49 \<Rightarrow> tick \<Rightarrow> stream_item \<Rightarrow> batch_result \<times> module49" where
  "processSingleItem49 m0 tk item =
    (let nowSec = item_now tk item;
         cacheKey = key49 (item_id item, item_stream item, nowSec);
         m = m0 \<lparr> m49_total := m49_total m0 + 1 \<rparr>;
         looked = (if m49_enable m then lru_get (clock_ms tk) cacheKey (m49_cache m) else (None, m49_cache m))
     in case fst looked of
          Some cached \<Rightarrow>
            (\<lparr> br_id = item_id item, br_value = cached, br_isCached = True \<rparr>,
             m \<lparr> m49_cache := snd looked, m49_hits := m49_hits m + 1 \<rparr>)
        | None \<Rightarrow>
            let v = evaluate (item_stream item) nowSec;
                c = (if m49_enable m then lru_insert cacheKey v None (snd looked) else snd looked)
            in (\<lparr> br_id = item_id item, br_value = v, br_isCached = False \<rparr>,
                m \<lparr> m49_cache := c, m49_misses := m49_misses m + 1 \<rparr>))"

definition processStreamBatch49 ::
    "module49 \<Rightarrow> rat \<Rightarrow> (tick \<times> stream_item) list \<Rightarrow> (batch_result list \<times> module49) option" where
  "processStreamBatch49 m elapsed items =
    map_option (\<lambda>(rs, m'). (rs, m' \<lparr> m49_time := m49_time m' + elapsed \<rparr>))
      (chunk_loop (\<lambda>(rs, m) (tk, item). case processSingleItem49 m tk item of (r, m') \<Rightarrow> (rs @ [r], m'))
        (m49_chunk m) items 0 ([], m))"

definition computeOptimizedYield :: "int \<Rightarrow> int \<Rightarrow> int" where
  "computeOptimizedYield rate durationSecs =
    (if durationSecs \<le> 0 \<or> rate \<le> 0 then 0 else rate * durationSecs)"

definition m49_clearCache :: "module49 \<Rightarrow> module49" where
  "m49_clearCache m = m \<lparr> m49_cache := lru_clear (m49_cache m), m49_hits := 0, m49_misses := 0,
     m49_total := 0, m49_time := 0 \<rparr>"

record module49_metrics =
  mq_total :: nat
  mq_hits :: nat
  mq_misses :: nat
  hitRate :: rat
  mq_average :: rat

definition m49_metrics :: "module49 \<Rightarrow> module49_metrics" where
  "m49_metrics m =
    (let totalRequests = m49_hits m + m49_misses m;
         rate = (if totalRequests > 0 then of_nat (m49_hits m) / of_nat totalRequests else 0)
     in \<lparr> mq_total = m49_total m, mq_hits = m49_hits m, mq_misses = m49_misses m,
          hitRate = (if m49_enable m then rate else 0),
          mq_average = (if m49_total m > 0 then m49_time m / of_nat (m49_total m) else 0) \<rparr>)"

record module48 =
  m48_enable :: bool
  m48_chunk :: int
  m48_cache :: "(string, evaluation) lru"
  m48_total :: nat
  m48_time :: rat

definition module48_new :: "int option \<Rightarrow> bool option \<Rightarrow> int option \<Rightarrow> module48" where
  "module48_new cacheSize enableOptimization batchChunkSize =
    \<lparr> m48_enable = (case enableOptimization of Some b \<Rightarrow> b | None \<Rightarrow> True),
      m48_chunk = (case batchChunkSize of Some n \<Rightarrow> n | None \<Rightarrow> 50),
      m48_cache = empty_lru (case cacheSize of Some n \<Rightarrow> n | None \<Rightarrow> 1000), m48_total = 0, m48_time = 0 \<rparr>"

definition key48 :: "string \<times> StreamInfo \<times> int \<Rightarrow> string" where
  "key48 x = (case x of (i, stream, nowSec) \<Rightarrow>
     i @ CHR ''_'' # show_int (withdrawn stream) @ CHR ''_'' # flag_text (paused stream) @
     CHR ''_'' # show_int nowSec)"

definition processSingleItem48 :: "module48 \<Rightarrow> tick \<Rightarrow> stream_item \<Rightarrow> batch_result \<times> module48" where
  "processSingleItem48 m tk item =
    (let nowSec = item_now tk item;
         cacheKey = key48 (item_id item, item_stream item, nowSec);
         looked = (if m48_enable m then lru_get (clock_ms tk) cacheKey (m48_cache m) else (None, m48_cache m))
     in case fst looked of
          Some cached \<Rightarrow>
            (\<lparr> br_id = item_id item, br_value = cached, br_isCached = True \<rparr>,
             m \<lparr> m48_cache := recordHit (snd tk) (snd looked),
                 m48_total := m48_total m + 1, m48_time := m48_time m + snd tk \<rparr>)
        | None \<Rightarrow>
            let v = evaluate (item_stream item) nowSec;
                c = (if m48_enable m then lru_insert cacheKey v None (snd looked) else snd looked)
            in (\<lparr> br_id = item_id item, br_value = v, br_isCached = False \<rparr>,
                m \<lparr> m48_cache := recordMiss (snd tk) c,
                    m48_total := m48_total m + 1, m48_time := m48_time m + snd tk \<rparr>))"

definition processStreamBatch48 ::
    "module48 \<Rightarrow> (tick \<times> stream_item) list \<Rightarrow> (batch_result list \<times> module48) option" where
  "processStreamBatch48 m items =
    chunk_loop (\<lambda>(rs, m) (tk, item). case processSingleItem48 m tk item of (r, m') \<Rightarrow> (rs @ [r], m'))
      (m48_chunk m) items 0 ([], m)"

definition m48_clearCache :: "module48 \<Rightarrow> module48" where
  "m48_clearCache m = m \<lparr> m48_cache := lru_clear (m48_cache m), m48_total := 0, m48_time := 0 \<rparr>"

definition m48_metrics :: "module48 \<Rightarrow> module_metrics" where
  "m48_metrics m =
    (let c = lru_metrics (m48_cache m)
     in \<lparr> mt_total = m48_total m, mt_hits = mm_cacheHits c, mt_misses = mm_cacheMisses c,
          mt_speedup = (if m48_enable m then measuredSpeedupPercent c else None),
          mt_average = (if m48_total m > 0 then m48_time m / of_nat (m48_total m) else 0) \<rparr>)"

lemma key49_determines:
  "key49 x = key49 y \<Longrightarrow> (\<lambda>(i :: string, s, t). evaluate s t) x = (\<lambda>(i, s, t). evaluate s t) y"
proof -
  assume eq: "key49 x = key49 y"
  obtain i s t j r u where x: "x = (i, s, t)" and y: "y = (j, r, u)" by (cases x; cases y) auto
  have "i = j \<and> withdrawn s = withdrawn r \<and> paused s = paused r \<and> cancelled s = cancelled r \<and>
      pausedAt s = pausedAt r \<and> ratePerSecond s = ratePerSecond r \<and> startTime s = startTime r \<and>
      endTime s = endTime r \<and> t = u"
    using eq unfolding x y key49_def
    by (simp only: prod.case append_assoc [symmetric] append_Cons [symmetric] last_field underscore_free
        append.assoc [symmetric] flag_text_eq show_int_inject simp_thms)
  then have "withdrawableLocal s t = withdrawableLocal r u" "streamProgress s t = streamProgress r u" "t = u"
    by (simp_all only: withdrawableLocal_def streamProgress_def)
  then show ?thesis by (simp only: x y evaluate_def prod.case)
qed

interpretation m49: memoised lru_get "\<lambda>k v. lru_insert k v None" lru_contents
    key49 "\<lambda>(i, s, t). evaluate s t"
  by unfold_locales (rule key49_determines)

definition m49_sound :: "module49 \<Rightarrow> bool" where
  "m49_sound m = (\<forall>u k v. lru_contents u (m49_cache m) k = Some v \<longrightarrow>
     (\<exists>x. key49 x = k \<and> v = (\<lambda>(i, s, t). evaluate s t) x))"

lemma process49_step:
  assumes "m49_sound m"
  shows "br_value (fst (processSingleItem49 m tk item)) = evaluate (item_stream item) (item_now tk item) \<and>
    br_id (fst (processSingleItem49 m tk item)) = item_id item \<and>
    m49_sound (snd (processSingleItem49 m tk item)) \<and>
    m49_chunk (snd (processSingleItem49 m tk item)) = m49_chunk m"
proof -
  let ?x = "(item_id item, item_stream item, item_now tk item)"
  let ?c = "m49_cache m"
  note sound = assms [unfolded m49_sound_def]
  note look = m49.sound_lookup [OF sound, of "clock_ms tk" "key49 ?x"]
  show ?thesis
  proof (cases "m49_enable m")
    case True
    show ?thesis
    proof (cases "fst (lru_get (clock_ms tk) (key49 ?x) ?c)")
      case (Some v)
      then have "v = (\<lambda>(i, s, t). evaluate s t) ?x" by (rule m49.sound_hit [OF sound])
      with Some True look show ?thesis by (simp add: processSingleItem49_def m49_sound_def Let_def)
    next
      case None
      from m49.sound_put [OF look, of ?x] None True show ?thesis
        by (simp add: processSingleItem49_def m49_sound_def Let_def)
    qed
  next
    case False
    with sound show ?thesis by (simp add: processSingleItem49_def m49_sound_def Let_def)
  qed
qed

lemma process49_fold:
  assumes "m49_sound m"
  shows "let res = foldl (\<lambda>(rs, m) (tk, item). case processSingleItem49 m tk item of (r, m') \<Rightarrow> (rs @ [r], m')) (rs0, m) items in
    map (\<lambda>r. (br_id r, br_value r)) (fst res) = map (\<lambda>r. (br_id r, br_value r)) rs0 @
      map (\<lambda>(tk, item). (item_id item, evaluate (item_stream item) (item_now tk item))) items \<and>
    m49_sound (snd res) \<and> m49_chunk (snd res) = m49_chunk m"
  using assms
proof (induction items arbitrary: rs0 m)
  case (Cons x items)
  obtain tk item where x: "x = (tk, item)" by (cases x) blast
  obtain r m' where step: "processSingleItem49 m tk item = (r, m')"
    by (cases "processSingleItem49 m tk item") blast
  show ?case
    using Cons.IH [of m' "rs0 @ [r]"] process49_step [OF Cons.prems, of tk item]
    by (simp add: x step Let_def)
qed simp

lemma batch49_returns:
  "0 < m49_chunk m \<Longrightarrow> \<exists>rs m'. processStreamBatch49 m e items = Some (rs, m')"
  unfolding processStreamBatch49_def
  by (subst chunk_loop_all) (auto split: prod.split)

text \<open>
  Module 49 is a transparent memo of the local projections: after any earlier batches, every
  result of a batch carries the item's own identifier and exactly the withdrawable amount
  and progress that the projections of src/utils.ts give at its observation time.
\<close>
theorem module49_memo_transparent:
  assumes "m0 = module49_new cs en ch" "0 < m49_chunk m0"
    and "processStreamBatch49 m0 e0 history = Some (rs0, m1)"
  shows "\<exists>rs m2. processStreamBatch49 m1 e1 items = Some (rs, m2) \<and>
    map (\<lambda>r. (br_id r, br_value r)) rs =
    map (\<lambda>(tk, item). (item_id item, evaluate (item_stream item) (item_now tk item))) items"
proof -
  let ?F = "\<lambda>(rs, m) (tk, item). case processSingleItem49 m tk item of (r, m') \<Rightarrow> (rs @ [r], m')"
  have s0: "m49_sound m0" by (simp add: assms(1) module49_new_def m49_sound_def)
  obtain hs h where h: "foldl ?F ([], m0) history = (hs, h)" by (cases "foldl ?F ([], m0) history") blast
  have hm: "m1 = h \<lparr> m49_time := m49_time h + e0 \<rparr>"
    using assms(3) unfolding processStreamBatch49_def chunk_loop_all [OF assms(2)] h by simp
  have "m49_sound h" "m49_chunk h = m49_chunk m0"
    using process49_fold [OF s0, of "[]" history] unfolding h Let_def by auto
  then have m1: "m49_sound m1" and ch: "0 < m49_chunk m1"
    using assms(2) by (simp_all add: hm m49_sound_def)
  obtain rs m2 where r: "foldl ?F ([], m1) items = (rs, m2)" by (cases "foldl ?F ([], m1) items") blast
  have "map (\<lambda>r. (br_id r, br_value r)) rs =
      map (\<lambda>(tk, item). (item_id item, evaluate (item_stream item) (item_now tk item))) items"
    using process49_fold [OF m1, of "[]" items] unfolding r Let_def by simp
  then show ?thesis unfolding processStreamBatch49_def chunk_loop_all [OF ch] r by simp
qed

lemma module49_memo_transparent_witness:
  "\<exists>rs0 m1 rs m2. processStreamBatch49 (module49_new None None None) 1 [((0, 1), sample_item)] = Some (rs0, m1) \<and>
     processStreamBatch49 m1 1 [((5, 1), sample_item)] = Some (rs, m2) \<and>
     map (\<lambda>r. (br_id r, br_value r)) rs = [(''a'', evaluate sample_stream 150)]"
proof -
  have f: "0 < m49_chunk (module49_new None None None)" by (simp add: module49_new_def)
  obtain rs0 m1 where b: "processStreamBatch49 (module49_new None None None) 1 [((0, 1), sample_item)] = Some (rs0, m1)"
    using batch49_returns [OF f] by blast
  obtain rs m2 where r: "processStreamBatch49 m1 1 [((5, 1), sample_item)] = Some (rs, m2)"
    and v: "map (\<lambda>r. (br_id r, br_value r)) rs =
      map (\<lambda>(tk, item). (item_id item, evaluate (item_stream item) (item_now tk item))) [((5, 1), sample_item)]"
    using module49_memo_transparent [OF refl f b] by blast
  have "map (\<lambda>r. (br_id r, br_value r)) rs = [(''a'', evaluate sample_stream 150)]"
    unfolding v by (simp add: sample_item_def item_now_def)
  from b r this show ?thesis by (intro exI conjI)
qed

text \<open>
  Module 48 leaves the cancelled flag, the pause time, the rate and the schedule out of
  its key: a stream that was cancelled meanwhile is still served its earlier balance.
\<close>

lemma module48_stale:
  "\<exists>m. fst (processSingleItem48 (module48_new None None None) (0, 1) sample_item) =
     \<lparr> br_id = ''a'', br_value = evaluate sample_stream 150, br_isCached = False \<rparr> \<and>
   snd (processSingleItem48 (module48_new None None None) (0, 1) sample_item) = m \<and>
   br_value (fst (processSingleItem48 m (1, 1) (sample_item \<lparr> item_stream := sample_stream \<lparr> cancelled := True \<rparr> \<rparr>)))
     = evaluate sample_stream 150 \<and>
   ev_withdrawable (evaluate sample_stream 150) = 90 \<and>
   ev_withdrawable (evaluate (sample_stream \<lparr> cancelled := True \<rparr>) 150) = 0"
  by (simp add: processSingleItem48_def module48_new_def sample_item_def item_now_def Let_def key48_def
      lru_get_def isExpired_def empty_lru_def lru_insert_def recordMiss_def evaluate_def withdrawableLocal_def
      sample_stream_def)

section \<open>Module 36: snapshot differences\<close>

record stream_snapshot =
  sn_stream :: StreamInfo
  observedAt :: int

record StreamDiff =
  sd_streamId :: string
  withdrawableDelta :: int
  progressDelta :: rat
  statusChanged :: bool
  previousWithdrawable :: int
  currentWithdrawable :: int
  previousProgress :: rat
  currentProgress :: rat
  sd_isCached :: bool
  sd_computedAt :: int

record module36 =
  m36_enable :: bool
  m36_cache :: "(string, StreamDiff) lru"
  totalDiffs :: nat
  m36_time :: rat

definition module36_new :: "int option \<Rightarrow> bool option \<Rightarrow> module36" where
  "module36_new cacheSize enableOptimization =
    \<lparr> m36_enable = (case enableOptimization of Some b \<Rightarrow> b | None \<Rightarrow> True),
      m36_cache = empty_lru (case cacheSize of Some n \<Rightarrow> n | None \<Rightarrow> 1000), totalDiffs = 0, m36_time = 0 \<rparr>"

definition statusKey :: "StreamInfo \<Rightarrow> string" where
  "statusKey stream = flag_text (paused stream) @ '':'' @ flag_text (cancelled stream) @ '':'' @ show_int (endTime stream)"

definition key36 :: "stream_snapshot \<Rightarrow> stream_snapshot \<Rightarrow> string" where
  "key36 prev cur =
    show_int (stream_id (sn_stream cur)) @ ''|'' @ show_int (observedAt prev) @ ''|'' @
    show_int (observedAt cur) @ ''|'' @ show_int (withdrawn (sn_stream prev)) @ ''|'' @
    show_int (withdrawn (sn_stream cur)) @ ''|'' @ statusKey (sn_stream prev) @ ''|'' @ statusKey (sn_stream cur)"

text \<open>A normalised progress is never NaN, so it is a finite fraction.\<close>

definition progress_of :: "StreamInfo \<Rightarrow> int \<Rightarrow> rat" where
  "progress_of stream t = (case normalizeProgress (streamProgress stream t) of Num r \<Rightarrow> r | _ \<Rightarrow> 0)"

definition compute_diff :: "stream_snapshot \<Rightarrow> stream_snapshot \<Rightarrow> StreamDiff" where
  "compute_diff prev cur =
    (let pw = withdrawableLocal (sn_stream prev) (observedAt prev);
         cw = withdrawableLocal (sn_stream cur) (observedAt cur);
         pp = progress_of (sn_stream prev) (observedAt prev);
         cp = progress_of (sn_stream cur) (observedAt cur)
     in \<lparr> sd_streamId = show_int (stream_id (sn_stream cur)), withdrawableDelta = cw - pw,
          progressDelta = cp - pp,
          statusChanged = (statusKey (sn_stream prev) \<noteq> statusKey (sn_stream cur)),
          previousWithdrawable = pw, currentWithdrawable = cw, previousProgress = pp, currentProgress = cp,
          sd_isCached = False, sd_computedAt = observedAt cur \<rparr>)"

definition diffSnapshots :: "module36 \<Rightarrow> tick \<Rightarrow> stream_snapshot \<Rightarrow> stream_snapshot \<Rightarrow> StreamDiff \<times> module36" where
  "diffSnapshots m tk prev cur =
    (let cacheKey = key36 prev cur;
         looked = (if m36_enable m then lru_get (clock_ms tk) cacheKey (m36_cache m) else (None, m36_cache m))
     in case fst looked of
          Some cached \<Rightarrow>
            (cached \<lparr> sd_isCached := True \<rparr>,
             m \<lparr> m36_cache := recordHit (snd tk) (snd looked), totalDiffs := totalDiffs m + 1,
                 m36_time := m36_time m + snd tk \<rparr>)
        | None \<Rightarrow>
            let r = compute_diff prev cur;
                c = (if m36_enable m then lru_insert cacheKey r None (snd looked) else snd looked)
            in (r, m \<lparr> m36_cache := recordMiss (snd tk) c, totalDiffs := totalDiffs m + 1,
                       m36_time := m36_time m + snd tk \<rparr>))"

fun diffBatch ::
    "module36 \<Rightarrow> (tick \<times> stream_snapshot \<times> stream_snapshot) list \<Rightarrow> StreamDiff list \<times> module36" where
  "diffBatch m [] = ([], m)"
| "diffBatch m ((tk, prev, cur) # pairs) =
    (let (r, m') = diffSnapshots m tk prev cur; (rs, m'') = diffBatch m' pairs in (r # rs, m''))"

definition computeAccrual :: "int \<Rightarrow> int \<Rightarrow> int \<Rightarrow> int" where
  "computeAccrual rate fromSec toSec = (if rate \<le> 0 \<or> toSec \<le> fromSec then 0 else rate * (toSec - fromSec))"

definition m36_clearCache :: "module36 \<Rightarrow> module36" where
  "m36_clearCache m = m \<lparr> m36_cache := lru_clear (m36_cache m), totalDiffs := 0, m36_time := 0 \<rparr>"

definition m36_metrics :: "module36 \<Rightarrow> module_metrics" where
  "m36_metrics m =
    (let c = lru_metrics (m36_cache m)
     in \<lparr> mt_total = totalDiffs m, mt_hits = mm_cacheHits c, mt_misses = mm_cacheMisses c,
          mt_speedup = (if m36_enable m then measuredSpeedupPercent c else None),
          mt_average = (if totalDiffs m > 0 then m36_time m / of_nat (totalDiffs m) else 0) \<rparr>)"

lemma progress_of_range:
  assumes "startTime s < endTime s \<or> endTime s = 0"
  shows "0 \<le> progress_of s t \<and> progress_of s t \<le> 1"
  using assms by (auto simp: progress_of_def normalizeProgress_def streamProgress_def divide_le_eq)

lemma progress_of_mono:
  assumes "startTime s < endTime s \<or> endTime s = 0" "t \<le> u"
  shows "progress_of s t \<le> progress_of s u"
proof -
  have "(of_int (t - startTime s) :: rat) / of_int (endTime s - startTime s)
      \<le> of_int (u - startTime s) / of_int (endTime s - startTime s)" if "startTime s < endTime s"
    using that assms(2) by (intro divide_right_mono) auto
  then show ?thesis using assms
    by (auto simp: progress_of_def normalizeProgress_def streamProgress_def divide_le_eq)
qed

lemma module36_stale:
  "key36 \<lparr> sn_stream = s, observedAt = t \<rparr> \<lparr> sn_stream = s, observedAt = u \<rparr> =
   key36 \<lparr> sn_stream = s \<lparr> ratePerSecond := r \<rparr>, observedAt = t \<rparr> \<lparr> sn_stream = s \<lparr> ratePerSecond := r \<rparr>, observedAt = u \<rparr>"
  by (simp add: key36_def statusKey_def)

text \<open>
  A difference report is consistent with itself: when both snapshots describe the same
  live stream and nothing was withdrawn in between, the withdrawable delta is the growth
  of the streamed total beyond what was withdrawn, never negative, and the progress
  delta lies in the unit interval.
\<close>
theorem diffSnapshots_consistent:
  assumes "snapshot_ok s" "startTime s < endTime s \<or> endTime s = 0" "t \<le> u"
    and "fst (lru_get (clock_ms tk) (key36 \<lparr> sn_stream = s, observedAt = t \<rparr> \<lparr> sn_stream = s, observedAt = u \<rparr>) (m36_cache m)) = None"
  shows "let d = fst (diffSnapshots m tk \<lparr> sn_stream = s, observedAt = t \<rparr> \<lparr> sn_stream = s, observedAt = u \<rparr>) in
    0 \<le> withdrawableDelta d \<and> currentWithdrawable d = previousWithdrawable d + withdrawableDelta d \<and>
    withdrawableDelta d \<le> streamedTotalLocal s u - streamedTotalLocal s t \<and>
    \<not> statusChanged d \<and> 0 \<le> progressDelta d \<and> progressDelta d \<le> 1"
proof -
  let ?p = "\<lparr> sn_stream = s, observedAt = t \<rparr>" and ?c = "\<lparr> sn_stream = s, observedAt = u \<rparr>"
  have d: "fst (diffSnapshots m tk ?p ?c) = compute_diff ?p ?c"
    using assms(4) by (simp add: diffSnapshots_def Let_def)
  have "withdrawableLocal s t \<le> withdrawableLocal s u" "streamedTotalLocal s t \<le> streamedTotalLocal s u"
    using portfolio_single_mono [OF assms(1,3)] by auto
  moreover have "withdrawableLocal s u - withdrawableLocal s t \<le> streamedTotalLocal s u - streamedTotalLocal s t"
    using assms(1) rate_elapsed_mono [OF assms(1,3)]
    by (auto simp: withdrawableLocal_clock streamedTotalLocal_clock snapshot_ok_def)
  ultimately show ?thesis
    using progress_of_range [OF assms(2), of t] progress_of_range [OF assms(2), of u]
      progress_of_mono [OF assms(2,3)]
    unfolding d by (simp add: compute_diff_def Let_def)
qed

lemma diffSnapshots_consistent_witness:
  "0 \<le> withdrawableDelta (fst (diffSnapshots (module36_new None None) (0, 1)
     \<lparr> sn_stream = sample_stream, observedAt = 110 \<rparr> \<lparr> sn_stream = sample_stream, observedAt = 150 \<rparr>))"
  using diffSnapshots_consistent [of sample_stream 110 150 "(0, 1)" "module36_new None None"]
  by (simp add: Let_def lru_get_def isExpired_def module36_new_def empty_lru_def snapshot_ok_def sample_stream_def)

end
