(* ===== verification/Portfolio_Module.thy ===== *)
theory Portfolio_Module
  imports Memo_Modules
begin

text \<open>
  The portfolio aggregator of src/module26.ts: classification, the two 32-bit rolling
  hashes of the cache key, the chunked aggregation and the projection.
\<close>

unbundle bit_operations_syntax

section \<open>Classification and fingerprint\<close>

datatype portfolio_status = PActive | PPaused | PCancelled | PEnded

definition classifyStream :: "StreamInfo \<Rightarrow> int \<Rightarrow> portfolio_status" where
  "classifyStream stream nowSec =
    (if cancelled stream then PCancelled
     else if paused stream then PPaused
     else if endTime stream > 0 \<and> nowSec \<ge> endTime stream then PEnded
     else PActive)"

definition fnv1aFold :: "32 word \<Rightarrow> string \<Rightarrow> 32 word" where
  "fnv1aFold hash input = foldl (\<lambda>h c. (h XOR word_of_nat (of_char c)) * 16777619) hash input"

definition djb2Fold :: "32 word \<Rightarrow> string \<Rightarrow> 32 word" where
  "djb2Fold hash input = foldl (\<lambda>h c. (h * 33) XOR word_of_nat (of_char c)) hash input"

fun show_base36 :: "nat \<Rightarrow> string" where
  "show_base36 n =
    (let d = n mod 36; c = (if d < 10 then char_of (48 + d) else char_of (87 + d))
     in if n < 36 then [c] else show_base36 (n div 36) @ [c])"

declare show_base36.simps [simp del]

definition portfolio_text :: "stream_item \<Rightarrow> int \<Rightarrow> string" where
  "portfolio_text item nowSec =
    (let ts = (case item_timestamp item of Some t \<Rightarrow> t | None \<Rightarrow> nowSec); s = item_stream item
     in item_id item @ '':'' @ show_int (withdrawn s) @ (if paused s then '':1:'' else '':0:'') @
        (if cancelled s then ''1:'' else ''0:'') @ show_int (endTime s) @ '':'' @ show_int ts @ ''|'')"

definition fingerprintPortfolio :: "stream_item list \<Rightarrow> int \<Rightarrow> string" where
  "fingerprintPortfolio items nowSec =
    (let h1 = foldl (\<lambda>h item. fnv1aFold h (portfolio_text item nowSec)) 2166136261 items;
         h2 = foldl (\<lambda>h item. djb2Fold h (portfolio_text item nowSec)) 5381 items
     in show_base36 (unat h1) @ '':'' @ show_base36 (unat h2))"

section \<open>Aggregation\<close>

record PortfolioSummary =
  totalWithdrawable :: int
  totalRatePerSecond :: int
  activeCount :: nat
  pausedCount :: nat
  cancelledCount :: nat
  endedCount :: nat
  ps_isCached :: bool
  ps_computedAt :: int

record module26 =
  m26_enable :: bool
  m26_chunk :: int
  m26_cache :: "(string, PortfolioSummary) lru"
  totalAggregations :: nat
  m26_time :: rat

definition module26_new :: "int option \<Rightarrow> bool option \<Rightarrow> int option \<Rightarrow> module26" where
  "module26_new cacheSize enableOptimization batchChunkSize =
    \<lparr> m26_enable = (case enableOptimization of Some b \<Rightarrow> b | None \<Rightarrow> True),
      m26_chunk = (case batchChunkSize of Some n \<Rightarrow> n | None \<Rightarrow> 50),
      m26_cache = empty_lru (case cacheSize of Some n \<Rightarrow> n | None \<Rightarrow> 1000),
      totalAggregations = 0, m26_time = 0 \<rparr>"

definition empty_summary :: "int \<Rightarrow> PortfolioSummary" where
  "empty_summary nowSec = \<lparr> totalWithdrawable = 0, totalRatePerSecond = 0, activeCount = 0, pausedCount = 0,
     cancelledCount = 0, endedCount = 0, ps_isCached = False, ps_computedAt = nowSec \<rparr>"

definition add_item :: "int \<Rightarrow> PortfolioSummary \<Rightarrow> stream_item \<Rightarrow> PortfolioSummary" where
  "add_item nowSec p item =
    (let ts = (case item_timestamp item of Some t \<Rightarrow> t | None \<Rightarrow> nowSec);
         p1 = p \<lparr> totalWithdrawable := totalWithdrawable p + withdrawableLocal (item_stream item) ts \<rparr>
     in case classifyStream (item_stream item) ts of
          PActive \<Rightarrow> p1 \<lparr> activeCount := activeCount p1 + 1,
                       totalRatePerSecond := totalRatePerSecond p1 + ratePerSecond (item_stream item) \<rparr>
        | PPaused \<Rightarrow> p1 \<lparr> pausedCount := pausedCount p1 + 1 \<rparr>
        | PCancelled \<Rightarrow> p1 \<lparr> cancelledCount := cancelledCount p1 + 1 \<rparr>
        | PEnded \<Rightarrow> p1 \<lparr> endedCount := endedCount p1 + 1 \<rparr>)"

definition aggregatePortfolio ::
    "module26 \<Rightarrow> tick \<Rightarrow> stream_item list \<Rightarrow> int \<Rightarrow> (PortfolioSummary \<times> module26) option" where
  "aggregatePortfolio m tk items nowSec =
    (let cacheKey = fingerprintPortfolio items nowSec;
         looked = (if m26_enable m then lru_get (clock_ms tk) cacheKey (m26_cache m) else (None, m26_cache m))
     in case fst looked of
          Some cached \<Rightarrow>
            Some (cached \<lparr> ps_isCached := True \<rparr>,
              m \<lparr> m26_cache := recordHit (snd tk) (snd looked),
                  totalAggregations := totalAggregations m + 1, m26_time := m26_time m + snd tk \<rparr>)
        | None \<Rightarrow>
            map_option (\<lambda>summary.
              let c = (if m26_enable m then lru_insert cacheKey summary None (snd looked) else snd looked)
              in (summary, m \<lparr> m26_cache := recordMiss (snd tk) c,
                    totalAggregations := totalAggregations m + 1, m26_time := m26_time m + snd tk \<rparr>))
              (chunk_loop (add_item nowSec) (m26_chunk m) items 0 (empty_summary nowSec)))"

definition projectRemaining :: "StreamInfo \<Rightarrow> int \<Rightarrow> int \<Rightarrow> int" where
  "projectRemaining stream horizonSecs nowSec =
    (if horizonSecs \<le> 0 \<or> cancelled stream \<or> paused stream then 0
     else if endTime stream > 0 \<and> nowSec \<ge> endTime stream then 0
     else let effectiveEnd = (if endTime stream > 0 then min (endTime stream) (nowSec + horizonSecs) else nowSec + horizonSecs)
          in if effectiveEnd \<le> nowSec then 0 else ratePerSecond stream * (effectiveEnd - nowSec))"

definition m26_clearCache :: "module26 \<Rightarrow> module26" where
  "m26_clearCache m = m \<lparr> m26_cache := lru_clear (m26_cache m), totalAggregations := 0, m26_time := 0 \<rparr>"

definition m26_metrics :: "module26 \<Rightarrow> module_metrics" where
  "m26_metrics m =
    (let c = lru_metrics (m26_cache m)
     in \<lparr> mt_total = totalAggregations m, mt_hits = mm_cacheHits c, mt_misses = mm_cacheMisses c,
          mt_speedup = (if m26_enable m then measuredSpeedupPercent c else None),
          mt_average = (if totalAggregations m > 0 then m26_time m / of_nat (totalAggregations m) else 0) \<rparr>)"

section \<open>Properties\<close>

lemma projectRemaining_accrual:
  assumes "0 < h" "\<not> cancelled s" "\<not> paused s" "startTime s \<le> now"
  shows "projectRemaining s h now = streamedTotalLocal s (now + h) - streamedTotalLocal s now"
  using assms
  by (auto simp: projectRemaining_def streamedTotalLocal_clock elapsed_seconds_def effective_now_def Let_def
      min_def max_def algebra_simps)

text \<open>A change of rate alone keeps the cache key: the summary served afterwards is stale.\<close>

lemma fingerprint_ignores_rate:
  "fingerprintPortfolio [item \<lparr> item_stream := item_stream item \<lparr> ratePerSecond := r \<rparr> \<rparr>] t = fingerprintPortfolio [item] t"
  by (simp add: fingerprintPortfolio_def portfolio_text_def Let_def)

lemma add_item_fold:
  "totalWithdrawable (foldl (add_item now) p items) =
     totalWithdrawable p + sum_list (map (\<lambda>x. withdrawableLocal (item_stream x)
       (case item_timestamp x of Some t \<Rightarrow> t | None \<Rightarrow> now)) items) \<and>
   activeCount (foldl (add_item now) p items) + pausedCount (foldl (add_item now) p items) +
   cancelledCount (foldl (add_item now) p items) + endedCount (foldl (add_item now) p items) =
     activeCount p + pausedCount p + cancelledCount p + endedCount p + length items \<and>
   totalRatePerSecond (foldl (add_item now) p items) = totalRatePerSecond p +
     sum_list (map (\<lambda>x. if classifyStream (item_stream x) (case item_timestamp x of Some t \<Rightarrow> t | None \<Rightarrow> now) = PActive
       then ratePerSecond (item_stream x) else 0) items)"
proof (induction items arbitrary: p)
  case (Cons x items)
  let ?ts = "case item_timestamp x of Some t \<Rightarrow> t | None \<Rightarrow> now"
  show ?case using Cons.IH [of "add_item now p x"]
    by (cases "classifyStream (item_stream x) ?ts") (simp_all add: add_item_def Let_def)
qed simp

text \<open>
  A freshly computed portfolio summary is exact for every positive chunk size: the total is
  the sum of the local withdrawable balances, each stream is counted in exactly one
  lifecycle class, and the total rate sums the active streams only.
\<close>
theorem aggregatePortfolio_exact:
  assumes "0 < m26_chunk m" "fst (lru_get (clock_ms tk) (fingerprintPortfolio items now) (m26_cache m)) = None"
  shows "\<exists>p m'. aggregatePortfolio m tk items now = Some (p, m') \<and>
    totalWithdrawable p = sum_list (map (\<lambda>x. withdrawableLocal (item_stream x)
       (case item_timestamp x of Some t \<Rightarrow> t | None \<Rightarrow> now)) items) \<and>
    activeCount p + pausedCount p + cancelledCount p + endedCount p = length items \<and>
    totalRatePerSecond p = sum_list (map (\<lambda>x.
      if classifyStream (item_stream x) (case item_timestamp x of Some t \<Rightarrow> t | None \<Rightarrow> now) = PActive
      then ratePerSecond (item_stream x) else 0) items)"
proof -
  have "\<exists>m'. aggregatePortfolio m tk items now = Some (foldl (add_item now) (empty_summary now) items, m')"
    unfolding aggregatePortfolio_def chunk_loop_all [OF assms(1)] using assms(2) by (simp add: Let_def)
  then show ?thesis using add_item_fold [of now "empty_summary now" items] by (auto simp: empty_summary_def)
qed

lemma aggregatePortfolio_exact_witness:
  "\<exists>p m'. aggregatePortfolio (module26_new None None None) (0, 1) [sample_item] 150 = Some (p, m') \<and>
     totalWithdrawable p = 90 \<and> totalRatePerSecond p = 3"
  using aggregatePortfolio_exact [of "module26_new None None None" "(0, 1)" "[sample_item]" 150]
  by (auto simp: module26_new_def lru_get_def isExpired_def empty_lru_def sample_item_def sample_stream_def
      classifyStream_def withdrawableLocal_def)

end
