(* ===== verification/Concurrency.thy ===== *)
theory Concurrency
  imports Errors
begin

text \<open>
  The worker pools of src/map-with-concurrency.ts.  A pool is a state with one phase per
  worker; a step lets one worker run to its next await, and a schedule (a list of worker
  numbers) is the order in which the event loop resumes them.  The call on an item is a
  function of the item that returns a value or a thrown error.
\<close>

section \<open>Pool state\<close>

datatype phase = Ready | Holding nat | Sleeping nat | Calling nat | Finished | Crashed nat

fun phase_index :: "phase \<Rightarrow> nat option" where
  "phase_index (Holding i) = Some i"
| "phase_index (Sleeping i) = Some i"
| "phase_index (Calling i) = Some i"
| "phase_index (Crashed i) = Some i"
| "phase_index Ready = None"
| "phase_index Finished = None"

fun waiting_index :: "phase \<Rightarrow> nat option" where
  "waiting_index (Holding i) = Some i"
| "waiting_index (Sleeping i) = Some i"
| "waiting_index _ = None"

fun terminal :: "phase \<Rightarrow> bool" where
  "terminal Finished = True"
| "terminal (Crashed _) = True"
| "terminal _ = False"

fun is_calling :: "phase \<Rightarrow> bool" where
  "is_calling (Calling _) = True"
| "is_calling _ = False"

record 'r pool =
  next_index :: nat
  results :: "'r option list"
  workers :: "phase list"
  calls :: "nat list"
  rejected :: "thrown option"

text \<open>const i = index++, the start of fn, its return, and a rejection of the worker.\<close>

definition take_index :: "nat \<Rightarrow> ('r, 'z) pool_scheme \<Rightarrow> ('r, 'z) pool_scheme" where
  "take_index w s = s \<lparr> next_index := next_index s + 1, workers := (workers s)[w := Holding (next_index s)] \<rparr>"

definition start_call :: "nat \<Rightarrow> nat \<Rightarrow> ('r, 'z) pool_scheme \<Rightarrow> ('r, 'z) pool_scheme" where
  "start_call w i s = s \<lparr> workers := (workers s)[w := Calling i], calls := calls s @ [i] \<rparr>"

definition store_result :: "nat \<Rightarrow> nat \<Rightarrow> 'r \<Rightarrow> ('r, 'z) pool_scheme \<Rightarrow> ('r, 'z) pool_scheme" where
  "store_result w i r s = s \<lparr> results := (results s)[i := Some r], workers := (workers s)[w := Ready] \<rparr>"

definition crash :: "nat \<Rightarrow> nat \<Rightarrow> thrown \<Rightarrow> ('r, 'z) pool_scheme \<Rightarrow> ('r, 'z) pool_scheme" where
  "crash w i e s = s \<lparr> workers := (workers s)[w := Crashed i],
     rejected := (case rejected s of None \<Rightarrow> Some e | Some e' \<Rightarrow> Some e') \<rparr>"

definition leave_loop :: "nat \<Rightarrow> ('r, 'z) pool_scheme \<Rightarrow> ('r, 'z) pool_scheme" where
  "leave_loop w s = s \<lparr> workers := (workers s)[w := Finished] \<rparr>"

text \<open>Promise.all over the workers: the first rejection, or all results.\<close>

definition pool_outcome :: "('r, 'z) pool_scheme \<Rightarrow> (thrown, 'r list) result option" where
  "pool_outcome s =
    (case rejected s of
       Some e \<Rightarrow> Some (Inl e)
     | None \<Rightarrow> if list_all (\<lambda>p. p = Finished) (workers s) then Some (Inr (List.map the (results s))) else None)"

section \<open>mapWithConcurrency\<close>

definition DEFAULT_LIST_CONCURRENCY :: nat where "DEFAULT_LIST_CONCURRENCY = 8"

definition js_trunc :: "rat \<Rightarrow> int" where
  "js_trunc r = (if r < 0 then - \<lfloor>- r\<rfloor> else \<lfloor>r\<rfloor>)"

text \<open>Math.min(limit, items.length) with limit = Math.max(1, Math.trunc(concurrency) || 1).\<close>

definition worker_count :: "jsnum \<Rightarrow> nat \<Rightarrow> nat" where
  "worker_count concurrency n =
    (case concurrency of
       Infinity \<Rightarrow> n
     | Num r \<Rightarrow> min (nat (max 1 (js_trunc r))) n
     | _ \<Rightarrow> min 1 n)"

text \<open>An infinite concurrency is not treated as 1: it makes one worker per item.\<close>

lemma infinite_concurrency_unbounded: "worker_count Infinity n = n"
  by (simp add: worker_count_def)

definition pool_start :: "nat \<Rightarrow> nat \<Rightarrow> 'r pool" where
  "pool_start k n = \<lparr> next_index = 0, results = replicate n None, workers = replicate k Ready, calls = [],
     rejected = None \<rparr>"

definition pool_step :: "bool \<Rightarrow> 'a list \<Rightarrow> ('a \<Rightarrow> (thrown, 'r) result) \<Rightarrow> nat \<Rightarrow> 'r pool \<Rightarrow> 'r pool" where
  "pool_step limited items fn w s =
    (if length (workers s) \<le> w then s
     else case workers s ! w of
       Ready \<Rightarrow>
         if next_index s < length items
         then if limited then take_index w s else start_call w (next_index s) (take_index w s)
         else leave_loop w s
     | Holding i \<Rightarrow> start_call w i s
     | Calling i \<Rightarrow> (case fn (items ! i) of Inr r \<Rightarrow> store_result w i r s | Inl e \<Rightarrow> crash w i e s)
     | _ \<Rightarrow> s)"

definition mapWithConcurrency ::
    "'a list \<Rightarrow> jsnum \<Rightarrow> ('a \<Rightarrow> (thrown, 'r) result) \<Rightarrow> bool \<Rightarrow> nat list \<Rightarrow> 'r pool" where
  "mapWithConcurrency items concurrency fn limited schedule =
    fold (pool_step limited items fn) schedule (pool_start (worker_count concurrency (length items)) (length items))"

section \<open>mapWithAdaptiveConcurrency\<close>

definition finiteOr :: "jsnum option \<Rightarrow> int \<Rightarrow> int" where
  "finiteOr v fallback = (case v of Some (Num r) \<Rightarrow> js_trunc r | _ \<Rightarrow> fallback)"

record AdaptiveConcurrencyOptions =
  ao_initial :: "jsnum option"
  ao_min :: "jsnum option"
  ao_max :: "jsnum option"
  ao_targetLatencyMs :: "jsnum option"

definition lowest :: "AdaptiveConcurrencyOptions \<Rightarrow> int" where
  "lowest opts = max 1 (finiteOr (ao_min opts) 1)"

definition highest :: "AdaptiveConcurrencyOptions \<Rightarrow> int" where
  "highest opts = max (lowest opts) (finiteOr (ao_max opts) (int DEFAULT_LIST_CONCURRENCY))"

definition targetLatencyMs :: "AdaptiveConcurrencyOptions \<Rightarrow> int" where
  "targetLatencyMs opts = finiteOr (ao_targetLatencyMs opts) 1000"

record 'r adaptive_pool = "'r pool" +
  in_flight_limit :: int
  inFlight :: int

definition adaptive_start :: "AdaptiveConcurrencyOptions \<Rightarrow> nat \<Rightarrow> 'r adaptive_pool" where
  "adaptive_start opts n = \<lparr> next_index = 0, results = replicate n None,
     workers = replicate (nat (min (highest opts) (int n))) Ready, calls = [], rejected = None,
     in_flight_limit = min (highest opts) (max (lowest opts) (finiteOr (ao_initial opts) 2)), inFlight = 0 \<rparr>"

fun wake_phase :: "phase \<Rightarrow> phase" where
  "wake_phase (Sleeping i) = Holding i"
| "wake_phase p = p"

definition release :: "'r adaptive_pool \<Rightarrow> 'r adaptive_pool" where
  "release s = s \<lparr> inFlight := inFlight s - 1, workers := List.map wake_phase (workers s) \<rparr>"

definition adjust_limit :: "AdaptiveConcurrencyOptions \<Rightarrow> int \<Rightarrow> 'r adaptive_pool \<Rightarrow> 'r adaptive_pool" where
  "adjust_limit opts elapsed s = s \<lparr> in_flight_limit :=
     (if elapsed > targetLatencyMs opts then max (lowest opts) (in_flight_limit s div 2)
      else min (highest opts) (in_flight_limit s + 1)) \<rparr>"

definition adaptive_step ::
    "AdaptiveConcurrencyOptions \<Rightarrow> 'a list \<Rightarrow> ('a \<Rightarrow> (thrown, 'r) result) \<Rightarrow> (nat \<Rightarrow> int) \<Rightarrow> nat
      \<Rightarrow> 'r adaptive_pool \<Rightarrow> 'r adaptive_pool" where
  "adaptive_step opts items fn elapsed w s =
    (if length (workers s) \<le> w then s
     else case workers s ! w of
       Ready \<Rightarrow> if next_index s < length items then take_index w s else leave_loop w s
     | Holding i \<Rightarrow>
         if inFlight s \<ge> in_flight_limit s then s \<lparr> workers := (workers s)[w := Sleeping i] \<rparr>
         else start_call w i (s \<lparr> inFlight := inFlight s + 1 \<rparr>)
     | Calling i \<Rightarrow>
         (case fn (items ! i) of
            Inr r \<Rightarrow> release (adjust_limit opts (elapsed i) (store_result w i r s))
          | Inl e \<Rightarrow> release (crash w i e s))
     | _ \<Rightarrow> s)"

definition mapWithAdaptiveConcurrency ::
    "'a list \<Rightarrow> AdaptiveConcurrencyOptions \<Rightarrow> ('a \<Rightarrow> (thrown, 'r) result) \<Rightarrow> (nat \<Rightarrow> int) \<Rightarrow> nat list
      \<Rightarrow> 'r adaptive_pool" where
  "mapWithAdaptiveConcurrency items opts fn elapsed schedule =
    fold (adaptive_step opts items fn elapsed) schedule (adaptive_start opts (length items))"

section \<open>What every pool keeps\<close>

text \<open>Every claimed index is stored or owned by exactly one worker, and called at most once.\<close>

definition owned :: "phase list \<Rightarrow> nat \<Rightarrow> nat \<Rightarrow> bool" where
  "owned ws u i = (u < length ws \<and> phase_index (ws ! u) = Some i)"

definition claims_ok :: "phase list \<Rightarrow> nat \<Rightarrow> 'r option list \<Rightarrow> bool" where
  "claims_ok ws k rs =
    ((\<forall>u i. owned ws u i \<longrightarrow> i < k \<and> rs ! i = None) \<and>
     (\<forall>u v i. owned ws u i \<longrightarrow> owned ws v i \<longrightarrow> u = v) \<and>
     (\<forall>i < k. rs ! i = None \<longrightarrow> (\<exists>u. owned ws u i)))"

definition results_ok :: "'a list \<Rightarrow> ('a \<Rightarrow> (thrown, 'r) result) \<Rightarrow> nat \<Rightarrow> 'r option list \<Rightarrow> bool" where
  "results_ok items fn k rs =
    (length rs = length items \<and> k \<le> length items \<and>
     (\<forall>i r. i < length items \<longrightarrow> rs ! i = Some r \<longrightarrow> fn (items ! i) = Inr r \<and> i < k))"

definition ends_ok :: "'a list \<Rightarrow> ('a \<Rightarrow> (thrown, 'r) result) \<Rightarrow> phase list \<Rightarrow> nat \<Rightarrow> thrown option \<Rightarrow> bool" where
  "ends_ok items fn ws k rej =
    ((Finished \<in> set ws \<longrightarrow> k = length items) \<and>
     (\<forall>u i. u < length ws \<longrightarrow> ws ! u = Crashed i \<longrightarrow> rej \<noteq> None) \<and>
     (\<forall>e. rej = Some e \<longrightarrow> (\<exists>i < length items. fn (items ! i) = Inl e)))"

definition calls_ok :: "phase list \<Rightarrow> nat \<Rightarrow> nat list \<Rightarrow> bool" where
  "calls_ok ws k cs =
    (distinct cs \<and> set cs \<subseteq> {..<k} \<and>
     (\<forall>u i. u < length ws \<longrightarrow> waiting_index (ws ! u) = Some i \<longrightarrow> i \<notin> set cs))"

definition pool_inv :: "'a list \<Rightarrow> ('a \<Rightarrow> (thrown, 'r) result) \<Rightarrow> ('r, 'z) pool_scheme \<Rightarrow> bool" where
  "pool_inv items fn s =
    (results_ok items fn (next_index s) (results s) \<and> claims_ok (workers s) (next_index s) (results s) \<and>
     ends_ok items fn (workers s) (next_index s) (rejected s) \<and> calls_ok (workers s) (next_index s) (calls s))"

lemma owned_update:
  "w < length ws \<Longrightarrow> owned (ws[w := p]) u i = (if u = w then phase_index p = Some i else owned ws u i)"
  by (auto simp: owned_def nth_list_update)

lemma waiting_owned: "waiting_index p = Some i \<Longrightarrow> phase_index p = Some i"
  by (cases p) auto

lemma set_update_Finished: "w < length ws \<Longrightarrow> p \<noteq> Finished \<Longrightarrow> Finished \<in> set (ws[w := p]) \<Longrightarrow> Finished \<in> set ws"
  using set_update_subset_insert [of ws w p] by auto

lemma results_ok_None: "results_ok items fn k rs \<Longrightarrow> k < length items \<Longrightarrow> rs ! k = None"
  by (cases "rs ! k") (auto simp: results_ok_def)

lemma inv_take_index:
  assumes "pool_inv items fn s" "w < length (workers s)" "workers s ! w = Ready" "next_index s < length items"
  shows "pool_inv items fn (take_index w s)"
proof -
  let ?ws = "(workers s)[w := Holding (next_index s)]" and ?k = "next_index s"
  have inv: "results_ok items fn ?k (results s)" "claims_ok (workers s) ?k (results s)"
    "ends_ok items fn (workers s) ?k (rejected s)" "calls_ok (workers s) ?k (calls s)"
    using assms(1) by (simp_all add: pool_inv_def)
  have notw: "\<not> owned (workers s) w i" for i using assms(3) by (simp add: owned_def)
  have "results_ok items fn (?k + 1) (results s)" using inv(1) assms(4) by (auto simp: results_ok_def less_Suc_eq)
  moreover have "claims_ok ?ws (?k + 1) (results s)"
    unfolding claims_ok_def owned_update [OF assms(2)]
  proof (intro conjI allI impI)
    fix i assume "i < ?k + 1" "results s ! i = None"
    then show "\<exists>u. if u = w then phase_index (Holding ?k) = Some i else owned (workers s) u i"
    proof (cases "i = ?k")
      case False
      then obtain u where u: "owned (workers s) u i"
        using inv(2) \<open>i < ?k + 1\<close> \<open>results s ! i = None\<close> unfolding claims_ok_def by (metis less_antisym Suc_eq_plus1)
      then show ?thesis using notw by (intro exI [of _ u]) auto
    qed (intro exI [of _ w], simp)
  qed (use inv(2) notw results_ok_None [OF inv(1) assms(4)] in \<open>auto simp: claims_ok_def intro: less_SucI split: if_splits\<close>)
  moreover have "ends_ok items fn ?ws (?k + 1) (rejected s)"
    using inv(3) assms(2,4) set_update_Finished [OF assms(2), of "Holding ?k"]
    by (auto simp: ends_ok_def nth_list_update)
  moreover have "calls_ok ?ws (?k + 1) (calls s)"
    using inv(4) assms(2) by (auto simp: calls_ok_def nth_list_update less_Suc_eq)
  ultimately show ?thesis by (simp add: pool_inv_def take_index_def)
qed

text \<open>A move of one worker that keeps its claim.\<close>

lemma inv_keep_claim:
  assumes "pool_inv items fn s" "w < length (workers s)" "workers s ! w = Holding i"
  shows "pool_inv items fn (start_call w i s)"
    "pool_inv items fn (s \<lparr> workers := (workers s)[w := Sleeping i] \<rparr>)"
proof -
  let ?k = "next_index s"
  have inv: "results_ok items fn ?k (results s)" "claims_ok (workers s) ?k (results s)"
    "ends_ok items fn (workers s) ?k (rejected s)" "calls_ok (workers s) ?k (calls s)"
    using assms(1) by (simp_all add: pool_inv_def)
  have w: "owned (workers s) w i" using assms by (simp add: owned_def)
  have claims: "claims_ok ((workers s)[w := p]) ?k (results s)" if "phase_index p = Some i" for p
  proof -
    have "owned ((workers s)[w := p]) u j = owned (workers s) u j" for u j
      using w that unfolding owned_update [OF assms(2)] by (auto simp: owned_def)
    then show ?thesis using inv(2) by (simp add: claims_ok_def)
  qed
  have ends: "ends_ok items fn ((workers s)[w := p]) ?k (rejected s)" if "p \<noteq> Finished" "\<forall>j. p \<noteq> Crashed j" for p
    using inv(3) that set_update_Finished [OF assms(2) that(1)] assms(2) by (auto simp: ends_ok_def nth_list_update)
  have fresh: "i \<notin> set (calls s)" "i < ?k"
    using inv(2,4) assms w by (auto simp: calls_ok_def claims_ok_def dest: spec [of _ w])
  have "u = w" if "u < length (workers s)" "waiting_index (workers s ! u) = Some i" for u
  proof -
    have "owned (workers s) u i" using that waiting_owned [OF that(2)] by (simp add: owned_def)
    then show ?thesis using inv(2) w unfolding claims_ok_def by blast
  qed
  then have other: "waiting_index ((workers s)[w := Calling i] ! u) = Some j \<Longrightarrow> u < length (workers s) \<Longrightarrow>
      u \<noteq> w \<and> waiting_index (workers s ! u) = Some j \<and> j \<noteq> i" for u j
    using assms(2) by (auto simp: nth_list_update split: if_splits)
  have "calls_ok ((workers s)[w := Calling i]) ?k (calls s @ [i])"
    unfolding calls_ok_def
  proof (intro conjI allI impI)
    fix u j assume a: "u < length ((workers s)[w := Calling i])" "waiting_index ((workers s)[w := Calling i] ! u) = Some j"
    then have "waiting_index (workers s ! u) = Some j" "j \<noteq> i" using other [OF a(2)] by simp_all
    moreover from this have "j \<notin> set (calls s)" using a(1) inv(4) unfolding calls_ok_def by simp
    ultimately show "j \<notin> set (calls s @ [i])" by simp
  qed (use inv(4) fresh in \<open>auto simp: calls_ok_def\<close>)
  then show "pool_inv items fn (start_call w i s)"
    using inv(1) claims ends by (simp add: pool_inv_def start_call_def)
  have "calls_ok ((workers s)[w := Sleeping i]) ?k (calls s)"
    using inv(4) fresh assms(2) by (auto simp: calls_ok_def nth_list_update)
  then show "pool_inv items fn (s \<lparr> workers := (workers s)[w := Sleeping i] \<rparr>)"
    using inv(1) claims ends by (simp add: pool_inv_def)
qed

lemma inv_store_result:
  assumes "pool_inv items fn s" "w < length (workers s)" "workers s ! w = Calling i" "fn (items ! i) = Inr r"
  shows "pool_inv items fn (store_result w i r s)"
proof -
  let ?k = "next_index s" and ?rs = "(results s)[i := Some r]"
  have inv: "results_ok items fn ?k (results s)" "claims_ok (workers s) ?k (results s)"
    "ends_ok items fn (workers s) ?k (rejected s)" "calls_ok (workers s) ?k (calls s)"
    using assms(1) by (simp_all add: pool_inv_def)
  have w: "owned (workers s) w i" using assms by (simp add: owned_def)
  have "i < ?k" using inv(2) w by (simp add: claims_ok_def)
  with inv(1) have i: "i < ?k" "i < length (results s)" by (simp_all add: results_ok_def)
  have "results_ok items fn ?k ?rs"
    using inv(1) i assms(4) by (auto simp: results_ok_def nth_list_update split: if_splits)
  moreover have "claims_ok ((workers s)[w := Ready]) ?k ?rs"
    unfolding claims_ok_def owned_update [OF assms(2)]
  proof (intro conjI allI impI)
    fix u j assume "if u = w then phase_index Ready = Some j else owned (workers s) u j"
    then have u: "owned (workers s) u j" "u \<noteq> w" by (auto split: if_splits)
    then have "j \<noteq> i" using inv(2) w unfolding claims_ok_def by blast
    then show "j < ?k" "?rs ! j = None" using u inv(2) by (simp_all add: claims_ok_def)
  next
    fix j assume j: "j < ?k" "?rs ! j = None"
    then have "j \<noteq> i" "results s ! j = None" using i by (auto simp: nth_list_update split: if_splits)
    then obtain u where "owned (workers s) u j" using j inv(2) unfolding claims_ok_def by blast
    moreover from this have "u \<noteq> w" using \<open>j \<noteq> i\<close> w by (auto simp: owned_def)
    ultimately show "\<exists>u. if u = w then phase_index Ready = Some j else owned (workers s) u j"
      by (intro exI [of _ u]) simp
  qed (use inv(2) in \<open>auto simp: claims_ok_def split: if_splits\<close>)
  moreover have "ends_ok items fn ((workers s)[w := Ready]) ?k (rejected s)"
    using inv(3) assms(2) set_update_Finished [OF assms(2), of Ready] by (auto simp: ends_ok_def nth_list_update)
  moreover have "calls_ok ((workers s)[w := Ready]) ?k (calls s)"
    using inv(4) assms(2) by (auto simp: calls_ok_def nth_list_update)
  ultimately show ?thesis by (simp add: pool_inv_def store_result_def)
qed

lemma inv_crash:
  assumes "pool_inv items fn s" "w < length (workers s)" "workers s ! w = Calling i" "fn (items ! i) = Inl e"
  shows "pool_inv items fn (crash w i e s)"
proof -
  let ?k = "next_index s"
  have inv: "results_ok items fn ?k (results s)" "claims_ok (workers s) ?k (results s)"
    "ends_ok items fn (workers s) ?k (rejected s)" "calls_ok (workers s) ?k (calls s)"
    using assms(1) by (simp_all add: pool_inv_def)
  have w: "owned (workers s) w i" using assms by (simp add: owned_def)
  have "i < ?k" using inv(2) w by (simp add: claims_ok_def)
  with inv(1) have i: "i < length items" by (simp add: results_ok_def)
  have "owned ((workers s)[w := Crashed i]) u j = owned (workers s) u j" for u j
    using w unfolding owned_update [OF assms(2)] by (auto simp: owned_def)
  then have "claims_ok ((workers s)[w := Crashed i]) ?k (results s)" using inv(2) by (simp add: claims_ok_def)
  moreover have "ends_ok items fn ((workers s)[w := Crashed i]) ?k
      (case rejected s of None \<Rightarrow> Some e | Some e' \<Rightarrow> Some e')"
    using inv(3) assms(2,4) i set_update_Finished [OF assms(2), of "Crashed i"]
    by (auto simp: ends_ok_def nth_list_update split: option.splits)
  moreover have "calls_ok ((workers s)[w := Crashed i]) ?k (calls s)"
    using inv(4) assms(2) by (auto simp: calls_ok_def nth_list_update)
  ultimately show ?thesis using inv(1) by (simp add: pool_inv_def crash_def)
qed

lemma inv_leave_loop:
  assumes "pool_inv items fn s" "w < length (workers s)" "workers s ! w = Ready" "\<not> next_index s < length items"
  shows "pool_inv items fn (leave_loop w s)"
proof -
  let ?k = "next_index s"
  have inv: "results_ok items fn ?k (results s)" "claims_ok (workers s) ?k (results s)"
    "ends_ok items fn (workers s) ?k (rejected s)" "calls_ok (workers s) ?k (calls s)"
    using assms(1) by (simp_all add: pool_inv_def)
  have "owned ((workers s)[w := Finished]) u j = owned (workers s) u j" for u j
    using assms(3) unfolding owned_update [OF assms(2)] by (auto simp: owned_def)
  then have "claims_ok ((workers s)[w := Finished]) ?k (results s)" using inv(2) by (simp add: claims_ok_def)
  moreover have "ends_ok items fn ((workers s)[w := Finished]) ?k (rejected s)"
    using inv(1,3) assms(2,4) by (auto simp: ends_ok_def results_ok_def nth_list_update)
  moreover have "calls_ok ((workers s)[w := Finished]) ?k (calls s)"
    using inv(4) assms(2) by (auto simp: calls_ok_def nth_list_update)
  ultimately show ?thesis using inv(1) by (simp add: pool_inv_def leave_loop_def)
qed

lemma inv_wake:
  assumes "pool_inv items fn s"
  shows "pool_inv items fn (s \<lparr> workers := List.map wake_phase (workers s) \<rparr>)"
proof -
  have p: "phase_index (wake_phase x) = phase_index x" "waiting_index (wake_phase x) = waiting_index x"
    "(wake_phase x = Finished) = (x = Finished)" "(Finished = wake_phase x) = (x = Finished)" "(wake_phase x = Crashed i) = (x = Crashed i)" for x i
    by (cases x; simp)+
  have "owned (List.map wake_phase ws) = owned ws" for ws
    by (intro ext) (auto simp: owned_def p)
  moreover have "Finished \<in> set (List.map wake_phase ws) \<longleftrightarrow> Finished \<in> set ws" for ws
    by (induction ws) (auto simp: p)
  ultimately show ?thesis using assms
    by (simp add: pool_inv_def claims_ok_def ends_ok_def calls_ok_def p del: set_map cong: conj_cong)
qed

lemma pool_inv_only:
  "results s' = results s \<Longrightarrow> next_index s' = next_index s \<Longrightarrow> workers s' = workers s \<Longrightarrow> calls s' = calls s \<Longrightarrow>
   rejected s' = rejected s \<Longrightarrow> pool_inv items fn s' = pool_inv items fn s"
  by (simp add: pool_inv_def)

lemma pool_inv_start: "pool_inv items fn (pool_start k (length items))"
  by (auto simp: pool_inv_def pool_start_def results_ok_def claims_ok_def ends_ok_def calls_ok_def owned_def)

lemma inv_pool_step:
  assumes "pool_inv items fn s" shows "pool_inv items fn (pool_step limited items fn w s)"
proof (cases "workers s ! w")
  case Ready
  let ?t = "take_index w s"
  have "w < length (workers s) \<Longrightarrow> next_index s < length items \<Longrightarrow> pool_inv items fn (start_call w (next_index s) ?t)"
    using inv_take_index [OF assms _ Ready] by (intro inv_keep_claim(1)) (simp_all add: take_index_def)
  then show ?thesis
    using assms inv_take_index [OF assms _ Ready] inv_leave_loop [OF assms _ Ready] Ready by (simp add: pool_step_def)
next
  case (Holding i)
  then show ?thesis using assms inv_keep_claim(1) [OF assms _ Holding] by (simp add: pool_step_def)
next
  case (Calling i)
  then show ?thesis
    using assms inv_store_result [OF assms _ Calling] inv_crash [OF assms _ Calling]
    by (simp add: pool_step_def split: sum.split)
qed (use assms in \<open>simp_all add: pool_step_def\<close>)

lemma pool_outcome_value:
  assumes "pool_inv items fn s" "pool_outcome s = Some (Inr rs)" "workers s \<noteq> [] \<or> items = []"
  shows "List.map fn items = List.map Inr rs"
proof -
  let ?k = "next_index s"
  have fin: "list_all (\<lambda>p. p = Finished) (workers s)" and rs: "rs = List.map the (results s)"
    using assms(2) by (auto simp: pool_outcome_def split: option.splits if_splits)
  have k: "?k = length items"
    using assms(1,3) fin by (cases "workers s") (auto simp: pool_inv_def ends_ok_def results_ok_def)
  have "owned (workers s) u i \<Longrightarrow> False" for u i
    using fin by (auto simp: owned_def list_all_length)
  then have some: "i < length items \<Longrightarrow> results s ! i \<noteq> None" for i
    using assms(1) k unfolding pool_inv_def claims_ok_def by metis
  show ?thesis
  proof (rule nth_equalityI)
    show "length (List.map fn items) = length (List.map Inr rs)"
      using assms(1) rs by (simp add: pool_inv_def results_ok_def)
    fix i assume "i < length (List.map fn items)"
    then have i: "i < length items" by simp
    then obtain r where "results s ! i = Some r" using some by blast
    then show "List.map fn items ! i = List.map Inr rs ! i"
      using assms(1) i by (simp add: pool_inv_def results_ok_def rs)
  qed
qed

lemma pool_outcome_error:
  assumes "pool_inv items fn s" "pool_outcome s = Some (Inl e)"
  shows "Inl e \<in> set (List.map fn items)"
proof -
  have "rejected s = Some e" using assms(2) by (auto simp: pool_outcome_def split: option.splits if_splits)
  then obtain i where "i < length items" "fn (items ! i) = Inl e" using assms(1) by (auto simp: pool_inv_def ends_ok_def)
  then show ?thesis by (metis length_map nth_map nth_mem)
qed

lemma settled_outcome:
  assumes "pool_inv items fn s" "list_all terminal (workers s)"
  shows "pool_outcome s \<noteq> None"
proof (cases "rejected s")
  case None
  have "p = Finished" if "p \<in> set (workers s)" for p
  proof -
    have t: "terminal p" using that assms(2) by (simp add: list_all_iff)
    have "p \<noteq> Crashed i" for i
    proof
      assume "p = Crashed i"
      with that have "Crashed i \<in> set (workers s)" by simp
      then obtain u where u: "u < length (workers s)" "workers s ! u = Crashed i" unfolding in_set_conv_nth by blast
      have "ends_ok items fn (workers s) (next_index s) None" using assms(1) None by (simp add: pool_inv_def)
      then have "\<forall>u i. u < length (workers s) \<longrightarrow> workers s ! u \<noteq> Crashed i" by (simp add: ends_ok_def)
      with u show False by simp
    qed
    then show ?thesis using t by (cases p) auto
  qed
  then have "list_all (\<lambda>p. p = Finished) (workers s)" by (simp add: list_all_iff)
  then show ?thesis using None by (simp add: pool_outcome_def)
qed (simp add: pool_outcome_def)

section \<open>Fair schedules settle a pool\<close>

text \<open>
  The contract behind termination: a step changes nothing or decreases a potential, and a
  state in which no worker can move is settled.
\<close>

locale fair_machine =
  fixes step :: "nat \<Rightarrow> 's \<Rightarrow> 's" and inv :: "'s \<Rightarrow> bool" and potential :: "'s \<Rightarrow> nat"
    and width :: "'s \<Rightarrow> nat" and settled :: "'s \<Rightarrow> bool"
  assumes step_inv: "inv s \<Longrightarrow> inv (step w s)"
    and step_width: "width (step w s) = width s"
    and step_decreases: "inv s \<Longrightarrow> step w s = s \<or> potential (step w s) < potential s"
    and stuck_settled: "inv s \<Longrightarrow> \<forall>w < width s. step w s = s \<Longrightarrow> settled s"
    and settled_step: "inv s \<Longrightarrow> settled s \<Longrightarrow> settled (step w s)"
begin

lemma run_keeps: "inv s \<Longrightarrow> inv (fold step ws s) \<and> width (fold step ws s) = width s \<and>
    potential (fold step ws s) \<le> potential s \<and> (settled s \<longrightarrow> settled (fold step ws s))"
proof (induction ws arbitrary: s)
  case (Cons w ws)
  have "inv (step w s)" by (rule step_inv [OF Cons.prems])
  from Cons.IH [OF this] show ?case
    using step_width [of w s] step_decreases [OF Cons.prems, of w] settled_step [OF Cons.prems, of w] by auto
qed simp

lemma round_idle: "inv s \<Longrightarrow> potential (fold step ws s) = potential s \<Longrightarrow> \<forall>w \<in> set ws. step w s = s"
proof (induction ws arbitrary: s)
  case (Cons w ws)
  have i: "inv (step w s)" by (rule step_inv [OF Cons.prems(1)])
  have "potential (fold step ws (step w s)) \<le> potential (step w s)" using run_keeps [OF i] by blast
  then have "step w s = s" using step_decreases [OF Cons.prems(1), of w] Cons.prems(2) by auto
  then show ?case using Cons by simp
qed simp

lemma fair_round:
  assumes "inv s" "{..<width s} \<subseteq> set ws"
  shows "settled (fold step ws s) \<or> potential (fold step ws s) < potential s"
proof (cases "potential (fold step ws s) = potential s")
  case True
  then have "settled s" using round_idle [OF assms(1)] stuck_settled [OF assms(1)] assms(2) by auto
  then show ?thesis using run_keeps [OF assms(1)] by blast
next
  case False
  then show ?thesis using run_keeps [OF assms(1), of ws] by linarith
qed

lemma fair_rounds_settle:
  "inv s \<Longrightarrow> potential s < length rounds \<Longrightarrow> \<forall>r \<in> set rounds. {..<width s} \<subseteq> set r \<Longrightarrow>
   settled (fold step (concat rounds) s)"
proof (induction rounds arbitrary: s)
  case (Cons r rounds)
  let ?t = "fold step r s"
  have t: "inv ?t" "width ?t = width s" using run_keeps [OF Cons.prems(1)] by blast+
  show ?case
  proof (cases "settled ?t")
    case True
    then show ?thesis using run_keeps [OF t(1)] by simp
  next
    case False
    then have "potential ?t < potential s" using fair_round [OF Cons.prems(1), of r] Cons.prems(3) by simp
    then show ?thesis using Cons.IH [OF t(1)] Cons.prems(2,3) t(2) by simp
  qed
qed simp

end

fun phase_weight :: "phase \<Rightarrow> nat" where
  "phase_weight Ready = 1"
| "phase_weight (Holding _) = 3"
| "phase_weight (Sleeping _) = 3"
| "phase_weight (Calling _) = 2"
| "phase_weight Finished = 0"
| "phase_weight (Crashed _) = 0"

definition remaining :: "nat \<Rightarrow> ('r, 'z) pool_scheme \<Rightarrow> nat" where
  "remaining n s = 3 * (n - next_index s) + sum_list (List.map phase_weight (workers s))"

lemma sum_list_move:
  fixes f :: "'a \<Rightarrow> nat"
  assumes "w < length ws"
  shows "sum_list (List.map f (ws[w := p])) + f (ws ! w) = sum_list (List.map f ws) + f p"
  using assms
proof (induction ws arbitrary: w)
  case (Cons x ws)
  then show ?case by (cases w) auto
qed simp

lemma list_all_terminal_nth: "list_all terminal ws \<Longrightarrow> w < length ws \<Longrightarrow> terminal (ws ! w)"
  by (simp add: list_all_length)

lemma remaining_moves:
  assumes "w < length (workers s)"
  shows "workers s ! w = Ready \<Longrightarrow> next_index s < n \<Longrightarrow> remaining n (take_index w s) < remaining n s"
    "workers s ! w = Ready \<Longrightarrow> remaining n (leave_loop w s) < remaining n s"
    "workers s ! w = Holding i \<Longrightarrow> remaining n (start_call w i s) < remaining n s"
    "workers s ! w = Calling i \<Longrightarrow> remaining n (store_result w i r s) < remaining n s"
    "workers s ! w = Calling i \<Longrightarrow> remaining n (crash w i e s) < remaining n s"
  using sum_list_move [OF assms, of phase_weight "Holding (next_index s)"]
    sum_list_move [OF assms, of phase_weight Finished] sum_list_move [OF assms, of phase_weight "Calling i"]
    sum_list_move [OF assms, of phase_weight Ready] sum_list_move [OF assms, of phase_weight "Crashed i"]
  by (simp_all add: remaining_def take_index_def leave_loop_def start_call_def store_result_def crash_def)

lemma pool_step_width: "length (workers (pool_step limited items fn w s)) = length (workers s)"
  by (simp add: pool_step_def take_index_def leave_loop_def start_call_def store_result_def crash_def
      split: phase.split sum.split)

lemma pool_step_decreases:
  "pool_step limited items fn w s = s \<or> remaining (length items) (pool_step limited items fn w s) < remaining (length items) s"
proof (cases "w < length (workers s)")
  case w: True
  show ?thesis
  proof (cases "workers s ! w")
    case Ready
    let ?t = "take_index w s"
    have "workers ?t ! w = Holding (next_index s)" "w < length (workers ?t)" using w by (simp_all add: take_index_def)
    then have "remaining n (start_call w (next_index s) ?t) < remaining n ?t" for n
      by (intro remaining_moves(3)) simp_all
    then show ?thesis
      using Ready remaining_moves(1,2) [OF w Ready, of "length items"] less_trans
      by (simp add: pool_step_def) blast
  qed (use w remaining_moves(3-5) [OF w] in \<open>simp_all add: pool_step_def split: sum.split\<close>)
qed (simp add: pool_step_def)

definition sleepless :: "('r, 'z) pool_scheme \<Rightarrow> bool" where
  "sleepless s = list_all (\<lambda>p. \<forall>i \<in> set_option (phase_index p). p \<noteq> Sleeping i) (workers s)"

lemma sleepless_nth: "sleepless s \<Longrightarrow> w < length (workers s) \<Longrightarrow> workers s ! w \<noteq> Sleeping i"
  by (auto simp: sleepless_def list_all_length)

lemma sleepless_update: "list_all P ws \<Longrightarrow> P p \<Longrightarrow> list_all P (ws[w := p])"
  using set_update_subset_insert [of ws w p] by (auto simp: list_all_iff)

lemma sleepless_step: "sleepless s \<Longrightarrow> sleepless (pool_step limited items fn w s)"
  by (auto simp: sleepless_def pool_step_def take_index_def leave_loop_def start_call_def store_result_def crash_def
      intro!: sleepless_update split: phase.split sum.split)

lemma pool_stuck:
  assumes "\<forall>w < length (workers s). pool_step limited items fn w s = s" "sleepless s"
  shows "list_all terminal (workers s)"
  unfolding list_all_length
proof (intro allI impI)
  fix w assume w: "w < length (workers s)"
  have idle: "pool_step limited items fn w s = s" using assms(1) w by blast
  show "terminal (workers s ! w)"
  proof (cases "workers s ! w")
    case Ready
    let ?t = "take_index w s"
    have "workers ?t ! w = Holding (next_index s)" "w < length (workers ?t)" using w by (simp_all add: take_index_def)
    then have "remaining n (start_call w (next_index s) ?t) < remaining n ?t" for n
      by (intro remaining_moves(3)) simp_all
    then have "remaining (length items) (pool_step limited items fn w s) < remaining (length items) s"
      using w Ready remaining_moves(1,2) [OF w Ready, of "length items"] less_trans by (simp add: pool_step_def) blast
    then show ?thesis using idle by simp
  next
    case (Holding i)
    then have "remaining (length items) (pool_step limited items fn w s) < remaining (length items) s"
      using w remaining_moves(3) [OF w Holding] by (simp add: pool_step_def)
    then show ?thesis using idle by simp
  next
    case (Calling i)
    then have "remaining (length items) (pool_step limited items fn w s) < remaining (length items) s"
      using w remaining_moves(4,5) [OF w Calling] by (simp add: pool_step_def split: sum.split)
    then show ?thesis using idle by simp
  next
    case (Sleeping i)
    then show ?thesis using sleepless_nth [OF assms(2) w] by blast
  qed simp_all
qed

lemma terminal_step: "list_all terminal (workers s) \<Longrightarrow> pool_step limited items fn w s = s"
  using list_all_terminal_nth [of "workers s" w] by (auto simp: pool_step_def split: phase.split)

interpretation plain: fair_machine "pool_step limited items fn" "\<lambda>s. pool_inv items fn s \<and> sleepless s"
  "remaining (length items)" "\<lambda>s. length (workers s)" "\<lambda>s. list_all terminal (workers s)" for limited items fn
  by unfold_locales
     (auto simp: inv_pool_step sleepless_step pool_step_width terminal_step pool_step_decreases intro: pool_stuck)

section \<open>The adaptive pool\<close>

definition calling :: "('r, 'z) pool_scheme \<Rightarrow> nat" where
  "calling s = length (filter is_calling (workers s))"

definition limits_ok :: "AdaptiveConcurrencyOptions \<Rightarrow> 'r adaptive_pool \<Rightarrow> bool" where
  "limits_ok opts s =
    (lowest opts \<le> in_flight_limit s \<and> in_flight_limit s \<le> highest opts \<and> inFlight s = int (calling s) \<and>
     inFlight s \<le> highest opts \<and> (sleepless s \<or> 0 < inFlight s))"

lemma bounds_order: "1 \<le> lowest opts" "lowest opts \<le> highest opts"
  by (simp_all add: lowest_def highest_def)

lemma filter_update_length:
  assumes "w < length ws"
  shows "int (length (filter is_calling (ws[w := p]))) =
    int (length (filter is_calling ws)) - (if is_calling (ws ! w) then 1 else 0) + (if is_calling p then 1 else 0)"
  using assms
proof (induction ws arbitrary: w)
  case (Cons x ws)
  show ?case
  proof (cases w)
    case (Suc v)
    then show ?thesis using Cons.IH [of v] Cons.prems by auto
  qed auto
qed simp

lemma calling_wake [simp]: "is_calling \<circ> wake_phase = is_calling"
proof
  show "(is_calling \<circ> wake_phase) p = is_calling p" for p by (cases p) simp_all
qed

lemma sleepless_wake: "sleepless (s \<lparr> workers := List.map wake_phase ws \<rparr>)"
proof -
  have "wake_phase p \<noteq> Sleeping i" for p i by (cases p) simp_all
  then show ?thesis by (auto simp: sleepless_def list_all_iff)
qed

lemma limits_ok_step:
  assumes "limits_ok opts s" shows "limits_ok opts (adaptive_step opts items fn elapsed w s)"
proof (cases "w < length (workers s)")
  case w: True
  have nosleep: "sleepless s \<Longrightarrow> \<forall>i. p \<noteq> Sleeping i \<Longrightarrow> sleepless (s \<lparr> workers := (workers s)[w := p] \<rparr>)" for p
    by (auto simp: sleepless_def intro!: sleepless_update)
  have pos: "1 \<le> in_flight_limit s" using assms bounds_order(1) [of opts] by (simp add: limits_ok_def)
  show ?thesis
  proof (cases "workers s ! w")
    case Ready
    then show ?thesis using assms w nosleep [of "Holding (next_index s)"] nosleep [of Finished]
      by (auto simp: adaptive_step_def limits_ok_def take_index_def leave_loop_def calling_def filter_update_length
          sleepless_def)
  next
    case (Holding i)
    then show ?thesis using assms w pos nosleep [of "Calling i"]
      by (auto simp: adaptive_step_def limits_ok_def start_call_def calling_def filter_update_length sleepless_def)
  next
    case (Calling i)
    have half: "in_flight_limit s div 2 \<le> in_flight_limit s" using pos by simp
    show ?thesis
      using Calling assms w bounds_order [of opts] half
      by (auto simp: adaptive_step_def limits_ok_def release_def adjust_limit_def store_result_def crash_def
          calling_def filter_update_length sleepless_wake split: sum.split)
  qed (use assms in \<open>simp_all add: adaptive_step_def\<close>)
qed (use assms in \<open>simp add: adaptive_step_def\<close>)

lemma inv_adaptive_step:
  assumes "pool_inv items fn s" shows "pool_inv items fn (adaptive_step opts items fn elapsed w s)"
proof (cases "workers s ! w")
  case Ready
  then show ?thesis
    using assms inv_take_index [OF assms _ Ready] inv_leave_loop [OF assms _ Ready] by (simp add: adaptive_step_def)
next
  case (Holding i)
  have same: "pool_inv items fn (s \<lparr> inFlight := k \<rparr>)" for k using assms by (simp add: pool_inv_def)
  have "w < length (workers s) \<Longrightarrow> pool_inv items fn (start_call w i (s \<lparr> inFlight := k \<rparr>))" for k
    using same [of k] Holding by (intro inv_keep_claim(1)) simp_all
  then show ?thesis using assms Holding inv_keep_claim(2) [OF assms _ Holding] by (simp add: adaptive_step_def)
next
  case (Calling i)
  have rel: "pool_inv items fn t \<Longrightarrow> pool_inv items fn (release t)" for t :: "'b adaptive_pool"
    using inv_wake [of items fn t] by (simp add: release_def pool_inv_def)
  have adj: "pool_inv items fn t \<Longrightarrow> pool_inv items fn (adjust_limit opts k t)" for t :: "'b adaptive_pool" and k
    by (simp add: adjust_limit_def pool_inv_def)
  show ?thesis
    using assms Calling rel adj inv_store_result [OF assms _ Calling] inv_crash [OF assms _ Calling]
    by (simp add: adaptive_step_def split: sum.split)
qed (use assms in \<open>simp_all add: adaptive_step_def\<close>)

fun is_holding :: "phase \<Rightarrow> bool" where
  "is_holding (Holding _) = True"
| "is_holding _ = False"

definition waiting_weight :: "nat \<Rightarrow> 'r adaptive_pool \<Rightarrow> nat" where
  "waiting_weight n s = (length (workers s) + 1) * remaining n s + length (filter is_holding (workers s))"

lemma waiting_weight_less:
  assumes "remaining n t < remaining n s" "length (workers t) = length (workers s)"
  shows "waiting_weight n t < waiting_weight n s"
proof -
  let ?W = "length (workers s)"
  have "waiting_weight n t \<le> (?W + 1) * remaining n t + ?W"
    using length_filter_le [of is_holding "workers t"] assms(2) by (simp add: waiting_weight_def)
  also have "\<dots> < (?W + 1) * (remaining n t + 1)" by simp
  also have "\<dots> \<le> (?W + 1) * remaining n s" using assms(1) by (intro mult_le_mono2) simp
  also have "\<dots> \<le> waiting_weight n s" by (simp add: waiting_weight_def)
  finally show ?thesis .
qed

lemma weight_wake [simp]: "phase_weight \<circ> wake_phase = phase_weight"
proof
  show "(phase_weight \<circ> wake_phase) p = phase_weight p" for p by (cases p) simp_all
qed

lemma remaining_release [simp]: "remaining n (release t) = remaining n t" "length (workers (release t)) = length (workers t)"
  by (simp_all add: remaining_def release_def)

lemma remaining_adjust [simp]:
  "remaining n (adjust_limit opts k t) = remaining n t" "length (workers (adjust_limit opts k t)) = length (workers t)"
  by (simp_all add: remaining_def adjust_limit_def)

lemma widths [simp]:
  "length (workers (take_index w s)) = length (workers s)" "length (workers (leave_loop w s)) = length (workers s)"
  "length (workers (start_call w i s)) = length (workers s)" "length (workers (store_result w i r s)) = length (workers s)"
  "length (workers (crash w i e s)) = length (workers s)"
  by (simp_all add: take_index_def leave_loop_def start_call_def store_result_def crash_def)

lemma adaptive_step_width: "length (workers (adaptive_step opts items fn elapsed w s)) = length (workers s)"
  by (simp add: adaptive_step_def split: phase.split sum.split)

lemma holding_to_sleep:
  assumes "w < length ws" "ws ! w = Holding i"
  shows "length (filter is_holding (ws[w := Sleeping i])) < length (filter is_holding ws)"
  using assms
proof (induction ws arbitrary: w)
  case (Cons x ws)
  then show ?case by (cases w) auto
qed simp

lemma sleep_keeps_remaining:
  assumes "w < length (workers s)" "workers s ! w = Holding i"
  shows "remaining n (s \<lparr> workers := (workers s)[w := Sleeping i] \<rparr>) = remaining n s"
  using sum_list_move [OF assms(1), of phase_weight "Sleeping i"] assms(2) by (simp add: remaining_def)

lemma adaptive_moves:
  assumes w: "w < length (workers s)" and awake: "\<not> terminal (workers s ! w)" "\<forall>i. workers s ! w \<noteq> Sleeping i"
  shows "waiting_weight (length items) (adaptive_step opts items fn elapsed w s) < waiting_weight (length items) s"
proof (cases "workers s ! w")
  case Ready
  then show ?thesis using w remaining_moves(1,2) [OF w Ready, of "length items"]
    by (simp add: adaptive_step_def waiting_weight_less)
next
  case (Holding i)
  let ?s' = "s \<lparr> inFlight := inFlight s + 1 \<rparr>"
  have "remaining (length items) (start_call w i ?s') < remaining (length items) s"
    using remaining_moves(3) [of w ?s' i "length items"] w Holding by (simp add: remaining_def)
  then have "waiting_weight (length items) (start_call w i ?s') < waiting_weight (length items) s"
    by (rule waiting_weight_less) simp
  moreover have "waiting_weight (length items) (s \<lparr> workers := (workers s)[w := Sleeping i] \<rparr>) < waiting_weight (length items) s"
    using sleep_keeps_remaining [OF w Holding] holding_to_sleep [OF w Holding] by (simp add: waiting_weight_def)
  ultimately show ?thesis using w Holding by (simp add: adaptive_step_def)
next
  case (Calling i)
  show ?thesis
    using w Calling remaining_moves(4,5) [OF w Calling, where n = "length items"]
    by (simp add: adaptive_step_def waiting_weight_less split: sum.split)
qed (use awake in simp_all)

lemma adaptive_step_decreases:
  "adaptive_step opts items fn elapsed w s = s \<or>
   waiting_weight (length items) (adaptive_step opts items fn elapsed w s) < waiting_weight (length items) s"
proof (cases "w < length (workers s) \<and> \<not> terminal (workers s ! w) \<and> (\<forall>i. workers s ! w \<noteq> Sleeping i)")
  case True
  then show ?thesis using adaptive_moves by blast
next
  case False
  then have "adaptive_step opts items fn elapsed w s = s" by (cases "workers s ! w") (auto simp: adaptive_step_def)
  then show ?thesis by blast
qed

lemma adaptive_stuck:
  assumes "\<forall>w < length (workers s). adaptive_step opts items fn elapsed w s = s" "limits_ok opts s"
  shows "list_all terminal (workers s)"
proof -
  have idle: "terminal (workers s ! w) \<or> (\<exists>i. workers s ! w = Sleeping i)" if w: "w < length (workers s)" for w
    using adaptive_moves [OF w, of items opts fn elapsed] assms(1) w by fastforce
  have "\<not> is_calling x" if "x \<in> set (workers s)" for x
  proof -
    obtain w where "w < length (workers s)" "x = workers s ! w"
      using \<open>x \<in> set (workers s)\<close> unfolding in_set_conv_nth by blast
    then have "terminal x \<or> (\<exists>i. x = Sleeping i)" using idle by simp
    then show ?thesis by (cases x) simp_all
  qed
  then have "calling s = 0" unfolding calling_def length_0_conv filter_empty_conv by blast
  then have "sleepless s" using assms(2) by (auto simp: limits_ok_def)
  then show ?thesis using idle sleepless_nth unfolding list_all_length by blast
qed

lemma adaptive_terminal_step: "list_all terminal (workers s) \<Longrightarrow> adaptive_step opts items fn elapsed w s = s"
  using list_all_terminal_nth [of "workers s" w] by (auto simp: adaptive_step_def split: phase.split)

interpretation adaptive: fair_machine "adaptive_step opts items fn elapsed" "\<lambda>s. pool_inv items fn s \<and> limits_ok opts s"
  "waiting_weight (length items)" "\<lambda>s. length (workers s)" "\<lambda>s. list_all terminal (workers s)"
  for opts items fn elapsed
  by unfold_locales
     (auto simp: inv_adaptive_step limits_ok_step adaptive_step_width adaptive_terminal_step adaptive_step_decreases
       intro: adaptive_stuck)

section \<open>Properties of the pools\<close>

lemma plain_run:
  fixes s :: "'r pool"
  assumes s_def: "s = mapWithConcurrency items concurrency fn limited schedule"
  shows "pool_inv items fn s" "length (workers s) = worker_count concurrency (length items)"
proof -
  let ?t = "pool_start (worker_count concurrency (length items)) (length items) :: 'r pool"
  have "pool_inv items fn ?t \<and> sleepless ?t"
    using pool_inv_start by (auto simp: sleepless_def pool_start_def list_all_iff)
  from plain.run_keeps [OF this, of limited schedule] show "pool_inv items fn s"
    "length (workers s) = worker_count concurrency (length items)"
    unfolding s_def mapWithConcurrency_def by (simp_all add: pool_start_def)
qed

lemma worker_count_pos: "worker_count concurrency (length items) = 0 \<Longrightarrow> items = []"
  by (auto simp: worker_count_def min_def split: jsnum.splits if_splits)

lemma calling_le: "calling s \<le> length (workers s)"
  by (simp add: calling_def)

text \<open>
  C27: mapWithConcurrency behaves like Promise.all over the items, under every interleaving of its
  workers: it never has more calls in flight than workers, it calls fn at most once per item,
  when it fulfils it returns the results in the order of the items, and when it rejects it is
  with the error of one of them.
\<close>
theorem mapWithConcurrency_like_Promise_all:
  fixes s :: "'r pool"
  assumes "s = mapWithConcurrency items concurrency fn limited schedule"
  shows "calling s \<le> worker_count concurrency (length items) \<and>
    distinct (calls s) \<and> set (calls s) \<subseteq> {..<length items} \<and>
    (\<forall>rs. pool_outcome s = Some (Inr rs) \<longrightarrow> List.map fn items = List.map Inr rs) \<and>
    (\<forall>e. pool_outcome s = Some (Inl e) \<longrightarrow> Inl e \<in> set (List.map fn items))"
proof -
  have inv: "pool_inv items fn s" and len: "length (workers s) = worker_count concurrency (length items)"
    using plain_run assms by blast+
  have "workers s \<noteq> [] \<or> items = []" using len worker_count_pos by (cases "workers s") auto
  moreover have "distinct (calls s)" "set (calls s) \<subseteq> {..<length items}"
    using inv by (auto simp: pool_inv_def calls_ok_def results_ok_def)
  ultimately show ?thesis
    using pool_outcome_value [OF inv] pool_outcome_error [OF inv] calling_le [of s] len
    by (auto simp del: set_map)
qed

definition double_call :: "nat \<Rightarrow> (thrown, nat) result" where "double_call n = Inr (2 * n)"

lemma mapWithConcurrency_like_Promise_all_witness:
  "List.map double_call [5, 6, 7] = List.map Inr [10, 12, 14]"
proof -
  let ?s = "mapWithConcurrency [5, 6, 7] (Num 2) double_call False [0, 1, 1, 1, 0, 1, 0, 1, 0, 1]"
  have "pool_outcome ?s = Some (Inr [10, 12, 14])"
    by (simp add: mapWithConcurrency_def worker_count_def js_trunc_def pool_start_def pool_step_def take_index_def
        start_call_def store_result_def leave_loop_def pool_outcome_def double_call_def numeral_2_eq_2 numeral_3_eq_3)
  then show ?thesis using mapWithConcurrency_like_Promise_all [OF refl] by blast
qed

text \<open>
  The pools end: under every schedule made of enough rounds that each resume every worker
  (three per item plus one per worker), mapWithConcurrency has fulfilled or rejected.
\<close>
theorem mapWithConcurrency_settles:
  fixes fn :: "'a \<Rightarrow> (thrown, 'b) result"
  assumes "3 * length items + worker_count concurrency (length items) < length rounds"
    "\<forall>r \<in> set rounds. {..<worker_count concurrency (length items)} \<subseteq> set r"
  shows "pool_outcome (mapWithConcurrency items concurrency fn limited (concat rounds)) \<noteq> None"
proof -
  let ?k = "worker_count concurrency (length items)"
  let ?t = "pool_start ?k (length items) :: 'b pool"
  have inv: "pool_inv items fn ?t \<and> sleepless ?t"
    using pool_inv_start by (auto simp: sleepless_def pool_start_def list_all_iff)
  have w: "length (workers ?t) = ?k" by (simp add: pool_start_def)
  have "remaining (length items) ?t = 3 * length items + ?k"
    by (simp add: remaining_def pool_start_def sum_list_replicate)
  then have "remaining (length items) ?t < length rounds" using assms(1) by simp
  then have "list_all terminal (workers (fold (pool_step limited items fn) (concat rounds) ?t))"
    by (rule plain.fair_rounds_settle [OF inv]) (use assms(2) w in simp)
  then show ?thesis using settled_outcome [OF plain_run(1) [OF refl]] unfolding mapWithConcurrency_def by blast
qed

lemma mapWithConcurrency_settles_witness:
  "pool_outcome (mapWithConcurrency [5, 6, 7] (Num 2) double_call True (concat (replicate 12 [1, 0]))) \<noteq> None"
  by (rule mapWithConcurrency_settles) (auto simp: worker_count_def js_trunc_def)

lemma adaptive_start_ok:
  "pool_inv items fn (adaptive_start opts (length items)) \<and> limits_ok opts (adaptive_start opts (length items))"
  using bounds_order [of opts]
  by (auto simp: adaptive_start_def pool_inv_def results_ok_def claims_ok_def ends_ok_def calls_ok_def owned_def
      limits_ok_def calling_def sleepless_def list_all_iff)

text \<open>
  mapWithAdaptiveConcurrency keeps its limit between min and max and never has more than
  max calls in flight, it has the outcome of Promise.all over the items, and no wakeup is
  lost: enough fair rounds always settle it.
\<close>
theorem mapWithAdaptiveConcurrency_correct:
  fixes s :: "'r adaptive_pool" and items :: "'a list"
  assumes "s = mapWithAdaptiveConcurrency items opts fn elapsed (concat rounds)"
    "waiting_weight (length items) (adaptive_start opts (length items) :: 'r adaptive_pool) < length rounds"
    "\<forall>r \<in> set rounds. {..<length items} \<subseteq> set r"
  shows "lowest opts \<le> in_flight_limit s \<and> in_flight_limit s \<le> highest opts \<and> int (calling s) \<le> highest opts \<and>
    (case pool_outcome s of
       None \<Rightarrow> False
     | Some (Inr rs) \<Rightarrow> List.map fn items = List.map Inr rs
     | Some (Inl e) \<Rightarrow> Inl e \<in> set (List.map fn items))"
proof -
  let ?t = "adaptive_start opts (length items) :: 'r adaptive_pool"
  have t: "pool_inv items fn ?t \<and> limits_ok opts ?t" by (rule adaptive_start_ok)
  have len: "length (workers ?t) = nat (min (highest opts) (int (length items)))" by (simp add: adaptive_start_def)
  have s: "s = fold (adaptive_step opts items fn elapsed) (concat rounds) ?t"
    using assms(1) by (simp add: mapWithAdaptiveConcurrency_def)
  have keeps: "pool_inv items fn s" "limits_ok opts s" "length (workers s) = length (workers ?t)"
    using adaptive.run_keeps [OF t] unfolding s by blast+
  have "length (workers ?t) \<le> length items" by (auto simp: len)
  then have "\<forall>r \<in> set rounds. {..<length (workers ?t)} \<subseteq> set r" using assms(3) by fastforce
  then have "list_all terminal (workers s)"
    unfolding s by (rule adaptive.fair_rounds_settle [OF t assms(2)])
  then have "pool_outcome s \<noteq> None" by (rule settled_outcome [OF keeps(1)])
  moreover have "workers s \<noteq> [] \<or> items = []"
    using keeps(3) len bounds_order [of opts] by (cases "workers s") (auto simp: min_def split: if_splits)
  ultimately show ?thesis
    using keeps(2) pool_outcome_value [OF keeps(1)] pool_outcome_error [OF keeps(1)]
    by (auto simp: limits_ok_def simp del: set_map split: sum.splits)
qed

definition default_adaptive :: AdaptiveConcurrencyOptions where
  "default_adaptive = \<lparr> ao_initial = None, ao_min = None, ao_max = None, ao_targetLatencyMs = None \<rparr>"

lemma mapWithAdaptiveConcurrency_correct_witness:
  "pool_outcome (mapWithAdaptiveConcurrency [5, 6] default_adaptive double_call (\<lambda>_. 2000)
     (concat (replicate 25 [1, 0]))) \<noteq> None"
proof -
  have w: "waiting_weight (length [5::nat, 6]) (adaptive_start default_adaptive (length [5::nat, 6]) :: nat adaptive_pool)
      < length (replicate 25 [1::nat, 0])"
    by (simp add: waiting_weight_def adaptive_start_def default_adaptive_def highest_def lowest_def finiteOr_def
        DEFAULT_LIST_CONCURRENCY_def remaining_def numeral_2_eq_2)
  have "\<forall>r \<in> set (replicate 25 [1, 0]). {..<length [5::nat, 6]} \<subseteq> set r" by auto
  from mapWithAdaptiveConcurrency_correct [OF refl w this, of double_call "\<lambda>_. 2000"]
  show ?thesis by (auto split: option.splits)
qed

section \<open>The token bucket\<close>

record TokenBucket =
  tokens :: rat
  capacity :: rat
  rate :: rat
  last_refill :: rat

definition createTokenBucket :: "rat \<Rightarrow> rat \<Rightarrow> TokenBucket" where
  "createTokenBucket requestsPerSecond now =
    \<lparr> tokens = max 1 requestsPerSecond, capacity = max 1 requestsPerSecond, rate = requestsPerSecond,
      last_refill = now \<rparr>"

text \<open>One turn of the loop of takeToken: the refill, and either the token or the time to sleep.\<close>

definition refill :: "rat \<Rightarrow> TokenBucket \<Rightarrow> TokenBucket" where
  "refill now b = b \<lparr> tokens := min (capacity b) (tokens b + (now - last_refill b) / 1000 * rate b), last_refill := now \<rparr>"

definition takeToken_turn :: "rat \<Rightarrow> TokenBucket \<Rightarrow> rat option \<times> TokenBucket" where
  "takeToken_turn now b =
    (let b' = refill now b in
     if tokens b' \<ge> 1 then (None, b' \<lparr> tokens := tokens b' - 1 \<rparr>)
     else (Some ((1 - tokens b') / rate b' * 1000), b'))"

text \<open>The number of tokens granted by turns at the given times.\<close>

fun granted :: "rat list \<Rightarrow> TokenBucket \<Rightarrow> nat \<times> TokenBucket" where
  "granted [] b = (0, b)"
| "granted (t # ts) b =
    (let (sleeping, b') = takeToken_turn t b; (n, b'') = granted ts b'
     in (if sleeping = None then n + 1 else n, b''))"

lemma granted_bound:
  "0 \<le> rate b \<Longrightarrow> sorted (last_refill b # ts) \<Longrightarrow> tokens b \<le> capacity b \<Longrightarrow>
   of_nat (fst (granted ts b)) + tokens (snd (granted ts b)) \<le>
     tokens b + (last_refill (snd (granted ts b)) - last_refill b) / 1000 * rate b \<and>
   last_refill (snd (granted ts b)) = last (last_refill b # ts)"
proof (induction ts arbitrary: b)
  case (Cons t ts)
  obtain sl b' where turn: "takeToken_turn t b = (sl, b')" by (cases "takeToken_turn t b") blast
  have b': "rate b' = rate b" "last_refill b' = t" "capacity b' = capacity b" "tokens b' \<le> capacity b'"
    "(if sl = None then 1 else 0) + tokens b' \<le> tokens b + (t - last_refill b) / 1000 * rate b"
    using turn by (auto simp: takeToken_turn_def refill_def Let_def split: if_splits)
  have IH: "of_nat (fst (granted ts b')) + tokens (snd (granted ts b')) \<le>
      tokens b' + (last_refill (snd (granted ts b')) - t) / 1000 * rate b \<and>
      last_refill (snd (granted ts b')) = last (t # ts)"
    using Cons.IH [of b'] Cons.prems b' by auto
  have split: "(u - t) / 1000 * rate b + (t - last_refill b) / 1000 * rate b = (u - last_refill b) / 1000 * rate b" for u
    by (simp add: field_simps)
  show ?case
    using IH b'(5) split [of "last_refill (snd (granted ts b'))"] turn
    by (auto simp: Let_def case_prod_beta)
qed simp

lemma granted_tokens_nonneg: "0 \<le> rate b \<Longrightarrow> sorted (last_refill b # ts) \<Longrightarrow> 0 \<le> tokens b \<Longrightarrow> 0 \<le> capacity b \<Longrightarrow>
  0 \<le> tokens (snd (granted ts b))"
proof (induction ts arbitrary: b)
  case (Cons t ts)
  obtain sl b' where turn: "takeToken_turn t b = (sl, b')" by (cases "takeToken_turn t b") blast
  have "0 \<le> (t - last_refill b) / 1000 * rate b" using Cons.prems by simp
  then have "rate b' = rate b" "last_refill b' = t" "capacity b' = capacity b" "0 \<le> tokens b'"
    using turn Cons.prems by (auto simp: takeToken_turn_def refill_def Let_def split: if_splits)
  then show ?case using Cons.IH [of b'] Cons.prems turn by (auto simp: Let_def case_prod_beta)
qed simp

text \<open>
  requestsPerSecond is a real limit: in any run of takeToken turns at non-decreasing times the
  number of calls started up to a moment is at most the burst capacity plus the rate times the
  seconds elapsed; and a turn that has to sleep succeeds after the time it computed.
\<close>
theorem token_bucket_limits_rate:
  assumes "0 < rps" "sorted (t0 # ts)"
  shows "of_nat (fst (granted ts (createTokenBucket rps t0))) \<le> max 1 rps + (last (t0 # ts) - t0) / 1000 * rps \<and>
    (\<forall>b now ms b'. rate b = rps \<longrightarrow> 1 \<le> capacity b \<longrightarrow> takeToken_turn now b = (Some ms, b') \<longrightarrow>
       fst (takeToken_turn (now + ms) b') = None)"
proof (intro conjI allI impI)
  let ?b = "createTokenBucket rps t0"
  have b: "0 \<le> rate ?b" "sorted (last_refill ?b # ts)" "tokens ?b \<le> capacity ?b" "0 \<le> tokens ?b" "0 \<le> capacity ?b"
    using assms by (simp_all add: createTokenBucket_def)
  show "of_nat (fst (granted ts ?b)) \<le> max 1 rps + (last (t0 # ts) - t0) / 1000 * rps"
  proof -
    have f: "tokens ?b = max 1 rps" "rate ?b = rps" "last_refill ?b = t0" by (simp_all add: createTokenBucket_def)
    have "of_nat (fst (granted ts ?b)) + tokens (snd (granted ts ?b)) \<le> max 1 rps + (last (t0 # ts) - t0) / 1000 * rps"
      using granted_bound [OF b(1-3)] unfolding f by auto
    then show ?thesis using granted_tokens_nonneg [OF b(1,2,4,5)] by linarith
  qed
next
  fix b now ms b'
  assume a: "rate b = rps" "1 \<le> capacity b" "takeToken_turn now b = (Some ms, b')"
  then have "b' = refill now b" "ms = (1 - tokens b') / rps * 1000"
    by (auto simp: takeToken_turn_def refill_def Let_def split: if_splits)
  moreover from this have "tokens b' + ms / 1000 * rps = 1" using assms(1) by (simp add: field_simps)
  ultimately show "fst (takeToken_turn (now + ms) b') = None"
    using a by (simp add: takeToken_turn_def refill_def Let_def)
qed

lemma token_bucket_limits_rate_witness:
  "(of_nat (fst (granted [0, 100, 200, 1000] (createTokenBucket 2 0))) :: rat) \<le> 4"
  using token_bucket_limits_rate [of 2 0 "[0, 100, 200, 1000]", THEN conjunct1] by simp

end
