(* ===== verification/Coalesce.thy ===== *)
theory Coalesce
  imports StreamFi_Prelude
begin

text \<open>
  Request coalescing of src/coalesce-async.ts.  A promise is a number, its key and its
  status; the map of in-flight promises is a function from keys.  The reactions of a
  promise (promise.then) run with the step that settles it.
\<close>

section \<open>State and operations\<close>

datatype promise_status = Pending | Fulfilled | Rejected

record 'k coalescer =
  in_flight :: "'k \<Rightarrow> nat option"
  promises :: "('k \<times> promise_status) list"
  expiries :: "nat list"

definition empty_coalescer :: "'k coalescer" where
  "empty_coalescer = \<lparr> in_flight = (\<lambda>_. None), promises = [], expiries = [] \<rparr>"

text \<open>A request returns the promise the caller awaits; a new promise is one call of fn.\<close>

definition coalesce_request :: "'k \<Rightarrow> 'k coalescer \<Rightarrow> nat \<times> 'k coalescer" where
  "coalesce_request key s =
    (case in_flight s key of
       Some p \<Rightarrow> (p, s)
     | None \<Rightarrow> let p = length (promises s) in
         (p, s \<lparr> promises := promises s @ [(key, Pending)], in_flight := (in_flight s)(key \<mapsto> p) \<rparr>))"

definition evict :: "nat \<Rightarrow> 'k coalescer \<Rightarrow> 'k coalescer" where
  "evict p s = (let key = fst (promises s ! p) in
     if in_flight s key = Some p then s \<lparr> in_flight := (in_flight s)(key := None) \<rparr> else s)"

definition set_status :: "nat \<Rightarrow> promise_status \<Rightarrow> 'k coalescer \<Rightarrow> 'k coalescer" where
  "set_status p st s = s \<lparr> promises := (promises s)[p := (fst (promises s ! p), st)] \<rparr>"

definition is_pending :: "nat \<Rightarrow> 'k coalescer \<Rightarrow> bool" where
  "is_pending p s = (p < length (promises s) \<and> snd (promises s ! p) = Pending)"

definition window_open :: "jsnum option \<Rightarrow> bool" where
  "window_open windowMs = (case windowMs of Some (Num w) \<Rightarrow> w > 0 | _ \<Rightarrow> False)"

definition settle_async :: "jsnum option \<Rightarrow> nat \<Rightarrow> bool \<Rightarrow> 'k coalescer \<Rightarrow> 'k coalescer" where
  "settle_async windowMs p ok s =
    (if \<not> is_pending p s then s
     else if ok then
       let s1 = set_status p Fulfilled s
       in if window_open windowMs then s1 \<lparr> expiries := expiries s1 @ [p] \<rparr> else s1
     else evict p (set_status p Rejected s))"

definition expire :: "nat \<Rightarrow> 'k coalescer \<Rightarrow> 'k coalescer" where
  "expire p s =
    (if p \<in> set (expiries s) then evict p (s \<lparr> expiries := remove1 p (expiries s) \<rparr>) else s)"

definition settle_in_flight :: "nat \<Rightarrow> bool \<Rightarrow> 'k coalescer \<Rightarrow> 'k coalescer" where
  "settle_in_flight p ok s =
    (if \<not> is_pending p s then s else evict p (set_status p (if ok then Fulfilled else Rejected) s))"

section \<open>Runs\<close>

text \<open>A run of coalesceAsync and of coalesceInFlight on one map, as inductive sets of states.\<close>

inductive async_run :: "jsnum option \<Rightarrow> 'k coalescer \<Rightarrow> bool" for windowMs where
  a_start: "async_run windowMs empty_coalescer"
| a_request: "async_run windowMs s \<Longrightarrow> async_run windowMs (snd (coalesce_request key s))"
| a_settle: "async_run windowMs s \<Longrightarrow> async_run windowMs (settle_async windowMs p ok s)"
| a_expire: "async_run windowMs s \<Longrightarrow> async_run windowMs (expire p s)"

inductive in_flight_run :: "'k coalescer \<Rightarrow> bool" where
  f_start: "in_flight_run empty_coalescer"
| f_request: "in_flight_run s \<Longrightarrow> in_flight_run (snd (coalesce_request key s))"
| f_settle: "in_flight_run s \<Longrightarrow> in_flight_run (settle_in_flight p ok s)"

definition coalesce_inv :: "promise_status set \<Rightarrow> 'k coalescer \<Rightarrow> bool" where
  "coalesce_inv allowed s =
    ((\<forall>key p. in_flight s key = Some p \<longrightarrow>
        p < length (promises s) \<and> fst (promises s ! p) = key \<and> snd (promises s ! p) \<in> allowed) \<and>
     (\<forall>p. is_pending p s \<longrightarrow> in_flight s (fst (promises s ! p)) = Some p) \<and>
     (\<forall>p \<in> set (expiries s). p < length (promises s) \<and> snd (promises s ! p) = Fulfilled))"

lemma inv_empty: "coalesce_inv A empty_coalescer"
  by (simp add: coalesce_inv_def empty_coalescer_def is_pending_def)

lemma invD:
  assumes "coalesce_inv A s"
  shows cached: "in_flight s key = Some p \<Longrightarrow> p < length (promises s) \<and> fst (promises s ! p) = key \<and> snd (promises s ! p) \<in> A"
    and pending: "is_pending p s \<Longrightarrow> in_flight s (fst (promises s ! p)) = Some p"
    and expiring: "p \<in> set (expiries s) \<Longrightarrow> p < length (promises s) \<and> snd (promises s ! p) = Fulfilled"
  using assms by (simp_all add: coalesce_inv_def)

lemma inv_request:
  assumes "coalesce_inv A s" "Pending \<in> A" shows "coalesce_inv A (snd (coalesce_request key s))"
proof (cases "in_flight s key")
  case None
  let ?n = "length (promises s)"
  let ?t = "s \<lparr> promises := promises s @ [(key, Pending)], in_flight := (in_flight s)(key \<mapsto> ?n) \<rparr>"
  have old: "q < ?n \<Longrightarrow> promises ?t ! q = promises s ! q" for q by (simp add: nth_append)
  have "coalesce_inv A ?t"
    unfolding coalesce_inv_def
  proof (intro conjI allI impI ballI)
    fix k q assume a: "in_flight ?t k = Some q"
    have "q = ?n \<and> k = key \<or> in_flight s k = Some q" using a by (auto split: if_splits)
    then show "q < length (promises ?t)" "fst (promises ?t ! q) = k" "snd (promises ?t ! q) \<in> A"
      using cached [OF assms(1), of k q] old [of q] assms(2) by auto
  next
    fix q assume a: "is_pending q ?t"
    show "in_flight ?t (fst (promises ?t ! q)) = Some q"
    proof (cases "q = ?n")
      case False
      then have "q < ?n" "is_pending q s" using a old [of q] by (auto simp: is_pending_def)
      then show ?thesis using pending [OF assms(1), of q] old [of q] None by auto
    qed simp
  next
    fix q assume "q \<in> set (expiries ?t)"
    then show "q < length (promises ?t)" "snd (promises ?t ! q) = Fulfilled"
      using expiring [OF assms(1), of q] old [of q] by auto
  qed
  then show ?thesis using None by (simp add: coalesce_request_def Let_def)
qed (use assms in \<open>simp add: coalesce_request_def\<close>)

lemma status_nth:
  "is_pending p s \<Longrightarrow> promises (set_status p st s) ! q = (if q = p then (fst (promises s ! p), st) else promises s ! q)"
  by (auto simp: set_status_def is_pending_def nth_list_update)

lemma status_simps [simp]:
  "length (promises (set_status p st s)) = length (promises s)" "in_flight (set_status p st s) = in_flight s"
  "expiries (set_status p st s) = expiries s"
  by (simp_all add: set_status_def)

lemma evict_simps [simp]: "promises (evict p s) = promises s" "expiries (evict p s) = expiries s"
  by (simp_all add: evict_def Let_def)

lemma evict_lookup: "in_flight (evict p s) key = Some q \<longleftrightarrow>
    in_flight s key = Some q \<and> (q \<noteq> p \<or> key \<noteq> fst (promises s ! p))"
  by (auto simp: evict_def Let_def)

lemma inv_settled:
  assumes "coalesce_inv A s" "is_pending p s" "st \<noteq> Pending"
  shows "coalesce_inv A (evict p (set_status p st s))"
    "st \<in> A \<Longrightarrow> coalesce_inv A (set_status p st s)"
proof -
  note nth = status_nth [OF assms(2), of st]
  have exp: "q < length (promises s)" "snd (promises (set_status p st s) ! q) = Fulfilled" if "q \<in> set (expiries s)" for q
    using expiring [OF assms(1) that] assms(2) by (auto simp: nth is_pending_def)
  have pend: "is_pending q (set_status p st s) \<Longrightarrow> q \<noteq> p \<and> in_flight s (fst (promises s ! q)) = Some q" for q
    using pending [OF assms(1), of q] assms(3) by (auto simp: is_pending_def nth split: if_splits)
  have pend2: "is_pending q (evict p (set_status p st s)) = is_pending q (set_status p st s)" for q
    by (simp add: is_pending_def)
  show "coalesce_inv A (evict p (set_status p st s))"
    unfolding coalesce_inv_def
  proof (intro conjI allI impI ballI)
    fix key q assume "in_flight (evict p (set_status p st s)) key = Some q"
    then have "in_flight s key = Some q" "q \<noteq> p"
      using cached [OF assms(1), of key q] by (auto simp: evict_lookup nth)
    then show "q < length (promises (evict p (set_status p st s)))"
      "fst (promises (evict p (set_status p st s)) ! q) = key" "snd (promises (evict p (set_status p st s)) ! q) \<in> A"
      using cached [OF assms(1), of key q] by (simp_all add: nth)
  next
    fix q assume "is_pending q (evict p (set_status p st s))"
    then show "in_flight (evict p (set_status p st s)) (fst (promises (evict p (set_status p st s)) ! q)) = Some q"
      using pend [of q] by (simp add: pend2 evict_lookup nth)
  qed (simp_all add: exp)
  show "coalesce_inv A (set_status p st s)" if "st \<in> A"
    unfolding coalesce_inv_def
  proof (intro conjI allI impI ballI)
    fix key q assume "in_flight (set_status p st s) key = Some q"
    then show "q < length (promises (set_status p st s))" "fst (promises (set_status p st s) ! q) = key"
      "snd (promises (set_status p st s) ! q) \<in> A"
      using cached [OF assms(1), of key q] that by (auto simp: nth)
  next
    fix q assume "is_pending q (set_status p st s)"
    then show "in_flight (set_status p st s) (fst (promises (set_status p st s) ! q)) = Some q"
      using pend [of q] by (simp add: nth)
  qed (simp_all add: exp)
qed

lemma inv_settle_async: "coalesce_inv {Pending, Fulfilled} s \<Longrightarrow> coalesce_inv {Pending, Fulfilled} (settle_async w p ok s)"
proof (cases "is_pending p s")
  case True
  assume s: "coalesce_inv {Pending, Fulfilled} s"
  have "coalesce_inv {Pending, Fulfilled} (set_status p Fulfilled s)" using inv_settled(2) [OF s True] by simp
  moreover have "snd (promises (set_status p Fulfilled s) ! p) = Fulfilled" "p < length (promises (set_status p Fulfilled s))"
    using True by (auto simp: set_status_def is_pending_def)
  ultimately have "coalesce_inv {Pending, Fulfilled}
      (set_status p Fulfilled s \<lparr> expiries := expiries (set_status p Fulfilled s) @ [p] \<rparr>)"
    by (auto simp: coalesce_inv_def is_pending_def)
  then show ?thesis using True inv_settled [OF s True] by (auto simp: settle_async_def Let_def)
qed (simp add: settle_async_def)

lemma inv_expire:
  assumes "coalesce_inv A s" shows "coalesce_inv A (expire p s)"
proof (cases "p \<in> set (expiries s)")
  case True
  let ?t = "s \<lparr> expiries := remove1 p (expiries s) \<rparr>"
  have notp: "\<not> is_pending p s" using expiring [OF assms True] by (simp add: is_pending_def)
  have same: "is_pending q (evict p ?t) = is_pending q s" for q by (simp add: is_pending_def)
  have "coalesce_inv A (evict p ?t)"
    unfolding coalesce_inv_def
  proof (intro conjI allI impI ballI)
    fix key q assume "in_flight (evict p ?t) key = Some q"
    then show "q < length (promises (evict p ?t))" "fst (promises (evict p ?t) ! q) = key"
      "snd (promises (evict p ?t) ! q) \<in> A"
      using cached [OF assms, of key q] by (simp_all add: evict_lookup)
  next
    fix q assume "is_pending q (evict p ?t)"
    then show "in_flight (evict p ?t) (fst (promises (evict p ?t) ! q)) = Some q"
      using pending [OF assms, of q] notp by (auto simp: same evict_lookup)
  next
    fix q assume "q \<in> set (expiries (evict p ?t))"
    then have "q \<in> set (expiries s)" using set_remove1_subset by fastforce
    then show "q < length (promises (evict p ?t))" "snd (promises (evict p ?t) ! q) = Fulfilled"
      using expiring [OF assms, of q] by simp_all
  qed
  then show ?thesis using True by (simp add: expire_def)
qed (use assms in \<open>simp add: expire_def\<close>)

lemma inv_settle_in_flight: "coalesce_inv {Pending} s \<Longrightarrow> coalesce_inv {Pending} (settle_in_flight p ok s)"
  using inv_settled(1) [of "{Pending}" s p] by (auto simp: settle_in_flight_def)

lemma one_pending:
  "coalesce_inv A s \<Longrightarrow> is_pending p s \<Longrightarrow> is_pending q s \<Longrightarrow> fst (promises s ! p) = fst (promises s ! q) \<Longrightarrow> p = q"
  using pending [of A s p] pending [of A s q] by (metis option.inject)

lemma request_status:
  assumes "coalesce_inv A s" "Pending \<in> A" "coalesce_request key s = (p, s')"
  shows "p < length (promises s') \<and> fst (promises s' ! p) = key \<and> snd (promises s' ! p) \<in> A"
  using cached [OF assms(1), of key] assms(2,3)
  by (cases "in_flight s key") (auto simp: coalesce_request_def Let_def)

section \<open>Properties\<close>

text \<open>
  coalesceInFlight collapses concurrent reads: however requests and settlements interleave,
  at most one call per key is in flight, and a request is always answered with a promise of its
  own key that is still pending, never with a settled value.
\<close>
theorem coalesceInFlight_single_flight:
  assumes "in_flight_run s" "is_pending p s" "is_pending q s" "fst (promises s ! p) = fst (promises s ! q)"
    "coalesce_request key s = (r, s')"
  shows "p = q \<and> is_pending r s' \<and> fst (promises s' ! r) = key"
proof -
  from assms(1) have inv: "coalesce_inv {Pending} s"
    by (induction rule: in_flight_run.induct) (simp_all add: inv_empty inv_request inv_settle_in_flight)
  show ?thesis
    using one_pending [OF inv assms(2-4)] request_status [OF inv _ assms(5)] by (simp add: is_pending_def)
qed

lemma coalesceInFlight_single_flight_witness:
  "fst (coalesce_request ''a'' (snd (coalesce_request ''a'' empty_coalescer))) = 0 \<and>
   is_pending 0 (snd (coalesce_request ''a'' (snd (coalesce_request ''a'' empty_coalescer))))"
proof -
  let ?s = "snd (coalesce_request ''a'' empty_coalescer)"
  have run: "in_flight_run ?s" by (rule f_request [OF f_start])
  have pend: "is_pending 0 ?s" "fst (coalesce_request ''a'' ?s) = 0"
    by (simp_all add: coalesce_request_def empty_coalescer_def is_pending_def Let_def)
  show ?thesis
    using coalesceInFlight_single_flight [OF run pend(1) pend(1) refl, of "''a''" 0 "snd (coalesce_request ''a'' ?s)"] pend(2)
    by (metis prod.collapse)
qed

text \<open>
  coalesceAsync never hands out a failed fetch: at most one call per key is pending and the
  promise a request gets is pending or fulfilled, of its own key, whatever the reuse window.
\<close>
theorem coalesceAsync_no_failed_reuse:
  assumes "async_run windowMs s" "is_pending p s" "is_pending q s" "fst (promises s ! p) = fst (promises s ! q)"
    "coalesce_request key s = (r, s')"
  shows "p = q \<and> snd (promises s' ! r) \<noteq> Rejected \<and> fst (promises s' ! r) = key"
proof -
  from assms(1) have inv: "coalesce_inv {Pending, Fulfilled} s"
    by (induction rule: async_run.induct) (simp_all add: inv_empty inv_request inv_settle_async inv_expire)
  show ?thesis
    using one_pending [OF inv assms(2-4)] request_status [OF inv _ assms(5)] by auto
qed

lemma coalesceAsync_no_failed_reuse_witness:
  "snd (promises (snd (coalesce_request ''b'' (snd (coalesce_request ''a'' empty_coalescer)))) !
     fst (coalesce_request ''b'' (snd (coalesce_request ''a'' empty_coalescer)))) \<noteq> Rejected"
proof -
  let ?s = "snd (coalesce_request ''a'' empty_coalescer)"
  have run: "async_run None ?s" by (rule a_request [OF a_start])
  have pend: "is_pending 0 ?s" by (simp add: coalesce_request_def empty_coalescer_def is_pending_def Let_def)
  show ?thesis
    using coalesceAsync_no_failed_reuse [OF run pend pend refl, of "''b''" "fst (coalesce_request ''b'' ?s)"
        "snd (coalesce_request ''b'' ?s)"] by simp
qed

end
