(* ===== verification/Circuit.thy ===== *)
theory Circuit
  imports Errors
begin

text \<open>
  The shared circuit breaker of src/rpc-circuit-state.ts.  The module-level maps are one
  state record; what listeners are told is a log of events, newest last.  The clock in
  milliseconds is an argument of every operation.
\<close>

section \<open>State\<close>

datatype CircuitState = Closed | Open | HalfOpen

record CircuitStatus =
  cs_state :: CircuitState
  failureCount :: nat
  lastFailureAt :: "int option"
  lastSuccessAt :: "int option"
  cooldownUntil :: "int option"

datatype circuit_event = Notified string CircuitStatus | Transition string CircuitState CircuitState

record circuit_state =
  circuits :: "string \<Rightarrow> CircuitStatus option"
  circuit_log :: "circuit_event list"

definition initial_circuits :: circuit_state where
  "initial_circuits = \<lparr> circuits = (\<lambda>_. None), circuit_log = [] \<rparr>"

definition closed_status :: CircuitStatus where
  "closed_status = \<lparr> cs_state = Closed, failureCount = 0, lastFailureAt = None, lastSuccessAt = None,
     cooldownUntil = None \<rparr>"

definition DEFAULT_THRESHOLD :: nat where "DEFAULT_THRESHOLD = 5"
definition DEFAULT_COOLDOWN_MS :: int where "DEFAULT_COOLDOWN_MS = 30000"

definition notifyListeners :: "string \<Rightarrow> CircuitStatus \<Rightarrow> circuit_state \<Rightarrow> circuit_state" where
  "notifyListeners scope status s = s \<lparr> circuit_log := circuit_log s @ [Notified scope status] \<rparr>"

definition emitTransition :: "string \<Rightarrow> CircuitState \<Rightarrow> CircuitState \<Rightarrow> circuit_state \<Rightarrow> circuit_state" where
  "emitTransition scope from_state to_state s =
    (if from_state = to_state then s
     else s \<lparr> circuit_log := circuit_log s @ [Transition scope from_state to_state] \<rparr>)"

definition put_circuit :: "string \<Rightarrow> CircuitStatus \<Rightarrow> circuit_state \<Rightarrow> circuit_state" where
  "put_circuit scope e s = s \<lparr> circuits := (circuits s)(scope \<mapsto> e) \<rparr>"

section \<open>Operations\<close>

definition cooled_down :: "int \<Rightarrow> CircuitStatus \<Rightarrow> bool" where
  "cooled_down now e = (cs_state e = Open \<and>
     (case cooldownUntil e of Some t \<Rightarrow> t \<noteq> 0 \<and> now \<ge> t | None \<Rightarrow> False))"

definition getCircuitState :: "int \<Rightarrow> string \<Rightarrow> circuit_state \<Rightarrow> CircuitStatus \<times> circuit_state" where
  "getCircuitState now scope s =
    (case circuits s scope of
       None \<Rightarrow> (closed_status, s)
     | Some e \<Rightarrow>
         if cooled_down now e then
           let e' = e \<lparr> cs_state := HalfOpen \<rparr>
           in (e', emitTransition scope Open HalfOpen (notifyListeners scope e' (put_circuit scope e' s)))
         else (e, s))"

definition recordSuccess :: "int \<Rightarrow> string \<Rightarrow> circuit_state \<Rightarrow> circuit_state" where
  "recordSuccess now scope s =
    (case circuits s scope of
       None \<Rightarrow> s
     | Some _ \<Rightarrow>
         let (e, s1) = getCircuitState now scope s;
             e' = e \<lparr> failureCount := 0, lastSuccessAt := Some now, cs_state := Closed, cooldownUntil := None \<rparr>;
             s2 = put_circuit scope e' s1
         in if cs_state e \<noteq> Closed
            then emitTransition scope (cs_state e) Closed (notifyListeners scope e' s2)
            else s2)"

definition recordFailure :: "int \<Rightarrow> nat option \<Rightarrow> int option \<Rightarrow> string \<Rightarrow> circuit_state \<Rightarrow> circuit_state" where
  "recordFailure now threshold cooldownMs scope s =
    (let thr = (case threshold of Some n \<Rightarrow> n | None \<Rightarrow> DEFAULT_THRESHOLD);
         cool = (case cooldownMs of Some n \<Rightarrow> n | None \<Rightarrow> DEFAULT_COOLDOWN_MS);
         s0 = (case circuits s scope of None \<Rightarrow> put_circuit scope closed_status s | Some _ \<Rightarrow> s);
         (e, s1) = getCircuitState now scope s0
     in if cs_state e = HalfOpen then
          let e' = e \<lparr> cs_state := Open, failureCount := failureCount e + 1, lastFailureAt := Some now,
                      cooldownUntil := Some (now + cool) \<rparr>;
              s2 = put_circuit scope e' s1;
              (st, s3) = getCircuitState now scope s2
          in emitTransition scope HalfOpen Open (notifyListeners scope st s3)
        else
          let e1 = e \<lparr> failureCount := failureCount e + 1, lastFailureAt := Some now \<rparr>;
              e' = (if failureCount e1 \<ge> thr then e1 \<lparr> cs_state := Open, cooldownUntil := Some (now + cool) \<rparr> else e1);
              s2 = put_circuit scope e' s1
          in if cs_state e' \<noteq> cs_state e
             then let (st, s3) = getCircuitState now scope s2
                  in emitTransition scope (cs_state e) (cs_state e') (notifyListeners scope st s3)
             else s2)"

definition resetCircuit :: "int \<Rightarrow> string \<Rightarrow> circuit_state \<Rightarrow> circuit_state" where
  "resetCircuit now scope s =
    (case circuits s scope of
       None \<Rightarrow> s \<lparr> circuits := (circuits s)(scope := None) \<rparr>
     | Some _ \<Rightarrow>
         let (e, s1) = getCircuitState now scope s;
             s2 = s1 \<lparr> circuits := (circuits s1)(scope := None) \<rparr>
         in emitTransition scope (cs_state e) Closed (notifyListeners scope closed_status s2))"

text \<open>
  RpcCircuitBreaker.execute: what the race of the operation and the timer yields, and the
  records it makes.  A call is started unless the circuit is open.
\<close>

datatype 'a race_outcome = Returned 'a | Rejected thrown | Timed_out

datatype execute_error = Circuit_open string | Call_failed thrown | Rpc_timeout string int

definition DEFAULT_TIMEOUT_THRESHOLD :: nat where "DEFAULT_TIMEOUT_THRESHOLD = 3"

definition breaker_execute ::
    "nat option \<Rightarrow> int option \<Rightarrow> string \<Rightarrow> int \<Rightarrow> int \<Rightarrow> int \<Rightarrow> 'a race_outcome \<Rightarrow> circuit_state
      \<Rightarrow> (execute_error, 'a) result \<times> bool \<times> circuit_state" where
  "breaker_execute threshold cooldownMs scope timeoutMs startMs endMs outcome s =
    (let thr = (case threshold of Some n \<Rightarrow> n | None \<Rightarrow> DEFAULT_TIMEOUT_THRESHOLD);
         cool = (case cooldownMs of Some n \<Rightarrow> n | None \<Rightarrow> DEFAULT_COOLDOWN_MS);
         (e, s1) = getCircuitState startMs scope s
     in if cs_state e = Open then (Inl (Circuit_open scope), False, s1)
        else case outcome of
          Returned a \<Rightarrow> (Inr a, True, recordSuccess endMs scope s1)
        | Timed_out \<Rightarrow> (Inl (Rpc_timeout scope timeoutMs), True, recordFailure endMs (Some thr) (Some cool) scope s1)
        | Rejected err \<Rightarrow> (Inl (Call_failed err), True, recordSuccess endMs scope s1))"

section \<open>Reachable states\<close>

datatype circuit_op = Read_state int string | Success int string
  | Failure int "nat option" "int option" string | Reset int string

fun circuit_step :: "circuit_op \<Rightarrow> circuit_state \<Rightarrow> circuit_state" where
  "circuit_step (Read_state now scope) s = snd (getCircuitState now scope s)"
| "circuit_step (Success now scope) s = recordSuccess now scope s"
| "circuit_step (Failure now thr cool scope) s = recordFailure now thr cool scope s"
| "circuit_step (Reset now scope) s = resetCircuit now scope s"

text \<open>Clocks are epoch milliseconds, and a cooldown is a positive time.\<close>

fun op_ok :: "circuit_op \<Rightarrow> bool" where
  "op_ok (Failure now thr cool scope) = (0 < now \<and> (case cool of Some c \<Rightarrow> 0 < c | None \<Rightarrow> True))"
| "op_ok _ = True"

inductive circuit_reachable :: "circuit_state \<Rightarrow> bool" where
  init: "circuit_reachable initial_circuits"
| step: "circuit_reachable s \<Longrightarrow> op_ok opn \<Longrightarrow> circuit_reachable (circuit_step opn s)"

text \<open>The state a subscriber reconstructs from the transitions of one scope, if they chain.\<close>

fun follow :: "string \<Rightarrow> CircuitState option \<Rightarrow> circuit_event \<Rightarrow> CircuitState option" where
  "follow scope st (Transition sc f t) =
    (if sc \<noteq> scope then st else if st = Some f then Some t else None)"
| "follow scope st (Notified _ _) = st"

definition replay :: "string \<Rightarrow> circuit_event list \<Rightarrow> CircuitState option" where
  "replay scope evs = foldl (follow scope) (Some Closed) evs"

definition state_of :: "string \<Rightarrow> circuit_state \<Rightarrow> CircuitState" where
  "state_of scope s = (case circuits s scope of Some e \<Rightarrow> cs_state e | None \<Rightarrow> Closed)"

definition log_ok :: "circuit_state \<Rightarrow> bool" where
  "log_ok s = (\<forall>scope. replay scope (circuit_log s) = Some (state_of scope s))"

lemma replay_snoc [simp]: "replay scope (evs @ [ev]) = follow scope (replay scope evs) ev"
  by (simp add: replay_def)

lemma state_of_put [simp]: "state_of sc (put_circuit scope e s) = (if sc = scope then cs_state e else state_of sc s)"
  by (simp add: state_of_def put_circuit_def)

lemma log_put [simp]: "circuit_log (put_circuit scope e s) = circuit_log s"
  by (simp add: put_circuit_def)

lemma state_of_log [simp]:
  "state_of sc (notifyListeners scope st s) = state_of sc s"
  "state_of sc (emitTransition scope f t s) = state_of sc s"
  by (simp_all add: state_of_def notifyListeners_def emitTransition_def)

lemma replay_notify [simp]: "replay sc (circuit_log (notifyListeners scope st s)) = replay sc (circuit_log s)"
  by (simp add: notifyListeners_def)

lemma replay_emit:
  "replay sc (circuit_log (emitTransition scope f t s)) =
    (if sc = scope \<and> f \<noteq> t then (if replay sc (circuit_log s) = Some f then Some t else None)
     else replay sc (circuit_log s))"
  by (simp add: emitTransition_def)

lemma get_facts:
  "getCircuitState now scope s = (e, s') \<Longrightarrow>
   cs_state e = state_of scope s' \<and> (\<forall>sc. sc \<noteq> scope \<longrightarrow> state_of sc s' = state_of sc s) \<and>
   (log_ok s \<longrightarrow> log_ok s') \<and> (circuits s scope \<noteq> None \<longrightarrow> circuits s' scope = Some e)"
  by (auto simp: getCircuitState_def log_ok_def replay_emit state_of_def closed_status_def Let_def cooled_down_def
      split: option.splits if_splits)
     (auto simp: put_circuit_def notifyListeners_def emitTransition_def)

lemma log_okD: "log_ok s \<Longrightarrow> replay sc (circuit_log s) = Some (state_of sc s)"
  by (simp add: log_ok_def)

lemma log_ok_put_same: "log_ok s \<Longrightarrow> cs_state e = state_of scope s \<Longrightarrow> log_ok (put_circuit scope e s)"
  by (simp add: log_ok_def)

lemma log_ok_move:
  assumes "log_ok s" "f = state_of scope s" "f \<noteq> cs_state e"
  shows "log_ok (emitTransition scope f (cs_state e) (notifyListeners scope st (put_circuit scope e s)))"
  using assms by (auto simp: log_ok_def replay_emit)

lemma get_not_cooled: "circuits s scope = Some e \<Longrightarrow> \<not> cooled_down now e \<Longrightarrow> getCircuitState now scope s = (e, s)"
  by (simp add: getCircuitState_def)

lemma circuits_put [simp]: "circuits (put_circuit scope e s) scope = Some e"
  by (simp add: put_circuit_def)

lemma log_ok_success:
  assumes "log_ok s" shows "log_ok (recordSuccess now scope s)"
proof (cases "circuits s scope")
  case (Some x)
  obtain e s1 where g: "getCircuitState now scope s = (e, s1)" by (cases "getCircuitState now scope s") blast
  have f: "cs_state e = state_of scope s1" "log_ok s1" using get_facts [OF g] assms by auto
  let ?e = "e \<lparr> failureCount := 0, lastSuccessAt := Some now, cs_state := Closed, cooldownUntil := None \<rparr>"
  have c: "cs_state ?e = Closed" by simp
  show ?thesis
    using Some g f log_ok_put_same [of s1 ?e scope] log_ok_move [of s1 "cs_state e" scope ?e]
    by (simp add: recordSuccess_def Let_def)
qed (use assms in \<open>simp add: recordSuccess_def\<close>)

lemma log_ok_failure:
  assumes "log_ok s" "op_ok (Failure now thr cool scope)"
  shows "log_ok (recordFailure now thr cool scope s)"
proof -
  let ?cool = "case cool of Some n \<Rightarrow> n | None \<Rightarrow> DEFAULT_COOLDOWN_MS"
  have pos: "0 < ?cool" "0 < now" using assms(2) by (auto simp: DEFAULT_COOLDOWN_MS_def split: option.splits)
  let ?s0 = "case circuits s scope of None \<Rightarrow> put_circuit scope closed_status s | Some _ \<Rightarrow> s"
  have s0: "log_ok ?s0" "circuits ?s0 scope \<noteq> None"
    using assms(1) by (auto simp: log_ok_put_same state_of_def closed_status_def split: option.split)
  obtain e s1 where g: "getCircuitState now scope ?s0 = (e, s1)" by (cases "getCircuitState now scope ?s0") blast
  have f: "cs_state e = state_of scope s1" "log_ok s1" "circuits s1 scope = Some e"
    using get_facts [OF g] s0 by auto
  have hot: "\<not> cooled_down now (x \<lparr> cooldownUntil := Some (now + ?cool) \<rparr>)" for x :: CircuitStatus
    using pos by (simp add: cooled_down_def)
  let ?h = "e \<lparr> cs_state := Open, failureCount := failureCount e + 1, lastFailureAt := Some now,
                      cooldownUntil := Some (now + ?cool) \<rparr>"
  let ?e1 = "e \<lparr> failureCount := failureCount e + 1, lastFailureAt := Some now \<rparr>"
  let ?e2 = "?e1 \<lparr> cs_state := Open, cooldownUntil := Some (now + ?cool) \<rparr>"
  have gh: "getCircuitState now scope (put_circuit scope ?h s1) = (?h, put_circuit scope ?h s1)"
    using hot [of "e \<lparr> cs_state := Open, failureCount := failureCount e + 1, lastFailureAt := Some now \<rparr>"]
    by (intro get_not_cooled) simp_all
  have g2: "getCircuitState now scope (put_circuit scope ?e2 s1) = (?e2, put_circuit scope ?e2 s1)"
    using hot [of "?e1 \<lparr> cs_state := Open \<rparr>"] by (intro get_not_cooled) simp_all
  have mh: "cs_state e \<noteq> Open \<Longrightarrow> log_ok (emitTransition scope (cs_state e) Open (notifyListeners scope ?h (put_circuit scope ?h s1)))"
    using log_ok_move [of s1 "cs_state e" scope ?h] f by simp
  have mh2: "cs_state e \<noteq> Open \<Longrightarrow> log_ok (emitTransition scope (cs_state e) Open (notifyListeners scope ?e2 (put_circuit scope ?e2 s1)))"
    using log_ok_move [of s1 "cs_state e" scope ?e2] f by simp
  have m1: "log_ok (put_circuit scope ?e1 s1)" using log_ok_put_same [of s1 ?e1 scope] f by simp
  have m2: "cs_state e = Open \<Longrightarrow> log_ok (put_circuit scope ?e2 s1)" using log_ok_put_same [of s1 ?e2 scope] f by simp
  show ?thesis
  proof (cases "cs_state e")
    case Closed
    then show ?thesis using g g2 mh2 m1 by (auto simp: recordFailure_def Let_def)
  next
    case Open
    then show ?thesis using g g2 m1 m2 by (auto simp: recordFailure_def Let_def)
  next
    case HalfOpen
    then show ?thesis using g gh mh by (auto simp: recordFailure_def Let_def)
  qed
qed

lemma log_ok_reset:
  assumes "log_ok s" shows "log_ok (resetCircuit now scope s)"
proof (cases "circuits s scope")
  case None
  then have "(circuits s)(scope := None) = circuits s" by auto
  with None assms show ?thesis by (simp add: resetCircuit_def)
next
  case (Some x)
  obtain e s1 where g: "getCircuitState now scope s = (e, s1)" by (cases "getCircuitState now scope s") blast
  have f: "cs_state e = state_of scope s1" "log_ok s1" using get_facts [OF g] assms by auto
  have st: "state_of sc (s1 \<lparr> circuits := (circuits s1)(scope := None) \<rparr>) = (if sc = scope then Closed else state_of sc s1)" for sc
    by (simp add: state_of_def)
  show ?thesis
    using Some g log_okD [OF f(2)] unfolding f(1)
    by (simp add: resetCircuit_def Let_def log_ok_def replay_emit st f(1))
qed

lemma log_ok_step: "log_ok s \<Longrightarrow> op_ok opn \<Longrightarrow> log_ok (circuit_step opn s)"
proof (cases opn)
  case (Read_state now scope)
  assume "log_ok s"
  moreover obtain e s1 where "getCircuitState now scope s = (e, s1)" by (cases "getCircuitState now scope s") blast
  ultimately show ?thesis using get_facts [of now scope s e s1] Read_state by simp
qed (auto simp: log_ok_success log_ok_failure log_ok_reset)

text \<open>The effect of one failure on the entry of its scope.\<close>

definition failed_run :: "nat \<Rightarrow> int \<Rightarrow> string \<Rightarrow> int list \<Rightarrow> circuit_state" where
  "failed_run thr cool scope ts = foldl (\<lambda>s t. recordFailure t (Some thr) (Some cool) scope s) initial_circuits ts"

lemma failed_run_entry:
  assumes "0 < thr" "0 < cool" "list_all (\<lambda>t. 0 < t) ts" "ts \<noteq> []"
  shows "\<exists>e. circuits (failed_run thr cool scope ts) scope = Some e \<and> failureCount e = length ts \<and>
    (if length ts < thr then cs_state e = Closed
     else cs_state e = Open \<and> cooldownUntil e = Some (last ts + cool))"
  using assms(3,4)
proof (induction ts rule: rev_induct)
  case (snoc t ts)
  let ?s = "failed_run thr cool scope ts"
  have run: "failed_run thr cool scope (ts @ [t]) = recordFailure t (Some thr) (Some cool) scope ?s"
    by (simp add: failed_run_def)
  have hot: "\<not> cooled_down t (x \<lparr> cooldownUntil := Some (t + cool) \<rparr>)" for x :: CircuitStatus
    using assms(2) by (simp add: cooled_down_def)
  show ?case
  proof (cases "ts = []")
    case True
    then show ?thesis using assms(1,2)
      by (auto simp: failed_run_def recordFailure_def initial_circuits_def getCircuitState_def cooled_down_def
          closed_status_def put_circuit_def Let_def notifyListeners_def emitTransition_def)
  next
    case False
    then obtain e where e: "circuits ?s scope = Some e" "failureCount e = length ts"
      "if length ts < thr then cs_state e = Closed else cs_state e = Open \<and> cooldownUntil e = Some (last ts + cool)"
      using snoc by auto
    show ?thesis
    proof (cases "cooled_down t e")
      case True
      then have "\<not> length ts < thr" using e(3) by (auto simp: cooled_down_def)
      then show ?thesis using True e hot assms(1)
        by (auto simp: run recordFailure_def getCircuitState_def Let_def put_circuit_def notifyListeners_def
            emitTransition_def cooled_down_def split: prod.splits)
    next
      case F: False
      have nh: "cs_state e \<noteq> HalfOpen" using e(3) by (auto split: if_splits)
      show ?thesis using F e hot nh assms(1,2)
        by (auto simp: run recordFailure_def getCircuitState_def Let_def put_circuit_def notifyListeners_def
            emitTransition_def cooled_down_def split: prod.splits if_splits)
    qed
  qed
qed simp

section \<open>Properties\<close>

text \<open>
  C36: Listeners never lose track: in every state the operations can reach, following the
  recorded transitions of a scope from closed goes from state to state without a gap and
  ends in the state the scope is really in.
\<close>
theorem circuit_transitions_complete:
  assumes "circuit_reachable s"
  shows "replay scope (circuit_log s) = Some (state_of scope s)"
proof -
  from assms have "log_ok s"
  proof (induction rule: circuit_reachable.induct)
    case init
    show ?case by (simp add: log_ok_def initial_circuits_def replay_def state_of_def)
  qed (rule log_ok_step)
  then show ?thesis by (rule log_okD)
qed

lemma circuit_transitions_complete_witness:
  "replay ''r'' (circuit_log (circuit_step (Failure 1 (Some 1) None ''r'') initial_circuits)) = Some Open"
proof -
  let ?s = "circuit_step (Failure 1 (Some 1) None ''r'') initial_circuits"
  have "circuit_reachable ?s" by (rule circuit_reachable.step [OF circuit_reachable.init]) simp
  then have "replay ''r'' (circuit_log ?s) = Some (state_of ''r'' ?s)" by (rule circuit_transitions_complete)
  then show ?thesis
    by (simp add: recordFailure_def initial_circuits_def getCircuitState_def Let_def closed_status_def
        put_circuit_def cooled_down_def state_of_def notifyListeners_def emitTransition_def DEFAULT_COOLDOWN_MS_def)
qed

text \<open>
  The breaker opens exactly at its threshold and probes exactly after its cooldown: after n
  consecutive failures a reading is closed while n is below the threshold, open until the
  cooldown since the last failure has passed, and half-open from then on; an open circuit
  refuses a call without starting it.
\<close>
theorem circuit_opens_at_threshold:
  fixes thr :: nat and cool :: int and scope :: string and ts :: "int list"
  assumes "0 < thr" "0 < cool" "list_all (\<lambda>t. 0 < t) ts" "ts \<noteq> []"
  defines "s \<equiv> failed_run thr cool scope ts"
  shows "cs_state (fst (getCircuitState now scope s)) =
      (if length ts < thr then Closed else if now < last ts + cool then Open else HalfOpen) \<and>
    (thr \<le> length ts \<and> now < last ts + cool \<longrightarrow>
      fst (snd (breaker_execute (Some thr) (Some cool) scope timeout now fin outcome s)) = False)"
proof -
  obtain e where e: "circuits s scope = Some e"
    "if length ts < thr then cs_state e = Closed else cs_state e = Open \<and> cooldownUntil e = Some (last ts + cool)"
    using failed_run_entry [OF assms(1-4), of scope] unfolding s_def by blast
  have "0 < last ts" using assms(3,4) by (auto simp: list_all_iff)
  then have "last ts + cool \<noteq> 0" using assms(2) by simp
  then show ?thesis using e
    by (auto simp: getCircuitState_def cooled_down_def breaker_execute_def Let_def not_less split: if_splits)
qed

lemma circuit_opens_at_threshold_witness:
  "cs_state (fst (getCircuitState 2000 ''r'' (failed_run 3 1000 ''r'' [10, 20, 1500]))) = Open"
  using circuit_opens_at_threshold [of 3 1000 "[10, 20, 1500]" 2000 "''r''" 0 0 Timed_out, THEN conjunct1]
  by simp

end
