(* ===== verification/Retry.thy ===== *)
theory Retry
  imports Circuit
begin

text \<open>
  withRetry of src/with-retry.ts.  The attempts of the loop are numbered from 0; what the
  surroundings answer at attempt n (the operation, the abort signal, the random number and
  the clock) is a record of functions of n.  A run yields the result, the number of times
  the operation was started and the onRetry reports, oldest first.  Waiting times are
  rationals in milliseconds.
\<close>

section \<open>Options and surroundings\<close>

datatype jitter_strategy = NoJitter | FullJitter | EqualJitter | DecorrelatedJitter

record WithRetryOptions =
  maxRetries :: int
  baseDelayMs :: rat
  backoffFactor :: rat
  maxDelayMs :: rat
  jitter :: jitter_strategy
  shouldRetry :: "thrown \<Rightarrow> bool"
  circuitScope :: "string option"

record 'a retry_env =
  call_result :: "nat \<Rightarrow> (thrown \<times> string option, 'a) result"
  aborted_at :: "nat \<Rightarrow> bool"
  aborted_in_sleep :: "nat \<Rightarrow> bool"
  random :: "nat \<Rightarrow> rat"
  clock :: "nat \<Rightarrow> int"
  date_parse :: "string \<Rightarrow> int option"

record retry_report =
  r_attempt :: nat
  r_delayMs :: rat
  r_error :: thrown

definition isRateLimitError :: "thrown \<Rightarrow> bool" where
  "isRateLimitError err = (case err_class err of Some (RateLimitError _) \<Rightarrow> True | _ \<Rightarrow> False)"

definition isTransientRpcError :: "thrown \<Rightarrow> bool" where
  "isTransientRpcError err =
    (case err_class err of
       Some (RateLimitError _) \<Rightarrow> True
     | Some StreamFiNetworkError \<Rightarrow> True
     | Some (RpcServiceUnavailableError _) \<Rightarrow> True
     | _ \<Rightarrow> False)"

definition default_retry_options :: WithRetryOptions where
  "default_retry_options = \<lparr> maxRetries = 3, baseDelayMs = 500, backoffFactor = 2, maxDelayMs = 30000,
     jitter = FullJitter, shouldRetry = isRateLimitError, circuitScope = None \<rparr>"

definition applyJitter :: "rat \<Rightarrow> jitter_strategy \<Rightarrow> rat \<Rightarrow> rat \<Rightarrow> rat" where
  "applyJitter delayMs strategy prevDelayMs r =
    (case strategy of
       FullJitter \<Rightarrow> of_int \<lfloor>r * (delayMs + 1)\<rfloor>
     | EqualJitter \<Rightarrow> (let half = delayMs / 2 in of_int \<lfloor>half + r * half\<rfloor>)
     | DecorrelatedJitter \<Rightarrow> (let m = max delayMs (prevDelayMs * 2) in of_int \<lfloor>r * (m + 1)\<rfloor>)
     | NoJitter \<Rightarrow> delayMs)"

definition classified :: "'a retry_env \<Rightarrow> nat \<Rightarrow> thrown \<times> string option \<Rightarrow> thrown" where
  "classified env n raised =
    (case fromRpcError (date_parse env) (clock env n) (snd raised) (fst raised) of
       Some e \<Rightarrow> e | None \<Rightarrow> fst raised)"

definition retryAfterMs :: "thrown \<Rightarrow> rat option" where
  "retryAfterMs err = (case err_class err of Some (RateLimitError ms) \<Rightarrow> ms | _ \<Rightarrow> None)"

section \<open>The loop\<close>

function retry_loop ::
    "WithRetryOptions \<Rightarrow> 'a retry_env \<Rightarrow> nat \<Rightarrow> rat \<Rightarrow> rat \<Rightarrow> nat \<Rightarrow> retry_report list
      \<Rightarrow> (thrown, 'a) result \<times> nat \<times> retry_report list" where
  "retry_loop opts env attempt delay prevDelay calls reports =
    (if int attempt > maxRetries opts then (Inl (plain_error ''withRetry exhausted all retries''), calls, reports)
     else if aborted_at env attempt then (Inl (plain_error ''withRetry aborted''), calls, reports)
     else case call_result env attempt of
       Inr a \<Rightarrow> (Inr a, calls + 1, reports)
     | Inl raised \<Rightarrow>
         let err = classified env attempt raised in
         if int attempt = maxRetries opts \<or> \<not> shouldRetry opts err then (Inl err, calls + 1, reports)
         else
           let baseWait = (case retryAfterMs err of Some ms \<Rightarrow> ms | None \<Rightarrow> delay);
               clampedWait = min baseWait (maxDelayMs opts);
               waitTime = applyJitter clampedWait (jitter opts) prevDelay (random env attempt);
               reports' = reports @ [\<lparr> r_attempt = attempt + 1, r_delayMs = waitTime, r_error = err \<rparr>]
           in if aborted_in_sleep env attempt
              then (Inl (plain_error ''withRetry sleep aborted''), calls + 1, reports')
              else retry_loop opts env (attempt + 1) (min (delay * backoffFactor opts) (maxDelayMs opts)) waitTime
                     (calls + 1) reports')"
  by pat_completeness auto
termination
  by (relation "measure (\<lambda>(opts, env, attempt, _). nat (maxRetries opts + 1 - int attempt))") auto

declare retry_loop.simps [simp del]

definition em_dash :: string where "em_dash = [CHR 0xE2, CHR 0x80, CHR 0x94]"

definition circuit_open_error :: "int \<Rightarrow> string \<Rightarrow> int option \<Rightarrow> thrown" where
  "circuit_open_error now scope until =
    new_error (CircuitOpenError scope until)
      (''Circuit for '' @ apostrophe @ scope @ apostrophe @ '' is open'' @
       (case until of Some t \<Rightarrow> '' '' @ em_dash @ '' retrying in '' @ show_int (max 0 (t - now)) @ ''ms'' | None \<Rightarrow> []) @
       ''. Failing fast instead of retrying.'')"

definition withRetry ::
    "WithRetryOptions \<Rightarrow> bool \<Rightarrow> int \<Rightarrow> 'a retry_env \<Rightarrow> circuit_state
      \<Rightarrow> ((thrown, 'a) result \<times> nat \<times> retry_report list) \<times> circuit_state" where
  "withRetry opts aborted0 now env cs =
    (if aborted0 then ((Inl (plain_error ''withRetry aborted before first attempt''), 0, []), cs)
     else case circuitScope opts of
       None \<Rightarrow> (retry_loop opts env 0 (baseDelayMs opts) (baseDelayMs opts) 0 [], cs)
     | Some scope \<Rightarrow>
         let (circuit, cs') = getCircuitState now scope cs
         in if cs_state circuit = Open
            then ((Inl (circuit_open_error now scope (cooldownUntil circuit)), 0, []), cs')
            else (retry_loop opts env 0 (baseDelayMs opts) (baseDelayMs opts) 0 [], cs'))"

section \<open>The decisive attempt\<close>

definition decisive :: "WithRetryOptions \<Rightarrow> 'a retry_env \<Rightarrow> nat \<Rightarrow> bool" where
  "decisive opts env n =
    (case call_result env n of
       Inr _ \<Rightarrow> True
     | Inl raised \<Rightarrow> int n = maxRetries opts \<or> \<not> shouldRetry opts (classified env n raised))"

definition outcome_at :: "'a retry_env \<Rightarrow> nat \<Rightarrow> (thrown, 'a) result" where
  "outcome_at env n =
    (case call_result env n of Inr a \<Rightarrow> Inr a | Inl raised \<Rightarrow> Inl (classified env n raised))"

definition failure_at :: "'a retry_env \<Rightarrow> nat \<Rightarrow> thrown" where
  "failure_at env n = (case outcome_at env n of Inl e \<Rightarrow> e | Inr _ \<Rightarrow> ThrownString [])"

definition never_aborted :: "'a retry_env \<Rightarrow> bool" where
  "never_aborted env = (aborted_at env = (\<lambda>_. False) \<and> aborted_in_sleep env = (\<lambda>_. False))"

lemma loop_decisive:
  "never_aborted env \<Longrightarrow> int n \<le> maxRetries opts \<Longrightarrow> decisive opts env n \<Longrightarrow>
   retry_loop opts env n d p c rs = (outcome_at env n, c + 1, rs)"
  by (subst retry_loop.simps)
     (auto simp: decisive_def never_aborted_def outcome_at_def Let_def split: sum.splits)

definition wait_of :: "WithRetryOptions \<Rightarrow> 'a retry_env \<Rightarrow> nat \<Rightarrow> rat \<Rightarrow> rat \<Rightarrow> rat" where
  "wait_of opts env n delay prevDelay =
    applyJitter (min (case retryAfterMs (failure_at env n) of Some ms \<Rightarrow> ms | None \<Rightarrow> delay) (maxDelayMs opts))
      (jitter opts) prevDelay (random env n)"

definition report_at :: "WithRetryOptions \<Rightarrow> 'a retry_env \<Rightarrow> nat \<Rightarrow> rat \<Rightarrow> rat \<Rightarrow> retry_report" where
  "report_at opts env n d p = \<lparr> r_attempt = n + 1, r_delayMs = wait_of opts env n d p, r_error = failure_at env n \<rparr>"

lemma loop_next:
  assumes "\<not> aborted_at env n" "\<not> aborted_in_sleep env n" "int n \<le> maxRetries opts" "\<not> decisive opts env n"
  shows "retry_loop opts env n d p c rs =
      retry_loop opts env (n + 1) (min (d * backoffFactor opts) (maxDelayMs opts)) (wait_of opts env n d p) (c + 1)
        (rs @ [report_at opts env n d p])"
  using assms
  by (subst retry_loop.simps)
     (auto simp: decisive_def outcome_at_def failure_at_def wait_of_def report_at_def Let_def split: sum.splits)

lemma decisive_exists:
  assumes "0 \<le> maxRetries opts"
  shows "\<exists>k. decisive opts env k \<and> int k \<le> maxRetries opts \<and> (\<forall>j < k. \<not> decisive opts env j)"
proof -
  have "decisive opts env (nat (maxRetries opts))" using assms by (auto simp: decisive_def split: sum.split)
  then have "decisive opts env (LEAST k. decisive opts env k)"
    "(LEAST k. decisive opts env k) \<le> nat (maxRetries opts)" by (auto intro: LeastI Least_le)
  then show ?thesis using assms by (intro exI [of _ "LEAST k. decisive opts env k"]) (auto dest: not_less_Least)
qed

lemma loop_to_decisive:
  assumes "never_aborted env" "decisive opts env k" "int k \<le> maxRetries opts" "\<forall>j < k. \<not> decisive opts env j" "n \<le> k"
  shows "\<exists>new. retry_loop opts env n d p c rs = (outcome_at env k, c + (k - n) + 1, rs @ new) \<and>
     map r_attempt new = [n + 1..<k + 1] \<and> map r_error new = map (failure_at env) [n..<k]"
  using assms(5)
proof (induction "k - n" arbitrary: n d p c rs)
  case 0
  then have "n = k" by simp
  then show ?case using loop_decisive [of env k opts] assms by simp
next
  case (Suc m)
  then have n: "n < k" "m = k - (n + 1)" "n + 1 \<le> k" by simp_all
  then have "\<not> decisive opts env n" "int n \<le> maxRetries opts" using assms(3,4) by auto
  then have step: "retry_loop opts env n d p c rs = retry_loop opts env (n + 1)
      (min (d * backoffFactor opts) (maxDelayMs opts)) (wait_of opts env n d p) (c + 1) (rs @ [report_at opts env n d p])"
    using assms(1) by (intro loop_next) (auto simp: never_aborted_def)
  obtain new where new: "retry_loop opts env n d p c rs = (outcome_at env k, c + (k - n) + 1,
      rs @ report_at opts env n d p # new)"
    "map r_attempt new = [n + 2..<k + 1]" "map r_error new = map (failure_at env) [n + 1..<k]"
    using Suc(1) [OF n(2,3), of "min (d * backoffFactor opts) (maxDelayMs opts)" "wait_of opts env n d p" "c + 1"
        "rs @ [report_at opts env n d p]"] step n by auto

  show ?case
    by (rule exI [of _ "report_at opts env n d p # new"])
       (use n in \<open>simp add: new report_at_def upt_conv_Cons [of n k] upt_conv_Cons [of "Suc n" "Suc k"] del: upt_Suc\<close>)
qed

section \<open>Waiting times\<close>

lemma loop_cases:
  obtains (stop) res c' where "retry_loop opts env n d p c rs = (res, c', rs)" "c' \<le> c + 1" "int n \<le> maxRetries opts \<or> c' = c"
  | (asleep) "int n < maxRetries opts"
      "retry_loop opts env n d p c rs = (Inl (plain_error ''withRetry sleep aborted''), c + 1, rs @ [report_at opts env n d p])"
  | (again) "int n < maxRetries opts"
      "retry_loop opts env n d p c rs =
        retry_loop opts env (n + 1) (min (d * backoffFactor opts) (maxDelayMs opts)) (wait_of opts env n d p) (c + 1)
          (rs @ [report_at opts env n d p])"
proof -
  consider "int n > maxRetries opts" | "int n \<le> maxRetries opts" "aborted_at env n"
    | "int n \<le> maxRetries opts" "\<not> aborted_at env n" "decisive opts env n"
    | "int n \<le> maxRetries opts" "\<not> aborted_at env n" "\<not> decisive opts env n" "aborted_in_sleep env n"
    | "int n \<le> maxRetries opts" "\<not> aborted_at env n" "\<not> decisive opts env n" "\<not> aborted_in_sleep env n"
    by linarith
  then show thesis
  proof cases
    case 1
    then have "retry_loop opts env n d p c rs = (Inl (plain_error ''withRetry exhausted all retries''), c, rs)"
      by (subst retry_loop.simps) simp
    then show thesis using stop by simp
  next
    case 2
    then have "retry_loop opts env n d p c rs = (Inl (plain_error ''withRetry aborted''), c, rs)"
      by (subst retry_loop.simps) simp
    then show thesis using stop by simp
  next
    case 3
    then have "retry_loop opts env n d p c rs = (outcome_at env n, c + 1, rs)"
      by (subst retry_loop.simps) (auto simp: decisive_def outcome_at_def Let_def split: sum.splits)
    then show thesis using stop 3 by simp
  next
    case 4
    then have "retry_loop opts env n d p c rs =
        (Inl (plain_error ''withRetry sleep aborted''), c + 1, rs @ [report_at opts env n d p])"
      by (subst retry_loop.simps)
         (auto simp: decisive_def outcome_at_def failure_at_def wait_of_def report_at_def Let_def split: sum.splits)
    moreover have "int n < maxRetries opts" using 4 by (force simp: decisive_def split: sum.splits)
    ultimately show thesis using asleep by blast
  next
    case 5
    moreover have "int n < maxRetries opts" using 5 by (force simp: decisive_def split: sum.splits)
    ultimately show thesis using again loop_next by blast
  qed
qed

definition bounded_wait :: "WithRetryOptions \<Rightarrow> retry_report \<Rightarrow> bool" where
  "bounded_wait opts r = (0 \<le> r_delayMs r \<and> r_delayMs r \<le> maxDelayMs opts)"

lemma floor_scaled:
  fixes r x :: rat and m :: int
  assumes "0 \<le> r" "r < 1" "0 \<le> x" "x \<le> of_int m"
  shows "0 \<le> \<lfloor>r * (x + 1)\<rfloor> \<and> \<lfloor>r * (x + 1)\<rfloor> \<le> m"
proof -
  have "r * (x + 1) < 1 * (x + 1)" using assms by (intro mult_strict_right_mono) simp_all
  also have "1 * (x + 1) \<le> of_int (m + 1)" using assms by simp
  finally have "r * (x + 1) < of_int (m + 1)" .
  then have "\<lfloor>r * (x + 1)\<rfloor> < m + 1" by (rule iffD2 [OF floor_less_iff])
  then show ?thesis using assms by simp
qed

lemma floor_half:
  fixes r x :: rat and m :: int
  assumes "0 \<le> r" "r < 1" "0 \<le> x" "x \<le> of_int m"
  shows "0 \<le> \<lfloor>x / 2 + r * (x / 2)\<rfloor> \<and> \<lfloor>x / 2 + r * (x / 2)\<rfloor> \<le> m"
proof -
  have "r * (x / 2) \<le> 1 * (x / 2)" using assms by (intro mult_right_mono) simp_all
  then have "x / 2 + r * (x / 2) \<le> of_int m" using assms by simp
  then have "\<lfloor>x / 2 + r * (x / 2)\<rfloor> \<le> m" by (simp add: floor_le_iff)
  then show ?thesis using assms by simp
qed

definition sane_env :: "'a retry_env \<Rightarrow> bool" where
  "sane_env env = (\<forall>n. 0 \<le> random env n \<and> random env n < 1 \<and>
     (case retryAfterMs (failure_at env n) of Some ms \<Rightarrow> 0 \<le> ms | None \<Rightarrow> True))"

lemma wait_bounded:
  assumes "sane_env env" "jitter opts \<noteq> DecorrelatedJitter" "maxDelayMs opts = of_int m" "0 \<le> m" "0 \<le> d"
  shows "0 \<le> wait_of opts env n d p \<and> wait_of opts env n d p \<le> maxDelayMs opts"
proof -
  let ?w = "min (case retryAfterMs (failure_at env n) of Some ms \<Rightarrow> ms | None \<Rightarrow> d) (of_int m)"
  have r: "0 \<le> random env n" "random env n < 1" using assms(1) by (auto simp: sane_env_def)
  have w: "0 \<le> ?w" "?w \<le> of_int m"
    using assms by (auto simp: sane_env_def split: option.splits dest: spec [of _ n])
  show ?thesis
    using floor_scaled [OF r w] floor_half [OF r w] w assms(2,3)
    by (cases "jitter opts") (simp_all add: wait_of_def applyJitter_def Let_def)
qed

lemma loop_bounded:
  assumes "sane_env env" "jitter opts \<noteq> DecorrelatedJitter" "maxDelayMs opts = of_int m" "0 \<le> m" "0 \<le> backoffFactor opts"
  shows "0 \<le> d \<Longrightarrow> list_all (bounded_wait opts) rs \<Longrightarrow>
    list_all (bounded_wait opts) (snd (snd (retry_loop opts env n d p c rs)))"
proof (induction "nat (maxRetries opts - int n)" arbitrary: n d p c rs rule: less_induct)
  case less
  have w: "bounded_wait opts (report_at opts env n d p)"
    using wait_bounded [OF assms(1-4) less(2)] by (simp add: bounded_wait_def report_at_def)
  show ?case
  proof (cases rule: loop_cases [of opts env n d p c rs])
    case (stop res c')
    then show ?thesis using less by simp
  next
    case asleep
    then show ?thesis using less w by simp
  next
    case again
    have "0 \<le> min (d * backoffFactor opts) (maxDelayMs opts)" using less(2) assms by simp
    then show ?thesis using again less(1) [of "n + 1"] less(3) w by simp
  qed
qed

lemma loop_calls:
  "int (fst (snd (retry_loop opts env n d p c rs))) \<le> int c + max 0 (maxRetries opts - int n + 1)"
proof (induction "nat (maxRetries opts - int n)" arbitrary: n d p c rs rule: less_induct)
  case less
  show ?case
  proof (cases rule: loop_cases [of opts env n d p c rs])
    case again
    then show ?thesis using less [of "n + 1" "min (d * backoffFactor opts) (maxDelayMs opts)"
        "wait_of opts env n d p" "c + 1" "rs @ [report_at opts env n d p]"] by simp
  qed auto
qed

text \<open>Without jitter and without Retry-After the delays are the capped geometric sequence.\<close>

definition backoff :: "WithRetryOptions \<Rightarrow> nat \<Rightarrow> rat" where
  "backoff opts n = min (baseDelayMs opts * backoffFactor opts ^ n) (maxDelayMs opts)"

lemma backoff_step:
  assumes "1 \<le> backoffFactor opts" "0 \<le> maxDelayMs opts" "min d (maxDelayMs opts) = backoff opts n"
  shows "min (d * backoffFactor opts) (maxDelayMs opts) = backoff opts (n + 1)"
proof -
  let ?f = "backoffFactor opts" and ?m = "maxDelayMs opts" and ?b = "baseDelayMs opts * backoffFactor opts ^ n"
  have grow: "?m \<le> x \<Longrightarrow> ?m \<le> x * ?f" for x
  proof -
    assume a: "?m \<le> x"
    then have "x * 1 \<le> x * ?f" using assms by (intro mult_left_mono) simp_all
    then show ?thesis using a by simp
  qed
  have "d = ?b \<or> ?m \<le> d \<and> ?m \<le> ?b" using assms(3) by (auto simp: backoff_def min_def split: if_splits)
  moreover have "backoff opts (n + 1) = min (?b * ?f) ?m" by (simp add: backoff_def ac_simps)
  ultimately show ?thesis using grow [of d] grow [of ?b] by auto
qed

lemma loop_schedule:
  assumes "never_aborted env" "decisive opts env k" "int k \<le> maxRetries opts" "\<forall>j < k. \<not> decisive opts env j"
    "jitter opts = NoJitter" "1 \<le> backoffFactor opts" "0 \<le> maxDelayMs opts"
    "\<forall>j < k. retryAfterMs (failure_at env j) = None"
    "n \<le> k" "min d (maxDelayMs opts) = backoff opts n"
  shows "map r_delayMs (snd (snd (retry_loop opts env n d p c rs))) = map r_delayMs rs @ map (backoff opts) [n..<k]"
  using assms(9,10)
proof (induction "k - n" arbitrary: n d p c rs)
  case 0
  then have "n = k" by simp
  then show ?case using loop_decisive [of env k opts] assms by simp
next
  case (Suc m)
  then have n: "n < k" "m = k - (n + 1)" "n + 1 \<le> k" by simp_all
  then have step: "retry_loop opts env n d p c rs = retry_loop opts env (n + 1)
      (min (d * backoffFactor opts) (maxDelayMs opts)) (wait_of opts env n d p) (c + 1) (rs @ [report_at opts env n d p])"
    using assms(1,3,4) by (intro loop_next) (auto simp: never_aborted_def)
  have b: "min (d * backoffFactor opts) (maxDelayMs opts) = backoff opts (n + 1)"
    by (rule backoff_step [OF assms(6,7) Suc(4)])
  have w: "r_delayMs (report_at opts env n d p) = backoff opts n"
    using assms(5,8) n Suc(4) by (simp add: report_at_def wait_of_def applyJitter_def)
  show ?case
    using Suc(1) [OF n(2,3), of "min (d * backoffFactor opts) (maxDelayMs opts)" "wait_of opts env n d p" "c + 1"
        "rs @ [report_at opts env n d p]"] n
    by (simp add: step b w upt_conv_Cons [of n k] backoff_def)
qed

section \<open>Properties\<close>

definition circuit_admits :: "WithRetryOptions \<Rightarrow> int \<Rightarrow> circuit_state \<Rightarrow> bool" where
  "circuit_admits opts now cs =
    (case circuitScope opts of None \<Rightarrow> True | Some scope \<Rightarrow> cs_state (fst (getCircuitState now scope cs)) \<noteq> Open)"

lemma withRetry_admitted:
  "circuit_admits opts now cs \<Longrightarrow>
   fst (withRetry opts False now env cs) = retry_loop opts env 0 (baseDelayMs opts) (baseDelayMs opts) 0 []"
  by (auto simp: withRetry_def circuit_admits_def split: option.splits prod.splits)

lemma withRetry_refused:
  "\<not> circuit_admits opts now cs \<Longrightarrow> fst (snd (fst (withRetry opts False now env cs))) = 0 \<and>
   snd (snd (fst (withRetry opts False now env cs))) = []"
  by (auto simp: withRetry_def circuit_admits_def split: option.splits prod.splits)

text \<open>
  An uninterrupted withRetry behind a circuit that is not open starts the operation
  until the first decisive attempt (a success, an error that is not to be retried, or attempt
  maxRetries), at most maxRetries + 1 times; it returns the outcome of exactly that attempt,
  and it reports every earlier failure once, numbered from 1.
\<close>
theorem withRetry_decides:
  assumes "0 \<le> maxRetries opts" "never_aborted env" "circuit_admits opts now cs"
  shows "\<exists>k rs. decisive opts env k \<and> int k \<le> maxRetries opts \<and> (\<forall>j \<in> {0..<k}. \<not> decisive opts env j) \<and>
    fst (withRetry opts False now env cs) = (outcome_at env k, k + 1, rs) \<and>
    map r_attempt rs = [1..<k + 1] \<and> map r_error rs = map (failure_at env) [0..<k]"
proof -
  obtain k where k: "decisive opts env k" "int k \<le> maxRetries opts" "\<forall>j < k. \<not> decisive opts env j"
    using decisive_exists [OF assms(1)] by blast
  obtain new where
    "retry_loop opts env 0 (baseDelayMs opts) (baseDelayMs opts) 0 [] = (outcome_at env k, k + 1, new)"
    "map r_attempt new = [1..<k + 1]" "map r_error new = map (failure_at env) [0..<k]"
    using loop_to_decisive [OF assms(2) k, of 0 "baseDelayMs opts" "baseDelayMs opts" 0 "[]"] by auto
  then show ?thesis using k by (intro exI [of _ k] exI [of _ new]) (simp add: withRetry_admitted [OF assms(3)])
qed

definition flaky_env :: "nat \<Rightarrow> string retry_env" where
  "flaky_env m = \<lparr> call_result = (\<lambda>n. if n < m
       then Inl (ErrorObject PlainError ''busy'' None None (Some 429) None, None) else Inr ''ok''),
     aborted_at = (\<lambda>_. False), aborted_in_sleep = (\<lambda>_. False), random = (\<lambda>_. 1 / 2), clock = (\<lambda>_. 0),
     date_parse = (\<lambda>_. None) \<rparr>"

lemma flaky_failure: "classified (flaky_env m) n (ErrorObject PlainError ''busy'' None None (Some 429) None, None) =
  new_error (RateLimitError None) ''RPC node rate limit exceeded (429). Back off and retry against the same endpoint.''"
  by (simp add: classified_def flaky_env_def fromRpcError_def parseRetryAfterMs_def)

lemma flaky_decisive: "decisive default_retry_options (flaky_env m) n \<longleftrightarrow> m \<le> n \<or> n = 3"
  using flaky_failure [of m n]
  by (auto simp: decisive_def flaky_env_def default_retry_options_def isRateLimitError_def new_error_def)

lemma withRetry_decides_witness:
  "fst (snd (fst (withRetry default_retry_options False 0 (flaky_env 2) initial_circuits))) = 3"
proof -
  have "0 \<le> maxRetries default_retry_options" "never_aborted (flaky_env 2)"
    "circuit_admits default_retry_options 0 initial_circuits"
    by (simp_all add: default_retry_options_def never_aborted_def flaky_env_def circuit_admits_def)
  from withRetry_decides [OF this] obtain k rs where k: "decisive default_retry_options (flaky_env 2) k"
    "\<forall>j \<in> {0..<k}. \<not> decisive default_retry_options (flaky_env 2) j"
    "fst (withRetry default_retry_options False 0 (flaky_env 2) initial_circuits) = (outcome_at (flaky_env 2) k, k + 1, rs)"
    by blast
  from k(1,2) have "k = 2" unfolding flaky_decisive by force
  with k(3) show ?thesis by simp
qed

text \<open>
  Whatever aborts and circuits do, withRetry never starts the operation more than
  maxRetries + 1 times, and with the none, full and equal jitters every announced wait lies
  between 0 and the whole-millisecond cap; an open circuit starts it not at all.
\<close>
theorem withRetry_bounded:
  assumes "0 \<le> maxRetries opts" "sane_env env" "jitter opts \<noteq> DecorrelatedJitter"
    "maxDelayMs opts = of_int m" "0 \<le> m" "0 \<le> baseDelayMs opts" "0 \<le> backoffFactor opts"
  shows "int (fst (snd (fst (withRetry opts aborted0 now env cs)))) \<le>
      (if aborted0 \<or> \<not> circuit_admits opts now cs then 0 else maxRetries opts + 1) \<and>
    list_all (bounded_wait opts) (snd (snd (fst (withRetry opts aborted0 now env cs))))"
proof (cases "aborted0 \<or> \<not> circuit_admits opts now cs")
  case True
  then show ?thesis using withRetry_refused [of opts now cs env] by (cases aborted0) (auto simp: withRetry_def)
next
  case False
  then have "fst (withRetry opts aborted0 now env cs) = retry_loop opts env 0 (baseDelayMs opts) (baseDelayMs opts) 0 []"
    using withRetry_admitted by (cases aborted0) auto
  then show ?thesis
    using False assms(1) loop_calls [of opts env 0 "baseDelayMs opts" "baseDelayMs opts" 0 "[]"]
      loop_bounded [OF assms(2-5,7,6), of "[]" 0 "baseDelayMs opts" 0] by simp
qed

lemma flaky_sane: "sane_env (flaky_env m)"
  using flaky_failure [of m]
  by (auto simp: sane_env_def failure_at_def outcome_at_def flaky_env_def retryAfterMs_def new_error_def)

lemma withRetry_bounded_witness:
  "fst (snd (fst (withRetry default_retry_options False 0 (flaky_env 9) initial_circuits))) \<le> 4"
  using withRetry_bounded [of default_retry_options "flaky_env 9" 30000 False 0 initial_circuits, OF _ flaky_sane]
  by (simp add: default_retry_options_def circuit_admits_def)

text \<open>
  Without jitter and without Retry-After the announced waits are exactly the geometric
  backoff base, base * factor, base * factor^2, ..., each cut at maxDelayMs, one per
  failed attempt before the decisive one.
\<close>
theorem withRetry_backoff_schedule:
  assumes "never_aborted env" "circuit_admits opts now cs" "jitter opts = NoJitter" "1 \<le> backoffFactor opts"
    "0 \<le> maxDelayMs opts" "decisive opts env k" "int k \<le> maxRetries opts"
    "\<forall>j \<in> {0..<k}. \<not> decisive opts env j \<and> retryAfterMs (failure_at env j) = None"
  shows "map r_delayMs (snd (snd (fst (withRetry opts False now env cs)))) =
    map (\<lambda>n. min (baseDelayMs opts * backoffFactor opts ^ n) (maxDelayMs opts)) [0..<k]"
proof -
  have "map r_delayMs (snd (snd (retry_loop opts env 0 (baseDelayMs opts) (baseDelayMs opts) 0 []))) =
      map r_delayMs [] @ map (backoff opts) [0..<k]"
    using assms(8) loop_schedule [OF assms(1,6,7) _ assms(3-5), of 0 "baseDelayMs opts" "baseDelayMs opts" 0 "[]"]
    by (simp add: backoff_def)
  then show ?thesis using backoff_def [of opts] by (simp add: withRetry_admitted [OF assms(2)])
qed

lemma withRetry_backoff_schedule_witness:
  "map r_delayMs (snd (snd (fst (withRetry (default_retry_options \<lparr> jitter := NoJitter \<rparr>) False 0 (flaky_env 3)
     initial_circuits)))) = [500, 1000, 2000]"
proof -
  let ?o = "default_retry_options \<lparr> jitter := NoJitter \<rparr>"
  have dec: "decisive ?o (flaky_env 3) n = decisive default_retry_options (flaky_env 3) n" for n
    by (simp add: decisive_def split: sum.split)
  have none: "retryAfterMs (failure_at (flaky_env 3) n) = None" if "n < 3" for n
    using that flaky_failure [of 3 n]
    by (auto simp: failure_at_def outcome_at_def flaky_env_def retryAfterMs_def new_error_def)
  have "map r_delayMs (snd (snd (fst (withRetry ?o False 0 (flaky_env 3) initial_circuits)))) =
    map (\<lambda>n. min (baseDelayMs ?o * backoffFactor ?o ^ n) (maxDelayMs ?o)) [0..<3]"
    using none by (intro withRetry_backoff_schedule)
      (auto simp: dec flaky_decisive circuit_admits_def never_aborted_def,
       auto simp: default_retry_options_def flaky_env_def)
  then show ?thesis by (simp add: default_retry_options_def upt_rec)
qed

text \<open>
  Two waits that the options do not suggest: the decorrelated jitter may exceed the cap, and
  the default jitter may wait less than the server's Retry-After.
\<close>

lemma decorrelated_exceeds_cap: "applyJitter (min 1000 1000) DecorrelatedJitter 1000 (9 / 10) = 1800"
  by (simp add: applyJitter_def Let_def floor_eq_iff)

lemma full_jitter_undercuts_retry_after: "applyJitter (min 5000 30000) FullJitter 500 0 = 0"
  by (simp add: applyJitter_def)

end
