(* ===== verification/Sc_Values.thy ===== *)
theory Sc_Values
  imports Errors Stream_Math
begin

text \<open>
  Contract values (ScVal) and the readers and encoders of src/soroban.ts, the stream
  snapshot parser of src/streams.ts, and the salt of src/factory.ts.  A value has the
  constructors the SDK inspects; integers have the width of their arm.  Reading the
  wrong arm of a union throws the TypeError of the XDR runtime.
\<close>

section \<open>Contract values\<close>

datatype sc_val =
    ScvVoid
  | ScvBool bool
  | ScvU32 "32 word"
  | ScvU64 "64 word"
  | ScvI128 "64 word" "64 word"
  | ScvSymbol string
  | ScvString string
  | ScvAddress string
  | ScvVec "sc_val list option"
  | ScvMap "(sc_val \<times> sc_val) list option"
  | ScvOther string

fun switch_name :: "sc_val \<Rightarrow> string" where
  "switch_name ScvVoid = ''scvVoid''"
| "switch_name (ScvBool _) = ''scvBool''"
| "switch_name (ScvU32 _) = ''scvU32''"
| "switch_name (ScvU64 _) = ''scvU64''"
| "switch_name (ScvI128 _ _) = ''scvI128''"
| "switch_name (ScvSymbol _) = ''scvSymbol''"
| "switch_name (ScvString _) = ''scvString''"
| "switch_name (ScvAddress _) = ''scvAddress''"
| "switch_name (ScvVec _) = ''scvVec''"
| "switch_name (ScvMap _) = ''scvMap''"
| "switch_name (ScvOther n) = n"

definition arm_not_set :: "string \<Rightarrow> thrown" where
  "arm_not_set arm = new_error TypeErrorClass (arm @ '' not set'')"

definition range_error :: "string \<Rightarrow> thrown" where
  "range_error m = new_error (NamedError ''RangeError'') m"

section \<open>Readers\<close>

definition join_i128 :: "64 word \<Rightarrow> 64 word \<Rightarrow> int" where
  "join_i128 hi lo = or (push_bit 64 (sint hi)) (uint lo)"

definition scValToI128 :: "sc_val \<Rightarrow> (thrown, int) result" where
  "scValToI128 v = (case v of ScvI128 hi lo \<Rightarrow> Inr (join_i128 hi lo) | _ \<Rightarrow> Inl (arm_not_set ''i128''))"

definition scValToU64 :: "sc_val \<Rightarrow> (thrown, int) result" where
  "scValToU64 v = (case v of ScvU64 n \<Rightarrow> Inr (uint n) | _ \<Rightarrow> Inl (arm_not_set ''u64''))"

definition scValToU32 :: "sc_val \<Rightarrow> (thrown, int) result" where
  "scValToU32 v =
    (case v of ScvU32 n \<Rightarrow> Inr (uint n)
     | _ \<Rightarrow> Inl (plain_error (''Expected a u32 ScVal, got '' @ quote @ switch_name v @ quote @ '' instead.'')))"

definition boolToScVal :: "bool \<Rightarrow> sc_val" where
  "boolToScVal b = ScvBool b"

text \<open>An argument of u64ToScVal is a number or a bigint.\<close>

datatype numeric_arg = NumberArg jsnum | BigintArg int

fun show_jsnum :: "jsnum \<Rightarrow> string" where
  "show_jsnum NaN = ''NaN''"
| "show_jsnum Infinity = ''Infinity''"
| "show_jsnum NegInfinity = ''-Infinity''"
| "show_jsnum (Num r) = show_int \<lfloor>r\<rfloor>"

definition u64ToScVal ::
    "(string \<Rightarrow> (thrown, 64 word) result) \<Rightarrow> (rat \<Rightarrow> string) \<Rightarrow> numeric_arg \<Rightarrow> (thrown, sc_val) result" where
  "u64ToScVal uint64_fromString show_number v =
    (case v of
       NumberArg n \<Rightarrow>
         if \<not> is_integer_num n then
           Inl (range_error (''u64ToScVal: expected an integer, got '' @
             (case n of Num r \<Rightarrow> show_number r | _ \<Rightarrow> show_jsnum n)))
         else if int_of_num n < 0 then
           Inl (range_error (''u64ToScVal: expected a non-negative value, got '' @ show_int (int_of_num n)))
         else result_bind (uint64_fromString (show_int (int_of_num n))) (\<lambda>w. Inr (ScvU64 w))
     | BigintArg n \<Rightarrow>
         if n < 0 then Inl (range_error (''u64ToScVal: expected a non-negative value, got '' @ show_int n))
         else result_bind (uint64_fromString (show_int n)) (\<lambda>w. Inr (ScvU64 w)))"

section \<open>The 128-bit value of a pair of halves\<close>

lemma or_push_bit_add:
  fixes a b :: int
  assumes "0 \<le> b" "b < 2 ^ n"
  shows "or (push_bit n a) b = a * 2 ^ n + b"
proof -
  have "and (push_bit n a) b = 0"
  proof (rule bit_eqI)
    fix m
    have "take_bit n b = b" using assms by (simp add: take_bit_int_eq_self)
    then have "bit b m \<Longrightarrow> m < n" by (metis bit_take_bit_iff)
    then show "bit (and (push_bit n a) b) m = bit 0 m" by (auto simp: bit_and_iff bit_push_bit_iff_int)
  qed
  then have "push_bit n a + b = or (push_bit n a) b" by (rule disjunctive_add_eq_or)
  then show ?thesis by (simp add: push_bit_eq_mult)
qed

lemma join_i128_arith: "join_i128 hi lo = sint hi * 2 ^ 64 + uint lo"
  using uint_lt2p [of lo] by (simp add: join_i128_def or_push_bit_add)

lemma join_range:
  fixes a b :: int
  assumes "- (2 ^ 63) \<le> a" "a < 2 ^ 63" "0 \<le> b" "b < 2 ^ 64"
  shows "- (2 ^ 127) \<le> a * 2 ^ 64 + b" "a * 2 ^ 64 + b < 2 ^ 127"
  using assms by simp_all

definition split_i128 :: "int \<Rightarrow> 64 word \<times> 64 word" where
  "split_i128 n = (word_of_int (n div 2 ^ 64), word_of_int n)"

lemma scValToI128_split: "- (2 ^ 127) \<le> n \<Longrightarrow> n < 2 ^ 127 \<Longrightarrow>
  scValToI128 (ScvI128 (fst (split_i128 n)) (snd (split_i128 n))) = Inr n"
proof -
  assume n: "- (2 ^ 127) \<le> n" "n < 2 ^ 127"
  have "- (2 ^ 63) \<le> n div 2 ^ 64" "n div 2 ^ 64 < 2 ^ 63"
    using zdiv_mono1 [of "- (2 ^ 127)" n "2 ^ 64"] zdiv_mono1 [of n "2 ^ 127 - 1" "2 ^ 64"] n by simp_all
  then have "sint (word_of_int (n div 2 ^ 64) :: 64 word) = n div 2 ^ 64"
    unfolding int_word_sint by simp
  moreover have "uint (word_of_int n :: 64 word) = n mod 2 ^ 64" by (simp add: uint_word_of_int)
  ultimately show "scValToI128 (ScvI128 (fst (split_i128 n)) (snd (split_i128 n))) = Inr n"
    by (simp add: scValToI128_def split_i128_def join_i128_arith)
qed

section \<open>Stream snapshots from contract values\<close>

definition STREAM_FLAG_PAUSED :: int where "STREAM_FLAG_PAUSED = 1"
definition STREAM_FLAG_CLAWBACK_ENABLED :: int where "STREAM_FLAG_CLAWBACK_ENABLED = push_bit 1 1"
definition STREAM_FLAG_CANCELLED :: int where "STREAM_FLAG_CANCELLED = push_bit 2 1"

fun entry_key :: "sc_val \<Rightarrow> string" where
  "entry_key (ScvSymbol s) = s"
| "entry_key (ScvString s) = s"
| "entry_key _ = []"

text \<open>m[k] = e.val() in a loop: a later entry with the same key wins.\<close>

definition entry_map :: "(sc_val \<times> sc_val) list \<Rightarrow> string \<Rightarrow> sc_val option" where
  "entry_map entries = map_of (rev (List.map (\<lambda>e. (entry_key (fst e), snd e)) entries))"

definition field_or :: "'a \<Rightarrow> (sc_val \<Rightarrow> (thrown, 'a) result) \<Rightarrow> sc_val option \<Rightarrow> (thrown, 'a) result" where
  "field_or dflt reader v = (case v of None \<Rightarrow> Inr dflt | Some x \<Rightarrow> reader x)"

definition flags_of :: "sc_val option \<Rightarrow> int" where
  "flags_of v = (case v of None \<Rightarrow> 0 | Some x \<Rightarrow> (case scValToU32 x of Inr n \<Rightarrow> n | Inl _ \<Rightarrow> 0))"

definition parse_entries ::
    "(sc_val \<Rightarrow> (thrown, string) result) \<Rightarrow> int \<Rightarrow> string \<Rightarrow> (string \<Rightarrow> sc_val option) \<Rightarrow> (thrown, StreamInfo) result" where
  "parse_entries fromScVal i addr m =
    (let flags = flags_of (m ''flags'') in
     result_bind (field_or [] fromScVal (m ''sender'')) (\<lambda>sndr.
     result_bind (field_or [] fromScVal (m ''recipient'')) (\<lambda>rcpt.
     result_bind (field_or [] fromScVal (m ''token'')) (\<lambda>tok.
     result_bind (field_or 0 scValToI128 (m ''rate_per_second'')) (\<lambda>rps.
     result_bind (field_or 0 scValToU64 (m ''start_time'')) (\<lambda>st.
     result_bind (field_or 0 scValToU64 (m ''end_time'')) (\<lambda>en.
     result_bind (field_or 0 scValToI128 (m ''withdrawn'')) (\<lambda>wd.
     result_bind (field_or 0 scValToU64 (m ''paused_at'')) (\<lambda>pa.
     Inr \<lparr> stream_id = i, address = addr, sender = sndr, recipient = rcpt, token = tok, ratePerSecond = rps,
       startTime = st, endTime = en, withdrawn = wd, paused = (and flags STREAM_FLAG_PAUSED \<noteq> 0), pausedAt = pa,
       cancelled = (and flags STREAM_FLAG_CANCELLED \<noteq> 0),
       clawbackEnabled = (and flags STREAM_FLAG_CLAWBACK_ENABLED \<noteq> 0) \<rparr>)))))))))"

definition parseStreamInfo ::
    "(sc_val \<Rightarrow> (thrown, string) result) \<Rightarrow> int \<Rightarrow> string \<Rightarrow> sc_val \<Rightarrow> (thrown, StreamInfo) result" where
  "parseStreamInfo fromScVal i addr v =
    (case v of
       ScvMap (Some entries) \<Rightarrow> parse_entries fromScVal i addr (entry_map entries)
     | ScvMap None \<Rightarrow> parse_entries fromScVal i addr (\<lambda>_. None)
     | _ \<Rightarrow> Inl (arm_not_set ''map''))"

text \<open>The on-chain struct of a snapshot: one symbol key per field, three booleans in flags.\<close>

definition i128_value :: "int \<Rightarrow> sc_val" where
  "i128_value n = ScvI128 (fst (split_i128 n)) (snd (split_i128 n))"

definition u64_value :: "int \<Rightarrow> sc_val" where "u64_value n = ScvU64 (word_of_int n)"

definition stream_flags :: "StreamInfo \<Rightarrow> int" where
  "stream_flags s = (if paused s then 1 else 0) + (if clawbackEnabled s then 2 else 0) + (if cancelled s then 4 else 0)"

definition stream_struct :: "StreamInfo \<Rightarrow> sc_val" where
  "stream_struct s = ScvMap (Some
    [(ScvSymbol ''end_time'', u64_value (endTime s)),
     (ScvSymbol ''flags'', ScvU32 (word_of_int (stream_flags s))),
     (ScvSymbol ''paused_at'', u64_value (pausedAt s)),
     (ScvSymbol ''rate_per_second'', i128_value (ratePerSecond s)),
     (ScvSymbol ''recipient'', ScvAddress (recipient s)),
     (ScvSymbol ''sender'', ScvAddress (sender s)),
     (ScvSymbol ''start_time'', u64_value (startTime s)),
     (ScvSymbol ''token'', ScvAddress (token s)),
     (ScvSymbol ''withdrawn'', i128_value (withdrawn s))])"

definition representable :: "StreamInfo \<Rightarrow> bool" where
  "representable s =
    (0 \<le> startTime s \<and> startTime s < 2 ^ 64 \<and> 0 \<le> endTime s \<and> endTime s < 2 ^ 64 \<and>
     0 \<le> pausedAt s \<and> pausedAt s < 2 ^ 64 \<and> - (2 ^ 127) \<le> ratePerSecond s \<and> ratePerSecond s < 2 ^ 127 \<and>
     - (2 ^ 127) \<le> withdrawn s \<and> withdrawn s < 2 ^ 127)"

lemma scValToU64_value: "0 \<le> n \<Longrightarrow> n < 2 ^ 64 \<Longrightarrow> scValToU64 (u64_value n) = Inr n"
  by (simp add: scValToU64_def u64_value_def uint_word_of_int)

lemma flag_bits:
  "and (stream_flags s) STREAM_FLAG_PAUSED \<noteq> 0 \<longleftrightarrow> paused s"
  "and (stream_flags s) STREAM_FLAG_CLAWBACK_ENABLED \<noteq> 0 \<longleftrightarrow> clawbackEnabled s"
  "and (stream_flags s) STREAM_FLAG_CANCELLED \<noteq> 0 \<longleftrightarrow> cancelled s"
  by (simp_all add: stream_flags_def STREAM_FLAG_PAUSED_def STREAM_FLAG_CLAWBACK_ENABLED_def STREAM_FLAG_CANCELLED_def)

text \<open>
  parseStreamInfo inverts the on-chain struct: every snapshot whose numbers fit their contract
  types is read back field for field, with paused, clawback and cancelled taken from the flag
  bits, from the struct stored at its address.
\<close>
theorem parseStreamInfo_round_trip:
  assumes "\<And>a. fromScVal (ScvAddress a) = Inr a" "representable s"
  shows "parseStreamInfo fromScVal (stream_id s) (address s) (stream_struct s) = Inr s"
proof -
  have flags: "flags_of (Some (ScvU32 (word_of_int (stream_flags s)))) = stream_flags s"
    by (simp add: flags_of_def scValToU32_def uint_word_of_int stream_flags_def)
  show ?thesis
    using assms scValToU64_value scValToI128_split
    by (simp add: parseStreamInfo_def stream_struct_def parse_entries_def entry_map_def field_or_def flags flag_bits
        representable_def i128_value_def)
qed

lemma parseStreamInfo_round_trip_witness:
  "parseStreamInfo (\<lambda>v. case v of ScvAddress a \<Rightarrow> Inr a | _ \<Rightarrow> Inl (arm_not_set ''address'')) 7 (address sample_stream)
     (stream_struct (sample_stream \<lparr> stream_id := 7 \<rparr>)) = Inr (sample_stream \<lparr> stream_id := 7 \<rparr>)"
  using parseStreamInfo_round_trip [of "\<lambda>v. case v of ScvAddress a \<Rightarrow> Inr a | _ \<Rightarrow> Inl (arm_not_set ''address'')"
      "sample_stream \<lparr> stream_id := 7 \<rparr>"]
  by (simp add: representable_def sample_stream_def)

section \<open>Deployment salts\<close>

text \<open>streamIdToSalt of src/factory.ts: the low 64 bits, big-endian, at the end of 32 bytes.\<close>

definition streamIdToSalt :: "int \<Rightarrow> 8 word list" where
  "streamIdToSalt i =
    fold (\<lambda>k salt. salt[31 - k := word_of_int (and (drop_bit (8 * k) i) 0xff)]) [0..<8] (replicate 32 0)"

definition salt_value :: "8 word list \<Rightarrow> int" where
  "salt_value bs = foldl (\<lambda>a b. 256 * a + uint b) 0 bs"

lemma salt_tail:
  "salt_value (replicate 24 0 @ [a7, a6, a5, a4, a3, a2, a1, a0]) =
    uint a7 * 256 ^ 7 + uint a6 * 256 ^ 6 + uint a5 * 256 ^ 5 + uint a4 * 256 ^ 4 + uint a3 * 256 ^ 3 +
    uint a2 * 256 ^ 2 + uint a1 * 256 + uint a0"
proof -
  have "foldl (\<lambda>a b. 256 * a + uint b) 0 (replicate n (0 :: 8 word)) = 0" for n
    by (induction n) simp_all
  then show ?thesis by (simp add: salt_value_def)
qed

text \<open>
  A salt determines its stream: streamIdToSalt always gives 32 bytes, the first 24 of them zero,
  whose big-endian value is the id modulo 2^64; so distinct u64 ids get distinct salts.
\<close>
theorem streamIdToSalt_value:
  "length (streamIdToSalt i) = 32 \<and> take 24 (streamIdToSalt i) = replicate 24 0 \<and>
   salt_value (streamIdToSalt i) = i mod 2 ^ 64"
proof -
  let ?b = "\<lambda>k::nat. word_of_int (and (drop_bit (8 * k) i) 0xff) :: 8 word"
  have salt: "streamIdToSalt i = replicate 24 0 @ [?b 7, ?b 6, ?b 5, ?b 4, ?b 3, ?b 2, ?b 1, ?b 0]"
    by (simp add: streamIdToSalt_def upt_rec numeral_eq_Suc)
  have byte: "uint (?b k) = (i div 256 ^ k) mod 256" for k
  proof -
    have "and x 0xff = x mod 256" for x :: int
      using take_bit_eq_mask [of 8 x] by (simp add: take_bit_eq_mod mask_eq_exp_minus_1)
    then show ?thesis by (simp add: uint_word_of_int drop_bit_eq_div power_mult)
  qed
  define m where "m k = i mod 256 ^ k" for k :: nat
  define d where "d k = (i div 256 ^ k) mod 256" for k :: nat
  have low: "m n = 256 ^ k * d k + m k" if "n = Suc k" for k n
    using zmod_zmult2_eq [of 256 i "256 ^ k"] that by (simp add: m_def d_def mult.commute)
  have "salt_value (streamIdToSalt i) = d 7 * 256 ^ 7 + d 6 * 256 ^ 6 + d 5 * 256 ^ 5 + d 4 * 256 ^ 4 +
      d 3 * 256 ^ 3 + d 2 * 256 ^ 2 + d 1 * 256 + d 0"
    unfolding salt salt_tail byte by (simp only: d_def)
  also have "\<dots> = m 8"
    using low [of 8 7] low [of 7 6] low [of 6 5] low [of 5 4] low [of 4 3] low [of 3 2] low [of 2 1] low [of 1 0]
    by (simp add: m_def [of 0])
  finally show ?thesis by (simp add: salt m_def)
qed

text \<open>
  scValToI128 is the two's complement reading of the two halves: it is a bijection between
  the values a contract can return and the integers from -2^127 below 2^127.
\<close>
theorem scValToI128_bijective:
  "(\<forall>n. - (2 ^ 127) \<le> n \<and> n < 2 ^ 127 \<longrightarrow>
      scValToI128 (ScvI128 (fst (split_i128 n)) (snd (split_i128 n))) = Inr n) \<and>
   (\<forall>hi lo. \<exists>n. scValToI128 (ScvI128 hi lo) = Inr n \<and> - (2 ^ 127) \<le> n \<and> n < 2 ^ 127 \<and> split_i128 n = (hi, lo))"
proof (intro conjI allI impI)
  fix n :: int assume n: "- (2 ^ 127) \<le> n \<and> n < 2 ^ 127"
  then show "scValToI128 (ScvI128 (fst (split_i128 n)) (snd (split_i128 n))) = Inr n"
    by (intro scValToI128_split) simp_all
next
  fix hi lo :: "64 word"
  have "- (2 ^ 63) \<le> sint hi" "sint hi < 2 ^ 63" using sint_ge [of hi] sint_lt [of hi] by simp_all
  moreover have lo: "0 \<le> uint lo" "uint lo < 2 ^ 64" using uint_lt2p [of lo] by simp_all
  ultimately have "- (2 ^ 127) \<le> join_i128 hi lo" "join_i128 hi lo < 2 ^ 127"
    unfolding join_i128_arith by (rule join_range)+
  moreover have "join_i128 hi lo div 2 ^ 64 = sint hi" using lo by (simp add: join_i128_arith)
  then have "split_i128 (join_i128 hi lo) = (hi, lo)"
  proof -
    have "(2 ^ 64 :: 64 word) = 0" unfolding exp_eq_zero_iff by simp
    then have "hi * 2 ^ 64 = 0" by (simp only: mult_zero_right)
    then have "hi * 18446744073709551616 = 0" by simp
    then show ?thesis using \<open>join_i128 hi lo div 2 ^ 64 = sint hi\<close> by (simp add: split_i128_def join_i128_arith)
  qed
  ultimately show "\<exists>n. scValToI128 (ScvI128 hi lo) = Inr n \<and> - (2 ^ 127) \<le> n \<and> n < 2 ^ 127 \<and> split_i128 n = (hi, lo)"
    by (intro exI [of _ "join_i128 hi lo"]) (simp add: scValToI128_def)
qed

lemma scValToI128_bijective_witness:
  "scValToI128 (ScvI128 (fst (split_i128 (- 5))) (snd (split_i128 (- 5)))) = Inr (- 5)"
  using scValToI128_bijective by simp

end
