(* ===== verification/Validation.thy ===== *)
theory Validation
  imports Amounts Js_Strings
begin

text \<open>
  Address checks of src/utils.ts, list clamps and limits of src/constants.ts and
  validateStreamParameters of src/streams.ts.  StrKey of the Stellar SDK is the record
  of its functions the code calls.  Optional number fields are jsnum option, as their
  type in src/types/index.ts says, so the typeof guards of the code always pass.
\<close>

section \<open>Comparisons on numbers\<close>

fun num_le :: "jsnum \<Rightarrow> jsnum \<Rightarrow> bool" where
  "num_le (Num a) (Num b) = (a \<le> b)"
| "num_le NaN _ = False"
| "num_le _ NaN = False"
| "num_le NegInfinity _ = True"
| "num_le _ Infinity = True"
| "num_le _ _ = False"

definition num_less :: "jsnum \<Rightarrow> jsnum \<Rightarrow> bool" where
  "num_less a b = (num_le a b \<and> \<not> num_le b a)"

fun num_add :: "jsnum \<Rightarrow> jsnum \<Rightarrow> jsnum" where
  "num_add (Num a) (Num b) = Num (a + b)"
| "num_add NaN _ = NaN"
| "num_add _ NaN = NaN"
| "num_add Infinity NegInfinity = NaN"
| "num_add NegInfinity Infinity = NaN"
| "num_add Infinity _ = Infinity"
| "num_add NegInfinity _ = NegInfinity"
| "num_add _ Infinity = Infinity"
| "num_add _ NegInfinity = NegInfinity"

definition num_truthy :: "jsnum \<Rightarrow> bool" where
  "num_truthy n = (n \<noteq> NaN \<and> n \<noteq> Num 0)"

fun trunc_rat :: "rat \<Rightarrow> int" where
  "trunc_rat r = (if 0 \<le> r then \<lfloor>r\<rfloor> else \<lceil>r\<rceil>)"

section \<open>Limits (src/constants.ts)\<close>

definition MIN_STREAM_DURATION_SECONDS :: int where "MIN_STREAM_DURATION_SECONDS = 3600"
definition DEFAULT_LIST_LIMIT :: int where "DEFAULT_LIST_LIMIT = 20"
definition MAX_LIST_LIMIT :: int where "MAX_LIST_LIMIT = 100"

definition clampListLimit :: "jsnum \<Rightarrow> int" where
  "clampListLimit limit =
    (case limit of
       Num r \<Rightarrow> let truncated = trunc_rat r
                in if truncated \<le> 0 then DEFAULT_LIST_LIMIT else min truncated MAX_LIST_LIMIT
     | _ \<Rightarrow> DEFAULT_LIST_LIMIT)"

definition clampOffset :: "jsnum \<Rightarrow> int" where
  "clampOffset offset =
    (case offset of Num r \<Rightarrow> min (max (trunc_rat r) 0) 4294967295 | _ \<Rightarrow> 0)"

lemma clampListLimit_range: "1 \<le> clampListLimit n \<and> clampListLimit n \<le> 100"
  by (auto simp: clampListLimit_def DEFAULT_LIST_LIMIT_def MAX_LIST_LIMIT_def Let_def split: jsnum.split)

lemma clampListLimit_id: "1 \<le> k \<Longrightarrow> k \<le> 100 \<Longrightarrow> clampListLimit (Num (of_int k)) = k"
  by (simp add: clampListLimit_def MAX_LIST_LIMIT_def Let_def)

lemma clampOffset_range: "0 \<le> clampOffset n \<and> clampOffset n < 2 ^ 32"
  by (auto simp: clampOffset_def split: jsnum.split)

lemma clampOffset_id: "0 \<le> k \<Longrightarrow> k < 2 ^ 32 \<Longrightarrow> clampOffset (Num (of_int k)) = k"
  by (simp add: clampOffset_def)

section \<open>Addresses (src/utils.ts)\<close>

record strkey =
  isValidEd25519PublicKey :: "string \<Rightarrow> bool"
  isValidContract :: "string \<Rightarrow> bool"
  decodeEd25519PublicKey :: "string \<Rightarrow> (string, string) result"
  encodeEd25519PublicKey :: "string \<Rightarrow> (string, string) result"
  decodeContract :: "string \<Rightarrow> (string, string) result"
  encodeContract :: "string \<Rightarrow> (string, string) result"

definition isValidAddress :: "strkey \<Rightarrow> string \<Rightarrow> bool" where
  "isValidAddress K addr =
    (if addr = [] then False else isValidEd25519PublicKey K addr \<or> isValidContract K addr)"

definition validateAndNormalizeAddress :: "strkey \<Rightarrow> string \<Rightarrow> (string, string) result" where
  "validateAndNormalizeAddress K addr =
    (if addr = [] then Inl ''Address must be a non-empty string''
     else if isValidEd25519PublicKey K addr then
       result_bind (decodeEd25519PublicKey K addr) (encodeEd25519PublicKey K)
     else if isValidContract K addr then
       result_bind (decodeContract K addr) (encodeContract K)
     else Inl ''Invalid Stellar address: not a valid ed25519 public key or contract address'')"

lemma validateAndNormalizeAddress_id:
  assumes "\<And>a. isValidEd25519PublicKey K a \<Longrightarrow>
      result_bind (decodeEd25519PublicKey K a) (encodeEd25519PublicKey K) = Inr a"
    and "\<And>a. isValidContract K a \<Longrightarrow> result_bind (decodeContract K a) (encodeContract K) = Inr a"
  shows "result_ok (validateAndNormalizeAddress K a) \<longleftrightarrow> isValidAddress K a"
    and "validateAndNormalizeAddress K a = Inr b \<Longrightarrow> b = a"
  using assms by (auto simp: validateAndNormalizeAddress_def isValidAddress_def split: if_splits)

section \<open>Stream parameters\<close>

record StreamConfig =
  c_recipient :: string
  c_token :: string
  depositAmount :: string
  durationSeconds :: "jsnum option"
  c_ratePerSecond :: "string option"
  c_startTime :: "jsnum option"
  c_stopTime :: "jsnum option"
  c_endTime :: "jsnum option"
  c_sender :: "string option"
  c_clawbackEnabled :: "bool option"

record ValidationResult =
  isValid :: bool
  errors :: "string list"
  first_error :: "string option"

definition bad_address :: "strkey \<Rightarrow> string \<Rightarrow> bool" where
  "bad_address K a = (length a \<noteq> 56 \<or> \<not> isValidAddress K a)"

definition validate_recipient :: "strkey \<Rightarrow> string \<Rightarrow> string list" where
  "validate_recipient K r =
    (if r = [] \<or> trim r = [] then [''Invalid recipient address: must be a non-empty string'']
     else if bad_address K r then [''Invalid recipient address: must be a valid 56-character Stellar address'']
     else [])"

definition validate_sender :: "strkey \<Rightarrow> string option \<Rightarrow> string list" where
  "validate_sender K s =
    (case s of None \<Rightarrow> []
     | Some a \<Rightarrow> if bad_address K a then [''Invalid sender address: must be a valid 56-character Stellar address''] else [])"

definition validate_token :: "strkey \<Rightarrow> string \<Rightarrow> string list" where
  "validate_token K t =
    (if t = [] \<or> trim t = [] then [''Invalid token address: must be a non-empty string'']
     else if t \<noteq> ''native'' \<and> t \<noteq> ''USDC'' \<and> bad_address K t then
       [''Invalid token address: must be \"native\", \"USDC\", or a valid 56-character Stellar address'']
     else [])"

definition validate_deposit :: "string \<Rightarrow> string list" where
  "validate_deposit d =
    (if d = [] \<or> trim d = [] then [''Invalid deposit amount: must be a non-empty string'']
     else case toStroops d 7 of
       Inr stroops \<Rightarrow> if stroops \<le> 0 then [''Invalid deposit amount: must be a positive number''] else []
     | Inl _ \<Rightarrow> [''Invalid deposit amount: must be a positive number''])"

definition validate_duration :: "jsnum option \<Rightarrow> string list" where
  "validate_duration d =
    (case d of None \<Rightarrow> []
     | Some n \<Rightarrow>
         if num_le n (Num 0) then [''Invalid durationSeconds: must be a positive number'']
         else if num_less n (Num (of_int MIN_STREAM_DURATION_SECONDS)) then
           [''Invalid durationSeconds: must be at least 3600 seconds (1 hour)'']
         else [])"

definition validate_rate :: "string option \<Rightarrow> string list" where
  "validate_rate r =
    (case r of None \<Rightarrow> []
     | Some s \<Rightarrow>
         if trim s = [] then [''Invalid ratePerSecond: must be a non-empty string'']
         else case bigint_of_string s of
           Some rate \<Rightarrow> if rate \<le> 0 then [''Invalid ratePerSecond: must be greater than 0''] else []
         | None \<Rightarrow> [''Invalid ratePerSecond: must be greater than 0''])"

definition validate_pace :: "StreamConfig \<Rightarrow> string list" where
  "validate_pace p =
    (if (case durationSeconds p of None \<Rightarrow> True | Some n \<Rightarrow> \<not> num_truthy n) \<and>
        (case c_ratePerSecond p of None \<Rightarrow> True | Some s \<Rightarrow> s = []) \<and>
        c_stopTime p = None \<and> c_endTime p = None
     then [''Either durationSeconds or ratePerSecond must be provided''] else [])"

definition validate_start :: "jsnum option \<Rightarrow> int \<Rightarrow> string list" where
  "validate_start st now =
    (case st of None \<Rightarrow> []
     | Some n \<Rightarrow>
         if \<not> is_integer_num n then [''Invalid startTime: must be an integer Unix timestamp'']
         else if num_less n (Num (of_int now)) then [''Invalid startTime: cannot be in the past'']
         else [])"

definition effective_stop :: "StreamConfig \<Rightarrow> jsnum \<Rightarrow> jsnum option" where
  "effective_stop p effectiveStart =
    (case c_stopTime p of Some n \<Rightarrow> Some n
     | None \<Rightarrow> (case c_endTime p of Some n \<Rightarrow> Some n
         | None \<Rightarrow> (case durationSeconds p of
             Some n \<Rightarrow> if num_less (Num 0) n then Some (num_add effectiveStart n) else None
           | None \<Rightarrow> None)))"

definition validate_stop :: "StreamConfig \<Rightarrow> int \<Rightarrow> string list" where
  "validate_stop p now =
    (let effectiveStart = (case c_startTime p of Some n \<Rightarrow> n | None \<Rightarrow> Num (of_int now))
     in case effective_stop p effectiveStart of None \<Rightarrow> []
        | Some n \<Rightarrow>
            if \<not> is_integer_num n then [''Invalid stopTime: must be an integer Unix timestamp'']
            else if num_le n effectiveStart then [''Invalid stopTime: stopTime must be greater than startTime'']
            else [])"

definition validateStreamParameters :: "strkey \<Rightarrow> StreamConfig \<Rightarrow> int \<Rightarrow> ValidationResult" where
  "validateStreamParameters K p now =
    (let errs = validate_recipient K (c_recipient p) @ validate_sender K (c_sender p)
           @ validate_token K (c_token p) @ validate_deposit (depositAmount p)
           @ validate_duration (durationSeconds p) @ validate_rate (c_ratePerSecond p)
           @ validate_pace p @ validate_start (c_startTime p) now @ validate_stop p now
     in \<lparr> isValid = (errs = []), errors = errs,
          first_error = (case errs of [] \<Rightarrow> None | e # _ \<Rightarrow> Some e) \<rparr>)"
end
