(* ===== verification/Rpc_World.thy ===== *)
theory Rpc_World
  imports Retry Sc_Values Js_Values Validation
begin

text \<open>
  What the SDK's handlers run in.  A handler is a function from a world to its result and
  the next world; the world holds the module-level state of src/soroban.ts and the trace of
  every call that left the SDK (RPC requests, wallet calls, sleeps), newest last.  The
  outside (the RPC node, Horizon, the wallet, the clock and the abort signal) is a record of
  functions of the number of calls made so far.  A read of the clock happens between two
  such calls.
\<close>

section \<open>Transactions and replies\<close>

record contract_tx =
  tx_caller :: string
  tx_sequence :: int
  tx_contract :: string
  tx_method :: string
  tx_args :: "sc_val list"
  tx_fee :: string
  tx_memo :: "string option"
  tx_signatures :: "string list"

record sim_success =
  sim_retval :: "sc_val option"
  sim_minResourceFee :: jsval
  sim_fee :: jsval
  sim_cpuInsns :: jsval

datatype sim_reply = Sim_error string | Sim_ok sim_success

datatype send_reply = Send_rejected string | Send_accepted string

datatype tx_status = Tx_success "sc_val option" | Tx_failed | Tx_not_found

record ledger_reply =
  l_sequence :: int
  l_closedAt :: string

datatype horizon_reply = Horizon_status int | Horizon_sequence "int option"

datatype sign_reply = Signed_null | Signed_xdr contract_tx | Signed_tx contract_tx | Signed_in_place contract_tx

text \<open>A getEvents request continues at a cursor or starts at a ledger.\<close>

datatype events_request = Events_at_cursor string string int | Events_from_ledger int string int

datatype ext_call =
    Get_account string
  | Simulate contract_tx
  | Send contract_tx
  | Get_transaction string
  | Get_latest_ledger
  | Get_events events_request
  | Horizon_account string string
  | Get_public_key
  | Sign contract_tx
  | Sleep int

type_synonym rpc_failure = "thrown \<times> string option"

record outside =
  account_reply :: "nat \<Rightarrow> string \<Rightarrow> (rpc_failure, int) result"
  simulate_reply :: "nat \<Rightarrow> contract_tx \<Rightarrow> (rpc_failure, sim_reply) result"
  send_reply :: "nat \<Rightarrow> contract_tx \<Rightarrow> (rpc_failure, send_reply) result"
  tx_reply :: "nat \<Rightarrow> string \<Rightarrow> (rpc_failure, tx_status) result"
  ledger_reply_at :: "nat \<Rightarrow> (rpc_failure, ledger_reply) result"
  horizon_answer :: "nat \<Rightarrow> string \<Rightarrow> (thrown, horizon_reply) result"
  public_key_reply :: "nat \<Rightarrow> (thrown, string) result"
  sign_answer :: "nat \<Rightarrow> contract_tx \<Rightarrow> (thrown, sign_reply) result"
  sign_delay :: "nat \<Rightarrow> int"
  keypair_sign :: "contract_tx \<Rightarrow> contract_tx"
  random_at :: "nat \<Rightarrow> rat"
  clock_at :: "nat \<Rightarrow> int"
  aborted_now :: "nat \<Rightarrow> bool"
  parse_date :: "string \<Rightarrow> int option"
  native_i128 :: "int \<Rightarrow> (thrown, sc_val) result"
  native_u64 :: "int \<Rightarrow> (thrown, sc_val) result"
  native_u32 :: "int \<Rightarrow> (thrown, sc_val) result"
  address_toScVal :: "string \<Rightarrow> (thrown, sc_val) result"
  address_fromScVal :: "sc_val \<Rightarrow> (thrown, string) result"
  assemble_tx :: "contract_tx \<Rightarrow> sim_success \<Rightarrow> contract_tx"
  new_contract :: "string \<Rightarrow> (thrown, string) result"
  asset_contract :: "string \<Rightarrow> string \<Rightarrow> string"
  keys :: strkey

record cached_ledger =
  cl_sequence :: int
  cl_timestamp :: jsnum
  cl_closedAt :: string
  cl_cachedAt :: int

record rpc_world =
  trace :: "ext_call list"
  breakers :: circuit_state
  endpoint_timeouts :: "string \<Rightarrow> nat option"
  ledgerInfoCache :: "string \<Rightarrow> cached_ledger option"
  tokenDecimalsCache :: "string \<Rightarrow> int option"
  tokenDecimalsHits :: nat
  tokenDecimalsMisses :: nat

definition initial_rpc_world :: rpc_world where
  "initial_rpc_world = \<lparr> trace = [], breakers = initial_circuits, endpoint_timeouts = (\<lambda>_. None),
     ledgerInfoCache = (\<lambda>_. None), tokenDecimalsCache = (\<lambda>_. None), tokenDecimalsHits = 0, tokenDecimalsMisses = 0 \<rparr>"

section \<open>Handlers as functions on worlds\<close>

type_synonym ('w, 'a) io = "'w \<Rightarrow> (thrown, 'a) result \<times> 'w"

definition io_return :: "'a \<Rightarrow> ('w, 'a) io" where "io_return a w = (Inr a, w)"
definition io_throw :: "thrown \<Rightarrow> ('w, 'a) io" where "io_throw e w = (Inl e, w)"
definition io_lift :: "(thrown, 'a) result \<Rightarrow> ('w, 'a) io" where "io_lift r w = (r, w)"

definition io_bind :: "('w, 'a) io \<Rightarrow> ('a \<Rightarrow> ('w, 'b) io) \<Rightarrow> ('w, 'b) io" where
  "io_bind m f w = (case m w of (Inl e, w') \<Rightarrow> (Inl e, w') | (Inr a, w') \<Rightarrow> f a w')"

lemma io_bind_Inr: "m w = (Inr a, w') \<Longrightarrow> io_bind m f w = f a w'"
  by (simp add: io_bind_def)

lemma io_bind_Inl: "m w = (Inl e, w') \<Longrightarrow> io_bind m f w = (Inl e, w')"
  by (simp add: io_bind_def)

definition io_catch :: "('w, 'a) io \<Rightarrow> (thrown \<Rightarrow> ('w, 'a) io) \<Rightarrow> ('w, 'a) io" where
  "io_catch m h w = (case m w of (Inl e, w') \<Rightarrow> h e w' | (Inr a, w') \<Rightarrow> (Inr a, w'))"

definition io_map_error :: "(thrown \<Rightarrow> thrown) \<Rightarrow> ('w, 'a) io \<Rightarrow> ('w, 'a) io" where
  "io_map_error h m w = (case m w of (Inl e, w') \<Rightarrow> (Inl (h e), w') | (Inr a, w') \<Rightarrow> (Inr a, w'))"

lemma io_map_error_world [simp]: "snd (io_map_error h m w) = snd (m w)"
  by (simp add: io_map_error_def split: prod.split sum.split)

definition io_try :: "('w, 'a) io \<Rightarrow> ('w, (thrown, 'a) result) io" where
  "io_try m w = (case m w of (r, w') \<Rightarrow> (Inr r, w'))"

definition io_gets :: "('w \<Rightarrow> 'a) \<Rightarrow> ('w, 'a) io" where "io_gets f w = (Inr (f w), w)"
definition io_modify :: "('w \<Rightarrow> 'w) \<Rightarrow> ('w, unit) io" where "io_modify f w = (Inr (), f w)"

definition io_guard :: "bool \<Rightarrow> thrown \<Rightarrow> ('w, unit) io" where
  "io_guard b e w = (if b then Inr () else Inl e, w)"

fun io_mapM :: "('a \<Rightarrow> ('w, 'b) io) \<Rightarrow> 'a list \<Rightarrow> ('w, 'b list) io" where
  "io_mapM f [] = io_return []"
| "io_mapM f (x # xs) = io_bind (f x) (\<lambda>y. io_bind (io_mapM f xs) (\<lambda>ys. io_return (y # ys)))"

definition calls_made :: "('w rpc_world_scheme) \<Rightarrow> nat" where "calls_made w = length (trace w)"

definition io_now :: "outside \<Rightarrow> ('z rpc_world_scheme, int) io" where
  "io_now env w = (Inr (clock_at env (calls_made w)), w)"

definition throwIfAborted :: "outside \<Rightarrow> bool \<Rightarrow> ('z rpc_world_scheme, unit) io" where
  "throwIfAborted env signal w = (if signal \<and> aborted_now env (calls_made w) then Inl aborted else Inr (), w)"

text \<open>A wallet or Horizon call, and a sleep, are recorded and answered once.\<close>

definition direct_call :: "ext_call \<Rightarrow> (nat \<Rightarrow> (thrown, 'a) result) \<Rightarrow> ('z rpc_world_scheme, 'a) io" where
  "direct_call c f w = (f (calls_made w), w \<lparr> trace := trace w @ [c] \<rparr>)"

definition io_sleep :: "int \<Rightarrow> ('z rpc_world_scheme, unit) io" where
  "io_sleep ms = direct_call (Sleep ms) (\<lambda>_. Inr ())"

section \<open>Endpoint timeouts\<close>

definition getConsecutiveTimeouts :: "string \<Rightarrow> ('z rpc_world_scheme) \<Rightarrow> nat \<times> 'z rpc_world_scheme" where
  "getConsecutiveTimeouts url w =
    (case endpoint_timeouts w url of Some n \<Rightarrow> (n, w)
     | None \<Rightarrow> (0, w \<lparr> endpoint_timeouts := (endpoint_timeouts w)(url \<mapsto> 0) \<rparr>))"

definition recordRpcTimeout :: "string \<Rightarrow> 'z rpc_world_scheme \<Rightarrow> 'z rpc_world_scheme" where
  "recordRpcTimeout url w =
    (let (n, w1) = getConsecutiveTimeouts url w in w1 \<lparr> endpoint_timeouts := (endpoint_timeouts w1)(url \<mapsto> n + 1) \<rparr>)"

definition recordRpcSuccess :: "string \<Rightarrow> 'z rpc_world_scheme \<Rightarrow> 'z rpc_world_scheme" where
  "recordRpcSuccess url w =
    (let (_, w1) = getConsecutiveTimeouts url w in w1 \<lparr> endpoint_timeouts := (endpoint_timeouts w1)(url \<mapsto> 0) \<rparr>)"

definition clearRpcEndpointStates :: "'z rpc_world_scheme \<Rightarrow> 'z rpc_world_scheme" where
  "clearRpcEndpointStates w = w \<lparr> endpoint_timeouts := (\<lambda>_. None) \<rparr>"

section \<open>The proxied server\<close>

text \<open>
  Every method of createRpcServer(rpcUrl): withRetry behind the circuit of the endpoint, then the
  success or the failure is recorded, unless the circuit refused the call.
\<close>

definition proxy_options :: "string \<Rightarrow> WithRetryOptions" where
  "proxy_options url = \<lparr> maxRetries = 3, baseDelayMs = 500, backoffFactor = 2, maxDelayMs = 30000,
     jitter = FullJitter, shouldRetry = isRateLimitError, circuitScope = Some url \<rparr>"

definition attempts_env :: "outside \<Rightarrow> nat \<Rightarrow> (nat \<Rightarrow> (rpc_failure, 'a) result) \<Rightarrow> 'a retry_env" where
  "attempts_env env n f = \<lparr> call_result = (\<lambda>k. f (n + k)), aborted_at = (\<lambda>_. False), aborted_in_sleep = (\<lambda>_. False),
     random = (\<lambda>k. random_at env (n + k)), clock = (\<lambda>k. clock_at env (n + k)), date_parse = parse_date env \<rparr>"

definition is_circuit_open :: "thrown \<Rightarrow> bool" where
  "is_circuit_open e = (case err_class e of Some (CircuitOpenError _ _) \<Rightarrow> True | _ \<Rightarrow> False)"

definition proxied_call ::
    "outside \<Rightarrow> string \<Rightarrow> ext_call \<Rightarrow> (nat \<Rightarrow> (rpc_failure, 'a) result) \<Rightarrow> ('z rpc_world_scheme, 'a) io" where
  "proxied_call env url c f w =
    (let n = calls_made w;
         ((res, attempts, _), cs) =
           withRetry (proxy_options url) False (clock_at env n) (attempts_env env n f) (breakers w);
         w1 = w \<lparr> trace := trace w @ replicate attempts c, breakers := cs \<rparr>;
         t = clock_at env (calls_made w1)
     in case res of
          Inr a \<Rightarrow> let w2 = recordRpcSuccess url w1 in (Inr a, w2 \<lparr> breakers := recordSuccess t url (breakers w2) \<rparr>)
        | Inl e \<Rightarrow>
            if is_circuit_open e then (Inl e, w1)
            else let w2 = recordRpcTimeout url w1
                 in (Inl e, w2 \<lparr> breakers := recordFailure t None None url (breakers w2) \<rparr>))"

text \<open>A node and a wallet that answer every call, with exact codecs: the instance the examples use.\<close>

definition sample_strkey :: strkey where
  "sample_strkey = \<lparr> isValidEd25519PublicKey = (\<lambda>a. take 1 a = ''G''), isValidContract = (\<lambda>a. take 1 a = ''C''),
     decodeEd25519PublicKey = Inr, encodeEd25519PublicKey = Inr, decodeContract = Inr, encodeContract = Inr \<rparr>"

definition sample_sim :: sim_success where
  "sample_sim = \<lparr> sim_retval = Some (ScvI128 0 700), sim_minResourceFee = JString ''5000'', sim_fee = JUndefined,
     sim_cpuInsns = JNumber (Num 9) \<rparr>"

definition sample_outside :: outside where
  "sample_outside = \<lparr> account_reply = (\<lambda>_ _. Inr 41), simulate_reply = (\<lambda>_ _. Inr (Sim_ok sample_sim)),
     send_reply = (\<lambda>_ _. Inr (Send_accepted ''h'')), tx_reply = (\<lambda>_ _. Inr (Tx_success (Some (ScvU64 5)))),
     ledger_reply_at = (\<lambda>_. Inr \<lparr> l_sequence = 8, l_closedAt = ''now'' \<rparr>), horizon_answer = (\<lambda>_ _. Inr (Horizon_sequence (Some 41))),
     public_key_reply = (\<lambda>_. Inr ''GA''), sign_answer = (\<lambda>_ t. Inr (Signed_tx (t \<lparr> tx_signatures := [''sig''] \<rparr>))),
     sign_delay = (\<lambda>_. 10), keypair_sign = (\<lambda>t. t \<lparr> tx_signatures := [''sig''] \<rparr>),
     random_at = (\<lambda>_. 0), clock_at = (\<lambda>n. 1000 + int n), aborted_now = (\<lambda>_. False), parse_date = (\<lambda>_. Some 5000),
     native_i128 = (\<lambda>n. if - (2 ^ 127) \<le> n \<and> n < 2 ^ 127 then Inr (i128_value n) else Inl (range_error ''i128'')),
     native_u64 = (\<lambda>n. if 0 \<le> n \<and> n < 2 ^ 64 then Inr (u64_value n) else Inl (range_error ''u64'')),
     native_u32 = (\<lambda>n. if 0 \<le> n \<and> n < 2 ^ 32 then Inr (ScvU32 (word_of_int n)) else Inl (range_error ''u32'')),
     address_toScVal = (\<lambda>a. Inr (ScvAddress a)),
     address_fromScVal = (\<lambda>v. case v of ScvAddress a \<Rightarrow> Inr a | _ \<Rightarrow> Inl (arm_not_set ''address'')),
     assemble_tx = (\<lambda>t _. t), new_contract = Inr, asset_contract = (\<lambda>code _. ''C'' @ code), keys = sample_strkey \<rparr>"

section \<open>Network errors\<close>

definition NETWORK_ERROR_CODE_PREFIXES :: "string list" where
  "NETWORK_ERROR_CODE_PREFIXES =
    [''econnrefused'', ''econnreset'', ''enotfound'', ''etimedout'', ''enetunreach'', ''ehostunreach'', ''eai_again'',
     ''epipe'', ''err_network'', ''err_conn'', ''err_socket'', ''und_err'', ''err_http2_connect_error'', ''err_tls'']"

definition network_code :: "string \<Rightarrow> bool" where
  "network_code s = list_ex (\<lambda>p. take (length p) (List.map lower_char s) = p) NETWORK_ERROR_CODE_PREFIXES"

definition NETWORK_TYPE_ERROR_MESSAGES :: "string list" where
  "NETWORK_TYPE_ERROR_MESSAGES = [''fetch failed'', ''Failed to fetch'', ''Network Error'', ''Load failed'']"

fun code_text :: "code_value \<Rightarrow> string" where
  "code_text (NumCode n) = show_int n"
| "code_text (StrCode s) = s"

fun hasNetworkErrorCode :: "nat \<Rightarrow> thrown option \<Rightarrow> bool" where
  "hasNetworkErrorCode 0 _ = False"
| "hasNetworkErrorCode (Suc d) (Some (ErrorObject c m k st resp cause)) =
    ((case err_code (ErrorObject c m k st resp cause) of Some v \<Rightarrow> network_code (code_text v) | None \<Rightarrow> False)
     \<or> hasNetworkErrorCode d cause)"
| "hasNetworkErrorCode (Suc d) _ = False"

definition network_error :: "string \<Rightarrow> string \<Rightarrow> thrown \<Rightarrow> thrown" where
  "network_error label m cause =
    ErrorObject StreamFiNetworkError (''Network error during '' @ label @ '': '' @ m) None None None (Some cause)"

definition catchNetworkError :: "string \<Rightarrow> thrown \<Rightarrow> thrown" where
  "catchNetworkError label cause =
    (case err_class cause of
       Some StreamFiNetworkError \<Rightarrow> cause
     | Some (InsufficientBalanceError _ _) \<Rightarrow> cause
     | Some TypeErrorClass \<Rightarrow>
         if err_message cause \<in> set NETWORK_TYPE_ERROR_MESSAGES \<or> hasNetworkErrorCode 5 (Some cause)
         then network_error label (err_message cause) cause else cause
     | _ \<Rightarrow>
         if hasNetworkErrorCode 5 (Some cause) then network_error label (err_message cause) cause else cause)"

text \<open>throw RateLimitError.fromRpcError(err) ?? err.\<close>

definition as_rate_limit :: "thrown \<Rightarrow> thrown" where
  "as_rate_limit e = (case fromRpcError (\<lambda>_. None) 0 None e of Some e' \<Rightarrow> e' | None \<Rightarrow> e)"

section \<open>The discipline of a proxied call\<close>

lemma record_rpc_frame [simp]:
  "trace (recordRpcSuccess url w) = trace w" "breakers (recordRpcSuccess url w) = breakers w"
  "trace (recordRpcTimeout url w) = trace w" "breakers (recordRpcTimeout url w) = breakers w"
  by (simp_all add: recordRpcSuccess_def recordRpcTimeout_def getConsecutiveTimeouts_def Let_def split: option.split)

lemma withRetry_calls:
  assumes "0 \<le> maxRetries opts"
  shows "int (fst (snd (fst (withRetry opts False now env cs)))) \<le> maxRetries opts + 1"
proof (cases "circuit_admits opts now cs")
  case True
  then show ?thesis
    using loop_calls [of opts env 0 "baseDelayMs opts" "baseDelayMs opts" 0 "[]"] assms
    by (simp add: withRetry_admitted)
next
  case False
  then show ?thesis using withRetry_refused [OF False, of env] assms by simp
qed

lemma proxied_call_trace:
  "\<exists>k \<le> 4. trace (snd (proxied_call env url c f w)) = trace w @ replicate k c"
proof -
  let ?r = "withRetry (proxy_options url) False (clock_at env (calls_made w)) (attempts_env env (calls_made w) f) (breakers w)"
  have "int (fst (snd (fst ?r))) \<le> maxRetries (proxy_options url) + 1"
    by (rule withRetry_calls) (simp add: proxy_options_def)
  then have k: "fst (snd (fst ?r)) \<le> 4" by (simp add: proxy_options_def)
  show ?thesis
    by (rule exI [of _ "fst (snd (fst ?r))"])
       (use k in \<open>auto simp: proxied_call_def Let_def split: prod.splits sum.splits\<close>)
qed

lemma proxied_call_refused:
  assumes "cs_state (fst (getCircuitState (clock_at env (calls_made w)) url (breakers w))) = Open"
  shows "\<exists>e. fst (proxied_call env url c f w) = Inl e \<and> is_circuit_open e \<and>
    snd (proxied_call env url c f w) = w \<lparr> breakers := snd (getCircuitState (clock_at env (calls_made w)) url (breakers w)) \<rparr>"
  using assms
  by (cases "getCircuitState (clock_at env (calls_made w)) url (breakers w)")
     (simp add: proxied_call_def withRetry_def proxy_options_def Let_def circuit_open_error_def new_error_def is_circuit_open_def)

lemma never_aborted_attempts: "never_aborted (attempts_env env n f)"
  by (simp add: never_aborted_def attempts_env_def)

lemma proxied_call_result:
  assumes "cs_state (fst (getCircuitState (clock_at env (calls_made w)) url (breakers w))) \<noteq> Open"
  obtains k where "k < 4" "trace (snd (proxied_call env url c f w)) = trace w @ replicate (k + 1) c"
    "fst (proxied_call env url c f w) = outcome_at (attempts_env env (calls_made w) f) k"
proof -
  let ?o = "proxy_options url" and ?e = "attempts_env env (calls_made w) f" and ?t = "clock_at env (calls_made w)"
  have adm: "circuit_admits ?o ?t (breakers w)" using assms by (simp add: circuit_admits_def proxy_options_def)
  have max: "maxRetries ?o = 3" by (simp add: proxy_options_def)
  obtain k where k: "decisive ?o ?e k" "int k \<le> 3" "\<forall>j < k. \<not> decisive ?o ?e j"
    using decisive_exists [of ?o ?e] max by auto
  obtain new where "retry_loop ?o ?e 0 (baseDelayMs ?o) (baseDelayMs ?o) 0 [] = (outcome_at ?e k, k + 1, new)"
    using loop_to_decisive [OF never_aborted_attempts k(1) _ k(3), of 0 "baseDelayMs ?o" "baseDelayMs ?o" 0 "[]"] k(2) max
    by auto
  then have r: "fst (withRetry ?o False ?t ?e (breakers w)) = (outcome_at ?e k, k + 1, new)"
    by (simp add: withRetry_admitted [OF adm])
  then obtain cs where "withRetry ?o False ?t ?e (breakers w) = ((outcome_at ?e k, k + 1, new), cs)"
    by (cases "withRetry ?o False ?t ?e (breakers w)") simp
  then have "trace (snd (proxied_call env url c f w)) = trace w @ replicate (k + 1) c"
    "fst (proxied_call env url c f w) = outcome_at ?e k"
    by (simp_all add: proxied_call_def Let_def split: sum.split)
  then show thesis using that [of k] k(2) by simp
qed

text \<open>
  A proxied RPC method never repeats itself more than three times and never touches a broken
  endpoint: it makes between one and four identical calls and answers with the last one, or,
  when the circuit of the endpoint is open, fails with CircuitOpenError having sent nothing and
  recorded nothing.
\<close>
theorem proxied_call_discipline:
  "if cs_state (fst (getCircuitState (clock_at env (calls_made w)) url (breakers w))) = Open
   then (\<exists>e. fst (proxied_call env url c f w) = Inl e \<and> is_circuit_open e) \<and>
     trace (snd (proxied_call env url c f w)) = trace w \<and>
     endpoint_timeouts (snd (proxied_call env url c f w)) = endpoint_timeouts w
   else (\<exists>k < 4. trace (snd (proxied_call env url c f w)) = trace w @ replicate (k + 1) c \<and>
     (case f (calls_made w + k) of
        Inr a \<Rightarrow> fst (proxied_call env url c f w) = Inr a
      | Inl raised \<Rightarrow> fst (proxied_call env url c f w) = Inl (classified (attempts_env env (calls_made w) f) k raised)))"
proof (cases "cs_state (fst (getCircuitState (clock_at env (calls_made w)) url (breakers w))) = Open")
  case True
  then show ?thesis using proxied_call_refused [of env w url c f] by auto
next
  case False
  then obtain k where k: "k < 4" "trace (snd (proxied_call env url c f w)) = trace w @ replicate (k + 1) c"
    "fst (proxied_call env url c f w) = outcome_at (attempts_env env (calls_made w) f) k"
    using proxied_call_result by blast
  have "call_result (attempts_env env (calls_made w) f) k = f (calls_made w + k)" by (simp add: attempts_env_def)
  then have "case f (calls_made w + k) of
        Inr a \<Rightarrow> fst (proxied_call env url c f w) = Inr a
      | Inl raised \<Rightarrow> fst (proxied_call env url c f w) = Inl (classified (attempts_env env (calls_made w) f) k raised)"
    by (cases "f (calls_made w + k)") (simp_all add: k(3) outcome_at_def)
  then show ?thesis using False k(1,2) by auto
qed

lemma proxied_call_discipline_witness:
  "fst (proxied_call sample_outside ''rpc'' Get_latest_ledger (\<lambda>n. Inr n) initial_rpc_world) = Inr (0 :: nat) \<or>
   (\<exists>k < 4. trace (snd (proxied_call sample_outside ''rpc'' Get_latest_ledger (\<lambda>n. Inr n) initial_rpc_world)) =
     replicate (k + 1) Get_latest_ledger)"
  using proxied_call_discipline [of sample_outside initial_rpc_world "''rpc''" Get_latest_ledger "\<lambda>n. Inr n"]
  by (auto simp: initial_rpc_world_def initial_circuits_def getCircuitState_def closed_status_def)

section \<open>A logic of handlers\<close>

text \<open>
  runs P Q m: from every world, m only adds calls satisfying P to the trace, and a value it
  returns satisfies Q.  The rules below follow the combinators, so a proof about a handler
  follows its text.
\<close>

definition runs :: "(ext_call \<Rightarrow> bool) \<Rightarrow> ('a \<Rightarrow> bool) \<Rightarrow> ('z rpc_world_scheme, 'a) io \<Rightarrow> bool" where
  "runs P Q m = (\<forall>w. (\<exists>cs. trace (snd (m w)) = trace w @ cs \<and> list_all P cs) \<and> (\<forall>a. fst (m w) = Inr a \<longrightarrow> Q a))"

named_theorems runs_rules \<open>rules of the handler logic\<close>

lemma runs_return [runs_rules]: "Q a \<Longrightarrow> runs P Q (io_return a)"
  by (simp add: runs_def io_return_def)

lemma runs_throw [runs_rules]: "runs P Q (io_throw e)"
  by (simp add: runs_def io_throw_def)

lemma runs_lift [runs_rules]: "(\<And>a. r = Inr a \<Longrightarrow> Q a) \<Longrightarrow> runs P Q (io_lift r)"
  by (simp add: runs_def io_lift_def)

lemma runs_bind:
  assumes "runs P Q m" "\<And>a. Q a \<Longrightarrow> runs P R (f a)"
  shows "runs P R (io_bind m f)"
  unfolding runs_def
proof (intro allI)
  fix w
  obtain cs where cs: "trace (snd (m w)) = trace w @ cs" "list_all P cs" and q: "\<forall>a. fst (m w) = Inr a \<longrightarrow> Q a"
    using assms(1) by (auto simp: runs_def)
  show "(\<exists>cs. trace (snd (io_bind m f w)) = trace w @ cs \<and> list_all P cs) \<and> (\<forall>a. fst (io_bind m f w) = Inr a \<longrightarrow> R a)"
  proof (cases "fst (m w)")
    case (Inl e)
    then show ?thesis using cs by (cases "m w") (auto simp: io_bind_def)
  next
    case (Inr a)
    then have f: "runs P R (f a)" using assms(2) q by blast
    obtain ds where ds: "trace (snd (f a (snd (m w)))) = trace (snd (m w)) @ ds" "list_all P ds"
      using f by (auto simp: runs_def)
    have b: "io_bind m f w = f a (snd (m w))" using Inr by (cases "m w") (simp add: io_bind_def)
    have "trace (snd (io_bind m f w)) = trace w @ (cs @ ds) \<and> list_all P (cs @ ds)" using b cs ds by simp
    moreover have "\<forall>a'. fst (io_bind m f w) = Inr a' \<longrightarrow> R a'" using f b by (auto simp: runs_def)
    ultimately show ?thesis by blast
  qed
qed

lemma runs_catch:
  assumes "runs P Q m" "\<And>e. runs P Q (h e)"
  shows "runs P Q (io_catch m h)"
  unfolding runs_def
proof (intro allI)
  fix w
  obtain cs where cs: "trace (snd (m w)) = trace w @ cs" "list_all P cs" using assms(1) by (auto simp: runs_def)
  show "(\<exists>cs. trace (snd (io_catch m h w)) = trace w @ cs \<and> list_all P cs) \<and> (\<forall>a. fst (io_catch m h w) = Inr a \<longrightarrow> Q a)"
  proof (cases "fst (m w)")
    case (Inl e)
    obtain ds where ds: "trace (snd (h e (snd (m w)))) = trace (snd (m w)) @ ds" "list_all P ds"
      using assms(2) by (fastforce simp: runs_def)
    have b: "io_catch m h w = h e (snd (m w))" using Inl by (cases "m w") (simp add: io_catch_def)
    have "trace (snd (io_catch m h w)) = trace w @ (cs @ ds) \<and> list_all P (cs @ ds)" using b cs ds by simp
    moreover have "\<forall>a. fst (io_catch m h w) = Inr a \<longrightarrow> Q a" using assms(2) [of e] b by (auto simp: runs_def)
    ultimately show ?thesis by blast
  next
    case (Inr a)
    then have "io_catch m h w = m w" by (cases "m w") (simp add: io_catch_def)
    then show ?thesis using cs assms(1) by (auto simp: runs_def)
  qed
qed

lemma runs_map_error: "runs P Q m \<Longrightarrow> runs P Q (io_map_error h m)"
  unfolding runs_def io_map_error_def by (auto split: prod.split sum.split) (metis fst_conv snd_conv)+

lemma runs_try: "runs P Q m \<Longrightarrow> runs P (\<lambda>r. \<forall>a. r = Inr a \<longrightarrow> Q a) (io_try m)"
  unfolding runs_def io_try_def by (auto split: prod.split) (metis fst_conv snd_conv)+

lemma runs_gets [runs_rules]: "runs P (\<lambda>_. True) (io_gets f)"
  by (simp add: runs_def io_gets_def)

lemma runs_modify [runs_rules]: "(\<And>w. trace (f w) = trace w) \<Longrightarrow> runs P (\<lambda>_. True) (io_modify f)"
  by (simp add: runs_def io_modify_def)

lemma runs_guard [runs_rules]: "runs P (\<lambda>_. b) (io_guard b e)"
  by (simp add: runs_def io_guard_def)

lemma runs_now [runs_rules]: "runs P (\<lambda>_. True) (io_now env)"
  by (simp add: runs_def io_now_def)

lemma runs_aborted [runs_rules]: "runs P (\<lambda>_. True) (throwIfAborted env signal)"
  by (simp add: runs_def throwIfAborted_def)

lemma runs_direct [runs_rules]: "P c \<Longrightarrow> (\<And>n a. f n = Inr a \<Longrightarrow> Q a) \<Longrightarrow> runs P Q (direct_call c f)"
  by (auto simp: runs_def direct_call_def)

lemma runs_sleep [runs_rules]: "P (Sleep ms) \<Longrightarrow> runs P (\<lambda>_. True) (io_sleep ms)"
  by (simp add: io_sleep_def runs_direct)

lemma runs_proxied [runs_rules]:
  assumes "P c" "\<And>n a. f n = Inr a \<Longrightarrow> Q a"
  shows "runs P Q (proxied_call env url c f)"
  unfolding runs_def
proof (intro allI conjI)
  fix w
  obtain k where "trace (snd (proxied_call env url c f w)) = trace w @ replicate k c"
    using proxied_call_trace by blast
  then show "\<exists>cs. trace (snd (proxied_call env url c f w)) = trace w @ cs \<and> list_all P cs"
    using assms(1) by (auto simp: list_all_iff)
  fix a
  show "fst (proxied_call env url c f w) = Inr a \<longrightarrow> Q a"
  proof
    assume r: "fst (proxied_call env url c f w) = Inr a"
    then have "cs_state (fst (getCircuitState (clock_at env (calls_made w)) url (breakers w))) \<noteq> Open"
      using proxied_call_refused [of env w url c f] by auto
    then obtain k where "fst (proxied_call env url c f w) = outcome_at (attempts_env env (calls_made w) f) k"
      using proxied_call_result [of env w url c f] by blast
    then have "f (calls_made w + k) = Inr a" using r by (auto simp: outcome_at_def attempts_env_def split: sum.splits)
    then show "Q a" by (rule assms(2))
  qed
qed

lemma runs_weaken: "runs P Q m \<Longrightarrow> (\<And>c. P c \<Longrightarrow> P' c) \<Longrightarrow> (\<And>a. Q a \<Longrightarrow> Q' a) \<Longrightarrow> runs P' Q' m"
  unfolding runs_def list_all_iff by meson

lemma runs_value: "runs P Q m \<Longrightarrow> runs P (\<lambda>_. True) m"
  by (rule runs_weaken) simp_all

lemma runs_mapM:
  assumes "\<And>x. x \<in> set xs \<Longrightarrow> runs P Q (f x)"
  shows "runs P (\<lambda>ys. length ys = length xs \<and> list_all Q ys) (io_mapM f xs)"
  using assms
proof (induction xs)
  case (Cons x xs)
  show ?case
    unfolding io_mapM.simps
    by (rule runs_bind [OF Cons.prems], simp, rule runs_bind [OF Cons.IH], use Cons.prems in simp)
       (auto intro: runs_return)
qed (simp add: runs_return)

lemma runs_calls: "runs P Q m \<Longrightarrow> list_all P (drop (length (trace w)) (trace (snd (m w))))"
  unfolding runs_def by (metis append_eq_conv_conj)

text \<open>Calls that read: neither a signature is asked for nor a transaction submitted.\<close>

fun read_only :: "ext_call \<Rightarrow> bool" where
  "read_only (Send _) = False"
| "read_only (Sign _) = False"
| "read_only _ = True"

end
