(* ===== verification/Soroban.thy ===== *)
theory Soroban
  imports Rpc_World
begin

text \<open>
  The Soroban pipeline of src/soroban.ts: fees, polling, the ledger and token caches, building,
  simulating and submitting contract calls, each as a handler over Rpc_World.
\<close>

section \<open>Fees\<close>

definition BASE_FEE :: string where "BASE_FEE = ''100''"
definition DEFAULT_RESOURCE_FEE_ESTIMATE :: int where "DEFAULT_RESOURCE_FEE_ESTIMATE = 1000000"
definition CREATE_RESOURCE_FEE_ESTIMATE :: int where "CREATE_RESOURCE_FEE_ESTIMATE = 30000000"

definition bigint_of_number :: "jsnum \<Rightarrow> (thrown, int) result" where
  "bigint_of_number n =
    (if is_integer_num n then Inr (int_of_num n)
     else Inl (range_error ''The number cannot be converted to a BigInt because it is not an integer''))"

definition resolveFee :: "string option \<Rightarrow> jsnum option \<Rightarrow> (thrown, string) result" where
  "resolveFee fee feeMultiplier =
    (case fee of Some f \<Rightarrow> Inr f
     | None \<Rightarrow> (case feeMultiplier of
         Some m \<Rightarrow> result_bind (bigint_of_number m) (\<lambda>k. Inr (show_int (100 * k)))
       | None \<Rightarrow> Inr BASE_FEE))"

definition toPositiveBigIntOrNull :: "jsval \<Rightarrow> int option" where
  "toPositiveBigIntOrNull v =
    (case (case v of
       JBigint n \<Rightarrow> Some n
     | JNumber (Num r) \<Rightarrow> Some (trunc_rat r)
     | JString s \<Rightarrow> bigint_of_string (trim s)
     | _ \<Rightarrow> None) of
       Some n \<Rightarrow> if n > 0 then Some n else None
     | None \<Rightarrow> None)"

definition estimateRequiredFee :: "sim_reply \<Rightarrow> int \<Rightarrow> int" where
  "estimateRequiredFee sim fallback =
    (case sim of
       Sim_error _ \<Rightarrow> fallback
     | Sim_ok r \<Rightarrow>
         (case toPositiveBigIntOrNull (sim_minResourceFee r) of
            Some n \<Rightarrow> n
          | None \<Rightarrow> (case toPositiveBigIntOrNull (sim_fee r) of Some n \<Rightarrow> n | None \<Rightarrow> fallback)))"

section \<open>Polling for confirmation\<close>

record polling =
  pollIntervalMs :: int
  maxAttempts :: int
  strict :: bool

definition normalizePollingOptions :: "int option \<Rightarrow> int option \<Rightarrow> bool option \<Rightarrow> polling" where
  "normalizePollingOptions interval attempts st =
    \<lparr> pollIntervalMs = (case interval of Some n \<Rightarrow> n | None \<Rightarrow> 1000),
      maxAttempts = (case attempts of Some n \<Rightarrow> n | None \<Rightarrow> 30),
      strict = (case st of Some b \<Rightarrow> b | None \<Rightarrow> False) \<rparr>"

datatype poll_outcome = Poll_success "sc_val option" | Poll_failed | Poll_timeout int | Poll_error thrown int

definition get_transaction :: "outside \<Rightarrow> string \<Rightarrow> string \<Rightarrow> ('z rpc_world_scheme, tx_status) io" where
  "get_transaction env url h =
    io_map_error (catchNetworkError ''getTransaction'')
      (proxied_call env url (Get_transaction h) (\<lambda>n. tx_reply env n h))"

fun poll_loop ::
    "outside \<Rightarrow> string \<Rightarrow> string \<Rightarrow> polling \<Rightarrow> bool \<Rightarrow> nat \<Rightarrow> int \<Rightarrow> ('z rpc_world_scheme, poll_outcome) io" where
  "poll_loop env url h p signal 0 i = io_return (Poll_timeout (maxAttempts p))"
| "poll_loop env url h p signal (Suc left) i =
    io_bind (throwIfAborted env signal) (\<lambda>_.
    io_bind (io_sleep (pollIntervalMs p)) (\<lambda>_.
    io_bind (throwIfAborted env signal) (\<lambda>_.
    io_bind (io_try (get_transaction env url h)) (\<lambda>status.
    case status of
      Inl e \<Rightarrow> io_return (Poll_error e (i + 1))
    | Inr (Tx_success rv) \<Rightarrow> io_return (Poll_success rv)
    | Inr Tx_failed \<Rightarrow> io_return Poll_failed
    | Inr Tx_not_found \<Rightarrow> poll_loop env url h p signal left (i + 1)))))"

definition pollForConfirmation ::
    "outside \<Rightarrow> string \<Rightarrow> string \<Rightarrow> polling \<Rightarrow> bool \<Rightarrow> ('z rpc_world_scheme, poll_outcome) io" where
  "pollForConfirmation env url h p signal = poll_loop env url h p signal (nat (maxAttempts p)) 0"

definition confirmation_timeout :: "string \<Rightarrow> int \<Rightarrow> int \<Rightarrow> thrown" where
  "confirmation_timeout h attempts elapsed =
    new_error (ConfirmationTimeoutError h attempts elapsed)
      (''Transaction confirmation timed out after '' @ show_int attempts @ '' attempts ('' @ show_int elapsed @
       ''ms): '' @ h @ ''. The transaction was submitted and may still confirm on-chain.'')"

record confirmed_transaction =
  ct_hash :: string
  ct_returnValue :: "sc_val option"

definition waitForConfirmation ::
    "outside \<Rightarrow> string \<Rightarrow> string \<Rightarrow> int option \<Rightarrow> int option \<Rightarrow> bool \<Rightarrow> ('z rpc_world_scheme, confirmed_transaction) io" where
  "waitForConfirmation env url h interval attempts signal =
    (let p = normalizePollingOptions interval attempts None in
     io_bind (pollForConfirmation env url h p signal) (\<lambda>outcome.
     case outcome of
       Poll_success rv \<Rightarrow> io_return \<lparr> ct_hash = h, ct_returnValue = rv \<rparr>
     | Poll_failed \<Rightarrow> io_throw (plain_error (''Transaction failed: '' @ h))
     | Poll_timeout n \<Rightarrow> io_throw (confirmation_timeout h n (n * pollIntervalMs p))
     | Poll_error e _ \<Rightarrow> io_throw (as_rate_limit e)))"

section \<open>Ledger information\<close>

definition DEFAULT_LEDGER_CACHE_TTL_MS :: int where "DEFAULT_LEDGER_CACHE_TTL_MS = 5000"

record LedgerInfo =
  li_sequence :: int
  li_timestamp :: jsnum
  li_closedAt :: string

definition info_of_cached :: "cached_ledger \<Rightarrow> LedgerInfo" where
  "info_of_cached c = \<lparr> li_sequence = cl_sequence c, li_timestamp = cl_timestamp c, li_closedAt = cl_closedAt c \<rparr>"

definition fetch_ledger :: "outside \<Rightarrow> string \<Rightarrow> int \<Rightarrow> ('z rpc_world_scheme, LedgerInfo) io" where
  "fetch_ledger env url now =
    io_bind (io_map_error as_rate_limit (io_map_error (catchNetworkError ''getLatestLedger'')
      (proxied_call env url Get_latest_ledger (\<lambda>n. ledger_reply_at env n)))) (\<lambda>ledger.
    let c = \<lparr> cl_sequence = l_sequence ledger,
              cl_timestamp = (case parse_date env (l_closedAt ledger) of
                Some ms \<Rightarrow> Num (of_int (ms div 1000)) | None \<Rightarrow> NaN),
              cl_closedAt = l_closedAt ledger, cl_cachedAt = now \<rparr>
    in io_bind (io_modify (\<lambda>w. w \<lparr> ledgerInfoCache := (ledgerInfoCache w)(url \<mapsto> c) \<rparr>)) (\<lambda>_.
       io_return (info_of_cached c)))"

definition getLatestLedgerInfo :: "outside \<Rightarrow> string \<Rightarrow> ('z rpc_world_scheme, LedgerInfo) io" where
  "getLatestLedgerInfo env url =
    io_bind (io_now env) (\<lambda>now.
    io_bind (io_gets (\<lambda>w. ledgerInfoCache w url)) (\<lambda>cached.
    case cached of
      Some c \<Rightarrow>
        if now - cl_cachedAt c < DEFAULT_LEDGER_CACHE_TTL_MS then io_return (info_of_cached c)
        else fetch_ledger env url now
    | None \<Rightarrow> fetch_ledger env url now))"

definition clearLedgerInfoCache :: "string option \<Rightarrow> 'z rpc_world_scheme \<Rightarrow> 'z rpc_world_scheme" where
  "clearLedgerInfoCache url w =
    (case url of
       Some u \<Rightarrow> if u = [] then w \<lparr> ledgerInfoCache := (\<lambda>_. None) \<rparr>
                 else w \<lparr> ledgerInfoCache := (ledgerInfoCache w)(u := None) \<rparr>
     | None \<Rightarrow> w \<lparr> ledgerInfoCache := (\<lambda>_. None) \<rparr>)"

section \<open>Accounts and transactions\<close>

record account =
  acc_id :: string
  acc_sequence :: int

definition strip_slashes :: "string \<Rightarrow> string" where
  "strip_slashes s = rev (dropWhile (\<lambda>c. c = CHR ''/'') (rev s))"

definition fetchAccountFromHorizon :: "outside \<Rightarrow> string \<Rightarrow> string \<Rightarrow> ('z rpc_world_scheme, account) io" where
  "fetchAccountFromHorizon env horizonUrl accountId =
    io_bind (io_try (direct_call (Horizon_account (strip_slashes horizonUrl) accountId)
      (\<lambda>n. horizon_answer env n (strip_slashes horizonUrl @ ''/accounts/'' @ accountId)))) (\<lambda>res.
    case res of
      Inl cause \<Rightarrow> io_throw (ErrorObject StreamFiNetworkError
        (''Horizon fallback request failed for account '' @ accountId) None None None (Some cause))
    | Inr (Horizon_status st) \<Rightarrow> io_throw (new_error StreamFiNetworkError
        (''Horizon fallback failed to fetch account '' @ accountId @ '': HTTP '' @ show_int st))
    | Inr (Horizon_sequence None) \<Rightarrow> io_throw (new_error StreamFiNetworkError
        (''Horizon fallback returned no sequence number for account '' @ accountId))
    | Inr (Horizon_sequence (Some sq)) \<Rightarrow> io_return \<lparr> acc_id = accountId, acc_sequence = sq \<rparr>)"

definition endpoint_unreachable :: "thrown \<Rightarrow> bool" where
  "endpoint_unreachable err =
    (case err_class err of
       Some StreamFiNetworkError \<Rightarrow> True
     | Some (RpcServiceUnavailableError _) \<Rightarrow> True
     | Some (CircuitOpenError _ _) \<Rightarrow> True
     | _ \<Rightarrow> False)"

definition getAccountWithFallback ::
    "outside \<Rightarrow> string \<Rightarrow> string \<Rightarrow> string option \<Rightarrow> ('z rpc_world_scheme, account) io" where
  "getAccountWithFallback env url caller horizonUrl =
    io_catch
      (io_map_error (catchNetworkError ''getAccount'')
        (io_bind (proxied_call env url (Get_account caller) (\<lambda>n. account_reply env n caller)) (\<lambda>sq.
         io_return \<lparr> acc_id = caller, acc_sequence = sq \<rparr>)))
      (\<lambda>err. case horizonUrl of
         Some h \<Rightarrow> if endpoint_unreachable err \<and> h \<noteq> [] then fetchAccountFromHorizon env h caller else io_throw err
       | None \<Rightarrow> io_throw err)"

definition buildContractCallTx ::
    "outside \<Rightarrow> string \<Rightarrow> string \<Rightarrow> string \<Rightarrow> string \<Rightarrow> sc_val list \<Rightarrow> string \<Rightarrow> string option \<Rightarrow> string option
      \<Rightarrow> ('z rpc_world_scheme, contract_tx) io" where
  "buildContractCallTx env url caller contractId method args fee memo horizonUrl =
    io_bind (io_map_error as_rate_limit (getAccountWithFallback env url caller horizonUrl)) (\<lambda>acc.
    io_bind (io_lift (new_contract env contractId)) (\<lambda>cid.
    io_return \<lparr> tx_caller = acc_id acc, tx_sequence = acc_sequence acc + 1, tx_contract = cid, tx_method = method,
      tx_args = args, tx_fee = fee, tx_memo = memo, tx_signatures = [] \<rparr>))"

definition simulate :: "outside \<Rightarrow> string \<Rightarrow> string \<Rightarrow> contract_tx \<Rightarrow> ('z rpc_world_scheme, sim_reply) io" where
  "simulate env url label tx =
    io_map_error (catchNetworkError label) (proxied_call env url (Simulate tx) (\<lambda>n. simulate_reply env n tx))"

definition send :: "outside \<Rightarrow> string \<Rightarrow> contract_tx \<Rightarrow> ('z rpc_world_scheme, send_reply) io" where
  "send env url tx =
    io_map_error as_rate_limit (io_map_error (catchNetworkError ''sendTransaction'')
      (proxied_call env url (Send tx) (\<lambda>n. send_reply env n tx)))"

definition signer_result :: "sign_reply \<Rightarrow> contract_tx \<Rightarrow> contract_tx" where
  "signer_result reply assembled =
    (case reply of Signed_tx t \<Rightarrow> t | Signed_in_place t \<Rightarrow> t | _ \<Rightarrow> assembled)"

definition settle_invocation :: "string \<Rightarrow> polling \<Rightarrow> poll_outcome \<Rightarrow> (thrown, string) result" where
  "settle_invocation h p outcome =
    (case outcome of
       Poll_success _ \<Rightarrow> Inr h
     | Poll_failed \<Rightarrow> Inl (plain_error (''Transaction failed: '' @ h))
     | Poll_error _ attempt \<Rightarrow>
         if strict p then Inl (confirmation_timeout h attempt (attempt * pollIntervalMs p)) else Inr h
     | Poll_timeout _ \<Rightarrow>
         if strict p then Inl (confirmation_timeout h (maxAttempts p) (maxAttempts p * pollIntervalMs p)) else Inr h)"

text \<open>The submission of a signed transaction, the polling that follows, and its outcome.\<close>

definition submit_and_settle ::
    "outside \<Rightarrow> string \<Rightarrow> contract_tx \<Rightarrow> polling \<Rightarrow> ('z rpc_world_scheme, string) io" where
  "submit_and_settle env url t p =
    io_bind (send env url t) (\<lambda>sent.
    case sent of
      Send_rejected m \<Rightarrow> io_throw (plain_error (''Transaction rejected: '' @ m))
    | Send_accepted h \<Rightarrow>
        io_bind (pollForConfirmation env url h p False) (\<lambda>outcome. io_lift (settle_invocation h p outcome)))"

definition invokeContract :: "outside \<Rightarrow> string \<Rightarrow> contract_tx \<Rightarrow> polling \<Rightarrow> ('z rpc_world_scheme, string) io" where
  "invokeContract env url tx p =
    io_bind (io_map_error as_rate_limit (simulate env url ''simulateTransaction (invoke)'' tx)) (\<lambda>sim.
    case sim of
      Sim_error m \<Rightarrow> io_throw (plain_error (''Simulation failed: '' @ m))
    | Sim_ok r \<Rightarrow>
        let assembled = assemble_tx env tx r in
        io_bind (direct_call (Sign assembled) (\<lambda>n. sign_answer env n assembled)) (\<lambda>reply.
        submit_and_settle env url (signer_result reply assembled) p))"

definition simulateReadOnly :: "outside \<Rightarrow> string \<Rightarrow> contract_tx \<Rightarrow> ('z rpc_world_scheme, sc_val) io" where
  "simulateReadOnly env url tx =
    io_bind (io_map_error as_rate_limit (simulate env url ''simulateTransaction (readonly)'' tx)) (\<lambda>sim.
    case sim of
      Sim_error m \<Rightarrow> io_throw (plain_error (''Simulation error: '' @ m))
    | Sim_ok r \<Rightarrow> (case sim_retval r of
        None \<Rightarrow> io_throw (plain_error ''Simulation returned no result'')
      | Some v \<Rightarrow> io_return v))"

section \<open>Token decimals and balances\<close>

text \<open>One call at a time: a settled entry of the promise cache is its value.\<close>

definition getTokenDecimals :: "outside \<Rightarrow> string \<Rightarrow> string \<Rightarrow> string \<Rightarrow> ('z rpc_world_scheme, int) io" where
  "getTokenDecimals env url caller tokenId =
    (let cacheKey = url @ '':'' @ tokenId in
     io_bind (io_gets (\<lambda>w. tokenDecimalsCache w cacheKey)) (\<lambda>cached.
     case cached of
       Some d \<Rightarrow> io_bind (io_modify (\<lambda>w. w \<lparr> tokenDecimalsHits := tokenDecimalsHits w + 1 \<rparr>)) (\<lambda>_. io_return d)
     | None \<Rightarrow>
         io_bind (io_modify (\<lambda>w. w \<lparr> tokenDecimalsMisses := tokenDecimalsMisses w + 1 \<rparr>)) (\<lambda>_.
         io_bind (buildContractCallTx env url caller tokenId ''decimals'' [] BASE_FEE None None) (\<lambda>tx.
         io_bind (simulateReadOnly env url tx) (\<lambda>v.
         io_bind (io_lift (scValToU32 v)) (\<lambda>d.
         io_bind (io_modify (\<lambda>w. w \<lparr> tokenDecimalsCache := (tokenDecimalsCache w)(cacheKey \<mapsto> d) \<rparr>)) (\<lambda>_.
         io_return d)))))))"

definition resetTokenDecimalsCacheMetrics :: "'z rpc_world_scheme \<Rightarrow> 'z rpc_world_scheme" where
  "resetTokenDecimalsCacheMetrics w = w \<lparr> tokenDecimalsHits := 0, tokenDecimalsMisses := 0 \<rparr>"

definition clearTokenDecimalsCache :: "bool \<Rightarrow> 'z rpc_world_scheme \<Rightarrow> 'z rpc_world_scheme" where
  "clearTokenDecimalsCache resetMetrics w =
    (let w1 = w \<lparr> tokenDecimalsCache := (\<lambda>_. None) \<rparr>
     in if resetMetrics then resetTokenDecimalsCacheMetrics w1 else w1)"

definition queryXlmBalance :: "outside \<Rightarrow> string \<Rightarrow> string \<Rightarrow> string \<Rightarrow> ('z rpc_world_scheme, int) io" where
  "queryXlmBalance env url passphrase accountId =
    io_bind (io_lift (address_toScVal env accountId)) (\<lambda>a.
    io_bind (buildContractCallTx env url accountId (asset_contract env ''native'' passphrase) ''balance'' [a]
      BASE_FEE None None) (\<lambda>tx.
    io_bind (simulateReadOnly env url tx) (\<lambda>v. io_lift (scValToI128 v))))"

section \<open>Handlers that only read\<close>

lemma runs_read_build [runs_rules]:
  "runs read_only (\<lambda>t. tx_contract t \<in> {c. new_contract env contractId = Inr c} \<and> tx_method t = method \<and> tx_args t = args)
     (buildContractCallTx env url caller contractId method args fee memo horizonUrl)"
proof -
  have "runs read_only (\<lambda>_. True) (fetchAccountFromHorizon env h a)" for h a
    unfolding fetchAccountFromHorizon_def
    by (rule runs_bind [OF runs_try [OF runs_direct]])
       (auto intro: runs_rules split: sum.split horizon_reply.split option.split)
  then have "runs read_only (\<lambda>_. True) (getAccountWithFallback env url caller horizonUrl)"
    unfolding getAccountWithFallback_def
    by (intro runs_catch runs_map_error runs_bind [OF runs_proxied])
       (auto intro: runs_rules split: option.split)
  then show ?thesis
    unfolding buildContractCallTx_def
    by (intro runs_bind [OF runs_map_error]; (assumption | intro runs_bind [OF runs_lift])?)
       (auto intro!: runs_rules runs_bind [OF runs_lift, where Q = "\<lambda>c. new_contract env contractId = Inr c"])
qed

lemma runs_read_simulate [runs_rules]: "runs read_only (\<lambda>_. True) (simulate env url label tx)"
  unfolding simulate_def by (intro runs_map_error runs_proxied) simp_all

lemma runs_read_simulateReadOnly [runs_rules]: "runs read_only (\<lambda>_. True) (simulateReadOnly env url tx)"
  unfolding simulateReadOnly_def
  by (rule runs_bind [OF runs_map_error [OF runs_read_simulate]])
     (auto intro: runs_rules split: sim_reply.split option.split)

lemma runs_read_poll: "runs (\<lambda>c. c = Sleep (pollIntervalMs p) \<or> c = Get_transaction h) (\<lambda>_. True) (poll_loop env url h p signal n i)"
proof (induction n arbitrary: i)
  case (Suc n)
  have get: "runs (\<lambda>c. c = Sleep (pollIntervalMs p) \<or> c = Get_transaction h) (\<lambda>_. True) (get_transaction env url h)"
    unfolding get_transaction_def by (intro runs_map_error runs_proxied) simp_all
  show ?case
    unfolding poll_loop.simps
    by (intro runs_bind [OF runs_aborted] runs_bind [OF runs_sleep] runs_bind [OF runs_try [OF get]])
       (auto intro: runs_rules Suc split: sum.split tx_status.split)
qed (simp add: runs_return)

lemma runs_read_confirmation [runs_rules]: "runs read_only (\<lambda>_. True) (pollForConfirmation env url h p signal)"
  unfolding pollForConfirmation_def by (rule runs_weaken [OF runs_read_poll]) auto

lemma runs_read_ledger: "runs read_only (\<lambda>_. True) (getLatestLedgerInfo env url)"
proof -
  have "runs read_only (\<lambda>_. True) (fetch_ledger env url now)" for now
    unfolding fetch_ledger_def Let_def
    by (rule runs_bind [OF runs_map_error [OF runs_map_error [OF runs_proxied]]])
       (auto intro!: runs_rules runs_bind [OF runs_modify])
  then show ?thesis
    unfolding getLatestLedgerInfo_def
    by (intro runs_bind [OF runs_now] runs_bind [OF runs_gets]) (auto intro: runs_rules split: option.split)
qed

lemma runs_read_decimals [runs_rules]: "runs read_only (\<lambda>_. True) (getTokenDecimals env url caller tokenId)"
  unfolding getTokenDecimals_def Let_def
  by (rule runs_bind [OF runs_gets])
     (auto intro!: runs_rules runs_bind [OF runs_modify] runs_bind [OF runs_value [OF runs_read_build]]
        runs_bind [OF runs_read_simulateReadOnly] runs_bind [OF runs_lift, where Q = "\<lambda>_. True"] split: option.split)

lemma runs_read_balance [runs_rules]: "runs read_only (\<lambda>_. True) (queryXlmBalance env url passphrase a)"
  unfolding queryXlmBalance_def
  by (auto intro!: runs_rules runs_bind [OF runs_value [OF runs_read_build]] runs_bind [OF runs_read_simulateReadOnly]
        runs_bind [OF runs_lift, where Q = "\<lambda>_. True"])

lemma runs_read_wait: "runs read_only (\<lambda>_. True) (waitForConfirmation env url h interval attempts signal)"
  unfolding waitForConfirmation_def Let_def
  by (rule runs_bind [OF runs_read_confirmation]) (auto intro: runs_rules split: poll_outcome.split)

section \<open>Properties\<close>

text \<open>
  Reads have no side effects on the ledger: resolving decimals and balances, waiting for a
  confirmation, reading the ledger and building or simulating a call never ask the wallet for a
  signature and never submit a transaction, whatever the node answers.
\<close>
theorem pipeline_reads_only:
  "list_all read_only (drop (length (trace w)) (trace (snd (getTokenDecimals env url caller tokenId w)))) \<and>
   list_all read_only (drop (length (trace w)) (trace (snd (queryXlmBalance env url passphrase caller w)))) \<and>
   list_all read_only (drop (length (trace w)) (trace (snd (waitForConfirmation env url h interval attempts signal w)))) \<and>
   list_all read_only (drop (length (trace w)) (trace (snd (getLatestLedgerInfo env url w)))) \<and>
   list_all read_only (drop (length (trace w)) (trace (snd (simulateReadOnly env url tx w))))"
  by (intro conjI runs_calls [OF runs_read_decimals] runs_calls [OF runs_read_balance] runs_calls [OF runs_read_wait]
      runs_calls [OF runs_read_ledger] runs_calls [OF runs_read_simulateReadOnly])

lemma cached_decimals:
  assumes "fst (getTokenDecimals env url caller tokenId w) = Inr d"
  shows "tokenDecimalsCache (snd (getTokenDecimals env url caller tokenId w)) (url @ '':'' @ tokenId) = Some d"
  using assms
  by (auto simp: getTokenDecimals_def Let_def io_bind_def io_gets_def io_modify_def io_lift_def io_return_def
      split: prod.splits sum.splits option.splits)

text \<open>
  The token cache serves what was read: after a successful getTokenDecimals, every later call for
  the same token gives the same number without any external call, until the cache is cleared.
\<close>
theorem token_decimals_cached:
  assumes "fst (getTokenDecimals env url caller tokenId w) = Inr d"
  shows "getTokenDecimals env2 url caller2 tokenId (snd (getTokenDecimals env url caller tokenId w)) =
    (Inr d, snd (getTokenDecimals env url caller tokenId w)
       \<lparr> tokenDecimalsHits := tokenDecimalsHits (snd (getTokenDecimals env url caller tokenId w)) + 1 \<rparr>)"
  using cached_decimals [OF assms]
  by (simp add: getTokenDecimals_def [of env2] Let_def io_bind_def io_gets_def io_modify_def io_return_def)

lemma token_decimals_cached_witness:
  "getTokenDecimals sample_outside ''rpc'' ''GB'' ''T'' (initial_rpc_world \<lparr> tokenDecimalsCache := [''rpc:T'' \<mapsto> 7], tokenDecimalsHits := 1 \<rparr>)
   = (Inr 7, initial_rpc_world \<lparr> tokenDecimalsCache := [''rpc:T'' \<mapsto> 7], tokenDecimalsHits := 2 \<rparr>)"
proof -
  let ?w = "initial_rpc_world \<lparr> tokenDecimalsCache := [''rpc:T'' \<mapsto> 7] \<rparr>"
  have r: "getTokenDecimals sample_outside ''rpc'' ''GA'' ''T'' ?w = (Inr 7, ?w \<lparr> tokenDecimalsHits := 1 \<rparr>)"
    by (simp add: getTokenDecimals_def Let_def io_bind_def io_gets_def io_modify_def io_return_def initial_rpc_world_def)
  show ?thesis
    using token_decimals_cached [of sample_outside "''rpc''" "''GA''" "''T''" ?w 7 sample_outside "''GB''"] unfolding r
    by (simp add: initial_rpc_world_def)
qed

definition transport_failure :: "thrown \<Rightarrow> bool" where
  "transport_failure e =
    (err_class e \<noteq> Some StreamFiNetworkError \<and> (\<nexists>a b. err_class e = Some (InsufficientBalanceError a b)) \<and>
     (hasNetworkErrorCode 5 (Some e) \<or>
      err_class e = Some TypeErrorClass \<and> err_message e \<in> set NETWORK_TYPE_ERROR_MESSAGES))"

lemma catchNetworkError_cases:
  "catchNetworkError label e = (if transport_failure e then network_error label (err_message e) e else e)"
  by (simp add: catchNetworkError_def transport_failure_def split: option.split error_class.split)

text \<open>
  catchNetworkError neither hides nor invents an outage: the error it rethrows is the original or
  a StreamFiNetworkError that carries the original as its cause; it wraps exactly the errors
  with a transport code in their cause chain or a canonical fetch message on a TypeError; and
  wrapping twice changes nothing.
\<close>
theorem catchNetworkError_classifies:
  "(catchNetworkError label e = e \<or>
    (err_class (catchNetworkError label e) = Some StreamFiNetworkError \<and> err_cause (catchNetworkError label e) = Some e)) \<and>
   (err_class (catchNetworkError label e) = Some StreamFiNetworkError \<longleftrightarrow>
     err_class e = Some StreamFiNetworkError \<or>
     ((\<nexists>a b. err_class e = Some (InsufficientBalanceError a b)) \<and>
      (hasNetworkErrorCode 5 (Some e) \<or>
       err_class e = Some TypeErrorClass \<and> err_message e \<in> set NETWORK_TYPE_ERROR_MESSAGES))) \<and>
   catchNetworkError label2 (catchNetworkError label e) = catchNetworkError label e"
proof -
  have n: "err_class (network_error label m e) = Some StreamFiNetworkError" "err_cause (network_error label m e) = Some e" for m
    by (simp_all add: network_error_def)
  show ?thesis
    by (auto simp: catchNetworkError_cases n) (auto simp: transport_failure_def n)
qed

fun is_sleep :: "ext_call \<Rightarrow> bool" where
  "is_sleep (Sleep _) = True"
| "is_sleep _ = False"

definition sleeps :: "ext_call list \<Rightarrow> nat" where "sleeps cs = length (filter is_sleep cs)"

lemma get_transaction_trace:
  obtains k where "trace (snd (get_transaction env url h w)) = trace w @ replicate k (Get_transaction h)"
proof -
  obtain k where "trace (snd (proxied_call env url (Get_transaction h) (\<lambda>n. tx_reply env n h) w)) =
      trace w @ replicate k (Get_transaction h)" using proxied_call_trace by blast
  then show thesis using that [of k] by (simp add: get_transaction_def)
qed

lemma poll_round:
  obtains (stopped) k res where "poll_loop env url h p signal (Suc n) i w = (res, snd (poll_loop env url h p signal (Suc n) i w))"
      "trace (snd (poll_loop env url h p signal (Suc n) i w)) = trace w @ k" "sleeps k \<le> 1" "\<forall>m. res \<noteq> Inr (Poll_timeout m)"
      "signal \<or> result_ok res"
  | (again) k w1 where "poll_loop env url h p signal (Suc n) i w = poll_loop env url h p signal n (i + 1) w1"
      "trace w1 = trace w @ k" "sleeps k = 1"
proof -
  let ?w1 = "w \<lparr> trace := trace w @ [Sleep (pollIntervalMs p)] \<rparr>"
  have nosleep: "sleeps (replicate k (Get_transaction h)) = 0" for k by (simp add: sleeps_def)
  consider "signal \<and> aborted_now env (calls_made w)" | "\<not> (signal \<and> aborted_now env (calls_made w))"
      "signal \<and> aborted_now env (calls_made ?w1)"
    | "\<not> (signal \<and> aborted_now env (calls_made w))" "\<not> (signal \<and> aborted_now env (calls_made ?w1))" by blast
  then show thesis
  proof cases
    case 1
    then show thesis using stopped [of "Inl aborted" "[]"]
      by (simp add: io_bind_def throwIfAborted_def sleeps_def)
  next
    case 2
    then show thesis using stopped [of "Inl aborted" "[Sleep (pollIntervalMs p)]"]
      by (simp add: io_bind_def throwIfAborted_def io_sleep_def direct_call_def sleeps_def)
  next
    case 3
    obtain st w2 where g: "get_transaction env url h ?w1 = (st, w2)" by (cases "get_transaction env url h ?w1") blast
    obtain k where "trace (snd (get_transaction env url h ?w1)) = trace ?w1 @ replicate k (Get_transaction h)"
      by (rule get_transaction_trace)
    then have t: "trace w2 = trace w @ (Sleep (pollIntervalMs p) # replicate k (Get_transaction h))"
      "sleeps (Sleep (pollIntervalMs p) # replicate k (Get_transaction h)) = 1"
      using g nosleep by (simp_all add: sleeps_def)
    have ab: "throwIfAborted env signal w = (Inr (), w)" "throwIfAborted env signal ?w1 = (Inr (), ?w1)"
      using 3 by (simp_all add: throwIfAborted_def)
    have run: "poll_loop env url h p signal (Suc n) i w =
        (case st of Inl e \<Rightarrow> (Inr (Poll_error e (i + 1)), w2) | Inr (Tx_success rv) \<Rightarrow> (Inr (Poll_success rv), w2)
         | Inr Tx_failed \<Rightarrow> (Inr Poll_failed, w2) | Inr Tx_not_found \<Rightarrow> poll_loop env url h p signal n (i + 1) w2)"
      using g ab by (simp add: io_bind_def io_sleep_def direct_call_def io_try_def io_return_def
          split: sum.split tx_status.split)
    show thesis
    proof (cases "st = Inr Tx_not_found")
      case True
      then show thesis using again [of w2] run t by simp
    next
      case False
      then obtain o' where "poll_loop env url h p signal (Suc n) i w = (Inr o', w2)" "\<forall>m. o' \<noteq> Poll_timeout m"
        using run by (cases st) (auto split: tx_status.splits)
      then show thesis using stopped [of "Inr o'"] t by simp
    qed
  qed
qed

lemma poll_loop_sleeps:
  "\<exists>k. trace (snd (poll_loop env url h p signal n i w)) = trace w @ k \<and> sleeps k \<le> n \<and>
     (\<forall>m. fst (poll_loop env url h p signal n i w) = Inr (Poll_timeout m) \<longrightarrow> m = maxAttempts p \<and> sleeps k = n) \<and>
     (signal \<or> result_ok (fst (poll_loop env url h p signal n i w)))"
proof (induction n arbitrary: i w)
  case 0
  show ?case by (simp add: io_return_def sleeps_def)
next
  case (Suc n)
  show ?case
  proof (cases rule: poll_round [of env url h p signal n i w])
    case (stopped k res)
    then have "fst (poll_loop env url h p signal (Suc n) i w) = res" by (metis fst_conv)
    then show ?thesis using stopped by (intro exI [of _ k]) (auto simp del: poll_loop.simps)
  next
    case (again k w1)
    obtain k' where "trace (snd (poll_loop env url h p signal n (i + 1) w1)) = trace w1 @ k'" "sleeps k' \<le> n"
      "\<forall>m. fst (poll_loop env url h p signal n (i + 1) w1) = Inr (Poll_timeout m) \<longrightarrow> m = maxAttempts p \<and> sleeps k' = n"
      "signal \<or> result_ok (fst (poll_loop env url h p signal n (i + 1) w1))"
      using Suc.IH by blast
    then show ?thesis using again by (intro exI [of _ "k @ k'"]) (auto simp: sleeps_def simp del: poll_loop.simps)
  qed
qed

lemma polling_bounds:
  "\<exists>cs. trace (snd (pollForConfirmation env url h p signal w)) = trace w @ cs \<and>
     list_all (\<lambda>c. c = Sleep (pollIntervalMs p) \<or> c = Get_transaction h) cs \<and> sleeps cs \<le> nat (maxAttempts p) \<and>
     (\<forall>m. fst (pollForConfirmation env url h p signal w) = Inr (Poll_timeout m) \<longrightarrow>
        m = maxAttempts p \<and> sleeps cs = nat (maxAttempts p)) \<and>
     (signal \<or> result_ok (fst (pollForConfirmation env url h p signal w)))"
proof -
  obtain cs where cs: "trace (snd (pollForConfirmation env url h p signal w)) = trace w @ cs"
    "sleeps cs \<le> nat (maxAttempts p)"
    "\<forall>m. fst (pollForConfirmation env url h p signal w) = Inr (Poll_timeout m) \<longrightarrow>
        m = maxAttempts p \<and> sleeps cs = nat (maxAttempts p)"
    "signal \<or> result_ok (fst (pollForConfirmation env url h p signal w))"
    unfolding pollForConfirmation_def using poll_loop_sleeps by blast
  have "list_all (\<lambda>c. c = Sleep (pollIntervalMs p) \<or> c = Get_transaction h) cs"
    using runs_calls [OF runs_read_poll [where p = p and h = h and env = env and url = url and signal = signal
        and n = "nat (maxAttempts p)" and i = 0], of w] cs(1)
    by (simp add: pollForConfirmation_def)
  then show ?thesis using cs by blast
qed

text \<open>
  Polling ends: pollForConfirmation sleeps at most maxAttempts times, makes no other call than
  sleeping and asking for its own hash, reports a timeout exactly when it has used every
  attempt, and without an abort signal it never throws.
\<close>
theorem pollForConfirmation_bounded:
  "\<exists>cs. trace (snd (pollForConfirmation env url h p signal w)) = trace w @ cs \<and>
     list_all (\<lambda>c. c = Sleep (pollIntervalMs p) \<or> c = Get_transaction h) cs \<and> sleeps cs \<le> nat (maxAttempts p) \<and>
     (\<forall>m. fst (pollForConfirmation env url h p signal w) = Inr (Poll_timeout m) \<longrightarrow>
        m = maxAttempts p \<and> sleeps cs = nat (maxAttempts p)) \<and>
     (signal \<or> result_ok (fst (pollForConfirmation env url h p signal w)))"
  by (rule polling_bounds)

lemma pollForConfirmation_bounded_witness:
  "\<exists>cs. trace (snd (pollForConfirmation (sample_outside \<lparr> tx_reply := \<lambda>_ _. Inr Tx_not_found \<rparr>) ''rpc'' ''h''
      \<lparr> pollIntervalMs = 1000, maxAttempts = 2, strict = False \<rparr> False initial_rpc_world)) = cs \<and> sleeps cs \<le> 2"
  using pollForConfirmation_bounded [of "sample_outside \<lparr> tx_reply := \<lambda>_ _. Inr Tx_not_found \<rparr>" "''rpc''" "''h''"
      "\<lparr> pollIntervalMs = 1000, maxAttempts = 2, strict = False \<rparr>" False initial_rpc_world]
  by (auto simp: initial_rpc_world_def)

lemma runs_send: "runs (\<lambda>c. c = Send t) (\<lambda>r. \<exists>n. send_reply env n t = Inr r) (send env url t)"
  unfolding send_def by (intro runs_map_error runs_proxied) auto

lemma runs_simulate: "runs (\<lambda>c. c = Simulate t) (\<lambda>_. True) (simulate env url label t)"
  unfolding simulate_def by (intro runs_map_error runs_proxied) simp_all

lemma runs_step:
  assumes "runs P Q m" "m w = (r, w')"
  obtains cs where "trace w' = trace w @ cs" "list_all P cs" "\<forall>a. r = Inr a \<longrightarrow> Q a"
  using assms unfolding runs_def by (metis fst_conv snd_conv)

definition sends :: "ext_call list \<Rightarrow> contract_tx list" where
  "sends cs = List.map_filter (\<lambda>c. case c of Send t \<Rightarrow> Some t | _ \<Rightarrow> None) cs"

definition polls :: "ext_call list \<Rightarrow> bool" where
  "polls cs = list_ex (\<lambda>c. case c of Get_transaction _ \<Rightarrow> True | Sleep _ \<Rightarrow> True | _ \<Rightarrow> False) cs"

lemma sends_append [simp]: "sends (cs @ ds) = sends cs @ sends ds"
  by (simp add: sends_def List.map_filter_def)

lemma polls_append [simp]: "polls (cs @ ds) \<longleftrightarrow> polls cs \<or> polls ds"
  by (simp add: polls_def)

lemma sign_silent [simp]: "sends (Sign t # cs) = sends cs" "polls (Sign t # cs) = polls cs" "sends [] = []" "\<not> polls []"
  by (simp_all add: sends_def polls_def List.map_filter_def)

lemma no_sends: "list_all (\<lambda>c. \<forall>t. c \<noteq> Send t) cs \<Longrightarrow> sends cs = []"
  by (induction cs) (auto simp: sends_def List.map_filter_simps split: ext_call.split)

lemma only_sends: "list_all (\<lambda>c. c = Send t) cs \<Longrightarrow> set (sends cs) \<subseteq> {t} \<and> \<not> polls cs"
  by (induction cs) (auto simp: sends_def polls_def List.map_filter_simps)

lemma no_polls: "list_all (\<lambda>c. c = Simulate t) cs \<Longrightarrow> sends cs = [] \<and> \<not> polls cs"
  by (induction cs) (auto simp: sends_def polls_def List.map_filter_simps)

lemma submit_and_settle_hash:
  assumes "\<not> strict p" "\<forall>n t r. send_reply env n t = Inr r \<longrightarrow> r = Send_accepted h"
  shows "\<exists>cs. trace (snd (submit_and_settle env url t p w)) = trace w @ cs \<and> set (sends cs) \<subseteq> {t} \<and>
    (polls cs \<longrightarrow> fst (submit_and_settle env url t p w) \<in> {Inr h, Inl (plain_error (''Transaction failed: '' @ h))}) \<and>
    (\<forall>k. fst (submit_and_settle env url t p w) = Inr k \<longrightarrow> k = h)"
proof -
  obtain rs w1 where s: "send env url t w = (rs, w1)" by (cases "send env url t w") blast
  obtain c1 where c1: "trace w1 = trace w @ c1" "list_all (\<lambda>c. c = Send t) c1"
    "\<forall>a. rs = Inr a \<longrightarrow> (\<exists>n. send_reply env n t = Inr a)" by (rule runs_step [OF runs_send s])
  show ?thesis
  proof (cases rs)
    case (Inl e)
    then show ?thesis using s c1 only_sends [OF c1(2)]
      by (intro exI [of _ c1]) (simp add: submit_and_settle_def io_bind_def)
  next
    case (Inr sent)
    then have sent: "sent = Send_accepted h" using c1(3) assms(2) by blast
    obtain ro w2 where o: "pollForConfirmation env url h p False w1 = (ro, w2)"
      by (cases "pollForConfirmation env url h p False w1") blast
    obtain c2 where c2: "trace w2 = trace w1 @ c2"
      "list_all (\<lambda>c. c = Sleep (pollIntervalMs p) \<or> c = Get_transaction h) c2" "result_ok ro"
      using polling_bounds [of env url h p False w1] o by auto
    have "sends c2 = []" using c2(2) by (intro no_sends) (auto simp: list_all_iff)
    moreover obtain out where out: "ro = Inr out" using c2(3) by (auto simp: result_ok_iff)
    moreover have "settle_invocation h p out \<in> {Inr h, Inl (plain_error (''Transaction failed: '' @ h))}"
      using assms(1) by (auto simp: settle_invocation_def split: poll_outcome.split)
    ultimately show ?thesis using s Inr sent o c1 c2 only_sends [OF c1(2)]
      by (intro exI [of _ "c1 @ c2"]) (auto simp: submit_and_settle_def io_bind_def io_lift_def)
  qed
qed

text \<open>
  C15: invokeContract submits one transaction and does not lose it: all submissions of a call are
  retries of the same signed transaction, and without the strict option, once polling has begun
  the call ends with the submitted hash or with the network's own report of failure, never
  with a polling error.
\<close>
theorem invokeContract_keeps_hash:
  assumes "\<not> strict p" "\<forall>n t r. send_reply env n t = Inr r \<longrightarrow> r = Send_accepted h"
  shows "\<exists>cs t. trace (snd (invokeContract env url tx p w)) = trace w @ cs \<and> set (sends cs) \<subseteq> {t} \<and>
    (polls cs \<longrightarrow> fst (invokeContract env url tx p w) \<in> {Inr h, Inl (plain_error (''Transaction failed: '' @ h))}) \<and>
    (\<forall>k. fst (invokeContract env url tx p w) = Inr k \<longrightarrow> k = h)"
proof -
  let ?sim = "io_map_error as_rate_limit (simulate env url ''simulateTransaction (invoke)'' tx)"
  obtain rs w1 where s: "?sim w = (rs, w1)" by (cases "?sim w") blast
  obtain c1 where c1: "trace w1 = trace w @ c1" "list_all (\<lambda>c. c = Simulate tx) c1"
    by (rule runs_step [OF runs_map_error [OF runs_simulate] s])
  note q1 = no_polls [OF c1(2)]
  consider e where "rs = Inl e" | m where "rs = Inr (Sim_error m)" | r where "rs = Inr (Sim_ok r)"
    by (cases rs) (auto intro: sim_reply.exhaust)
  then show ?thesis
  proof cases
    case 1
    then show ?thesis using s c1 q1 by (intro exI [of _ c1]) (simp add: invokeContract_def io_bind_def)
  next
    case 2
    then show ?thesis using s c1 q1 by (intro exI [of _ c1]) (simp add: invokeContract_def io_bind_def io_throw_def)
  next
    case 3
    let ?a = "assemble_tx env tx r" and ?w2 = "w1 \<lparr> trace := trace w1 @ [Sign (assemble_tx env tx r)] \<rparr>"
    have q2: "sends [Sign ?a] = [] \<and> \<not> polls [Sign ?a]" by (simp add: sends_def polls_def List.map_filter_simps)
    show ?thesis
    proof (cases "sign_answer env (calls_made w1) ?a")
      case (Inl e)
      then show ?thesis using 3 s c1 q1 q2
        by (intro exI [of _ "c1 @ [Sign ?a]"]) (simp add: invokeContract_def io_bind_def direct_call_def Let_def)
    next
      case (Inr reply)
      let ?t = "signer_result reply ?a"
      have run: "invokeContract env url tx p w = submit_and_settle env url ?t p ?w2"
      proof -
        have d: "direct_call (Sign ?a) (\<lambda>n. sign_answer env n ?a) w1 = (Inr reply, ?w2)" using Inr by (simp add: direct_call_def)
        have s': "?sim w = (Inr (Sim_ok r), w1)" using s 3 by simp
        show ?thesis
          unfolding invokeContract_def
          by (subst io_bind_Inr [where m = ?sim and w = w, OF s'], unfold sim_reply.case Let_def,
              rule io_bind_Inr [where m = "direct_call (Sign ?a) (\<lambda>n. sign_answer env n ?a)" and w = w1, OF d])
      qed
      obtain cs where cs: "trace (snd (submit_and_settle env url ?t p ?w2)) = trace ?w2 @ cs" "set (sends cs) \<subseteq> {?t}"
        "polls cs \<longrightarrow> fst (submit_and_settle env url ?t p ?w2) \<in> {Inr h, Inl (plain_error (''Transaction failed: '' @ h))}"
        "\<forall>k. fst (submit_and_settle env url ?t p ?w2) = Inr k \<longrightarrow> k = h"
        using submit_and_settle_hash [OF assms, where url = url and t = ?t and w = ?w2] by blast
      then show ?thesis unfolding run using c1 q1 q2
        by (intro exI [of _ "c1 @ [Sign ?a] @ cs"] exI [of _ ?t]) auto
    qed
  qed
qed

lemma invokeContract_keeps_hash_witness:
  "fst (invokeContract sample_outside ''rpc''
      \<lparr> tx_caller = ''GA'', tx_sequence = 1, tx_contract = ''C'', tx_method = ''pause'', tx_args = [], tx_fee = ''100'',
        tx_memo = None, tx_signatures = [] \<rparr> \<lparr> pollIntervalMs = 1, maxAttempts = 3, strict = False \<rparr> initial_rpc_world)
     \<noteq> Inr ''another hash''"
proof -
  let ?p = "\<lparr> pollIntervalMs = 1, maxAttempts = 3, strict = False \<rparr>"
  let ?tx = "\<lparr> tx_caller = ''GA'', tx_sequence = 1, tx_contract = ''C'', tx_method = ''pause'', tx_args = [],
    tx_fee = ''100'', tx_memo = None, tx_signatures = [] \<rparr>"
  have "\<not> strict ?p" "\<forall>n t r. send_reply sample_outside n t = Inr r \<longrightarrow> r = Send_accepted ''h''"
    by (simp_all add: sample_outside_def)
  from invokeContract_keeps_hash [OF this, of "''rpc''" ?tx initial_rpc_world]
  have "fst (invokeContract sample_outside ''rpc'' ?tx ?p initial_rpc_world) = Inr k \<longrightarrow> k = ''h''" for k by blast
  from this [of "''another hash''"] show ?thesis by auto
qed

end
