(* ===== verification/Handler_Logic.thy ===== *)
theory Handler_Logic
  imports Rpc_World
begin

text \<open>
  Two more logics of handlers beside runs: keeps says that a part of the world is not touched,
  yields that a handler returns (total correctness) from every world of an invariant, which
  it keeps.  The rules follow the combinators.
\<close>

section \<open>Frames\<close>

definition keeps :: "('w \<Rightarrow> 'b) \<Rightarrow> ('w, 'a) io \<Rightarrow> bool" where
  "keeps view m = (\<forall>w. view (snd (m w)) = view w)"

named_theorems keeps_rules \<open>frame rules of the combinators\<close>

lemma keepsD: "keeps view m \<Longrightarrow> view (snd (m w)) = view w"
  by (simp add: keeps_def)

lemma keeps_pure [keeps_rules]:
  "keeps view (io_return a)" "keeps view (io_throw e)" "keeps view (io_lift r)" "keeps view (io_gets g)"
  "keeps view (io_guard b e)"
  by (simp_all add: keeps_def io_return_def io_throw_def io_lift_def io_gets_def io_guard_def)

lemma keeps_reads [keeps_rules]: "keeps view (io_now env)" "keeps view (throwIfAborted env signal)"
  by (simp_all add: keeps_def io_now_def throwIfAborted_def)

lemma keeps_modify: "(\<And>w. view (f w) = view w) \<Longrightarrow> keeps view (io_modify f)"
  by (simp add: keeps_def io_modify_def)

lemma keeps_bind [keeps_rules]: "keeps view m \<Longrightarrow> (\<And>a. keeps view (f a)) \<Longrightarrow> keeps view (io_bind m f)"
  unfolding keeps_def io_bind_def by (auto split: prod.split sum.split) (metis snd_conv)+

lemma keeps_catch [keeps_rules]: "keeps view m \<Longrightarrow> (\<And>e. keeps view (h e)) \<Longrightarrow> keeps view (io_catch m h)"
  unfolding keeps_def io_catch_def by (auto split: prod.split sum.split) (metis snd_conv)+

lemma keeps_map_error [keeps_rules]: "keeps view m \<Longrightarrow> keeps view (io_map_error h m)"
  by (simp add: keeps_def)

lemma keeps_try [keeps_rules]: "keeps view m \<Longrightarrow> keeps view (io_try m)"
  unfolding keeps_def io_try_def by (auto split: prod.split) (metis snd_conv)

lemma keeps_mapM [keeps_rules]: "(\<And>x. keeps view (f x)) \<Longrightarrow> keeps view (io_mapM f xs)"
  by (induction xs) (auto intro: keeps_rules)

lemma keeps_more_calls [keeps_rules]:
  "keeps rpc_world.more (direct_call c f)" "keeps rpc_world.more (io_sleep ms)"
  "keeps rpc_world.more (proxied_call env url c g)"
  by (auto simp: keeps_def direct_call_def io_sleep_def proxied_call_def recordRpcSuccess_def recordRpcTimeout_def
      getConsecutiveTimeouts_def Let_def split: prod.split sum.split option.split)

lemma keeps_branches [keeps_rules]:
  "keeps view m \<Longrightarrow> keeps view n \<Longrightarrow> keeps view (if c then m else n)"
  "keeps view m \<Longrightarrow> (\<And>a. keeps view (f a)) \<Longrightarrow> keeps view (case x of None \<Rightarrow> m | Some a \<Rightarrow> f a)"
  "(\<And>e. keeps view (g e)) \<Longrightarrow> (\<And>b. keeps view (k b)) \<Longrightarrow> keeps view (case y of Inl e \<Rightarrow> g e | Inr b \<Rightarrow> k b)"
  by (auto split: option.split sum.split)

text \<open>A view of the extension is kept by whatever keeps the extension.\<close>

lemma keeps_more: "keeps rpc_world.more m \<Longrightarrow> (\<And>w. view w = g (rpc_world.more w)) \<Longrightarrow> keeps view m"
  by (simp add: keeps_def)

lemma keeps_pair: "keeps v m \<Longrightarrow> keeps u m \<Longrightarrow> keeps (\<lambda>w. (v w, u w)) m"
  by (simp add: keeps_def)

lemma runs_branches:
  "runs P Q m \<Longrightarrow> runs P Q n \<Longrightarrow> runs P Q (if c then m else n)"
  "runs P Q m \<Longrightarrow> (\<And>a. runs P Q (f a)) \<Longrightarrow> runs P Q (case x of None \<Rightarrow> m | Some a \<Rightarrow> f a)"
  "(\<And>e. runs P Q (g e)) \<Longrightarrow> (\<And>b. runs P Q (k b)) \<Longrightarrow> runs P Q (case y of Inl e \<Rightarrow> g e | Inr b \<Rightarrow> k b)"
  by (auto split: option.split sum.split)

text \<open>The same rule for a step whose value is not looked at.\<close>

lemma runs_then: "runs P (\<lambda>_. True) m \<Longrightarrow> (\<And>a. runs P Q (f a)) \<Longrightarrow> runs P Q (io_bind m f)"
  by (rule runs_bind)

lemma runs_any_lift: "runs P (\<lambda>_. True) (io_lift r)"
  by (rule runs_lift) simp

section \<open>What is signed\<close>

definition signs_only :: "(contract_tx \<Rightarrow> bool) \<Rightarrow> ext_call \<Rightarrow> bool" where
  "signs_only A c = (case c of Sign t \<Rightarrow> A t | _ \<Rightarrow> True)"

lemma read_signs: "runs read_only Q m \<Longrightarrow> runs (signs_only A) Q m"
  by (erule runs_weaken) (auto simp: signs_only_def split: ext_call.splits)

text \<open>A transaction assembled from a call of the given method and arguments.\<close>

definition assembled_call :: "outside \<Rightarrow> string \<Rightarrow> sc_val list \<Rightarrow> contract_tx \<Rightarrow> bool" where
  "assembled_call env method args t =
    (\<exists>tx r. t = assemble_tx env tx r \<and> tx_method tx = method \<and> tx_args tx = args)"

section \<open>Total correctness\<close>

definition yields :: "('w \<Rightarrow> bool) \<Rightarrow> ('a \<Rightarrow> bool) \<Rightarrow> ('w, 'a) io \<Rightarrow> bool" where
  "yields I Q m = (\<forall>w. I w \<longrightarrow> (\<exists>a w'. m w = (Inr a, w') \<and> I w' \<and> Q a))"

named_theorems yields_rules \<open>total correctness of the combinators\<close>

lemma yieldsD: "yields I Q m \<Longrightarrow> I w \<Longrightarrow> (\<And>a w'. m w = (Inr a, w') \<Longrightarrow> I w' \<Longrightarrow> Q a \<Longrightarrow> thesis) \<Longrightarrow> thesis"
  unfolding yields_def by blast

lemma yields_return [yields_rules]: "Q a \<Longrightarrow> yields I Q (io_return a)"
  by (simp add: yields_def io_return_def)

lemma yields_lift [yields_rules]: "r = Inr a \<Longrightarrow> Q a \<Longrightarrow> yields I Q (io_lift r)"
  by (simp add: yields_def io_lift_def)

lemma yields_bind: "yields I P m \<Longrightarrow> (\<And>a. P a \<Longrightarrow> yields I Q (f a)) \<Longrightarrow> yields I Q (io_bind m f)"
  unfolding yields_def io_bind_def by (fastforce split: prod.split sum.split)

lemma yields_map_error [yields_rules]: "yields I Q m \<Longrightarrow> yields I Q (io_map_error h m)"
  unfolding yields_def io_map_error_def by (fastforce split: prod.split sum.split)

lemma yields_catch [yields_rules]: "yields I Q m \<Longrightarrow> yields I Q (io_catch m h)"
  unfolding yields_def io_catch_def by (fastforce split: prod.split sum.split)

lemma yields_gets [yields_rules]: "(\<And>w. I w \<Longrightarrow> Q (g w)) \<Longrightarrow> yields I Q (io_gets g)"
  by (simp add: yields_def io_gets_def)

lemma yields_modify [yields_rules]: "(\<And>w. I w \<Longrightarrow> I (g w)) \<Longrightarrow> yields I (\<lambda>_. True) (io_modify g)"
  by (simp add: yields_def io_modify_def)

lemma yields_now [yields_rules]: "yields I (\<lambda>_. True) (io_now env)"
  by (simp add: yields_def io_now_def)

lemma yields_aborted [yields_rules]: "yields I (\<lambda>_. True) (throwIfAborted env False)"
  by (simp add: yields_def throwIfAborted_def)

lemma yields_weaken: "yields I P m \<Longrightarrow> (\<And>a. P a \<Longrightarrow> Q a) \<Longrightarrow> yields I Q m"
  unfolding yields_def by blast

lemma yields_mapM:
  assumes "\<And>x. x \<in> set xs \<Longrightarrow> yields I (\<lambda>y. Q x y) (f x)"
  shows "yields I (\<lambda>ys. list_all2 Q xs ys) (io_mapM f xs)"
  using assms
proof (induction xs)
  case (Cons x xs)
  show ?case
    unfolding io_mapM.simps
    by (rule yields_bind [OF Cons.prems], simp, rule yields_bind [OF Cons.IH], use Cons.prems in simp)
       (auto intro: yields_return)
qed (simp add: yields_return)

lemma yields_frame:
  assumes "yields I Q m" "keeps view m"
  shows "yields (\<lambda>w. I w \<and> J (view w)) Q m"
  using assms unfolding yields_def keeps_def by (metis snd_conv)

text \<open>An endpoint whose circuit is not open, and which answers, stays so.\<close>

definition endpoint_up :: "string \<Rightarrow> 'z rpc_world_scheme \<Rightarrow> bool" where
  "endpoint_up url w = (state_of url (breakers w) \<noteq> Open)"

lemma endpoint_up_state:
  assumes "endpoint_up url w"
  shows "cs_state (fst (getCircuitState t url (breakers w))) \<noteq> Open" "snd (getCircuitState t url (breakers w)) = breakers w"
  using assms
  by (auto simp: endpoint_up_def state_of_def getCircuitState_def cooled_down_def closed_status_def split: option.splits)

lemma state_of_success: "state_of url s \<noteq> Open \<Longrightarrow> state_of url (recordSuccess t url s) \<noteq> Open"
  by (auto simp: recordSuccess_def state_of_def getCircuitState_def cooled_down_def put_circuit_def emitTransition_def
      notifyListeners_def Let_def split: option.splits)

lemma proxied_call_up:
  assumes "endpoint_up url w" "f (calls_made w) = Inr a"
  shows "\<exists>w'. proxied_call env url c f w = (Inr a, w') \<and> endpoint_up url w' \<and> trace w' = trace w @ [c]"
proof -
  let ?o = "proxy_options url" and ?e = "attempts_env env (calls_made w) f" and ?t = "clock_at env (calls_made w)"
  have "decisive ?o ?e 0" using assms(2) by (simp add: decisive_def attempts_env_def)
  then have l: "retry_loop ?o ?e 0 (baseDelayMs ?o) (baseDelayMs ?o) 0 [] = (outcome_at ?e 0, 1, [])"
    using loop_decisive [OF never_aborted_attempts, of 0 ?o] by (simp add: proxy_options_def)
  obtain st where g: "getCircuitState ?t url (breakers w) = (st, breakers w)" "cs_state st \<noteq> Open"
    using endpoint_up_state [OF assms(1)] by (metis prod.collapse)
  have "withRetry ?o False ?t ?e (breakers w) = ((outcome_at ?e 0, 1, []), breakers w)"
    using l g by (simp add: withRetry_def proxy_options_def)
  moreover have "outcome_at ?e 0 = Inr a" using assms(2) by (simp add: outcome_at_def attempts_env_def)
  ultimately show ?thesis
    using assms(1) state_of_success by (auto simp: proxied_call_def Let_def endpoint_up_def)
qed

lemma yields_proxied [yields_rules]:
  "(\<And>n. \<exists>a. f n = Inr a \<and> Q a) \<Longrightarrow> yields (endpoint_up url) Q (proxied_call env url c f)"
  unfolding yields_def using proxied_call_up by metis

lemma yields_direct [yields_rules]:
  "(\<And>n. \<exists>a. f n = Inr a \<and> Q a) \<Longrightarrow> yields (endpoint_up url) Q (direct_call c f)"
  unfolding yields_def direct_call_def endpoint_up_def by fastforce

lemma endpoint_up_initial: "endpoint_up url initial_rpc_world"
  by (simp add: endpoint_up_def initial_rpc_world_def initial_circuits_def state_of_def)

end
