(* ===== verification/Cursors.thy ===== *)
theory Cursors
  imports Validation
begin

text \<open>
  The opaque page cursors of src/factory.ts and src/streams.ts: a decimal offset in base64.
  Buffer.toString('base64') and Buffer.from(s, 'base64') are part of the runtime: the
  decoder accepts both alphabets and skips every other character.
\<close>

section \<open>Base64 as the runtime does it\<close>

definition b64_char :: "nat \<Rightarrow> char" where
  "b64_char n =
    (if n < 26 then char_of (65 + n) else if n < 52 then char_of (71 + n) else if n < 62 then char_of (n - 4)
     else if n = 62 then CHR ''+'' else CHR ''/'')"

definition sextet_of :: "char \<Rightarrow> nat option" where
  "sextet_of c = (let n = of_char c :: nat in
     if 65 \<le> n \<and> n \<le> 90 then Some (n - 65)
     else if 97 \<le> n \<and> n \<le> 122 then Some (n - 71)
     else if 48 \<le> n \<and> n \<le> 57 then Some (n + 4)
     else if n = 43 \<or> n = 45 then Some 62
     else if n = 47 \<or> n = 95 then Some 63
     else None)"

fun sextets :: "nat list \<Rightarrow> nat list" where
  "sextets (a # b # c # bs) = [a div 4, (a mod 4) * 16 + b div 16, (b mod 16) * 4 + c div 64, c mod 64] @ sextets bs"
| "sextets [a, b] = [a div 4, (a mod 4) * 16 + b div 16, (b mod 16) * 4]"
| "sextets [a] = [a div 4, (a mod 4) * 16]"
| "sextets [] = []"

fun octets :: "nat list \<Rightarrow> nat list" where
  "octets (s # t # u # v # rest) = [s * 4 + t div 16, (t mod 16) * 16 + u div 4, (u mod 4) * 64 + v] @ octets rest"
| "octets [s, t, u] = [s * 4 + t div 16, (t mod 16) * 16 + u div 4]"
| "octets [s, t] = [s * 4 + t div 16]"
| "octets _ = []"

definition b64_encode :: "string \<Rightarrow> string" where
  "b64_encode s = (let cs = List.map b64_char (sextets (List.map of_char s))
     in cs @ replicate ((4 - length cs mod 4) mod 4) CHR ''='')"

definition b64_decode :: "string \<Rightarrow> string" where
  "b64_decode s = List.map char_of (octets (List.map_filter sextet_of s))"

lemma sextets_less: "list_all (\<lambda>n. n < 256) bs \<Longrightarrow> list_all (\<lambda>n. n < 64) (sextets bs)"
  by (induction bs rule: sextets.induct) auto

lemma pack16: "b < 256 \<Longrightarrow> (x * 16 + b div 16) div 16 = x" "b < 256 \<Longrightarrow> (x * 16 + b div 16) mod 16 = b div 16"
  for b x :: nat
  by (simp_all add: div_mult_self3 less_mult_imp_div_less)

lemma pack4: "c < 256 \<Longrightarrow> (x * 4 + c div 64) div 4 = x" "c < 256 \<Longrightarrow> (x * 4 + c div 64) mod 4 = c div 64"
  for c x :: nat
  by (simp_all add: less_mult_imp_div_less)

lemma octets_sextets: "list_all (\<lambda>n. n < 256) bs \<Longrightarrow> octets (sextets bs) = bs"
proof (induction bs rule: sextets.induct)
  case (1 a b c bs)
  then have lt: "b < 256" "c < 256" by simp_all
  have "a div 4 * 4 + a mod 4 = a" "b div 16 * 16 + b mod 16 = b" "c div 64 * 64 + c mod 64 = c"
    by (simp_all only: div_mult_mod_eq)
  moreover have "octets (sextets bs) = bs" using 1 by simp
  ultimately show ?case
    unfolding sextets.simps octets.simps append.simps pack16 [OF lt(1)] pack4 [OF lt(2)] by simp
next
  case (2 a b)
  then have lt: "b < 256" by simp
  have "a div 4 * 4 + a mod 4 = a" "b div 16 * 16 + b mod 16 = b" by (simp_all only: div_mult_mod_eq)
  then show ?case unfolding sextets.simps octets.simps pack16 [OF lt] by simp
qed simp_all

lemma b64_alphabet_inverse: "n < 64 \<Longrightarrow> sextet_of (b64_char n) = Some n"
  by (auto simp: sextet_of_def b64_char_def Let_def)

lemma filter_sextets:
  "list_all (\<lambda>n. n < 64) ss \<Longrightarrow> List.map_filter sextet_of (List.map b64_char ss @ replicate k CHR ''='') = ss"
proof (induction ss)
  case Nil
  have "sextet_of CHR ''='' = None" by (simp add: sextet_of_def)
  then show ?case by (induction k) (simp_all add: List.map_filter_def)
next
  case (Cons s ss)
  then have "sextet_of (b64_char s) = Some s" using b64_alphabet_inverse by simp
  with Cons show ?case by (simp add: List.map_filter_simps)
qed

lemma b64_round_trip: "b64_decode (b64_encode s) = s"
proof -
  let ?bs = "List.map of_char s :: nat list"
  have bytes: "list_all (\<lambda>n. n < 256) ?bs" by (simp add: list_all_iff)
  have "b64_decode (b64_encode s) = List.map char_of (octets (sextets ?bs))"
    unfolding b64_decode_def b64_encode_def Let_def using filter_sextets [OF sextets_less [OF bytes]] by simp
  also have "\<dots> = s" unfolding octets_sextets [OF bytes] by (simp add: comp_def)
  finally show ?thesis .
qed

section \<open>Cursors\<close>

definition encodeStreamCursor :: "nat \<Rightarrow> string" where
  "encodeStreamCursor offset = b64_encode (show_nat offset)"

definition decodeStreamCursor :: "string option \<Rightarrow> (string, int) result" where
  "decodeStreamCursor cursor =
    (case cursor of
       None \<Rightarrow> Inr 0
     | Some c \<Rightarrow>
         let offset = number_of_string (b64_decode c)
         in if \<not> is_integer_num offset \<or> num_less offset (Num 0)
            then Inl (''getStreamsBySenderPaginated: invalid cursor \"'' @ c @ ''\"'')
            else Inr (int_of_num offset))"

text \<open>The cursor of StreamsModule.list: only a run of digits is accepted.\<close>

definition decode_list_cursor :: "string \<Rightarrow> (string, nat) result" where
  "decode_list_cursor c =
    (let decoded = b64_decode c
     in if decoded = [] \<or> \<not> list_all is_digit decoded
        then Inl (''Invalid cursor: \"'' @ c @ ''\"'') else Inr (digits_val decoded))"

text \<open>
  Page cursors round-trip: both readers give back exactly the offset that was encoded, so
  walking pages by cursor never skips or repeats one; the list reader rejects an empty cursor.
\<close>
theorem cursor_round_trip:
  "decodeStreamCursor (Some (encodeStreamCursor n)) = Inr (int n) \<and>
   decode_list_cursor (encodeStreamCursor n) = Inr n \<and> encodeStreamCursor n \<noteq> [] \<and>
   \<not> result_ok (decode_list_cursor [])"
proof -
  have "encodeStreamCursor n \<noteq> []"
  proof
    assume "encodeStreamCursor n = []"
    then have "b64_decode (encodeStreamCursor n) = []" by (simp add: b64_decode_def List.map_filter_def)
    then show False by (simp add: encodeStreamCursor_def b64_round_trip)
  qed
  moreover have "b64_decode [] = []" by (simp add: b64_decode_def List.map_filter_def)
  moreover have "of_int \<lfloor>rat_of_nat n\<rfloor> = rat_of_nat n" "\<lfloor>rat_of_nat n\<rfloor> = int n" by (simp_all add: floor_of_nat)
  ultimately show ?thesis
    by (simp add: decodeStreamCursor_def decode_list_cursor_def encodeStreamCursor_def b64_round_trip number_of_digits
        num_less_def Let_def)
qed

text \<open>The factory's reader takes Number('') as 0: a cursor that decodes to nothing restarts at page one.\<close>

lemma empty_cursor_restarts: "decodeStreamCursor (Some []) = Inr 0" "decodeStreamCursor (Some ''???'') = Inr 0"
  by code_simp+

end
