(* ===== verification/Factory.thy ===== *)
theory Factory
  imports Soroban Handler_Logic Cursors
begin

text \<open>
  The read handlers of FactoryModule (src/factory.ts) over the Soroban pipeline, with the
  module's caches in the world.  Construction follows the constructor; the wallet is the one
  of the outside, and f_activeWallet says whether an adapter is set (a configured keypair is
  wrapped into one).  Handlers run one at a time; a fan-out runs its calls in order, which is
  one of the schedules of Concurrency.
\<close>

section \<open>Configuration and construction\<close>

record ConduitConfig =
  network :: string
  cfg_rpcUrl :: "string option"
  cfg_horizonUrl :: "string option"
  factoryAddress :: "string option"
  cfg_wallet :: bool
  cfg_keypair :: "string option"
  cfg_signer :: "string option"
  negativeCacheTtlMs :: "int option"
  factoryConfigCacheTtlMs :: "int option"
  confirmationMaxAttempts :: "int option"
  confirmationPollIntervalMs :: "int option"
  cfg_fee :: "string option"
  cfg_feeMultiplier :: "jsnum option"
  signatureTimeoutMs :: "jsnum option"

definition SUPPORTED_NETWORKS :: "string list" where
  "SUPPORTED_NETWORKS = [''mainnet'', ''testnet'', ''local'']"

definition straight_quote :: string where "straight_quote = [CHR 0x27]"

definition unsupported_chain :: "string \<Rightarrow> thrown" where
  "unsupported_chain n = new_error (UnsupportedChainError n)
     (''Unsupported network: '' @ straight_quote @ n @ straight_quote @
      ''. The Conduit SDK currently supports: '' @ join_with '', '' SUPPORTED_NETWORKS @ ''.'')"

definition DEFAULT_RPC :: "string \<Rightarrow> string" where
  "DEFAULT_RPC n =
    (if n = ''mainnet'' then ''https://soroban-mainnet.stellar.org''
     else if n = ''testnet'' then ''https://soroban-testnet.stellar.org''
     else ''http://localhost:8000/soroban/rpc'')"

definition DEFAULT_HORIZON :: "string \<Rightarrow> string" where
  "DEFAULT_HORIZON n =
    (if n = ''mainnet'' then ''https://horizon.stellar.org''
     else if n = ''testnet'' then ''https://horizon-testnet.stellar.org''
     else ''http://localhost:8000'')"

definition ZERO_ADDR :: string where
  "ZERO_ADDR = ''GAAAAAAAAAAAAAAAAAAAAAAAAAAAAAAAAAAAAAAAAAAAAAAAAAAAAWHF''"

definition NEGATIVE_ADDRESS_CACHE_TTL_MS :: int where "NEGATIVE_ADDRESS_CACHE_TTL_MS = 30000"
definition FACTORY_CONFIG_CACHE_TTL_MS :: int where "FACTORY_CONFIG_CACHE_TTL_MS = 300000"

definition given_or :: "'a \<Rightarrow> 'a option \<Rightarrow> 'a" where
  "given_or d x = (case x of Some a \<Rightarrow> a | None \<Rightarrow> d)"

record FactoryModule =
  f_rpcUrl :: string
  f_horizonUrl :: string
  f_factoryId :: string
  f_negativeTtl :: int
  f_configTtl :: int
  f_signer :: "string option"
  f_keypair :: "string option"

record FactoryConfig =
  feeBps :: int
  feeRecipient :: "string option"

record factory_world = rpc_world +
  f_activeWallet :: bool
  f_cachedCaller :: "string option"
  addressCache :: "string \<Rightarrow> string option option"
  negativeCacheExpiry :: "string \<Rightarrow> int option"
  f_cacheHits :: nat
  f_cacheMisses :: nat
  factoryConfigCache :: "(FactoryConfig \<times> int) option"

definition new_FactoryModule :: "ConduitConfig \<Rightarrow> (thrown, FactoryModule) result" where
  "new_FactoryModule c =
    (if network c \<notin> set SUPPORTED_NETWORKS then Inl (unsupported_chain (network c))
     else case factoryAddress c of
       None \<Rightarrow> Inl (plain_error (''ConduitConfig.factoryAddress is required (no default DripFactory is known for network \"''
          @ network c @ ''\").''))
     | Some a \<Rightarrow>
         if a = [] then Inl (plain_error (''ConduitConfig.factoryAddress is required (no default DripFactory is known for network \"''
          @ network c @ ''\").''))
         else Inr \<lparr> f_rpcUrl = given_or (DEFAULT_RPC (network c)) (cfg_rpcUrl c),
                 f_horizonUrl = given_or (DEFAULT_HORIZON (network c)) (cfg_horizonUrl c), f_factoryId = a,
                 f_negativeTtl = given_or NEGATIVE_ADDRESS_CACHE_TTL_MS (negativeCacheTtlMs c),
                 f_configTtl = given_or FACTORY_CONFIG_CACHE_TTL_MS (factoryConfigCacheTtlMs c),
                 f_signer = cfg_signer c, f_keypair = cfg_keypair c \<rparr>)"

definition initial_factory_world :: "ConduitConfig \<Rightarrow> rpc_world \<Rightarrow> factory_world" where
  "initial_factory_world c w =
    rpc_world.extend w \<lparr> f_activeWallet = (cfg_wallet c \<or> cfg_keypair c \<noteq> None), f_cachedCaller = None,
      addressCache = (\<lambda>_. None), negativeCacheExpiry = (\<lambda>_. None), f_cacheHits = 0, f_cacheMisses = 0,
      factoryConfigCache = None \<rparr>"

definition setWallet :: "'z factory_world_scheme \<Rightarrow> 'z factory_world_scheme" where
  "setWallet w = w \<lparr> f_activeWallet := True, f_cachedCaller := None \<rparr>"

definition clearAddressCache :: "'z factory_world_scheme \<Rightarrow> 'z factory_world_scheme" where
  "clearAddressCache w = w \<lparr> addressCache := (\<lambda>_. None), negativeCacheExpiry := (\<lambda>_. None) \<rparr>"

definition resetCacheStats :: "'z factory_world_scheme \<Rightarrow> 'z factory_world_scheme" where
  "resetCacheStats w = w \<lparr> f_cacheHits := 0, f_cacheMisses := 0 \<rparr>"

definition getCacheMetrics :: "'z factory_world_scheme \<Rightarrow> nat \<times> nat \<times> nat" where
  "getCacheMetrics w = (f_cacheHits w, f_cacheMisses w, card (dom (addressCache w)))"

definition clearFactoryConfigCache :: "'z factory_world_scheme \<Rightarrow> 'z factory_world_scheme" where
  "clearFactoryConfigCache w = w \<lparr> factoryConfigCache := None \<rparr>"

section \<open>The caller of a simulation\<close>

definition wallet_key :: "outside \<Rightarrow> ('z rpc_world_scheme, string) io" where
  "wallet_key env = direct_call Get_public_key (public_key_reply env)"

definition remember_caller :: "string \<Rightarrow> ('z factory_world_scheme, string) io" where
  "remember_caller addr =
    io_bind (io_modify (\<lambda>w. w \<lparr> f_cachedCaller := Some addr \<rparr>)) (\<lambda>_. io_return addr)"

definition resolveCallerAddress :: "outside \<Rightarrow> FactoryModule \<Rightarrow> ('z factory_world_scheme, string) io" where
  "resolveCallerAddress env F =
    io_bind (io_gets f_cachedCaller) (\<lambda>cached.
    case cached of
      Some a \<Rightarrow> io_return a
    | None \<Rightarrow>
        io_bind (io_gets f_activeWallet) (\<lambda>active.
        if active then
          io_bind (wallet_key env) (\<lambda>pk.
          if pk \<noteq> [] \<and> pk \<noteq> ZERO_ADDR then remember_caller pk else io_return ZERO_ADDR)
        else
          let addr = (case f_signer F of Some s \<Rightarrow> s | None \<Rightarrow> (case f_keypair F of Some k \<Rightarrow> k | None \<Rightarrow> ZERO_ADDR))
          in if addr \<noteq> [] \<and> addr \<noteq> ZERO_ADDR then remember_caller addr else io_return addr))"

section \<open>Reads\<close>

text \<open>The body every read shares: count a miss, resolve the caller, build the call, simulate it.\<close>

definition count_miss :: "('z factory_world_scheme, unit) io" where
  "count_miss = io_modify (\<lambda>w. w \<lparr> f_cacheMisses := f_cacheMisses w + 1 \<rparr>)"

definition factory_read ::
    "outside \<Rightarrow> FactoryModule \<Rightarrow> string \<Rightarrow> (thrown, sc_val list) result \<Rightarrow> ('z factory_world_scheme, sc_val) io" where
  "factory_read env F method args =
    io_bind (resolveCallerAddress env F) (\<lambda>caller.
    io_bind (io_lift args) (\<lambda>vs.
    io_bind (buildContractCallTx env (f_rpcUrl F) caller (f_factoryId F) method vs Soroban.BASE_FEE None
      (Some (f_horizonUrl F))) (\<lambda>tx.
    simulateReadOnly env (f_rpcUrl F) tx)))"

definition counted_read ::
    "outside \<Rightarrow> FactoryModule \<Rightarrow> bool \<Rightarrow> string \<Rightarrow> (thrown, sc_val list) result \<Rightarrow> ('z factory_world_scheme, sc_val) io" where
  "counted_read env F signal method args =
    io_bind (throwIfAborted env signal) (\<lambda>_. io_bind count_miss (\<lambda>_. factory_read env F method args))"

definition one_address :: "outside \<Rightarrow> string \<Rightarrow> (thrown, sc_val list) result" where
  "one_address env a = result_bind (address_toScVal env a) (\<lambda>v. Inr [v])"

definition streamCount :: "outside \<Rightarrow> FactoryModule \<Rightarrow> bool \<Rightarrow> ('z factory_world_scheme, int) io" where
  "streamCount env F signal =
    io_bind (counted_read env F signal ''stream_count'' (Inr [])) (\<lambda>v. io_lift (scValToU64 v))"

definition streamCountBySender :: "outside \<Rightarrow> FactoryModule \<Rightarrow> string \<Rightarrow> bool \<Rightarrow> ('z factory_world_scheme, int) io" where
  "streamCountBySender env F addr signal =
    io_bind (counted_read env F signal ''stream_count_by_sender'' (one_address env addr)) (\<lambda>v. io_lift (scValToU64 v))"

definition streamCountByRecipient :: "outside \<Rightarrow> FactoryModule \<Rightarrow> string \<Rightarrow> bool \<Rightarrow> ('z factory_world_scheme, int) io" where
  "streamCountByRecipient env F addr signal =
    io_bind (counted_read env F signal ''stream_count_by_recipient'' (one_address env addr)) (\<lambda>v. io_lift (scValToU64 v))"

definition protocolFeeBps :: "outside \<Rightarrow> FactoryModule \<Rightarrow> bool \<Rightarrow> ('z factory_world_scheme, int) io" where
  "protocolFeeBps env F signal =
    io_bind (counted_read env F signal ''protocol_fee_bps'' (Inr [])) (\<lambda>v. io_lift (scValToU32 v))"

definition factoryPaused :: "outside \<Rightarrow> FactoryModule \<Rightarrow> bool \<Rightarrow> ('z factory_world_scheme, bool) io" where
  "factoryPaused env F signal =
    io_bind (counted_read env F signal ''paused'' (Inr [])) (\<lambda>v.
    case v of
      ScvBool b \<Rightarrow> io_return b
    | _ \<Rightarrow> io_throw (plain_error (''Expected a bool ScVal, got \"'' @ switch_name v @ ''\" instead.'')))"

section \<open>Stream addresses\<close>

text \<open>A stream id argument is a bigint or a string; BigInt(id) throws on a malformed string.\<close>

datatype stream_ref = Ref_bigint int | Ref_string string

definition syntax_error :: "string \<Rightarrow> thrown" where
  "syntax_error s = new_error (NamedError ''SyntaxError'') (''Cannot convert '' @ s @ '' to a BigInt'')"

fun to_bigint :: "stream_ref \<Rightarrow> (thrown, int) result" where
  "to_bigint (Ref_bigint n) = Inr n"
| "to_bigint (Ref_string s) = (case bigint_of_string s of Some n \<Rightarrow> Inr n | None \<Rightarrow> Inl (syntax_error s))"

definition cacheNegative :: "outside \<Rightarrow> FactoryModule \<Rightarrow> string \<Rightarrow> ('z factory_world_scheme, unit) io" where
  "cacheNegative env F key =
    io_bind (io_now env) (\<lambda>now.
    io_modify (\<lambda>w. w \<lparr> addressCache := (addressCache w)(key \<mapsto> None),
                       negativeCacheExpiry := (negativeCacheExpiry w)(key \<mapsto> now + f_negativeTtl F) \<rparr>))"

definition fetch_address ::
    "outside \<Rightarrow> FactoryModule \<Rightarrow> int \<Rightarrow> ('z factory_world_scheme, string option) io" where
  "fetch_address env F n =
    io_bind count_miss (\<lambda>_.
    io_bind (factory_read env F ''stream_address'' (result_bind (native_u64 env n) (\<lambda>v. Inr [v]))) (\<lambda>v.
    case v of
      ScvVoid \<Rightarrow> io_bind (cacheNegative env F (show_int n)) (\<lambda>_. io_return None)
    | _ \<Rightarrow> (case address_fromScVal env v of
        Inr a \<Rightarrow> io_bind (io_modify (\<lambda>w. w \<lparr> addressCache := (addressCache w)(show_int n \<mapsto> Some a) \<rparr>)) (\<lambda>_.
          io_return (Some a))
      | Inl _ \<Rightarrow> io_bind (cacheNegative env F (show_int n)) (\<lambda>_. io_return None))))"

definition streamAddress ::
    "outside \<Rightarrow> FactoryModule \<Rightarrow> stream_ref \<Rightarrow> bool \<Rightarrow> ('z factory_world_scheme, string option) io" where
  "streamAddress env F ref signal =
    io_bind (io_lift (to_bigint ref)) (\<lambda>n.
    io_bind (throwIfAborted env signal) (\<lambda>_.
    io_bind (io_gets (\<lambda>w. addressCache w (show_int n))) (\<lambda>cached.
    case cached of
      None \<Rightarrow> fetch_address env F n
    | Some entry \<Rightarrow>
        io_bind (io_modify (\<lambda>w. w \<lparr> f_cacheHits := f_cacheHits w + 1 \<rparr>)) (\<lambda>_.
        case entry of
          Some a \<Rightarrow> io_return (Some a)
        | None \<Rightarrow>
            io_bind (io_gets (\<lambda>w. given_or 0 (negativeCacheExpiry w (show_int n)))) (\<lambda>expiresAt.
            io_bind (io_now env) (\<lambda>now.
            if now < expiresAt then io_return None
            else io_bind (io_modify (\<lambda>w. w \<lparr> addressCache := (addressCache w)(show_int n := None),
                     negativeCacheExpiry := (negativeCacheExpiry w)(show_int n := None) \<rparr>)) (\<lambda>_.
                 fetch_address env F n)))))))"

fun to_keys :: "stream_ref list \<Rightarrow> string list \<Rightarrow> (thrown, string list) result" where
  "to_keys [] ks = Inr ks"
| "to_keys (r # rs) ks =
    result_bind (to_bigint r) (\<lambda>n. to_keys rs (if show_int n \<in> set ks then ks else ks @ [show_int n]))"

definition streamAddresses ::
    "outside \<Rightarrow> FactoryModule \<Rightarrow> stream_ref list \<Rightarrow> bool \<Rightarrow> ('z factory_world_scheme, (string \<times> string option) list) io" where
  "streamAddresses env F ids signal =
    io_bind (throwIfAborted env signal) (\<lambda>_.
    io_bind (io_lift (to_keys ids [])) (\<lambda>ks.
    io_bind (io_mapM (\<lambda>key. streamAddress env F (Ref_string key) signal) ks) (\<lambda>resolved.
    io_return (zip ks resolved))))"

definition hasStream :: "outside \<Rightarrow> FactoryModule \<Rightarrow> stream_ref \<Rightarrow> bool \<Rightarrow> ('z factory_world_scheme, bool) io" where
  "hasStream env F ref signal = io_bind (streamAddress env F ref signal) (\<lambda>a. io_return (a \<noteq> None))"

section \<open>Listing\<close>

record FactoryStreamListResult =
  fs_ids :: "int list"
  fs_hasMore :: bool

definition parseU64Vec :: "sc_val \<Rightarrow> (thrown, int list) result" where
  "parseU64Vec v =
    (case v of
       ScvVec None \<Rightarrow> Inr []
     | ScvVec (Some items) \<Rightarrow>
         foldr (\<lambda>item acc. result_bind (scValToU64 item) (\<lambda>n. result_bind acc (\<lambda>ns. Inr (n # ns)))) items (Inr [])
     | _ \<Rightarrow> Inl (arm_not_set ''vec''))"

definition page_args :: "outside \<Rightarrow> string \<Rightarrow> jsnum \<Rightarrow> int \<Rightarrow> (thrown, sc_val list) result" where
  "page_args env addr offset clampedLimit =
    result_bind (address_toScVal env addr) (\<lambda>a.
    result_bind (native_u32 env (clampOffset offset)) (\<lambda>o32.
    result_bind (native_u32 env clampedLimit) (\<lambda>l32. Inr [a, o32, l32])))"

definition list_by ::
    "outside \<Rightarrow> FactoryModule \<Rightarrow> string \<Rightarrow> string \<Rightarrow> jsnum \<Rightarrow> jsnum \<Rightarrow> bool
      \<Rightarrow> ('z factory_world_scheme, FactoryStreamListResult) io" where
  "list_by env F method addr offset limit signal =
    (let clampedLimit = clampListLimit limit in
     io_bind (counted_read env F signal method (page_args env addr offset clampedLimit)) (\<lambda>v.
     io_bind (io_lift (parseU64Vec v)) (\<lambda>ids.
     io_return \<lparr> fs_ids = ids, fs_hasMore = (int (length ids) = clampedLimit) \<rparr>)))"

definition streamsBySender ::
    "outside \<Rightarrow> FactoryModule \<Rightarrow> string \<Rightarrow> jsnum \<Rightarrow> jsnum \<Rightarrow> bool \<Rightarrow> ('z factory_world_scheme, FactoryStreamListResult) io" where
  "streamsBySender env F addr offset limit signal = list_by env F ''streams_by_sender'' addr offset limit signal"

definition streamsByRecipient ::
    "outside \<Rightarrow> FactoryModule \<Rightarrow> string \<Rightarrow> jsnum \<Rightarrow> jsnum \<Rightarrow> bool \<Rightarrow> ('z factory_world_scheme, FactoryStreamListResult) io" where
  "streamsByRecipient env F addr offset limit signal = list_by env F ''streams_by_recipient'' addr offset limit signal"

record PaginatedStreamIdsResult =
  pg_ids :: "int list"
  pg_hasMore :: bool
  pg_cursor :: "string option"

definition getStreamsBySenderPaginated ::
    "outside \<Rightarrow> FactoryModule \<Rightarrow> string \<Rightarrow> string option \<Rightarrow> jsnum \<Rightarrow> bool
      \<Rightarrow> ('z factory_world_scheme, PaginatedStreamIdsResult) io" where
  "getStreamsBySenderPaginated env F addr cursor limit signal =
    io_bind (io_lift (case decodeStreamCursor cursor of Inr n \<Rightarrow> Inr n | Inl m \<Rightarrow> Inl (plain_error m))) (\<lambda>offset.
    io_bind (streamsBySender env F addr (Num (of_int offset)) limit signal) (\<lambda>r.
    io_return \<lparr> pg_ids = fs_ids r, pg_hasMore = fs_hasMore r,
      pg_cursor = (if fs_hasMore r then Some (encodeStreamCursor (nat offset + length (fs_ids r))) else None) \<rparr>))"

section \<open>Protocol parameters\<close>

definition fetch_config :: "outside \<Rightarrow> FactoryModule \<Rightarrow> ('z factory_world_scheme, FactoryConfig) io" where
  "fetch_config env F =
    io_bind count_miss (\<lambda>_.
    io_bind (resolveCallerAddress env F) (\<lambda>caller.
    io_bind (buildContractCallTx env (f_rpcUrl F) caller (f_factoryId F) ''protocol_fee_bps'' [] Soroban.BASE_FEE None None) (\<lambda>tx1.
    io_bind (simulateReadOnly env (f_rpcUrl F) tx1) (\<lambda>v1.
    io_bind (io_lift (scValToU32 v1)) (\<lambda>bps.
    io_bind (buildContractCallTx env (f_rpcUrl F) caller (f_factoryId F) ''fee_recipient'' [] Soroban.BASE_FEE None None) (\<lambda>tx2.
    io_bind (simulateReadOnly env (f_rpcUrl F) tx2) (\<lambda>v2.
    io_bind (case v2 of ScvVoid \<Rightarrow> io_return None
             | _ \<Rightarrow> io_lift (result_bind (address_fromScVal env v2) (\<lambda>a. Inr (Some a)))) (\<lambda>recipient.
    let parsed = \<lparr> feeBps = bps, feeRecipient = recipient \<rparr> in
    io_bind (io_now env) (\<lambda>now.
    io_bind (io_modify (\<lambda>w. w \<lparr> factoryConfigCache := Some (parsed, now + f_configTtl F) \<rparr>)) (\<lambda>_.
    io_return parsed))))))))))"

text \<open>One call at a time: a shared fetch in flight is modelled in Coalesce.\<close>

definition getFactoryConfig :: "outside \<Rightarrow> FactoryModule \<Rightarrow> bool \<Rightarrow> ('z factory_world_scheme, FactoryConfig) io" where
  "getFactoryConfig env F signal =
    io_bind (throwIfAborted env signal) (\<lambda>_.
    io_bind (io_gets factoryConfigCache) (\<lambda>cached.
    case cached of
      Some (c, expiresAt) \<Rightarrow>
        io_bind (io_now env) (\<lambda>now. if now < expiresAt then io_return c else fetch_config env F)
    | None \<Rightarrow> fetch_config env F))"

section \<open>Frames of the pipeline\<close>

lemma keeps_more_account [keeps_rules]: "keeps rpc_world.more (getAccountWithFallback env url caller h)"
proof -
  have "keeps rpc_world.more (fetchAccountFromHorizon env u a)" for u a
    unfolding fetchAccountFromHorizon_def
    by (intro keeps_bind keeps_try keeps_more_calls) (auto intro: keeps_rules split: sum.split horizon_reply.split option.split)
  then show ?thesis
    unfolding getAccountWithFallback_def
    by (intro keeps_catch keeps_map_error keeps_bind keeps_more_calls) (auto intro: keeps_rules split: option.split)
qed

lemma keeps_more_pipeline [keeps_rules]:
  "keeps rpc_world.more (buildContractCallTx env url caller cid method args fee memo h)"
  "keeps rpc_world.more (simulate env url label tx)"
  "keeps rpc_world.more (send env url tx)"
  "keeps rpc_world.more (get_transaction env url hsh)"
  "keeps rpc_world.more (simulateReadOnly env url tx)"
  unfolding buildContractCallTx_def simulate_def send_def get_transaction_def simulateReadOnly_def
  by (intro keeps_bind keeps_map_error keeps_rules;
      auto intro: keeps_rules split: sim_reply.split option.split)+

lemma keeps_more_poll [keeps_rules]: "keeps rpc_world.more (pollForConfirmation env url h p signal)"
proof -
  have "keeps rpc_world.more (poll_loop env url h p signal n i)" for n i
    by (induction n arbitrary: i)
       (auto intro!: keeps_bind intro: keeps_rules split: sum.split tx_status.split)
  then show ?thesis by (simp add: pollForConfirmation_def)
qed

lemma keeps_more_decimals [keeps_rules]: "keeps rpc_world.more (getTokenDecimals env url caller tok)"
  unfolding getTokenDecimals_def Let_def
  by (auto intro!: keeps_bind keeps_modify intro: keeps_rules split: option.split)

lemma keeps_more_balance [keeps_rules]: "keeps rpc_world.more (queryXlmBalance env url p a)"
  unfolding queryXlmBalance_def by (auto intro!: keeps_bind intro: keeps_rules)

text \<open>The caches of the module depend on the extension only.\<close>

definition caches :: "'z factory_world_scheme \<Rightarrow> (string \<Rightarrow> string option option) \<times> (string \<Rightarrow> int option)
    \<times> (FactoryConfig \<times> int) option" where
  "caches w = (addressCache w, negativeCacheExpiry w, factoryConfigCache w)"

lemma caches_more: "caches w = caches (rpc_world.extend initial_rpc_world (rpc_world.more w))"
  for w :: "'z factory_world_scheme"
  by (cases w) (simp only: caches_def rpc_world.defs rpc_world.select_convs factory_world.select_convs)

lemma keeps_caches: "keeps rpc_world.more m \<Longrightarrow> keeps caches m"
  by (erule keeps_more [where g = "\<lambda>x. caches (rpc_world.extend initial_rpc_world x)"]) (rule caches_more)

lemma keeps_caches_caller [keeps_rules]: "keeps caches (resolveCallerAddress env F)"
  unfolding resolveCallerAddress_def remember_caller_def wallet_key_def Let_def
  by (intro keeps_rules keeps_modify keeps_caches [OF keeps_more_calls(1)]) (simp_all add: caches_def)

lemma keeps_caches_read [keeps_rules]: "keeps caches (factory_read env F method args)" "keeps caches count_miss"
  unfolding factory_read_def count_miss_def
  by (intro keeps_rules keeps_modify keeps_caches; simp add: caches_def)+

section \<open>The address cache\<close>

text \<open>What the module knows of a stream at time t without asking the factory contract.\<close>

definition known :: "int \<Rightarrow> string \<Rightarrow> 'z factory_world_scheme \<Rightarrow> string option option" where
  "known t key w =
    (case addressCache w key of
       None \<Rightarrow> None
     | Some (Some a) \<Rightarrow> Some (Some a)
     | Some None \<Rightarrow> if t < given_or 0 (negativeCacheExpiry w key) then Some None else None)"

lemma fetch_address_cases:
  obtains (failed) e w1 where "fetch_address env F n w = (Inl e, w1)" "caches w1 = caches w"
  | (found) a w1 where "fetch_address env F n w = (Inr (Some a), w1)" "addressCache w1 = (addressCache w)(show_int n \<mapsto> Some a)"
      "negativeCacheExpiry w1 = negativeCacheExpiry w"
  | (missing) w1 where "fetch_address env F n w = (Inr None, w1)" "addressCache w1 = (addressCache w)(show_int n \<mapsto> None)"
      "negativeCacheExpiry w1 = (negativeCacheExpiry w)(show_int n \<mapsto> clock_at env (calls_made w1) + f_negativeTtl F)"
proof -
  let ?args = "result_bind (native_u64 env n) (\<lambda>v. Inr [v])"
  obtain w0 where w0: "count_miss w = (Inr (), w0)" by (simp add: count_miss_def io_modify_def)
  obtain res w1 where r: "factory_read env F ''stream_address'' ?args w0 = (res, w1)"
    by (cases "factory_read env F ''stream_address'' ?args w0") blast
  have c: "caches w1 = caches w"
    using keepsD [OF keeps_caches_read(2), of w] keepsD [OF keeps_caches_read(1), of env F "''stream_address''" ?args w0]
      w0 r by simp
  have neg: "fst (cacheNegative env F (show_int n) w1) = Inr ()"
    "addressCache (snd (cacheNegative env F (show_int n) w1)) = (addressCache w)(show_int n \<mapsto> None)"
    "negativeCacheExpiry (snd (cacheNegative env F (show_int n) w1)) =
       (negativeCacheExpiry w)(show_int n \<mapsto> clock_at env (calls_made (snd (cacheNegative env F (show_int n) w1))) + f_negativeTtl F)"
    using c by (simp_all add: cacheNegative_def io_bind_def io_now_def io_modify_def caches_def calls_made_def)
  show thesis
  proof (cases res)
    case (Inl e)
    then show thesis using failed w0 r c by (simp add: fetch_address_def io_bind_def)
  next
    case (Inr v)
    show thesis
    proof (cases "v \<noteq> ScvVoid \<and> result_ok (address_fromScVal env v)")
      case True
      then obtain a where a: "address_fromScVal env v = Inr a" by (auto simp: result_ok_iff)
      have "fetch_address env F n w = (Inr (Some a), w1 \<lparr> addressCache := (addressCache w1)(show_int n \<mapsto> Some a) \<rparr>)"
        using w0 r Inr a True by (cases v) (simp_all add: fetch_address_def io_bind_def io_modify_def io_return_def)
      then show thesis using found c by (simp add: caches_def)
    next
      case False
      then have "fetch_address env F n w = (Inr None, snd (cacheNegative env F (show_int n) w1))"
        using w0 r Inr neg(1)
        by (cases v; cases "address_fromScVal env v"; cases "cacheNegative env F (show_int n) w1")
           (simp_all add: fetch_address_def io_bind_def io_return_def)
      then show thesis using missing neg by simp
    qed
  qed
qed

lemma streamAddress_cases:
  assumes "to_bigint ref = Inr n" "\<not> (signal \<and> aborted_now env (calls_made w))"
  obtains (served) r where "known (clock_at env (calls_made w)) (show_int n) w = Some r"
      "streamAddress env F ref signal w = (Inr r, w \<lparr> f_cacheHits := f_cacheHits w + 1 \<rparr>)"
  | (fetched) w0 where "known (clock_at env (calls_made w)) (show_int n) w = None"
      "streamAddress env F ref signal w = fetch_address env F n w0"
      "addressCache w0 = (addressCache w)(show_int n := None)" "\<forall>k. k \<noteq> show_int n \<longrightarrow> negativeCacheExpiry w0 k = negativeCacheExpiry w k"
      "trace w0 = trace w" "factoryConfigCache w0 = factoryConfigCache w" "breakers w0 = breakers w"
proof -
  have run: "streamAddress env F ref signal w =
    (case addressCache w (show_int n) of
       None \<Rightarrow> fetch_address env F n w
     | Some (Some a) \<Rightarrow> (Inr (Some a), w \<lparr> f_cacheHits := f_cacheHits w + 1 \<rparr>)
     | Some None \<Rightarrow>
         if clock_at env (calls_made w) < given_or 0 (negativeCacheExpiry w (show_int n))
         then (Inr None, w \<lparr> f_cacheHits := f_cacheHits w + 1 \<rparr>)
         else fetch_address env F n (w \<lparr> f_cacheHits := f_cacheHits w + 1, addressCache := (addressCache w)(show_int n := None),
                negativeCacheExpiry := (negativeCacheExpiry w)(show_int n := None) \<rparr>))"
    using assms
    by (auto simp: streamAddress_def io_bind_def io_lift_def throwIfAborted_def io_gets_def io_modify_def io_return_def
        io_now_def calls_made_def split: option.split)
  show thesis
  proof (cases "addressCache w (show_int n)")
    case None
    moreover from this have "(addressCache w)(show_int n := None) = addressCache w" by (simp add: fun_upd_idem)
    ultimately show thesis using fetched [of w] run by (simp add: known_def)
  next
    case (Some entry)
    show thesis
    proof (cases "entry = None \<and> \<not> clock_at env (calls_made w) < given_or 0 (negativeCacheExpiry w (show_int n))")
      case True
      then show thesis
        using fetched [of "w \<lparr> f_cacheHits := f_cacheHits w + 1, addressCache := (addressCache w)(show_int n := None),
                negativeCacheExpiry := (negativeCacheExpiry w)(show_int n := None) \<rparr>"] run Some
        by (simp add: known_def)
    next
      case False
      then show thesis using served run Some by (cases entry) (auto simp: known_def split: if_splits)
    qed
  qed
qed

text \<open>
  C28: streamAddress refines a partial map from stream ids to addresses with expiring absences.  What
  the module knows (an address for ever, an absence until its time to live has passed) is
  answered without any call and without changing the map; anything else is asked of the
  factory contract, and exactly the answer for that id is recorded, an absence until the time
  to live after the answer.  A failed lookup is never recorded as an absence.
\<close>
theorem streamAddress_refines_known:
  assumes "to_bigint ref = Inr n" "\<not> (signal \<and> aborted_now env (calls_made w))"
    and "(out, w') = streamAddress env F ref signal w"
  shows "case known (clock_at env (calls_made w)) (show_int n) w of
      Some r \<Rightarrow> out = Inr r \<and> trace w' = trace w \<and> addressCache w' = addressCache w
    | None \<Rightarrow> (case out of
        Inl e \<Rightarrow> addressCache w' = (addressCache w)(show_int n := None)
      | Inr (Some a) \<Rightarrow> addressCache w' = (addressCache w)(show_int n \<mapsto> Some a) \<and> (\<forall>t. known t (show_int n) w' = Some (Some a))
      | Inr None \<Rightarrow> addressCache w' = (addressCache w)(show_int n \<mapsto> None) \<and>
          (\<forall>t. known t (show_int n) w' = (if t < clock_at env (calls_made w') + f_negativeTtl F then Some None else None)))"
  using assms(1,2)
proof (cases rule: streamAddress_cases [where F = F])
  case (served r)
  then show ?thesis using assms(3) by simp
next
  case (fetched w0)
  show ?thesis
  proof (cases rule: fetch_address_cases [of env F n w0])
    case (failed e w1)
    then show ?thesis using fetched assms(3) by (simp add: caches_def)
  next
    case (found a w1)
    then show ?thesis using fetched assms(3) by (simp add: known_def)
  next
    case (missing w1)
    then show ?thesis using fetched assms(3) by (simp add: known_def given_or_def)
  qed
qed

definition sample_config :: ConduitConfig where
  "sample_config = \<lparr> network = ''testnet'', cfg_rpcUrl = None, cfg_horizonUrl = None, factoryAddress = Some ''CF'', cfg_wallet = True,
     cfg_keypair = None, cfg_signer = None, negativeCacheTtlMs = None, factoryConfigCacheTtlMs = None,
     confirmationMaxAttempts = None, confirmationPollIntervalMs = None, cfg_fee = None, cfg_feeMultiplier = None,
     signatureTimeoutMs = None \<rparr>"

definition sample_factory :: FactoryModule where
  "sample_factory = \<lparr> f_rpcUrl = ''rpc'', f_horizonUrl = ''horizon'', f_factoryId = ''CF'', f_negativeTtl = 30000,
     f_configTtl = 300000, f_signer = None, f_keypair = None \<rparr>"

definition sample_factory_world :: factory_world where
  "sample_factory_world = initial_factory_world sample_config initial_rpc_world"

lemma sample_factory_world_simps [simp]:
  "trace sample_factory_world = []" "addressCache sample_factory_world = (\<lambda>_. None)"
  "breakers sample_factory_world = initial_circuits" "calls_made sample_factory_world = 0"
  by (simp_all add: sample_factory_world_def initial_factory_world_def initial_rpc_world_def rpc_world.defs calls_made_def)

lemma streamAddress_refines_known_witness:
  "fst (streamAddress sample_outside sample_factory (Ref_bigint 7) False
      (sample_factory_world \<lparr> addressCache := [''7'' \<mapsto> Some ''CA''] \<rparr>)) = Inr (Some ''CA'')"
proof -
  let ?w = "sample_factory_world \<lparr> addressCache := [''7'' \<mapsto> Some ''CA''] \<rparr>"
  have seven: "show_int 7 = ''7''" by code_simp
  obtain out w' where r: "(out, w') = streamAddress sample_outside sample_factory (Ref_bigint 7) False ?w"
    by (metis prod.collapse)
  have "to_bigint (Ref_bigint 7) = Inr 7" "\<not> (False \<and> aborted_now sample_outside (calls_made ?w))" by simp_all
  from streamAddress_refines_known [OF this r] have "out = Inr (Some ''CA'')" by (simp add: seven known_def)
  then show ?thesis using r by (metis fst_conv)
qed

section \<open>Resolving a page of ids\<close>

lemma bigint_of_show_int [simp]: "bigint_of_string (show_int z) = Some z"
proof (cases "z < 0")
  case True
  let ?s = "show_nat (nat (- z))"
  have "is_digit (last ?s)" using show_nat_digits [of "nat (- z)"] by (metis last_in_set list_all_iff show_nat_not_Nil)
  then have "trim (CHR ''-'' # ?s) = CHR ''-'' # ?s"
    by (intro trim_solid) (simp_all add: digit_not_space, simp add: is_space_def)
  moreover have "radix_value 10 0 ?s = Some (nat (- z))"
    using radix_value_digits [OF show_nat_digits, of 0 "nat (- z)"] by (simp flip: digits_val_def)
  ultimately show ?thesis using True by (simp add: show_int_def bigint_of_string_def numeral_2_eq_2)
qed (simp add: show_int_def)

lemma to_bigint_key [simp]: "to_bigint (Ref_string (show_int n)) = Inr n"
  by simp

lemma streamAddress_other:
  assumes "streamAddress env F (Ref_string (show_int n)) signal w = (Inr r, w')"
  shows "addressCache w' (show_int n) = Some r" "k \<noteq> show_int n \<Longrightarrow> addressCache w' k = addressCache w k"
proof -
  have na: "\<not> (signal \<and> aborted_now env (calls_made w))"
    using assms by (auto simp: streamAddress_def io_bind_def io_lift_def throwIfAborted_def)
  have "addressCache w' (show_int n) = Some r \<and> (k \<noteq> show_int n \<longrightarrow> addressCache w' k = addressCache w k)"
    using to_bigint_key [of n] na
  proof (cases rule: streamAddress_cases [where F = F])
    case (served r')
    then show ?thesis using assms by (auto simp: known_def split: option.splits if_splits)
  next
    case (fetched w0)
    then show ?thesis using assms by (cases rule: fetch_address_cases [of env F n w0]) auto
  qed
  then show "addressCache w' (show_int n) = Some r" "k \<noteq> show_int n \<Longrightarrow> addressCache w' k = addressCache w k" by blast+
qed

lemma resolve_keys:
  assumes "io_mapM (\<lambda>key. streamAddress env F (Ref_string key) signal) (List.map show_int ns) w = (Inr rs, w')" "distinct ns"
  shows "length rs = length ns \<and> (\<forall>(k, r) \<in> set (zip (List.map show_int ns) rs). addressCache w' k = Some r) \<and>
    (\<forall>k. k \<notin> show_int ` set ns \<longrightarrow> addressCache w' k = addressCache w k)"
  using assms
proof (induction ns arbitrary: w rs)
  case Nil
  then show ?case by (simp add: io_return_def)
next
  case (Cons n ns)
  obtain r w1 rs' where s: "streamAddress env F (Ref_string (show_int n)) signal w = (Inr r, w1)"
    "io_mapM (\<lambda>key. streamAddress env F (Ref_string key) signal) (List.map show_int ns) w1 = (Inr rs', w')" "rs = r # rs'"
    using Cons.prems(1) by (auto simp: io_bind_def io_return_def split: prod.splits sum.splits)
  note ih = Cons.IH [OF s(2)] and one = streamAddress_other [OF s(1)]
  have "show_int n \<notin> show_int ` set ns" using Cons.prems(2) by auto
  then have "addressCache w' (show_int n) = Some r" using ih one Cons.prems(2) by auto
  then show ?case using ih one s(3) Cons.prems(2) by auto
qed

fun first_seen :: "'a list \<Rightarrow> 'a list \<Rightarrow> 'a list" where
  "first_seen [] acc = acc"
| "first_seen (x # xs) acc = first_seen xs (if x \<in> set acc then acc else acc @ [x])"

lemma to_keys_first_seen:
  "to_keys rs (List.map show_int acc) = Inr ks \<longleftrightarrow>
   (\<exists>ns. List.map to_bigint rs = List.map Inr ns \<and> ks = List.map show_int (first_seen ns acc))"
proof (induction rs arbitrary: acc)
  case (Cons r rs)
  show ?case
  proof (cases "to_bigint r")
    case (Inr n)
    have "show_int n \<in> show_int ` set acc \<longleftrightarrow> n \<in> set acc" by auto
    then have "to_keys (r # rs) (List.map show_int acc) = to_keys rs (List.map show_int (if n \<in> set acc then acc else acc @ [n]))"
      using Inr by simp
    then show ?thesis using Cons.IH [of "if n \<in> set acc then acc else acc @ [n]"] Inr by (auto simp: Cons_eq_map_conv)
  qed (auto simp: Cons_eq_map_conv)
qed auto

lemma first_seen_facts: "distinct acc \<Longrightarrow> distinct (first_seen xs acc)" "set (first_seen xs acc) = set acc \<union> set xs"
  by (induction xs arbitrary: acc) auto

text \<open>
  streamAddresses answers every id of the page once, in the order of first occurrence and
  whichever form the id has, and every answer is the one the shared cache holds afterwards;
  entries of other ids are not touched.
\<close>
theorem streamAddresses_resolves_page:
  assumes "streamAddresses env F ids signal w = (Inr out, w')"
  shows "\<exists>ns. List.map to_bigint ids = List.map Inr ns \<and> List.map fst out = List.map show_int (first_seen ns []) \<and>
    (\<forall>(k, r) \<in> set out. addressCache w' k = Some r) \<and>
    (\<forall>k. k \<notin> fst ` set out \<longrightarrow> addressCache w' k = addressCache w k)"
proof -
  obtain ks rs where k: "to_keys ids [] = Inr ks"
    "io_mapM (\<lambda>key. streamAddress env F (Ref_string key) signal) ks w = (Inr rs, w')" "out = zip ks rs"
    using assms
    by (auto simp: streamAddresses_def io_bind_def io_lift_def io_return_def throwIfAborted_def split: prod.splits sum.splits if_splits)
  obtain ns where ns: "List.map to_bigint ids = List.map Inr ns" "ks = List.map show_int (first_seen ns [])"
    using k(1) to_keys_first_seen [of ids "[]" ks] by auto
  have "distinct (first_seen ns [])" by (rule first_seen_facts) simp
  note facts = resolve_keys [OF k(2) [unfolded ns(2)] this]
  have len: "length ks = length rs" using facts ns(2) by simp
  then have "List.map fst out = ks" using k(3) by simp
  moreover from this have "fst ` set out = show_int ` set (first_seen ns [])" using ns(2) by (metis list.set_map)
  ultimately show ?thesis using ns facts k(3) by (intro exI [of _ ns]) auto
qed

lemma streamAddresses_resolves_page_witness:
  "\<exists>out. fst (streamAddresses sample_outside sample_factory [Ref_bigint 7] False
      (sample_factory_world \<lparr> addressCache := [''7'' \<mapsto> Some ''CA''] \<rparr>)) = Inr out \<and> List.map fst out = [show_int 7]"
proof -
  let ?w = "sample_factory_world \<lparr> addressCache := [''7'' \<mapsto> Some ''CA''] \<rparr>"
  have seven: "show_int 7 = ''7''" by code_simp
  have "streamAddresses sample_outside sample_factory [Ref_bigint 7] False ?w =
      (Inr [(''7'', Some ''CA'')], ?w \<lparr> f_cacheHits := f_cacheHits ?w + 1 \<rparr>)"
    using bigint_of_show_int [of 7]
    by (simp add: streamAddresses_def streamAddress_def io_bind_def io_lift_def io_return_def throwIfAborted_def io_gets_def
        io_modify_def seven)
  from streamAddresses_resolves_page [OF this] this show ?thesis by auto
qed

section \<open>Walking a sender's streams page by page\<close>

lemma endpoint_up_updates [simp]:
  "endpoint_up url (w \<lparr> f_cachedCaller := c \<rparr>) = endpoint_up url w"
  "endpoint_up url (w \<lparr> f_cacheMisses := m \<rparr>) = endpoint_up url w"
  "endpoint_up url (w \<lparr> f_cacheHits := m \<rparr>) = endpoint_up url w"
  by (simp_all add: endpoint_up_def)

definition answering :: "outside \<Rightarrow> FactoryModule \<Rightarrow> bool" where
  "answering env F =
    ((\<forall>n a. result_ok (account_reply env n a)) \<and> (\<forall>n. result_ok (public_key_reply env n)) \<and>
     result_ok (new_contract env (f_factoryId F)))"

lemma yields_caller:
  assumes "answering env F"
  shows "yields (endpoint_up url) (\<lambda>_. True) (resolveCallerAddress env F)"
proof -
  have key: "yields (endpoint_up url) (\<lambda>_. True) (wallet_key env)"
    unfolding wallet_key_def using assms by (intro yields_direct) (auto simp: answering_def result_ok_iff)
  have rem: "yields (endpoint_up url) (\<lambda>_. True) (remember_caller a :: ('z factory_world_scheme, string) io)" for a
    unfolding remember_caller_def by (intro yields_bind [OF yields_modify] yields_return) simp_all
  show ?thesis
    unfolding resolveCallerAddress_def Let_def
    by (intro yields_bind [OF yields_gets [where Q = "\<lambda>_. True"]])
       (auto intro!: yields_bind [OF yields_gets [where Q = "\<lambda>_. True"]] yields_bind [OF key] rem yields_return split: option.split)
qed

lemma yields_build:
  assumes "\<forall>n a. result_ok (account_reply env n a)" "result_ok (new_contract env cid)"
  shows "yields (endpoint_up url) (\<lambda>t. tx_method t = method \<and> tx_args t = args)
    (buildContractCallTx env url caller cid method args fee memo h)"
proof -
  have acc: "yields (endpoint_up url) (\<lambda>_. True) (getAccountWithFallback env url caller h)"
    unfolding getAccountWithFallback_def
    by (intro yields_catch yields_map_error yields_bind [OF yields_proxied [where Q = "\<lambda>_. True"]])
       (use assms(1) in \<open>auto simp: result_ok_iff intro: yields_return\<close>)
  obtain c where "new_contract env cid = Inr c" using assms(2) by (auto simp: result_ok_iff)
  then have "yields I (\<lambda>_. True) (io_lift (new_contract env cid))" for I :: "'a rpc_world_scheme \<Rightarrow> bool"
    by (auto intro: yields_lift)
  then show ?thesis
    unfolding buildContractCallTx_def
    by (intro yields_bind [OF yields_map_error [OF acc]] yields_bind [OF _ yields_return, where P = "\<lambda>_. True"]) auto
qed

lemma yields_simulate:
  assumes "\<forall>n. \<exists>r v. simulate_reply env n tx = Inr (Sim_ok r) \<and> sim_retval r = Some v \<and> Q v"
  shows "yields (endpoint_up url) Q (simulateReadOnly env url tx)"
  unfolding simulateReadOnly_def simulate_def
  by (rule yields_bind [OF yields_map_error [OF yields_map_error [OF yields_proxied
        [where Q = "\<lambda>s. \<exists>r v. s = Sim_ok r \<and> sim_retval r = Some v \<and> Q v"]]]])
     (use assms in \<open>blast, auto intro: yields_return\<close>)

lemma yields_read:
  assumes "answering env F" "args = Inr vs"
    "\<forall>n t. tx_method t = method \<and> tx_args t = vs \<longrightarrow>
      (\<exists>r v. simulate_reply env n t = Inr (Sim_ok r) \<and> sim_retval r = Some v \<and> Q v)"
  shows "yields (endpoint_up (f_rpcUrl F)) Q (factory_read env F method args)"
    "yields (endpoint_up (f_rpcUrl F)) Q (counted_read env F False method args)"
proof -
  show "yields (endpoint_up (f_rpcUrl F)) Q (factory_read env F method args)"
    unfolding factory_read_def
  proof (rule yields_bind [OF yields_caller [OF assms(1)]], rule yields_bind [OF yields_lift [where Q = "\<lambda>x. x = vs", OF assms(2) refl]])
    fix caller ws assume ws: "ws = vs"
    have "yields (endpoint_up (f_rpcUrl F)) Q (simulateReadOnly env (f_rpcUrl F) tx)"
      if "tx_method tx = method \<and> tx_args tx = ws" for tx
      using assms(3) that ws by (intro yields_simulate) blast
    then show "yields (endpoint_up (f_rpcUrl F)) Q (io_bind (buildContractCallTx env (f_rpcUrl F) caller (f_factoryId F)
        method ws Soroban.BASE_FEE None (Some (f_horizonUrl F))) (\<lambda>tx. simulateReadOnly env (f_rpcUrl F) tx))"
      using assms(1) by (intro yields_bind [OF yields_build]) (simp_all add: answering_def)
  qed
  then show "yields (endpoint_up (f_rpcUrl F)) Q (counted_read env F False method args)"
    unfolding counted_read_def count_miss_def
    by (intro yields_bind [OF yields_aborted] yields_bind [OF yields_modify]) simp_all
qed

text \<open>The listing entry point of the factory contract: it returns the slice it is asked for.\<close>

definition serves_listing :: "outside \<Rightarrow> FactoryModule \<Rightarrow> string \<Rightarrow> string \<Rightarrow> int list \<Rightarrow> bool" where
  "serves_listing env F method addr xs =
    (answering env F \<and> result_ok (address_toScVal env addr) \<and>
     (\<forall>k. 0 \<le> k \<and> k < 2 ^ 32 \<longrightarrow> native_u32 env k = Inr (ScvU32 (word_of_int k))) \<and>
     (\<forall>n t a o32 l32. tx_method t = method \<and> tx_args t = [a, ScvU32 o32, ScvU32 l32] \<and> address_toScVal env addr = Inr a \<longrightarrow>
        (\<exists>r. simulate_reply env n t = Inr (Sim_ok r) \<and>
           sim_retval r = Some (ScvVec (Some (List.map u64_value (take (unat l32) (drop (unat o32) xs))))))))"

lemma parseU64Vec_values:
  "\<forall>n \<in> set xs. 0 \<le> n \<and> n < 2 ^ 64 \<Longrightarrow> parseU64Vec (ScvVec (Some (List.map u64_value xs))) = Inr xs"
  by (induction xs) (simp_all add: parseU64Vec_def scValToU64_value)

lemma yields_list_by:
  assumes "serves_listing env F method addr xs" "\<forall>n \<in> set xs. 0 \<le> n \<and> n < 2 ^ 64"
  shows "yields (endpoint_up (f_rpcUrl F))
    (\<lambda>r. fs_ids r = take (nat (clampListLimit limit)) (drop (nat (clampOffset offset)) xs) \<and>
         fs_hasMore r = (int (length (fs_ids r)) = clampListLimit limit))
    (list_by env F method addr offset limit False)"
proof -
  let ?l = "clampListLimit limit" and ?o = "clampOffset offset"
  let ?page = "take (nat ?l) (drop (nat ?o) xs)"
  have range: "0 \<le> ?l" "?l < 2 ^ 32" "0 \<le> ?o" "?o < 2 ^ 32" using clampListLimit_range [of limit] clampOffset_range [of offset] by auto
  obtain a where a: "address_toScVal env addr = Inr a" using assms(1) by (auto simp: serves_listing_def result_ok_iff)
  have args: "page_args env addr offset ?l = Inr [a, ScvU32 (word_of_int ?o), ScvU32 (word_of_int ?l)]"
    using assms(1) range a by (simp add: page_args_def serves_listing_def)
  have w: "unat (word_of_int ?l :: 32 word) = nat ?l" "unat (word_of_int ?o :: 32 word) = nat ?o"
    using range by (simp_all add: unat_eq_nat_uint uint_word_of_int)
  have read: "yields (endpoint_up (f_rpcUrl F)) (\<lambda>v. v = ScvVec (Some (List.map u64_value ?page)))
      (counted_read env F False method (page_args env addr offset ?l))"
    using assms(1) a by (intro yields_read(2) [OF _ args]) (simp_all add: serves_listing_def w [symmetric])
  have "parseU64Vec (ScvVec (Some (List.map u64_value ?page))) = Inr ?page"
    using assms(2) by (intro parseU64Vec_values) (auto dest: in_set_takeD in_set_dropD)
  then show ?thesis
    unfolding list_by_def Let_def
    by (intro yields_bind [OF read]) (auto intro!: yields_bind [OF yields_lift [where Q = "\<lambda>x. x = ?page"]] yields_return)
qed

text \<open>The loop a caller writes: feed each cursor back until it comes back null.\<close>

fun walk_pages ::
    "outside \<Rightarrow> FactoryModule \<Rightarrow> string \<Rightarrow> jsnum \<Rightarrow> nat \<Rightarrow> string option \<Rightarrow> 'z factory_world_scheme \<Rightarrow> int list list option" where
  "walk_pages env F addr limit 0 cursor w = None"
| "walk_pages env F addr limit (Suc fuel) cursor w =
    (case getStreamsBySenderPaginated env F addr cursor limit False w of
       (Inl _, _) \<Rightarrow> None
     | (Inr pg, w') \<Rightarrow> (case pg_cursor pg of
         None \<Rightarrow> Some [pg_ids pg]
       | Some c \<Rightarrow> map_option ((#) (pg_ids pg)) (walk_pages env F addr limit fuel (Some c) w')))"

lemma one_page:
  assumes "serves_listing env F ''streams_by_sender'' addr xs" "\<forall>n \<in> set xs. 0 \<le> n \<and> n < 2 ^ 64"
    "decodeStreamCursor cursor = Inr (int k)" "k < 2 ^ 32" "endpoint_up (f_rpcUrl F) w"
  obtains w' where "getStreamsBySenderPaginated env F addr cursor limit False w =
      (Inr \<lparr> pg_ids = take (nat (clampListLimit limit)) (drop k xs),
             pg_hasMore = (k + nat (clampListLimit limit) \<le> length xs),
             pg_cursor = (if k + nat (clampListLimit limit) \<le> length xs
               then Some (encodeStreamCursor (k + nat (clampListLimit limit))) else None) \<rparr>, w')"
    "endpoint_up (f_rpcUrl F) w'"
proof -
  let ?l = "nat (clampListLimit limit)" and ?r = "streamsBySender env F addr (Num (of_int (int k))) limit False"
  have l: "0 < ?l" "int ?l = clampListLimit limit" using clampListLimit_range [of limit] by auto
  have "clampOffset (Num (of_int (int k))) = int k" using assms(4) by (intro clampOffset_id) simp_all
  then have "yields (endpoint_up (f_rpcUrl F)) (\<lambda>r. fs_ids r = take ?l (drop k xs) \<and>
      fs_hasMore r = (int (length (fs_ids r)) = clampListLimit limit)) ?r"
    unfolding streamsBySender_def using yields_list_by [OF assms(1,2), of limit "Num (of_int (int k))"] by simp
  from yieldsD [OF this assms(5)] obtain r w' where r: "?r w = (Inr r, w')" "endpoint_up (f_rpcUrl F) w'"
    "fs_ids r = take ?l (drop k xs)" "fs_hasMore r = (int (length (fs_ids r)) = clampListLimit limit)" by metis
  have "fs_hasMore r \<longleftrightarrow> k + ?l \<le> length xs" using r(3,4) l by auto
  moreover from this have "fs_hasMore r \<Longrightarrow> length (fs_ids r) = ?l" using r(3) by simp
  ultimately show thesis
    using that [of w'] r assms(3) by (simp add: getStreamsBySenderPaginated_def io_bind_def io_lift_def io_return_def)
qed

lemma walk_from:
  assumes "serves_listing env F ''streams_by_sender'' addr xs" "\<forall>n \<in> set xs. 0 \<le> n \<and> n < 2 ^ 64" "length xs < 2 ^ 32"
    "decodeStreamCursor cursor = Inr (int k)" "k \<le> length xs" "endpoint_up (f_rpcUrl F) w"
    "(length xs - k) div nat (clampListLimit limit) < fuel"
  shows "\<exists>pages. walk_pages env F addr limit fuel cursor w = Some pages \<and> concat pages = drop k xs \<and>
    list_all (\<lambda>p. length p \<le> nat (clampListLimit limit)) pages"
  using assms(4-)
proof (induction fuel arbitrary: cursor k w)
  case (Suc fuel)
  let ?l = "nat (clampListLimit limit)"
  have l: "0 < ?l" using clampListLimit_range [of limit] by auto
  obtain w' where p: "getStreamsBySenderPaginated env F addr cursor limit False w =
      (Inr \<lparr> pg_ids = take ?l (drop k xs), pg_hasMore = (k + ?l \<le> length xs),
        pg_cursor = (if k + ?l \<le> length xs then Some (encodeStreamCursor (k + ?l)) else None) \<rparr>, w')"
    "endpoint_up (f_rpcUrl F) w'"
    by (rule one_page [OF assms(1,2) Suc.prems(1) _ Suc.prems(3)]) (use Suc.prems(2) assms(3) in simp)
  show ?case
  proof (cases "k + ?l \<le> length xs")
    case True
    have "decodeStreamCursor (Some (encodeStreamCursor (k + ?l))) = Inr (int (k + ?l))" using cursor_round_trip by blast
    moreover have "(length xs - (k + ?l)) div ?l < fuel"
      using Suc.prems(4) l True by (simp add: diff_diff_left [symmetric] le_div_geq del: diff_diff_left)
    ultimately obtain pages where "walk_pages env F addr limit fuel (Some (encodeStreamCursor (k + ?l))) w' = Some pages"
      "concat pages = drop (k + ?l) xs" "list_all (\<lambda>p. length p \<le> ?l) pages"
      using Suc.IH True p(2) by blast
    moreover have "take ?l (drop k xs) @ drop (k + ?l) xs = drop k xs" by (metis add.commute append_take_drop_id drop_drop)
    ultimately show ?thesis using p True by simp
  next
    case False
    then show ?thesis using p by simp
  qed
qed simp

text \<open>
  Walking getStreamsBySenderPaginated from the first page, feeding each cursor back, ends by
  itself after at most length div limit + 1 pages and lists every stream of the sender exactly
  once and in order, on pages no longer than the clamped limit, when the node answers and the
  factory contract returns the slice it is asked for.
\<close>
theorem paginated_walk_lists_all:
  assumes "serves_listing env F ''streams_by_sender'' addr xs" "\<forall>n \<in> set xs. 0 \<le> n \<and> n < 2 ^ 64"
    "length xs < 2 ^ 32" "endpoint_up (f_rpcUrl F) w"
  shows "\<exists>pages. walk_pages env F addr limit (length xs div nat (clampListLimit limit) + 1) None w = Some pages \<and>
    concat pages = xs \<and> list_all (\<lambda>p. length p \<le> nat (clampListLimit limit)) pages"
proof -
  have "decodeStreamCursor None = Inr (int 0)" by (simp add: decodeStreamCursor_def)
  from walk_from [OF assms(1-3) this _ assms(4), of limit "length xs div nat (clampListLimit limit) + 1"]
  show ?thesis by (simp del: walk_pages.simps)
qed

definition listing_outside :: "int list \<Rightarrow> outside" where
  "listing_outside xs = sample_outside \<lparr> simulate_reply := (\<lambda>_ t. case tx_args t of
      [_, ScvU32 o32, ScvU32 l32] \<Rightarrow>
        Inr (Sim_ok (sample_sim \<lparr> sim_retval := Some (ScvVec (Some (List.map u64_value (take (unat l32) (drop (unat o32) xs))))) \<rparr>))
    | _ \<Rightarrow> Inr (Sim_error ''unknown method'')) \<rparr>"

lemma paginated_walk_lists_all_witness:
  "\<exists>pages. walk_pages (listing_outside [3, 5, 8]) sample_factory ''GA'' (Num 2) 2 None sample_factory_world = Some pages \<and>
    concat pages = [3, 5, 8] \<and> list_all (\<lambda>p. length p \<le> 2) pages"
proof -
  have serves: "serves_listing (listing_outside [3, 5, 8]) sample_factory ''streams_by_sender'' ''GA'' [3, 5, 8]"
    by (auto simp: serves_listing_def answering_def listing_outside_def sample_outside_def)
  have up: "endpoint_up (f_rpcUrl sample_factory) sample_factory_world"
    by (simp add: endpoint_up_def initial_circuits_def state_of_def)
  have two: "clampListLimit (Num 2) = 2" by (simp add: clampListLimit_def MAX_LIST_LIMIT_def Let_def)
  show ?thesis
    using paginated_walk_lists_all [OF serves _ _ up, of "Num 2"]
    by (simp only: two, simp del: walk_pages.simps add: numeral_2_eq_2 [symmetric])
qed

section \<open>The protocol parameter cache\<close>

lemma fetch_config_cases:
  obtains (failed) e w1 where "fetch_config env F w = (Inl e, w1)" "caches w1 = caches w"
  | (read) c w1 where "fetch_config env F w = (Inr c, w1)" "addressCache w1 = addressCache w"
      "factoryConfigCache w1 = Some (c, clock_at env (calls_made w1) + f_configTtl F)"
proof -
  let ?build = "\<lambda>caller m. buildContractCallTx env (f_rpcUrl F) caller (f_factoryId F) m [] Soroban.BASE_FEE None None"
  let ?rest = "\<lambda>bps caller. io_bind (?build caller ''fee_recipient'') (\<lambda>tx2. io_bind (simulateReadOnly env (f_rpcUrl F) tx2) (\<lambda>v2.
    io_bind (case v2 of ScvVoid \<Rightarrow> io_return None | _ \<Rightarrow> io_lift (result_bind (address_fromScVal env v2) (\<lambda>a. Inr (Some a))))
      (\<lambda>recipient. io_return \<lparr> feeBps = bps, feeRecipient = recipient \<rparr>)))"
  let ?read = "io_bind count_miss (\<lambda>_. io_bind (resolveCallerAddress env F) (\<lambda>caller.
    io_bind (?build caller ''protocol_fee_bps'') (\<lambda>tx1. io_bind (simulateReadOnly env (f_rpcUrl F) tx1) (\<lambda>v1.
    io_bind (io_lift (scValToU32 v1)) (\<lambda>bps. ?rest bps caller)))))"
  have k: "keeps caches ?read"
    by (intro keeps_rules keeps_caches keeps_caches_read keeps_caches_caller; simp split: sc_val.split; intro conjI allI impI keeps_rules)
  have run: "fetch_config env F w = (case ?read w of (Inl e, w1) \<Rightarrow> (Inl e, w1)
    | (Inr c, w1) \<Rightarrow> (Inr c, w1 \<lparr> factoryConfigCache := Some (c, clock_at env (calls_made w1) + f_configTtl F) \<rparr>))"
    by (simp add: fetch_config_def io_bind_def io_return_def io_now_def io_modify_def Let_def split: prod.split sum.split)
  obtain res w1 where r: "?read w = (res, w1)" by (cases "?read w") blast
  have c: "caches w1 = caches w" using keepsD [OF k, of w] r by simp
  show thesis
  proof (cases res)
    case (Inl e)
    then show thesis using failed run r c by simp
  next
    case (Inr c')
    then show thesis using read run r c by (simp add: caches_def calls_made_def)
  qed
qed

text \<open>
  getFactoryConfig is a cache with a time to live: within it the stored parameters are
  returned without any call; otherwise they are read again and stored until the time to live
  after the read, and a failed read leaves the cache as it was.
\<close>
theorem factory_config_ttl:
  assumes "\<not> (signal \<and> aborted_now env (calls_made w))" "(out, w') = getFactoryConfig env F signal w"
  shows "addressCache w' = addressCache w \<and>
    (case factoryConfigCache w of
       Some (c, expiry) \<Rightarrow> if clock_at env (calls_made w) < expiry
         then out = Inr c \<and> trace w' = trace w \<and> factoryConfigCache w' = factoryConfigCache w
         else (case out of Inl e \<Rightarrow> factoryConfigCache w' = factoryConfigCache w
           | Inr c' \<Rightarrow> factoryConfigCache w' = Some (c', clock_at env (calls_made w') + f_configTtl F))
     | None \<Rightarrow> (case out of Inl e \<Rightarrow> factoryConfigCache w' = None
           | Inr c' \<Rightarrow> factoryConfigCache w' = Some (c', clock_at env (calls_made w') + f_configTtl F)))"
proof -
  have run: "(out, w') = (case factoryConfigCache w of None \<Rightarrow> fetch_config env F w
    | Some (c, expiry) \<Rightarrow> if clock_at env (calls_made w) < expiry then (Inr c, w) else fetch_config env F w)"
    unfolding assms(2) using assms(1)
    by (auto simp: getFactoryConfig_def io_bind_def throwIfAborted_def io_gets_def io_now_def io_return_def split: option.split)
  show ?thesis
    using run by (cases rule: fetch_config_cases [of env F w]) (auto simp: caches_def split: option.splits if_splits)
qed

lemma factory_config_ttl_witness:
  "fst (getFactoryConfig sample_outside sample_factory False
      (sample_factory_world \<lparr> factoryConfigCache := Some (\<lparr> feeBps = 30, feeRecipient = None \<rparr>, 5000) \<rparr>))
    = Inr \<lparr> feeBps = 30, feeRecipient = None \<rparr>"
proof -
  let ?w = "sample_factory_world \<lparr> factoryConfigCache := Some (\<lparr> feeBps = 30, feeRecipient = None \<rparr>, 5000) \<rparr>"
  obtain out w' where r: "(out, w') = getFactoryConfig sample_outside sample_factory False ?w" by (metis prod.collapse)
  have "\<not> (False \<and> aborted_now sample_outside (calls_made ?w))" by simp
  moreover have "clock_at sample_outside (calls_made ?w) = 1000" by (simp add: sample_outside_def calls_made_def)
  ultimately have "out = Inr \<lparr> feeBps = 30, feeRecipient = None \<rparr>" using factory_config_ttl [OF _ r] by simp
  then show ?thesis using r by (metis fst_conv)
qed

section \<open>Factory handlers only read\<close>

lemma runs_read_caller [runs_rules]: "runs read_only (\<lambda>_. True) (resolveCallerAddress env F)"
  unfolding resolveCallerAddress_def remember_caller_def wallet_key_def Let_def
  by (intro runs_then runs_branches runs_gets runs_direct runs_modify runs_return) simp_all

lemma runs_read_factory [runs_rules]:
  "runs read_only (\<lambda>_. True) (factory_read env F method args)"
  "runs read_only (\<lambda>_. True) (counted_read env F signal method args)"
proof -
  show r: "runs read_only (\<lambda>_. True) (factory_read env F method args)"
    unfolding factory_read_def
    by (intro runs_bind [OF runs_read_caller] runs_bind [OF runs_lift [where Q = "\<lambda>_. True"]]
        runs_bind [OF runs_value [OF runs_read_build]] runs_read_simulateReadOnly) simp_all
  show "runs read_only (\<lambda>_. True) (counted_read env F signal method args)"
    unfolding counted_read_def count_miss_def
    by (intro runs_bind [OF runs_aborted] runs_bind [OF runs_modify] r) simp_all
qed

lemma runs_read_address [runs_rules]: "runs read_only (\<lambda>_. True) (streamAddress env F ref signal)"
proof -
  have neg: "runs read_only (\<lambda>_. True) (cacheNegative env F k)" for k
    unfolding cacheNegative_def by (intro runs_bind [OF runs_now] runs_modify) simp
  have f: "runs read_only (\<lambda>_. True) (fetch_address env F n)" for n
    unfolding fetch_address_def count_miss_def
    by (intro runs_then runs_modify runs_read_factory(1), simp, simp split: sc_val.split,
        intro conjI allI impI runs_branches runs_then neg runs_modify runs_return; simp)
  show ?thesis
    unfolding streamAddress_def
    by (intro runs_then runs_any_lift runs_aborted runs_branches runs_gets runs_modify runs_now runs_return f) simp_all
qed

end
