(* ===== verification/Streams.thy ===== *)
theory Streams
  imports Factory
begin

text \<open>
  StreamsModule of src/streams.ts: identity and signing, the read handlers, the mutating
  handlers and batchWithdraw, over the Soroban pipeline and the factory's address cache.  The
  module's own fields extend the factory's world.  A signal argument says whether an abort
  signal was passed.
\<close>

section \<open>State and construction\<close>

record streams_world = factory_world +
  s_activeWallet :: bool
  s_cachedCaller :: "string option"
  warnedDeprecations :: "string list"
  consoleWarnings :: "string list"

record StreamsModule =
  s_rpcUrl :: string
  s_passphrase :: string
  s_horizonUrl :: string
  s_factory :: FactoryModule
  s_fee :: string
  s_network :: string
  s_factoryAddress :: "string option"
  s_signer :: "string option"
  s_keypair :: "string option"
  s_maxAttempts :: "int option"
  s_pollIntervalMs :: "int option"
  s_signatureTimeoutMs :: "jsnum option"

text \<open>networks stands for the Networks constants of the Stellar SDK.\<close>

definition new_StreamsModule :: "(string \<Rightarrow> string) \<Rightarrow> ConduitConfig \<Rightarrow> (thrown, StreamsModule) result" where
  "new_StreamsModule networks c =
    result_bind (new_FactoryModule c) (\<lambda>F.
    result_bind (resolveFee (cfg_fee c) (cfg_feeMultiplier c)) (\<lambda>fee.
    Inr \<lparr> s_rpcUrl = given_or (DEFAULT_RPC (network c)) (cfg_rpcUrl c), s_passphrase = networks (network c),
      s_horizonUrl = given_or (DEFAULT_HORIZON (network c)) (cfg_horizonUrl c), s_factory = F, s_fee = fee,
      s_network = network c, s_factoryAddress = factoryAddress c, s_signer = cfg_signer c, s_keypair = cfg_keypair c,
      s_maxAttempts = confirmationMaxAttempts c, s_pollIntervalMs = confirmationPollIntervalMs c,
      s_signatureTimeoutMs = signatureTimeoutMs c \<rparr>))"

definition initial_streams_world :: "ConduitConfig \<Rightarrow> factory_world \<Rightarrow> streams_world" where
  "initial_streams_world c w =
    factory_world.extend w \<lparr> s_activeWallet = (cfg_wallet c \<or> cfg_keypair c \<noteq> None), s_cachedCaller = None,
      warnedDeprecations = [], consoleWarnings = [] \<rparr>"

definition setWallet :: "'z streams_world_scheme \<Rightarrow> 'z streams_world_scheme" where
  "setWallet w = w \<lparr> s_activeWallet := True, s_cachedCaller := None \<rparr>"

definition warnV1Deprecated :: "bool \<Rightarrow> string \<Rightarrow> string \<Rightarrow> ('z streams_world_scheme, unit) io" where
  "warnV1Deprecated isDev methodName replacement =
    io_modify (\<lambda>w. if \<not> isDev \<or> methodName \<in> set (warnedDeprecations w) then w
      else w \<lparr> warnedDeprecations := warnedDeprecations w @ [methodName],
               consoleWarnings := consoleWarnings w @ [''[conduit-sdk] '' @ methodName @
                 '' is deprecated and will be removed in a future major version. Use '' @ replacement @ '' instead.''] \<rparr>)"

section \<open>Identity and signing\<close>

definition identity_required :: thrown where
  "identity_required = plain_error ''keypair, wallet adapter, or signer is required for mutating operations''"

definition can_mutate :: "StreamsModule \<Rightarrow> 'z streams_world_scheme \<Rightarrow> bool" where
  "can_mutate S w = (s_activeWallet w \<or> s_signer S \<noteq> None \<or> s_keypair S \<noteq> None)"

definition ensureCanMutate :: "StreamsModule \<Rightarrow> ('z streams_world_scheme, unit) io" where
  "ensureCanMutate S w = (if can_mutate S w then Inr () else Inl identity_required, w)"

definition resolveCaller :: "outside \<Rightarrow> StreamsModule \<Rightarrow> ('z streams_world_scheme, string) io" where
  "resolveCaller env S =
    io_bind (io_gets s_cachedCaller) (\<lambda>cached.
    case cached of
      Some a \<Rightarrow> io_return a
    | None \<Rightarrow>
        io_bind (io_gets s_activeWallet) (\<lambda>active.
        if active then
          io_bind (wallet_key env) (\<lambda>pk.
          if pk \<noteq> [] \<and> pk \<noteq> ZERO_ADDR
          then io_bind (io_modify (\<lambda>w. w \<lparr> s_cachedCaller := Some pk \<rparr>)) (\<lambda>_. io_return pk) else io_return ZERO_ADDR)
        else
          let addr = (case s_signer S of Some s \<Rightarrow> s | None \<Rightarrow> (case s_keypair S of Some k \<Rightarrow> k | None \<Rightarrow> ZERO_ADDR))
          in if addr \<noteq> [] \<and> addr \<noteq> ZERO_ADDR
             then io_bind (io_modify (\<lambda>w. w \<lparr> s_cachedCaller := Some addr \<rparr>)) (\<lambda>_. io_return addr) else io_return addr))"

definition getSenderAddress :: "outside \<Rightarrow> StreamsModule \<Rightarrow> ('z streams_world_scheme, string) io" where
  "getSenderAddress env S =
    io_bind (io_gets s_activeWallet) (\<lambda>active.
    if active then wallet_key env
    else case s_signer S of Some a \<Rightarrow> io_return a
    | None \<Rightarrow> (case s_keypair S of Some k \<Rightarrow> io_return k | None \<Rightarrow> io_throw identity_required))"

definition DEFAULT_SIGNATURE_TIMEOUT_MS :: jsnum where "DEFAULT_SIGNATURE_TIMEOUT_MS = Num 120000"

definition signature_timeout :: "jsnum \<Rightarrow> thrown" where
  "signature_timeout t = new_error (SignatureTimeoutError (int_of_num t))
     (''Signature request timed out after '' @ show_jsnum t @ ''ms without a response from the wallet or signer.'')"

text \<open>The answer of a wallet that takes delay milliseconds, raced against the timer.\<close>

definition withSignatureTimeout :: "jsnum option \<Rightarrow> int \<Rightarrow> (thrown, 'a) result \<Rightarrow> (thrown, 'a) result" where
  "withSignatureTimeout timeoutMs delay pending =
    (let t = given_or DEFAULT_SIGNATURE_TIMEOUT_MS timeoutMs in
     if \<not> is_finite_num t \<or> num_le t (Num 0) then pending
     else if num_less (Num (of_int delay)) t then pending
     else Inl (signature_timeout t))"

definition ask_signature :: "outside \<Rightarrow> StreamsModule \<Rightarrow> contract_tx \<Rightarrow> ('z streams_world_scheme, sign_reply) io" where
  "ask_signature env S tx =
    direct_call (Sign tx) (\<lambda>n. withSignatureTimeout (s_signatureTimeoutMs S) (sign_delay env n) (sign_answer env n tx))"

definition signTx :: "outside \<Rightarrow> StreamsModule \<Rightarrow> contract_tx \<Rightarrow> ('z streams_world_scheme, contract_tx) io" where
  "signTx env S tx =
    io_bind (io_gets s_activeWallet) (\<lambda>active.
    if active then
      io_bind (ask_signature env S tx) (\<lambda>reply.
      case reply of
        Signed_xdr t \<Rightarrow> io_return t
      | Signed_tx t \<Rightarrow> io_return t
      | _ \<Rightarrow> io_throw (plain_error ''Wallet adapter signTransaction returned null or undefined''))
    else if s_signer S \<noteq> None then
      io_bind (ask_signature env S tx) (\<lambda>reply. io_return (signer_result reply tx))
    else if s_keypair S \<noteq> None then io_return (keypair_sign env tx)
    else io_throw identity_required)"

section \<open>Address resolution, simulation and submission\<close>

definition resolveAddr :: "outside \<Rightarrow> StreamsModule \<Rightarrow> int \<Rightarrow> bool \<Rightarrow> ('z streams_world_scheme, string) io" where
  "resolveAddr env S n signal =
    io_bind (throwIfAborted env signal) (\<lambda>_.
    io_bind (streamAddress env (s_factory S) (Ref_bigint n) False) (\<lambda>a.
    case a of
      None \<Rightarrow> io_throw (stream_not_found n)
    | Some addr \<Rightarrow> if addr = [] then io_throw (stream_not_found n) else io_return addr))"

definition build_call ::
    "outside \<Rightarrow> StreamsModule \<Rightarrow> string \<Rightarrow> string \<Rightarrow> string \<Rightarrow> sc_val list \<Rightarrow> string \<Rightarrow> ('z streams_world_scheme, contract_tx) io" where
  "build_call env S caller contractId method args fee =
    buildContractCallTx env (s_rpcUrl S) caller contractId method args fee None (Some (s_horizonUrl S))"

definition is_stream_not_found :: "thrown \<Rightarrow> bool" where
  "is_stream_not_found e =
    (case err_class e of
       Some c \<Rightarrow> conduit_code c = Some (Stream, stream_code StreamErrorCode.StreamNotFound)
     | None \<Rightarrow> False)"

definition simulateTx ::
    "outside \<Rightarrow> StreamsModule \<Rightarrow> contract_tx \<Rightarrow> bool \<Rightarrow> int option \<Rightarrow> ('z streams_world_scheme, sc_val) io" where
  "simulateTx env S tx signal streamId =
    io_bind (throwIfAborted env signal) (\<lambda>_.
    io_bind (simulate env (s_rpcUrl S) ''simulateTransaction'' tx) (\<lambda>sim.
    case sim of
      Sim_error m \<Rightarrow>
        let e = fromSorobanMessage Stream m in
        (case streamId of
           Some n \<Rightarrow> if is_stream_not_found e then io_throw (stream_not_found n) else io_throw e
         | None \<Rightarrow> io_throw e)
    | Sim_ok r \<Rightarrow> (case sim_retval r of
        None \<Rightarrow> io_throw (plain_error ''Simulation returned no result'')
      | Some v \<Rightarrow> (case streamId of
          Some n \<Rightarrow> if v = ScvVoid then io_throw (stream_not_found n) else io_return v
        | None \<Rightarrow> io_return v))))"

definition sendAndPoll ::
    "outside \<Rightarrow> StreamsModule \<Rightarrow> contract_tx \<Rightarrow> bool \<Rightarrow> ('z streams_world_scheme, string \<times> sc_val option) io" where
  "sendAndPoll env S tx signal =
    io_bind (send env (s_rpcUrl S) tx) (\<lambda>sent.
    case sent of
      Send_rejected m \<Rightarrow> io_throw (plain_error (''Transaction rejected: '' @ m))
    | Send_accepted h \<Rightarrow>
        io_bind (pollForConfirmation env (s_rpcUrl S) h
          (normalizePollingOptions (s_pollIntervalMs S) (s_maxAttempts S) None) signal) (\<lambda>outcome.
        case outcome of
          Poll_success rv \<Rightarrow> io_return (h, rv)
        | Poll_failed \<Rightarrow> io_throw (plain_error (''Transaction failed: '' @ h))
        | Poll_error e _ \<Rightarrow> io_throw (as_rate_limit e)
        | Poll_timeout _ \<Rightarrow> io_throw (plain_error (''Transaction timed out: '' @ h))))"

text \<open>What follows a successful simulation: assemble, sign, submit and poll.\<close>

definition sign_and_send ::
    "outside \<Rightarrow> StreamsModule \<Rightarrow> contract_tx \<Rightarrow> sim_success \<Rightarrow> bool \<Rightarrow> ('z streams_world_scheme, string \<times> sc_val option) io" where
  "sign_and_send env S tx r signal =
    io_bind (signTx env S (assemble_tx env tx r)) (\<lambda>signed. sendAndPoll env S signed signal)"

definition invoke ::
    "outside \<Rightarrow> StreamsModule \<Rightarrow> string \<Rightarrow> string \<Rightarrow> sc_val list \<Rightarrow> bool \<Rightarrow> ('z streams_world_scheme, string) io" where
  "invoke env S contractId method args signal =
    io_bind (getSenderAddress env S) (\<lambda>from_addr.
    io_bind (build_call env S from_addr contractId method args (s_fee S)) (\<lambda>tx.
    io_bind (simulate env (s_rpcUrl S) ''simulateTransaction (invoke)'' tx) (\<lambda>sim.
    case sim of
      Sim_error m \<Rightarrow> io_throw (translateStreamError (fromSorobanMessage Stream m) method from_addr)
    | Sim_ok r \<Rightarrow> io_bind (sign_and_send env S tx r signal) (\<lambda>(h, _). io_return h))))"

section \<open>Reads\<close>

definition stream_read ::
    "outside \<Rightarrow> StreamsModule \<Rightarrow> int \<Rightarrow> string \<Rightarrow> bool \<Rightarrow> ('z streams_world_scheme, string \<times> sc_val) io" where
  "stream_read env S n method signal =
    io_bind (resolveAddr env S n False) (\<lambda>addr.
    io_bind (resolveCaller env S) (\<lambda>caller.
    io_bind (build_call env S caller addr method [] Soroban.BASE_FEE) (\<lambda>tx.
    io_bind (simulateTx env S tx signal (Some n)) (\<lambda>v. io_return (addr, v)))))"

definition fetchInfo :: "outside \<Rightarrow> StreamsModule \<Rightarrow> int \<Rightarrow> bool \<Rightarrow> ('z streams_world_scheme, StreamInfo) io" where
  "fetchInfo env S n signal =
    io_bind (stream_read env S n ''info'' signal) (\<lambda>(addr, v). io_lift (parseStreamInfo (address_fromScVal env) n addr v))"

text \<open>One call at a time, a shared fetch in flight is the fetch itself (see Coalesce).\<close>

definition get_stream :: "outside \<Rightarrow> StreamsModule \<Rightarrow> stream_ref \<Rightarrow> bool \<Rightarrow> ('z streams_world_scheme, StreamInfo) io" where
  "get_stream env S ref signal =
    io_bind (io_lift (to_bigint ref)) (\<lambda>n.
    io_bind (throwIfAborted env signal) (\<lambda>_. fetchInfo env S n signal))"

definition stream_amount :: "outside \<Rightarrow> StreamsModule \<Rightarrow> string \<Rightarrow> stream_ref \<Rightarrow> bool \<Rightarrow> ('z streams_world_scheme, int) io" where
  "stream_amount env S method ref signal =
    io_bind (io_lift (to_bigint ref)) (\<lambda>n.
    io_bind (throwIfAborted env signal) (\<lambda>_.
    io_bind (stream_read env S n method signal) (\<lambda>(_, v). io_lift (scValToI128 v))))"

definition withdrawable :: "outside \<Rightarrow> StreamsModule \<Rightarrow> stream_ref \<Rightarrow> bool \<Rightarrow> ('z streams_world_scheme, int) io" where
  "withdrawable env S ref signal = stream_amount env S ''withdrawable'' ref signal"

definition streamedTotal :: "outside \<Rightarrow> StreamsModule \<Rightarrow> stream_ref \<Rightarrow> bool \<Rightarrow> ('z streams_world_scheme, int) io" where
  "streamedTotal env S ref signal = stream_amount env S ''streamed_total'' ref signal"

record StreamFailure =
  sf_id :: int
  sf_error :: string

definition partition_outcomes :: "(int \<times> (thrown, 'a) result) list \<Rightarrow> 'a list \<times> StreamFailure list" where
  "partition_outcomes outcomes =
    (List.map_filter (\<lambda>(_, r). case r of Inr a \<Rightarrow> Some a | Inl _ \<Rightarrow> None) outcomes,
     List.map_filter (\<lambda>(n, r). case r of Inl e \<Rightarrow> Some \<lparr> sf_id = n, sf_error = err_message e \<rparr> | Inr _ \<Rightarrow> None) outcomes)"

definition getStreamInfos ::
    "outside \<Rightarrow> StreamsModule \<Rightarrow> stream_ref list \<Rightarrow> ('z streams_world_scheme, StreamInfo list \<times> StreamFailure list) io" where
  "getStreamInfos env S refs =
    io_bind (io_mapM (\<lambda>r. io_lift (to_bigint r)) refs) (\<lambda>ids.
    io_bind (io_mapM (\<lambda>n. io_bind (io_try (get_stream env S (Ref_bigint n) False)) (\<lambda>r. io_return (n, r))) ids) (\<lambda>outcomes.
    io_return (partition_outcomes outcomes)))"

section \<open>Mutating handlers\<close>

definition invalid_amount :: thrown where
  "invalid_amount = plain_error ''Invalid amount: must be greater than zero''"

definition i128_arg :: "outside \<Rightarrow> int \<Rightarrow> (thrown, sc_val list) result" where
  "i128_arg env n = result_bind (native_i128 env n) (\<lambda>v. Inr [v])"

definition withdraw :: "outside \<Rightarrow> StreamsModule \<Rightarrow> stream_ref \<Rightarrow> int option \<Rightarrow> bool \<Rightarrow> ('z streams_world_scheme, string) io" where
  "withdraw env S ref amount signal =
    io_bind (ensureCanMutate S) (\<lambda>_.
    io_bind (throwIfAborted env signal) (\<lambda>_.
    io_bind (io_lift (to_bigint ref)) (\<lambda>n.
    io_bind (io_guard (\<not> (case amount of Some a \<Rightarrow> a \<le> 0 | None \<Rightarrow> False)) invalid_amount) (\<lambda>_.
    io_bind (withdrawable env S (Ref_bigint n) False) (\<lambda>available.
    io_bind (case amount of
        Some a \<Rightarrow> if a > available then io_throw (amount_exceeds_withdrawable available a) else io_return a
      | None \<Rightarrow> io_return available) (\<lambda>qty.
    io_bind (resolveAddr env S n False) (\<lambda>addr.
    io_bind (io_lift (i128_arg env qty)) (\<lambda>args.
    invoke env S addr ''withdraw'' args False))))))))"

text \<open>cancel, pause and resume differ in the contract method only.\<close>

definition lifecycle_call :: "outside \<Rightarrow> StreamsModule \<Rightarrow> string \<Rightarrow> stream_ref \<Rightarrow> bool \<Rightarrow> ('z streams_world_scheme, string) io" where
  "lifecycle_call env S method ref signal =
    io_bind (ensureCanMutate S) (\<lambda>_.
    io_bind (throwIfAborted env signal) (\<lambda>_.
    io_bind (io_lift (to_bigint ref)) (\<lambda>n.
    io_bind (resolveAddr env S n signal) (\<lambda>addr. invoke env S addr method [] signal))))"

definition cancel :: "outside \<Rightarrow> StreamsModule \<Rightarrow> stream_ref \<Rightarrow> bool \<Rightarrow> ('z streams_world_scheme, string) io" where
  "cancel env S ref signal = lifecycle_call env S ''cancel'' ref signal"

definition pause :: "outside \<Rightarrow> StreamsModule \<Rightarrow> stream_ref \<Rightarrow> bool \<Rightarrow> ('z streams_world_scheme, string) io" where
  "pause env S ref signal = lifecycle_call env S ''pause'' ref signal"

definition resume :: "outside \<Rightarrow> StreamsModule \<Rightarrow> stream_ref \<Rightarrow> bool \<Rightarrow> ('z streams_world_scheme, string) io" where
  "resume env S ref signal = lifecycle_call env S ''resume'' ref signal"

definition topUp :: "outside \<Rightarrow> StreamsModule \<Rightarrow> stream_ref \<Rightarrow> int \<Rightarrow> bool \<Rightarrow> ('z streams_world_scheme, string) io" where
  "topUp env S ref amount signal =
    io_bind (ensureCanMutate S) (\<lambda>_.
    io_bind (throwIfAborted env signal) (\<lambda>_.
    io_bind (io_guard (\<not> amount \<le> 0) invalid_amount) (\<lambda>_.
    io_bind (io_lift (to_bigint ref)) (\<lambda>n.
    io_bind (resolveAddr env S n False) (\<lambda>addr.
    io_bind (io_lift (i128_arg env amount)) (\<lambda>args. invoke env S addr ''top_up'' args False))))))"

definition topUpStream :: "outside \<Rightarrow> StreamsModule \<Rightarrow> stream_ref \<Rightarrow> stream_ref \<Rightarrow> ('z streams_world_scheme, string) io" where
  "topUpStream env S ref amount = io_bind (io_lift (to_bigint amount)) (\<lambda>a. topUp env S ref a False)"

definition transferRecipient :: "outside \<Rightarrow> StreamsModule \<Rightarrow> stream_ref \<Rightarrow> string \<Rightarrow> ('z streams_world_scheme, string) io" where
  "transferRecipient env S ref newRecipient =
    io_bind (ensureCanMutate S) (\<lambda>_.
    io_bind (io_guard (\<not> (newRecipient = [] \<or> trim newRecipient = []))
      (plain_error ''Invalid recipient address: must be a non-empty string'')) (\<lambda>_.
    io_bind (io_lift (to_bigint ref)) (\<lambda>n.
    io_bind (resolveAddr env S n False) (\<lambda>addr.
    io_bind (io_lift (one_address env newRecipient)) (\<lambda>args. invoke env S addr ''transfer_recipient'' args False)))))"

definition forceCancel :: "outside \<Rightarrow> StreamsModule \<Rightarrow> stream_ref \<Rightarrow> ('z streams_world_scheme, string) io" where
  "forceCancel env S ref =
    io_bind (ensureCanMutate S) (\<lambda>_.
    io_bind (io_lift (to_bigint ref)) (\<lambda>n.
    io_bind (resolveAddr env S n False) (\<lambda>addr. invoke env S addr ''force_cancel'' [] False)))"

definition no_return_value :: "string \<Rightarrow> thrown" where
  "no_return_value h = plain_error (''Transaction '' @ h @ '' succeeded but returned no value'')"

definition clawback :: "outside \<Rightarrow> StreamsModule \<Rightarrow> stream_ref \<Rightarrow> bool \<Rightarrow> ('z streams_world_scheme, int) io" where
  "clawback env S ref signal =
    io_bind (ensureCanMutate S) (\<lambda>_.
    io_bind (throwIfAborted env signal) (\<lambda>_.
    io_bind (io_lift (to_bigint ref)) (\<lambda>n.
    io_bind (resolveAddr env S n False) (\<lambda>addr.
    io_bind (getSenderAddress env S) (\<lambda>caller.
    io_bind (build_call env S caller addr ''clawback'' [] (s_fee S)) (\<lambda>tx.
    io_bind (simulate env (s_rpcUrl S) ''simulateTransaction (clawback)'' tx) (\<lambda>sim.
    case sim of
      Sim_error m \<Rightarrow> io_throw (translateStreamError (fromSorobanMessage Stream m) ''clawback'' caller)
    | Sim_ok r \<Rightarrow>
        io_bind (sign_and_send env S tx r False) (\<lambda>(h, rv).
        case rv of None \<Rightarrow> io_throw (no_return_value h) | Some v \<Rightarrow> io_lift (scValToI128 v)))))))))"

section \<open>Batches of withdrawals\<close>

record BatchWithdrawResult =
  bw_streamId :: int
  bw_outcome :: "(string, string) result"

fun batch_loop ::
    "outside \<Rightarrow> StreamsModule \<Rightarrow> (stream_ref \<times> int option) list \<Rightarrow> BatchWithdrawResult list
      \<Rightarrow> ('z streams_world_scheme, BatchWithdrawResult list) io" where
  "batch_loop env S [] results = io_return results"
| "batch_loop env S ((ref, amount) # ws) results =
    io_bind (io_lift (to_bigint ref)) (\<lambda>streamId.
    io_bind (io_try (withdraw env S ref amount False)) (\<lambda>r.
    batch_loop env S ws (results @ [\<lparr> bw_streamId = streamId,
      bw_outcome = (case r of Inr h \<Rightarrow> Inr h | Inl e \<Rightarrow> Inl (err_message e)) \<rparr>])))"

definition batchWithdraw ::
    "outside \<Rightarrow> StreamsModule \<Rightarrow> (stream_ref \<times> int option) list \<Rightarrow> ('z streams_world_scheme, BatchWithdrawResult list) io" where
  "batchWithdraw env S ws = io_bind (ensureCanMutate S) (\<lambda>_. batch_loop env S ws [])"

section \<open>Creating a stream\<close>

record CreateStreamResult =
  cr_streamId :: int
  cr_streamAddress :: string
  cr_txHash :: string

fun amount_failure :: "amount_error \<Rightarrow> thrown" where
  "amount_failure (Invalid_amount_format a) = plain_error (''Invalid amount format: \"'' @ a @ ''\"'')"
| "amount_failure (Bad_duration d) = plain_error (''durationSecs must be a positive integer, got '' @ show_jsnum d)"

definition lift_amount :: "(amount_error, 'a) result \<Rightarrow> (thrown, 'a) result" where
  "lift_amount r = (case r of Inr a \<Rightarrow> Inr a | Inl e \<Rightarrow> Inl (amount_failure e))"

definition USDC_ISSUER :: "string \<Rightarrow> (thrown, string) result" where
  "USDC_ISSUER n =
    (if n = ''mainnet'' then Inr ''GA5ZSEJYB37JRC5AVCIA5MOP4RHTM335X2KGX3IHOJAPP5RE34K4KZVN''
     else if n = ''testnet'' then Inr ''GBBD47IF6LWK7P7MDEVSCWR7DPUWV3NY3DTQEVFL4NAT4AQH3ZLLFLA5''
     else Inl (plain_error (''token: '' @ straight_quote @ ''USDC'' @ straight_quote @ '' is not supported on the '' @ straight_quote @
       ''local'' @ straight_quote @ '' network '' @ em_dash @ '' no canonical USDC issuer exists on a local Soroban instance. '' @
       ''Pass an explicit contract address for your locally-deployed token instead.'')))"

definition resolve_token :: "outside \<Rightarrow> StreamsModule \<Rightarrow> string \<Rightarrow> (thrown, string) result" where
  "resolve_token env S tok =
    (if tok = ''native'' then Inr (asset_contract env ''native'' (s_passphrase S))
     else if tok = ''USDC'' then
       result_bind (USDC_ISSUER (s_network S)) (\<lambda>issuer. Inr (asset_contract env (''USDC:'' @ issuer) (s_passphrase S)))
     else Inr tok)"

definition duration_truthy :: "jsnum option \<Rightarrow> bool" where
  "duration_truthy d = (case d of Some n \<Rightarrow> num_truthy n | None \<Rightarrow> False)"

text \<open>ratePerSecond ? BigInt(ratePerSecond) : calculateRate(depositAmount, durationSeconds!, decimals).\<close>

definition rate_stroops :: "StreamConfig \<Rightarrow> nat \<Rightarrow> (thrown, int) result" where
  "rate_stroops p decimals =
    (case (if c_ratePerSecond p = Some [] then None else c_ratePerSecond p) of
       Some s \<Rightarrow> (case bigint_of_string s of Some n \<Rightarrow> Inr n | None \<Rightarrow> Inl (syntax_error s))
     | None \<Rightarrow> (case durationSeconds p of
         Some d \<Rightarrow> lift_amount (calculateRate (depositAmount p) d decimals)
       | None \<Rightarrow> Inl (plain_error ''durationSecs must be a positive integer, got undefined'')))"

text \<open>A number given to nativeToScVal as u64 is converted by BigInt.\<close>

definition u64_number :: "outside \<Rightarrow> jsnum \<Rightarrow> (thrown, sc_val) result" where
  "u64_number env n = result_bind (bigint_of_number n) (native_u64 env)"

definition create_args ::
    "outside \<Rightarrow> string \<Rightarrow> string \<Rightarrow> StreamConfig \<Rightarrow> int \<Rightarrow> int \<Rightarrow> int \<Rightarrow> (thrown, sc_val list) result" where
  "create_args env from_addr tok p amt rate now =
    (let start = given_or (Num (of_int now)) (c_startTime p);
         stop = (if duration_truthy (durationSeconds p) then num_add start (given_or NaN (durationSeconds p)) else Num 0)
     in result_bind (address_toScVal env from_addr) (\<lambda>a1.
        result_bind (address_toScVal env (c_recipient p)) (\<lambda>a2.
        result_bind (address_toScVal env tok) (\<lambda>a3.
        result_bind (native_i128 env amt) (\<lambda>a4.
        result_bind (native_i128 env rate) (\<lambda>a5.
        result_bind (u64_number env start) (\<lambda>a6.
        result_bind (u64_number env stop) (\<lambda>a7.
        Inr [a1, a2, a3, a4, a5, a6, a7, boolToScVal (given_or False (c_clawbackEnabled p))]))))))))"

text \<open>The amounts and arguments of one create_stream call, once the token's decimals are known.\<close>

definition create_payload ::
    "outside \<Rightarrow> StreamsModule \<Rightarrow> string \<Rightarrow> string \<Rightarrow> StreamConfig \<Rightarrow> ('z streams_world_scheme, int \<times> sc_val list) io" where
  "create_payload env S from_addr tok p =
    io_bind (getTokenDecimals env (s_rpcUrl S) from_addr tok) (\<lambda>decimals.
    io_bind (io_lift (lift_amount (toStroops (depositAmount p) (nat decimals)))) (\<lambda>amt.
    io_bind (io_lift (rate_stroops p (nat decimals))) (\<lambda>rate.
    io_bind (io_now env) (\<lambda>ms.
    io_bind (io_lift (create_args env from_addr tok p amt rate (ms div 1000))) (\<lambda>args.
    io_return (amt, args))))))"

definition create_simulation_error ::
    "outside \<Rightarrow> StreamsModule \<Rightarrow> string \<Rightarrow> int \<Rightarrow> string \<Rightarrow> ('z streams_world_scheme, 'a) io" where
  "create_simulation_error env S from_addr amt m =
    (let err = fromSorobanMessage Factory m in
     case err_class err of
       Some (InsufficientBalanceError current required) \<Rightarrow>
         if current = 0 \<and> required = 0 then
           io_bind (io_catch (queryXlmBalance env (s_rpcUrl S) (s_passphrase S) from_addr) (\<lambda>_. io_return 0)) (\<lambda>balance.
           io_throw (insufficient_balance balance
             (amt + estimateRequiredFee (Sim_error m) CREATE_RESOURCE_FEE_ESTIMATE) (Some m)))
         else io_throw err
     | _ \<Rightarrow> io_throw err)"

definition finish_create ::
    "outside \<Rightarrow> StreamsModule \<Rightarrow> string \<times> sc_val option \<Rightarrow> ('z streams_world_scheme, CreateStreamResult) io" where
  "finish_create env S sent =
    (case snd sent of
       None \<Rightarrow> io_throw (no_return_value (fst sent))
     | Some v \<Rightarrow>
         io_bind (io_lift (scValToU64 v)) (\<lambda>streamId.
         io_bind (streamAddress env (s_factory S) (Ref_bigint streamId) False) (\<lambda>a.
         io_return \<lparr> cr_streamId = streamId, cr_streamAddress = given_or [] a, cr_txHash = fst sent \<rparr>)))"

definition create :: "outside \<Rightarrow> StreamsModule \<Rightarrow> bool \<Rightarrow> StreamConfig \<Rightarrow> ('z streams_world_scheme, CreateStreamResult) io" where
  "create env S isDev p =
    io_bind (warnV1Deprecated isDev ''StreamsModule.create()'' ''StreamBuilder'') (\<lambda>_.
    io_bind (getSenderAddress env S) (\<lambda>from_addr.
    io_bind (io_now env) (\<lambda>ms.
    let validation = validateStreamParameters (keys env) p (ms div 1000) in
    io_bind (io_guard (isValid validation) (plain_error (given_or ''Invalid stream parameters'' (first_error validation)))) (\<lambda>_.
    io_bind (io_lift (resolve_token env S (c_token p))) (\<lambda>tok.
    io_bind (create_payload env S from_addr tok p) (\<lambda>(amt, args).
    io_bind (build_call env S from_addr (given_or [] (s_factoryAddress S)) ''create_stream'' args (s_fee S)) (\<lambda>tx.
    io_bind (simulate env (s_rpcUrl S) ''simulateTransaction (create)'' tx) (\<lambda>sim.
    case sim of
      Sim_error m \<Rightarrow> create_simulation_error env S from_addr amt m
    | Sim_ok r \<Rightarrow> io_bind (sign_and_send env S tx r False) (finish_create env S)))))))))"

section \<open>Listing\<close>

record ListStreamsParams =
  lp_from :: "string option"
  lp_to :: "string option"
  lp_limit :: "jsnum option"
  lp_offset :: "jsnum option"
  lp_cursor :: "string option"

record PaginatedStreams =
  ps_streams :: "StreamInfo list"
  ps_hasNextPage :: bool
  ps_totalCount :: int
  ps_offset :: jsnum
  ps_limit :: int
  ps_nextCursor :: "string option"

text \<open>Array.prototype.slice: indices are truncated, and a negative one counts from the end.\<close>

fun slice_index :: "nat \<Rightarrow> jsnum \<Rightarrow> nat" where
  "slice_index len (Num r) = (let k = trunc_rat r in if k < 0 then nat (int len + k) else min (nat k) len)"
| "slice_index len Infinity = len"
| "slice_index len _ = 0"

definition js_slice :: "'a list \<Rightarrow> jsnum \<Rightarrow> jsnum \<Rightarrow> 'a list" where
  "js_slice xs a b = drop (slice_index (length xs) a) (take (slice_index (length xs) b) xs)"

definition filled :: "string option \<Rightarrow> string option" where
  "filled a = (case a of Some s \<Rightarrow> if s = [] then None else Some s | None \<Rightarrow> None)"

definition list_offset :: "ListStreamsParams \<Rightarrow> (thrown, jsnum) result" where
  "list_offset p =
    (case lp_cursor p of
       None \<Rightarrow> Inr (given_or (Num 0) (lp_offset p))
     | Some c \<Rightarrow> (case decode_list_cursor c of Inr n \<Rightarrow> Inr (Num (of_nat n)) | Inl m \<Rightarrow> Inl (plain_error m)))"

text \<open>The ids of a page and whether there is another one, as the three filter branches compute them.\<close>

definition list_ids ::
    "outside \<Rightarrow> StreamsModule \<Rightarrow> ListStreamsParams \<Rightarrow> jsnum \<Rightarrow> int \<Rightarrow> ('z streams_world_scheme, (int list \<times> bool) option) io" where
  "list_ids env S p offset limit =
    (let F = s_factory S; stop = num_add offset (Num (of_int limit)) in
     case (filled (lp_from p), filled (lp_to p)) of
       (Some a, Some b) \<Rightarrow>
         let window = Num (of_int (clampListLimit (num_add stop (Num 1)))) in
         io_bind (streamsBySender env F a (Num 0) window False) (\<lambda>r1.
         io_bind (streamsByRecipient env F b (Num 0) window False) (\<lambda>r2.
         let merged = sort (remdups (fs_ids r1 @ fs_ids r2)) in
         io_return (Some (js_slice merged offset stop, num_less stop (Num (of_nat (length merged)))))))
     | (Some a, None) \<Rightarrow>
         io_bind (streamsBySender env F a offset (Num (of_int limit)) False) (\<lambda>r. io_return (Some (fs_ids r, fs_hasMore r)))
     | (None, Some b) \<Rightarrow>
         io_bind (streamsByRecipient env F b offset (Num (of_int limit)) False) (\<lambda>r. io_return (Some (fs_ids r, fs_hasMore r)))
     | (None, None) \<Rightarrow> io_return None)"

definition page_of_ids ::
    "outside \<Rightarrow> StreamsModule \<Rightarrow> jsnum \<Rightarrow> int \<Rightarrow> int list \<Rightarrow> bool \<Rightarrow> ('z streams_world_scheme, PaginatedStreams) io" where
  "page_of_ids env S offset limit ids hasNextPage =
    io_bind (io_mapM (\<lambda>n. resolveAddr env S n False) ids) (\<lambda>_.
    io_bind (io_mapM (\<lambda>n. get_stream env S (Ref_bigint n) False) ids) (\<lambda>streams.
    io_bind (io_lift (bigint_of_number (num_add offset (Num (of_nat (length ids)))))) (\<lambda>total.
    io_return \<lparr> ps_streams = streams, ps_hasNextPage = hasNextPage, ps_totalCount = total, ps_offset = offset,
      ps_limit = limit,
      ps_nextCursor = (if hasNextPage then Some (b64_encode (show_jsnum (num_add offset (Num (of_int limit))))) else None) \<rparr>)))"

definition list_streams ::
    "outside \<Rightarrow> StreamsModule \<Rightarrow> ListStreamsParams \<Rightarrow> bool \<Rightarrow> ('z streams_world_scheme, PaginatedStreams) io" where
  "list_streams env S p signal =
    io_bind (throwIfAborted env signal) (\<lambda>_.
    let limit = clampListLimit (given_or (Num (of_int DEFAULT_LIST_LIMIT)) (lp_limit p)) in
    io_bind (io_lift (list_offset p)) (\<lambda>offset.
    io_bind (list_ids env S p offset limit) (\<lambda>page.
    case page of
      Some (ids, another) \<Rightarrow> page_of_ids env S offset limit ids another
    | None \<Rightarrow> io_return \<lparr> ps_streams = [], ps_hasNextPage = False, ps_totalCount = 0, ps_offset = offset, ps_limit = limit,
        ps_nextCursor = None \<rparr>)))"

end
