(* ===== verification/Stream_Handlers.thy ===== *)
theory Stream_Handlers
  imports Streams
begin

text \<open>
  What the handlers of StreamsModule guarantee: reads neither sign nor submit, mutations need an
  identity, and the wallet is only ever asked to sign the call the caller asked for, once per
  invocation and after every read.
\<close>

section \<open>Reads\<close>

lemma runs_read_streams_caller [runs_rules]: "runs read_only (\<lambda>_. True) (resolveCaller env S)"
  unfolding resolveCaller_def wallet_key_def Let_def
  by (intro runs_then runs_branches runs_gets runs_direct runs_modify runs_return) simp_all

lemma runs_read_build_call [runs_rules]:
  "runs read_only (\<lambda>t. tx_method t = method \<and> tx_args t = args) (build_call env S caller cid method args fee)"
  unfolding build_call_def by (rule runs_weaken [OF runs_read_build]) simp_all

lemma runs_read_resolve [runs_rules]: "runs read_only (\<lambda>_. True) (resolveAddr env S n signal)"
  unfolding resolveAddr_def
  by (intro runs_then runs_aborted runs_read_address runs_branches runs_throw runs_return) simp_all

text \<open>A value a simulation of tx returned.\<close>

definition reported :: "outside \<Rightarrow> string \<Rightarrow> sc_val \<Rightarrow> bool" where
  "reported env method v =
    (\<exists>n t r. simulate_reply env n t = Inr (Sim_ok r) \<and> tx_method t = method \<and> sim_retval r = Some v)"

lemma runs_simulate_value:
  "runs read_only (\<lambda>s. \<exists>n. simulate_reply env n tx = Inr s) (simulate env url label tx)"
  unfolding simulate_def by (intro runs_map_error runs_proxied) auto

lemma runs_read_simulateTx [runs_rules]:
  "runs read_only (reported env (tx_method tx)) (simulateTx env S tx signal streamId)"
proof -
  have "runs read_only (reported env (tx_method tx))
      (case s of Sim_error m \<Rightarrow> let e = fromSorobanMessage Stream m in
          (case streamId of Some n \<Rightarrow> if is_stream_not_found e then io_throw (stream_not_found n) else io_throw e
           | None \<Rightarrow> io_throw e)
       | Sim_ok r \<Rightarrow> (case sim_retval r of None \<Rightarrow> io_throw (plain_error ''Simulation returned no result'')
           | Some v \<Rightarrow> (case streamId of Some n \<Rightarrow> if v = ScvVoid then io_throw (stream_not_found n) else io_return v
             | None \<Rightarrow> io_return v)))"
    if "\<exists>n. simulate_reply env n tx = Inr s" for s
  proof -
    have "reported env (tx_method tx) v" if "s = Sim_ok r" "sim_retval r = Some v" for r v
      using that \<open>\<exists>n. simulate_reply env n tx = Inr s\<close> unfolding reported_def by blast
    then show ?thesis
      by (auto simp: Let_def intro!: runs_throw runs_return split: sim_reply.split option.split)
  qed
  then show ?thesis
    unfolding simulateTx_def by (intro runs_then runs_aborted runs_bind [OF runs_simulate_value])
qed

lemma runs_read_stream_read [runs_rules]:
  "runs read_only (\<lambda>(_, v). reported env method v) (stream_read env S n method signal)"
  unfolding stream_read_def
  by (intro runs_then runs_read_resolve runs_read_streams_caller runs_bind [OF runs_read_build_call]
      runs_bind [OF runs_read_simulateTx] runs_return) auto

lemma runs_read_get [runs_rules]:
  "runs read_only (\<lambda>_. True) (fetchInfo env S n signal)" "runs read_only (\<lambda>_. True) (get_stream env S ref signal)"
proof -
  show f: "runs read_only (\<lambda>_. True) (fetchInfo env S n signal)" for n
    unfolding fetchInfo_def
    by (rule runs_bind [OF runs_read_stream_read]) (auto intro: runs_any_lift split: prod.split)
  show "runs read_only (\<lambda>_. True) (get_stream env S ref signal)"
    unfolding get_stream_def by (intro runs_then runs_any_lift runs_aborted f)
qed

lemma runs_read_amount [runs_rules]:
  "runs read_only (\<lambda>a. \<exists>v. reported env method v \<and> scValToI128 v = Inr a) (stream_amount env S method ref signal)"
  unfolding stream_amount_def
  by (intro runs_then runs_any_lift runs_aborted runs_bind [OF runs_read_stream_read])
     (auto intro!: runs_lift split: prod.split)

lemma runs_read_infos [runs_rules]: "runs read_only (\<lambda>_. True) (getStreamInfos env S refs)"
proof -
  have ids: "runs read_only (\<lambda>_. True) (io_mapM (\<lambda>r. io_lift (to_bigint r)) refs)"
    by (rule runs_value [OF runs_mapM]) (rule runs_any_lift)
  have get: "runs read_only (\<lambda>_. True)
      (io_mapM (\<lambda>n. io_bind (io_try (get_stream env S (Ref_bigint n) False)) (\<lambda>r. io_return (n, r))) ns)" for ns
    by (rule runs_value [OF runs_mapM [where Q = "\<lambda>_. True"]]) (intro runs_bind [OF runs_try [OF runs_read_get(2)]] runs_return TrueI)
  show ?thesis unfolding getStreamInfos_def by (intro runs_then ids get runs_return) simp
qed

lemma runs_read_listing [runs_rules]:
  "runs read_only (\<lambda>_. True) (streamsBySender env F a offset limit signal)"
  "runs read_only (\<lambda>_. True) (streamsByRecipient env F a offset limit signal)"
  unfolding streamsBySender_def streamsByRecipient_def list_by_def Let_def
  by (intro runs_then runs_read_factory runs_any_lift runs_return; simp)+

lemma runs_read_list [runs_rules]: "runs read_only (\<lambda>_. True) (list_streams env S p signal)"
proof -
  have ids: "runs read_only (\<lambda>_. True) (list_ids env S p offset limit)" for offset limit
    unfolding list_ids_def Let_def
    by (cases "filled (lp_from p)"; cases "filled (lp_to p)"; simp; intro runs_then runs_read_listing runs_return; simp)
  have addrs: "runs read_only (\<lambda>_. True) (io_mapM (\<lambda>n. resolveAddr env S n False) ns)" for ns
    by (rule runs_value [OF runs_mapM]) (rule runs_read_resolve)
  have infos: "runs read_only (\<lambda>_. True) (io_mapM (\<lambda>n. get_stream env S (Ref_bigint n) False) ns)" for ns
    by (rule runs_value [OF runs_mapM]) (rule runs_read_get)
  have page: "runs read_only (\<lambda>_. True) (page_of_ids env S offset limit ns b)" for offset limit ns b
    unfolding page_of_ids_def by (intro runs_then addrs infos runs_any_lift runs_return) simp
  show ?thesis
    unfolding list_streams_def Let_def
    by (intro runs_then runs_aborted runs_any_lift ids) (auto intro!: page runs_return split: option.split)
qed

text \<open>
  Reading never signs or submits: the read handlers of the pipeline, of the factory module and
  of the streams module make no call but reads, whatever the node, the wallet and the caches
  hold.
\<close>
theorem reads_never_submit:
  "list_all read_only (drop (length (trace w)) (trace (snd (get_stream env S ref signal w)))) \<and>
   list_all read_only (drop (length (trace w)) (trace (snd (withdrawable env S ref signal w)))) \<and>
   list_all read_only (drop (length (trace w)) (trace (snd (streamedTotal env S ref signal w)))) \<and>
   list_all read_only (drop (length (trace w)) (trace (snd (getStreamInfos env S refs w)))) \<and>
   list_all read_only (drop (length (trace w)) (trace (snd (list_streams env S p signal w)))) \<and>
   list_all read_only (drop (length (trace w)) (trace (snd (streamAddress env F ref signal w)))) \<and>
   list_all read_only (drop (length (trace w)) (trace (snd (streamsBySender env F a offset limit signal w)))) \<and>
   list_all read_only (drop (length (trace w)) (trace (snd (getTokenDecimals env url a tok w)))) \<and>
   list_all read_only (drop (length (trace w)) (trace (snd (queryXlmBalance env url pass a w))))"
  unfolding withdrawable_def streamedTotal_def
  by (intro conjI runs_calls; rule runs_value; rule runs_rules)

section \<open>Mutations need an identity\<close>

lemma refused_bind: "\<not> can_mutate S w \<Longrightarrow> io_bind (ensureCanMutate S) f w = (Inl identity_required, w)"
  by (simp add: io_bind_def ensureCanMutate_def)

text \<open>
  A module with no wallet, signer or keypair mutates nothing: every mutating handler fails at
  once with the same error, before any call to the node or the wallet and without touching the
  state; create fails the same way, after its deprecation warning.
\<close>
theorem mutations_need_identity:
  assumes "\<not> can_mutate S w"
  shows "withdraw env S ref amount signal w = (Inl identity_required, w) \<and>
    cancel env S ref signal w = (Inl identity_required, w) \<and> pause env S ref signal w = (Inl identity_required, w) \<and>
    resume env S ref signal w = (Inl identity_required, w) \<and> topUp env S ref q signal w = (Inl identity_required, w) \<and>
    transferRecipient env S ref a w = (Inl identity_required, w) \<and> forceCancel env S ref w = (Inl identity_required, w) \<and>
    clawback env S ref signal w = (Inl identity_required, w) \<and> batchWithdraw env S ws w = (Inl identity_required, w) \<and>
    fst (create env S isDev p w) = Inl identity_required \<and> trace (snd (create env S isDev p w)) = trace w"
proof -
  have "fst (create env S isDev p w) = Inl identity_required \<and> trace (snd (create env S isDev p w)) = trace w"
    using assms
    by (auto simp: create_def io_bind_def warnV1Deprecated_def io_modify_def getSenderAddress_def io_gets_def can_mutate_def
        io_throw_def)
  then show ?thesis
    using assms
    by (simp add: withdraw_def cancel_def pause_def resume_def lifecycle_call_def topUp_def transferRecipient_def
        forceCancel_def clawback_def batchWithdraw_def refused_bind)
qed

section \<open>What the wallet is asked to sign\<close>

lemma runs_signTx: "A t \<Longrightarrow> runs (signs_only A) (\<lambda>_. True) (signTx env S t)"
  unfolding signTx_def ask_signature_def
  by (intro runs_then runs_gets runs_branches runs_direct runs_return runs_throw)
     (auto simp: signs_only_def intro: runs_return runs_throw split: sign_reply.split)

lemma runs_sendAndPoll: "runs (signs_only A) (\<lambda>_. True) (sendAndPoll env S t signal)"
proof -
  have s: "runs (signs_only A) (\<lambda>_. True) (send env url t)" for url
    unfolding send_def by (intro runs_map_error runs_proxied) (simp_all add: signs_only_def)
  have p: "runs (signs_only A) (\<lambda>_. True) (pollForConfirmation env url h pl sg)" for url h pl sg
    unfolding pollForConfirmation_def
    by (rule runs_weaken [OF runs_read_poll]) (auto simp: signs_only_def split: ext_call.splits)
  show ?thesis
    unfolding sendAndPoll_def
    by (rule runs_then [OF s]) (auto intro!: runs_then [OF p] runs_throw runs_return split: send_reply.split poll_outcome.split)
qed

lemma runs_sign_and_send:
  "(\<And>r. A (assemble_tx env tx r)) \<Longrightarrow> runs (signs_only A) (\<lambda>_. True) (sign_and_send env S tx r signal)"
  unfolding sign_and_send_def by (intro runs_then runs_signTx runs_sendAndPoll)

lemma runs_key: "runs read_only (\<lambda>_. True) (getSenderAddress env S)"
  unfolding getSenderAddress_def wallet_key_def
  by (intro runs_then runs_gets runs_branches runs_direct runs_return runs_throw) simp_all

lemma runs_simulate_read: "runs read_only (\<lambda>_. True) (simulate env url label tx)"
  by (rule runs_value [OF runs_simulate_value])

lemma runs_invoke:
  assumes "\<And>t. assembled_call env method args t \<Longrightarrow> A t"
  shows "runs (signs_only A) (\<lambda>_. True) (invoke env S cid method args signal)"
proof -
  have "runs (signs_only A) (\<lambda>_. True) (io_bind (sign_and_send env S tx r signal) (\<lambda>(h, _). io_return h))"
    if "tx_method tx = method \<and> tx_args tx = args" for tx r
    by (intro runs_then [OF runs_sign_and_send]) (use assms that in \<open>auto simp: assembled_call_def intro: runs_return split: prod.split\<close>)
  then show ?thesis
    unfolding invoke_def
    by (intro runs_then [OF read_signs [OF runs_key]] runs_bind [OF read_signs [OF runs_read_build_call]]
        runs_then [OF read_signs [OF runs_simulate_read]])
       (auto intro: runs_throw split: sim_reply.split)
qed

lemma runs_can_mutate: "runs P (\<lambda>_. True) (ensureCanMutate S)"
  by (simp add: runs_def ensureCanMutate_def)

lemma runs_call:
  assumes "\<And>t. assembled_call env method args t \<Longrightarrow> A t"
  shows "runs (signs_only A) (\<lambda>_. True) (io_bind (resolveAddr env S n sg) (\<lambda>addr. invoke env S addr method args signal))"
  by (intro runs_then [OF read_signs [OF runs_read_resolve]] runs_invoke assms)


text \<open>
  Every other mutation asks the wallet to sign its own contract call and nothing else: the
  lifecycle calls carry no argument, a top-up carries exactly the positive amount asked for,
  a transfer exactly the new recipient.
\<close>
theorem mutations_sign_their_call:
  "list_all (signs_only (assembled_call env ''cancel'' [])) (drop (length (trace w)) (trace (snd (cancel env S ref signal w)))) \<and>
   list_all (signs_only (assembled_call env ''pause'' [])) (drop (length (trace w)) (trace (snd (pause env S ref signal w)))) \<and>
   list_all (signs_only (assembled_call env ''resume'' [])) (drop (length (trace w)) (trace (snd (resume env S ref signal w)))) \<and>
   list_all (signs_only (assembled_call env ''force_cancel'' [])) (drop (length (trace w)) (trace (snd (forceCancel env S ref w)))) \<and>
   list_all (signs_only (assembled_call env ''clawback'' [])) (drop (length (trace w)) (trace (snd (clawback env S ref signal w)))) \<and>
   list_all (signs_only (\<lambda>t. \<exists>v. 0 < q \<and> native_i128 env q = Inr v \<and> assembled_call env ''top_up'' [v] t))
     (drop (length (trace w)) (trace (snd (topUp env S ref q signal w)))) \<and>
   list_all (signs_only (\<lambda>t. \<exists>v. address_toScVal env a = Inr v \<and> assembled_call env ''transfer_recipient'' [v] t))
     (drop (length (trace w)) (trace (snd (transferRecipient env S ref a w))))"
proof (intro conjI; rule runs_calls)
  have life: "runs (signs_only (assembled_call env meth [])) (\<lambda>_. True) (lifecycle_call env S meth ref signal)" for meth
    unfolding lifecycle_call_def
    by (intro runs_then [OF runs_can_mutate] runs_then [OF runs_aborted] runs_then [OF runs_any_lift] runs_call)
  show "runs (signs_only (assembled_call env ''cancel'' [])) (\<lambda>_. True) (cancel env S ref signal)"
    "runs (signs_only (assembled_call env ''pause'' [])) (\<lambda>_. True) (pause env S ref signal)"
    "runs (signs_only (assembled_call env ''resume'' [])) (\<lambda>_. True) (resume env S ref signal)"
    unfolding cancel_def pause_def resume_def by (rule life)+
  show "runs (signs_only (assembled_call env ''force_cancel'' [])) (\<lambda>_. True) (forceCancel env S ref)"
    unfolding forceCancel_def by (intro runs_then [OF runs_can_mutate] runs_then [OF runs_any_lift] runs_call)
  show "runs (signs_only (assembled_call env ''clawback'' [])) (\<lambda>_. True) (clawback env S ref signal)"
  proof -
    have "runs (signs_only (assembled_call env ''clawback'' [])) (\<lambda>_. True) (io_bind (sign_and_send env S tx r False) (\<lambda>(h, rv).
        case rv of None \<Rightarrow> io_throw (no_return_value h) | Some v \<Rightarrow> io_lift (scValToI128 v)))"
      if "tx_method tx = ''clawback'' \<and> tx_args tx = []" for tx r
      by (intro runs_then [OF runs_sign_and_send])
         (use that in \<open>auto simp: assembled_call_def intro: runs_throw runs_any_lift split: prod.split option.split\<close>)
    then show ?thesis
      unfolding clawback_def
      by (intro runs_then [OF runs_can_mutate] runs_then [OF runs_aborted] runs_then [OF runs_any_lift]
          runs_then [OF read_signs [OF runs_read_resolve]] runs_then [OF read_signs [OF runs_key]]
          runs_bind [OF read_signs [OF runs_read_build_call]] runs_then [OF read_signs [OF runs_simulate_read]])
         (auto intro: runs_throw split: sim_reply.split)
  qed
  have arg: "runs (signs_only A) (\<lambda>_. True) (io_bind (resolveAddr env S n False) (\<lambda>addr. io_bind (io_lift args)
      (\<lambda>vs. invoke env S addr meth vs False)))"
    if "\<And>vs t. args = Inr vs \<Longrightarrow> assembled_call env meth vs t \<Longrightarrow> A t" for A args meth n
    by (intro runs_then [OF read_signs [OF runs_read_resolve]] runs_bind [OF runs_lift [where Q = "\<lambda>vs. args = Inr vs"]]
        runs_invoke) (auto intro: that)
  show "runs (signs_only (\<lambda>t. \<exists>v. 0 < q \<and> native_i128 env q = Inr v \<and> assembled_call env ''top_up'' [v] t)) (\<lambda>_. True)
      (topUp env S ref q signal)"
    unfolding topUp_def
    by (intro runs_then [OF runs_can_mutate] runs_then [OF runs_aborted] runs_bind [OF runs_guard] runs_then [OF runs_any_lift] arg)
       (auto simp: i128_arg_def result_bind_Inr_iff)
  show "runs (signs_only (\<lambda>t. \<exists>v. address_toScVal env a = Inr v \<and> assembled_call env ''transfer_recipient'' [v] t)) (\<lambda>_. True)
      (transferRecipient env S ref a)"
    unfolding transferRecipient_def
    by (intro runs_then [OF runs_can_mutate] runs_bind [OF runs_guard] runs_then [OF runs_any_lift] arg)
       (auto simp: one_address_def result_bind_Inr_iff)
qed

section \<open>Creating a stream\<close>

definition create_call :: "outside \<Rightarrow> StreamsModule \<Rightarrow> StreamConfig \<Rightarrow> string \<Rightarrow> string \<Rightarrow> int \<times> sc_val list \<Rightarrow> bool" where
  "create_call env S p from_addr tok payload =
    (\<exists>decimals rate now. toStroops (depositAmount p) decimals = Inr (fst payload) \<and> rate_stroops p decimals = Inr rate \<and>
       create_args env from_addr tok p (fst payload) rate now = Inr (snd payload))"

lemma runs_read_payload:
  "runs read_only (create_call env S p from_addr tok) (create_payload env S from_addr tok p)"
proof -
  have "runs read_only (create_call env S p from_addr tok) (io_bind (io_now env) (\<lambda>ms.
      io_bind (io_lift (create_args env from_addr tok p amt rate (ms div 1000))) (\<lambda>args. io_return (amt, args))))"
    if "lift_amount (toStroops (depositAmount p) (nat d)) = Inr amt" "rate_stroops p (nat d) = Inr rate" for d amt rate
    using that
    by (intro runs_then [OF runs_now] runs_bind [OF runs_lift [where Q = "\<lambda>a. \<exists>now. create_args env from_addr tok p amt rate now = Inr a"]] runs_return)
       (auto simp: create_call_def lift_amount_def split: sum.splits)
  then have "runs read_only (create_call env S p from_addr tok) (io_bind (io_lift (lift_amount (toStroops (depositAmount p) (nat d)))) (\<lambda>amt.
      io_bind (io_lift (rate_stroops p (nat d))) (\<lambda>rate. io_bind (io_now env) (\<lambda>ms.
      io_bind (io_lift (create_args env from_addr tok p amt rate (ms div 1000))) (\<lambda>args. io_return (amt, args))))))" for d
    by (intro runs_bind [OF runs_lift [where Q = "\<lambda>a. lift_amount (toStroops (depositAmount p) (nat d)) = Inr a"]]
        runs_bind [OF runs_lift [where Q = "\<lambda>a. rate_stroops p (nat d) = Inr a"]])
  then show ?thesis
    unfolding create_payload_def by (rule runs_then [OF runs_read_decimals])
qed

lemma runs_read_finish: "runs read_only (\<lambda>_. True) (finish_create env S sent)"
  unfolding finish_create_def
  by (intro runs_branches runs_throw runs_then [OF runs_any_lift] runs_then [OF runs_read_address] runs_return) simp

lemma runs_create_refusal: "runs read_only (\<lambda>_. True) (create_simulation_error env S from_addr amt m)"
  unfolding create_simulation_error_def Let_def
  by (auto intro!: runs_throw runs_then [OF runs_catch [OF runs_value [OF runs_read_balance] runs_return]]
      split: option.split error_class.split)

lemma runs_warn: "runs P (\<lambda>_. True) (warnV1Deprecated isDev m r)"
  unfolding warnV1Deprecated_def by (rule runs_modify) simp


section \<open>One question to the wallet per invocation\<close>

definition traces :: "(ext_call list \<Rightarrow> bool) \<Rightarrow> ('z rpc_world_scheme, 'a) io \<Rightarrow> bool" where
  "traces R m = (\<forall>w. \<exists>cs. trace (snd (m w)) = trace w @ cs \<and> R cs)"

lemma traces_runs: "runs P Q m \<Longrightarrow> traces (list_all P) m"
  by (auto simp: traces_def runs_def)

lemma traces_bind:
  assumes "traces R1 m" "\<And>a. traces R2 (f a)" "\<And>cs. R1 cs \<Longrightarrow> R cs" "\<And>cs ds. R1 cs \<Longrightarrow> R2 ds \<Longrightarrow> R (cs @ ds)"
  shows "traces R (io_bind m f)"
  unfolding traces_def
proof
  fix w
  obtain cs where cs: "trace (snd (m w)) = trace w @ cs" "R1 cs" using assms(1) by (auto simp: traces_def)
  show "\<exists>cs. trace (snd (io_bind m f w)) = trace w @ cs \<and> R cs"
  proof (cases "m w")
    case (Pair r w1)
    show ?thesis
    proof (cases r)
      case (Inl e)
      then show ?thesis using cs assms(3) Pair by (auto simp: io_bind_def)
    next
      case (Inr a)
      obtain ds where "trace (snd (f a w1)) = trace w1 @ ds" "R2 ds" using assms(2) [of a] by (auto simp: traces_def)
      then show ?thesis using cs assms(4) Pair Inr by (auto simp: io_bind_def)
    qed
  qed
qed

lemma traces_weaken: "traces R m \<Longrightarrow> (\<And>cs. R cs \<Longrightarrow> R' cs) \<Longrightarrow> traces R' m"
  unfolding traces_def by meson

definition not_sign :: "ext_call \<Rightarrow> bool" where
  "not_sign c = (case c of Sign _ \<Rightarrow> False | _ \<Rightarrow> True)"

definition question :: "ext_call list \<Rightarrow> bool" where
  "question cs = (cs \<in> insert [] (range (\<lambda>t. [Sign t])))"

definition one_submission :: "ext_call list \<Rightarrow> bool" where
  "one_submission cs = (list_all not_sign cs \<and> (\<exists>t. set (sends cs) \<subseteq> {t}))"

definition asks_once :: "ext_call list \<Rightarrow> bool" where
  "asks_once cs = (\<exists>reads ask after. cs = reads @ ask @ after \<and> list_all read_only reads \<and> question ask \<and> one_submission after)"

lemma asks_once_intros:
  "list_all read_only cs \<Longrightarrow> asks_once cs"
  "list_all read_only cs \<Longrightarrow> asks_once ds \<Longrightarrow> asks_once (cs @ ds)"
  "question cs \<Longrightarrow> asks_once cs"
  "question cs \<Longrightarrow> one_submission ds \<Longrightarrow> asks_once (cs @ ds)"
proof -
  have e: "question []" "one_submission []" by (simp_all add: question_def one_submission_def)
  show "list_all read_only cs \<Longrightarrow> asks_once cs" unfolding asks_once_def using e by (metis append_Nil2)
  show "list_all read_only cs \<Longrightarrow> asks_once ds \<Longrightarrow> asks_once (cs @ ds)"
    unfolding asks_once_def by (metis append_assoc list_all_append)
  show "question cs \<Longrightarrow> asks_once cs" unfolding asks_once_def using e by (metis append_Nil append_Nil2 list.pred_inject(1))
  show "question cs \<Longrightarrow> one_submission ds \<Longrightarrow> asks_once (cs @ ds)"
    unfolding asks_once_def by (metis append_Nil list.pred_inject(1))
qed

lemma traces_signTx: "traces question (signTx env S t :: ('z streams_world_scheme, contract_tx) io)"
proof -
  have ask: "traces question (ask_signature env S t :: ('z streams_world_scheme, sign_reply) io)"
    by (simp add: traces_def ask_signature_def direct_call_def question_def)
  have silent: "traces (\<lambda>cs. cs = []) (io_return a :: ('z streams_world_scheme, contract_tx) io)"
    "traces (\<lambda>cs. cs = []) (io_throw e :: ('z streams_world_scheme, contract_tx) io)" for a e
    by (simp_all add: traces_def io_return_def io_throw_def)
  have asked: "traces question (io_bind (ask_signature env S t) f)" if "\<And>r. traces (\<lambda>cs. cs = []) (f r)" for f :: "sign_reply \<Rightarrow> ('z streams_world_scheme, contract_tx) io"
    by (rule traces_bind [OF ask that]) simp_all
  have none: "traces (\<lambda>cs. cs = []) m \<Longrightarrow> traces question m" for m :: "('z streams_world_scheme, contract_tx) io"
    by (erule traces_weaken) (simp add: question_def)
  have "traces question ((if active then io_bind (ask_signature env S t) (\<lambda>reply. case reply of
        Signed_xdr t \<Rightarrow> io_return t | Signed_tx t \<Rightarrow> io_return t
      | _ \<Rightarrow> io_throw (plain_error ''Wallet adapter signTransaction returned null or undefined''))
    else if s_signer S \<noteq> None then io_bind (ask_signature env S t) (\<lambda>reply. io_return (signer_result reply t))
    else if s_keypair S \<noteq> None then io_return (keypair_sign env t) else io_throw identity_required) ::
      ('z streams_world_scheme, contract_tx) io)" for active
    by (auto intro!: asked silent none [OF silent(1)] none [OF silent(2)] split: sign_reply.split)
  then show ?thesis
    unfolding signTx_def
    by (intro traces_bind [where ?R1.0 = "\<lambda>cs. cs = []" and ?R2.0 = question])
       (simp_all add: traces_def io_gets_def question_def)
qed

lemma traces_sendAndPoll: "traces one_submission (sendAndPoll env S t signal)"
proof -
  have "runs (\<lambda>c. c = Send t) (\<lambda>_. True) (send env url t)" for url by (rule runs_value [OF runs_send])
  then have s: "traces (list_all (\<lambda>c. c = Send t)) (send env url t)" for url by (rule traces_runs)
  have "runs (\<lambda>c. not_sign c \<and> (\<forall>t. c \<noteq> Send t)) (\<lambda>_. True) (pollForConfirmation env url h pl sg)" for url h pl sg
    unfolding pollForConfirmation_def by (rule runs_weaken [OF runs_read_poll]) (auto simp: not_sign_def)
  then have p: "runs (\<lambda>c. not_sign c \<and> (\<forall>t. c \<noteq> Send t)) (\<lambda>_. True) (io_bind (pollForConfirmation env url h pl sg) (\<lambda>outcome. case outcome of
          Poll_success rv \<Rightarrow> io_return (h, rv) | Poll_failed \<Rightarrow> io_throw (plain_error (''Transaction failed: '' @ h))
        | Poll_error e _ \<Rightarrow> io_throw (as_rate_limit e) | Poll_timeout _ \<Rightarrow> io_throw (plain_error (''Transaction timed out: '' @ h))))"
    for url h pl sg
    by (rule runs_then) (auto intro: runs_throw runs_return split: poll_outcome.split)
  have q: "list_all (\<lambda>c. not_sign c \<and> (\<forall>t. c \<noteq> Send t)) ds \<Longrightarrow> list_all not_sign ds \<and> sends ds = []" for ds
    using no_sends [of ds] by (auto simp: list_all_iff)
  have r: "list_all (\<lambda>c. c = Send t) cs \<Longrightarrow> list_all not_sign cs \<and> set (sends cs) \<subseteq> {t}" for cs
    using only_sends [of t cs] by (auto simp: list_all_iff not_sign_def)
  show ?thesis
    unfolding sendAndPoll_def
  proof (rule traces_bind [OF s])
    fix sent
    show "traces (list_all (\<lambda>c. not_sign c \<and> (\<forall>t. c \<noteq> Send t))) (case sent of
        Send_rejected m \<Rightarrow> io_throw (plain_error (''Transaction rejected: '' @ m))
      | Send_accepted h \<Rightarrow> io_bind (pollForConfirmation env (s_rpcUrl S) h
          (normalizePollingOptions (s_pollIntervalMs S) (s_maxAttempts S) None) signal) (\<lambda>outcome. case outcome of
          Poll_success rv \<Rightarrow> io_return (h, rv) | Poll_failed \<Rightarrow> io_throw (plain_error (''Transaction failed: '' @ h))
        | Poll_error e _ \<Rightarrow> io_throw (as_rate_limit e) | Poll_timeout _ \<Rightarrow> io_throw (plain_error (''Transaction timed out: '' @ h))))"
      by (rule traces_runs [where Q = "\<lambda>_. True"]) (auto intro: p runs_throw split: send_reply.split)
  next
    fix cs assume "list_all (\<lambda>c. c = Send t) cs"
    then show "one_submission cs" using r [of cs] by (auto simp: one_submission_def)
  next
    fix cs ds assume "list_all (\<lambda>c. c = Send t) cs" "list_all (\<lambda>c. not_sign c \<and> (\<forall>t. c \<noteq> Send t)) ds"
    then show "one_submission (cs @ ds)" using r [of cs] q [of ds] by (auto simp: one_submission_def)
  qed
qed

lemma traces_sign_and_send: "traces asks_once (sign_and_send env S tx r signal)"
  unfolding sign_and_send_def
  by (rule traces_bind [OF traces_signTx traces_sendAndPoll]) (auto intro: asks_once_intros)

lemma traces_after_read: "runs read_only Q m \<Longrightarrow> (\<And>a. traces asks_once (f a)) \<Longrightarrow> traces asks_once (io_bind m f)"
  by (rule traces_bind [OF traces_runs, where ?R2.0 = asks_once]) (auto intro: asks_once_intros)

lemma traces_throw: "traces asks_once (io_throw e)"
  using asks_once_intros(1) [of "[]"] by (simp add: traces_def io_throw_def)

text \<open>
  C31: An invocation asks the wallet at most one question: whatever the node, the wallet and the
  caller's signal do, the calls of _invoke are reads, then at most one signature request, then
  polls and submissions of one single transaction; nothing is submitted before the question.
\<close>
theorem invoke_asks_once:
  "\<exists>reads ask after. trace (snd (invoke env S cid method args signal w)) = trace w @ reads @ ask @ after \<and>
     list_all read_only reads \<and> question ask \<and> one_submission after"
proof -
  have sent: "traces asks_once (io_bind (sign_and_send env S tx r signal) (\<lambda>(h, _). io_return h))" for tx r
    by (rule traces_bind [where ?R1.0 = asks_once and ?R2.0 = "\<lambda>cs. cs = []", OF traces_sign_and_send])
       (auto simp: traces_def io_return_def split: prod.split)
  have "traces asks_once (invoke env S cid method args signal)"
    unfolding invoke_def
    by (intro traces_after_read [OF runs_key] traces_after_read [OF runs_read_build_call] traces_after_read [OF runs_simulate_read])
       (auto intro: traces_throw sent split: sim_reply.split)
  then show ?thesis unfolding traces_def asks_once_def by blast
qed

section \<open>Batches\<close>

text \<open>The reference: every withdrawal is run in the world the one before left, whatever became of it.\<close>

fun run_all ::
    "outside \<Rightarrow> StreamsModule \<Rightarrow> (stream_ref \<times> int option) list \<Rightarrow> 'z streams_world_scheme
      \<Rightarrow> (thrown, string) result list \<times> 'z streams_world_scheme" where
  "run_all env S [] w = ([], w)"
| "run_all env S ((ref, amount) # ws) w =
    (let (r, w1) = withdraw env S ref amount False w; (rs, w2) = run_all env S ws w1 in (r # rs, w2))"

definition report_of :: "(thrown, string) result \<Rightarrow> (string, string) result" where
  "report_of r = (case r of Inr h \<Rightarrow> Inr h | Inl e \<Rightarrow> Inl (err_message e))"

lemma batch_loop_reference:
  assumes "List.map (to_bigint \<circ> fst) ws = List.map Inr ns"
  shows "batch_loop env S ws acc w =
    (Inr (acc @ map2 (\<lambda>n r. \<lparr> bw_streamId = n, bw_outcome = report_of r \<rparr>) ns (fst (run_all env S ws w))), snd (run_all env S ws w))"
  using assms
proof (induction ws arbitrary: ns acc w)
  case (Cons x ws)
  obtain ref amount where x: "x = (ref, amount)" by (cases x)
  obtain n ns' where ns: "ns = n # ns'" "to_bigint ref = Inr n" "List.map (to_bigint \<circ> fst) ws = List.map Inr ns'"
    using Cons.prems x by (cases ns) (auto simp: comp_def)
  obtain r w1 where r: "withdraw env S ref amount False w = (r, w1)" by (cases "withdraw env S ref amount False w") blast
  have "batch_loop env S (x # ws) acc w =
      batch_loop env S ws (acc @ [\<lparr> bw_streamId = n, bw_outcome = report_of r \<rparr>]) w1"
    using x ns r by (simp add: io_bind_def io_lift_def io_try_def report_of_def)
  then show ?case using Cons.IH [OF ns(3)] x ns r by (simp add: split_beta)
qed (simp add: io_return_def)

text \<open>
  C37: batchWithdraw is the sequence of its withdrawals: when every id is well formed it always
  returns one result per withdrawal, in order, each the outcome of running that withdrawal
  in the world its predecessor left, so a failed one neither stops nor changes the others.
\<close>
theorem batchWithdraw_is_sequence:
  assumes "can_mutate S w" "List.map (to_bigint \<circ> fst) ws = List.map Inr ns"
  shows "batchWithdraw env S ws w =
      (Inr (map2 (\<lambda>n r. \<lparr> bw_streamId = n, bw_outcome = report_of r \<rparr>) ns (fst (run_all env S ws w))), snd (run_all env S ws w)) \<and>
    length (fst (run_all env S ws w)) = length ws"
proof -
  have "length (fst (run_all env S ws w)) = length ws" for w
    by (induction ws arbitrary: w) (auto simp: split_beta)
  then show ?thesis
    using assms by (simp add: batchWithdraw_def io_bind_def ensureCanMutate_def batch_loop_reference)
qed

text \<open>A malformed id is not isolated: the results of the withdrawals already made are lost.\<close>

lemma batch_malformed_id:
  assumes "can_mutate S w" "to_bigint ref = Inl e"
  shows "batchWithdraw env S [(Ref_bigint n, a), (ref, b)] w =
    (Inl e, snd (withdraw env S (Ref_bigint n) a False w))"
  using assms
  by (cases "withdraw env S (Ref_bigint n) a False w")
     (simp add: batchWithdraw_def io_bind_def ensureCanMutate_def io_lift_def io_try_def)

text \<open>A deposit that validates with seven decimals may be nothing in the token's own unit.\<close>

lemma validated_deposit_of_zero: "validate_deposit ''0.001'' = []" "toStroops ''0.001'' 2 = Inr 0"
proof -
  have five: "replicate 5 c = [c, c, c, c, c]" for c :: char by (simp add: numeral_eq_Suc)
  show "validate_deposit ''0.001'' = []" "toStroops ''0.001'' 2 = Inr 0"
    by (simp_all add: validate_deposit_def toStroops_def amount_syntax_def index_of_def trim_def is_space_def is_digit_def
        digits_val_def digit_val_def pow10_def POW10_def Let_def five)
qed

section \<open>Examples\<close>

definition sample_streams :: StreamsModule where
  "sample_streams = \<lparr> s_rpcUrl = ''rpc'', s_passphrase = ''pass'', s_horizonUrl = ''horizon'', s_factory = sample_factory,
     s_fee = ''100'', s_network = ''testnet'', s_factoryAddress = Some ''CF'', s_signer = None, s_keypair = None,
     s_maxAttempts = None, s_pollIntervalMs = None, s_signatureTimeoutMs = None \<rparr>"

definition sample_streams_world :: streams_world where
  "sample_streams_world = initial_streams_world sample_config sample_factory_world"

lemma sample_streams_world_simps [simp]:
  "s_activeWallet sample_streams_world" "breakers sample_streams_world = initial_circuits" "trace sample_streams_world = []"
  "addressCache sample_streams_world = (\<lambda>_. None)"
  by (simp_all add: sample_streams_world_def initial_streams_world_def sample_factory_world_def initial_factory_world_def
      initial_rpc_world_def sample_config_def rpc_world.defs factory_world.defs)

lemma mutations_need_identity_witness:
  "pause sample_outside sample_streams (Ref_bigint 3) False (sample_streams_world \<lparr> s_activeWallet := False \<rparr>) =
    (Inl identity_required, sample_streams_world \<lparr> s_activeWallet := False \<rparr>)"
proof -
  have "\<not> can_mutate sample_streams (sample_streams_world \<lparr> s_activeWallet := False \<rparr>)"
    by (simp add: can_mutate_def sample_streams_def)
  then show ?thesis using mutations_need_identity by blast
qed

lemma batchWithdraw_is_sequence_witness:
  "\<exists>rs. fst (batchWithdraw sample_outside sample_streams [(Ref_bigint 3, None), (Ref_string ''4'', Some 9)] sample_streams_world) = Inr rs \<and>
    length (fst (run_all sample_outside sample_streams [(Ref_bigint 3, None), (Ref_string ''4'', Some 9)] sample_streams_world)) = 2"
proof -
  have "to_bigint (Ref_string ''4'') = Inr 4" using bigint_of_digits [of "''4''"] by (simp add: is_digit_def digits_val_def digit_val_def)
  then have "List.map (to_bigint \<circ> fst) [(Ref_bigint 3, None), (Ref_string ''4'', Some 9)] = List.map Inr [3, 4]" by simp
  moreover have "can_mutate sample_streams sample_streams_world" by (simp add: can_mutate_def)
  ultimately show ?thesis
    using batchWithdraw_is_sequence [of sample_streams sample_streams_world "[(Ref_bigint 3, None), (Ref_string ''4'', Some 9)]" "[3, 4]" sample_outside]
    by (metis fst_conv length_Cons list.size(3) numeral_2_eq_2)
qed

end
