(* ===== verification/Stream_Listing.thy ===== *)
theory Stream_Listing
  imports Stream_Handlers
begin

text \<open>
  The two-sided listing of StreamsModule.list: the page it computes from the first entries of the
  sender and the recipient index is the page of the whole ordered, duplicate-free union, as
  long as the window it reads is not cut at the maximal page size.
\<close>

section \<open>Prefixes of sorted unions\<close>

lemma take_insort:
  assumes "sorted l" "n \<le> length (filter (\<lambda>y. y < x) l)"
  shows "take n (insort x l) = take n l"
  using assms
proof (induction l arbitrary: n)
  case (Cons y l)
  show ?case
  proof (cases "x \<le> y")
    case True
    then have "filter (\<lambda>y. y < x) (y # l) = []" using Cons.prems(1) by (auto simp: filter_empty_conv)
    then show ?thesis using Cons.prems(2) by simp
  next
    case False
    then have "n - 1 \<le> length (filter (\<lambda>y. y < x) l)" using Cons.prems(2) by (auto split: if_splits)
    then have "take (n - 1) (insort x l) = take (n - 1) l" using Cons.IH Cons.prems(1) by simp
    then show ?thesis using False by (cases n) auto
  qed
qed simp

lemma take_sorted_superset:
  fixes T D :: "'a :: linorder set"
  assumes "finite D" "finite T" "\<forall>x \<in> D - T. n \<le> card {y \<in> T. y < x}"
  shows "take n (sorted_list_of_set (T \<union> D)) = take n (sorted_list_of_set T)"
  using assms
proof (induction D rule: finite_induct)
  case (insert x D)
  have ih: "take n (sorted_list_of_set (T \<union> D)) = take n (sorted_list_of_set T)"
    using insert by blast
  show ?case
  proof (cases "x \<in> T \<union> D")
    case True
    then have "T \<union> insert x D = T \<union> D" by blast
    then show ?thesis using ih by simp
  next
    case False
    let ?l = "sorted_list_of_set (T \<union> D)"
    have fin: "finite (T \<union> D)" using insert by blast
    have "n \<le> card {y \<in> T. y < x}" using insert.prems False by blast
    also have "\<dots> \<le> card {y \<in> T \<union> D. y < x}" by (rule card_mono) (use fin in auto)
    also have "{y \<in> T \<union> D. y < x} = set (filter (\<lambda>y. y < x) ?l)" using fin by auto
    also have "card \<dots> = length (filter (\<lambda>y. y < x) ?l)" by (rule distinct_card) simp
    finally have "take n (insort x ?l) = take n ?l" by (intro take_insort) simp_all
    then show ?thesis using ih fin False by simp
  qed
qed simp

lemma below_the_rest:
  fixes xs :: "int list"
  assumes "sorted xs" "distinct xs" "x \<in> set xs - set (take m xs)" "set (take m xs) \<subseteq> T" "finite T" "n \<le> m"
  shows "n \<le> card {y \<in> T. y < x}"
proof -
  have x: "x \<in> set (drop m xs)" using assms(3) set_take_disj_set_drop_if_distinct append_take_drop_id
    by (metis Diff_iff Un_iff set_append)
  then have len: "length (take m xs) = m" by (cases "m \<le> length xs") auto
  have "sorted (take m xs @ drop m xs)" using assms(1) by simp
  then have le: "\<forall>y \<in> set (take m xs). y \<le> x" using x by (metis sorted_append)
  have "set (take m xs) \<inter> set (drop m xs) = {}" using assms(2) by (simp add: set_take_disj_set_drop_if_distinct)
  then have "set (take m xs) \<subseteq> {y \<in> T. y < x}" using le x assms(4) by force
  then have "card (set (take m xs)) \<le> card {y \<in> T. y < x}" using assms(5) by (intro card_mono) auto
  moreover have "card (set (take m xs)) = m" using assms(2) len by (simp add: distinct_card)
  ultimately show ?thesis using assms(6) by simp
qed

lemma take_merged:
  fixes xs ys :: "int list"
  assumes "sorted xs" "distinct xs" "sorted ys" "distinct ys" "n \<le> m"
  shows "take n (sort (remdups (take m xs @ take m ys))) = take n (sort (remdups (xs @ ys)))"
proof -
  let ?T = "set (take m xs) \<union> set (take m ys)"
  have "?T \<union> (set xs \<union> set ys) = set (xs @ ys)" by (auto dest: in_set_takeD)
  moreover have "\<forall>x \<in> (set xs \<union> set ys) - ?T. n \<le> card {y \<in> ?T. y < x}"
    using below_the_rest [OF assms(1,2) _ _ _ assms(5), of _ ?T] below_the_rest [OF assms(3,4) _ _ _ assms(5), of _ ?T] by blast
  ultimately have "take n (sorted_list_of_set (set (xs @ ys))) = take n (sorted_list_of_set ?T)"
    using take_sorted_superset [of "set xs \<union> set ys" ?T n] by simp
  then show ?thesis by (metis set_append sorted_list_of_set_sort_remdups)
qed

lemma take_same_length: "take n xs = take n ys \<Longrightarrow> (n \<le> length xs) = (n \<le> length ys)"
  by (metis length_take min.absorb_iff2)

lemma num_less_nat: "num_less (Num (of_nat a)) (Num (of_nat b)) = (a < b)"
  by (auto simp: num_less_def)

lemma js_slice_nat:
  "js_slice xs (Num (of_nat k)) (Num (of_nat k + of_nat l)) = take l (drop k xs)"
proof -
  have "trunc_rat (of_nat k + of_nat l) = int (k + l)" "trunc_rat (of_nat k) = int k" by (simp_all flip: of_nat_add)
  then have i: "slice_index (length xs) (Num (of_nat k)) = min k (length xs)"
    "slice_index (length xs) (Num (of_nat k + of_nat l)) = min (k + l) (length xs)"
    by (simp_all add: Let_def del: trunc_rat.simps)
  show ?thesis
    unfolding js_slice_def i by (cases "k \<le> length xs") (simp_all add: min_def drop_take)
qed

section \<open>Reading streams a healthy node serves\<close>

lemma endpoint_up_streams [simp]:
  "endpoint_up url (w \<lparr> s_cachedCaller := c \<rparr>) = endpoint_up url w"
  "endpoint_up url (w \<lparr> addressCache := m \<rparr>) = endpoint_up url w"
  by (simp_all add: endpoint_up_def)

text \<open>What the node and the contracts answer for the streams of a list of ids.\<close>

definition serves_streams :: "outside \<Rightarrow> StreamsModule \<Rightarrow> int list \<Rightarrow> bool" where
  "serves_streams env S ns =
    (answering env (s_factory S) \<and> s_rpcUrl S = f_rpcUrl (s_factory S) \<and> (\<forall>a. result_ok (new_contract env a)) \<and>
     (\<forall>n \<in> set ns. \<exists>v. native_u64 env n = Inr v \<and>
        (\<forall>k t. tx_method t = ''stream_address'' \<and> tx_args t = [v] \<longrightarrow>
          (\<exists>r av a. simulate_reply env k t = Inr (Sim_ok r) \<and> sim_retval r = Some av \<and> av \<noteq> ScvVoid \<and>
             address_fromScVal env av = Inr a \<and> a \<noteq> []))) \<and>
     (\<forall>k t. tx_method t = ''info'' \<and> tx_args t = [] \<longrightarrow>
        (\<exists>r iv. simulate_reply env k t = Inr (Sim_ok r) \<and> sim_retval r = Some iv \<and> iv \<noteq> ScvVoid \<and>
           (\<forall>n a. result_ok (parseStreamInfo (address_fromScVal env) n a iv)))))"

definition no_absence :: "(string \<Rightarrow> string option option) \<Rightarrow> bool" where
  "no_absence m = (\<forall>k. m k \<noteq> Some None \<and> m k \<noteq> Some (Some []))"

definition healthy :: "StreamsModule \<Rightarrow> 'z streams_world_scheme \<Rightarrow> bool" where
  "healthy S w = (endpoint_up (f_rpcUrl (s_factory S)) w \<and> no_absence (addressCache w))"

lemma healthy_frame:
  assumes "yields (endpoint_up (f_rpcUrl (s_factory S))) Q m" "keeps caches m"
  shows "yields (healthy S) Q m"
proof -
  have "keeps addressCache m" using assms(2) by (simp add: keeps_def caches_def)
  from yields_frame [OF assms(1) this, of no_absence] show ?thesis
    by (simp add: healthy_def [abs_def])
qed

lemma yields_healthy_address:
  assumes "serves_streams env S ns" "n \<in> set ns"
  shows "yields (healthy S) (\<lambda>r. \<exists>a. r = Some a \<and> a \<noteq> []) (streamAddress env (s_factory S) (Ref_bigint n) False)"
proof -
  let ?F = "s_factory S"
  obtain v where v: "native_u64 env n = Inr v"
    "\<forall>k t. tx_method t = ''stream_address'' \<and> tx_args t = [v] \<longrightarrow> (\<exists>r av a. simulate_reply env k t = Inr (Sim_ok r) \<and>
      sim_retval r = Some av \<and> av \<noteq> ScvVoid \<and> address_fromScVal env av = Inr a \<and> a \<noteq> [])"
    using assms by (auto simp: serves_streams_def)
  have miss: "yields (healthy S) (\<lambda>_. True) (count_miss :: ('z streams_world_scheme, unit) io)"
    unfolding count_miss_def by (rule yields_modify) (simp add: healthy_def)
  have read: "yields (healthy S) (\<lambda>av. av \<noteq> ScvVoid \<and> (\<exists>a. address_fromScVal env av = Inr a \<and> a \<noteq> []))
      (factory_read env ?F ''stream_address'' (result_bind (native_u64 env n) (\<lambda>v. Inr [v])) :: ('z streams_world_scheme, sc_val) io)"
    by (rule healthy_frame [OF yields_read(1) [where vs = "[v]"] keeps_caches_read(1)])
       (use assms(1) v in \<open>auto simp: serves_streams_def\<close>)
  have store: "yields (healthy S) (\<lambda>r. \<exists>a. r = Some a \<and> a \<noteq> [])
      (io_bind (io_modify (\<lambda>w. w \<lparr> addressCache := (addressCache w)(show_int n \<mapsto> Some a) \<rparr>)) (\<lambda>_. io_return (Some a))
        :: ('z streams_world_scheme, string option) io)" if "a \<noteq> []" for a
    by (rule yields_bind [OF yields_modify yields_return]) (use that in \<open>auto simp: healthy_def no_absence_def\<close>)
  have fetch: "yields (healthy S) (\<lambda>r. \<exists>a. r = Some a \<and> a \<noteq> []) (fetch_address env ?F n :: ('z streams_world_scheme, string option) io)"
    unfolding fetch_address_def
    by (rule yields_bind [OF miss], rule yields_bind [OF read]) (auto intro: store split: sc_val.split)
  have hit: "yields (healthy S) (\<lambda>r. \<exists>a. r = Some a \<and> a \<noteq> [])
      (io_bind (io_modify (\<lambda>w. w \<lparr> f_cacheHits := f_cacheHits w + 1 \<rparr>)) (\<lambda>_. io_return (Some a)) :: ('z streams_world_scheme, string option) io)"
    if "a \<noteq> []" for a
    by (rule yields_bind [OF yields_modify yields_return]) (use that in \<open>auto simp: healthy_def\<close>)
  show ?thesis
    unfolding streamAddress_def to_bigint.simps
    by (rule yields_bind [OF yields_lift [where Q = "\<lambda>x. x = n", OF refl refl]], rule yields_bind [OF yields_aborted],
        rule yields_bind [OF yields_gets [where Q = "\<lambda>e. e \<noteq> Some None \<and> e \<noteq> Some (Some [])"]])
       (auto simp: healthy_def no_absence_def intro!: fetch hit [unfolded Suc_eq_plus1 [symmetric]] split: option.split)
qed

lemma yields_resolve:
  assumes "serves_streams env S ns" "n \<in> set ns"
  shows "yields (healthy S) (\<lambda>_. True) (resolveAddr env S n False)"
  unfolding resolveAddr_def
  by (rule yields_bind [OF yields_aborted], rule yields_bind [OF yields_healthy_address [OF assms]])
     (auto intro: yields_return)

lemma yields_streams_caller:
  assumes "answering env (s_factory S)"
  shows "yields (healthy S) (\<lambda>_. True) (resolveCaller env S)"
proof -
  let ?I = "endpoint_up (f_rpcUrl (s_factory S))"
  have key: "yields ?I (\<lambda>_. True) (wallet_key env :: ('z streams_world_scheme, string) io)"
    unfolding wallet_key_def using assms by (intro yields_direct) (auto simp: answering_def result_ok_iff)
  have rem: "yields ?I (\<lambda>_. True) (io_bind (io_modify (\<lambda>w. w \<lparr> s_cachedCaller := Some a \<rparr>)) (\<lambda>_. io_return a)
      :: ('z streams_world_scheme, string) io)" for a
    by (rule yields_bind [OF yields_modify yields_return]) simp_all
  have "yields ?I (\<lambda>_. True) (resolveCaller env S :: ('z streams_world_scheme, string) io)"
    unfolding resolveCaller_def Let_def
    by (rule yields_bind [OF yields_gets [where Q = "\<lambda>_. True"]])
       (auto intro!: yields_bind [OF yields_gets [where Q = "\<lambda>_. True"]] yields_bind [OF key] rem yields_return split: option.split)
  moreover have "keeps caches (resolveCaller env S :: ('z streams_world_scheme, string) io)"
    unfolding resolveCaller_def wallet_key_def Let_def
    by (intro keeps_rules keeps_modify keeps_caches [OF keeps_more_calls(1)]) (simp_all add: caches_def)
  ultimately show ?thesis by (rule healthy_frame)
qed

lemma yields_get:
  assumes "serves_streams env S ns" "n \<in> set ns"
  shows "yields (healthy S) (\<lambda>_. True) (get_stream env S (Ref_bigint n) False)"
proof -
  have ans: "answering env (s_factory S)" and url: "s_rpcUrl S = f_rpcUrl (s_factory S)"
    and new: "\<And>a. result_ok (new_contract env a)" using assms(1) by (simp_all add: serves_streams_def)
  have build: "yields (healthy S) (\<lambda>t. tx_method t = ''info'' \<and> tx_args t = [])
      (build_call env S caller addr ''info'' [] Soroban.BASE_FEE :: ('z streams_world_scheme, contract_tx) io)" for caller addr
    unfolding build_call_def url
    by (rule healthy_frame [OF yields_build keeps_caches [OF keeps_more_pipeline(1)]])
       (use ans new in \<open>simp_all add: answering_def\<close>)
  let ?parses = "\<lambda>iv. \<forall>n a. result_ok (parseStreamInfo (address_fromScVal env) n a iv)"
  have sim: "yields (healthy S) ?parses (simulateTx env S t False (Some n) :: ('z streams_world_scheme, sc_val) io)"
    if "tx_method t = ''info'' \<and> tx_args t = []" for t
  proof -
    have "yields (healthy S) (\<lambda>s. \<exists>r iv. s = Sim_ok r \<and> sim_retval r = Some iv \<and> iv \<noteq> ScvVoid \<and> ?parses iv)
        (simulate env (s_rpcUrl S) ''simulateTransaction'' t :: ('z streams_world_scheme, sim_reply) io)"
      unfolding simulate_def url
      by (rule healthy_frame [OF yields_map_error [OF yields_proxied] keeps_caches [OF keeps_map_error [OF keeps_more_calls(3)]]])
         (use assms(1) that in \<open>simp add: serves_streams_def, blast\<close>)
    then show ?thesis
      unfolding simulateTx_def
      by (intro yields_bind [OF yields_aborted], elim yields_bind) (auto intro: yields_return)
  qed
  have "yields (healthy S) (\<lambda>_. True) (io_lift (parseStreamInfo (address_fromScVal env) n addr iv) :: ('z streams_world_scheme, StreamInfo) io)"
    if p: "?parses iv" for addr iv
  proof -
    obtain i where "parseStreamInfo (address_fromScVal env) n addr iv = Inr i" using p by (metis result_ok_iff)
    then show ?thesis by (simp add: yields_lift)
  qed
  note parse = this
  have read: "yields (healthy S) (\<lambda>x. ?parses (snd x)) (stream_read env S n ''info'' False :: ('z streams_world_scheme, string \<times> sc_val) io)"
    unfolding stream_read_def
    by (rule yields_bind [OF yields_resolve [OF assms]], rule yields_bind [OF yields_streams_caller [OF ans]],
        rule yields_bind [OF build], rule yields_bind [OF sim], assumption, rule yields_return) simp
  have "yields (healthy S) (\<lambda>_. True) ((case x of (addr, iv) \<Rightarrow> io_lift (parseStreamInfo (address_fromScVal env) n addr iv))
      :: ('z streams_world_scheme, StreamInfo) io)" if "?parses (snd x)" for x
  proof (cases x)
    case (Pair addr iv)
    then show ?thesis using parse [of iv addr] that by simp
  qed
  then have fetch: "yields (healthy S) (\<lambda>_. True) (fetchInfo env S n False :: ('z streams_world_scheme, StreamInfo) io)"
    unfolding fetchInfo_def by (rule yields_bind [OF read])
  have "yields (healthy S) (\<lambda>_. True) (io_bind (throwIfAborted env False) (\<lambda>_. fetchInfo env S m False)
      :: ('z streams_world_scheme, StreamInfo) io)" if "m = n" for m
    by (rule yields_bind [OF yields_aborted]) (simp add: fetch that)
  then show ?thesis
    unfolding get_stream_def to_bigint.simps
    by (rule yields_bind [OF yields_lift [where Q = "\<lambda>x. x = n", OF refl refl]])
qed

lemma yields_page:
  assumes "serves_streams env S ns" "set ids \<subseteq> set ns"
  shows "yields (healthy S) (\<lambda>_. True) (page_of_ids env S (Num (of_nat k)) limit ids another)"
proof -
  have addrs: "yields (healthy S) (\<lambda>_. True) (io_mapM (\<lambda>n. resolveAddr env S n False) ids)"
    by (rule yields_weaken [OF yields_mapM [where Q = "\<lambda>_ _. True"]]) (use assms in \<open>auto intro: yields_resolve\<close>)
  have infos: "yields (healthy S) (\<lambda>_. True) (io_mapM (\<lambda>n. get_stream env S (Ref_bigint n) False) ids)"
    by (rule yields_weaken [OF yields_mapM [where Q = "\<lambda>_ _. True"]]) (use assms in \<open>auto intro: yields_get\<close>)
  have sum: "num_add (Num (of_nat k)) (Num (of_nat (length ids))) = Num (of_int (int (k + length ids)))" by simp
  have total: "bigint_of_number (num_add (Num (of_nat k)) (Num (of_nat (length ids)))) = Inr (int (k + length ids))"
    unfolding sum by (simp add: bigint_of_number_def del: of_int_of_nat_eq)
  show ?thesis
    unfolding page_of_ids_def
    by (rule yields_bind [OF addrs], rule yields_bind [OF infos],
        rule yields_bind [OF yields_lift [where Q = "\<lambda>_. True", OF total TrueI]], rule yields_return, rule TrueI)
qed

section \<open>The page of list\<close>

lemma yields_both_ids:
  assumes "serves_listing env (s_factory S) ''streams_by_sender'' a xs" "serves_listing env (s_factory S) ''streams_by_recipient'' b ys"
    "\<forall>n \<in> set (xs @ ys). 0 \<le> n \<and> n < 2 ^ 64"
    "filled (lp_from p) = Some a" "filled (lp_to p) = Some b"
    "m = nat (clampListLimit (num_add (num_add offset (Num (of_int limit))) (Num 1)))"
    "merged = sort (remdups (take m xs @ take m ys))"
  shows "yields (endpoint_up (f_rpcUrl (s_factory S)))
    (\<lambda>r. r = Some (js_slice merged offset (num_add offset (Num (of_int limit))),
               num_less (num_add offset (Num (of_int limit))) (Num (of_nat (length merged)))))
    (list_ids env S p offset limit)"
proof -
  let ?w = "Num (of_int (clampListLimit (num_add (num_add offset (Num (of_int limit))) (Num 1))))"
  have m: "clampListLimit ?w = int m" "clampOffset (Num 0) = 0"
    using clampListLimit_range [of "num_add (num_add offset (Num (of_int limit))) (Num 1)"]
    by (simp_all add: clampListLimit_id assms(6) clampOffset_def)
  have y1: "yields (endpoint_up (f_rpcUrl (s_factory S))) (\<lambda>r. fs_ids r = take m xs)
      (streamsBySender env (s_factory S) a (Num 0) ?w False)"
    unfolding streamsBySender_def
    by (rule yields_weaken [OF yields_list_by [OF assms(1)]]) (use assms(3) m in auto)
  have y2: "yields (endpoint_up (f_rpcUrl (s_factory S))) (\<lambda>r. fs_ids r = take m ys)
      (streamsByRecipient env (s_factory S) b (Num 0) ?w False)"
    unfolding streamsByRecipient_def
    by (rule yields_weaken [OF yields_list_by [OF assms(2)]]) (use assms(3) m in auto)
  show ?thesis
    unfolding list_ids_def Let_def assms(4,5) prod.case option.case
    by (rule yields_bind [OF y1], rule yields_bind [OF y2], rule yields_return) (simp add: assms(7))
qed

lemma keeps_caches_ids: "keeps caches (list_ids env S p offset limit)"
proof -
  have counted: "keeps caches (counted_read env F sg meth args)" for F sg meth args
    unfolding counted_read_def by (intro keeps_rules)
  have "keeps caches (streamsBySender env F a off lim sg)" "keeps caches (streamsByRecipient env F a off lim sg)" for F a off lim sg
    unfolding streamsBySender_def streamsByRecipient_def list_by_def Let_def by (intro keeps_rules counted)+
  then show ?thesis
    unfolding list_ids_def Let_def
    by (cases "filled (lp_from p)"; cases "filled (lp_to p)"; simp; intro keeps_rules)
qed

lemma get_stream_id:
  assumes "get_stream env S (Ref_bigint n) sg w = (Inr info, w')"
  shows "stream_id info = n"
proof -
  have "parse_entries f n addr g = Inr info \<Longrightarrow> stream_id info = n" for f addr g
    by (auto simp: parse_entries_def Let_def result_bind_Inr_iff)
  then have "parseStreamInfo f n addr v = Inr info \<Longrightarrow> stream_id info = n" for f addr v
    by (auto simp: parseStreamInfo_def split: sc_val.splits option.splits)
  then show ?thesis
    using assms by (auto simp: get_stream_def fetchInfo_def io_bind_def io_lift_def split: prod.splits sum.splits)
qed

lemma infos_of_ids:
  "io_mapM (\<lambda>n. get_stream env S (Ref_bigint n) sg) ids w = (Inr infos, w') \<Longrightarrow> List.map stream_id infos = ids"
proof (induction ids arbitrary: w infos)
  case (Cons n ids)
  then obtain i w1 rest where "get_stream env S (Ref_bigint n) sg w = (Inr i, w1)"
    "io_mapM (\<lambda>n. get_stream env S (Ref_bigint n) sg) ids w1 = (Inr rest, w')" "infos = i # rest"
    by (auto simp: io_bind_def io_return_def split: prod.splits sum.splits)
  then show ?case using Cons.IH get_stream_id by auto
qed (simp add: io_return_def)

lemma page_of_ids_result:
  assumes "page_of_ids env S offset limit ids another w = (Inr page, w')"
  shows "List.map stream_id (ps_streams page) = ids \<and> ps_hasNextPage page = another \<and> ps_offset page = offset \<and> ps_limit page = limit \<and>
    ps_nextCursor page = (if another then Some (b64_encode (show_jsnum (num_add offset (Num (of_int limit))))) else None)"
  using assms infos_of_ids
  by (auto simp: page_of_ids_def io_bind_def io_return_def io_lift_def split: prod.splits sum.splits)


text \<open>Past the window the page is cut: of a sender's 150 streams, those after the hundredth are never listed.\<close>

lemma list_window_cuts:
  fixes xs :: "int list"
  shows "js_slice (sort (remdups (take 100 xs @ take 100 []))) (Num 100) (Num 120) = []"
proof -
  have "length (sort (remdups (take 100 xs @ take 100 []))) \<le> 100"
    by (simp, metis length_remdups_leq length_take min.cobounded2 order_trans)
  moreover have "js_slice ys (Num 100) (Num 120) = take 20 (drop 100 ys)" for ys :: "int list"
    using js_slice_nat [of ys 100 20] by simp
  ultimately show ?thesis by simp
qed

definition serving_outside :: "int list \<Rightarrow> outside" where
  "serving_outside xs = sample_outside \<lparr> simulate_reply := (\<lambda>_ t. case tx_args t of
      [_, ScvU32 o32, ScvU32 l32] \<Rightarrow>
        Inr (Sim_ok (sample_sim \<lparr> sim_retval := Some (ScvVec (Some (List.map u64_value (take (unat l32) (drop (unat o32) xs))))) \<rparr>))
    | [] \<Rightarrow> Inr (Sim_ok (sample_sim \<lparr> sim_retval := Some (ScvMap (Some [])) \<rparr>))
    | _ \<Rightarrow> Inr (Sim_ok (sample_sim \<lparr> sim_retval := Some (ScvAddress ''CS'') \<rparr>))) \<rparr>"


end
