(* ===== verification/Json_Text.thy ===== *)
theory Json_Text
  imports Js_Values Sc_Values
begin

text \<open>
  JSON.stringify of a JavaScript value.  A bigint, which JSON cannot carry, becomes its digits
  and an n: what the replacer of src/fee-estimator.ts does; elsewhere no bigint reaches it.
\<close>

definition json_escape :: "char \<Rightarrow> string" where
  "json_escape c =
    (let n = of_char c :: nat; bs = CHR 0x5C in
     if n = 34 then [bs, CHR 0x22] else if n = 92 then [bs, bs]
     else if n = 8 then bs # ''b'' else if n = 9 then bs # ''t'' else if n = 10 then bs # ''n''
     else if n = 12 then bs # ''f'' else if n = 13 then bs # ''r''
     else if n < 32 then bs # ''u00'' @ [digit_char (n div 16),
       (if n mod 16 < 10 then digit_char (n mod 16) else char_of (87 + n mod 16))]
     else [c])"

definition json_string :: "string \<Rightarrow> string" where
  "json_string s = CHR 0x22 # concat (List.map json_escape s) @ [CHR 0x22]"

fun joined :: "string list \<Rightarrow> string" where
  "joined [] = []"
| "joined [s] = s"
| "joined (s # ss) = s @ '','' @ joined ss"

fun json_text :: "jsval \<Rightarrow> string" where
  "json_text JUndefined = ''null''"
| "json_text JNull = ''null''"
| "json_text (JBool b) = (if b then ''true'' else ''false'')"
| "json_text (JNumber n) = (if is_finite_num n then show_jsnum n else ''null'')"
| "json_text (JBigint n) = json_string (show_int n @ ''n'')"
| "json_text (JString s) = json_string s"
| "json_text (JArray vs) = ''['' @ joined (List.map json_text vs) @ '']''"
| "json_text (JObject kvs) = ''{'' @ joined (List.map (\<lambda>kv. json_string (fst kv) @ '':'' @ json_text (snd kv))
     (filter (\<lambda>kv. snd kv \<noteq> JUndefined) kvs)) @ ''}''"

text \<open>String of a value: an array joins its elements, and a plain object prints as a tag.\<close>

fun js_string :: "jsval \<Rightarrow> string" where
  "js_string JUndefined = ''undefined''"
| "js_string JNull = ''null''"
| "js_string (JBool b) = (if b then ''true'' else ''false'')"
| "js_string (JNumber n) = show_jsnum n"
| "js_string (JBigint n) = show_int n"
| "js_string (JString s) = s"
| "js_string (JArray vs) = joined (List.map (\<lambda>v. if v = JUndefined \<or> v = JNull then [] else js_string v) vs)"
| "js_string (JObject kvs) = ''[object Object]''"

end
