(* ===== verification/Fee_Estimator.thy ===== *)
theory Fee_Estimator
  imports Factory Json_Text
begin

text \<open>
  FeeEstimator of src/fee-estimator.ts.  The class is a state record; a request is its
  synchronous part up to the first await (estimateFee_start) and the completion of the fetch
  it started (settle_fee), so that runs may interleave the two for any keys.  The promise a
  request waits for is a position in the list of all promises created.
\<close>

section \<open>Resource fees of a simulation\<close>

record sim_resources =
  instructions :: "int option"
  diskReadBytes :: "int option"
  res_writeBytes :: "int option"

record SorobanResourceFees =
  resourceFee :: int
  cpuInstructions :: int
  readBytes :: int
  writeBytes :: int

text \<open>The results are the resources() of each transactionData, where there is one.\<close>

fun add_resources :: "sim_resources option list \<Rightarrow> int \<times> int \<times> int \<Rightarrow> int \<times> int \<times> int" where
  "add_resources [] acc = acc"
| "add_resources (None # rs) acc = add_resources rs acc"
| "add_resources (Some r # rs) (cpu, rd, wr) =
    add_resources rs (cpu + given_or 0 (instructions r), rd + given_or 0 (diskReadBytes r), wr + given_or 0 (res_writeBytes r))"

definition extractResourceFees ::
    "string option \<Rightarrow> sim_resources option list option \<Rightarrow> (thrown, SorobanResourceFees) result" where
  "extractResourceFees minResourceFee results =
    (case (case minResourceFee of None \<Rightarrow> Some 0 | Some s \<Rightarrow> if s = [] then Some 0 else bigint_of_string s) of
       None \<Rightarrow> Inl (syntax_error (given_or [] minResourceFee))
     | Some charge \<Rightarrow>
         let (cpu, rd, wr) = add_resources (given_or [] results) (0, 0, 0)
         in Inr \<lparr> resourceFee = charge, cpuInstructions = cpu, readBytes = rd, writeBytes = wr \<rparr>)"

section \<open>The footprint of a batch\<close>

definition DEFAULT_CPU_INSTRUCTION_LIMIT :: rat where "DEFAULT_CPU_INSTRUCTION_LIMIT = 100000000"
definition DEFAULT_INSTRUCTIONS_PER_BATCH_ITEM :: rat where "DEFAULT_INSTRUCTIONS_PER_BATCH_ITEM = 4000000"
definition DEFAULT_BATCH_FIXED_OVERHEAD_INSTRUCTIONS :: rat where "DEFAULT_BATCH_FIXED_OVERHEAD_INSTRUCTIONS = 2000000"
definition DEFAULT_BATCH_WARN_THRESHOLD :: rat where "DEFAULT_BATCH_WARN_THRESHOLD = 9 / 10"

record BatchFootprintOptions =
  bo_instructionsPerItem :: "jsnum option"
  bo_fixedOverheadInstructions :: "jsnum option"
  bo_cpuInstructionLimit :: "jsnum option"
  bo_warnThreshold :: "jsnum option"

record ResourceEstimate =
  re_itemCount :: int
  re_cpuInstructions :: rat
  re_cpuInstructionLimit :: rat
  utilizationRatio :: rat
  exceedsThreshold :: bool
  recommendedMaxItems :: int

text \<open>A finite number that satisfies the test of one option, or the error of that option.\<close>

definition finite_option :: "(rat \<Rightarrow> bool) \<Rightarrow> string \<Rightarrow> jsnum \<Rightarrow> (thrown, rat) result" where
  "finite_option ok message n =
    (case n of
       Num r \<Rightarrow> if ok r then Inr r else Inl (plain_error (message @ show_jsnum n))
     | _ \<Rightarrow> Inl (plain_error (message @ show_jsnum n)))"

definition footprint :: "int \<Rightarrow> rat \<Rightarrow> rat \<Rightarrow> rat \<Rightarrow> rat \<Rightarrow> ResourceEstimate" where
  "footprint items perItem overhead cpuLimit threshold =
    (let used = overhead + perItem * of_int items;
         ratio = used / cpuLimit;
         usable = max 0 (cpuLimit * threshold - overhead)
     in \<lparr> re_itemCount = items, re_cpuInstructions = used, re_cpuInstructionLimit = cpuLimit, utilizationRatio = ratio,
          exceedsThreshold = (ratio > threshold),
          recommendedMaxItems = (if perItem > 0 then max 1 \<lfloor>usable / perItem\<rfloor> else items) \<rparr>)"

definition estimateBatchFootprint :: "jsnum \<Rightarrow> BatchFootprintOptions \<Rightarrow> (thrown, ResourceEstimate) result" where
  "estimateBatchFootprint itemCount opts =
    (if \<not> is_integer_num itemCount \<or> int_of_num itemCount < 1
     then Inl (plain_error (''itemCount must be a positive integer, got '' @ show_jsnum itemCount))
     else
       result_bind (finite_option (\<lambda>r. 0 \<le> r) ''instructionsPerItem must be a non-negative finite number, got ''
         (given_or (Num DEFAULT_INSTRUCTIONS_PER_BATCH_ITEM) (bo_instructionsPerItem opts))) (\<lambda>perItem.
       result_bind (finite_option (\<lambda>r. 0 \<le> r) ''fixedOverheadInstructions must be a non-negative finite number, got ''
         (given_or (Num DEFAULT_BATCH_FIXED_OVERHEAD_INSTRUCTIONS) (bo_fixedOverheadInstructions opts))) (\<lambda>overhead.
       result_bind (finite_option (\<lambda>r. 0 < r) ''cpuInstructionLimit must be a positive finite number, got ''
         (given_or (Num DEFAULT_CPU_INSTRUCTION_LIMIT) (bo_cpuInstructionLimit opts))) (\<lambda>cpuLimit.
       result_bind (finite_option (\<lambda>r. 0 < r \<and> r \<le> 1) ''warnThreshold must be a finite number in (0, 1], got ''
         (given_or (Num DEFAULT_BATCH_WARN_THRESHOLD) (bo_warnThreshold opts))) (\<lambda>threshold.
       Inr (footprint (int_of_num itemCount) perItem overhead cpuLimit threshold))))))"

section \<open>Construction\<close>

datatype FeePriority = Low | Standard | Urgent

definition DEFAULT_PRIORITY_MULTIPLIERS :: "FeePriority \<Rightarrow> jsnum" where
  "DEFAULT_PRIORITY_MULTIPLIERS p = (case p of Low \<Rightarrow> Num 1 | Standard \<Rightarrow> Num (3 / 2) | Urgent \<Rightarrow> Num 3)"

definition DEFAULT_HORIZON_URL :: string where "DEFAULT_HORIZON_URL = ''https://horizon.stellar.org''"

record FeeEstimatorOptions =
  feo_horizonUrl :: "string option"
  feo_priorityMultipliers :: "FeePriority \<Rightarrow> jsnum option"
  feo_minRefetchIntervalMs :: "int option"
  feo_feeMultiplier :: "jsnum option"

record FeeEstimator =
  fe_minRefetchIntervalMs :: int
  fe_horizonUrl :: string
  fe_priorityMultipliers :: "FeePriority \<Rightarrow> jsnum"
  fe_feeMultiplier :: rat

record LedgerFeeStats =
  p75 :: int
  p95 :: int

datatype 'a fetch_promise = Fetching | Settled "(thrown, 'a) result"

record fee_state =
  baseFee :: int
  isEstimating :: bool
  currentPromises :: "string \<Rightarrow> nat option"
  lastSuccessfulFetchAt :: "int option"
  lastError :: "thrown option"
  fee_cache :: "string \<Rightarrow> (int \<times> int) option"
  fee_promises :: "(string option \<times> int fetch_promise) list"
  reported_errors :: "thrown list"
  ledgerFeeStatsCache :: "(LedgerFeeStats \<times> int) option"
  ledgerFeeStatsPromise :: "nat option"
  stats_promises :: "LedgerFeeStats fetch_promise list"

definition cacheTtlMs :: int where "cacheTtlMs = 3000"

definition initial_fee_state :: "int \<Rightarrow> fee_state" where
  "initial_fee_state n = \<lparr> baseFee = n, isEstimating = False, currentPromises = (\<lambda>_. None),
     lastSuccessfulFetchAt = None, lastError = None, fee_cache = (\<lambda>_. None), fee_promises = [],
     reported_errors = [], ledgerFeeStatsCache = None, ledgerFeeStatsPromise = None, stats_promises = [] \<rparr>"

definition new_FeeEstimator :: "int option \<Rightarrow> FeeEstimatorOptions \<Rightarrow> (thrown, FeeEstimator \<times> fee_state) result" where
  "new_FeeEstimator initialFee opts =
    (let m = given_or (Num 1) (feo_feeMultiplier opts) in
     if \<not> is_finite_num m \<or> num_less m (Num 1)
     then Inl (plain_error (''Invalid feeMultiplier: must be a finite number >= 1, got '' @ show_jsnum m))
     else Inr (\<lparr> fe_minRefetchIntervalMs = given_or 0 (feo_minRefetchIntervalMs opts),
                 fe_horizonUrl = strip_slashes (given_or DEFAULT_HORIZON_URL (feo_horizonUrl opts)),
                 fe_priorityMultipliers = (\<lambda>p. given_or (DEFAULT_PRIORITY_MULTIPLIERS p) (feo_priorityMultipliers opts p)),
                 fe_feeMultiplier = (case m of Num r \<Rightarrow> r | _ \<Rightarrow> 1) \<rparr>,
               initial_fee_state (given_or 100 initialFee)))"

section \<open>Scaling by a multiplier\<close>

definition js_round :: "rat \<Rightarrow> int" where "js_round r = \<lfloor>r + 1 / 2\<rfloor>"

text \<open>(n * BigInt(Math.round(m * 100)) + 99n) / 100n, where BigInt division truncates.\<close>

definition bigint_div :: "int \<Rightarrow> int \<Rightarrow> int" where
  "bigint_div a b = sgn a * sgn b * (\<bar>a\<bar> div \<bar>b\<bar>)"

definition scale_fee :: "rat \<Rightarrow> int \<Rightarrow> int" where
  "scale_fee m n = bigint_div (n * js_round (m * 100) + 99) 100"

definition applyBuffer :: "FeeEstimator \<Rightarrow> int \<Rightarrow> int" where
  "applyBuffer E n = (if fe_feeMultiplier E = 1 then n else scale_fee (fe_feeMultiplier E) n)"

section \<open>estimateFee\<close>

text \<open>The key of an estimate is JSON text of its arguments.\<close>

record FeeEstimateOptions =
  eo_cacheKey :: "string option"
  eo_method :: "string option"
  eo_args :: "jsval list option"

definition cache_key :: "FeeEstimateOptions \<Rightarrow> string option" where
  "cache_key opts =
    (case eo_cacheKey opts of
       Some k \<Rightarrow> Some k
     | None \<Rightarrow> (case eo_method opts of
         Some m \<Rightarrow> if m = [] then None else Some (m @ '':'' @ json_text (JArray (given_or [] (eo_args opts))))
       | None \<Rightarrow> None))"

definition promise_key :: "string option \<Rightarrow> string" where
  "promise_key key = given_or ''__uncached__'' key"

text \<open>The fee cached for a truthy key, while it is younger than the time to live.\<close>

definition cached_fee :: "int \<Rightarrow> string option \<Rightarrow> fee_state \<Rightarrow> int option" where
  "cached_fee now key s =
    (case key of
       None \<Rightarrow> None
     | Some k \<Rightarrow> if k = [] then None else (case fee_cache s k of
         Some (n, fetchedAt) \<Rightarrow> if now - fetchedAt < cacheTtlMs then Some n else None
       | None \<Rightarrow> None))"

definition normalized_error :: "thrown \<Rightarrow> thrown" where
  "normalized_error e = (case e of ThrownString m \<Rightarrow> plain_error m | _ \<Rightarrow> e)"

text \<open>What the fetcher's value is worth: a bigint that is not negative.\<close>

definition checked_fee :: "(thrown, int option) result \<Rightarrow> (thrown, int) result" where
  "checked_fee reply =
    (case reply of
       Inl e \<Rightarrow> Inl e
     | Inr (Some n) \<Rightarrow> if n < 0 then Inl (plain_error ''Invalid network fee response'') else Inr n
     | Inr None \<Rightarrow> Inl (plain_error ''Invalid network fee response''))"

definition store_fee :: "int \<Rightarrow> string option \<Rightarrow> int \<Rightarrow> fee_state \<Rightarrow> fee_state" where
  "store_fee now key n s = s \<lparr> baseFee := n, lastSuccessfulFetchAt := Some now, lastError := None,
     fee_cache := (case key of Some k \<Rightarrow> if k = [] then fee_cache s else (fee_cache s)(k \<mapsto> (n, now)) | None \<Rightarrow> fee_cache s) \<rparr>"

definition report_error :: "thrown \<Rightarrow> fee_state \<Rightarrow> fee_state" where
  "report_error e s = s \<lparr> lastError := Some e, reported_errors := reported_errors s @ [e] \<rparr>"

text \<open>The completion of a fetch: the try, catch and finally after the await.\<close>

definition settle_fee :: "int \<Rightarrow> nat \<Rightarrow> (thrown, int option) result \<Rightarrow> fee_state \<Rightarrow> fee_state" where
  "settle_fee now p reply s =
    (let key = fst (fee_promises s ! p);
         s1 = (case checked_fee reply of Inr n \<Rightarrow> store_fee now key n s | Inl e \<Rightarrow> report_error (normalized_error e) s)
     in s1 \<lparr> isEstimating := False, currentPromises := (currentPromises s1)(promise_key key := None),
             fee_promises := (fee_promises s1)[p := (key, Settled (Inr (baseFee s1)))] \<rparr>)"

datatype 'a answer = Answered 'a | Refused thrown | Awaiting nat

text \<open>A fetcher that throws instead of returning a promise fails before the promise is registered.\<close>

definition start_fetch :: "int \<Rightarrow> string option \<Rightarrow> thrown option \<Rightarrow> fee_state \<Rightarrow> int answer \<times> fee_state" where
  "start_fetch now key thrown_at_once s =
    (let p = length (fee_promises s);
         s1 = s \<lparr> isEstimating := True, fee_promises := fee_promises s @ [(key, Fetching)] \<rparr>;
         s2 = (case thrown_at_once of Some e \<Rightarrow> settle_fee now p (Inl e) s1 | None \<Rightarrow> s1)
     in (Awaiting p, s2 \<lparr> currentPromises := (currentPromises s2)(promise_key key \<mapsto> p) \<rparr>))"

definition estimateFee_start ::
    "FeeEstimator \<Rightarrow> int \<Rightarrow> string option \<Rightarrow> thrown option \<Rightarrow> fee_state \<Rightarrow> int answer \<times> fee_state" where
  "estimateFee_start E now key thrown_at_once s =
    (case cached_fee now key s of
       Some n \<Rightarrow> (Answered n, s)
     | None \<Rightarrow> (case currentPromises s (promise_key key) of
         Some p \<Rightarrow> (Awaiting p, s)
       | None \<Rightarrow>
           if fe_minRefetchIntervalMs E > 0 \<and> now - given_or 0 (lastSuccessfulFetchAt s) < fe_minRefetchIntervalMs E
           then (case lastError s of
               Some e \<Rightarrow> (Refused e, s \<lparr> reported_errors := reported_errors s @ [e] \<rparr>)
             | None \<Rightarrow> (Answered (baseFee s), s))
           else start_fetch now key thrown_at_once s))"

text \<open>One call that runs alone: its fetch, if it makes one, is answered at the time later.\<close>

definition estimateFee ::
    "FeeEstimator \<Rightarrow> int \<Rightarrow> int \<Rightarrow> (thrown, int option) result \<Rightarrow> string option \<Rightarrow> fee_state \<Rightarrow> (thrown, int) result \<times> fee_state" where
  "estimateFee E now later reply key s =
    (case estimateFee_start E now key None s of
       (Answered n, s1) \<Rightarrow> (Inr n, s1)
     | (Refused e, s1) \<Rightarrow> (Inl e, s1)
     | (Awaiting p, s1) \<Rightarrow> (case snd (fee_promises s1 ! p) of
         Settled r \<Rightarrow> (r, s1)
       | Fetching \<Rightarrow> let s2 = settle_fee later p reply s1 in (Inr (baseFee s2), s2)))"

section \<open>getDynamicFee\<close>

record fee_stats =
  last_ledger_base_fee :: "string option"
  charged_mode :: "string option"
  charged_p75 :: "string option"
  charged_p95 :: "string option"

datatype horizon_fees = Fees_status int | Fees_stats fee_stats

definition fees_failure :: "int \<Rightarrow> thrown" where
  "fees_failure status = plain_error (''Horizon fee_stats request failed: '' @ show_int status)"

definition or_else :: "'a option \<Rightarrow> 'a option \<Rightarrow> 'a option" where
  "or_else a b = (case a of Some x \<Rightarrow> Some x | None \<Rightarrow> b)"

text \<open>BigInt of a string that matches the pattern of digits only.\<close>

definition digits_fee :: "string option \<Rightarrow> int option" where
  "digits_fee raw =
    (case raw of Some s \<Rightarrow> if s \<noteq> [] \<and> list_all is_digit s then Some (int (digits_val s)) else None | None \<Rightarrow> None)"

definition dynamic_fee_of :: "rat \<Rightarrow> (thrown, horizon_fees) result \<Rightarrow> (thrown, int option) result" where
  "dynamic_fee_of m reply =
    (case reply of
       Inl e \<Rightarrow> Inl e
     | Inr (Fees_status st) \<Rightarrow> Inl (fees_failure st)
     | Inr (Fees_stats f) \<Rightarrow> (case digits_fee (or_else (charged_mode f) (last_ledger_base_fee f)) of
         None \<Rightarrow> Inl (plain_error ''Invalid network fee response'')
       | Some n \<Rightarrow> Inr (Some (scale_fee m n))))"

datatype fee_priority = Tier FeePriority | Custom jsnum

fun priority_text :: "fee_priority \<Rightarrow> string" where
  "priority_text (Tier Low) = ''low''"
| "priority_text (Tier Standard) = ''standard''"
| "priority_text (Tier Urgent) = ''urgent''"
| "priority_text (Custom n) = show_jsnum n"

definition priority_multiplier :: "FeeEstimator \<Rightarrow> fee_priority \<Rightarrow> (thrown, rat) result" where
  "priority_multiplier E priority =
    (let n = (case priority of Custom n \<Rightarrow> n | Tier t \<Rightarrow> fe_priorityMultipliers E t) in
     case n of
       Num m \<Rightarrow> if m < 1 then Inl (plain_error (''Invalid fee priority multiplier: '' @ priority_text priority)) else Inr m
     | _ \<Rightarrow> Inl (plain_error (''Invalid fee priority multiplier: '' @ priority_text priority)))"

text \<open>An explicit cacheKey among the options replaces the key of the priority.\<close>

definition getDynamicFee ::
    "FeeEstimator \<Rightarrow> int \<Rightarrow> int \<Rightarrow> (thrown, horizon_fees) result \<Rightarrow> fee_priority \<Rightarrow> string option \<Rightarrow> fee_state
      \<Rightarrow> (thrown, int) result \<times> fee_state" where
  "getDynamicFee E now later reply priority cacheKey s =
    (case priority_multiplier E priority of
       Inl e \<Rightarrow> (Inl e, s)
     | Inr m \<Rightarrow>
         let (r, s1) = estimateFee E now later (dynamic_fee_of m reply)
           (Some (given_or (''dynamic:'' @ priority_text priority) cacheKey)) s
         in (result_bind r (\<lambda>n. Inr (applyBuffer E n)), s1))"

section \<open>getLedgerFeeStats\<close>

definition ledger_stats_of :: "FeeEstimator \<Rightarrow> (thrown, horizon_fees) result \<Rightarrow> (thrown, LedgerFeeStats) result" where
  "ledger_stats_of E reply =
    (case reply of
       Inl e \<Rightarrow> Inl e
     | Inr (Fees_status st) \<Rightarrow> Inl (fees_failure st)
     | Inr (Fees_stats f) \<Rightarrow>
         let fallback = or_else (charged_mode f) (last_ledger_base_fee f) in
         (case (digits_fee (or_else (charged_p75 f) fallback), digits_fee (or_else (charged_p95 f) fallback)) of
            (Some a, Some b) \<Rightarrow> Inr \<lparr> p75 = applyBuffer E a, p95 = applyBuffer E b \<rparr>
          | _ \<Rightarrow> Inl (plain_error ''Invalid network fee response'')))"

definition settle_stats :: "FeeEstimator \<Rightarrow> int \<Rightarrow> nat \<Rightarrow> (thrown, horizon_fees) result \<Rightarrow> fee_state \<Rightarrow> fee_state" where
  "settle_stats E now p reply s =
    (let (r, s1) = (case ledger_stats_of E reply of
           Inr v \<Rightarrow> (Inr v, s \<lparr> ledgerFeeStatsCache := Some (v, now) \<rparr>)
         | Inl e \<Rightarrow> ((case ledgerFeeStatsCache s of Some (v, _) \<Rightarrow> Inr v | None \<Rightarrow> Inl (normalized_error e)),
                     s \<lparr> reported_errors := reported_errors s @ [normalized_error e] \<rparr>))
     in s1 \<lparr> ledgerFeeStatsPromise := None, stats_promises := (stats_promises s1)[p := Settled r] \<rparr>)"

definition getLedgerFeeStats_start ::
    "FeeEstimator \<Rightarrow> int \<Rightarrow> thrown option \<Rightarrow> fee_state \<Rightarrow> LedgerFeeStats answer \<times> fee_state" where
  "getLedgerFeeStats_start E now thrown_at_once s =
    (case (case ledgerFeeStatsCache s of Some (v, fetchedAt) \<Rightarrow> if now - fetchedAt < cacheTtlMs then Some v else None | None \<Rightarrow> None) of
       Some v \<Rightarrow> (Answered v, s)
     | None \<Rightarrow> (case ledgerFeeStatsPromise s of
         Some p \<Rightarrow> (Awaiting p, s)
       | None \<Rightarrow>
           let p = length (stats_promises s);
               s1 = s \<lparr> stats_promises := stats_promises s @ [Fetching] \<rparr>;
               s2 = (case thrown_at_once of Some e \<Rightarrow> settle_stats E now p (Inl e) s1 | None \<Rightarrow> s1)
           in (Awaiting p, s2 \<lparr> ledgerFeeStatsPromise := Some p \<rparr>)))"

text \<open>The simulator is the caller's, or the endpoint when a URL is given.\<close>

definition estimateResourceFees ::
    "(thrown, string option \<times> sim_resources option list option) result option \<Rightarrow> string option
      \<Rightarrow> (string \<Rightarrow> (thrown, string option \<times> sim_resources option list option) result) \<Rightarrow> (thrown, SorobanResourceFees) result" where
  "estimateResourceFees simulated rpcUrl endpoint =
    (case simulated of
       Some r \<Rightarrow> result_bind r (\<lambda>(m, rs). extractResourceFees m rs)
     | None \<Rightarrow> (case rpcUrl of
         None \<Rightarrow> Inl (plain_error ''estimateResourceFees requires rpcUrl or a simulate callback'')
       | Some u \<Rightarrow> if u = [] then Inl (plain_error ''estimateResourceFees requires rpcUrl or a simulate callback'')
                   else result_bind (endpoint u) (\<lambda>(m, rs). extractResourceFees m rs)))"

end
