(* ===== verification/Fee_Properties.thy ===== *)
theory Fee_Properties
  imports Fee_Estimator
begin

text \<open>
  Properties of the fee estimator: scaling is a ceiling, the recommended batch size is the
  largest that fits, and in every interleaving of requests and completions the state is a
  function of the history of the fetches.
\<close>

section \<open>Scaling\<close>

lemma bigint_div_nonneg: "0 \<le> a \<Longrightarrow> 0 < b \<Longrightarrow> bigint_div a b = a div b"
  by (cases "a = 0") (simp_all add: bigint_div_def)

lemma js_round_of_int [simp]: "js_round (of_int z) = z"
proof -
  have "\<lfloor>of_int z + 1 / 2 :: rat\<rfloor> = z" by (rule floor_unique) simp_all
  then show ?thesis by (simp add: js_round_def)
qed

lemma js_round_mono: "a \<le> b \<Longrightarrow> js_round a \<le> js_round b"
  by (simp add: js_round_def floor_mono)

lemma round_at_least_100: "1 \<le> m \<Longrightarrow> 100 \<le> js_round (m * 100)"
  using js_round_mono [of 100 "m * 100"] js_round_of_int [of 100] by simp

text \<open>Rounding up in hundredths.\<close>

lemma ceiling_hundredths:
  fixes k :: int
  shows "(k + 99) div 100 = \<lceil>of_int k / 100 :: rat\<rceil>"
proof -
  have "\<lceil>of_int k / of_int 100 :: rat\<rceil> = - (- k div 100)" by (simp only: ceiling_divide_eq_div)
  then show ?thesis by simp
qed

lemma scale_fee_ceiling:
  assumes "0 \<le> n" "1 \<le> m"
  shows "scale_fee m n = \<lceil>of_int (n * js_round (m * 100)) / 100 :: rat\<rceil>" "n \<le> scale_fee m n"
proof -
  have k: "100 \<le> js_round (m * 100)" using assms(2) by (rule round_at_least_100)
  then have "n * 100 \<le> n * js_round (m * 100)" using assms(1) by (intro mult_left_mono) simp_all
  then have "0 \<le> n * js_round (m * 100)" "n * 100 \<le> n * js_round (m * 100)" using assms(1) by simp_all
  moreover from calculation have e: "scale_fee m n = (n * js_round (m * 100) + 99) div 100"
    unfolding scale_fee_def by (intro bigint_div_nonneg) simp_all
  show "scale_fee m n = \<lceil>of_int (n * js_round (m * 100)) / 100 :: rat\<rceil>" unfolding e by (rule ceiling_hundredths)
  show "n \<le> scale_fee m n" using calculation unfolding e by linarith
qed

lemma scale_fee_mono:
  assumes "0 \<le> n" "n \<le> n'" "1 \<le> m" "m \<le> m'"
  shows "scale_fee m n \<le> scale_fee m' n'"
proof -
  have "js_round (m * 100) \<le> js_round (m' * 100)" using assms(4) by (intro js_round_mono) simp
  then have "n * js_round (m * 100) \<le> n' * js_round (m' * 100)"
    using assms round_at_least_100 [of m] by (intro mult_mono) simp_all
  then show ?thesis
    using assms round_at_least_100 [of m] round_at_least_100 [of m'] unfolding scale_fee_def
    by (simp add: bigint_div_nonneg zdiv_mono1)
qed

lemma applyBuffer_covers:
  assumes "0 \<le> n" "1 \<le> fe_feeMultiplier E"
  shows "n \<le> applyBuffer E n" "0 \<le> applyBuffer E n"
  using scale_fee_ceiling(2) [OF assms] assms(1) by (simp_all add: applyBuffer_def)

section \<open>Batch sizes\<close>

lemma footprint_fits:
  assumes "0 < perItem" "0 < cpuLimit"
  shows "exceedsThreshold (footprint m perItem overhead cpuLimit threshold) \<longleftrightarrow>
    \<lfloor>(cpuLimit * threshold - overhead) / perItem\<rfloor> < m"
proof -
  have "exceedsThreshold (footprint m perItem overhead cpuLimit threshold) \<longleftrightarrow>
      cpuLimit * threshold - overhead < of_int m * perItem"
    using assms by (simp add: footprint_def Let_def less_divide_eq algebra_simps)
  also have "\<dots> \<longleftrightarrow> (cpuLimit * threshold - overhead) / perItem < of_int m"
    using assms(1) by (simp add: divide_less_eq)
  finally show ?thesis by (simp add: floor_less_iff)
qed

lemma recommended_floor:
  assumes "0 < perItem" "\<not> exceedsThreshold (footprint 1 perItem overhead cpuLimit threshold)" "0 < cpuLimit"
  shows "recommendedMaxItems (footprint n perItem overhead cpuLimit threshold) = \<lfloor>(cpuLimit * threshold - overhead) / perItem\<rfloor>"
proof -
  have "1 \<le> \<lfloor>(cpuLimit * threshold - overhead) / perItem\<rfloor>"
    using assms footprint_fits [OF assms(1,3), of 1 overhead threshold] by simp
  moreover from this have "0 \<le> (cpuLimit * threshold - overhead) / perItem" by linarith
  then have "0 \<le> cpuLimit * threshold - overhead" using assms(1) by (simp add: zero_le_divide_iff)
  ultimately show ?thesis using assms(1) by (simp add: footprint_def Let_def max_def)
qed

lemma recommended_one:
  assumes "0 < perItem" "exceedsThreshold (footprint 1 perItem overhead cpuLimit threshold)" "0 < cpuLimit"
  shows "recommendedMaxItems (footprint n perItem overhead cpuLimit threshold) = 1"
proof -
  have "\<lfloor>(cpuLimit * threshold - overhead) / perItem\<rfloor> < 1"
    using assms footprint_fits [OF assms(1,3), of 1 overhead threshold] by simp
  then have "max 0 (cpuLimit * threshold - overhead) / perItem < 1"
    using assms(1) by (auto simp: max_def floor_less_iff divide_less_eq)
  then have "\<lfloor>max 0 (cpuLimit * threshold - overhead) / perItem\<rfloor> < 1" by (simp add: floor_less_iff)
  then show ?thesis using assms(1) by (simp add: footprint_def Let_def)
qed

text \<open>
  The recommended batch size is the largest that fits: for options that are accepted
  and a per-item cost above zero, every batch size gets the same recommendation, and a batch
  is over the threshold exactly when it has more items than that, unless not even one item
  fits, where every batch is over it and the recommendation is one item.
\<close>
theorem recommended_batch_is_largest:
  assumes "estimateBatchFootprint (Num (of_int n)) opts = Inr est" "bo_instructionsPerItem opts \<noteq> Some (Num 0)" "1 \<le> m"
  shows "\<exists>e one. estimateBatchFootprint (Num (of_int m)) opts = Inr e \<and> estimateBatchFootprint (Num 1) opts = Inr one \<and>
    recommendedMaxItems e = recommendedMaxItems est \<and>
    (if exceedsThreshold one then exceedsThreshold e \<and> recommendedMaxItems est = 1
     else exceedsThreshold e = (recommendedMaxItems est < m))"
proof -
  from assms(1) obtain per ov cpu thr where o:
      "finite_option (\<lambda>r. 0 \<le> r) ''instructionsPerItem must be a non-negative finite number, got ''
         (given_or (Num DEFAULT_INSTRUCTIONS_PER_BATCH_ITEM) (bo_instructionsPerItem opts)) = Inr per"
      "finite_option (\<lambda>r. 0 \<le> r) ''fixedOverheadInstructions must be a non-negative finite number, got ''
         (given_or (Num DEFAULT_BATCH_FIXED_OVERHEAD_INSTRUCTIONS) (bo_fixedOverheadInstructions opts)) = Inr ov"
      "finite_option (\<lambda>r. 0 < r) ''cpuInstructionLimit must be a positive finite number, got ''
         (given_or (Num DEFAULT_CPU_INSTRUCTION_LIMIT) (bo_cpuInstructionLimit opts)) = Inr cpu"
      "finite_option (\<lambda>r. 0 < r \<and> r \<le> 1) ''warnThreshold must be a finite number in (0, 1], got ''
         (given_or (Num DEFAULT_BATCH_WARN_THRESHOLD) (bo_warnThreshold opts)) = Inr thr"
    and est: "est = footprint n per ov cpu thr"
    by (auto simp: estimateBatchFootprint_def result_bind_Inr_iff split: if_splits)
  have all: "estimateBatchFootprint (Num (of_int k)) opts = Inr (footprint k per ov cpu thr)" if "1 \<le> k" for k
    using that o by (simp add: estimateBatchFootprint_def)
  have "0 < per"
    using o(1) assms(2) by (auto simp: finite_option_def given_or_def DEFAULT_INSTRUCTIONS_PER_BATCH_ITEM_def
        split: jsnum.splits option.splits if_splits)
  moreover have "0 < cpu" using o(3) by (auto simp: finite_option_def split: jsnum.splits if_splits)
  moreover from calculation have "exceedsThreshold (footprint m per ov cpu thr)" if "exceedsThreshold (footprint 1 per ov cpu thr)"
    using that assms(3) by (simp only: footprint_fits)
  ultimately show ?thesis
    using all [OF assms(3)] all [of 1] recommended_floor [of per ov cpu thr] recommended_one [of per ov cpu thr]
      footprint_fits [of per cpu m ov thr] unfolding est by auto
qed

lemma recommended_batch_is_largest_witness:
  "\<exists>e. estimateBatchFootprint (Num 25) \<lparr> bo_instructionsPerItem = None, bo_fixedOverheadInstructions = None,
     bo_cpuInstructionLimit = None, bo_warnThreshold = None \<rparr> = Inr e \<and> recommendedMaxItems e = 22 \<and> exceedsThreshold e"
proof -
  let ?o = "\<lparr> bo_instructionsPerItem = None, bo_fixedOverheadInstructions = None, bo_cpuInstructionLimit = None, bo_warnThreshold = None \<rparr>"
  have e: "estimateBatchFootprint (Num (of_int k)) ?o = Inr (footprint k 4000000 2000000 100000000 (9 / 10))" if "1 \<le> k" for k
    using that by (simp add: estimateBatchFootprint_def given_or_def finite_option_def DEFAULT_CPU_INSTRUCTION_LIMIT_def
        DEFAULT_INSTRUCTIONS_PER_BATCH_ITEM_def DEFAULT_BATCH_FIXED_OVERHEAD_INSTRUCTIONS_def DEFAULT_BATCH_WARN_THRESHOLD_def)
  have r: "recommendedMaxItems (footprint k 4000000 2000000 100000000 (9 / 10)) = 22" for k
    by (simp add: footprint_def Let_def)
  have "\<not> exceedsThreshold (footprint 1 4000000 2000000 100000000 (9 / 10))" by (simp add: footprint_def Let_def)
  then show ?thesis
    using recommended_batch_is_largest [OF e [of 7], of 25] e [of 25] e [of 1] r by simp
qed

section \<open>The estimator is its history\<close>

text \<open>The completed fetches, newest first: time, cache key and checked outcome.\<close>

type_synonym fee_log = "(int \<times> string option \<times> (thrown, int) result) list"

fun latest_fee :: "int \<Rightarrow> fee_log \<Rightarrow> int" where
  "latest_fee n [] = n"
| "latest_fee n ((_, _, Inr k) # hist) = k"
| "latest_fee n ((_, _, Inl _) # hist) = latest_fee n hist"

fun latest_success :: "fee_log \<Rightarrow> int option" where
  "latest_success [] = None"
| "latest_success ((t, _, Inr _) # hist) = Some t"
| "latest_success ((_, _, Inl _) # hist) = latest_success hist"

fun latest_for :: "string \<Rightarrow> fee_log \<Rightarrow> (int \<times> int) option" where
  "latest_for k [] = None"
| "latest_for k ((t, key, Inr n) # hist) = (if key = Some k then Some (n, t) else latest_for k hist)"
| "latest_for k ((_, _, Inl _) # hist) = latest_for k hist"

fun latest_error :: "fee_log \<Rightarrow> thrown option" where
  "latest_error ((_, _, Inl e) # hist) = Some e"
| "latest_error _ = None"

definition outcome_of :: "(thrown, int option) result \<Rightarrow> (thrown, int) result" where
  "outcome_of reply = (case checked_fee reply of Inr n \<Rightarrow> Inr n | Inl e \<Rightarrow> Inl (normalized_error e))"

definition fetching :: "nat \<Rightarrow> string option \<Rightarrow> fee_state \<Rightarrow> bool" where
  "fetching p key s = (p < length (fee_promises s) \<and> fee_promises s ! p = (key, Fetching))"

text \<open>Requests for any keys and completions of the fetches in flight, in any order, at any times.\<close>

inductive fee_run :: "FeeEstimator \<Rightarrow> int \<Rightarrow> fee_log \<Rightarrow> fee_state \<Rightarrow> bool" for E :: FeeEstimator and n :: int where
  fee_started: "fee_run E n [] (initial_fee_state n)"
| fee_request: "fee_run E n hist s \<Longrightarrow> fee_run E n hist (snd (estimateFee_start E now key None s))"
| fee_completed: "fee_run E n hist s \<Longrightarrow> fetching p key s \<Longrightarrow>
    fee_run E n ((now, key, outcome_of reply) # hist) (settle_fee now p reply s)"

definition single_flight :: "fee_state \<Rightarrow> bool" where
  "single_flight s = ((\<forall>p key. fetching p key s \<longrightarrow> currentPromises s (promise_key key) = Some p) \<and>
     (\<forall>k p. currentPromises s k = Some p \<longrightarrow> (\<exists>key. fetching p key s \<and> promise_key key = k)))"

lemma single_flight_registered: "single_flight s \<Longrightarrow> fetching p key s \<Longrightarrow> currentPromises s (promise_key key) = Some p"
  unfolding single_flight_def by blast

lemma single_flight_pending:
  "single_flight s \<Longrightarrow> currentPromises s k = Some p \<Longrightarrow> \<exists>key. fetching p key s \<and> promise_key key = k"
  unfolding single_flight_def by blast

definition mirrors :: "int \<Rightarrow> fee_log \<Rightarrow> fee_state \<Rightarrow> bool" where
  "mirrors n hist s = (baseFee s = latest_fee n hist \<and> lastSuccessfulFetchAt s = latest_success hist \<and>
     lastError s = latest_error hist \<and> (\<forall>k. k \<noteq> [] \<longrightarrow> fee_cache s k = latest_for k hist))"

lemma checked_fee_nonneg: "outcome_of reply = Inr k \<Longrightarrow> 0 \<le> k"
  by (auto simp: outcome_of_def checked_fee_def split: sum.splits option.splits if_splits)

lemma settle_fee_simps:
  "settle_fee now p reply s = (case outcome_of reply of Inr k \<Rightarrow> store_fee now (fst (fee_promises s ! p)) k s | Inl e \<Rightarrow> report_error e s)
     \<lparr> isEstimating := False, currentPromises := (currentPromises s)(promise_key (fst (fee_promises s ! p)) := None),
       fee_promises := (fee_promises s)[p := (fst (fee_promises s ! p),
         Settled (Inr (case outcome_of reply of Inr k \<Rightarrow> k | Inl _ \<Rightarrow> baseFee s)))] \<rparr>"
  by (simp add: settle_fee_def outcome_of_def Let_def store_fee_def report_error_def split: sum.split)

lemma start_fetch_async:
  "start_fetch now key None s = (Awaiting (length (fee_promises s)),
     s \<lparr> isEstimating := True, fee_promises := fee_promises s @ [(key, Fetching)],
         currentPromises := (currentPromises s)(promise_key key \<mapsto> length (fee_promises s)) \<rparr>)"
  by (simp add: start_fetch_def Let_def)

lemma request_step:
  "snd (estimateFee_start E now key None s) = s \<or>
   (\<exists>e. snd (estimateFee_start E now key None s) = s \<lparr> reported_errors := reported_errors s @ [e] \<rparr>) \<or>
   (currentPromises s (promise_key key) = None \<and> snd (estimateFee_start E now key None s) =
      s \<lparr> isEstimating := True, fee_promises := fee_promises s @ [(key, Fetching)],
          currentPromises := (currentPromises s)(promise_key key \<mapsto> length (fee_promises s)) \<rparr>)"
  by (cases "cached_fee now key s"; cases "currentPromises s (promise_key key)"; cases "lastError s")
     (simp_all add: estimateFee_start_def start_fetch_async, blast)

lemma request_cases:
  obtains "snd (estimateFee_start E now key None s) = s"
  | e where "snd (estimateFee_start E now key None s) = s \<lparr> reported_errors := reported_errors s @ [e] \<rparr>"
  | "currentPromises s (promise_key key) = None" "snd (estimateFee_start E now key None s) =
      s \<lparr> isEstimating := True, fee_promises := fee_promises s @ [(key, Fetching)],
          currentPromises := (currentPromises s)(promise_key key \<mapsto> length (fee_promises s)) \<rparr>"
  using request_step [of E now key s] by (elim disjE conjE exE)

lemma fetching_frame [simp]:
  "fetching p key (s \<lparr> reported_errors := es \<rparr>) = fetching p key s"
  by (simp add: fetching_def)

lemma single_flight_request:
  assumes "single_flight s" shows "single_flight (snd (estimateFee_start E now key None s))"
proof (cases rule: request_cases [of E now key s])
  case 3
  let ?s = "s \<lparr> isEstimating := True, fee_promises := fee_promises s @ [(key, Fetching)],
      currentPromises := (currentPromises s)(promise_key key \<mapsto> length (fee_promises s)) \<rparr>"
  have f: "fetching p k ?s \<longleftrightarrow> fetching p k s \<or> p = length (fee_promises s) \<and> k = key" for p k
    by (auto simp: fetching_def nth_append less_Suc_eq)
  have old: "fetching p k s \<Longrightarrow> promise_key k \<noteq> promise_key key" for p k
    using single_flight_registered [OF assms, of p k] 3(1) by auto
  have "single_flight ?s"
    unfolding single_flight_def f
  proof (intro conjI allI impI)
    fix p k assume "fetching p k s \<or> p = length (fee_promises s) \<and> k = key"
    then show "currentPromises ?s (promise_key k) = Some p" using single_flight_registered [OF assms] old by auto
  next
    fix k p assume "currentPromises ?s k = Some p"
    then show "\<exists>key'. (fetching p key' s \<or> p = length (fee_promises s) \<and> key' = key) \<and> promise_key key' = k"
      using single_flight_pending [OF assms, of k p] by (cases "k = promise_key key") auto
  qed
  then show ?thesis unfolding 3(2) .
qed (use assms in \<open>simp_all add: single_flight_def\<close>)

lemma single_flight_settle:
  assumes "single_flight s" "fetching p key s" shows "single_flight (settle_fee now p reply s)"
proof -
  have k: "fee_promises s ! p = (key, Fetching)" "p < length (fee_promises s)" using assms(2) by (simp_all add: fetching_def)
  have f: "fetching q k (settle_fee now p reply s) \<longleftrightarrow> fetching q k s \<and> q \<noteq> p" for q k
    unfolding settle_fee_simps using k by (auto simp: fetching_def nth_list_update)
  have c: "currentPromises (settle_fee now p reply s) = (currentPromises s)(promise_key key := None)"
    unfolding settle_fee_simps using k by simp
  show ?thesis
    unfolding single_flight_def f c
  proof (intro conjI allI impI)
    fix q k assume q: "fetching q k s \<and> q \<noteq> p"
    then have "promise_key k \<noteq> promise_key key"
      using single_flight_registered [OF assms] single_flight_registered [OF assms(1), of q k] by auto
    then show "((currentPromises s)(promise_key key := None)) (promise_key k) = Some q"
      using single_flight_registered [OF assms(1)] q by simp
  next
    fix k q assume "((currentPromises s)(promise_key key := None)) k = Some q"
    then show "\<exists>key. (fetching q key s \<and> q \<noteq> p) \<and> promise_key key = k"
      using single_flight_pending [OF assms(1), of k q] assms(2) by (auto simp: fetching_def split: if_splits)
  qed
qed

lemma mirrors_settle:
  assumes "mirrors n hist s" "fetching p key s"
  shows "mirrors n ((now, key, outcome_of reply) # hist) (settle_fee now p reply s)"
  using assms unfolding settle_fee_simps mirrors_def fetching_def
  by (auto simp: store_fee_def report_error_def split: sum.split option.split)

lemma fee_run_invariant: "fee_run E n hist s \<Longrightarrow> mirrors n hist s \<and> single_flight s"
proof (induction rule: fee_run.induct)
  case fee_started
  then show ?case by (simp add: mirrors_def single_flight_def initial_fee_state_def fetching_def)
next
  case (fee_request hist s now key)
  then show ?case
    using single_flight_request [of s E now key] by (cases rule: request_cases [of E now key s]) (simp_all add: mirrors_def)
next
  case (fee_completed hist s p key now reply)
  then show ?case using mirrors_settle single_flight_settle by blast
qed

text \<open>
  C38: The estimator is a function of the history of its completed fetches, whatever requests
  and completions of different keys interleave: the base fee is the last fee fetched for any
  key, the cache holds the last fee fetched for each key, the error is that of the last fetch
  if it failed; there is never more than one fetch in flight for a key, and a fetch that
  completes resolves its waiters with the base fee of the history that includes it.
\<close>
theorem fee_state_is_history:
  assumes "fee_run E n hist s"
  shows "baseFee s = latest_fee n hist \<and> lastError s = latest_error hist \<and>
    lastSuccessfulFetchAt s = latest_success hist \<and> (k \<noteq> [] \<longrightarrow> fee_cache s k = latest_for k hist) \<and>
    (fetching p key s \<longrightarrow> (\<forall>q key'. fetching q key' s \<and> promise_key key' = promise_key key \<longrightarrow> q = p) \<and>
      snd (fee_promises (settle_fee now p reply s) ! p) = Settled (Inr (latest_fee n ((now, key, outcome_of reply) # hist))))"
proof -
  have inv: "mirrors n hist s" "single_flight s" using fee_run_invariant [OF assms] by simp_all
  have "q = p" if "fetching p key s" "fetching q key' s" "promise_key key' = promise_key key" for q key'
    using single_flight_registered [OF inv(2) that(1)] single_flight_registered [OF inv(2) that(2)] that(3) by simp
  moreover have "snd (fee_promises (settle_fee now p reply s) ! p) = Settled (Inr (latest_fee n ((now, key, outcome_of reply) # hist)))"
    if "fetching p key s"
    using that inv(1) unfolding settle_fee_simps by (auto simp: fetching_def mirrors_def split: sum.split)
  ultimately show ?thesis using inv(1) by (auto simp: mirrors_def)
qed

definition sample_estimator :: FeeEstimator where
  "sample_estimator = \<lparr> fe_minRefetchIntervalMs = 0, fe_horizonUrl = ''h'', fe_priorityMultipliers = DEFAULT_PRIORITY_MULTIPLIERS,
     fe_feeMultiplier = 6 / 5 \<rparr>"

lemma fee_state_is_history_witness:
  "baseFee (settle_fee 50 0 (Inr (Some 120)) (snd (estimateFee_start sample_estimator 10 (Some ''a'') None (initial_fee_state 100)))) = 120"
proof -
  let ?s = "snd (estimateFee_start sample_estimator 10 (Some ''a'') None (initial_fee_state 100))"
  have "fetching 0 (Some ''a'') ?s"
    by (simp add: fetching_def estimateFee_start_def cached_fee_def initial_fee_state_def sample_estimator_def start_fetch_def)
  then have "fee_run sample_estimator 100 [(50, Some ''a'', outcome_of (Inr (Some 120)))] (settle_fee 50 0 (Inr (Some 120)) ?s)"
    by (rule fee_completed [OF fee_request [OF fee_started]])
  from fee_state_is_history [OF this, of "[]" 0 None 0 "Inr None"] show ?thesis by (simp add: outcome_of_def checked_fee_def)
qed

text \<open>
  What a request is answered with: a fee fetched for its own key less than three
  seconds before, or within the minimum interval the last fee fetched for any key (its error,
  when the last fetch failed), or a promise in flight for its key, which is a new fetch only
  when there was none.
\<close>
theorem estimateFee_answers:
  assumes "fee_run E n hist s" "estimateFee_start E now key None s = (a, s')"
  shows "case a of
      Answered f \<Rightarrow> (\<exists>k t. key = Some k \<and> latest_for k hist = Some (f, t) \<and> now - t < 3000) \<or>
        (now - given_or 0 (latest_success hist) < fe_minRefetchIntervalMs E \<and> latest_error hist = None \<and> f = latest_fee n hist)
    | Refused e \<Rightarrow> now - given_or 0 (latest_success hist) < fe_minRefetchIntervalMs E \<and> latest_error hist = Some e
    | Awaiting p \<Rightarrow> (\<exists>key'. fetching p key' s' \<and> promise_key key' = promise_key key) \<and>
        (if \<exists>q key'. fetching q key' s \<and> promise_key key' = promise_key key then s' = s
         else fee_promises s' = fee_promises s @ [(key, Fetching)])"
proof (cases "cached_fee now key s")
  case (Some f)
  then show ?thesis
    using assms(2) fee_run_invariant [OF assms(1)]
    by (auto simp: estimateFee_start_def cached_fee_def mirrors_def cacheTtlMs_def split: option.splits if_splits)
next
  case None
  have inv: "mirrors n hist s" "single_flight s" using fee_run_invariant [OF assms(1)] by simp_all
  show ?thesis
  proof (cases "currentPromises s (promise_key key)")
    case (Some p)
    then obtain key' where "fetching p key' s" "promise_key key' = promise_key key"
      using single_flight_pending [OF inv(2)] by blast
    moreover have "a = Awaiting p" "s' = s" using assms(2) None Some by (simp_all add: estimateFee_start_def)
    ultimately show ?thesis by auto
  next
    case fresh: None
    then have "\<not> (\<exists>q key'. fetching q key' s \<and> promise_key key' = promise_key key)"
      using single_flight_registered [OF inv(2)] by fastforce
    then show ?thesis
      using assms(2) None fresh inv(1)
      by (cases "lastError s")
         (auto simp: estimateFee_start_def start_fetch_async mirrors_def fetching_def split: if_splits option.splits)
  qed
qed

lemma estimateFee_answers_witness:
  "estimateFee_start sample_estimator 10 (Some ''a'') None (initial_fee_state 100) =
     (Awaiting 0, snd (estimateFee_start sample_estimator 10 (Some ''a'') None (initial_fee_state 100))) \<and>
   (\<exists>key'. fetching 0 key' (snd (estimateFee_start sample_estimator 10 (Some ''a'') None (initial_fee_state 100))) \<and>
      promise_key key' = ''a'')"
proof -
  let ?r = "estimateFee_start sample_estimator 10 (Some ''a'') None (initial_fee_state 100)"
  have r: "?r = (Awaiting 0, snd ?r)"
    by (simp add: estimateFee_start_def cached_fee_def initial_fee_state_def sample_estimator_def start_fetch_def)
  then show ?thesis using estimateFee_answers [OF fee_started r] by (auto simp: promise_key_def given_or_def)
qed

section \<open>Dynamic fees\<close>

text \<open>The fee a reply of Horizon quotes, if it is usable.\<close>

definition quoted :: "(thrown, horizon_fees) result \<Rightarrow> int option" where
  "quoted reply = (case reply of
     Inr (Fees_stats f) \<Rightarrow> digits_fee (or_else (charged_mode f) (last_ledger_base_fee f))
   | _ \<Rightarrow> None)"

lemma digits_fee_nonneg: "digits_fee raw = Some c \<Longrightarrow> 0 \<le> c"
  by (auto simp: digits_fee_def split: option.splits if_splits)

lemma dynamic_outcome:
  assumes "1 \<le> m"
  shows "outcome_of (dynamic_fee_of m reply) = Inr k \<longleftrightarrow> (\<exists>c. quoted reply = Some c \<and> k = scale_fee m c)"
proof -
  have "0 \<le> scale_fee m c" if "quoted reply = Some c" for c
    using that scale_fee_ceiling(2) [OF _ assms, of c] digits_fee_nonneg
    by (fastforce simp: quoted_def split: sum.splits horizon_fees.splits)
  then show ?thesis
    by (auto simp: outcome_of_def dynamic_fee_of_def quoted_def checked_fee_def split: sum.splits horizon_fees.splits option.splits)
qed

text \<open>
  A dynamic fee that is neither cached nor in flight: a usable quote is scaled
  by the priority and by the buffer, each rounded up to a whole stroop, so that the answer is
  never below the quote; an unusable reply is answered with the buffered last fee.
\<close>
theorem getDynamicFee_covers_quote:
  assumes "fee_run E n hist s" "priority_multiplier E pr = Inr m" "1 \<le> fe_feeMultiplier E" "fe_minRefetchIntervalMs E \<le> 0"
    and "key = Some (given_or (''dynamic:'' @ priority_text pr) ck)"
    and "cached_fee now key s = None" "currentPromises s (promise_key key) = None"
  shows "\<exists>f. fst (getDynamicFee E now later reply pr ck s) = Inr f \<and>
    (case quoted reply of
       Some c \<Rightarrow> f = applyBuffer E \<lceil>of_int (c * js_round (m * 100)) / 100 :: rat\<rceil> \<and> c \<le> f
     | None \<Rightarrow> f = applyBuffer E (latest_fee n hist))"
proof -
  have m: "1 \<le> m" using assms(2) by (auto simp: priority_multiplier_def split: jsnum.splits if_splits)
  let ?s = "snd (start_fetch now key None s)" and ?p = "length (fee_promises s)"
  have start: "estimateFee_start E now key None s = (Awaiting ?p, ?s)"
    using assms(4,6,7) by (simp add: estimateFee_start_def start_fetch_async)
  have "fetching ?p key ?s" by (simp add: start_fetch_async fetching_def)
  moreover have "fee_run E n hist ?s" using fee_request [OF assms(1), of now key] start by simp
  ultimately have "baseFee (settle_fee later ?p (dynamic_fee_of m reply) ?s) = latest_fee n ((later, key, outcome_of (dynamic_fee_of m reply)) # hist)"
    using fee_run_invariant [OF fee_completed] by (simp add: mirrors_def)
  moreover have "fee_promises ?s ! ?p = (key, Fetching)" by (simp add: start_fetch_async)
  ultimately have r: "fst (getDynamicFee E now later reply pr ck s) =
      Inr (applyBuffer E (latest_fee n ((later, key, outcome_of (dynamic_fee_of m reply)) # hist)))"
    unfolding getDynamicFee_def estimateFee_def assms(5) [symmetric] using start assms(2) by (simp add: Let_def)
  show ?thesis
  proof (cases "quoted reply")
    case None
    then obtain e where "outcome_of (dynamic_fee_of m reply) = Inl e"
      using dynamic_outcome [OF m, of reply] by (cases "outcome_of (dynamic_fee_of m reply)") auto
    then show ?thesis using r None by simp
  next
    case (Some c)
    then have "outcome_of (dynamic_fee_of m reply) = Inr (scale_fee m c)" using dynamic_outcome [OF m, of reply] by simp
    moreover have c: "0 \<le> c" using Some digits_fee_nonneg by (auto simp: quoted_def split: sum.splits horizon_fees.splits)
    moreover have "c \<le> applyBuffer E (scale_fee m c)"
      using scale_fee_ceiling(2) [OF c m] applyBuffer_covers(1) [of "scale_fee m c" E] assms(3) c by simp
    ultimately show ?thesis using r Some scale_fee_ceiling(1) [OF c m] by simp
  qed
qed

lemma getDynamicFee_covers_quote_witness:
  "\<exists>f. fst (getDynamicFee sample_estimator 10 20 (Inr (Fees_stats \<lparr> last_ledger_base_fee = None, charged_mode = Some ''7'',
     charged_p75 = None, charged_p95 = None \<rparr>)) (Tier Standard) None (initial_fee_state 100)) = Inr f \<and> 7 \<le> f"
proof -
  let ?r = "Inr (Fees_stats \<lparr> last_ledger_base_fee = None, charged_mode = Some ''7'', charged_p75 = None, charged_p95 = None \<rparr>)"
  have "quoted ?r = Some 7"
    by (simp add: quoted_def or_else_def digits_fee_def is_digit_def digits_val_def digit_val_def)
  moreover have "priority_multiplier sample_estimator (Tier Standard) = Inr (3 / 2)"
    by (simp add: priority_multiplier_def sample_estimator_def DEFAULT_PRIORITY_MULTIPLIERS_def)
  ultimately show ?thesis
    using getDynamicFee_covers_quote [OF fee_started [of sample_estimator 100], of "Tier Standard" "3 / 2" _ None 10 20 ?r]
    by (auto simp: sample_estimator_def cached_fee_def initial_fee_state_def)
qed

section \<open>Ledger statistics\<close>

text \<open>The same for getLedgerFeeStats, whose cache has one entry and whose fetch may reject.\<close>

type_synonym stats_log = "(int \<times> (thrown, LedgerFeeStats) result) list"

fun latest_stats :: "stats_log \<Rightarrow> (LedgerFeeStats \<times> int) option" where
  "latest_stats [] = None"
| "latest_stats ((t, Inr v) # hist) = Some (v, t)"
| "latest_stats ((t, Inl _) # hist) = latest_stats hist"

definition fetching_stats :: "nat \<Rightarrow> fee_state \<Rightarrow> bool" where
  "fetching_stats p s = (p < length (stats_promises s) \<and> stats_promises s ! p = Fetching)"

inductive stats_run :: "FeeEstimator \<Rightarrow> stats_log \<Rightarrow> fee_state \<Rightarrow> bool" for E :: FeeEstimator where
  stats_started: "stats_run E [] (initial_fee_state n)"
| stats_request: "stats_run E hist s \<Longrightarrow> stats_run E hist (snd (getLedgerFeeStats_start E now None s))"
| stats_completed: "stats_run E hist s \<Longrightarrow> fetching_stats p s \<Longrightarrow>
    stats_run E ((now, ledger_stats_of E reply) # hist) (settle_stats E now p reply s)"

lemma settle_stats_simps:
  "ledgerFeeStatsPromise (settle_stats E now p reply s) = None"
  "stats_promises (settle_stats E now p reply s) = (stats_promises s)[p := Settled (case ledger_stats_of E reply of
     Inr v \<Rightarrow> Inr v
   | Inl e \<Rightarrow> (case ledgerFeeStatsCache s of Some (v, _) \<Rightarrow> Inr v | None \<Rightarrow> Inl (normalized_error e)))]"
  "ledgerFeeStatsCache (settle_stats E now p reply s) =
     (case ledger_stats_of E reply of Inr v \<Rightarrow> Some (v, now) | Inl e \<Rightarrow> ledgerFeeStatsCache s)"
  by (simp_all add: settle_stats_def split: sum.split)

lemma stats_request_step:
  "snd (getLedgerFeeStats_start E now None s) = s \<or>
   (ledgerFeeStatsPromise s = None \<and> snd (getLedgerFeeStats_start E now None s) =
      s \<lparr> stats_promises := stats_promises s @ [Fetching], ledgerFeeStatsPromise := Some (length (stats_promises s)) \<rparr>)"
  by (cases "ledgerFeeStatsPromise s"; cases "ledgerFeeStatsCache s")
     (simp_all add: getLedgerFeeStats_start_def Let_def split: prod.split)

lemma stats_run_invariant:
  "stats_run E hist s \<Longrightarrow> ledgerFeeStatsCache s = latest_stats hist \<and> (\<forall>p. fetching_stats p s = (ledgerFeeStatsPromise s = Some p))"
proof (induction rule: stats_run.induct)
  case (stats_started n)
  then show ?case by (simp add: initial_fee_state_def fetching_stats_def)
next
  case (stats_request hist s now)
  from stats_request_step [of E now s] show ?case
  proof (elim disjE conjE)
    assume none: "ledgerFeeStatsPromise s = None" and t: "snd (getLedgerFeeStats_start E now None s) =
      s \<lparr> stats_promises := stats_promises s @ [Fetching], ledgerFeeStatsPromise := Some (length (stats_promises s)) \<rparr>"
    have "\<not> fetching_stats p s" for p using stats_request none by simp
    then have "p < length (stats_promises s) \<Longrightarrow> stats_promises s ! p \<noteq> Fetching" for p by (simp add: fetching_stats_def)
    then show ?thesis using stats_request unfolding t by (auto simp: fetching_stats_def nth_append less_Suc_eq)
  qed (use stats_request in simp)
next
  case (stats_completed hist s p now reply)
  have "fetching_stats q (settle_stats E now p reply s) \<longleftrightarrow> fetching_stats q s \<and> q \<noteq> p" for q
    by (cases "q = p") (auto simp: settle_stats_simps fetching_stats_def)
  moreover have "fetching_stats q s \<Longrightarrow> q = p" for q using stats_completed by simp
  ultimately have "\<not> fetching_stats q (settle_stats E now p reply s)" for q by blast
  then show ?case using stats_completed by (simp add: settle_stats_simps split: sum.split)
qed

text \<open>
  In any interleaving of requests and completions, ledger statistics are fetched
  once at a time, the cache is the last statistics fetched, and from the first success on no
  request is ever rejected: a completion resolves with its own statistics, or with the last
  ones fetched when its reply is unusable, whose error then only reaches onError.
\<close>
theorem ledger_stats_never_lost:
  assumes "stats_run E hist s" "fetching_stats p s"
  shows "(\<forall>q. fetching_stats q s \<longrightarrow> q = p) \<and>
    stats_promises (settle_stats E now p reply s) ! p = Settled (case ledger_stats_of E reply of
      Inr v \<Rightarrow> Inr v
    | Inl e \<Rightarrow> (case latest_stats hist of Some (v, _) \<Rightarrow> Inr v | None \<Rightarrow> Inl (normalized_error e))) \<and>
    (latest_stats hist \<noteq> None \<longrightarrow> (\<exists>v. stats_promises (settle_stats E now p reply s) ! p = Settled (Inr v)))"
proof -
  have c: "ledgerFeeStatsCache s = latest_stats hist" and u: "\<And>q. fetching_stats q s = (ledgerFeeStatsPromise s = Some q)"
    using stats_run_invariant [OF assms(1)] by simp_all
  have "p < length (stats_promises s)" using assms(2) by (simp add: fetching_stats_def)
  then show ?thesis
    using assms(2) unfolding u by (auto simp: settle_stats_simps c split: sum.split option.split)
qed

lemma ledger_stats_never_lost_witness:
  "stats_promises (settle_stats sample_estimator 9 0 (Inl (ThrownString ''down'')) (snd (getLedgerFeeStats_start sample_estimator 4 None (initial_fee_state 1)))) ! 0
     = Settled (Inl (plain_error ''down''))"
proof -
  let ?s = "snd (getLedgerFeeStats_start sample_estimator 4 None (initial_fee_state 1))"
  have "fetching_stats 0 ?s" by (simp add: fetching_stats_def getLedgerFeeStats_start_def initial_fee_state_def)
  from ledger_stats_never_lost [OF stats_request [OF stats_started] this] show ?thesis
    by (simp add: ledger_stats_of_def normalized_error_def)
qed

section \<open>What concurrent use shows\<close>

text \<open>The first of two fetches to finish clears isEstimating though the other is still in flight.\<close>

lemma estimating_flag_cleared_early:
  "let s1 = snd (estimateFee_start sample_estimator 1 (Some ''a'') None (initial_fee_state 100));
       s2 = snd (estimateFee_start sample_estimator 2 (Some ''b'') None s1);
       s3 = settle_fee 3 0 (Inr (Some 5)) s2
   in \<not> isEstimating s3 \<and> fetching 1 (Some ''b'') s3"
  by (simp add: Let_def estimateFee_start_def cached_fee_def start_fetch_async initial_fee_state_def sample_estimator_def
      settle_fee_def checked_fee_def store_fee_def fetching_def promise_key_def given_or_def)

text \<open>The fallback of a failed fetch is the last fee of any key, here of a higher priority.\<close>

lemma fallback_of_another_key:
  "let s1 = snd (estimateFee sample_estimator 1 2 (Inr (Some 300)) (Some ''dynamic:urgent'') (initial_fee_state 100))
   in fst (estimateFee sample_estimator 3 4 (Inl (ThrownString ''down'')) (Some ''dynamic:low'') s1) = Inr 300"
  by (simp add: Let_def estimateFee_def estimateFee_start_def cached_fee_def start_fetch_async initial_fee_state_def
      sample_estimator_def settle_fee_def checked_fee_def store_fee_def report_error_def promise_key_def given_or_def)

text \<open>
  A fetcher that throws before it returns a promise leaves its settled promise registered: every
  later request of its key that the cache does not serve is answered with the old fallback.
\<close>

lemma thrown_at_once_sticks:
  assumes "currentPromises s (promise_key key) = None" "cached_fee now key s = None" "fe_minRefetchIntervalMs E \<le> 0"
    and "s' = snd (estimateFee_start E now key (Some e) s)"
  shows "\<exists>p. currentPromises s' (promise_key key) = Some p \<and> snd (fee_promises s' ! p) = Settled (Inr (baseFee s)) \<and>
    (cached_fee later key s' = None \<longrightarrow> estimateFee E later end_time reply key s' = (Inr (baseFee s), s'))"
  using assms
  by (auto simp: estimateFee_start_def start_fetch_def settle_fee_def checked_fee_def report_error_def estimateFee_def Let_def)

text \<open>The same in getLedgerFeeStats: without a fetch function every later call repeats the first error.\<close>

lemma stats_thrown_at_once_sticks:
  assumes "s' = snd (getLedgerFeeStats_start E now (Some e) (initial_fee_state n))"
  shows "fst (getLedgerFeeStats_start E later None s') = Awaiting 0 \<and> stats_promises s' ! 0 = Settled (Inl (normalized_error e))"
  using assms by (simp add: getLedgerFeeStats_start_def initial_fee_state_def settle_stats_def ledger_stats_of_def Let_def)

text \<open>A bigint argument and the string of its digits with an n share one cache key.\<close>

lemma cache_keys_collide:
  "cache_key \<lparr> eo_cacheKey = None, eo_method = Some m, eo_args = Some [JBigint k] \<rparr> =
   cache_key \<lparr> eo_cacheKey = None, eo_method = Some m, eo_args = Some [JString (show_int k @ ''n'')] \<rparr>"
  by (simp add: cache_key_def given_or_def)

end
