(* ===== verification/Governor.thy ===== *)
theory Governor
  imports Factory
begin

text \<open>
  GovernorModule of src/governor.ts: the cached configuration read, the proposals, their
  states, and executeMultipleProposals.  Handlers run one at a time, so the fetch in flight
  that concurrent getConfig calls share is the fetch itself (see Coalesce).
\<close>

section \<open>Configuration and construction\<close>

record GovernorSettings = ConduitConfig +
  governorAddress :: "string option"
  governorConfigCacheTtlMs :: "int option"

definition GOVERNOR_CONFIG_CACHE_TTL_MS :: int where "GOVERNOR_CONFIG_CACHE_TTL_MS = 30000"

record GovernorModule =
  g_rpcUrl :: string
  g_governorId :: "string option"
  g_callerAddr :: string
  g_network :: string
  g_cfg :: GovernorSettings
  g_configCacheTtlMs :: int

record GovernorConfig =
  gc_feeBps :: int
  minDurationSeconds :: int
  maxDurationSeconds :: int
  maxRatePerSecond :: int
  gc_feeRecipient :: "string option"
  gc_factoryAddress :: "string option"
  votingDelay :: "int option"
  votingPeriod :: "int option"
  proposalThreshold :: "int option"

record governor_world = rpc_world +
  configCache :: "(GovernorConfig \<times> int) option"

definition new_GovernorModule :: "GovernorSettings \<Rightarrow> (thrown, GovernorModule) result" where
  "new_GovernorModule c =
    (if network c \<notin> set SUPPORTED_NETWORKS then Inl (unsupported_chain (network c))
     else Inr \<lparr> g_rpcUrl = given_or (DEFAULT_RPC (network c)) (cfg_rpcUrl c), g_governorId = governorAddress c,
            g_callerAddr = given_or ZERO_ADDR (cfg_keypair c), g_network = network c, g_cfg = c,
            g_configCacheTtlMs = given_or GOVERNOR_CONFIG_CACHE_TTL_MS (governorConfigCacheTtlMs c) \<rparr>)"

definition governor_required :: "GovernorModule \<Rightarrow> thrown" where
  "governor_required G = plain_error (''ConduitConfig.governorAddress is required (no default DripGovernor is known for network \"''
     @ g_network G @ ''\").'')"

definition governor_id :: "GovernorModule \<Rightarrow> (thrown, string) result" where
  "governor_id G = (case g_governorId G of
     None \<Rightarrow> Inl (governor_required G) | Some a \<Rightarrow> if a = [] then Inl (governor_required G) else Inr a)"

section \<open>Parsing the contract's structs\<close>

text \<open>An optional entry, read by a reader that may throw.\<close>

definition entry_of :: "('a \<Rightarrow> (thrown, 'b) result) \<Rightarrow> 'a option \<Rightarrow> (thrown, 'b option) result" where
  "entry_of reader v = (case v of None \<Rightarrow> Inr None | Some x \<Rightarrow> result_bind (reader x) (\<lambda>y. Inr (Some y)))"

definition struct_of :: "sc_val \<Rightarrow> (thrown, string \<Rightarrow> sc_val option) result" where
  "struct_of v =
    (case v of
       ScvMap (Some entries) \<Rightarrow> Inr (entry_map entries)
     | ScvMap None \<Rightarrow> Inr (\<lambda>_. None)
     | _ \<Rightarrow> Inl (arm_not_set ''map''))"

definition parseGovernorConfig :: "(sc_val \<Rightarrow> (thrown, string) result) \<Rightarrow> sc_val \<Rightarrow> (thrown, GovernorConfig) result" where
  "parseGovernorConfig fromScVal v =
    result_bind (struct_of v) (\<lambda>m.
    result_bind (field_or 0 scValToU32 (m ''fee_bps'')) (\<lambda>bps.
    result_bind (field_or 0 scValToU64 (m ''min_duration_seconds'')) (\<lambda>lo.
    result_bind (field_or 0 scValToU64 (m ''max_duration_seconds'')) (\<lambda>hi.
    result_bind (field_or 0 scValToI128 (m ''max_rate_per_second'')) (\<lambda>rt.
    result_bind (entry_of fromScVal (m ''fee_recipient'')) (\<lambda>fr.
    result_bind (entry_of fromScVal (m ''factory_address'')) (\<lambda>fa.
    result_bind (entry_of scValToU64 (m ''voting_delay'')) (\<lambda>vd.
    result_bind (entry_of scValToU64 (m ''voting_period'')) (\<lambda>vp.
    result_bind (entry_of scValToI128 (m ''proposal_threshold'')) (\<lambda>pt.
    Inr \<lparr> gc_feeBps = bps, minDurationSeconds = lo, maxDurationSeconds = hi, maxRatePerSecond = rt, gc_feeRecipient = fr,
      gc_factoryAddress = fa, votingDelay = vd, votingPeriod = vp, proposalThreshold = pt \<rparr>))))))))))"

datatype proposal_status = PPending | PActive | PPassed | PFailed

record GovernorProposal =
  gp_id :: string
  gp_description :: string
  targetConfig :: "GovernorConfig option"
  gp_status :: proposal_status
  gp_proposer :: string
  gp_startTime :: int
  gp_endTime :: int
  votesFor :: int
  votesAgainst :: int

definition status_of :: "sc_val option \<Rightarrow> proposal_status" where
  "status_of v =
    (case v of
       Some (ScvU32 n) \<Rightarrow> if n = 1 then PActive else if n = 2 then PPassed else if n = 3 then PFailed else PPending
     | _ \<Rightarrow> PPending)"

definition description_of :: "sc_val option \<Rightarrow> string" where
  "description_of v = (case v of Some (ScvString s) \<Rightarrow> s | _ \<Rightarrow> [])"

definition parse_proposal :: "(sc_val \<Rightarrow> (thrown, string) result) \<Rightarrow> sc_val \<Rightarrow> (thrown, GovernorProposal) result" where
  "parse_proposal fromScVal v =
    result_bind (struct_of v) (\<lambda>m.
    result_bind (field_or 0 scValToU64 (m ''id'')) (\<lambda>n.
    result_bind (entry_of (parseGovernorConfig fromScVal) (m ''target_config'')) (\<lambda>tc.
    result_bind (field_or [] fromScVal (m ''proposer'')) (\<lambda>pr.
    result_bind (field_or 0 scValToU64 (m ''start_time'')) (\<lambda>st.
    result_bind (field_or 0 scValToU64 (m ''end_time'')) (\<lambda>en.
    result_bind (field_or 0 scValToI128 (m ''votes_for'')) (\<lambda>vf.
    result_bind (field_or 0 scValToI128 (m ''votes_against'')) (\<lambda>va.
    Inr \<lparr> gp_id = show_int n, gp_description = description_of (m ''description''), targetConfig = tc,
      gp_status = status_of (m ''status''), gp_proposer = pr, gp_startTime = st, gp_endTime = en,
      votesFor = vf, votesAgainst = va \<rparr>))))))))"

fun all_results :: "('a \<Rightarrow> (thrown, 'b) result) \<Rightarrow> 'a list \<Rightarrow> (thrown, 'b list) result" where
  "all_results f [] = Inr []"
| "all_results f (x # xs) = result_bind (f x) (\<lambda>y. result_bind (all_results f xs) (\<lambda>ys. Inr (y # ys)))"

definition parseGovernorProposals ::
    "(sc_val \<Rightarrow> (thrown, string) result) \<Rightarrow> sc_val \<Rightarrow> (thrown, GovernorProposal list) result" where
  "parseGovernorProposals fromScVal v =
    (case v of
       ScvVec (Some vs) \<Rightarrow> all_results (parse_proposal fromScVal) vs
     | ScvVec None \<Rightarrow> Inr []
     | _ \<Rightarrow> Inl (arm_not_set ''vec''))"

section \<open>Reads\<close>

definition governor_read :: "outside \<Rightarrow> GovernorModule \<Rightarrow> string \<Rightarrow> string \<Rightarrow> ('z rpc_world_scheme, sc_val) io" where
  "governor_read env G contractId method =
    io_bind (buildContractCallTx env (g_rpcUrl G) (g_callerAddr G) contractId method [] Soroban.BASE_FEE None None) (\<lambda>tx.
    simulateReadOnly env (g_rpcUrl G) tx)"

definition getConfig :: "outside \<Rightarrow> GovernorModule \<Rightarrow> bool \<Rightarrow> ('z governor_world_scheme, GovernorConfig) io" where
  "getConfig env G signal =
    io_bind (throwIfAborted env signal) (\<lambda>_.
    io_bind (io_lift (governor_id G)) (\<lambda>gid.
    io_bind (io_gets configCache) (\<lambda>cached.
    io_bind (io_now env) (\<lambda>now.
    case (case cached of Some (v, expiresAt) \<Rightarrow> if now < expiresAt then Some v else None | None \<Rightarrow> None) of
      Some v \<Rightarrow> io_return v
    | None \<Rightarrow>
        io_bind (governor_read env G gid ''config'') (\<lambda>v.
        io_bind (io_lift (parseGovernorConfig (address_fromScVal env) v)) (\<lambda>parsed.
        io_bind (io_now env) (\<lambda>done_at.
        io_bind (io_modify (\<lambda>w. w \<lparr> configCache := Some (parsed, done_at + g_configCacheTtlMs G) \<rparr>)) (\<lambda>_.
        io_return parsed))))))))"

definition clearConfigCache :: "'z governor_world_scheme \<Rightarrow> 'z governor_world_scheme" where
  "clearConfigCache w = w \<lparr> configCache := None \<rparr>"

definition getProposals :: "outside \<Rightarrow> GovernorModule \<Rightarrow> ('z governor_world_scheme, GovernorProposal list) io" where
  "getProposals env G =
    io_bind (io_lift (governor_id G)) (\<lambda>gid.
    io_bind (governor_read env G gid ''getProposals'') (\<lambda>v.
    io_lift (parseGovernorProposals (address_fromScVal env) v)))"

section \<open>Executing proposals\<close>

definition governor_identity_required :: thrown where
  "governor_identity_required = plain_error ''keypair, wallet adapter, or signer is required for mutating operations''"

text \<open>
  What invokeContract sees of each kind of signer: a wallet adapter that returns nothing is an
  error, a signer's answer is taken as it is, and a keypair signs in place.
\<close>

definition wallet_signer :: "outside \<Rightarrow> outside" where
  "wallet_signer env = env \<lparr> sign_answer := (\<lambda>n t. result_bind (sign_answer env n t) (\<lambda>reply.
     case reply of
       Signed_xdr u \<Rightarrow> Inr (Signed_tx u)
     | Signed_tx u \<Rightarrow> Inr (Signed_tx u)
     | _ \<Rightarrow> Inl (plain_error ''Wallet adapter signTransaction returned null or undefined''))) \<rparr>"

definition keypair_signer :: "outside \<Rightarrow> outside" where
  "keypair_signer env = env \<lparr> sign_answer := (\<lambda>n t. Inr (Signed_in_place (keypair_sign env t))) \<rparr>"

definition resolveSigner :: "outside \<Rightarrow> GovernorSettings \<Rightarrow> (thrown, outside) result" where
  "resolveSigner env c =
    (if cfg_wallet c then Inr (wallet_signer env)
     else if cfg_signer c \<noteq> None then Inr env
     else if cfg_keypair c \<noteq> None then Inr (keypair_signer env)
     else Inl governor_identity_required)"

definition resolveCaller :: "outside \<Rightarrow> GovernorSettings \<Rightarrow> ('z rpc_world_scheme, string) io" where
  "resolveCaller env c =
    (if cfg_wallet c then wallet_key env
     else case cfg_signer c of Some a \<Rightarrow> io_return a
     | None \<Rightarrow> (case cfg_keypair c of Some k \<Rightarrow> io_return k | None \<Rightarrow> io_throw governor_identity_required))"

definition MAX_SAFE_INTEGER :: int where "MAX_SAFE_INTEGER = 9007199254740991"

definition safe_integer :: "jsnum \<Rightarrow> bool" where
  "safe_integer n = (is_integer_num n \<and> \<bar>int_of_num n\<bar> \<le> MAX_SAFE_INTEGER)"

fun check_ids :: "int list \<Rightarrow> jsnum list \<Rightarrow> (thrown, int list) result" where
  "check_ids seen [] = Inr (rev seen)"
| "check_ids seen (n # ns) =
    (if \<not> safe_integer n \<or> int_of_num n < 0
     then Inl (plain_error (''Invalid proposal id '' @ show_jsnum n @ '': must be a non-negative integer''))
     else if int_of_num n \<in> set seen then Inl (plain_error (''Duplicate proposal id '' @ show_jsnum n))
     else check_ids (int_of_num n # seen) ns)"

datatype execution = Executed string | Failed_with thrown | Skipped

definition execute_one ::
    "outside \<Rightarrow> outside \<Rightarrow> GovernorModule \<Rightarrow> string \<Rightarrow> string \<Rightarrow> string \<Rightarrow> polling \<Rightarrow> bool \<Rightarrow> int \<Rightarrow> ('z rpc_world_scheme, string) io" where
  "execute_one env signer G gid caller fee polling signal pid =
    io_bind (throwIfAborted env signal) (\<lambda>_.
    io_bind (io_lift (native_u64 env pid)) (\<lambda>arg.
    io_bind (buildContractCallTx env (g_rpcUrl G) caller gid ''execute'' [arg] fee None None) (\<lambda>tx.
    invokeContract signer (g_rpcUrl G) tx polling)))"

text \<open>A thrown value that is no Error and has no message becomes an Error of its text.\<close>

definition error_of :: "thrown \<Rightarrow> thrown" where
  "error_of e = (case e of ThrownString m \<Rightarrow> plain_error m | _ \<Rightarrow> e)"

fun execute_loop ::
    "outside \<Rightarrow> outside \<Rightarrow> GovernorModule \<Rightarrow> string \<Rightarrow> string \<Rightarrow> string \<Rightarrow> polling \<Rightarrow> bool \<Rightarrow> bool \<Rightarrow> int list \<Rightarrow> bool
      \<Rightarrow> (int \<times> execution) list \<Rightarrow> ('z rpc_world_scheme, (int \<times> execution) list) io" where
  "execute_loop env signer G gid caller fee polling signal stopOnError [] halted results = io_return results"
| "execute_loop env signer G gid caller fee polling signal stopOnError (pid # ids) halted results =
    (if halted
     then execute_loop env signer G gid caller fee polling signal stopOnError ids True (results @ [(pid, Skipped)])
     else io_bind (io_try (execute_one env signer G gid caller fee polling signal pid)) (\<lambda>r.
       case r of
         Inr h \<Rightarrow> execute_loop env signer G gid caller fee polling signal stopOnError ids False (results @ [(pid, Executed h)])
       | Inl e \<Rightarrow> execute_loop env signer G gid caller fee polling signal stopOnError ids stopOnError
           (results @ [(pid, Failed_with (error_of e))])))"

definition executeMultipleProposals ::
    "outside \<Rightarrow> GovernorModule \<Rightarrow> jsnum list \<Rightarrow> bool \<Rightarrow> bool \<Rightarrow> ('z rpc_world_scheme, (int \<times> execution) list) io" where
  "executeMultipleProposals env G proposalIds stopOnError signal =
    io_bind (io_lift (governor_id G)) (\<lambda>gid.
    io_bind (io_guard (proposalIds \<noteq> []) (plain_error ''proposalIds must be a non-empty array'')) (\<lambda>_.
    io_bind (io_lift (check_ids [] proposalIds)) (\<lambda>ids.
    io_bind (io_lift (resolveSigner env (g_cfg G))) (\<lambda>signer.
    io_bind (resolveCaller env (g_cfg G)) (\<lambda>caller.
    io_bind (io_lift (resolveFee (cfg_fee (g_cfg G)) (cfg_feeMultiplier (g_cfg G)))) (\<lambda>fee.
    execute_loop env signer G gid caller fee
      (normalizePollingOptions (confirmationPollIntervalMs (g_cfg G)) (confirmationMaxAttempts (g_cfg G)) None)
      signal stopOnError ids False []))))))"

section \<open>Proposal states\<close>

datatype ProposalState = Pending | Active | Defeated | Succeeded

definition PROPOSAL_STATE_LABELS :: "ProposalState \<Rightarrow> string" where
  "PROPOSAL_STATE_LABELS s =
    (case s of Pending \<Rightarrow> ''Pending'' | Active \<Rightarrow> ''Active'' | Defeated \<Rightarrow> ''Defeated'' | Succeeded \<Rightarrow> ''Succeeded'')"

definition state_of_number :: "jsnum \<Rightarrow> ProposalState option" where
  "state_of_number n =
    (if is_integer_num n then
       (if int_of_num n = 0 then Some Pending else if int_of_num n = 1 then Some Active
        else if int_of_num n = 2 then Some Defeated else if int_of_num n = 3 then Some Succeeded else None)
     else None)"

definition parseProposalState :: "jsval \<Rightarrow> ProposalState option" where
  "parseProposalState v =
    (case v of
       JNumber n \<Rightarrow> state_of_number n
     | JBigint z \<Rightarrow> state_of_number (Num (of_int z))
     | JString s \<Rightarrow> if trim s = [] then None else state_of_number (number_of_string s)
     | _ \<Rightarrow> None)"

definition formatProposalState :: "jsnum \<Rightarrow> string" where
  "formatProposalState n =
    (case parseProposalState (JNumber n) of None \<Rightarrow> ''Unknown'' | Some s \<Rightarrow> PROPOSAL_STATE_LABELS s)"

end
