(* ===== verification/Governor_Properties.thy ===== *)
theory Governor_Properties
  imports Governor
begin

text \<open>
  What the governor module guarantees: executeMultipleProposals runs the proposals one after
  another and stops where it should, signs nothing but executions of the given proposals, and
  the configuration cache answers without a call exactly while it is fresh.
\<close>

section \<open>What invokeContract signs\<close>

lemma runs_submit_and_settle: "runs (signs_only A) (\<lambda>_. True) (submit_and_settle env url t p)"
proof -
  have s: "runs (signs_only A) (\<lambda>_. True) (send env url t)"
    by (rule runs_weaken [OF runs_send]) (simp_all add: signs_only_def)
  have q: "runs (signs_only A) (\<lambda>_. True) (pollForConfirmation env url h p False)" for h
    by (rule read_signs [OF runs_read_confirmation])
  show ?thesis
    unfolding submit_and_settle_def
    by (rule runs_then [OF s]) (auto intro!: runs_then [OF q] runs_throw runs_any_lift split: send_reply.split)
qed

lemma runs_invokeContract:
  assumes "\<And>r. A (assemble_tx env tx r)"
  shows "runs (signs_only A) (\<lambda>_. True) (invokeContract env url tx p)"
  unfolding invokeContract_def Let_def
  by (rule runs_then [OF runs_map_error [OF read_signs [OF runs_read_simulate]]])
     (auto intro!: runs_throw runs_then [OF runs_direct] runs_submit_and_settle
       simp: signs_only_def assms split: sim_reply.split)

lemma signer_assembles:
  "resolveSigner env c = Inr signer \<Longrightarrow> assemble_tx signer = assemble_tx env"
  by (auto simp: resolveSigner_def wallet_signer_def keypair_signer_def split: if_splits)

section \<open>Running the proposals\<close>

lemma check_ids_result:
  "check_ids seen ns = Inr ids \<Longrightarrow> distinct seen \<Longrightarrow>
   ids = rev seen @ List.map int_of_num ns \<and> distinct ids \<and> (\<forall>n \<in> set ns. safe_integer n \<and> 0 \<le> int_of_num n)"
proof (induction seen ns rule: check_ids.induct)
  case (2 seen n ns)
  from 2(2) have ok: "safe_integer n" "0 \<le> int_of_num n" "int_of_num n \<notin> set seen" "check_ids (int_of_num n # seen) ns = Inr ids"
    by (simp_all split: if_splits)
  have "distinct (int_of_num n # seen)" using ok(3) 2(3) by simp
  moreover have "\<not> (\<not> safe_integer n \<or> int_of_num n < 0)" using ok by simp
  ultimately have h: "ids = rev (int_of_num n # seen) @ List.map int_of_num ns \<and> distinct ids \<and>
      (\<forall>n \<in> set ns. safe_integer n \<and> 0 \<le> int_of_num n)"
    using 2(1) ok(3,4) by blast
  show ?case by (intro conjI) (simp add: h [THEN conjunct1], rule h [THEN conjunct2, THEN conjunct1], simp add: h ok(1,2))
qed auto

text \<open>The reference: every proposal is tried in the world the one before left.\<close>

fun tried :: "(int \<Rightarrow> ('w, string) io) \<Rightarrow> int list \<Rightarrow> 'w \<Rightarrow> (thrown, string) result list \<times> 'w" where
  "tried one [] w = ([], w)"
| "tried one (i # ids) w = (let (r, w1) = one i w; (rs, w2) = tried one ids w1 in (r # rs, w2))"

definition execution_of :: "(thrown, string) result \<Rightarrow> execution" where
  "execution_of r = (case r of Inr h \<Rightarrow> Executed h | Inl e \<Rightarrow> Failed_with (error_of e))"

text \<open>How many proposals are tried: all, or those up to the first failure.\<close>

definition tries :: "bool \<Rightarrow> (thrown, string) result list \<Rightarrow> nat" where
  "tries stopOnError rs = (if stopOnError then min (length rs) (Suc (length (takeWhile result_ok rs))) else length rs)"

lemma length_tried: "length (fst (tried one ids w)) = length ids"
  by (induction ids arbitrary: w) (auto simp: split_beta Let_def)

lemma tries_Cons:
  "tries stopOnError (r # rs) = (if stopOnError \<and> \<not> result_ok r then 1 else Suc (tries stopOnError rs))"
  by (simp add: tries_def)

lemma loop_halted:
  "execute_loop env signer G gid caller fee polling signal st ids True acc w = (Inr (acc @ List.map (\<lambda>i. (i, Skipped)) ids), w)"
  by (induction ids arbitrary: acc) (simp_all add: io_return_def)

lemma loop_reference:
  assumes "one = execute_one env signer G gid caller fee polling signal"
  shows "execute_loop env signer G gid caller fee polling signal st ids False acc w =
    (let n = tries st (fst (tried one ids w)); (rs, w1) = tried one (take n ids) w
     in (Inr (acc @ zip ids (List.map execution_of rs) @ List.map (\<lambda>i. (i, Skipped)) (drop n ids)), w1))"
proof (induction ids arbitrary: acc w)
  case Nil
  then show ?case by (simp add: tries_def io_return_def)
next
  case (Cons i ids)
  obtain r w1 where r: "one i w = (r, w1)" by (cases "one i w")
  have att: "io_try (execute_one env signer G gid caller fee polling signal i) w = (Inr r, w1)"
    using r assms by (simp add: io_try_def)
  show ?case
  proof (cases r)
    case (Inr h)
    then show ?thesis
      using r att Cons.IH [of "acc @ [(i, Executed h)]" w1]
      by (simp add: io_bind_def tries_Cons split_beta Let_def execution_of_def)
  next
    case (Inl e)
    then show ?thesis
      using r att Cons.IH [of "acc @ [(i, Failed_with (error_of e))]" w1]
      by (cases st) (simp_all add: io_bind_def tries_Cons split_beta Let_def execution_of_def loop_halted)
  qed
qed

text \<open>
  C39: executeMultipleProposals runs the proposals one after another, each in the world its
  predecessor left, and reports one outcome per proposal in the given order; with stopOnError
  it stops after the first failure, reports the rest as skipped and does nothing for them.
\<close>
theorem proposals_run_in_order:
  assumes "governor_id G = Inr gid" "ns \<noteq> []" "check_ids [] ns = Inr ids" "resolveSigner env (g_cfg G) = Inr signer"
    and "resolveCaller env (g_cfg G) w = (Inr caller, w0)" "resolveFee (cfg_fee (g_cfg G)) (cfg_feeMultiplier (g_cfg G)) = Inr fee"
    and "polling = normalizePollingOptions (confirmationPollIntervalMs (g_cfg G)) (confirmationMaxAttempts (g_cfg G)) None"
    and "n = tries st (fst (tried (execute_one env signer G gid caller fee polling signal) ids w0))"
    and "tried (execute_one env signer G gid caller fee polling signal) (take n ids) w0 = (rs, w1)"
  shows "executeMultipleProposals env G ns st signal w =
      (Inr (zip ids (List.map execution_of rs) @ List.map (\<lambda>i. (i, Skipped)) (drop n ids)), w1) \<and>
    ids = List.map int_of_num ns \<and> length rs = n \<and> (n < length ids \<longrightarrow> st \<and> \<not> result_ok (rs ! (n - 1)))"
proof -
  let ?one = "execute_one env signer G gid caller fee polling signal"
  have loop: "execute_loop env signer G gid caller fee polling signal st ids False [] w0 =
      (Inr (zip ids (List.map execution_of rs) @ List.map (\<lambda>i. (i, Skipped)) (drop n ids)), w1)"
    using loop_reference [OF refl, of env signer G gid caller fee polling signal st ids "[]" w0] assms(8,9) by (simp add: Let_def)
  have run: "executeMultipleProposals env G ns st signal w = execute_loop env signer G gid caller fee polling signal st ids False [] w0"
    using assms(1-7) by (simp add: executeMultipleProposals_def io_bind_def io_lift_def io_guard_def)
  have n: "n \<le> length ids" unfolding assms(8) by (simp add: tries_def length_tried)
  have same: "take m (fst (tried ?one xs v)) = fst (tried ?one (take m xs) v)" for m xs v
    by (induction xs arbitrary: m v) (auto simp: split_beta Let_def take_Cons split: nat.split)
  have rs: "rs = take n (fst (tried ?one ids w0))" using same [of n ids w0] assms(9) by simp
  have len: "length rs = n" using n by (simp add: rs length_tried)
  have "st \<and> \<not> result_ok (rs ! (n - 1))" if "n < length ids"
  proof -
    let ?all = "fst (tried ?one ids w0)"
    let ?k = "length (takeWhile result_ok ?all)"
    have st: st and k: "n = Suc ?k" "Suc ?k < length ?all"
      using that assms(8) by (auto simp: tries_def length_tried split: if_splits)
    then have "\<not> result_ok (?all ! ?k)" by (intro nth_length_takeWhile) simp
    then show ?thesis using st k(1) by (simp add: rs)
  qed
  then show ?thesis using run loop len check_ids_result [OF assms(3)] by simp
qed

text \<open>
  Whatever executeMultipleProposals is given, each transaction it asks the signer for is
  assembled from one call of execute whose argument is a given proposal's id, a non-negative
  safe integer; ids that are malformed or repeated fail the request before any call.
\<close>
theorem executes_only_given_proposals:
  "list_all (signs_only (\<lambda>t. \<exists>n \<in> set ns. \<exists>a. safe_integer n \<and> 0 \<le> int_of_num n \<and>
       native_u64 env (int_of_num n) = Inr a \<and> assembled_call env ''execute'' [a] t))
     (drop (length (trace w)) (trace (snd (executeMultipleProposals env G ns st signal w)))) \<and>
   (\<not> (list_all (\<lambda>n. safe_integer n \<and> 0 \<le> int_of_num n) ns \<and> distinct (List.map int_of_num ns) \<and> ns \<noteq> []) \<longrightarrow>
     \<not> result_ok (fst (executeMultipleProposals env G ns st signal w)) \<and> snd (executeMultipleProposals env G ns st signal w) = w)"
proof
  let ?A = "\<lambda>t. \<exists>n \<in> set ns. \<exists>a. safe_integer n \<and> 0 \<le> int_of_num n \<and>
       native_u64 env (int_of_num n) = Inr a \<and> assembled_call env ''execute'' [a] t"
  have one: "runs (signs_only ?A) (\<lambda>_. True) (execute_one env signer G gid caller fee polling signal i)"
    if s: "resolveSigner env c = Inr signer" and i: "i \<in> int_of_num ` {n \<in> set ns. safe_integer n \<and> 0 \<le> int_of_num n}"
    for signer c gid caller fee polling i
  proof -
    have "runs (signs_only ?A) (\<lambda>_. True) (invokeContract signer (g_rpcUrl G) tx polling)"
      if "native_u64 env i = Inr a" "tx_method tx = ''execute''" "tx_args tx = [a]" for a tx
      using that i signer_assembles [OF s] by (intro runs_invokeContract) (auto simp: assembled_call_def)
    then show ?thesis
      unfolding execute_one_def
      by (intro runs_then [OF runs_aborted] runs_bind [OF runs_lift [where Q = "\<lambda>a. native_u64 env i = Inr a"]]
          runs_bind [OF read_signs [OF runs_read_build]]) auto
  qed
  have loop: "runs (signs_only ?A) (\<lambda>_. True) (execute_loop env signer G gid caller fee polling signal st ids halted acc)"
    if "resolveSigner env c = Inr signer" "set ids \<subseteq> int_of_num ` {n \<in> set ns. safe_integer n \<and> 0 \<le> int_of_num n}"
    for signer c gid caller fee polling ids halted acc
    using that(2)
  proof (induction ids arbitrary: halted acc)
    case (Cons i ids)
    have o: "runs (signs_only ?A) (\<lambda>_. True) (execute_one env signer G gid caller fee polling signal i)"
      using Cons.prems by (intro one [OF that(1)]) simp
    show ?case
      unfolding execute_loop.simps
      by (intro runs_branches runs_then [OF runs_value [OF runs_try [OF o]]] Cons.IH) (use Cons.prems in simp_all)
  qed (simp add: runs_return)
  have caller: "runs (signs_only ?A) (\<lambda>_. True) (resolveCaller env c)" for c
    unfolding resolveCaller_def wallet_key_def
    by (intro read_signs runs_branches runs_direct runs_return runs_throw) simp_all
  have "runs (signs_only ?A) (\<lambda>_. True) (executeMultipleProposals env G ns st signal)"
    unfolding executeMultipleProposals_def
    by (rule runs_then [OF runs_any_lift], rule runs_then [OF runs_value [OF runs_guard]],
        rule runs_bind [OF runs_lift [where Q = "\<lambda>ids. check_ids [] ns = Inr ids"]], assumption,
        rule runs_bind [OF runs_lift [where Q = "\<lambda>s. resolveSigner env (g_cfg G) = Inr s"]], assumption,
        rule runs_then [OF caller], rule runs_then [OF runs_any_lift], rule loop, assumption)
       (use check_ids_result [of "[]" ns] in auto)
  then show "list_all (signs_only ?A) (drop (length (trace w)) (trace (snd (executeMultipleProposals env G ns st signal w))))"
    by (rule runs_calls)
  have "\<not> result_ok (fst (executeMultipleProposals env G ns st signal w)) \<and> snd (executeMultipleProposals env G ns st signal w) = w"
    if "\<not> result_ok (check_ids [] ns) \<or> ns = []"
    using that by (cases "governor_id G"; cases "check_ids [] ns")
      (auto simp: executeMultipleProposals_def io_bind_def io_lift_def io_guard_def)
  moreover have "list_all (\<lambda>n. safe_integer n \<and> 0 \<le> int_of_num n) ns \<and> distinct (List.map int_of_num ns)"
    if "check_ids [] ns = Inr ids" for ids
    using check_ids_result [OF that] by (auto simp: list_all_iff)
  ultimately show "\<not> (list_all (\<lambda>n. safe_integer n \<and> 0 \<le> int_of_num n) ns \<and> distinct (List.map int_of_num ns) \<and> ns \<noteq> []) \<longrightarrow>
     \<not> result_ok (fst (executeMultipleProposals env G ns st signal w)) \<and> snd (executeMultipleProposals env G ns st signal w) = w"
    by (cases "check_ids [] ns") auto
qed

definition sample_governor :: GovernorModule where
  "sample_governor = \<lparr> g_rpcUrl = ''rpc'', g_governorId = Some ''CG'', g_callerAddr = ''GK'', g_network = ''testnet'',
     g_cfg = \<lparr> network = ''testnet'', cfg_rpcUrl = None, cfg_horizonUrl = None, factoryAddress = None, cfg_wallet = False,
       cfg_keypair = Some ''GK'', cfg_signer = None, negativeCacheTtlMs = None, factoryConfigCacheTtlMs = None,
       confirmationMaxAttempts = None, confirmationPollIntervalMs = None, cfg_fee = None, cfg_feeMultiplier = None,
       signatureTimeoutMs = None, governorAddress = Some ''CG'', governorConfigCacheTtlMs = None \<rparr>,
     g_configCacheTtlMs = 30000 \<rparr>"

lemma proposals_run_in_order_witness:
  "\<exists>rs w1 n. executeMultipleProposals sample_outside sample_governor [Num 4, Num 2] True False initial_rpc_world =
     (Inr (zip [4, 2] (List.map execution_of rs) @ List.map (\<lambda>i. (i, Skipped)) (drop n [4, 2])), w1) \<and> length rs = n"
proof -
  let ?p = "normalizePollingOptions (confirmationPollIntervalMs (g_cfg sample_governor)) (confirmationMaxAttempts (g_cfg sample_governor)) None"
  let ?one = "execute_one sample_outside (keypair_signer sample_outside) sample_governor ''CG'' ''GK'' Soroban.BASE_FEE ?p False"
  let ?n = "tries True (fst (tried ?one [4, 2] initial_rpc_world))"
  have g: "governor_id sample_governor = Inr ''CG''" by (simp add: governor_id_def sample_governor_def)
  have i: "check_ids [] [Num 4, Num 2] = Inr [4, 2]" by (simp add: safe_integer_def MAX_SAFE_INTEGER_def)
  have s: "resolveSigner sample_outside (g_cfg sample_governor) = Inr (keypair_signer sample_outside)"
    by (simp add: resolveSigner_def sample_governor_def)
  have c: "resolveCaller sample_outside (g_cfg sample_governor) initial_rpc_world = (Inr ''GK'', initial_rpc_world)"
    by (simp add: resolveCaller_def sample_governor_def io_return_def)
  have f: "resolveFee (cfg_fee (g_cfg sample_governor)) (cfg_feeMultiplier (g_cfg sample_governor)) = Inr Soroban.BASE_FEE"
    by (simp add: resolveFee_def sample_governor_def)
  show ?thesis
    using proposals_run_in_order [OF g _ i s c f refl refl prod.collapse [symmetric], of True False] by blast
qed

section \<open>The configuration cache\<close>

definition fresh_config :: "int \<Rightarrow> 'z governor_world_scheme \<Rightarrow> GovernorConfig option" where
  "fresh_config t w = (case configCache w of Some (v, expiresAt) \<Rightarrow> if t < expiresAt then Some v else None | None \<Rightarrow> None)"

lemma keeps_governor_read: "keeps rpc_world.more (governor_read env G cid method)"
proof -
  have "keeps rpc_world.more (fetchAccountFromHorizon env h a)" for h a
    unfolding fetchAccountFromHorizon_def
    by (auto intro!: keeps_rules split: sum.split horizon_reply.split option.split)
  then have "keeps rpc_world.more (buildContractCallTx env url caller cid method args fee memo h)" for url caller args fee memo h
    unfolding buildContractCallTx_def getAccountWithFallback_def
    by (intro keeps_rules keeps_catch) (auto intro!: keeps_rules split: option.split)
  moreover have "keeps rpc_world.more (simulateReadOnly env url tx)" for url tx
    unfolding simulateReadOnly_def simulate_def
    by (intro keeps_rules) (auto intro!: keeps_rules split: sim_reply.split option.split)
  ultimately show ?thesis unfolding governor_read_def by (intro keeps_rules)
qed

lemma configCache_more: "configCache w = configCache (rpc_world.extend initial_rpc_world (rpc_world.more w))"
  by (cases w) (simp only: rpc_world.defs rpc_world.select_convs governor_world.select_convs)

text \<open>
  getConfig answers from the cache without any call exactly while the entry has not
  expired; otherwise its answer is parsed from a simulation of the contract's config and is
  cached for the configured time from its completion, and a failure leaves the cache as it was.
\<close>
theorem getConfig_cached_until_expiry:
  assumes "\<not> (signal \<and> aborted_now env (calls_made w))" "governor_id G = Inr gid" "getConfig env G signal w = (out, w')"
  shows "case fresh_config (clock_at env (calls_made w)) w of
      Some v \<Rightarrow> out = Inr v \<and> w' = w
    | None \<Rightarrow> (case out of
        Inl e \<Rightarrow> configCache w' = configCache w
      | Inr v \<Rightarrow> configCache w' = Some (v, clock_at env (calls_made w') + g_configCacheTtlMs G) \<and>
          (\<forall>t. fresh_config t w' = (if t < clock_at env (calls_made w') + g_configCacheTtlMs G then Some v else None)))"
proof -
  have go: "(signal \<and> aborted_now env (calls_made w)) = False" using assms(1) by simp
  show ?thesis
proof (cases "fresh_config (clock_at env (calls_made w)) w")
  case (Some v)
  then show ?thesis
    using assms(2,3) unfolding fresh_config_def
    by (simp add: getConfig_def io_bind_def throwIfAborted_def go io_lift_def io_gets_def io_now_def io_return_def)
next
  case None
  obtain r w1 where r: "governor_read env G gid ''config'' w = (r, w1)" by (cases "governor_read env G gid ''config'' w")
  have "keeps configCache (governor_read env G gid ''config'')"
    by (rule keeps_more [OF keeps_governor_read, where g = "\<lambda>m. configCache (rpc_world.extend initial_rpc_world m)"])
       (rule configCache_more)
  from keepsD [OF this, of w] have c: "configCache w1 = configCache w" unfolding r by simp
  have run: "getConfig env G signal w = io_bind (governor_read env G gid ''config'') (\<lambda>v.
      io_bind (io_lift (parseGovernorConfig (address_fromScVal env) v)) (\<lambda>parsed.
      io_bind (io_now env) (\<lambda>done_at.
      io_bind (io_modify (\<lambda>w. w \<lparr> configCache := Some (parsed, done_at + g_configCacheTtlMs G) \<rparr>)) (\<lambda>_.
      io_return parsed)))) w"
    using assms(2) None unfolding fresh_config_def
    by (simp add: getConfig_def io_bind_def throwIfAborted_def go io_lift_def io_gets_def io_now_def)
  show ?thesis
  proof (cases r)
    case (Inl e)
    then show ?thesis using run r assms(3) None c by (simp add: io_bind_def)
  next
    case (Inr v)
    then show ?thesis
      using run r assms(3) None c
      by (cases "parseGovernorConfig (address_fromScVal env) v")
         (auto simp: io_bind_def io_lift_def io_now_def io_modify_def io_return_def calls_made_def fresh_config_def)
  qed
qed
qed

definition sample_governor_world :: governor_world where
  "sample_governor_world = rpc_world.extend initial_rpc_world \<lparr> configCache = Some
     (\<lparr> gc_feeBps = 30, minDurationSeconds = 60, maxDurationSeconds = 90, maxRatePerSecond = 7, gc_feeRecipient = None,
        gc_factoryAddress = None, votingDelay = None, votingPeriod = None, proposalThreshold = None \<rparr>, 5000) \<rparr>"

lemma getConfig_cached_until_expiry_witness:
  "\<exists>v. fst (getConfig sample_outside sample_governor False sample_governor_world) = Inr v \<and> gc_feeBps v = 30"
proof -
  have g: "governor_id sample_governor = Inr ''CG''" by (simp add: governor_id_def sample_governor_def)
  have "\<not> (False \<and> aborted_now sample_outside (calls_made sample_governor_world))" by simp
  from getConfig_cached_until_expiry [OF this g prod.collapse [symmetric]] show ?thesis
    by (simp add: fresh_config_def sample_governor_world_def rpc_world.defs initial_rpc_world_def calls_made_def sample_outside_def)
qed

lemma executes_only_given_proposals_witness:
  "\<not> result_ok (fst (executeMultipleProposals sample_outside sample_governor [Num 4, Num 4] True False initial_rpc_world))"
  using executes_only_given_proposals [of "[Num 4, Num 4]" sample_outside initial_rpc_world sample_governor True False]
  by simp

end
