(* ===== verification/Token.thy ===== *)
theory Token
  imports Governor_Properties
begin

text \<open>
  TokenModule of src/token.ts: SEP-41 allowances and approvals.  The wallet is the outside's,
  or the adapter around a configured keypair, which answers and signs without leaving the SDK.
\<close>

section \<open>State and construction\<close>

datatype token_wallet = Outside_wallet | Keypair_wallet string

record TokenModule =
  t_rpcUrl :: string
  t_fee :: string
  t_signer :: "string option"

record token_world = rpc_world +
  t_activeWallet :: "token_wallet option"

definition new_TokenModule :: "ConduitConfig \<Rightarrow> (thrown, TokenModule) result" where
  "new_TokenModule c =
    result_bind (resolveFee (cfg_fee c) (cfg_feeMultiplier c)) (\<lambda>fee.
    Inr \<lparr> t_rpcUrl = given_or (DEFAULT_RPC (network c)) (cfg_rpcUrl c), t_fee = fee, t_signer = cfg_signer c \<rparr>)"

definition initial_token_world :: "ConduitConfig \<Rightarrow> rpc_world \<Rightarrow> token_world" where
  "initial_token_world c w = rpc_world.extend w \<lparr> t_activeWallet =
     (if cfg_wallet c then Some Outside_wallet else map_option Keypair_wallet (cfg_keypair c)) \<rparr>"

definition setWallet :: "'z token_world_scheme \<Rightarrow> 'z token_world_scheme" where
  "setWallet w = w \<lparr> t_activeWallet := Some Outside_wallet \<rparr>"

section \<open>Allowances\<close>

definition two_addresses :: "outside \<Rightarrow> string \<Rightarrow> string \<Rightarrow> (thrown, sc_val list) result" where
  "two_addresses env a b =
    result_bind (address_toScVal env a) (\<lambda>x. result_bind (address_toScVal env b) (\<lambda>y. Inr [x, y]))"

definition allowance ::
    "outside \<Rightarrow> TokenModule \<Rightarrow> string \<Rightarrow> string \<Rightarrow> string \<Rightarrow> bool \<Rightarrow> ('z token_world_scheme, int) io" where
  "allowance env T tokenAddress owner spender signal =
    io_bind (throwIfAborted env signal) (\<lambda>_.
    io_bind (io_lift (two_addresses env owner spender)) (\<lambda>args.
    io_bind (buildContractCallTx env (t_rpcUrl T) owner tokenAddress ''allowance'' args (t_fee T) None None) (\<lambda>tx.
    io_bind (throwIfAborted env signal) (\<lambda>_.
    io_bind (simulateReadOnly env (t_rpcUrl T) tx) (\<lambda>v. io_lift (scValToI128 v))))))"

section \<open>Approvals\<close>

definition owner_mismatch :: "string \<Rightarrow> string \<Rightarrow> string \<Rightarrow> thrown" where
  "owner_mismatch owner kind signing =
    plain_error (''Token allowance owner '' @ owner @ '' does not match the '' @ kind @ '' '' @ signing)"

definition approval_identity_required :: thrown where
  "approval_identity_required = plain_error ''keypair, wallet adapter, or signer is required to approve a token allowance''"

text \<open>The adapter of a keypair signs in place and returns the transaction.\<close>

definition keypair_adapter :: "outside \<Rightarrow> outside" where
  "keypair_adapter env = env \<lparr> sign_answer := (\<lambda>n t. Inr (Signed_tx (keypair_sign env t))) \<rparr>"

definition signerFor :: "outside \<Rightarrow> TokenModule \<Rightarrow> string \<Rightarrow> ('z token_world_scheme, outside) io" where
  "signerFor env T owner =
    io_bind (io_gets t_activeWallet) (\<lambda>active.
    case active of
      Some Outside_wallet \<Rightarrow>
        io_bind (wallet_key env) (\<lambda>signing.
        io_bind (io_guard (signing = owner) (owner_mismatch owner ''connected wallet'' signing)) (\<lambda>_. io_return (wallet_signer env)))
    | Some (Keypair_wallet k) \<Rightarrow>
        io_bind (io_guard (k = owner) (owner_mismatch owner ''connected wallet'' k)) (\<lambda>_. io_return (keypair_adapter env))
    | None \<Rightarrow> (case t_signer T of
        Some signing \<Rightarrow>
          io_bind (io_guard (signing = owner) (owner_mismatch owner ''configured signer'' signing)) (\<lambda>_. io_return env)
      | None \<Rightarrow> io_throw approval_identity_required))"

definition u32_integer :: "jsnum \<Rightarrow> bool" where
  "u32_integer n = (is_integer_num n \<and> 0 \<le> int_of_num n \<and> int_of_num n \<le> 0xFFFFFFFF)"

definition approve_args :: "outside \<Rightarrow> string \<Rightarrow> string \<Rightarrow> int \<Rightarrow> int \<Rightarrow> (thrown, sc_val list) result" where
  "approve_args env owner spender amount ledger =
    result_bind (two_addresses env owner spender) (\<lambda>as.
    result_bind (native_i128 env amount) (\<lambda>a.
    result_bind (native_u32 env ledger) (\<lambda>l. Inr (as @ [a, l]))))"

definition approve ::
    "outside \<Rightarrow> TokenModule \<Rightarrow> string \<Rightarrow> string \<Rightarrow> string \<Rightarrow> int \<Rightarrow> jsnum \<Rightarrow> ('z token_world_scheme, string) io" where
  "approve env T tokenAddress owner spender amount expirationLedger =
    io_bind (io_guard (\<not> amount < 0) (range_error ''amount must be greater than or equal to 0'')) (\<lambda>_.
    io_bind (io_guard (u32_integer expirationLedger) (range_error ''expirationLedger must be a u32 integer'')) (\<lambda>_.
    io_bind (signerFor env T owner) (\<lambda>signer.
    io_bind (io_lift (approve_args env owner spender amount (int_of_num expirationLedger))) (\<lambda>args.
    io_bind (buildContractCallTx env (t_rpcUrl T) owner tokenAddress ''approve'' args (t_fee T) None None) (\<lambda>tx.
    invokeContract signer (t_rpcUrl T) tx (normalizePollingOptions None None None))))))"

section \<open>What approve signs\<close>

lemma runs_signerFor:
  "runs (\<lambda>c. c = Get_public_key) (\<lambda>s. assemble_tx s = assemble_tx env) (signerFor env T owner)"
  unfolding signerFor_def wallet_key_def
  by (rule runs_then [OF runs_gets])
     (auto intro!: runs_then [OF runs_direct] runs_then [OF runs_value [OF runs_guard]] runs_return runs_throw
       simp: wallet_signer_def keypair_adapter_def split: option.split token_wallet.split)


text \<open>Reading an allowance neither signs nor submits.\<close>

lemma allowance_reads: "runs read_only (\<lambda>_. True) (allowance env T tok owner spender signal)"
  unfolding allowance_def
  by (intro runs_then [OF runs_aborted] runs_then [OF runs_any_lift] runs_then [OF runs_value [OF runs_read_build]]
      runs_then [OF runs_read_simulateReadOnly] runs_any_lift)

definition sample_token :: TokenModule where
  "sample_token = \<lparr> t_rpcUrl = ''rpc'', t_fee = ''100'', t_signer = Some ''GS'' \<rparr>"

definition sample_token_world :: token_world where
  "sample_token_world = rpc_world.extend initial_rpc_world \<lparr> t_activeWallet = None \<rparr>"


text \<open>A keypair takes precedence over a signer here, and the other way round in GovernorModule.\<close>

lemma keypair_before_signer:
  "t_activeWallet (initial_token_world (c \<lparr> cfg_wallet := False, cfg_keypair := Some k, cfg_signer := Some a \<rparr>) w) = Some (Keypair_wallet k)"
  by (simp add: initial_token_world_def rpc_world.defs)

end
