(* ===== verification/Batch_Tx.thy ===== *)
theory Batch_Tx
  imports Factory
begin

text \<open>
  Batches of transactions (src/batch-tx.ts): chunking, validation of the context, argument
  encoding, building one transaction per operation offline or through simulation, and the
  sequential submission.  An envelope (the XDR string of the code) is carried as the transaction
  it encodes.  The simulations of one batch run in the order of their operations, which is one of
  the schedules of the Promise.all that starts them together.
\<close>

definition batch_error :: "string \<Rightarrow> thrown" where
  "batch_error m = new_error (NamedError ''BatchBuildError'') m"

section \<open>Chunks\<close>

function chunks_from :: "nat \<Rightarrow> 'a list \<Rightarrow> nat \<Rightarrow> 'a list list" where
  "chunks_from n items i =
    (if i < length items \<and> 0 < n then take n (drop i items) # chunks_from n items (i + n) else [])"
  by auto
termination by (relation "measure (\<lambda>(n, items, i). length items - i)") auto

declare chunks_from.simps [simp del]

definition chunkBatchOperations :: "'a list \<Rightarrow> jsnum \<Rightarrow> (thrown, 'a list list) result" where
  "chunkBatchOperations items maxChunkSize =
    (if \<not> is_integer_num maxChunkSize \<or> int_of_num maxChunkSize < 1
     then Inl (batch_error (''maxChunkSize must be a positive integer, got '' @ show_jsnum maxChunkSize))
     else if items = [] then Inr []
     else Inr (chunks_from (nat (int_of_num maxChunkSize)) items 0))"

section \<open>The context of a batch\<close>

record BatchTransactionContext =
  bc_contractId :: string
  bc_sourceAccount :: string
  bc_network :: "string option"
  bc_networkPassphrase :: "string option"
  bc_sequence :: "string option"
  bc_rpcUrl :: "string option"
  bc_fee :: "string option"

text \<open>networks gives the passphrases of the Stellar SDK; a lookup of any other name is undefined.\<close>

definition network_passphrase :: "(string \<Rightarrow> string) \<Rightarrow> string \<Rightarrow> string option" where
  "network_passphrase networks n = (if n \<in> set SUPPORTED_NETWORKS then Some (networks n) else None)"

definition named :: "string option \<Rightarrow> bool" where
  "named s = (case s of Some x \<Rightarrow> x \<noteq> [] | None \<Rightarrow> False)"

definition resolvePassphrase :: "(string \<Rightarrow> string) \<Rightarrow> BatchTransactionContext \<Rightarrow> (thrown, string) result" where
  "resolvePassphrase networks c =
    (if named (bc_networkPassphrase c) \<and> trim (given_or [] (bc_networkPassphrase c)) \<noteq> []
     then Inr (given_or [] (bc_networkPassphrase c))
     else if named (bc_network c) then
       (case network_passphrase networks (given_or [] (bc_network c)) of
          Some p \<Rightarrow> Inr p
        | None \<Rightarrow> Inl (batch_error (''Unknown network \"'' @ given_or [] (bc_network c) @ ''\"'')))
     else Inl (batch_error ''BatchTransactionContext requires either networkPassphrase or network''))"

definition validateContext :: "strkey \<Rightarrow> (string \<Rightarrow> string) \<Rightarrow> BatchTransactionContext \<Rightarrow> string list" where
  "validateContext ks networks c =
    (if bc_contractId c = [] \<or> \<not> isValidContract ks (bc_contractId c)
     then [''contractId must be a valid Soroban contract ID (C-address), got \"'' @ bc_contractId c @ ''\"''] else []) @
    (if bc_sourceAccount c = [] \<or> \<not> isValidEd25519PublicKey ks (bc_sourceAccount c)
     then [''sourceAccount must be a valid Stellar public key (G-address), got \"'' @ bc_sourceAccount c @ ''\"''] else []) @
    (if \<not> named (bc_network c) \<and> \<not> named (bc_networkPassphrase c)
     then [''Either network or networkPassphrase must be provided''] else []) @
    (if named (bc_network c) \<and> network_passphrase networks (given_or [] (bc_network c)) = None
     then [''Unknown network \"'' @ given_or [] (bc_network c) @ ''\"''] else []) @
    (if bc_sequence c = None \<and> \<not> named (bc_rpcUrl c)
     then [''Either sequence (to build offline) or rpcUrl (to fetch it and prepare) must be provided''] else []) @
    (case bc_sequence c of
       Some s \<Rightarrow> if s \<noteq> [] \<and> list_all is_digit s then []
                 else [''sequence must be a non-negative integer string, got \"'' @ s @ ''\"'']
     | None \<Rightarrow> [])"

section \<open>Arguments\<close>

text \<open>A parameter is a plain value, an encoded one, or one without a representation.\<close>

datatype batch_value = Plain jsval | Encoded sc_val | Unserialisable

type_synonym native_codec = "jsval \<Rightarrow> string option \<Rightarrow> (thrown, sc_val) result"

definition paramToScVal :: "outside \<Rightarrow> native_codec \<Rightarrow> batch_value \<Rightarrow> string option \<Rightarrow> (thrown, sc_val) result" where
  "paramToScVal env native v type_hint =
    (case v of
       Unserialisable \<Rightarrow> Inr ScvVoid
     | Encoded x \<Rightarrow> Inr x
     | Plain j \<Rightarrow>
         if j = JUndefined \<or> j = JNull then Inr ScvVoid
         else if type_hint \<noteq> None then native j type_hint
         else (case j of
           JString s \<Rightarrow> if isValidEd25519PublicKey (keys env) s \<or> isValidContract (keys env) s then address_toScVal env s
                        else native j None
         | _ \<Rightarrow> native j None))"

record BuildableOperation =
  op_method :: "string option"
  op_params :: "(string \<times> batch_value) list"
  op_types :: "string \<Rightarrow> string option"
  op_args :: "batch_value list option"

fun results_of :: "('a \<Rightarrow> (thrown, 'b) result) \<Rightarrow> 'a list \<Rightarrow> (thrown, 'b list) result" where
  "results_of f [] = Inr []"
| "results_of f (x # xs) = result_bind (f x) (\<lambda>y. result_bind (results_of f xs) (\<lambda>ys. Inr (y # ys)))"

definition map_entry :: "outside \<Rightarrow> native_codec \<Rightarrow> BuildableOperation \<Rightarrow> string \<times> batch_value \<Rightarrow> (thrown, sc_val \<times> sc_val) result" where
  "map_entry env native op kv =
    result_bind (native (JString (fst kv)) (Some ''symbol'')) (\<lambda>k.
    result_bind (paramToScVal env native (snd kv) (op_types op (fst kv))) (\<lambda>v. Inr (k, v)))"

definition operationToScVals :: "outside \<Rightarrow> native_codec \<Rightarrow> BuildableOperation \<Rightarrow> (thrown, sc_val list) result" where
  "operationToScVals env native op =
    (case op_args op of
       Some args \<Rightarrow> results_of (\<lambda>a. paramToScVal env native a None) args
     | None \<Rightarrow>
         if op_params op = [] then Inr []
         else result_bind (results_of (map_entry env native op) (sort_key fst (op_params op))) (\<lambda>es. Inr [ScvMap (Some es)]))"

section \<open>Building\<close>

record BuiltBatchTransaction =
  bt_index :: nat
  bt_method :: string
  bt_xdr :: contract_tx
  bt_prepared :: bool

text \<open>The transaction of one operation; building it consumes the account's next sequence number.\<close>

definition build_operation ::
    "outside \<Rightarrow> native_codec \<Rightarrow> BatchTransactionContext \<Rightarrow> string \<Rightarrow> int \<Rightarrow> nat \<times> BuildableOperation \<Rightarrow> (thrown, string \<times> contract_tx) result" where
  "build_operation env native c contract start iop =
    (let (i, op) = iop in
     if \<not> named (op_method op) then Inl (batch_error (''Operation at index '' @ show_nat i @ '' is missing a method name''))
     else result_bind (operationToScVals env native op) (\<lambda>args.
       let m = given_or [] (op_method op) in
       Inr (m, \<lparr> tx_caller = bc_sourceAccount c, tx_sequence = start + int i + 1, tx_contract = contract, tx_method = m,
          tx_args = args, tx_fee = given_or Soroban.BASE_FEE (bc_fee c), tx_memo = None, tx_signatures = [] \<rparr>)))"

definition check_context :: "outside \<Rightarrow> (string \<Rightarrow> string) \<Rightarrow> BatchTransactionContext \<Rightarrow> (thrown, unit) result" where
  "check_context env networks c =
    (let errors = validateContext (keys env) networks c in
     if errors = [] then Inr () else Inl (batch_error (join_with ''; '' errors)))"

definition build_all ::
    "outside \<Rightarrow> native_codec \<Rightarrow> (string \<Rightarrow> string) \<Rightarrow> BatchTransactionContext \<Rightarrow> int \<Rightarrow> BuildableOperation list
      \<Rightarrow> (thrown, (string \<times> contract_tx) list) result" where
  "build_all env native networks c sq ops =
    result_bind (resolvePassphrase networks c) (\<lambda>_.
    result_bind (new_contract env (bc_contractId c)) (\<lambda>contract.
    results_of (build_operation env native c contract sq) (enumerate 0 ops)))"

definition buildBatchTransactionsSync ::
    "outside \<Rightarrow> native_codec \<Rightarrow> (string \<Rightarrow> string) \<Rightarrow> BuildableOperation list \<Rightarrow> BatchTransactionContext
      \<Rightarrow> (thrown, BuiltBatchTransaction list) result" where
  "buildBatchTransactionsSync env native networks ops c =
    result_bind (check_context env networks c) (\<lambda>_.
    case bc_sequence c of
      None \<Rightarrow> Inl (batch_error ''sequence is required to build batch transactions offline'')
    | Some sq \<Rightarrow> result_bind (build_all env native networks c (int (digits_val sq)) ops) (\<lambda>txs.
        Inr (List.map (\<lambda>(i, m, tx). \<lparr> bt_index = i, bt_method = m, bt_xdr = tx, bt_prepared = False \<rparr>) (enumerate 0 txs))))"

text \<open>The sequence given, or the account's current one.\<close>

definition batch_sequence :: "outside \<Rightarrow> string \<Rightarrow> BatchTransactionContext \<Rightarrow> ('z rpc_world_scheme, int) io" where
  "batch_sequence env url c =
    (case bc_sequence c of
       Some sq \<Rightarrow> io_return (int (digits_val sq))
     | None \<Rightarrow> io_map_error as_rate_limit
         (proxied_call env url (Get_account (bc_sourceAccount c)) (\<lambda>n. account_reply env n (bc_sourceAccount c))))"

definition batch_simulate :: "outside \<Rightarrow> string \<Rightarrow> contract_tx \<Rightarrow> ('z rpc_world_scheme, sim_reply) io" where
  "batch_simulate env url tx = io_map_error as_rate_limit (proxied_call env url (Simulate tx) (\<lambda>n. simulate_reply env n tx))"

record BatchSimulationResult =
  bs_index :: nat
  bs_method :: string
  bs_success :: bool
  bs_error :: "string option"

fun first_throw :: "(thrown, 'a) result list \<Rightarrow> (thrown, 'a list) result" where
  "first_throw [] = Inr []"
| "first_throw (r # rs) = result_bind r (\<lambda>a. result_bind (first_throw rs) (\<lambda>as. Inr (a # as)))"

text \<open>Promise.all starts every simulation, whatever becomes of the others.\<close>

definition preBatchSimulate ::
    "outside \<Rightarrow> native_codec \<Rightarrow> (string \<Rightarrow> string) \<Rightarrow> BuildableOperation list \<Rightarrow> BatchTransactionContext
      \<Rightarrow> ('z rpc_world_scheme, BatchSimulationResult list) io" where
  "preBatchSimulate env native networks ops c =
    io_bind (io_lift (check_context env networks c)) (\<lambda>_.
    io_bind (io_guard (named (bc_rpcUrl c)) (batch_error ''preBatchSimulate requires rpcUrl'')) (\<lambda>_.
    let url = given_or [] (bc_rpcUrl c) in
    io_bind (batch_sequence env url c) (\<lambda>sq.
    io_bind (io_lift (build_all env native networks c sq ops)) (\<lambda>txs.
    io_bind (io_mapM (\<lambda>(i, m, tx). io_try (io_bind (batch_simulate env url tx) (\<lambda>sim.
        io_return (case sim of
          Sim_error e \<Rightarrow> \<lparr> bs_index = i, bs_method = m, bs_success = False, bs_error = Some e \<rparr>
        | Sim_ok _ \<Rightarrow> \<lparr> bs_index = i, bs_method = m, bs_success = True, bs_error = None \<rparr>))))
      (enumerate 0 txs)) (\<lambda>results. io_lift (first_throw results))))))"

fun failures :: "(thrown, 'a) result list \<Rightarrow> thrown list" where
  "failures [] = []"
| "failures (Inl e # rs) = e # failures rs"
| "failures (Inr _ # rs) = failures rs"

fun successes :: "(thrown, 'a) result list \<Rightarrow> 'a list" where
  "successes [] = []"
| "successes (Inl _ # rs) = successes rs"
| "successes (Inr a # rs) = a # successes rs"

definition prepare_one ::
    "outside \<Rightarrow> string \<Rightarrow> nat \<times> string \<times> contract_tx \<Rightarrow> ('z rpc_world_scheme, BuiltBatchTransaction) io" where
  "prepare_one env url imt =
    (let (i, m, tx) = imt in
     io_bind (batch_simulate env url tx) (\<lambda>sim.
     case sim of
       Sim_error e \<Rightarrow> io_throw (batch_error (''Simulation failed for operation '' @ show_nat i @ '' ('' @ m @ ''): '' @ e))
     | Sim_ok r \<Rightarrow> io_return \<lparr> bt_index = i, bt_method = m, bt_xdr = assemble_tx env tx r, bt_prepared = True \<rparr>))"

definition buildBatchTransactions ::
    "outside \<Rightarrow> native_codec \<Rightarrow> (string \<Rightarrow> string) \<Rightarrow> BuildableOperation list \<Rightarrow> BatchTransactionContext
      \<Rightarrow> ('z rpc_world_scheme, BuiltBatchTransaction list) io" where
  "buildBatchTransactions env native networks ops c =
    io_bind (io_lift (check_context env networks c)) (\<lambda>_.
    if \<not> named (bc_rpcUrl c) then io_lift (buildBatchTransactionsSync env native networks ops c)
    else
      let url = given_or [] (bc_rpcUrl c) in
      io_bind (batch_sequence env url c) (\<lambda>sq.
      io_bind (io_lift (build_all env native networks c sq ops)) (\<lambda>txs.
      io_bind (io_mapM (\<lambda>imt. io_try (prepare_one env url imt)) (enumerate 0 txs)) (\<lambda>results.
      if failures results \<noteq> [] then io_throw (batch_error (join_with ''; '' (List.map err_message (failures results))))
      else io_return (successes results)))))"

section \<open>Sequential submission\<close>

datatype BatchTxStatus = SUCCESS | FAILED | SKIPPED | ERROR

record BatchTxOutcome =
  bo_index :: nat
  bo_method :: string
  bo_status :: BatchTxStatus
  bo_txHash :: "string option"
  bo_error :: "string option"
  bo_dryRun :: bool

record BatchSubmitOptions =
  so_pollIntervalMs :: "int option"
  so_maxPollAttempts :: "int option"
  so_sign :: bool
  so_signal :: bool
  so_dryRun :: bool
  so_throwOnError :: bool

text \<open>What is known of one transaction when its turn ends: its status, hash and error.\<close>

type_synonym verdict = "BatchTxStatus \<times> string option \<times> string option"

definition errored :: "string \<Rightarrow> verdict" where "errored m = (ERROR, None, Some m)"

text \<open>The confirmation loop, on the attempts left.\<close>

fun confirm_loop ::
    "outside \<Rightarrow> string \<Rightarrow> string \<Rightarrow> int \<Rightarrow> int \<Rightarrow> bool \<Rightarrow> nat \<Rightarrow> ('z rpc_world_scheme, verdict) io" where
  "confirm_loop env url h interval attempts signal 0 =
    io_return (errored (''Transaction timed out after '' @ show_int attempts @ '' poll attempts: '' @ h))"
| "confirm_loop env url h interval attempts signal (Suc left) =
    io_bind (io_sleep interval) (\<lambda>_.
    io_bind (io_gets (\<lambda>w. signal \<and> aborted_now env (calls_made w))) (\<lambda>ab.
    if ab then io_return (errored ''Aborted during polling'')
    else io_bind (io_try (proxied_call env url (Get_transaction h) (\<lambda>n. tx_reply env n h))) (\<lambda>r.
      case r of
        Inl e \<Rightarrow> io_return (errored (''Poll failed: '' @ err_message e))
      | Inr (Tx_success _) \<Rightarrow> io_return (SUCCESS, Some h, None)
      | Inr Tx_failed \<Rightarrow> io_return (FAILED, None, Some (''Transaction failed on-chain: '' @ h))
      | Inr Tx_not_found \<Rightarrow> confirm_loop env url h interval attempts signal left)))"

text \<open>The text ''undefined'' stands for a rejection without a result.\<close>

definition rejection_text :: "string \<Rightarrow> string" where
  "rejection_text m = (if m = ''undefined'' then ''Transaction rejected by network'' else m)"

definition submit_signed ::
    "outside \<Rightarrow> string \<Rightarrow> BatchSubmitOptions \<Rightarrow> contract_tx \<Rightarrow> ('z rpc_world_scheme, verdict) io" where
  "submit_signed env url opts tx =
    io_bind (io_try (proxied_call env url (Send tx) (\<lambda>n. send_reply env n tx))) (\<lambda>sent.
    case sent of
      Inl e \<Rightarrow> io_return (errored (''Submit failed: '' @ err_message e))
    | Inr (Send_rejected m) \<Rightarrow> io_return (FAILED, None, Some (rejection_text m))
    | Inr (Send_accepted h) \<Rightarrow>
        let attempts = given_or 30 (so_maxPollAttempts opts) in
        confirm_loop env url h (given_or 1000 (so_pollIntervalMs opts)) attempts (so_signal opts) (nat attempts))"

text \<open>
  The turn of one transaction.  A signer returns an envelope; an answer that is none makes the
  Transaction constructor throw (malformed).
\<close>

definition submit_turn ::
    "outside \<Rightarrow> thrown \<Rightarrow> string \<Rightarrow> BatchSubmitOptions \<Rightarrow> BuiltBatchTransaction \<Rightarrow> ('z rpc_world_scheme, verdict) io" where
  "submit_turn env malformed url opts built =
    (if so_sign opts then
       io_bind (io_try (direct_call (Sign (bt_xdr built)) (\<lambda>n. sign_answer env n (bt_xdr built)))) (\<lambda>reply.
       case reply of
         Inl e \<Rightarrow> io_return (errored (''Sign failed: '' @ err_message e))
       | Inr (Signed_xdr tx) \<Rightarrow> submit_signed env url opts tx
       | Inr _ \<Rightarrow> io_return (errored (''Submit failed: '' @ err_message malformed)))
     else submit_signed env url opts (bt_xdr built))"

definition outcome_of_turn :: "BuiltBatchTransaction \<Rightarrow> verdict \<Rightarrow> BatchTxOutcome" where
  "outcome_of_turn built v = (case v of (st, h, e) \<Rightarrow>
     \<lparr> bo_index = bt_index built, bo_method = bt_method built, bo_status = st, bo_txHash = h, bo_error = e, bo_dryRun = False \<rparr>)"

definition skipped_after :: "nat \<Rightarrow> BuiltBatchTransaction \<Rightarrow> BatchTxOutcome" where
  "skipped_after first built =
    outcome_of_turn built (SKIPPED, None, Some (''Skipped because transaction '' @ show_nat first @ '' failed''))"

definition dry_run_outcome :: "BuiltBatchTransaction \<Rightarrow> BatchTxOutcome" where
  "dry_run_outcome built = (outcome_of_turn built (SUCCESS, Some (''dry-run:'' @ show_nat (bt_index built)), None)) \<lparr> bo_dryRun := True \<rparr>"

text \<open>
  The loop over the batch.  first is firstFailureIndex, None for its -1; the second list
  holds the outcomes given to onProgress.
\<close>

fun submit_loop ::
    "outside \<Rightarrow> thrown \<Rightarrow> string \<Rightarrow> BatchSubmitOptions \<Rightarrow> BuiltBatchTransaction list \<Rightarrow> nat option
      \<Rightarrow> BatchTxOutcome list \<times> BatchTxOutcome list
      \<Rightarrow> ('z rpc_world_scheme, nat option \<times> BatchTxOutcome list \<times> BatchTxOutcome list) io" where
  "submit_loop env malformed url opts [] first acc = io_return (first, acc)"
| "submit_loop env malformed url opts (b # bs) (Some i) acc =
    submit_loop env malformed url opts bs (Some i) (fst acc @ [skipped_after i b], snd acc @ [skipped_after i b])"
| "submit_loop env malformed url opts (b # bs) None acc =
    io_bind (io_gets (\<lambda>w. so_signal opts \<and> aborted_now env (calls_made w))) (\<lambda>ab.
    if ab then
      let skipped = outcome_of_turn b (SKIPPED, None, Some ''Aborted'')
      in submit_loop env malformed url opts bs (Some (bt_index b)) (fst acc @ [skipped], snd acc @ [skipped])
    else if so_dryRun opts then submit_loop env malformed url opts bs None (fst acc @ [dry_run_outcome b], snd acc)
    else io_bind (submit_turn env malformed url opts b) (\<lambda>v.
      submit_loop env malformed url opts bs (if fst v = SUCCESS then None else Some (bt_index b))
        (fst acc @ [outcome_of_turn b v], snd acc @ [outcome_of_turn b v])))"

record BatchSubmitResult =
  allSucceeded :: bool
  firstFailureIndex :: int
  br_outcomes :: "BatchTxOutcome list"
  successCount :: nat
  failureCount :: nat
  br_progress :: "BatchTxOutcome list"

text \<open>BatchPartiallySubmittedError carries the result and the transactions it is about.\<close>

record PartiallySubmitted =
  pe_message :: string
  pe_firstFailureIndex :: int
  pe_skippedIndices :: "nat list"
  pe_result :: BatchSubmitResult
  pe_builtTransactions :: "BuiltBatchTransaction list"

definition partially_submitted :: "BatchSubmitResult \<Rightarrow> BuiltBatchTransaction list \<Rightarrow> PartiallySubmitted" where
  "partially_submitted r built =
    (let skipped = filter (\<lambda>o'. bo_status o' = SKIPPED) (br_outcomes r) in
     \<lparr> pe_message = (if firstFailureIndex r \<noteq> -1
         then ''Batch submission failed at transaction '' @ show_int (firstFailureIndex r) @ ''. '' @
           show_nat (length skipped) @ '' transaction(s) skipped.''
         else ''Batch partially submitted: '' @ show_nat (failureCount r) @ '' of '' @ show_nat (length (br_outcomes r)) @
           '' transaction(s) failed. Call getFailedOperations(originalOperations) to get the failed subset for retry.''),
       pe_firstFailureIndex = firstFailureIndex r, pe_skippedIndices = List.map bo_index skipped, pe_result = r,
       pe_builtTransactions = built \<rparr>)"

definition failed_indices :: "PartiallySubmitted \<Rightarrow> nat set" where
  "failed_indices e = bo_index ` {o' \<in> set (br_outcomes (pe_result e)). bo_status o' = FAILED \<or> bo_status o' = ERROR}"

fun operations_at :: "'a list \<Rightarrow> BuiltBatchTransaction list \<Rightarrow> (thrown, 'a list) result" where
  "operations_at ops [] = Inr []"
| "operations_at ops (b # bs) =
    (if bt_index b < length ops then result_bind (operations_at ops bs) (\<lambda>os. Inr (ops ! bt_index b # os))
     else Inl (range_error (''getFailedOperations: no operation at index '' @ show_nat (bt_index b) @
       ''. Make sure originalOperations is the same array passed to buildBatchTransactions.'')))"

definition getFailedOperations :: "PartiallySubmitted \<Rightarrow> 'a list \<Rightarrow> (thrown, 'a list) result" where
  "getFailedOperations e ops = operations_at ops (filter (\<lambda>b. bt_index b \<in> failed_indices e) (pe_builtTransactions e))"

definition submit_result :: "nat option \<times> BatchTxOutcome list \<times> BatchTxOutcome list \<Rightarrow> BatchSubmitResult" where
  "submit_result r = (case r of (first, outs, progress) \<Rightarrow>
     let k = length (filter (\<lambda>o'. bo_status o' = SUCCESS) outs) in
     \<lparr> allSucceeded = (first = None), firstFailureIndex = (case first of Some i \<Rightarrow> int i | None \<Rightarrow> -1),
       br_outcomes = outs, successCount = k, failureCount = length outs - k, br_progress = progress \<rparr>)"

definition submitBatch ::
    "outside \<Rightarrow> thrown \<Rightarrow> BuiltBatchTransaction list \<Rightarrow> string \<Rightarrow> BatchSubmitOptions
      \<Rightarrow> ('z rpc_world_scheme, (PartiallySubmitted, BatchSubmitResult) result) io" where
  "submitBatch env malformed txs url opts =
    io_bind (io_guard (url \<noteq> []) (batch_error ''submitBatch requires a valid rpcUrl'')) (\<lambda>_.
    io_bind (submit_loop env malformed url opts txs None ([], [])) (\<lambda>r.
    let res = submit_result r in
    io_return (if so_throwOnError opts \<and> \<not> allSucceeded res then Inl (partially_submitted res txs) else Inr res)))"

end
