(* ===== verification/Batch_Properties.thy ===== *)
theory Batch_Properties
  imports Batch_Tx
begin

text \<open>
  Properties of batches: chunks partition the operations, the built transactions take
  consecutive sequence numbers, preparing is all or nothing, and a submission confirms a prefix
  of the batch and never sends anything after its first failure.
\<close>

section \<open>Chunks\<close>

lemma chunks_from_drop:
  "0 < n \<Longrightarrow> chunks_from n xs i = (if i < length xs then take n (drop i xs) # chunks_from n xs (i + n) else [])"
  by (subst chunks_from.simps) simp

lemma chunks_from_properties:
  assumes "0 < n"
  shows "concat (chunks_from n xs i) = drop i xs \<and> (\<forall>c \<in> set (chunks_from n xs i). c \<noteq> [] \<and> length c \<le> n) \<and>
    (\<forall>c \<in> set (butlast (chunks_from n xs i)). length c = n)"
proof (induction "length xs - i" arbitrary: i rule: less_induct)
  case less
  show ?case
  proof (cases "i < length xs")
    case True
    then have "length xs - (i + n) < length xs - i" using assms by simp
    from less [OF this] have IH: "concat (chunks_from n xs (i + n)) = drop (i + n) xs"
        "\<forall>c \<in> set (chunks_from n xs (i + n)). c \<noteq> [] \<and> length c \<le> n"
        "\<forall>c \<in> set (butlast (chunks_from n xs (i + n))). length c = n"
      by simp_all
    have eq: "chunks_from n xs i = take n (drop i xs) # chunks_from n xs (i + n)" using True chunks_from_drop [OF assms, of xs i] by simp
    have "take n (drop i xs) @ drop (i + n) xs = drop i xs"
      by (metis append_take_drop_id drop_drop add.commute)
    then have "concat (chunks_from n xs i) = drop i xs" unfolding eq by (simp add: IH(1))
    moreover have "length (take n (drop i xs)) = n" if "chunks_from n xs (i + n) \<noteq> []"
      using that unfolding chunks_from_drop [OF assms, of xs "i + n"] by (simp split: if_splits)
    then have "\<forall>c \<in> set (butlast (chunks_from n xs i)). length c = n" unfolding eq using IH(3) by auto
    moreover have "\<forall>c \<in> set (chunks_from n xs i). c \<noteq> [] \<and> length c \<le> n" unfolding eq using IH(2) True assms by auto
    ultimately show ?thesis by blast
  next
    case False
    then show ?thesis using assms by (simp add: chunks_from_drop)
  qed
qed

text \<open>
  chunkBatchOperations partitions its input: for a positive integer size the chunks
  concatenate to the operations in their order, none is empty or too long and all but the last
  are full; any other size is an error.
\<close>
theorem chunks_partition:
  "(\<exists>cs. chunkBatchOperations items size' = Inr cs \<and> concat cs = items \<and>
      (\<forall>c \<in> set cs. c \<noteq> [] \<and> int (length c) \<le> int_of_num size') \<and>
      (\<forall>c \<in> set (butlast cs). int (length c) = int_of_num size')) =
    (is_integer_num size' \<and> 1 \<le> int_of_num size')"
proof (cases "is_integer_num size' \<and> 1 \<le> int_of_num size'")
  case True
  then have n: "0 < nat (int_of_num size')" by simp
  have "chunkBatchOperations items size' = Inr (chunks_from (nat (int_of_num size')) items 0)"
    using True by (simp add: chunkBatchOperations_def chunks_from.simps)
  then show ?thesis using True chunks_from_properties [OF n, of items 0] by fastforce
qed (auto simp: chunkBatchOperations_def)

lemma chunks_partition_witness:
  "concat (chunks_from 2 [1, 2, 3 :: nat] 0) = [1, 2, 3]"
  using chunks_partition [of "[1, 2, 3 :: nat]" "Num 2"] by (simp add: chunkBatchOperations_def)

section \<open>Building\<close>

lemma results_of_nth:
  assumes "results_of f xs = Inr ys"
  shows "length ys = length xs \<and> (\<forall>i < length xs. f (xs ! i) = Inr (ys ! i))"
  using assms
proof (induction xs arbitrary: ys)
  case (Cons x xs)
  then obtain y zs where y: "f x = Inr y" "results_of f xs = Inr zs" "ys = y # zs" by (auto simp: result_bind_Inr_iff)
  then show ?case using Cons.IH [OF y(2)] by (auto simp: nth_Cons split: nat.split)
qed simp

text \<open>The transaction an operation stands for, on the account sequence it will meet.\<close>

definition transaction_of ::
    "outside \<Rightarrow> native_codec \<Rightarrow> BatchTransactionContext \<Rightarrow> int \<Rightarrow> BuildableOperation \<Rightarrow> string \<Rightarrow> contract_tx \<Rightarrow> bool" where
  "transaction_of env native c account_sequence op m tx =
    (op_method op = Some m \<and> m \<noteq> [] \<and> tx_method tx = m \<and> tx_sequence tx = account_sequence + 1 \<and>
     tx_caller tx = bc_sourceAccount c \<and> new_contract env (bc_contractId c) = Inr (tx_contract tx) \<and>
     operationToScVals env native op = Inr (tx_args tx) \<and> tx_fee tx = given_or Soroban.BASE_FEE (bc_fee c) \<and> tx_signatures tx = [])"

lemma build_all_transactions:
  assumes "build_all env native networks c sq ops = Inr txs"
  shows "length txs = length ops \<and>
    (\<forall>i < length ops. transaction_of env native c (sq + int i) (ops ! i) (fst (txs ! i)) (snd (txs ! i)))"
proof -
  from assms obtain contract where k: "new_contract env (bc_contractId c) = Inr contract"
    and r: "results_of (build_operation env native c contract sq) (enumerate 0 ops) = Inr txs"
    by (auto simp: build_all_def result_bind_Inr_iff)
  have "transaction_of env native c (sq + int i) (ops ! i) (fst (txs ! i)) (snd (txs ! i))" if "i < length ops" for i
  proof -
    have "build_operation env native c contract sq (i, ops ! i) = Inr (txs ! i)"
      using results_of_nth [OF r] that by (simp add: nth_enumerate_eq)
    then show ?thesis using k
      by (cases "txs ! i")
         (auto simp: build_operation_def transaction_of_def named_def given_or_def result_bind_Inr_iff Let_def
          split: option.splits if_splits)
  qed
  then show ?thesis using results_of_nth [OF r] by simp
qed

text \<open>
  Offline building gives one unsigned transaction per operation, in order, each calling
  its operation's method with its encoded arguments on the next sequence number of the account;
  it fails unless the context is valid and holds a sequence.
\<close>
theorem offline_batch_consumes_sequences:
  assumes "buildBatchTransactionsSync env native networks ops c = Inr txs"
  shows "validateContext (keys env) networks c = [] \<and> length txs = length ops \<and>
    (\<exists>sq. bc_sequence c = Some sq \<and> (\<forall>i < length ops. bt_index (txs ! i) = i \<and> \<not> bt_prepared (txs ! i) \<and>
       transaction_of env native c (int (digits_val sq) + int i) (ops ! i) (bt_method (txs ! i)) (bt_xdr (txs ! i))))"
proof -
  from assms obtain sq built where "validateContext (keys env) networks c = []" "bc_sequence c = Some sq"
    and b: "build_all env native networks c (int (digits_val sq)) ops = Inr built"
    and t: "txs = List.map (\<lambda>(i, m, tx). \<lparr> bt_index = i, bt_method = m, bt_xdr = tx, bt_prepared = False \<rparr>) (enumerate 0 built)"
    by (auto simp: buildBatchTransactionsSync_def check_context_def Let_def result_bind_Inr_iff split: if_splits option.splits)
  moreover have "txs ! i = \<lparr> bt_index = i, bt_method = fst (built ! i), bt_xdr = snd (built ! i), bt_prepared = False \<rparr>"
    if "i < length built" for i
    using that by (simp add: t nth_enumerate_eq split_beta)
  ultimately show ?thesis using build_all_transactions [OF b] by (simp add: t)
qed

definition sample_context :: BatchTransactionContext where
  "sample_context = \<lparr> bc_contractId = ''CA'', bc_sourceAccount = ''GA'', bc_network = Some ''testnet'', bc_networkPassphrase = None,
     bc_sequence = Some ''7'', bc_rpcUrl = None, bc_fee = None \<rparr>"

definition sample_operation :: BuildableOperation where
  "sample_operation = \<lparr> op_method = Some ''withdraw'', op_params = [], op_types = (\<lambda>_. None), op_args = Some [Encoded (ScvBool True)] \<rparr>"

lemma offline_batch_consumes_sequences_witness:
  "\<exists>txs. buildBatchTransactionsSync sample_outside (\<lambda>_ _. Inr ScvVoid) (\<lambda>n. n) [sample_operation, sample_operation] sample_context = Inr txs \<and>
     tx_sequence (bt_xdr (txs ! 1)) = 9"
proof -
  let ?b = "buildBatchTransactionsSync sample_outside (\<lambda>_ _. Inr ScvVoid) (\<lambda>n. n) [sample_operation, sample_operation] sample_context"
  have "\<exists>txs. ?b = Inr txs"
    by (simp add: buildBatchTransactionsSync_def check_context_def validateContext_def sample_context_def sample_outside_def
        sample_strkey_def sample_operation_def named_def given_or_def network_passphrase_def SUPPORTED_NETWORKS_def build_all_def
        resolvePassphrase_def trim_def is_space_def build_operation_def operationToScVals_def paramToScVal_def is_digit_def Let_def)
  then obtain txs where b: "?b = Inr txs" by blast
  from offline_batch_consumes_sequences [OF b] have "tx_sequence (bt_xdr (txs ! 1)) = 9"
    by (auto simp: transaction_of_def sample_context_def digits_val_def digit_val_def)
  then show ?thesis using b by blast
qed

section \<open>Preparing\<close>

lemma failures_none: "failures rs = [] \<Longrightarrow> List.map Inr (successes rs) = rs"
  by (induction rs rule: failures.induct) simp_all

text \<open>A transaction prepared from a simulation that succeeded.\<close>

definition prepared_from :: "outside \<Rightarrow> nat \<Rightarrow> string \<Rightarrow> contract_tx \<Rightarrow> BuiltBatchTransaction \<Rightarrow> bool" where
  "prepared_from env i m tx b = (bt_index b = i \<and> bt_method b = m \<and> bt_prepared b \<and>
     (\<exists>n r. simulate_reply env n tx = Inr (Sim_ok r) \<and> bt_xdr b = assemble_tx env tx r))"

lemma runs_batch_simulate: "runs read_only (\<lambda>s. \<exists>n. simulate_reply env n tx = Inr s) (batch_simulate env url tx)"
  unfolding batch_simulate_def by (intro runs_map_error runs_proxied) auto

lemma runs_prepare_one: "runs read_only (prepared_from env i m tx) (prepare_one env url (i, m, tx))"
  unfolding prepare_one_def Let_def prod.case
  by (rule runs_bind [OF runs_batch_simulate])
     (auto simp: prepared_from_def intro: runs_throw intro!: runs_return exI split: sim_reply.split)

lemma runs_mapM_nth:
  assumes "\<And>i. i < length xs \<Longrightarrow> runs P (Q i) (f (xs ! i))"
  shows "runs P (\<lambda>ys. length ys = length xs \<and> (\<forall>i < length xs. Q i (ys ! i))) (io_mapM f xs)"
  using assms
proof (induction xs arbitrary: Q)
  case (Cons x xs)
  have x: "runs P (Q 0) (f x)" using Cons.prems [of 0] by simp
  have "runs P (\<lambda>ys. length ys = length xs \<and> (\<forall>i < length xs. Q (Suc i) (ys ! i))) (io_mapM f xs)"
    using Cons.prems [of "Suc _"] by (intro Cons.IH) simp
  then show ?case
    unfolding io_mapM.simps
    by (intro runs_bind [OF x] runs_bind [of P _ "io_mapM f xs"] runs_return) (auto simp: nth_Cons split: nat.split)
qed (simp add: runs_return)

definition sequence_given :: "BatchTransactionContext \<Rightarrow> int \<Rightarrow> bool" where
  "sequence_given c sq = (case bc_sequence c of Some s \<Rightarrow> sq = int (digits_val s) | None \<Rightarrow> True)"

lemma runs_batch_sequence: "runs read_only (sequence_given c) (batch_sequence env url c)"
  unfolding batch_sequence_def sequence_given_def
  by (auto intro!: runs_return runs_map_error runs_proxied split: option.split)

definition all_prepared ::
    "outside \<Rightarrow> native_codec \<Rightarrow> BatchTransactionContext \<Rightarrow> BuildableOperation list \<Rightarrow> int \<Rightarrow> BuiltBatchTransaction list \<Rightarrow> bool" where
  "all_prepared env native c ops sq txs =
    (length txs = length ops \<and> (\<forall>i < length ops. \<exists>tx. transaction_of env native c (sq + int i) (ops ! i) (bt_method (txs ! i)) tx \<and>
       prepared_from env i (bt_method (txs ! i)) tx (txs ! i)))"

lemma runs_prepare_all:
  assumes b: "build_all env native networks c sq ops = Inr txs"
  shows "runs read_only (\<lambda>rs. failures rs = [] \<longrightarrow> all_prepared env native c ops sq (successes rs))
    ((io_mapM :: _ \<Rightarrow> _ \<Rightarrow> ('z rpc_world_scheme, _) io) (\<lambda>imt. io_try (prepare_one env url imt)) (enumerate 0 txs))"
proof -
  let ?attempt = "\<lambda>imt. io_try (prepare_one env url imt :: ('z rpc_world_scheme, _) io)"
  let ?P = "\<lambda>i r. \<forall>b. r = Inr b \<longrightarrow> prepared_from env i (fst (txs ! i)) (snd (txs ! i)) b"
  have "runs read_only (?P i) (?attempt (enumerate 0 txs ! i))" if "i < length txs" for i
    using runs_try [OF runs_prepare_one [of env i "fst (txs ! i)" "snd (txs ! i)" url]] that by (simp add: nth_enumerate_eq)
  then have "runs read_only (\<lambda>rs. length rs = length txs \<and> (\<forall>i < length txs. ?P i (rs ! i)))
      (io_mapM ?attempt (enumerate 0 txs))"
    using runs_mapM_nth [of "enumerate 0 txs" read_only ?P ?attempt] by simp
  then show ?thesis
  proof (rule runs_weaken)
    fix rs :: "(thrown, BuiltBatchTransaction) result list"
    assume rs: "length rs = length txs \<and> (\<forall>i < length txs. ?P i (rs ! i))"
    show "failures rs = [] \<longrightarrow> all_prepared env native c ops sq (successes rs)"
    proof
      assume f: "failures rs = []"
      have len: "length (successes rs) = length ops" "length txs = length ops"
        using failures_none [OF f] rs build_all_transactions [OF b] by (metis length_map)+
      have "rs ! i = Inr (successes rs ! i)" if "i < length ops" for i
        using failures_none [OF f] that len by (metis nth_map)
      then have "prepared_from env i (fst (txs ! i)) (snd (txs ! i)) (successes rs ! i)" if "i < length ops" for i
        using rs len that by simp
      then show "all_prepared env native c ops sq (successes rs)"
        using build_all_transactions [OF b] len unfolding all_prepared_def by (metis prepared_from_def)
    qed
  qed simp
qed

lemma runs_build_batch:
  assumes "named (bc_rpcUrl c)"
  shows "runs read_only (\<lambda>txs. \<exists>sq. sequence_given c sq \<and> all_prepared env native c ops sq txs)
    (buildBatchTransactions env native networks ops c)"
proof -
  have u: "(\<not> named (bc_rpcUrl c)) = False" using assms by simp
  show ?thesis
    unfolding buildBatchTransactions_def Let_def u if_False
    by (rule runs_then [OF runs_any_lift], rule runs_bind [OF runs_batch_sequence],
        rule runs_bind [OF runs_lift [where Q = "\<lambda>txs. build_all env native networks c _ ops = Inr txs"]], assumption,
        rule runs_bind [OF runs_prepare_all], assumption)
       (auto intro: runs_throw runs_return)
qed

text \<open>
  Preparing a batch makes only reads and is all or nothing: when it returns, there is
  one prepared transaction per operation, in order, assembled from a successful simulation of
  the operation's call on the next sequence number of the account.
\<close>
theorem prepared_batch_all_or_none:
  assumes "named (bc_rpcUrl c)"
  shows "list_all read_only (drop (length (trace w)) (trace (snd (buildBatchTransactions env native networks ops c w)))) \<and>
    (case fst (buildBatchTransactions env native networks ops c w) of
       Inl e \<Rightarrow> True
     | Inr txs \<Rightarrow> \<exists>sq. sequence_given c sq \<and> all_prepared env native c ops sq txs)"
  using runs_build_batch [OF assms, of env native ops networks] runs_calls [OF runs_build_batch [OF assms], of w env native networks ops]
  by (auto simp: runs_def split: sum.split)

definition online_context :: BatchTransactionContext where
  "online_context = sample_context \<lparr> bc_sequence := None, bc_rpcUrl := Some ''rpc'' \<rparr>"

lemma prepared_batch_all_or_none_witness:
  "list_all read_only (trace (snd (buildBatchTransactions sample_outside (\<lambda>_ _. Inr ScvVoid) (\<lambda>n. n)
    [sample_operation, sample_operation] online_context initial_rpc_world)))"
  using prepared_batch_all_or_none [of online_context initial_rpc_world]
  by (simp add: online_context_def named_def initial_rpc_world_def)

section \<open>Submitting\<close>

text \<open>Every signature asked for and every submission is about one of the given transactions.\<close>

definition concerns :: "outside \<Rightarrow> BuiltBatchTransaction list \<Rightarrow> ext_call \<Rightarrow> bool" where
  "concerns env bs c = (case c of
     Sign t \<Rightarrow> \<exists>b \<in> set bs. t = bt_xdr b
   | Send t \<Rightarrow> \<exists>b \<in> set bs. t = bt_xdr b \<or> (\<exists>n. sign_answer env n (bt_xdr b) = Inr (Signed_xdr t))
   | _ \<Rightarrow> True)"

lemma concerns_mono: "set bs \<subseteq> set cs \<Longrightarrow> concerns env bs c \<Longrightarrow> concerns env cs c"
  unfolding concerns_def by (cases c) auto

definition seen_on_chain :: "outside \<Rightarrow> verdict \<Rightarrow> bool" where
  "seen_on_chain env v = (case v of (st, h, e) \<Rightarrow> st = SUCCESS \<longrightarrow> (\<exists>h' n r. h = Some h' \<and> tx_reply env n h' = Inr (Tx_success r)))"

lemma seen_on_chain_simps [simp]:
  "seen_on_chain env (errored m)" "seen_on_chain env (FAILED, h, e)"
  "seen_on_chain env (SUCCESS, Some h', e) = (\<exists>n r. tx_reply env n h' = Inr (Tx_success r))"
  by (simp_all add: seen_on_chain_def errored_def)

lemma runs_confirm_loop: "runs (concerns env bs) (seen_on_chain env) (confirm_loop env url h interval attempts signal left)"
proof (induction left)
  case 0
  then show ?case by (simp add: runs_return)
next
  case (Suc left)
  have poll: "runs (concerns env bs) (\<lambda>r. \<forall>s. r = Inr s \<longrightarrow> (\<exists>n. tx_reply env n h = Inr s))
      (io_try (proxied_call env url (Get_transaction h) (\<lambda>n. tx_reply env n h)))"
    by (rule runs_try, rule runs_proxied) (auto simp: concerns_def)
  show ?case
    unfolding confirm_loop.simps
    by (rule runs_then [OF runs_sleep], simp add: concerns_def, rule runs_then [OF runs_gets], rule runs_branches(1),
        rule runs_return, simp, rule runs_bind [OF poll])
       (auto intro!: runs_return Suc.IH exI split: sum.split tx_status.split)
qed

lemma runs_submit_signed:
  assumes "concerns env bs (Send tx)"
  shows "runs (concerns env bs) (seen_on_chain env) (submit_signed env url opts tx)"
  unfolding submit_signed_def Let_def
  by (rule runs_then [OF runs_value [OF runs_try [OF runs_proxied [where Q = "\<lambda>_. True"]]]])
     (auto intro!: runs_return runs_confirm_loop assms split: sum.split send_reply.split)

lemma runs_submit_turn:
  "runs (concerns env [b]) (seen_on_chain env) (submit_turn env malformed url opts b)"
proof -
  have sign: "runs (concerns env [b]) (\<lambda>r. \<forall>s. r = Inr s \<longrightarrow> (\<exists>n. sign_answer env n (bt_xdr b) = Inr s))
      (io_try (direct_call (Sign (bt_xdr b)) (\<lambda>n. sign_answer env n (bt_xdr b))))"
    by (rule runs_try, rule runs_direct) (auto simp: concerns_def)
  have plain: "concerns env [b] (Send (bt_xdr b))" by (simp add: concerns_def)
  have signed: "concerns env [b] (Send t)" if "\<exists>n. sign_answer env n (bt_xdr b) = Inr (Signed_xdr t)" for t
    using that by (simp add: concerns_def)
  show ?thesis
    unfolding submit_turn_def
    by (rule runs_branches(1), rule runs_bind [OF sign])
       (auto intro!: runs_return runs_submit_signed plain signed split: sum.split sign_reply.split)
qed

text \<open>A turn never throws: every failure is a verdict.\<close>

lemma yields_try: "yields (\<lambda>_. True) (\<lambda>_. True) (io_try m)"
  unfolding yields_def io_try_def by (auto split: prod.split)

lemma yields_confirm_loop: "yields (\<lambda>_. True) (\<lambda>_. True) (confirm_loop env url h interval attempts signal left)"
proof (induction left)
  case (Suc left)
  show ?case
    unfolding confirm_loop.simps io_sleep_def
    by (rule yields_bind [of _ "\<lambda>_. True"], simp add: yields_def direct_call_def,
        rule yields_bind [OF yields_gets [of _ "\<lambda>_. True"]], simp)
       (auto intro!: yields_return yields_bind [OF yields_try] Suc.IH split: sum.split tx_status.split)
qed (simp add: yields_return)

lemma yields_submit_signed: "yields (\<lambda>_. True) (\<lambda>_. True) (submit_signed env url opts tx)"
  unfolding submit_signed_def Let_def
  by (rule yields_bind [OF yields_try]) (auto intro!: yields_return yields_confirm_loop split: sum.split send_reply.split)

lemma yields_submit_turn: "yields (\<lambda>_. True) (\<lambda>_. True) (submit_turn env malformed url opts b)"
  unfolding submit_turn_def
  by (auto intro!: yields_bind [OF yields_try] yields_return yields_submit_signed split: sum.split sign_reply.split)

lemma submit_turn_ends:
  obtains v w' cs where "submit_turn env malformed url opts b w = (Inr v, w')" "trace w' = trace w @ cs"
    "list_all (concerns env [b]) cs" "seen_on_chain env v"
proof -
  obtain v w' where t: "submit_turn env malformed url opts b w = (Inr v, w')"
    using yields_submit_turn [of env malformed url opts b] unfolding yields_def by blast
  from runs_submit_turn [of env b malformed url opts] obtain cs where "trace w' = trace w @ cs" "list_all (concerns env [b]) cs"
      "seen_on_chain env v"
    unfolding runs_def by (metis t fst_conv snd_conv)
  then show thesis by (rule that [OF t])
qed

lemma submit_loop_skips:
  "submit_loop env malformed url opts bs (Some i) acc w =
    (Inr (Some i, fst acc @ List.map (skipped_after i) bs, snd acc @ List.map (skipped_after i) bs), w)"
  by (induction bs arbitrary: acc) (simp_all add: io_return_def)

text \<open>
  What a submission comes to: k transactions went through, the next one, if there is one, did
  not, and everything after it was skipped.
\<close>

definition went_through :: "outside \<Rightarrow> BatchSubmitOptions \<Rightarrow> BatchTxOutcome \<Rightarrow> bool" where
  "went_through env opts r = (bo_status r = SUCCESS \<and> bo_dryRun r = so_dryRun opts \<and>
     (so_dryRun opts \<or> (\<exists>h n v. bo_txHash r = Some h \<and> tx_reply env n h = Inr (Tx_success v))))"

definition stops_at ::
    "outside \<Rightarrow> BatchSubmitOptions \<Rightarrow> BuiltBatchTransaction list \<Rightarrow> nat \<Rightarrow> BatchTxOutcome list \<Rightarrow> nat option \<Rightarrow> bool" where
  "stops_at env opts txs k outs first =
    (length outs = length txs \<and> k \<le> length txs \<and> list_all (went_through env opts) (take k outs) \<and>
     (if k < length txs
      then bo_status (outs ! k) \<noteq> SUCCESS \<and> first = Some (bt_index (txs ! k)) \<and>
        drop (Suc k) outs = List.map (skipped_after (bt_index (txs ! k))) (drop (Suc k) txs)
      else first = None))"

lemma stops_at_Nil: "stops_at env opts [] 0 [] None"
  by (simp add: stops_at_def)

lemma stops_at_failure:
  "bo_status r \<noteq> SUCCESS \<Longrightarrow> stops_at env opts (b # bs) 0 (r # List.map (skipped_after (bt_index b)) bs) (Some (bt_index b))"
  by (simp add: stops_at_def)

lemma stops_at_Cons:
  "went_through env opts r \<Longrightarrow> stops_at env opts bs k outs first \<Longrightarrow> stops_at env opts (b # bs) (Suc k) (r # outs) first"
  by (simp add: stops_at_def split: if_splits)

lemma submit_loop_stops:
  "\<exists>k outs first progress cs. fst (submit_loop env malformed url opts txs None acc w) = Inr (first, fst acc @ outs, progress) \<and>
     stops_at env opts txs k outs first \<and> List.map bo_index outs = List.map bt_index txs \<and>
     trace (snd (submit_loop env malformed url opts txs None acc w)) = trace w @ cs \<and>
     list_all (concerns env (take (Suc k) txs)) cs \<and> (so_dryRun opts \<longrightarrow> cs = [])"
proof (induction txs arbitrary: acc w)
  case Nil
  show ?case by (cases acc, rule exI [of _ 0], rule exI [of _ "[]"]) (simp add: io_return_def stops_at_Nil)
next
  case (Cons b bs)
  let ?loop = "\<lambda>txs first acc w. submit_loop env malformed url opts txs first acc w"
  have skipped: "List.map bo_index (List.map (skipped_after i) bs) = List.map bt_index bs" for i
    by (simp add: skipped_after_def outcome_of_turn_def)
  have cont: ?case
    if r: "went_through env opts r" "bo_index r = bt_index b" and t: "trace w' = trace w @ ds" "list_all (concerns env [b]) ds"
      "so_dryRun opts \<longrightarrow> ds = []" and l: "?loop (b # bs) None acc w = ?loop bs None (fst acc @ [r], p) w'" for r p w' ds
  proof -
    obtain k outs first progress cs where IH: "fst (?loop bs None (fst acc @ [r], p) w') = Inr (first, (fst acc @ [r]) @ outs, progress)"
        "stops_at env opts bs k outs first" "List.map bo_index outs = List.map bt_index bs"
        "trace (snd (?loop bs None (fst acc @ [r], p) w')) = trace w' @ cs" "list_all (concerns env (take (Suc k) bs)) cs"
        "so_dryRun opts \<longrightarrow> cs = []"
      using Cons.IH [of "(fst acc @ [r], p)" w'] by auto
    have "list_all (concerns env (take (Suc (Suc k)) (b # bs))) (ds @ cs)"
      using t(2) IH(5) concerns_mono [of "[b]" "take (Suc (Suc k)) (b # bs)" env]
        concerns_mono [of "take (Suc k) bs" "take (Suc (Suc k)) (b # bs)" env] by (auto simp: list_all_iff)
    then show ?case
      using IH r t stops_at_Cons [OF r(1) IH(2)] unfolding l
      by (intro exI [of _ "Suc k"] exI [of _ "r # outs"] exI [of _ first] exI [of _ progress] exI [of _ "ds @ cs"]) simp
  qed
  have stop: ?case
    if r: "bo_status r \<noteq> SUCCESS" "bo_index r = bt_index b" and t: "trace w' = trace w @ ds" "list_all (concerns env [b]) ds"
      "so_dryRun opts \<longrightarrow> ds = []" and l: "?loop (b # bs) None acc w = ?loop bs (Some (bt_index b)) (fst acc @ [r], p) w'" for r p w' ds
    unfolding l submit_loop_skips
    using r t stops_at_failure [OF r(1), of env opts b bs] skipped
    by (intro exI [of _ 0] exI [of _ "r # List.map (skipped_after (bt_index b)) bs"] exI [of _ "Some (bt_index b)"]
        exI [of _ "p @ List.map (skipped_after (bt_index b)) bs"] exI [of _ ds]) simp
  show ?case
  proof (cases "so_signal opts \<and> aborted_now env (calls_made w)")
    case True
    show ?thesis
      by (rule stop [of "outcome_of_turn b (SKIPPED, None, Some ''Aborted'')" w "[]"])
         (auto simp: outcome_of_turn_def io_bind_def io_gets_def True Let_def)
  next
    case False
    then have go: "(so_signal opts \<and> aborted_now env (calls_made w)) = False" by simp
    show ?thesis
    proof (cases "so_dryRun opts")
      case True
      show ?thesis
        by (rule cont [of "dry_run_outcome b" w "[]"])
           (auto simp: went_through_def dry_run_outcome_def outcome_of_turn_def io_bind_def io_gets_def True go)
    next
      case no_dry: False
      obtain v w' ds where v: "submit_turn env malformed url opts b w = (Inr v, w')" "trace w' = trace w @ ds"
          "list_all (concerns env [b]) ds" "seen_on_chain env v"
        by (rule submit_turn_ends)
      have l: "?loop (b # bs) None acc w = ?loop bs (if fst v = SUCCESS then None else Some (bt_index b))
          (fst acc @ [outcome_of_turn b v], snd acc @ [outcome_of_turn b v]) w'"
        by (simp add: io_bind_def io_gets_def go no_dry v(1))
      show ?thesis
      proof (cases "fst v = SUCCESS")
        case True
        show ?thesis
          by (rule cont [of "outcome_of_turn b v", OF _ _ v(2,3)])
             (use v(4) no_dry True l in \<open>auto simp: went_through_def outcome_of_turn_def seen_on_chain_def split: prod.splits\<close>)
      next
        case False
        show ?thesis
          by (rule stop [of "outcome_of_turn b v", OF _ _ v(2,3)])
             (use no_dry False l in \<open>auto simp: outcome_of_turn_def split: prod.splits\<close>)
      qed
    qed
  qed
qed

lemma stops_at_status:
  assumes "stops_at env opts txs k outs first" "i < length txs"
  shows "bo_status (outs ! i) = SUCCESS \<longleftrightarrow> i < k" "k < i \<Longrightarrow> bo_status (outs ! i) = SKIPPED"
proof -
  note s = assms(1) [unfolded stops_at_def]
  have skip: "bo_status (outs ! i) = SKIPPED" if "k < i"
  proof -
    have "outs ! i = drop (Suc k) outs ! (i - Suc k)"
      using that s assms(2) nth_drop [of "Suc k" outs "i - Suc k"] by (simp del: nth_drop)
    also have "\<dots> = skipped_after (bt_index (txs ! k)) (drop (Suc k) txs ! (i - Suc k))"
      using s that assms(2) by (simp add: less_diff_conv split: if_splits)
    finally show ?thesis by (simp add: skipped_after_def outcome_of_turn_def)
  qed
  then show "k < i \<Longrightarrow> bo_status (outs ! i) = SKIPPED" .
  show "bo_status (outs ! i) = SUCCESS \<longleftrightarrow> i < k"
  proof (cases "i < k")
    case True
    then have "went_through env opts (take k outs ! i)" using s assms(2) by (metis length_take list_all_length min.absorb2)
    then show ?thesis using True by (simp add: went_through_def)
  next
    case False
    then show ?thesis using s skip assms(2) by (cases "i = k") (auto split: if_splits)
  qed
qed

lemma stops_at_successes:
  assumes "stops_at env opts txs k outs first"
  shows "length (filter (\<lambda>r. bo_status r = SUCCESS) outs) = k"
proof -
  have len: "length outs = length txs" "k \<le> length txs" using assms by (simp_all add: stops_at_def)
  have t: "filter (\<lambda>r. bo_status r = SUCCESS) (take k outs) = take k outs"
    using assms by (intro filter_True) (simp add: stops_at_def list_all_iff went_through_def)
  have d: "filter (\<lambda>r. bo_status r = SUCCESS) (drop k outs) = []"
    using stops_at_status(1) [OF assms] len by (auto simp: filter_empty_conv in_set_conv_nth)
  have "filter (\<lambda>r. bo_status r = SUCCESS) outs = take k outs"
    using filter_append [of "\<lambda>r. bo_status r = SUCCESS" "take k outs" "drop k outs"] t d by simp
  then show ?thesis using len by simp
qed



lemma operations_at_indices:
  "\<forall>b \<in> set bs. bt_index b < length ops \<Longrightarrow> operations_at ops bs = Inr (List.map (\<lambda>b. ops ! bt_index b) bs)"
  by (induction bs) simp_all

text \<open>
  The operations a partial-submission error offers for a retry are at most the one that
  failed: none of the operations skipped after it is among them, although none of them ran.
\<close>
theorem failed_operations_omit_skipped:
  assumes "stops_at env opts txs k (br_outcomes res) first" "k < length txs" "length ops = length txs"
    "List.map bt_index txs = [0..<length txs]" "List.map bo_index (br_outcomes res) = List.map bt_index txs"
  shows "getFailedOperations (partially_submitted res txs) ops =
      Inr (if bo_status (br_outcomes res ! k) = SKIPPED then [] else [ops ! k]) \<and>
    {k<..<length txs} \<subseteq> set (pe_skippedIndices (partially_submitted res txs))"
proof -
  let ?outs = "br_outcomes res"
  note status = stops_at_status [OF assms(1)]
  have len: "length ?outs = length txs" using assms(1) by (simp add: stops_at_def)
  have idx: "bt_index (txs ! i) = i" "bo_index (?outs ! i) = i" if "i < length txs" for i
    using that assms(4,5) len by (metis nth_map nth_upt length_map length_upt add_0 diff_zero)+
  have nk: "bo_status (?outs ! k) \<noteq> SUCCESS" using status(1) [OF assms(2)] by simp
  have bad: "(bo_status (?outs ! i) = FAILED \<or> bo_status (?outs ! i) = ERROR) = (i = k \<and> bo_status (?outs ! k) \<noteq> SKIPPED)"
    if "i < length txs" for i
    using status(1) [OF that] status(2) [OF that] nk by (cases "bo_status (?outs ! i)"; cases "i < k"; cases "i = k") auto
  have "failed_indices (partially_submitted res txs) = {i. i = k \<and> bo_status (?outs ! k) \<noteq> SKIPPED}"
  proof -
    have "failed_indices (partially_submitted res txs) =
        {i. i < length txs \<and> (bo_status (?outs ! i) = FAILED \<or> bo_status (?outs ! i) = ERROR)}"
      unfolding failed_indices_def partially_submitted_def Let_def using idx(2) len
      by (auto simp: image_def in_set_conv_nth)
    then show ?thesis using bad assms(2) by auto
  qed
  then have sel: "filter (\<lambda>b. bt_index b \<in> failed_indices (partially_submitted res txs)) txs =
      (if bo_status (?outs ! k) = SKIPPED then [] else filter (\<lambda>b. bt_index b = k) txs)"
    by (auto simp: filter_empty_conv)
  have one: "filter (\<lambda>b. bt_index b = k) txs = [txs ! k]"
  proof -
    have before: "filter (\<lambda>b. bt_index b = k) (take k txs) = []"
      using idx(1) by (fastforce simp: filter_empty_conv in_set_conv_nth)
    have "bt_index (drop (Suc k) txs ! j) = Suc (k + j)" if "j < length txs - Suc k" for j
      using that idx(1) [of "Suc (k + j)"] by simp
    then have "bt_index b \<noteq> k" if "b \<in> set (drop (Suc k) txs)" for b
      using that unfolding in_set_conv_nth length_drop by fastforce
    then have "filter (\<lambda>b. bt_index b = k) (drop (Suc k) txs) = []" by (simp add: filter_empty_conv)
    with before show ?thesis
      using id_take_nth_drop [OF assms(2)] idx(1) [OF assms(2)]
        filter_append [of "\<lambda>b. bt_index b = k" "take k txs" "txs ! k # drop (Suc k) txs"] by simp
  qed
  have "getFailedOperations (partially_submitted res txs) ops = Inr (if bo_status (?outs ! k) = SKIPPED then [] else [ops ! k])"
    using sel one idx(1) [OF assms(2)] assms(2,3)
    by (simp add: getFailedOperations_def partially_submitted_def Let_def)
  moreover have "i \<in> set (pe_skippedIndices (partially_submitted res txs))" if "k < i" "i < length txs" for i
    using status(2) [OF that(2,1)] idx(2) [OF that(2)] that(2) len
    by (force simp: partially_submitted_def Let_def image_def in_set_conv_nth)
  ultimately show ?thesis by auto
qed

lemma failed_operations_omit_skipped_witness:
  "\<exists>outs. getFailedOperations (partially_submitted (submit_result (Some 0, outs, outs))
     [\<lparr> bt_index = 0, bt_method = ''m'', bt_xdr = undefined, bt_prepared = True \<rparr>,
      \<lparr> bt_index = 1, bt_method = ''m'', bt_xdr = undefined, bt_prepared = True \<rparr>]) [''a'', ''b''] = Inr [''a'']"
proof -
  let ?txs = "[\<lparr> bt_index = 0, bt_method = ''m'', bt_xdr = undefined, bt_prepared = True \<rparr>,
      \<lparr> bt_index = 1, bt_method = ''m'', bt_xdr = undefined, bt_prepared = True \<rparr>]"
  let ?outs = "[outcome_of_turn (?txs ! 0) (errored ''x''), skipped_after 0 (?txs ! 1)]"
  let ?opts = "\<lparr> so_pollIntervalMs = None, so_maxPollAttempts = None, so_sign = True, so_signal = False, so_dryRun = False, so_throwOnError = True \<rparr>"
  have s: "stops_at sample_outside ?opts ?txs 0 (br_outcomes (submit_result (Some 0, ?outs, ?outs))) (Some 0)"
    by (simp add: stops_at_def submit_result_def Let_def outcome_of_turn_def skipped_after_def errored_def)
  show ?thesis
    by (rule exI [of _ ?outs], rule failed_operations_omit_skipped [OF s, of "[''a'', ''b'']", THEN conjunct1, THEN trans])
       (simp_all add: submit_result_def Let_def outcome_of_turn_def skipped_after_def errored_def upt_rec)
qed

end
