(* ===== verification/Events.thy ===== *)
theory Events
  imports Factory
begin

text \<open>
  Events of stream contracts (src/events.ts, with the event types of src/types/index.ts and the
  LedgerGapDetector of src/indexer.ts): decoding, deduplication, the polling subscription as a
  state machine, paged history and the replay of a ledger range.
\<close>

section \<open>Decoded events\<close>

record WithdrawEvent = we_recipient :: string  we_amount :: int  we_totalWithdrawn :: int  we_remaining :: int  we_sequence :: "int option"
record CancelEvent = ce_sender :: string  ce_refundAmount :: int  ce_withdrawnSoFar :: int  ce_sequence :: "int option"
record PauseEvent = pv_sender :: string  pv_pausedAt :: int  pv_withdrawable :: int  pv_sequence :: "int option"
record ResumeEvent = re_sender :: string  re_resumedAt :: int  re_sequence :: "int option"
record StreamTopUpEvent = te_sender :: string  te_amount :: int  te_newBalance :: int  te_sequence :: "int option"
record StreamClawbackedEvent = cl_sender :: string  cl_amount :: int  cl_sequence :: "int option"
record CreatedEvent =
  cr_sender :: string
  cr_recipient :: string
  cr_token :: string
  cr_depositAmount :: int
  cr_ratePerSecond :: int
  cr_startTime :: int
  cr_endTime :: int
  cr_sequence :: "int option"
record ForceCancelEvent = fc_recipient :: string  fc_payoutAmount :: int  fc_refundAmount :: int  fc_sequence :: "int option"
record RecipientTransferEvent = rt_previousRecipient :: string  rt_newRecipient :: string  rt_sequence :: "int option"
record OperatorSetEvent = os_sender :: string  os_operator :: string  os_sequence :: "int option"
record OperatorRevokedEvent = or_sender :: string  or_operator :: string  or_sequence :: "int option"

datatype StreamEvent =
    EvCreated CreatedEvent
  | EvWithdrawn WithdrawEvent
  | EvToppedUp StreamTopUpEvent
  | EvPaused PauseEvent
  | EvResumed ResumeEvent
  | EvCancelled CancelEvent
  | EvClawback StreamClawbackedEvent
  | EvForceCancelled ForceCancelEvent
  | EvRecipientTransferred RecipientTransferEvent
  | EvOperatorSet OperatorSetEvent
  | EvOperatorRevoked OperatorRevokedEvent

text \<open>The topic an event is published under.\<close>

fun topic_of :: "StreamEvent \<Rightarrow> string" where
  "topic_of (EvWithdrawn _) = ''withdrawn''"
| "topic_of (EvCancelled _) = ''cancelled''"
| "topic_of (EvPaused _) = ''paused''"
| "topic_of (EvResumed _) = ''resumed''"
| "topic_of (EvToppedUp _) = ''topped_up''"
| "topic_of (EvClawback _) = ''clawback''"
| "topic_of (EvCreated _) = ''created''"
| "topic_of (EvForceCancelled _) = ''force_cxl''"
| "topic_of (EvRecipientTransferred _) = ''xfer_rec''"
| "topic_of (EvOperatorSet _) = ''set_op''"
| "topic_of (EvOperatorRevoked _) = ''rm_op''"

section \<open>Raw events and their fields\<close>

text \<open>
  An event as the node returns it.  A ledger that is not a number is None, an absent id is the
  empty string (both are falsy in the code).
\<close>

record event_response =
  ev_id :: string
  ev_ledger :: "jsnum option"
  ev_topic :: "sc_val list option"
  ev_value :: sc_val
  ev_closedAt :: string
  ev_txHash :: string
  ev_pagingToken :: "string option"

definition tupleFields :: "sc_val \<Rightarrow> (thrown, sc_val list) result" where
  "tupleFields v = (case v of ScvVec fs \<Rightarrow> Inr (given_or [] fs) | _ \<Rightarrow> Inl (arm_not_set ''vec''))"

definition i128Field :: "sc_val list \<Rightarrow> nat \<Rightarrow> (thrown, int) result" where
  "i128Field fs i = (if i < length fs then scValToI128 (fs ! i) else Inr 0)"

definition u64Field :: "sc_val list \<Rightarrow> nat \<Rightarrow> (thrown, int) result" where
  "u64Field fs i = (if i < length fs then scValToU64 (fs ! i) else Inr 0)"

definition addressField :: "outside \<Rightarrow> sc_val option \<Rightarrow> string" where
  "addressField env v = (case v of None \<Rightarrow> [] | Some x \<Rightarrow> (case address_fromScVal env x of Inr a \<Rightarrow> a | Inl _ \<Rightarrow> []))"

definition field_at :: "sc_val list \<Rightarrow> nat \<Rightarrow> sc_val option" where
  "field_at fs i = (if i < length fs then Some (fs ! i) else None)"

definition addressFieldAt :: "outside \<Rightarrow> sc_val list \<Rightarrow> nat \<Rightarrow> string" where
  "addressFieldAt env fs i = addressField env (field_at fs i)"

definition topic_sequence :: "sc_val list \<Rightarrow> (thrown, int option) result" where
  "topic_sequence topics = (if length topics < 3 then Inr None else result_bind (scValToU64 (topics ! 2)) (\<lambda>n. Inr (Some n)))"

definition sequenceOf :: "event_response \<Rightarrow> (thrown, int option) result" where
  "sequenceOf ev = (case ev_topic ev of None \<Rightarrow> Inr None | Some topics \<Rightarrow> topic_sequence topics)"

definition topic_name :: "sc_val list \<Rightarrow> (thrown, string) result" where
  "topic_name topics = (case topics of [] \<Rightarrow> Inr [] | ScvSymbol s # _ \<Rightarrow> Inr s | _ \<Rightarrow> Inl (arm_not_set ''sym''))"

section \<open>Dispatch\<close>

text \<open>
  The handlers of a subscriber: which topics have one, and what a handler raises.  The
  remaining options are those of a subscription.
\<close>

record StreamEventHandlers =
  handles :: "string \<Rightarrow> bool"
  handler_throws :: "StreamEvent \<Rightarrow> thrown option"
  h_pollInterval :: "int option"
  h_dedupWindowSize :: "int option"
  h_maxBackoffMs :: "int option"
  h_maxConsecutiveFailures :: "int option"

definition decode_payload ::
    "outside \<Rightarrow> string \<Rightarrow> string \<Rightarrow> int option \<Rightarrow> sc_val \<Rightarrow> (thrown, StreamEvent option) result" where
  "decode_payload env name actor sq v =
    (if name = ''withdrawn'' then
       result_bind (tupleFields v) (\<lambda>fs. result_bind (i128Field fs 0) (\<lambda>a. result_bind (i128Field fs 1) (\<lambda>t. result_bind (i128Field fs 2) (\<lambda>r.
       Inr (Some (EvWithdrawn \<lparr> we_recipient = actor, we_amount = a, we_totalWithdrawn = t, we_remaining = r, we_sequence = sq \<rparr>))))))
     else if name = ''cancelled'' then
       result_bind (tupleFields v) (\<lambda>fs. result_bind (i128Field fs 0) (\<lambda>a. result_bind (i128Field fs 1) (\<lambda>t.
       Inr (Some (EvCancelled \<lparr> ce_sender = actor, ce_refundAmount = a, ce_withdrawnSoFar = t, ce_sequence = sq \<rparr>)))))
     else if name = ''paused'' then
       result_bind (tupleFields v) (\<lambda>fs. result_bind (u64Field fs 0) (\<lambda>a. result_bind (i128Field fs 1) (\<lambda>t.
       Inr (Some (EvPaused \<lparr> pv_sender = actor, pv_pausedAt = a, pv_withdrawable = t, pv_sequence = sq \<rparr>)))))
     else if name = ''resumed'' then
       result_bind (scValToU64 v) (\<lambda>a. Inr (Some (EvResumed \<lparr> re_sender = actor, re_resumedAt = a, re_sequence = sq \<rparr>)))
     else if name = ''topped_up'' then
       result_bind (tupleFields v) (\<lambda>fs. result_bind (i128Field fs 0) (\<lambda>a. result_bind (i128Field fs 1) (\<lambda>t.
       Inr (Some (EvToppedUp \<lparr> te_sender = actor, te_amount = a, te_newBalance = t, te_sequence = sq \<rparr>)))))
     else if name = ''clawback'' then
       result_bind (scValToI128 v) (\<lambda>a. Inr (Some (EvClawback \<lparr> cl_sender = actor, cl_amount = a, cl_sequence = sq \<rparr>)))
     else if name = ''created'' then
       result_bind (tupleFields v) (\<lambda>fs. result_bind (i128Field fs 2) (\<lambda>d. result_bind (i128Field fs 3) (\<lambda>r.
       result_bind (u64Field fs 4) (\<lambda>st. result_bind (u64Field fs 5) (\<lambda>en.
       Inr (Some (EvCreated \<lparr> cr_sender = actor, cr_recipient = addressFieldAt env fs 0, cr_token = addressFieldAt env fs 1,
         cr_depositAmount = d, cr_ratePerSecond = r, cr_startTime = st, cr_endTime = en, cr_sequence = sq \<rparr>)))))))
     else if name = ''force_cxl'' then
       result_bind (tupleFields v) (\<lambda>fs. result_bind (i128Field fs 0) (\<lambda>a. result_bind (i128Field fs 1) (\<lambda>t.
       Inr (Some (EvForceCancelled \<lparr> fc_recipient = actor, fc_payoutAmount = a, fc_refundAmount = t, fc_sequence = sq \<rparr>)))))
     else if name = ''xfer_rec'' then
       Inr (Some (EvRecipientTransferred \<lparr> rt_previousRecipient = actor, rt_newRecipient = addressField env (Some v), rt_sequence = sq \<rparr>))
     else if name = ''set_op'' then
       Inr (Some (EvOperatorSet \<lparr> os_sender = actor, os_operator = addressField env (Some v), os_sequence = sq \<rparr>))
     else if name = ''rm_op'' then
       Inr (Some (EvOperatorRevoked \<lparr> or_sender = actor, or_operator = addressField env (Some v), or_sequence = sq \<rparr>))
     else Inr None)"

text \<open>
  dispatchEvent: what it returns or raises, and the decoded event its handler was called with.
\<close>

definition dispatchEvent ::
    "outside \<Rightarrow> StreamEventHandlers \<Rightarrow> event_response \<Rightarrow> (thrown, int option) result \<times> StreamEvent list" where
  "dispatchEvent env H ev =
    (case ev_topic ev of
       None \<Rightarrow> (Inr None, [])
     | Some [] \<Rightarrow> (Inr None, [])
     | Some topics \<Rightarrow>
         (case topic_name topics of
            Inl e \<Rightarrow> (Inl e, [])
          | Inr name \<Rightarrow>
              (case topic_sequence topics of
                 Inl e \<Rightarrow> (Inl e, [])
               | Inr sq \<Rightarrow>
                   if \<not> handles H name then (Inr sq, [])
                   else (case decode_payload env name (addressField env (field_at topics 1)) sq (ev_value ev) of
                     Inl e \<Rightarrow> (Inl e, [])
                   | Inr None \<Rightarrow> (Inr sq, [])
                   | Inr (Some x) \<Rightarrow> (case handler_throws H x of Some e \<Rightarrow> Inl e | None \<Rightarrow> Inr sq, [x])))))"

definition dispatchIsolated :: "outside \<Rightarrow> StreamEventHandlers \<Rightarrow> event_response \<Rightarrow> int option \<times> StreamEvent list" where
  "dispatchIsolated env H ev =
    (case dispatchEvent env H ev of
       (Inr sq, out) \<Rightarrow> (sq, out)
     | (Inl _, out) \<Rightarrow> (case sequenceOf ev of Inr sq \<Rightarrow> sq | Inl _ \<Rightarrow> None, out))"

definition handlers_for :: "(string \<Rightarrow> bool) \<Rightarrow> StreamEventHandlers" where
  "handlers_for p = \<lparr> handles = p, handler_throws = (\<lambda>_. None), h_pollInterval = None, h_dedupWindowSize = None,
     h_maxBackoffMs = None, h_maxConsecutiveFailures = None \<rparr>"

definition parseStreamEvent :: "outside \<Rightarrow> event_response \<Rightarrow> (thrown, StreamEvent option) result" where
  "parseStreamEvent env ev =
    (case dispatchEvent env (handlers_for (\<lambda>_. True)) ev of
       (Inl e, _) \<Rightarrow> Inl e
     | (Inr _, []) \<Rightarrow> Inr None
     | (Inr _, x # _) \<Rightarrow> Inr (Some x))"

section \<open>Deduplication and ledger gaps\<close>

text \<open>RecentIdWindow: the ids in insertion order, oldest first.\<close>

definition recent_seen :: "int \<Rightarrow> string \<Rightarrow> string list \<Rightarrow> bool \<times> string list" where
  "recent_seen n i ids =
    (if n \<le> 0 \<or> i = [] then (False, ids)
     else if i \<in> set ids then (True, ids)
     else let added = ids @ [i] in (False, if n < int (length added) then tl added else added))"

definition DEFAULT_DEDUP_WINDOW :: int where "DEFAULT_DEDUP_WINDOW = 1000"

text \<open>LedgerGapDetector.observe: the gap found, as the ledger expected and the one observed.\<close>

definition observe_ledger :: "jsnum \<Rightarrow> int option \<Rightarrow> (thrown, (int \<times> int) option \<times> int option) result" where
  "observe_ledger l current =
    (if \<not> is_integer_num l \<or> int_of_num l < 0
     then Inl (plain_error (''LedgerGapDetector.observe: ledger must be a non-negative integer, got '' @ show_jsnum l))
     else let n = int_of_num l in
       (case current of
          None \<Rightarrow> Inr (None, Some n)
        | Some c \<Rightarrow> Inr (if n > c + 1 then Some (c + 1, n) else None, if n > c then Some n else Some c)))"

definition reset_ledger :: "int option \<Rightarrow> int option" where "reset_ledger _ = None"

section \<open>The subscription\<close>

record events_page =
  pg_events :: "event_response list"
  pg_cursor :: "string option"
  pg_latestLedger :: "int option"

text \<open>What the subscriber's handlers are called with.\<close>

datatype notice = Event_notice StreamEvent | Gap_notice int int | Ledger_gap_notice int int | Error_notice thrown

text \<open>
  Where the polling loop stands: its timer is armed with a delay, it awaits the latest ledger,
  it awaits the events, or nothing will run it again.
\<close>

datatype poll_phase = Waiting int | Seeding | Fetching | Ended

text \<open>
  The variables of subscribeToStream.  sub_replaying and sub_backfilling hold the bounds of
  the backfill whose request is in flight (isReplaying and isBackfillingLedgerGap), sub_live is
  false once unsubscribe has dropped the handlers; sub_notices, sub_requests and sub_recorded
  log the handler calls, the getEvents requests and the ids taken into the window.
\<close>

record subscription =
  sub_startLedger :: int
  sub_ledgerSeeded :: bool
  sub_cursor :: "string option"
  sub_failures :: nat
  sub_stopped :: bool
  sub_phase :: poll_phase
  sub_lastStartLedger :: int
  sub_lastSequence :: "int option"
  sub_recentIds :: "string list"
  sub_currentLedger :: "int option"
  sub_replaying :: "(int \<times> int) option"
  sub_backfilling :: "(int \<times> int) option"
  sub_live :: bool
  sub_notices :: "notice list"
  sub_requests :: "events_request list"
  sub_recorded :: "string list"

definition initial_subscription :: subscription where
  "initial_subscription = \<lparr> sub_startLedger = 0, sub_ledgerSeeded = False, sub_cursor = None, sub_failures = 0, sub_stopped = False,
     sub_phase = Ended, sub_lastStartLedger = 0, sub_lastSequence = None, sub_recentIds = [], sub_currentLedger = None,
     sub_replaying = None, sub_backfilling = None, sub_live = True, sub_notices = [], sub_requests = [], sub_recorded = [] \<rparr>"

definition pollInterval :: "StreamEventHandlers \<Rightarrow> int" where "pollInterval H = given_or 5000 (h_pollInterval H)"
definition maxBackoffMs :: "StreamEventHandlers \<Rightarrow> int" where "maxBackoffMs H = given_or 60000 (h_maxBackoffMs H)"
definition maxConsecutiveFailures :: "StreamEventHandlers \<Rightarrow> int" where
  "maxConsecutiveFailures H = given_or 10 (h_maxConsecutiveFailures H)"
definition dedupWindowSize :: "StreamEventHandlers \<Rightarrow> int" where
  "dedupWindowSize H = given_or DEFAULT_DEDUP_WINDOW (h_dedupWindowSize H)"

definition current_handlers :: "StreamEventHandlers \<Rightarrow> subscription \<Rightarrow> StreamEventHandlers" where
  "current_handlers H s = (if sub_live s then H else handlers_for (\<lambda>_. False))"

definition notify :: "notice \<Rightarrow> subscription \<Rightarrow> subscription" where
  "notify n s = (if sub_live s then s \<lparr> sub_notices := sub_notices s @ [n] \<rparr> else s)"

definition request_events :: "events_request \<Rightarrow> subscription \<Rightarrow> subscription" where
  "request_events r s = s \<lparr> sub_requests := sub_requests s @ [r] \<rparr>"

definition dispatch_live :: "outside \<Rightarrow> StreamEventHandlers \<Rightarrow> event_response \<Rightarrow> subscription \<Rightarrow> int option \<times> subscription" where
  "dispatch_live env H ev s =
    (let (sq, out) = dispatchIsolated env (current_handlers H s) ev
     in (sq, s \<lparr> sub_notices := sub_notices s @ List.map Event_notice out \<rparr>))"

definition take_id :: "StreamEventHandlers \<Rightarrow> event_response \<Rightarrow> subscription \<Rightarrow> bool \<times> subscription" where
  "take_id H ev s =
    (let (seen, ids) = recent_seen (dedupWindowSize H) (ev_id ev) (sub_recentIds s)
     in (seen, s \<lparr> sub_recentIds := ids,
           sub_recorded := sub_recorded s @ (if seen \<or> ev_id ev = [] then [] else [ev_id ev]) \<rparr>))"

text \<open>The synchronous part of replayGap and backfillLedgerGap, up to their request.\<close>

definition replayGap :: "string \<Rightarrow> int \<Rightarrow> int \<Rightarrow> subscription \<Rightarrow> subscription" where
  "replayGap addr expected actual s =
    (if sub_replaying s \<noteq> None \<or> sub_lastStartLedger s \<le> 0 then s
     else request_events (Events_from_ledger (sub_lastStartLedger s) addr 200) (s \<lparr> sub_replaying := Some (expected, actual) \<rparr>))"

definition backfillLedgerGap :: "string \<Rightarrow> int \<times> int \<Rightarrow> subscription \<Rightarrow> subscription" where
  "backfillLedgerGap addr gap s =
    (if sub_backfilling s \<noteq> None then s
     else request_events (Events_from_ledger (fst gap) addr 200) (s \<lparr> sub_backfilling := Some gap \<rparr>))"

text \<open>One event of a poll: what escapes, and the state it leaves.\<close>

definition watch_ledger :: "string \<Rightarrow> event_response \<Rightarrow> subscription \<Rightarrow> thrown option \<times> subscription" where
  "watch_ledger addr ev s =
    (case ev_ledger ev of
       None \<Rightarrow> (None, s)
     | Some l \<Rightarrow>
         (case observe_ledger l (sub_currentLedger s) of
            Inl e \<Rightarrow> (Some e, s)
          | Inr (None, cur) \<Rightarrow> (None, s \<lparr> sub_currentLedger := cur \<rparr>)
          | Inr (Some gap, cur) \<Rightarrow>
              (None, backfillLedgerGap addr gap (notify (Ledger_gap_notice (fst gap) (snd gap)) (s \<lparr> sub_currentLedger := cur \<rparr>)))))"

definition watch_sequence :: "string \<Rightarrow> int option \<Rightarrow> subscription \<Rightarrow> subscription" where
  "watch_sequence addr sq s =
    (case sq of
       None \<Rightarrow> s
     | Some q \<Rightarrow>
         (let s' = (case sub_lastSequence s of
                      Some p \<Rightarrow> if q \<noteq> p + 1 then replayGap addr p q (notify (Gap_notice (p + 1) q) s) else s
                    | None \<Rightarrow> s)
          in s' \<lparr> sub_lastSequence := Some q \<rparr>))"

definition poll_event :: "outside \<Rightarrow> StreamEventHandlers \<Rightarrow> string \<Rightarrow> event_response \<Rightarrow> subscription \<Rightarrow> thrown option \<times> subscription" where
  "poll_event env H addr ev s =
    (case watch_ledger addr ev s of
       (Some e, s1) \<Rightarrow> (Some e, s1)
     | (None, s1) \<Rightarrow>
         (case take_id H ev s1 of
            (True, s2) \<Rightarrow> (None, s2)
          | (False, s2) \<Rightarrow> (let (sq, s3) = dispatch_live env H ev s2 in (None, watch_sequence addr sq s3))))"

fun poll_events :: "outside \<Rightarrow> StreamEventHandlers \<Rightarrow> string \<Rightarrow> event_response list \<Rightarrow> subscription \<Rightarrow> thrown option \<times> subscription" where
  "poll_events env H addr [] s = (None, s)"
| "poll_events env H addr (ev # evs) s =
    (case poll_event env H addr ev s of (Some e, s1) \<Rightarrow> (Some e, s1) | (None, s1) \<Rightarrow> poll_events env H addr evs s1)"

definition poll_delay :: "StreamEventHandlers \<Rightarrow> nat \<Rightarrow> int" where
  "poll_delay H k = (if k > 0 then min (pollInterval H * 2 ^ (k - 1)) (maxBackoffMs H) else pollInterval H)"

definition schedule :: "StreamEventHandlers \<Rightarrow> subscription \<Rightarrow> subscription" where
  "schedule H s = s \<lparr> sub_phase := (if sub_stopped s then Ended else Waiting (poll_delay H (sub_failures s))) \<rparr>"

definition poll_failed :: "StreamEventHandlers \<Rightarrow> thrown \<Rightarrow> subscription \<Rightarrow> subscription" where
  "poll_failed H e s =
    (let s1 = notify (Error_notice e) (s \<lparr> sub_failures := sub_failures s + 1 \<rparr>) in
     if int (sub_failures s1) \<ge> maxConsecutiveFailures H then s1 \<lparr> sub_stopped := True, sub_phase := Ended \<rparr>
     else schedule H s1)"

definition poll_request :: "string \<Rightarrow> subscription \<Rightarrow> events_request" where
  "poll_request addr s =
    (if given_or [] (sub_cursor s) \<noteq> [] then Events_at_cursor (given_or [] (sub_cursor s)) addr 100
     else Events_from_ledger (sub_startLedger s) addr 100)"

definition fetch_events :: "string \<Rightarrow> subscription \<Rightarrow> subscription" where
  "fetch_events addr s = (request_events (poll_request addr s) s) \<lparr> sub_phase := Fetching \<rparr>"

text \<open>poll, cut at its two awaits.\<close>

definition poll_begin :: "string \<Rightarrow> subscription \<Rightarrow> subscription" where
  "poll_begin addr s =
    (if sub_stopped s then s \<lparr> sub_phase := Ended \<rparr>
     else if \<not> sub_ledgerSeeded s \<and> given_or [] (sub_cursor s) = [] then s \<lparr> sub_phase := Seeding \<rparr>
     else fetch_events addr s)"

definition seed_settle :: "StreamEventHandlers \<Rightarrow> string \<Rightarrow> (thrown, int) result \<Rightarrow> subscription \<Rightarrow> subscription" where
  "seed_settle H addr r s =
    (case r of
       Inl e \<Rightarrow> poll_failed H e s
     | Inr n \<Rightarrow> fetch_events addr (s \<lparr> sub_startLedger := n, sub_lastStartLedger := n, sub_ledgerSeeded := True \<rparr>))"

definition advance :: "events_page \<Rightarrow> subscription \<Rightarrow> subscription" where
  "advance page s =
    (if given_or [] (pg_cursor page) \<noteq> [] then s \<lparr> sub_cursor := pg_cursor page \<rparr>
     else (case pg_latestLedger page of
             None \<Rightarrow> s \<lparr> sub_cursor := None \<rparr>
           | Some n \<Rightarrow> s \<lparr> sub_cursor := None, sub_startLedger := n + 1, sub_lastStartLedger := n \<rparr>))"

definition fetch_settle ::
    "outside \<Rightarrow> StreamEventHandlers \<Rightarrow> string \<Rightarrow> (thrown, events_page) result \<Rightarrow> subscription \<Rightarrow> subscription" where
  "fetch_settle env H addr r s =
    (case r of
       Inl e \<Rightarrow> poll_failed H e s
     | Inr page \<Rightarrow>
         (case poll_events env H addr (pg_events page) (s \<lparr> sub_failures := 0 \<rparr>) of
            (Some e, s1) \<Rightarrow> poll_failed H e s1
          | (None, s1) \<Rightarrow> schedule H ((advance page s1) \<lparr> sub_failures := 0 \<rparr>)))"

text \<open>The rest of the backfills, when their request is answered.\<close>

fun dispatch_missed :: "outside \<Rightarrow> StreamEventHandlers \<Rightarrow> event_response list \<Rightarrow> subscription \<Rightarrow> subscription" where
  "dispatch_missed env H [] s = s"
| "dispatch_missed env H (ev # evs) s =
    (case take_id H ev s of
       (True, s1) \<Rightarrow> dispatch_missed env H evs s1
     | (False, s1) \<Rightarrow> dispatch_missed env H evs (snd (dispatch_live env H ev s1)))"

fun sequences_of :: "event_response list \<Rightarrow> (thrown, (event_response \<times> int option) list) result" where
  "sequences_of [] = Inr []"
| "sequences_of (ev # evs) = result_bind (sequenceOf ev) (\<lambda>q. result_bind (sequences_of evs) (\<lambda>rest. Inr ((ev, q) # rest)))"

definition missed_between :: "int \<Rightarrow> int \<Rightarrow> event_response list \<Rightarrow> (thrown, event_response list) result" where
  "missed_between expected actual evs =
    result_bind (sequences_of evs) (\<lambda>items.
      Inr (List.map fst (sort_key (\<lambda>i. given_or 0 (snd i))
        (filter (\<lambda>i. case snd i of None \<Rightarrow> False | Some q \<Rightarrow> q > expected \<and> q < actual) items))))"

definition replay_settle ::
    "outside \<Rightarrow> StreamEventHandlers \<Rightarrow> int \<times> int \<Rightarrow> (thrown, events_page) result \<Rightarrow> subscription \<Rightarrow> subscription" where
  "replay_settle env H gap r s =
    (case result_bind r (\<lambda>page. missed_between (fst gap) (snd gap) (pg_events page)) of
       Inl _ \<Rightarrow> s
     | Inr missed \<Rightarrow> dispatch_missed env H missed s) \<lparr> sub_replaying := None \<rparr>"

definition ledger_below :: "int \<Rightarrow> event_response \<Rightarrow> bool" where
  "ledger_below n ev = (case ev_ledger ev of Some (Num q) \<Rightarrow> q < of_int n | Some NegInfinity \<Rightarrow> True | _ \<Rightarrow> False)"

definition backfill_settle ::
    "outside \<Rightarrow> StreamEventHandlers \<Rightarrow> int \<times> int \<Rightarrow> (thrown, events_page) result \<Rightarrow> subscription \<Rightarrow> subscription" where
  "backfill_settle env H gap r s =
    (case r of
       Inl _ \<Rightarrow> s
     | Inr page \<Rightarrow> dispatch_missed env H (filter (ledger_below (snd gap)) (pg_events page)) s) \<lparr> sub_backfilling := None \<rparr>"

definition unsubscribe :: "subscription \<Rightarrow> subscription" where
  "unsubscribe s = s \<lparr> sub_stopped := True, sub_live := False,
     sub_phase := (case sub_phase s of Waiting _ \<Rightarrow> Ended | p \<Rightarrow> p) \<rparr>"

text \<open>
  The steps of a subscription: its timer fires, a request is answered in whatever way, or the
  subscriber leaves.  Nothing is assumed of their order or of the answers.
\<close>

inductive sub_step :: "outside \<Rightarrow> StreamEventHandlers \<Rightarrow> string \<Rightarrow> subscription \<Rightarrow> subscription \<Rightarrow> bool"
  for env H addr where
  timer: "sub_phase s = Waiting d \<Longrightarrow> sub_step env H addr s (poll_begin addr s)"
| seeded: "sub_phase s = Seeding \<Longrightarrow> sub_step env H addr s (seed_settle H addr r s)"
| fetched: "sub_phase s = Fetching \<Longrightarrow> sub_step env H addr s (fetch_settle env H addr p s)"
| replayed: "sub_replaying s = Some gap \<Longrightarrow> sub_step env H addr s (replay_settle env H gap p s)"
| backfilled: "sub_backfilling s = Some gap \<Longrightarrow> sub_step env H addr s (backfill_settle env H gap p s)"
| unsubscribed: "sub_step env H addr s (unsubscribe s)"

inductive subscribed :: "outside \<Rightarrow> StreamEventHandlers \<Rightarrow> string \<Rightarrow> subscription \<Rightarrow> bool"
  for env H addr where
  start: "subscribed env H addr (poll_begin addr initial_subscription)"
| step: "subscribed env H addr s \<Longrightarrow> sub_step env H addr s t \<Longrightarrow> subscribed env H addr t"

section \<open>History\<close>

text \<open>What the node answers to a getEvents request is an argument, like the other replies.\<close>

type_synonym events_node = "nat \<Rightarrow> events_request \<Rightarrow> (rpc_failure, events_page) result"

definition getEvents :: "outside \<Rightarrow> events_node \<Rightarrow> string \<Rightarrow> events_request \<Rightarrow> ('z rpc_world_scheme, events_page) io" where
  "getEvents env node url req = proxied_call env url (Get_events req) (\<lambda>n. node n req)"

definition latest_sequence :: "outside \<Rightarrow> string \<Rightarrow> ('z rpc_world_scheme, int) io" where
  "latest_sequence env url =
    io_bind (proxied_call env url Get_latest_ledger (\<lambda>n. ledger_reply_at env n)) (\<lambda>l. io_return (l_sequence l))"

definition DEFAULT_HISTORY_LOOKBACK_LEDGERS :: int where "DEFAULT_HISTORY_LOOKBACK_LEDGERS = 120000"
definition DEFAULT_HISTORY_PAGE_SIZE :: int where "DEFAULT_HISTORY_PAGE_SIZE = 50"
definition MAX_HISTORY_PAGE_SIZE :: int where "MAX_HISTORY_PAGE_SIZE = 200"

text \<open>An entry of the history; its kind is the constructor of its event.\<close>

record StreamHistoryEntry =
  he_id :: string
  he_ledger :: "jsnum option"
  he_timestamp :: string
  he_txHash :: string
  he_event :: StreamEvent

record StreamHistoryPage =
  hp_entries :: "StreamHistoryEntry list"
  hp_nextCursor :: "string option"

record StreamEventFilter =
  f_recipient :: "string option"
  f_sender :: "string option"
  f_streamId :: "string option"

text \<open>The sender and the recipient of an entry.\<close>

fun actorAddressesOf :: "StreamEvent \<Rightarrow> string option \<times> string option" where
  "actorAddressesOf (EvCreated e) = (Some (cr_sender e), Some (cr_recipient e))"
| "actorAddressesOf (EvWithdrawn e) = (None, Some (we_recipient e))"
| "actorAddressesOf (EvToppedUp e) = (Some (te_sender e), None)"
| "actorAddressesOf (EvPaused e) = (Some (pv_sender e), None)"
| "actorAddressesOf (EvResumed e) = (Some (re_sender e), None)"
| "actorAddressesOf (EvCancelled e) = (Some (ce_sender e), None)"
| "actorAddressesOf (EvClawback e) = (Some (cl_sender e), None)"
| "actorAddressesOf _ = (None, None)"

text \<open>A set field of the filter must equal what the entry has; no entry has a streamId.\<close>

definition admits :: "string option \<Rightarrow> string option \<Rightarrow> bool" where
  "admits wanted found = (wanted = None \<or> found = wanted)"

definition matchesStreamEventFilter :: "StreamHistoryEntry \<Rightarrow> StreamEventFilter \<Rightarrow> bool" where
  "matchesStreamEventFilter entry f =
    (let (from_a, to_a) = actorAddressesOf (he_event entry) in
     if \<not> admits (f_sender f) from_a then False
     else if \<not> admits (f_recipient f) to_a then False
     else admits (f_streamId f) None)"

definition filterStreamEvents :: "StreamHistoryEntry list \<Rightarrow> StreamEventFilter \<Rightarrow> StreamHistoryEntry list" where
  "filterStreamEvents entries f = filter (\<lambda>e. matchesStreamEventFilter e f) entries"

definition history_topics :: "string list" where
  "history_topics = [''created'', ''withdrawn'', ''topped_up'', ''paused'', ''resumed'', ''cancelled'', ''clawback'']"

definition history_entry :: "outside \<Rightarrow> event_response \<Rightarrow> StreamHistoryEntry option" where
  "history_entry env raw =
    (case snd (dispatchEvent env (handlers_for (\<lambda>t. t \<in> set history_topics)) raw) of
       [] \<Rightarrow> None
     | e # _ \<Rightarrow> Some \<lparr> he_id = ev_id raw, he_ledger = ev_ledger raw, he_timestamp = ev_closedAt raw, he_txHash = ev_txHash raw, he_event = e \<rparr>)"

record StreamHistoryOptions =
  ho_cursor :: "string option"
  ho_limit :: "jsnum option"
  ho_startLedger :: "int option"
  ho_filter :: "StreamEventFilter option"

definition page_limit_ok :: "jsnum \<Rightarrow> bool" where
  "page_limit_ok l = (is_integer_num l \<and> 1 \<le> int_of_num l \<and> int_of_num l \<le> MAX_HISTORY_PAGE_SIZE)"

definition history_request :: "outside \<Rightarrow> string \<Rightarrow> string \<Rightarrow> StreamHistoryOptions \<Rightarrow> int \<Rightarrow> ('z rpc_world_scheme, events_request) io" where
  "history_request env url addr options limit =
    (if given_or [] (ho_cursor options) \<noteq> [] then io_return (Events_at_cursor (given_or [] (ho_cursor options)) addr limit)
     else case ho_startLedger options of
       Some n \<Rightarrow> io_return (Events_from_ledger n addr limit)
     | None \<Rightarrow> io_bind (latest_sequence env url) (\<lambda>n.
         io_return (Events_from_ledger (max 1 (n - DEFAULT_HISTORY_LOOKBACK_LEDGERS)) addr limit)))"

definition history_page :: "outside \<Rightarrow> StreamEventFilter option \<Rightarrow> int \<Rightarrow> events_page \<Rightarrow> StreamHistoryPage" where
  "history_page env flt limit response =
    (let entries = List.map_filter (history_entry env) (pg_events response);
         kept = (case flt of None \<Rightarrow> entries | Some f \<Rightarrow> filterStreamEvents entries f);
         token = (if pg_events response = [] then None else ev_pagingToken (last (pg_events response)));
         next = (case pg_cursor response of Some c \<Rightarrow> Some c | None \<Rightarrow> token)
     in \<lparr> hp_entries = kept, hp_nextCursor = (if int (length (pg_events response)) \<ge> limit then next else None) \<rparr>)"

definition getStreamHistory ::
    "outside \<Rightarrow> events_node \<Rightarrow> string \<Rightarrow> string \<Rightarrow> StreamHistoryOptions \<Rightarrow> ('z rpc_world_scheme, StreamHistoryPage) io" where
  "getStreamHistory env node url addr options =
    (let limit = given_or (Num (of_int DEFAULT_HISTORY_PAGE_SIZE)) (ho_limit options) in
     io_bind (io_guard (page_limit_ok limit) (plain_error (''limit must be an integer between 1 and '' @ show_int MAX_HISTORY_PAGE_SIZE))) (\<lambda>_.
     io_bind (history_request env url addr options (int_of_num limit)) (\<lambda>req.
     io_bind (getEvents env node url req) (\<lambda>response.
     io_return (history_page env (ho_filter options) (int_of_num limit) response)))))"

section \<open>Replay of a ledger range\<close>

definition DEFAULT_REPLAY_PAGE_SIZE :: int where "DEFAULT_REPLAY_PAGE_SIZE = 200"
definition DEFAULT_REPLAY_MAX_PAGES :: int where "DEFAULT_REPLAY_MAX_PAGES = 1000"

record ReplayEventsOptions =
  ro_toLedger :: "jsnum option"
  ro_pageSize :: "jsnum option"
  ro_maxPages :: "int option"

text \<open>The running totals of a replay; rp_seen holds the ids already dispatched.\<close>

record replay_state =
  rp_seen :: "string list"
  rp_dispatched :: nat
  rp_lastLedger :: "jsnum option"

text \<open>The world with what the replay gave to the handlers.\<close>

record events_world = rpc_world +
  given_events :: "event_response list"
  delivered_events :: "StreamEvent list"

definition ledger_above :: "int \<Rightarrow> event_response \<Rightarrow> bool" where
  "ledger_above n ev = (case ev_ledger ev of Some (Num q) \<Rightarrow> q > of_int n | Some Infinity \<Rightarrow> True | _ \<Rightarrow> False)"

definition replay_dispatch :: "outside \<Rightarrow> StreamEventHandlers \<Rightarrow> event_response \<Rightarrow> ('z events_world_scheme, unit) io" where
  "replay_dispatch env H ev = io_modify (\<lambda>w. w \<lparr> given_events := given_events w @ [ev],
     delivered_events := delivered_events w @ snd (dispatchIsolated env H ev) \<rparr>)"

text \<open>The events of one page, up to the first one past the range.\<close>

fun replay_page ::
    "outside \<Rightarrow> StreamEventHandlers \<Rightarrow> int \<Rightarrow> event_response list \<Rightarrow> replay_state \<Rightarrow> ('z events_world_scheme, bool \<times> replay_state) io" where
  "replay_page env H till [] st = io_return (False, st)"
| "replay_page env H till (ev # evs) st =
    (if ledger_above till ev then io_return (True, st)
     else if ev_id ev \<in> set (rp_seen st) then replay_page env H till evs st
     else io_bind (replay_dispatch env H ev) (\<lambda>_.
       replay_page env H till evs \<lparr> rp_seen = rp_seen st @ [ev_id ev], rp_dispatched = rp_dispatched st + 1, rp_lastLedger = ev_ledger ev \<rparr>))"

text \<open>The page loop, on the pages left.\<close>

fun replay_loop ::
    "outside \<Rightarrow> events_node \<Rightarrow> StreamEventHandlers \<Rightarrow> string \<Rightarrow> string \<Rightarrow> int \<Rightarrow> int \<Rightarrow> int \<Rightarrow> int \<Rightarrow> string option \<Rightarrow> replay_state \<Rightarrow> nat
      \<Rightarrow> ('z events_world_scheme, replay_state) io" where
  "replay_loop env node H url addr fromLedger till pageSize maxPages cur st 0 =
    io_throw (plain_error (''replayEvents: exceeded maxPages ('' @ show_int maxPages @ '') before reaching toLedger '' @ show_int till))"
| "replay_loop env node H url addr fromLedger till pageSize maxPages cur st (Suc left) =
    io_bind (getEvents env node url
      (case cur of Some c \<Rightarrow> Events_at_cursor c addr pageSize | None \<Rightarrow> Events_from_ledger fromLedger addr pageSize)) (\<lambda>page.
    io_bind (replay_page env H till (pg_events page) st) (\<lambda>r.
    if fst r \<or> given_or [] (pg_cursor page) = [] \<or> int (length (pg_events page)) < pageSize then io_return (snd r)
    else replay_loop env node H url addr fromLedger till pageSize maxPages (pg_cursor page) (snd r) left))"

definition replay_to_ok :: "jsnum \<Rightarrow> jsnum option \<Rightarrow> bool" where
  "replay_to_ok fromLedger till =
    (case till of None \<Rightarrow> True | Some t \<Rightarrow> is_integer_num t \<and> int_of_num t \<ge> int_of_num fromLedger)"

definition replayEvents ::
    "outside \<Rightarrow> events_node \<Rightarrow> StreamEventHandlers \<Rightarrow> string \<Rightarrow> string \<Rightarrow> jsnum \<Rightarrow> ReplayEventsOptions
      \<Rightarrow> ('z events_world_scheme, nat \<times> jsnum option) io" where
  "replayEvents env node H url addr fromLedger options =
    (let pageSize = given_or (Num (of_int DEFAULT_REPLAY_PAGE_SIZE)) (ro_pageSize options);
         maxPages = given_or DEFAULT_REPLAY_MAX_PAGES (ro_maxPages options)
     in
     io_bind (io_guard (is_integer_num fromLedger \<and> int_of_num fromLedger \<ge> 1)
       (plain_error (''fromLedger must be a positive integer, got '' @ show_jsnum fromLedger))) (\<lambda>_.
     io_bind (io_guard (replay_to_ok fromLedger (ro_toLedger options))
       (plain_error (''toLedger must be an integer >= fromLedger, got '' @ show_jsnum (given_or NaN (ro_toLedger options))))) (\<lambda>_.
     io_bind (io_guard (page_limit_ok pageSize)
       (plain_error (''pageSize must be an integer between 1 and '' @ show_int MAX_HISTORY_PAGE_SIZE @ '', got '' @ show_jsnum pageSize))) (\<lambda>_.
     io_bind (case ro_toLedger options of Some t \<Rightarrow> io_return (int_of_num t) | None \<Rightarrow> latest_sequence env url) (\<lambda>till.
     io_bind (replay_loop env node H url addr (int_of_num fromLedger) till (int_of_num pageSize) maxPages None
       \<lparr> rp_seen = [], rp_dispatched = 0, rp_lastLedger = None \<rparr> (nat maxPages)) (\<lambda>st.
     io_return (rp_dispatched st, rp_lastLedger st)))))))"

section \<open>The cliff timer\<close>

text \<open>
  onStreamEvent for CliffReached: a check at a time in seconds either fires the callback once,
  re-arms the timer or does nothing any more.
\<close>

record cliff_listener =
  cliff_stopped :: bool
  cliff_fired :: nat
  cliff_armed :: bool

definition new_cliff_listener :: "jsnum option \<Rightarrow> (thrown, cliff_listener) result" where
  "new_cliff_listener cliffTime =
    (if (case cliffTime of None \<Rightarrow> True | Some t \<Rightarrow> \<not> is_finite_num t)
     then Inl (plain_error (''onStreamEvent('' @ [char_of (39 :: nat)] @ ''CliffReached'' @ [char_of (39 :: nat)] @ '', ...) requires options.cliffTime''))
     else Inr \<lparr> cliff_stopped = False, cliff_fired = 0, cliff_armed = False \<rparr>)"

definition cliff_check :: "rat \<Rightarrow> int \<Rightarrow> cliff_listener \<Rightarrow> cliff_listener" where
  "cliff_check cliffTime nowMs s =
    (if cliff_stopped s \<or> cliff_fired s > 0 then s \<lparr> cliff_armed := False \<rparr>
     else if of_int (nowMs div 1000) \<ge> cliffTime then s \<lparr> cliff_fired := cliff_fired s + 1, cliff_armed := False \<rparr>
     else s \<lparr> cliff_armed := True \<rparr>)"

definition cliff_unsubscribe :: "cliff_listener \<Rightarrow> cliff_listener" where
  "cliff_unsubscribe s = s \<lparr> cliff_stopped := True, cliff_armed := False \<rparr>"

end
