(* ===== verification/Event_Properties.thy ===== *)
theory Event_Properties
  imports Events
begin

text \<open>
  Properties of events: decoding is typed, a poll is deduplication followed by dispatch, the
  window spaces repeated ids apart, polling ends only where it should and says nothing after
  unsubscribe, and a replay gives every event of its range once.
\<close>

section \<open>Decoding\<close>

definition is_i128 :: "int \<Rightarrow> bool" where "is_i128 n = (- (2 ^ 127) \<le> n \<and> n < 2 ^ 127)"
definition is_u64 :: "int \<Rightarrow> bool" where "is_u64 n = (0 \<le> n \<and> n < 2 ^ 64)"

definition sequence_typed :: "int option \<Rightarrow> bool" where
  "sequence_typed sq = (case sq of None \<Rightarrow> True | Some n \<Rightarrow> is_u64 n)"

text \<open>The ranges of the contract's types in a decoded event.\<close>

fun well_typed :: "StreamEvent \<Rightarrow> bool" where
  "well_typed (EvWithdrawn e) = (is_i128 (we_amount e) \<and> is_i128 (we_totalWithdrawn e) \<and> is_i128 (we_remaining e) \<and> sequence_typed (we_sequence e))"
| "well_typed (EvCancelled e) = (is_i128 (ce_refundAmount e) \<and> is_i128 (ce_withdrawnSoFar e) \<and> sequence_typed (ce_sequence e))"
| "well_typed (EvPaused e) = (is_u64 (pv_pausedAt e) \<and> is_i128 (pv_withdrawable e) \<and> sequence_typed (pv_sequence e))"
| "well_typed (EvResumed e) = (is_u64 (re_resumedAt e) \<and> sequence_typed (re_sequence e))"
| "well_typed (EvToppedUp e) = (is_i128 (te_amount e) \<and> is_i128 (te_newBalance e) \<and> sequence_typed (te_sequence e))"
| "well_typed (EvClawback e) = (is_i128 (cl_amount e) \<and> sequence_typed (cl_sequence e))"
| "well_typed (EvCreated e) = (is_i128 (cr_depositAmount e) \<and> is_i128 (cr_ratePerSecond e) \<and> is_u64 (cr_startTime e) \<and> is_u64 (cr_endTime e) \<and>
    sequence_typed (cr_sequence e))"
| "well_typed (EvForceCancelled e) = (is_i128 (fc_payoutAmount e) \<and> is_i128 (fc_refundAmount e) \<and> sequence_typed (fc_sequence e))"
| "well_typed (EvRecipientTransferred e) = sequence_typed (rt_sequence e)"
| "well_typed (EvOperatorSet e) = sequence_typed (os_sequence e)"
| "well_typed (EvOperatorRevoked e) = sequence_typed (or_sequence e)"

lemma scValToU64_typed: "scValToU64 v = Inr n \<Longrightarrow> is_u64 n"
  using uint_lt2p [where 'a = 64] by (cases v) (auto simp: scValToU64_def is_u64_def)

lemma scValToI128_typed:
  assumes "scValToI128 v = Inr n"
  shows "is_i128 n"
proof -
  from assms obtain hi lo where v: "v = ScvI128 hi lo" "n = sint hi * 2 ^ 64 + uint lo"
    by (auto simp: scValToI128_def join_i128_arith split: sc_val.splits)
  have "- (2 ^ 63) \<le> sint hi" "sint hi < 2 ^ 63" using sint_range_size [of hi] by (simp_all add: word_size)
  moreover have "0 \<le> uint lo" "uint lo < 2 ^ 64" using uint_lt2p [of lo] by simp_all
  ultimately show ?thesis using join_range [of "sint hi" "uint lo"] by (simp add: v is_i128_def)
qed

lemma field_typed:
  "i128Field fs i = Inr n \<Longrightarrow> is_i128 n"
  "u64Field fs i = Inr n \<Longrightarrow> is_u64 n"
  by (auto simp: i128Field_def u64Field_def is_i128_def [of 0] is_u64_def [of 0] scValToI128_typed scValToU64_typed split: if_splits)

lemma topic_sequence_typed: "topic_sequence ts = Inr sq \<Longrightarrow> sequence_typed sq"
  by (auto simp: topic_sequence_def sequence_typed_def result_bind_Inr_iff scValToU64_typed split: if_splits)

lemma decode_payload_typed:
  "decode_payload env name actor sq v = Inr (Some x) \<Longrightarrow> sequence_typed sq \<Longrightarrow> well_typed x \<and> topic_of x = name"
  unfolding decode_payload_def
  by (auto simp: result_bind_Inr_iff scValToI128_typed scValToU64_typed field_typed split: if_splits)

lemma dispatch_delivers:
  assumes "dispatchEvent env H ev = (r, out)" "x \<in> set out"
  shows "out = [x] \<and> well_typed x \<and> handles H (topic_of x) \<and> (\<exists>rest. ev_topic ev = Some (ScvSymbol (topic_of x) # rest)) \<and>
    (handler_throws H x = None \<longrightarrow> r = sequenceOf ev)"
proof -
  from assms obtain t ts name sq where t: "ev_topic ev = Some (t # ts)" and n: "topic_name (t # ts) = Inr name"
    and s: "topic_sequence (t # ts) = Inr sq" and h: "handles H name"
    and d: "decode_payload env name (addressField env (field_at (t # ts) 1)) sq (ev_value ev) = Inr (Some x)" and o': "out = [x]"
    and r: "handler_throws H x = None \<longrightarrow> r = Inr sq"
    by (auto simp: dispatchEvent_def split: option.splits list.splits sum.splits if_splits)
  have "t = ScvSymbol name" using n by (auto simp: topic_name_def split: sc_val.splits)
  moreover have "well_typed x" "topic_of x = name" using decode_payload_typed [OF d topic_sequence_typed [OF s]] by auto
  ultimately show ?thesis using t h o' r s by (simp add: sequenceOf_def)
qed


definition sample_event :: "string \<Rightarrow> int \<Rightarrow> int \<Rightarrow> event_response" where
  "sample_event i ledger sq = \<lparr> ev_id = i, ev_ledger = Some (Num (of_int ledger)),
     ev_topic = Some [ScvSymbol ''withdrawn'', ScvAddress ''GA'', ScvU64 (word_of_int sq)],
     ev_value = ScvVec (Some [ScvI128 0 5, ScvI128 0 6, ScvI128 0 7]), ev_closedAt = ''now'', ev_txHash = ''h'', ev_pagingToken = None \<rparr>"

lemma parse_sample:
  "parseStreamEvent sample_outside (sample_event i l 3) =
    Inr (Some (EvWithdrawn \<lparr> we_recipient = ''GA'', we_amount = 5, we_totalWithdrawn = 6, we_remaining = 7, we_sequence = Some 3 \<rparr>))"
  by (simp add: parseStreamEvent_def dispatchEvent_def sample_event_def handlers_for_def topic_name_def topic_sequence_def scValToU64_def
      decode_payload_def tupleFields_def i128Field_def scValToI128_def join_i128_arith given_or_def addressField_def field_at_def
      sample_outside_def)


section \<open>What the parts of a poll leave alone\<close>

definition control :: "subscription \<Rightarrow> nat \<times> bool \<times> poll_phase \<times> bool \<times> bool \<times> string option \<times> int \<times> int" where
  "control s = (sub_failures s, sub_stopped s, sub_phase s, sub_live s, sub_ledgerSeeded s, sub_cursor s, sub_startLedger s, sub_lastStartLedger s)"

definition ids_view :: "subscription \<Rightarrow> string list \<times> string list" where
  "ids_view s = (sub_recentIds s, sub_recorded s)"

lemma notify_frame [simp]: "control (notify n s) = control s" "ids_view (notify n s) = ids_view s"
  by (simp_all add: notify_def control_def ids_view_def)

lemma request_frame [simp]: "control (request_events r s) = control s" "ids_view (request_events r s) = ids_view s"
  "sub_notices (request_events r s) = sub_notices s" "sub_live (request_events r s) = sub_live s"
  by (simp_all add: request_events_def control_def ids_view_def)

lemma replayGap_frame [simp]: "control (replayGap addr p q s) = control s" "ids_view (replayGap addr p q s) = ids_view s"
  "sub_notices (replayGap addr p q s) = sub_notices s" "sub_live (replayGap addr p q s) = sub_live s"
  by (simp_all add: replayGap_def request_events_def control_def ids_view_def)

lemma backfillLedgerGap_frame [simp]:
  "control (backfillLedgerGap addr g s) = control s" "ids_view (backfillLedgerGap addr g s) = ids_view s"
  "sub_notices (backfillLedgerGap addr g s) = sub_notices s" "sub_live (backfillLedgerGap addr g s) = sub_live s"
  "sub_lastSequence (backfillLedgerGap addr g s) = sub_lastSequence s"
  by (simp_all add: backfillLedgerGap_def request_events_def control_def ids_view_def)

lemma watch_ledger_frame [simp]:
  "control (snd (watch_ledger addr ev s)) = control s" "ids_view (snd (watch_ledger addr ev s)) = ids_view s"
  by (auto simp: watch_ledger_def control_def [of "_ \<lparr> sub_currentLedger := _ \<rparr>"] ids_view_def [of "_ \<lparr> sub_currentLedger := _ \<rparr>"]
      control_def [of s] ids_view_def [of s] split: option.split sum.split prod.split)

lemma watch_sequence_frame [simp]:
  "control (watch_sequence addr sq s) = control s" "ids_view (watch_sequence addr sq s) = ids_view s"
proof -
  have "control (t \<lparr> sub_lastSequence := x \<rparr>) = control t" "ids_view (t \<lparr> sub_lastSequence := x \<rparr>) = ids_view t" for t x
    by (simp_all add: control_def ids_view_def)
  then show "control (watch_sequence addr sq s) = control s" "ids_view (watch_sequence addr sq s) = ids_view s"
    by (simp_all add: watch_sequence_def Let_def split: option.split)
qed

lemma dispatch_live_frame [simp]:
  "control (snd (dispatch_live env H ev s)) = control s" "ids_view (snd (dispatch_live env H ev s)) = ids_view s"
  by (simp_all add: dispatch_live_def control_def ids_view_def split: prod.split)

lemma take_id_frame [simp]: "control (snd (take_id H ev s)) = control s"
  by (simp add: take_id_def control_def split: prod.split)

lemma poll_event_frame [simp]: "control (snd (poll_event env H addr ev s)) = control s"
proof -
  obtain e s1 where w: "watch_ledger addr ev s = (e, s1)" by fastforce
  obtain b s2 where t: "take_id H ev s1 = (b, s2)" by fastforce
  obtain q s3 where d: "dispatch_live env H ev s2 = (q, s3)" by fastforce
  have "control s1 = control s" "control s2 = control s1" "control s3 = control s2"
    using watch_ledger_frame(1) [of addr ev s] take_id_frame [of H ev s1] dispatch_live_frame(1) [of env H ev s2] w t d by simp_all
  then show ?thesis by (simp add: poll_event_def w t d split: option.split bool.split)
qed

lemma poll_events_frame [simp]: "control (snd (poll_events env H addr evs s)) = control s"
proof (induction evs arbitrary: s)
  case (Cons ev evs)
  obtain e s1 where p: "poll_event env H addr ev s = (e, s1)" by fastforce
  have "control s1 = control s" using poll_event_frame [of env H addr ev s] p by simp
  then show ?case using Cons by (simp add: p split: option.split)
qed simp

lemma dispatch_missed_frame [simp]: "control (dispatch_missed env H evs s) = control s"
proof (induction evs arbitrary: s)
  case (Cons ev evs)
  obtain b s1 where t: "take_id H ev s = (b, s1)" by fastforce
  have "control s1 = control s" using take_id_frame [of H ev s] t by simp
  then show ?case using Cons by (simp add: t split: bool.split)
qed simp

section \<open>The window of ids\<close>

text \<open>Two records of the same id are more than n records apart.\<close>

definition spaced :: "nat \<Rightarrow> string list \<Rightarrow> bool" where
  "spaced n xs = (\<forall>i j. i < j \<and> j < length xs \<and> xs ! i = xs ! j \<longrightarrow> n < j - i)"

definition window_ok :: "StreamEventHandlers \<Rightarrow> string list \<times> string list \<Rightarrow> bool" where
  "window_ok H v = (case v of (recent, recorded) \<Rightarrow>
     if dedupWindowSize H \<le> 0 then recent = []
     else recent = drop (length recorded - nat (dedupWindowSize H)) recorded \<and> spaced (nat (dedupWindowSize H)) recorded)"

lemma spaced_snoc:
  assumes "spaced n xs" "x \<notin> set (drop (length xs - n) xs)"
  shows "spaced n (xs @ [x])"
  unfolding spaced_def
proof (intro allI impI)
  fix i j
  assume ij: "i < j \<and> j < length (xs @ [x]) \<and> (xs @ [x]) ! i = (xs @ [x]) ! j"
  show "n < j - i"
  proof (cases "j < length xs")
    case True
    then show ?thesis using ij assms(1) by (auto simp: spaced_def nth_append)
  next
    case False
    then have j: "j = length xs" and x: "xs ! i = x" "i < length xs" using ij by (auto simp: nth_append)
    have "i < length xs - n"
    proof (rule ccontr)
      assume "\<not> i < length xs - n"
      then have "drop (length xs - n) xs ! (i - (length xs - n)) = x" "i - (length xs - n) < length (drop (length xs - n) xs)"
        using x by simp_all
      then show False using assms(2) by (metis nth_mem)
    qed
    then show ?thesis using j by simp
  qed
qed

lemma drop_window: "0 < n \<Longrightarrow> (let added = drop (length xs - n) xs @ [x] in if n < length added then tl added else added) = drop (length (xs @ [x]) - n) (xs @ [x])"
  by (cases "n \<le> length xs") (auto simp: Let_def Suc_diff_le drop_Suc tl_drop [symmetric] not_le)

lemma window_take_id:
  assumes "window_ok H (ids_view s)"
  shows "window_ok H (ids_view (snd (take_id H ev s)))"
proof (cases "dedupWindowSize H \<le> 0")
  case True
  then show ?thesis using assms by (simp add: window_ok_def ids_view_def take_id_def recent_seen_def)
next
  case False
  let ?n = "nat (dedupWindowSize H)"
  have inv: "sub_recentIds s = drop (length (sub_recorded s) - ?n) (sub_recorded s)" "spaced ?n (sub_recorded s)"
    using assms False by (simp_all add: window_ok_def ids_view_def)
  show ?thesis
  proof (cases "ev_id ev = [] \<or> ev_id ev \<in> set (sub_recentIds s)")
    case True
    then show ?thesis using assms False by (auto simp: take_id_def recent_seen_def ids_view_def)
  next
    case new: False
    have "recent_seen (dedupWindowSize H) (ev_id ev) (sub_recentIds s) =
        (False, drop (length (sub_recorded s @ [ev_id ev]) - ?n) (sub_recorded s @ [ev_id ev]))"
      using new False drop_window [of ?n "sub_recorded s" "ev_id ev"] inv(1)
      by (auto simp: recent_seen_def Let_def nat_less_iff)
    then show ?thesis
      using new False inv spaced_snoc [of ?n "sub_recorded s" "ev_id ev"]
      by (simp add: take_id_def ids_view_def window_ok_def)
  qed
qed

lemma window_poll_event: "window_ok H (ids_view s) \<Longrightarrow> window_ok H (ids_view (snd (poll_event env H addr ev s)))"
proof -
  assume inv: "window_ok H (ids_view s)"
  obtain e s1 where w: "watch_ledger addr ev s = (e, s1)" by fastforce
  obtain b s2 where t: "take_id H ev s1 = (b, s2)" by fastforce
  obtain q s3 where d: "dispatch_live env H ev s2 = (q, s3)" by fastforce
  have "ids_view s1 = ids_view s" "ids_view s3 = ids_view s2" "window_ok H (ids_view s2)"
    using watch_ledger_frame(2) [of addr ev s] dispatch_live_frame(2) [of env H ev s2] window_take_id [of H s1 ev] inv w t d by simp_all
  then show ?thesis using inv by (simp add: poll_event_def w t d split: option.split bool.split)
qed

lemma window_poll_events: "window_ok H (ids_view s) \<Longrightarrow> window_ok H (ids_view (snd (poll_events env H addr evs s)))"
proof (induction evs arbitrary: s)
  case (Cons ev evs)
  obtain e s1 where p: "poll_event env H addr ev s = (e, s1)" by fastforce
  have "window_ok H (ids_view s1)" using window_poll_event [OF Cons.prems, of env addr ev] p by simp
  then show ?case using Cons.IH by (simp add: p split: option.split)
qed simp

lemma window_dispatch_missed: "window_ok H (ids_view s) \<Longrightarrow> window_ok H (ids_view (dispatch_missed env H evs s))"
proof (induction evs arbitrary: s)
  case (Cons ev evs)
  obtain b s1 where t: "take_id H ev s = (b, s1)" by fastforce
  have "window_ok H (ids_view s1)" using window_take_id [OF Cons.prems, of ev] t by simp
  then show ?case using Cons.IH by (simp add: t split: bool.split)
qed simp

lemma ids_settled [simp]:
  "ids_view (schedule H s) = ids_view s" "ids_view (poll_failed H e s) = ids_view s" "ids_view (advance page s) = ids_view s"
  "ids_view (fetch_events addr s) = ids_view s" "ids_view (poll_begin addr s) = ids_view s" "ids_view (unsubscribe s) = ids_view s"
  "ids_view (seed_settle H addr r s) = ids_view s" "ids_view (s \<lparr> sub_failures := k \<rparr>) = ids_view s"
  "ids_view (s \<lparr> sub_replaying := x \<rparr>) = ids_view s" "ids_view (s \<lparr> sub_backfilling := x \<rparr>) = ids_view s"
  by (simp_all add: ids_view_def schedule_def poll_failed_def notify_def advance_def fetch_events_def request_events_def poll_begin_def
      unsubscribe_def seed_settle_def Let_def split: option.split sum.split)

lemma window_fetch_settle:
  assumes "window_ok H (ids_view s)"
  shows "window_ok H (ids_view (fetch_settle env H addr r s))"
proof (cases r)
  case (Inr page)
  obtain e s1 where p: "poll_events env H addr (pg_events page) (s \<lparr> sub_failures := 0 \<rparr>) = (e, s1)" by fastforce
  have "window_ok H (ids_view s1)"
    using window_poll_events [of H "s \<lparr> sub_failures := 0 \<rparr>" env addr "pg_events page"] assms p by simp
  then show ?thesis by (simp add: fetch_settle_def Inr p split: option.split)
qed (use assms in \<open>simp add: fetch_settle_def\<close>)

lemma window_step: "sub_step env H addr s t \<Longrightarrow> window_ok H (ids_view s) \<Longrightarrow> window_ok H (ids_view t)"
  by (induction rule: sub_step.induct)
     (auto simp: replay_settle_def backfill_settle_def window_fetch_settle window_dispatch_missed split: sum.split)

text \<open>
  C6: The window remembers exactly the last ids taken, so however polls, backfills and
  failures interleave, an id is never taken again before the whole window has been filled
  with other ids: two dispatches of one event are further apart than the window is long.
\<close>
theorem dedup_window_spaces_ids:
  assumes "subscribed env H addr s" "0 < dedupWindowSize H"
  shows "sub_recentIds s = drop (length (sub_recorded s) - nat (dedupWindowSize H)) (sub_recorded s) \<and>
    spaced (nat (dedupWindowSize H)) (sub_recorded s)"
proof -
  have "window_ok H (ids_view s)"
    using assms(1)
  proof induction
    case start
    have "ids_view initial_subscription = ([], [])" by (simp add: ids_view_def initial_subscription_def)
    then show ?case by (simp add: window_ok_def spaced_def)
  next
    case (step s t)
    then show ?case using window_step by blast
  qed
  then show ?thesis using assms(2) by (simp add: window_ok_def ids_view_def)
qed

lemma dedup_window_spaces_ids_witness:
  "sub_recentIds (poll_begin ''C'' initial_subscription) = [] \<and> spaced 1000 (sub_recorded (poll_begin ''C'' initial_subscription))"
  using dedup_window_spaces_ids [of sample_outside "handlers_for (\<lambda>_. True)" "''C''" "poll_begin ''C'' initial_subscription", OF subscribed.start]
  by (simp add: dedupWindowSize_def handlers_for_def given_or_def DEFAULT_DEDUP_WINDOW_def poll_begin_def initial_subscription_def)

section \<open>When polling goes on\<close>

definition polling_ok :: "StreamEventHandlers \<Rightarrow> subscription \<Rightarrow> bool" where
  "polling_ok H s =
    ((case sub_phase s of
        Ended \<Rightarrow> sub_stopped s \<and> (sub_live s \<longrightarrow> maxConsecutiveFailures H \<le> int (sub_failures s))
      | Waiting d \<Rightarrow> \<not> sub_stopped s \<and> sub_live s \<and> d = poll_delay H (sub_failures s)
      | Seeding \<Rightarrow> sub_live s = (\<not> sub_stopped s)
      | Fetching \<Rightarrow> sub_live s = (\<not> sub_stopped s) \<and> sub_ledgerSeeded s) \<and>
     (\<not> sub_stopped s \<longrightarrow> sub_failures s = 0 \<or> int (sub_failures s) < maxConsecutiveFailures H) \<and>
     (sub_ledgerSeeded s \<or> sub_cursor s = None))"

lemma polling_ok_control: "control s = control t \<Longrightarrow> polling_ok H s = polling_ok H t"
  by (simp add: polling_ok_def control_def split: poll_phase.split)

lemma polling_request [simp]: "polling_ok H (request_events r s) = polling_ok H s"
  by (rule polling_ok_control) simp

text \<open>The end of a tick, in a state where the loop was awaiting an answer.\<close>

definition awaiting :: "subscription \<Rightarrow> bool" where
  "awaiting s = (sub_live s = (\<not> sub_stopped s) \<and> (sub_ledgerSeeded s \<or> sub_cursor s = None))"

lemma awaiting_control: "control s = control t \<Longrightarrow> awaiting s = awaiting t"
  by (simp add: awaiting_def control_def)

lemma polling_failed: "awaiting s \<Longrightarrow> polling_ok H (poll_failed H e s)"
  by (auto simp: awaiting_def poll_failed_def polling_ok_def notify_def schedule_def Let_def)

lemma polling_fetched:
  assumes "awaiting s" "sub_ledgerSeeded s"
  shows "polling_ok H (fetch_settle env H addr r s)"
proof (cases r)
  case (Inl e)
  then show ?thesis using polling_failed [OF assms(1)] by (simp add: fetch_settle_def)
next
  case (Inr page)
  obtain e s1 where p: "poll_events env H addr (pg_events page) (s \<lparr> sub_failures := 0 \<rparr>) = (e, s1)" by fastforce
  have c: "control s1 = control (s \<lparr> sub_failures := 0 \<rparr>)"
    using poll_events_frame [of env H addr "pg_events page" "s \<lparr> sub_failures := 0 \<rparr>"] p by simp
  have "awaiting (s \<lparr> sub_failures := 0 \<rparr>)" using assms(1) by (simp add: awaiting_def)
  then have a: "awaiting s1" using awaiting_control [OF c] by simp
  show ?thesis
  proof (cases e)
    case (Some x)
    then show ?thesis using polling_failed [OF a] by (simp add: fetch_settle_def Inr p)
  next
    case None
    have "sub_ledgerSeeded s1" using c assms(2) by (simp add: control_def)
    then show ?thesis using a
      by (auto simp: fetch_settle_def Inr p None schedule_def polling_ok_def advance_def awaiting_def split: option.split)
  qed
qed

lemma polling_awaits: "polling_ok H s \<Longrightarrow> sub_phase s = Seeding \<or> sub_phase s = Fetching \<Longrightarrow> awaiting s"
  by (elim disjE) (simp_all add: polling_ok_def awaiting_def)

lemma polling_fetch:
  "awaiting s \<Longrightarrow> sub_ledgerSeeded s \<Longrightarrow> \<not> sub_stopped s \<longrightarrow> sub_failures s = 0 \<or> int (sub_failures s) < maxConsecutiveFailures H \<Longrightarrow>
    polling_ok H (fetch_events addr s)"
  by (simp add: fetch_events_def request_events_def polling_ok_def awaiting_def)

lemma polling_begin: "polling_ok H s \<Longrightarrow> sub_phase s = Waiting d \<Longrightarrow> polling_ok H (poll_begin addr s)"
  by (auto simp: poll_begin_def fetch_events_def request_events_def polling_ok_def given_or_def split: option.splits)

lemma polling_step: "sub_step env H addr s t \<Longrightarrow> polling_ok H s \<Longrightarrow> polling_ok H t"
proof (induction rule: sub_step.induct)
  case (timer s d)
  then show ?case by (simp add: polling_begin)
next
  case (seeded s r)
  then have a: "awaiting s" by (simp add: polling_awaits)
  show ?case
  proof (cases r)
    case (Inl e)
    then show ?thesis using polling_failed [OF a] by (simp add: seed_settle_def)
  next
    case (Inr n)
    have "polling_ok H (fetch_events addr (s \<lparr> sub_startLedger := n, sub_lastStartLedger := n, sub_ledgerSeeded := True \<rparr>))"
      using a seeded(2) by (intro polling_fetch) (simp_all add: awaiting_def polling_ok_def)
    then show ?thesis by (simp add: seed_settle_def Inr)
  qed
next
  case (fetched s p)
  then have "sub_ledgerSeeded s" by (simp add: polling_ok_def)
  then show ?case using fetched polling_fetched polling_awaits by blast
next
  case (replayed s gap p)
  have "control (replay_settle env H gap p s) = control s"
    by (simp add: replay_settle_def control_def [of "_ \<lparr> sub_replaying := _ \<rparr>"] split: sum.split)
       (metis control_def dispatch_missed_frame)
  then show ?case using replayed polling_ok_control by blast
next
  case (backfilled s gap p)
  have "control (backfill_settle env H gap p s) = control s"
    by (simp add: backfill_settle_def control_def [of "_ \<lparr> sub_backfilling := _ \<rparr>"] split: sum.split)
       (metis control_def dispatch_missed_frame)
  then show ?case using backfilled polling_ok_control by blast
next
  case (unsubscribed s)
  then show ?case by (auto simp: unsubscribe_def polling_ok_def split: poll_phase.splits)
qed



text \<open>
  The delay after k failures is between the polling interval and the cap and never shrinks
  with k, provided the interval does not exceed the cap.
\<close>
theorem poll_delay_bounds:
  assumes "0 \<le> pollInterval H" "pollInterval H \<le> maxBackoffMs H"
  shows "pollInterval H \<le> poll_delay H k \<and> poll_delay H k \<le> maxBackoffMs H \<and> poll_delay H k \<le> poll_delay H (k + 1)"
proof -
  have up: "pollInterval H * 1 \<le> pollInterval H * 2 ^ n" for n
    using assms(1) by (intro mult_left_mono) auto
  have step: "pollInterval H * 2 ^ n \<le> pollInterval H * 2 ^ Suc n" for n
    using assms(1) by (intro mult_left_mono) auto
  show ?thesis using assms up [of "k - 1"] up [of k] step [of "k - 1"]
    by (cases k) (auto simp: poll_delay_def min_def)
qed

lemma poll_delay_bounds_witness: "poll_delay (handlers_for (\<lambda>_. True)) 3 \<le> poll_delay (handlers_for (\<lambda>_. True)) 4"
  using poll_delay_bounds [of "handlers_for (\<lambda>_. True)" 3]
  by (simp add: pollInterval_def maxBackoffMs_def handlers_for_def given_or_def)

text \<open>An interval above the cap makes a failing endpoint be polled more often than a healthy one.\<close>

lemma failing_polls_faster:
  "poll_delay ((handlers_for (\<lambda>_. True)) \<lparr> h_pollInterval := Some 120000 \<rparr>) 1 < poll_delay ((handlers_for (\<lambda>_. True)) \<lparr> h_pollInterval := Some 120000 \<rparr>) 0"
  by (simp add: poll_delay_def pollInterval_def maxBackoffMs_def given_or_def handlers_for_def)

section \<open>Silence after unsubscribe\<close>

lemma nothing_handled: "snd (dispatchIsolated env (handlers_for (\<lambda>_. False)) ev) = []"
  by (simp add: dispatchIsolated_def dispatchEvent_def handlers_for_def split: option.split list.split sum.split)

lemma dead_dispatch:
  assumes "\<not> sub_live s"
  shows "sub_notices (snd (dispatch_live env H ev s)) = sub_notices s"
  using assms nothing_handled [of env ev]
  by (cases "dispatchIsolated env (handlers_for (\<lambda>_. False)) ev") (simp add: dispatch_live_def current_handlers_def)

lemma dead_notify [simp]: "\<not> sub_live s \<Longrightarrow> notify n s = s"
  by (simp add: notify_def)

lemma take_id_notices [simp]: "sub_notices (snd (take_id H ev s)) = sub_notices s" "sub_live (snd (take_id H ev s)) = sub_live s"
  "sub_lastSequence (snd (take_id H ev s)) = sub_lastSequence s"
  by (simp_all add: take_id_def split: prod.split)

lemma dead_watch:
  assumes "\<not> sub_live s"
  shows "sub_notices (snd (watch_ledger addr ev s)) = sub_notices s" "sub_notices (watch_sequence addr sq s) = sub_notices s"
  using assms by (simp_all add: watch_ledger_def watch_sequence_def Let_def split: option.split sum.split prod.split)

lemma live_control: "control s = control t \<Longrightarrow> sub_live s = sub_live t"
  by (simp add: control_def)

lemma dead_poll_event:
  assumes "\<not> sub_live s"
  shows "sub_notices (snd (poll_event env H addr ev s)) = sub_notices s"
proof -
  obtain e s1 where w: "watch_ledger addr ev s = (e, s1)" by fastforce
  obtain b s2 where t: "take_id H ev s1 = (b, s2)" by fastforce
  obtain q s3 where d: "dispatch_live env H ev s2 = (q, s3)" by fastforce
  have "sub_live s1 = sub_live s" using live_control [OF watch_ledger_frame(1) [of addr ev s]] w by simp
  moreover have "sub_live s2 = sub_live s1" using take_id_notices(2) [of H ev s1] t by simp
  moreover have "sub_live s3 = sub_live s2" using live_control [OF dispatch_live_frame(1) [of env H ev s2]] d by simp
  ultimately have dead: "\<not> sub_live s1" "\<not> sub_live s2" "\<not> sub_live s3" using assms by simp_all
  have "sub_notices s1 = sub_notices s" "sub_notices s2 = sub_notices s1" "sub_notices s3 = sub_notices s2"
    using dead_watch(1) [OF assms, of addr ev] take_id_notices(1) [of H ev s1] dead_dispatch [OF dead(2), of env H ev] w t d by simp_all
  then show ?thesis using dead_watch(2) [OF dead(3)] by (simp add: poll_event_def w t d split: option.split bool.split)
qed

lemma dead_poll_events:
  assumes "\<not> sub_live s"
  shows "sub_notices (snd (poll_events env H addr evs s)) = sub_notices s"
  using assms
proof (induction evs arbitrary: s)
  case (Cons ev evs)
  obtain e s1 where p: "poll_event env H addr ev s = (e, s1)" by fastforce
  have "\<not> sub_live s1" "sub_notices s1 = sub_notices s"
    using live_control [OF poll_event_frame [of env H addr ev s]] dead_poll_event [OF Cons.prems, of env H addr ev] p Cons.prems by simp_all
  then show ?case using Cons.IH [of s1] by (simp add: p split: option.split)
qed simp

lemma dead_dispatch_missed:
  assumes "\<not> sub_live s"
  shows "sub_notices (dispatch_missed env H evs s) = sub_notices s"
  using assms
proof (induction evs arbitrary: s)
  case (Cons ev evs)
  obtain b s1 where t: "take_id H ev s = (b, s1)" by fastforce
  have s1: "\<not> sub_live s1" "sub_notices s1 = sub_notices s" using take_id_notices [of H ev s] t Cons.prems by simp_all
  have "\<not> sub_live (snd (dispatch_live env H ev s1))" using live_control [OF dispatch_live_frame(1) [of env H ev s1]] s1 by simp
  then show ?case using Cons.IH [of s1] Cons.IH [of "snd (dispatch_live env H ev s1)"] dead_dispatch [OF s1(1), of env H ev] s1
    by (simp add: t split: bool.split)
qed simp

text \<open>A subscription that was left: no handlers, stopped, no timer.\<close>

definition departed :: "notice list \<Rightarrow> subscription \<Rightarrow> bool" where
  "departed told s = (\<not> sub_live s \<and> sub_stopped s \<and> (\<forall>d. sub_phase s \<noteq> Waiting d) \<and> sub_notices s = told)"

lemma left_failed: "departed told s \<Longrightarrow> departed told (poll_failed H e s)"
  by (simp add: departed_def poll_failed_def Let_def schedule_def notify_def)

lemma left_fetch:
  assumes "departed told s"
  shows "departed told (fetch_settle env H addr r s)"
proof (cases r)
  case (Inr page)
  obtain e s1 where p: "poll_events env H addr (pg_events page) (s \<lparr> sub_failures := 0 \<rparr>) = (e, s1)" by fastforce
  have c: "control s1 = control (s \<lparr> sub_failures := 0 \<rparr>)" using poll_events_frame [of env H addr _ "s \<lparr> sub_failures := 0 \<rparr>"] p by (metis snd_conv)
  moreover have "sub_notices s1 = sub_notices s"
    using dead_poll_events [of "s \<lparr> sub_failures := 0 \<rparr>" env H addr "pg_events page"] assms p by (simp add: departed_def)
  ultimately have "departed told s1" using assms by (simp add: departed_def control_def)
  moreover from this have "departed told (schedule H ((advance page s1) \<lparr> sub_failures := 0 \<rparr>))"
    by (simp add: departed_def schedule_def advance_def split: option.split)
  ultimately show ?thesis using left_failed by (simp add: fetch_settle_def Inr p split: option.split)
qed (use assms left_failed in \<open>simp add: fetch_settle_def\<close>)

lemma left_missed: "departed told s \<Longrightarrow> departed told (dispatch_missed env H evs s)"
  using dead_dispatch_missed [of s env H evs] dispatch_missed_frame [of env H evs s] by (auto simp: departed_def control_def)

lemma left_step: "sub_step env H addr s t \<Longrightarrow> departed told s \<Longrightarrow> departed told t"
proof (induction rule: sub_step.induct)
  case (seeded s r)
  then show ?case
    using left_failed by (auto simp: seed_settle_def departed_def fetch_events_def request_events_def split: sum.split)
next
  case (fetched s p)
  then show ?case using left_fetch by blast
next
  case (replayed s gap p)
  have "departed told (u \<lparr> sub_replaying := None \<rparr>) = departed told u" for u by (simp add: departed_def)
  then show ?case using replayed left_missed by (auto simp: replay_settle_def split: sum.split)
next
  case (backfilled s gap p)
  have "departed told (u \<lparr> sub_backfilling := None \<rparr>) = departed told u" for u by (simp add: departed_def)
  then show ?case using backfilled left_missed by (auto simp: backfill_settle_def split: sum.split)
qed (auto simp: departed_def unsubscribe_def split: poll_phase.splits)

text \<open>
  C33: After unsubscribe no handler is called any more and no timer is armed, whatever requests
  were still in flight and however they are answered.
\<close>
theorem unsubscribe_silences:
  assumes "(sub_step env H addr)\<^sup>*\<^sup>* (unsubscribe s) t"
  shows "sub_notices t = sub_notices s \<and> sub_stopped t \<and> (\<forall>d. sub_phase t \<noteq> Waiting d)"
proof -
  have "departed (sub_notices s) t"
    using assms
  proof induction
    case base
    show ?case by (simp add: departed_def unsubscribe_def split: poll_phase.split)
  next
    case (step u v)
    then show ?case using left_step by blast
  qed
  then show ?thesis by (simp add: departed_def)
qed

lemma unsubscribe_silences_witness:
  "sub_notices (unsubscribe (unsubscribe (poll_begin ''C'' initial_subscription))) = []"
proof -
  have s: "(sub_step sample_outside (handlers_for (\<lambda>_. True)) ''C'')\<^sup>*\<^sup>* (unsubscribe (poll_begin ''C'' initial_subscription))
      (unsubscribe (unsubscribe (poll_begin ''C'' initial_subscription)))"
    by (rule r_into_rtranclp) (rule sub_step.unsubscribed)
  show ?thesis using unsubscribe_silences [OF s] by (simp add: poll_begin_def initial_subscription_def given_or_def)
qed

section \<open>A poll is deduplication followed by dispatch\<close>

fun fresh_events :: "int \<Rightarrow> string list \<Rightarrow> event_response list \<Rightarrow> event_response list" where
  "fresh_events n ids [] = []"
| "fresh_events n ids (ev # evs) =
    (if fst (recent_seen n (ev_id ev) ids) then fresh_events n (snd (recent_seen n (ev_id ev) ids)) evs
     else ev # fresh_events n (snd (recent_seen n (ev_id ev) ids)) evs)"

fun told_event :: "notice \<Rightarrow> StreamEvent option" where
  "told_event (Event_notice e) = Some e"
| "told_event _ = None"

fun told_gap :: "notice \<Rightarrow> (int \<times> int) option" where
  "told_gap (Gap_notice a b) = Some (a, b)"
| "told_gap _ = None"

text \<open>The jumps of a sequence of numbers, as the number expected and the one found.\<close>

fun jumps :: "int option \<Rightarrow> int list \<Rightarrow> (int \<times> int) list" where
  "jumps p [] = []"
| "jumps None (q # qs) = jumps (Some q) qs"
| "jumps (Some p) (q # qs) = (if q = p + 1 then [] else [(p + 1, q)]) @ jumps (Some q) qs"

lemma map_filter_events: "List.map_filter told_event (List.map Event_notice xs) = xs" "List.map_filter told_gap (List.map Event_notice xs) = []"
  by (induction xs) (simp_all add: List.map_filter_simps)

lemma map_filter_append: "List.map_filter f (xs @ ys) = List.map_filter f xs @ List.map_filter f ys"
  by (simp add: List.map_filter_def)

definition told :: "subscription \<Rightarrow> StreamEvent list \<times> (int \<times> int) list" where
  "told s = (List.map_filter told_event (sub_notices s), List.map_filter told_gap (sub_notices s))"

lemma told_watch_ledger: "told (snd (watch_ledger addr ev s)) = told s \<and> sub_lastSequence (snd (watch_ledger addr ev s)) = sub_lastSequence s"
  by (simp add: watch_ledger_def told_def notify_def map_filter_append List.map_filter_simps split: option.split sum.split prod.split)

lemma told_watch_sequence:
  assumes "sub_live s"
  shows "told (watch_sequence addr sq s) =
    (fst (told s), snd (told s) @ jumps (sub_lastSequence s) (case sq of None \<Rightarrow> [] | Some q \<Rightarrow> [q]))"
  "sub_lastSequence (watch_sequence addr sq s) = (case sq of None \<Rightarrow> sub_lastSequence s | Some q \<Rightarrow> Some q)"
  using assms
  by (simp_all add: watch_sequence_def told_def notify_def map_filter_append List.map_filter_simps Let_def split: option.split)

lemma told_poll_event:
  assumes "sub_live s" "poll_event env H addr ev s = (None, t)"
  shows "sub_recentIds t = snd (recent_seen (dedupWindowSize H) (ev_id ev) (sub_recentIds s)) \<and> sub_live t \<and>
    (if fst (recent_seen (dedupWindowSize H) (ev_id ev) (sub_recentIds s)) then told t = told s \<and> sub_lastSequence t = sub_lastSequence s
     else told t = (fst (told s) @ snd (dispatchIsolated env H ev),
            snd (told s) @ jumps (sub_lastSequence s) (case fst (dispatchIsolated env H ev) of None \<Rightarrow> [] | Some q \<Rightarrow> [q])) \<and>
       sub_lastSequence t = (case fst (dispatchIsolated env H ev) of None \<Rightarrow> sub_lastSequence s | Some q \<Rightarrow> Some q))"
proof -
  obtain s1 where w: "watch_ledger addr ev s = (None, s1)"
    using assms(2) by (auto simp: poll_event_def split: prod.splits option.splits bool.splits)
  obtain b s2 where t: "take_id H ev s1 = (b, s2)" by fastforce
  obtain q out where d: "dispatchIsolated env H ev = (q, out)" by fastforce
  have s1: "sub_live s1" "sub_recentIds s1 = sub_recentIds s" "told s1 = told s" "sub_lastSequence s1 = sub_lastSequence s"
    using watch_ledger_frame [of addr ev s] told_watch_ledger [of addr ev s] w assms(1) by (simp_all add: control_def ids_view_def)
  have s2: "sub_live s2" "told s2 = told s" "sub_lastSequence s2 = sub_lastSequence s"
      "sub_recentIds s2 = snd (recent_seen (dedupWindowSize H) (ev_id ev) (sub_recentIds s))"
      "b = fst (recent_seen (dedupWindowSize H) (ev_id ev) (sub_recentIds s))"
    using t s1 take_id_notices [of H ev s1] by (auto simp: take_id_def told_def split: prod.splits)
  show ?thesis
  proof (cases b)
    case True
    then show ?thesis using assms(2) s2 by (simp add: poll_event_def w t)
  next
    case False
    let ?s3 = "s2 \<lparr> sub_notices := sub_notices s2 @ List.map Event_notice out \<rparr>"
    have r: "t = watch_sequence addr q ?s3"
      using assms(2) s2(1) by (simp add: poll_event_def w t False dispatch_live_def current_handlers_def d)
    have "told ?s3 = (fst (told s) @ out, snd (told s))"
      using s2(2) by (simp add: told_def map_filter_append map_filter_events prod_eq_iff)
    moreover have "sub_recentIds t = sub_recentIds ?s3" "sub_live t"
      using watch_sequence_frame [of addr q ?s3] s2(1) by (simp_all add: r ids_view_def control_def)
    moreover have "sub_lastSequence ?s3 = sub_lastSequence s" using s2(3) by simp
    ultimately show ?thesis using told_watch_sequence [of ?s3 addr q] s2 False
      by (simp only: r d fst_conv snd_conv if_False) simp
  qed
qed

lemma jumps_append:
  "jumps p (xs @ ys) = jumps p xs @ jumps (if xs = [] then p else Some (last xs)) ys"
  by (induction p xs rule: jumps.induct) auto

text \<open>
  C5: A poll that ends normally does exactly this: it drops the events whose id is in the window,
  gives the others to their handlers in order, and announces every jump in the sequence numbers
  of the events given, and no other.
\<close>
theorem poll_dispatches_fresh_events:
  assumes "sub_live s" "poll_events env H addr evs s = (None, t)"
  shows "told t = (fst (told s) @ concat (List.map (\<lambda>ev. snd (dispatchIsolated env H ev)) (fresh_events (dedupWindowSize H) (sub_recentIds s) evs)),
    snd (told s) @ jumps (sub_lastSequence s) (List.map_filter (\<lambda>ev. fst (dispatchIsolated env H ev)) (fresh_events (dedupWindowSize H) (sub_recentIds s) evs)))"
  using assms
proof (induction evs arbitrary: s)
  case Nil
  then show ?case by (simp add: List.map_filter_simps)
next
  case (Cons ev evs)
  obtain s1 where p: "poll_event env H addr ev s = (None, s1)" "poll_events env H addr evs s1 = (None, t)"
    using Cons.prems(2) by (auto split: prod.splits option.splits)
  let ?rest = "List.map_filter (\<lambda>ev. fst (dispatchIsolated env H ev)) (fresh_events (dedupWindowSize H) (sub_recentIds s1) evs)"
  note one = told_poll_event [OF Cons.prems(1) p(1)]
  have IH: "told t = (fst (told s1) @ concat (List.map (\<lambda>ev. snd (dispatchIsolated env H ev)) (fresh_events (dedupWindowSize H) (sub_recentIds s1) evs)),
    snd (told s1) @ jumps (sub_lastSequence s1) (List.map_filter (\<lambda>ev. fst (dispatchIsolated env H ev)) (fresh_events (dedupWindowSize H) (sub_recentIds s1) evs)))"
    using Cons.IH [OF _ p(2)] one by blast
  show ?case
  proof (cases "fst (recent_seen (dedupWindowSize H) (ev_id ev) (sub_recentIds s))")
    case True
    then show ?thesis using one IH by simp
  next
    case False
    note new = one [unfolded if_not_P [OF False]]
    show ?thesis
    proof (cases "fst (dispatchIsolated env H ev)")
      case None
      then show ?thesis using False new IH by (simp add: List.map_filter_simps)
    next
      case (Some q)
      have "jumps (sub_lastSequence s) (q # ?rest) = jumps (sub_lastSequence s) [q] @ jumps (Some q) ?rest"
        using jumps_append [of "sub_lastSequence s" "[q]" ?rest] by simp
      then show ?thesis using False new IH Some by (simp add: List.map_filter_simps del: jumps.simps)
    qed
  qed
qed

lemma poll_dispatches_fresh_events_witness:
  "told (snd (poll_events sample_outside (handlers_for (\<lambda>_. True)) ''C'' [] initial_subscription)) = ([], [])"
  using poll_dispatches_fresh_events [of initial_subscription sample_outside "handlers_for (\<lambda>_. True)" "''C''" "[]" initial_subscription]
  by (simp add: initial_subscription_def told_def List.map_filter_simps)

section \<open>Malformed ledgers, late requests and quiet ledgers\<close>

text \<open>
  A page that starts with an event whose ledger is negative or fractional is neither used nor
  passed: the tick counts one failure, the failures before it are forgotten, and the next
  request is the same again.  With a maximum above one the subscription repeats it for ever.
\<close>
lemma malformed_ledger_repeats:
  assumes "pg_events page = ev # evs" "ev_ledger ev = Some l" "\<not> is_integer_num l \<or> int_of_num l < 0"
    "1 < maxConsecutiveFailures H" "\<not> sub_stopped s"
  shows "sub_phase (fetch_settle env H addr (Inr page) s) = Waiting (poll_delay H 1) \<and>
    sub_failures (fetch_settle env H addr (Inr page) s) = 1 \<and>
    poll_request addr (fetch_settle env H addr (Inr page) s) = poll_request addr s"
proof -
  have "poll_events env H addr (pg_events page) (s \<lparr> sub_failures := 0 \<rparr>) =
      (Some (plain_error (''LedgerGapDetector.observe: ledger must be a non-negative integer, got '' @ show_jsnum l)), s \<lparr> sub_failures := 0 \<rparr>)"
    using assms(1-3) by (simp add: poll_event_def watch_ledger_def observe_ledger_def)
  then show ?thesis using assms(4,5)
    by (simp add: fetch_settle_def poll_failed_def schedule_def notify_def poll_request_def)
qed

text \<open>A poll answered after unsubscribe still sends the backfill request of a gap it finds.\<close>

lemma request_after_unsubscribe:
  assumes "sub_lastStartLedger s = 100" "sub_lastSequence s = Some 3" "sub_replaying s = None" "sub_recentIds s = []" "sub_currentLedger s = None"
  shows "Events_from_ledger 100 ''C'' 200 \<in>
    set (sub_requests (snd (poll_events sample_outside (handlers_for (\<lambda>_. True)) ''C'' [sample_event ''b'' 107 9] (unsubscribe s))))"
  using assms
  by (simp add: sample_event_def poll_event_def watch_ledger_def observe_ledger_def take_id_def recent_seen_def unsubscribe_def dispatch_live_def
      current_handlers_def dispatchIsolated_def dispatchEvent_def handlers_for_def topic_name_def topic_sequence_def scValToU64_def
      watch_sequence_def replayGap_def request_events_def notify_def dedupWindowSize_def given_or_def DEFAULT_DEDUP_WINDOW_def Let_def)

text \<open>
  The detector follows the highest ledger seen and reports exactly the jumps past the next
  ledger, so two events of a contract that was quiet for a ledger in between are a gap.
\<close>
theorem ledger_gap_iff_jump:
  assumes "is_integer_num l" "0 \<le> int_of_num l"
  shows "observe_ledger l current =
    Inr (case current of None \<Rightarrow> (None, Some (int_of_num l))
         | Some c \<Rightarrow> (if c + 1 < int_of_num l then Some (c + 1, int_of_num l) else None, Some (max c (int_of_num l))))"
  using assms by (simp add: observe_ledger_def Let_def max_def split: option.split)

lemma ledger_gap_iff_jump_witness: "observe_ledger (Num 105) (Some 100) = Inr (Some (101, 105), Some 105)"
  using ledger_gap_iff_jump [of "Num 105" "Some 100"] by simp

text \<open>A history filter on a stream id keeps no entry at all.\<close>

lemma streamId_filter_drops_all: "f_streamId f = Some i \<Longrightarrow> filterStreamEvents entries f = []"
  by (auto simp: filterStreamEvents_def matchesStreamEventFilter_def admits_def filter_empty_conv split: prod.split)

section \<open>History\<close>

definition history_call :: "string \<Rightarrow> ext_call \<Rightarrow> bool" where
  "history_call addr c = (case c of
     Get_latest_ledger \<Rightarrow> True
   | Get_events (Events_at_cursor k a limit) \<Rightarrow> k \<noteq> [] \<and> a = addr \<and> 1 \<le> limit \<and> limit \<le> 200
   | Get_events (Events_from_ledger n a limit) \<Rightarrow> a = addr \<and> 1 \<le> limit \<and> limit \<le> 200
   | _ \<Rightarrow> False)"

lemma runs_latest: "runs (history_call addr) (\<lambda>_. True) (latest_sequence env url)"
  unfolding latest_sequence_def
  by (rule runs_bind [OF runs_proxied [where Q = "\<lambda>_. True"]]) (simp_all add: history_call_def runs_return)

lemma runs_history_request:
  assumes "page_limit_ok l"
  shows "runs (history_call addr) (\<lambda>req. history_call addr (Get_events req)) (history_request env url addr options (int_of_num l))"
proof -
  have ok: "history_call addr (Get_events (Events_from_ledger n addr (int_of_num l)))" for n
    using assms by (simp add: history_call_def page_limit_ok_def MAX_HISTORY_PAGE_SIZE_def)
  have at: "history_call addr (Get_events (Events_at_cursor k addr (int_of_num l)))" if "k \<noteq> []" for k
    using assms that by (simp add: history_call_def page_limit_ok_def MAX_HISTORY_PAGE_SIZE_def)
  show ?thesis
    unfolding history_request_def
    by (auto intro!: runs_return runs_then [OF runs_latest] ok at split: option.split)
qed

text \<open>
  A page of history costs at most a read of the latest ledger and one getEvents request of a
  legal size for the contract asked about; its entries are the decodable events of the answer, in
  order, those the filter admits.
\<close>
theorem history_page_exact:
  "list_all (history_call addr) (drop (length (trace w)) (trace (snd (getStreamHistory env node url addr options w)))) \<and>
   (case fst (getStreamHistory env node url addr options w) of
      Inl e \<Rightarrow> True
    | Inr page \<Rightarrow> \<exists>n req response. node n req = Inr response \<and>
        hp_entries page = filter (\<lambda>e. case ho_filter options of None \<Rightarrow> True | Some f \<Rightarrow> matchesStreamEventFilter e f)
          (List.map_filter (history_entry env) (pg_events response)) \<and>
        (hp_nextCursor page = None \<or> int_of_num (given_or (Num 50) (ho_limit options)) \<le> int (length (pg_events response))))"
proof -
  let ?l = "given_or (Num (of_int DEFAULT_HISTORY_PAGE_SIZE)) (ho_limit options)"
  let ?Q = "\<lambda>page. \<exists>n req response. node n req = Inr response \<and>
        hp_entries page = filter (\<lambda>e. case ho_filter options of None \<Rightarrow> True | Some f \<Rightarrow> matchesStreamEventFilter e f)
          (List.map_filter (history_entry env) (pg_events response)) \<and>
        (hp_nextCursor page = None \<or> int_of_num ?l \<le> int (length (pg_events response)))"
  have page: "?Q (history_page env (ho_filter options) (int_of_num ?l) response)" if "node n req = Inr response" for n req response
    by (rule exI [of _ n], rule exI [of _ req], rule exI [of _ response])
       (use that in \<open>simp add: history_page_def Let_def filterStreamEvents_def split: option.split\<close>)
  have call: "runs (history_call addr) (\<lambda>response. \<exists>n. node n req = Inr response) (getEvents env node url req)"
    if "history_call addr (Get_events req)" for req
    unfolding getEvents_def by (rule runs_proxied, rule that) blast
  have "runs (history_call addr) ?Q (getStreamHistory env node url addr options)"
    unfolding getStreamHistory_def Let_def
    by (rule runs_bind [OF runs_guard], rule runs_bind [OF runs_history_request], assumption, rule runs_bind [OF call], assumption,
        erule exE, rule runs_return, erule page)
  from runs_calls [OF this, of w] this show ?thesis
    unfolding runs_def by (auto simp: DEFAULT_HISTORY_PAGE_SIZE_def split: sum.split)
qed

section \<open>Replay\<close>

text \<open>What one replay step adds to the world: events, their ids new, their ledgers in range.\<close>

definition adds_events ::
    "outside \<Rightarrow> StreamEventHandlers \<Rightarrow> int \<Rightarrow> replay_state \<Rightarrow> 'z events_world_scheme \<Rightarrow> replay_state option \<Rightarrow> 'z events_world_scheme \<Rightarrow> bool" where
  "adds_events env H till st w st' w' =
    (\<exists>evs. given_events w' = given_events w @ evs \<and>
       delivered_events w' = delivered_events w @ concat (List.map (\<lambda>ev. snd (dispatchIsolated env H ev)) evs) \<and>
       distinct (List.map ev_id evs) \<and> set (List.map ev_id evs) \<inter> set (rp_seen st) = {} \<and> (\<forall>ev \<in> set evs. \<not> ledger_above till ev) \<and>
       (case st' of None \<Rightarrow> True
        | Some u \<Rightarrow> rp_seen u = rp_seen st @ List.map ev_id evs \<and> rp_dispatched u = rp_dispatched st + length evs \<and>
            rp_lastLedger u = (if evs = [] then rp_lastLedger st else ev_ledger (last evs))))"

lemma adds_nothing: "given_events w' = given_events w \<Longrightarrow> delivered_events w' = delivered_events w \<Longrightarrow> st' = None \<or> st' = Some st \<Longrightarrow>
  adds_events env H till st w st' w'"
  unfolding adds_events_def by (rule exI [of _ "[]"]) auto

lemma adds_events_trans:
  assumes "adds_events env H till st w (Some st1) w1" "adds_events env H till st1 w1 st2 w2"
  shows "adds_events env H till st w st2 w2"
proof -
  from assms(1) obtain xs where xs: "given_events w1 = given_events w @ xs"
      "delivered_events w1 = delivered_events w @ concat (List.map (\<lambda>ev. snd (dispatchIsolated env H ev)) xs)"
      "distinct (List.map ev_id xs)" "set (List.map ev_id xs) \<inter> set (rp_seen st) = {}" "\<forall>ev \<in> set xs. \<not> ledger_above till ev"
      "rp_seen st1 = rp_seen st @ List.map ev_id xs" "rp_dispatched st1 = rp_dispatched st + length xs"
      "rp_lastLedger st1 = (if xs = [] then rp_lastLedger st else ev_ledger (last xs))"
    unfolding adds_events_def option.case by blast
  from assms(2) obtain ys where ys: "given_events w2 = given_events w1 @ ys"
      "delivered_events w2 = delivered_events w1 @ concat (List.map (\<lambda>ev. snd (dispatchIsolated env H ev)) ys)"
      "distinct (List.map ev_id ys)" "set (List.map ev_id ys) \<inter> set (rp_seen st1) = {}" "\<forall>ev \<in> set ys. \<not> ledger_above till ev"
      "case st2 of None \<Rightarrow> True | Some u \<Rightarrow> rp_seen u = rp_seen st1 @ List.map ev_id ys \<and> rp_dispatched u = rp_dispatched st1 + length ys \<and>
            rp_lastLedger u = (if ys = [] then rp_lastLedger st1 else ev_ledger (last ys))"
    unfolding adds_events_def by blast
  show ?thesis
    unfolding adds_events_def
    by (rule exI [of _ "xs @ ys"]) (use xs ys in \<open>auto split: option.splits\<close>)
qed

lemma replay_dispatch_adds:
  "replay_dispatch env H ev w = (Inr (), w \<lparr> given_events := given_events w @ [ev],
     delivered_events := delivered_events w @ snd (dispatchIsolated env H ev) \<rparr>)"
  by (simp add: replay_dispatch_def io_modify_def)

lemma replay_page_adds:
  "\<exists>past u w'. replay_page env H till evs st w = (Inr (past, u), w') \<and> adds_events env H till st w (Some u) w' \<and> trace w' = trace w"
proof (induction evs arbitrary: st w)
  case Nil
  show ?case by (rule exI [of _ False]) (simp add: io_return_def adds_nothing)
next
  case (Cons ev evs)
  consider "ledger_above till ev" | "\<not> ledger_above till ev" "ev_id ev \<in> set (rp_seen st)"
    | "\<not> ledger_above till ev" "ev_id ev \<notin> set (rp_seen st)" by blast
  then show ?case
  proof cases
    case 1
    then show ?thesis by (intro exI [of _ True]) (simp add: io_return_def adds_nothing)
  next
    case 2
    then show ?thesis using Cons.IH [of st w] by simp
  next
    case 3
    let ?st = "\<lparr> rp_seen = rp_seen st @ [ev_id ev], rp_dispatched = rp_dispatched st + 1, rp_lastLedger = ev_ledger ev \<rparr>"
    let ?w = "w \<lparr> given_events := given_events w @ [ev], delivered_events := delivered_events w @ snd (dispatchIsolated env H ev) \<rparr>"
    have "adds_events env H till st w (Some ?st) ?w"
      unfolding adds_events_def by (rule exI [of _ "[ev]"]) (use 3 in simp)
    moreover obtain past u w' where "replay_page env H till evs ?st ?w = (Inr (past, u), w')" "adds_events env H till ?st ?w (Some u) w'"
        "trace w' = trace ?w"
      using Cons.IH by blast
    ultimately show ?thesis
      using 3 adds_events_trans by (fastforce simp: io_bind_def replay_dispatch_adds)
  qed
qed

lemma getEvents_adds:
  "given_events (snd (getEvents env node url req w)) = given_events w"
  "delivered_events (snd (getEvents env node url req w)) = delivered_events w"
  "\<exists>k \<le> 4. trace (snd (getEvents env node url req w)) = trace w @ replicate k (Get_events req)"
proof -
  have m: "rpc_world.more (snd (getEvents env node url req w)) = rpc_world.more w"
    unfolding getEvents_def by (rule keepsD [OF keeps_more_calls(3)])
  have "given_events v = given_events (rpc_world.extend initial_rpc_world (rpc_world.more v))"
    "delivered_events v = delivered_events (rpc_world.extend initial_rpc_world (rpc_world.more v))" for v :: "'z events_world_scheme"
    by (cases v, simp only: rpc_world.defs rpc_world.select_convs events_world.select_convs)+
  with m show "given_events (snd (getEvents env node url req w)) = given_events w"
    "delivered_events (snd (getEvents env node url req w)) = delivered_events w" by metis+
  show "\<exists>k \<le> 4. trace (snd (getEvents env node url req w)) = trace w @ replicate k (Get_events req)"
    unfolding getEvents_def by (rule proxied_call_trace)
qed

definition events_call :: "ext_call \<Rightarrow> bool" where
  "events_call c = (case c of Get_events _ \<Rightarrow> True | _ \<Rightarrow> False)"

lemma replay_loop_adds:
  "adds_events env H till st w
     (case fst (replay_loop env node H url addr start till size' most cur st n w) of Inl e \<Rightarrow> None | Inr u \<Rightarrow> Some u)
     (snd (replay_loop env node H url addr start till size' most cur st n w)) \<and>
   (\<exists>cs. trace (snd (replay_loop env node H url addr start till size' most cur st n w)) = trace w @ cs \<and>
     length cs \<le> 4 * n \<and> list_all events_call cs)"
proof (induction n arbitrary: cur st w)
  case 0
  show ?case by (simp add: io_throw_def adds_nothing)
next
  case (Suc n)
  let ?req = "case cur of Some c \<Rightarrow> Events_at_cursor c addr size' | None \<Rightarrow> Events_from_ledger start addr size'"
  obtain r w1 where g: "getEvents env node url ?req w = (r, w1)" by fastforce
  have w1: "given_events w1 = given_events w" "delivered_events w1 = delivered_events w"
    using getEvents_adds(1,2) [of env node url ?req w] g by simp_all
  obtain k where k: "k \<le> 4" "trace w1 = trace w @ replicate k (Get_events ?req)"
    using getEvents_adds(3) [of env node url ?req w] g by auto
  have calls: "list_all events_call (replicate k (Get_events ?req))" by (simp add: list_all_iff events_call_def)
  show ?case
  proof (cases r)
    case (Inl e)
    then show ?thesis using w1 k calls
      by (intro conjI exI [of _ "replicate k (Get_events ?req)"]) (simp_all add: io_bind_def g adds_nothing)
  next
    case (Inr page)
    obtain past u w2 where p: "replay_page env H till (pg_events page) st w1 = (Inr (past, u), w2)"
        "adds_events env H till st w1 (Some u) w2" "trace w2 = trace w1"
      using replay_page_adds [of env H till "pg_events page" st w1] by blast
    have a: "adds_events env H till st w (Some u) w2" using p(2) w1 by (simp add: adds_events_def)
    show ?thesis
    proof (cases "past \<or> given_or [] (pg_cursor page) = [] \<or> int (length (pg_events page)) < size'")
      case True
      then have "replay_loop env node H url addr start till size' most cur st (Suc n) w = (Inr u, w2)"
        by (auto simp: io_bind_def g Inr p(1) io_return_def)
      then show ?thesis using a k p(3) calls
        by (intro conjI exI [of _ "replicate k (Get_events ?req)"]) simp_all
    next
      case False
      then have l: "replay_loop env node H url addr start till size' most cur st (Suc n) w =
          replay_loop env node H url addr start till size' most (pg_cursor page) u n w2"
        by (simp add: io_bind_def g Inr p(1))
      obtain cs where cs: "trace (snd (replay_loop env node H url addr start till size' most (pg_cursor page) u n w2)) = trace w2 @ cs"
          "length cs \<le> 4 * n" "list_all events_call cs"
        using Suc.IH [of u w2 "pg_cursor page"] by blast
      show ?thesis
        unfolding l using adds_events_trans [OF a] Suc.IH [of u w2 "pg_cursor page"] cs k p(3) calls
        by (intro conjI exI [of _ "replicate k (Get_events ?req) @ cs"]) auto
    qed
  qed
qed

lemma latest_sequence_adds:
  "given_events (snd (latest_sequence env url w)) = given_events w"
  "delivered_events (snd (latest_sequence env url w)) = delivered_events w"
  "length (trace (snd (latest_sequence env url w))) \<le> length (trace w) + 4"
proof -
  have m: "rpc_world.more (snd (latest_sequence env url w)) = rpc_world.more w"
    unfolding latest_sequence_def by (rule keepsD, rule keeps_bind [OF keeps_more_calls(3)], rule keeps_pure(1))
  have "given_events v = given_events (rpc_world.extend initial_rpc_world (rpc_world.more v))"
    "delivered_events v = delivered_events (rpc_world.extend initial_rpc_world (rpc_world.more v))" for v :: "'z events_world_scheme"
    by (cases v, simp only: rpc_world.defs rpc_world.select_convs events_world.select_convs)+
  with m show "given_events (snd (latest_sequence env url w)) = given_events w"
    "delivered_events (snd (latest_sequence env url w)) = delivered_events w" by metis+
  obtain r w1 where p: "proxied_call env url Get_latest_ledger (\<lambda>n. ledger_reply_at env n) w = (r, w1)" by fastforce
  obtain k where "k \<le> 4" "trace w1 = trace w @ replicate k Get_latest_ledger"
    using proxied_call_trace [of env url Get_latest_ledger "\<lambda>n. ledger_reply_at env n" w] p by auto
  then show "length (trace (snd (latest_sequence env url w))) \<le> length (trace w) + 4"
    by (cases r) (simp_all add: latest_sequence_def io_bind_def p io_return_def)
qed

definition no_replay :: replay_state where
  "no_replay = \<lparr> rp_seen = [], rp_dispatched = 0, rp_lastLedger = None \<rparr>"

text \<open>The ledger a replay stops at, and the world it starts in.\<close>

lemma replay_reaches_loop:
  assumes "is_integer_num fromLedger \<and> int_of_num fromLedger \<ge> 1" "replay_to_ok fromLedger (ro_toLedger options)"
    "page_limit_ok (given_or (Num (of_int DEFAULT_REPLAY_PAGE_SIZE)) (ro_pageSize options))"
  obtains e w1 where "replayEvents env node H url addr fromLedger options w = (Inl e, w1)" "given_events w1 = given_events w"
      "delivered_events w1 = delivered_events w" "length (trace w1) \<le> length (trace w) + 4" "ro_toLedger options = None"
  | till w1 u w2 where "given_events w1 = given_events w" "delivered_events w1 = delivered_events w"
      "length (trace w1) \<le> length (trace w) + 4" "\<forall>t. ro_toLedger options = Some t \<longrightarrow> till = int_of_num t"
      "replay_loop env node H url addr (int_of_num fromLedger) till (int_of_num (given_or (Num (of_int DEFAULT_REPLAY_PAGE_SIZE)) (ro_pageSize options)))
         (given_or DEFAULT_REPLAY_MAX_PAGES (ro_maxPages options)) None no_replay (nat (given_or DEFAULT_REPLAY_MAX_PAGES (ro_maxPages options))) w1 = (u, w2)"
      "replayEvents env node H url addr fromLedger options w =
         (case u of Inl e \<Rightarrow> Inl e | Inr st \<Rightarrow> Inr (rp_dispatched st, rp_lastLedger st), w2)"
proof -
  let ?m = "case ro_toLedger options of Some t \<Rightarrow> io_return (int_of_num t) | None \<Rightarrow> latest_sequence env url"
  obtain r w1 where m: "?m w = (r, w1)" by fastforce
  have w1: "given_events w1 = given_events w" "delivered_events w1 = delivered_events w" "length (trace w1) \<le> length (trace w) + 4"
    using m latest_sequence_adds [of env url w] by (auto simp: io_return_def split: option.splits)
  show thesis
  proof (cases r)
    case (Inl e)
    have "ro_toLedger options = None" using m Inl by (auto simp: io_return_def split: option.splits)
    moreover have "replayEvents env node H url addr fromLedger options w = (Inl e, w1)"
      using assms m Inl by (simp add: replayEvents_def Let_def io_bind_def io_guard_def)
    ultimately show thesis using that(1) w1 by blast
  next
    case (Inr till)
    obtain u w2 where l: "replay_loop env node H url addr (int_of_num fromLedger) till
        (int_of_num (given_or (Num (of_int DEFAULT_REPLAY_PAGE_SIZE)) (ro_pageSize options)))
        (given_or DEFAULT_REPLAY_MAX_PAGES (ro_maxPages options)) None no_replay (nat (given_or DEFAULT_REPLAY_MAX_PAGES (ro_maxPages options))) w1 = (u, w2)"
      by fastforce
    have "\<forall>t. ro_toLedger options = Some t \<longrightarrow> till = int_of_num t" using m Inr by (auto simp: io_return_def)
    moreover have "replayEvents env node H url addr fromLedger options w =
        (case u of Inl e \<Rightarrow> Inl e | Inr st \<Rightarrow> Inr (rp_dispatched st, rp_lastLedger st), w2)"
      using assms m Inr l by (simp add: replayEvents_def Let_def io_bind_def io_guard_def no_replay_def io_return_def split: sum.split)
    ultimately show thesis using that(2) w1 l by blast
  qed
qed


section \<open>The cliff timer\<close>

datatype cliff_step = Check_at int | Leave

fun cliff_run :: "rat \<Rightarrow> cliff_step list \<Rightarrow> cliff_listener \<Rightarrow> cliff_listener" where
  "cliff_run t [] s = s"
| "cliff_run t (Check_at now # steps) s = cliff_run t steps (cliff_check t now s)"
| "cliff_run t (Leave # steps) s = cliff_run t steps (cliff_unsubscribe s)"

text \<open>A step at which the callback is due: a check at or after the cliff with no Leave before it.\<close>

fun cliff_due :: "rat \<Rightarrow> cliff_step list \<Rightarrow> bool" where
  "cliff_due t [] = False"
| "cliff_due t (Check_at now # steps) = (t \<le> of_int (now div 1000) \<or> cliff_due t steps)"
| "cliff_due t (Leave # steps) = False"

lemma cliff_run_over: "cliff_stopped s \<or> cliff_fired s > 0 \<Longrightarrow> cliff_fired (cliff_run t steps s) = cliff_fired s"
  by (induction t steps s rule: cliff_run.induct) (auto simp: cliff_check_def cliff_unsubscribe_def)

text \<open>
  The cliff callback fires at most once, and it fires exactly when some check reaches the
  cliff time before the listener is left.
\<close>
theorem cliff_fires_once:
  "\<exists>s. new_cliff_listener (Some (Num t)) = Inr s \<and> cliff_fired (cliff_run t steps s) = (if cliff_due t steps then 1 else 0)"
proof -
  have "\<not> cliff_stopped s \<Longrightarrow> cliff_fired s = 0 \<Longrightarrow> cliff_fired (cliff_run t steps s) = (if cliff_due t steps then 1 else 0)" for s
  proof (induction t steps s rule: cliff_run.induct)
    case (2 t now steps s)
    then show ?case by (auto simp: cliff_check_def cliff_run_over)
  qed (simp_all add: cliff_unsubscribe_def cliff_run_over)
  then show ?thesis by (simp add: new_cliff_listener_def)
qed

end
