(* ===== verification/Builder.thy ===== *)
theory Builder
  imports Batch_Tx
begin

text \<open>
  The stream builder (src/builder.ts, class StreamBuilder): validated setters, the
  configuration and the contract arguments it builds, and the submission of a configuration
  with retries behind a semaphore and a bounded queue.
\<close>

section \<open>The semaphore\<close>

text \<open>A waiter is named by a number; release answers the waiter it wakes.\<close>

record semaphore =
  sem_running :: int
  sem_queue :: "nat list"
  sem_max :: int

definition new_semaphore :: "int \<Rightarrow> semaphore" where
  "new_semaphore m = \<lparr> sem_running = 0, sem_queue = [], sem_max = m \<rparr>"

definition sem_acquire :: "nat \<Rightarrow> semaphore \<Rightarrow> bool \<times> semaphore" where
  "sem_acquire i s =
    (if sem_running s < sem_max s then (True, s \<lparr> sem_running := sem_running s + 1 \<rparr>)
     else (False, s \<lparr> sem_queue := sem_queue s @ [i] \<rparr>))"

definition sem_release :: "semaphore \<Rightarrow> nat option \<times> semaphore" where
  "sem_release s =
    (case sem_queue s of
       [] \<Rightarrow> (None, s \<lparr> sem_running := sem_running s - 1 \<rparr>)
     | i # rest \<Rightarrow> (Some i, s \<lparr> sem_running := sem_running s - 1 + 1, sem_queue := rest \<rparr>))"

section \<open>The builder\<close>

text \<open>What build returns.\<close>

record BuiltConfig =
  bf_token :: string
  bf_sender :: string
  bf_recipient :: string
  bf_amount :: string
  bf_ratePerSecond :: "string option"
  bf_startTime :: "jsnum option"
  bf_endTime :: "jsnum option"
  bf_clawbackEnabled :: "bool option"
  bf_cancelable :: "bool option"
  bf_clawbackable :: "bool option"

text \<open>
  The fields of a builder.  A pending payload carries a number for its identity as an object;
  sb_issued counts the payloads made so far.
\<close>

record StreamBuilder =
  sb_token :: "string option"
  sb_sender :: "string option"
  sb_recipient :: "string option"
  sb_amount :: "numeric_arg option"
  sb_ratePerSecond :: "numeric_arg option"
  sb_startTime :: "jsnum option"
  sb_endTime :: "jsnum option"
  sb_clawbackEnabled :: "bool option"
  sb_cancelable :: "bool option"
  sb_clawbackable :: "bool option"
  sb_memo :: "string option"
  sb_pendingQueue :: "(nat \<times> BuiltConfig) list"
  sb_isDestroyed :: bool
  sb_semaphore :: semaphore
  sb_maxQueueSize :: int
  sb_issued :: nat

definition DEFAULT_CONCURRENCY :: int where "DEFAULT_CONCURRENCY = 10"
definition DEFAULT_MAX_QUEUE_SIZE :: int where "DEFAULT_MAX_QUEUE_SIZE = 100"

definition new_StreamBuilder :: "int option \<Rightarrow> int option \<Rightarrow> StreamBuilder" where
  "new_StreamBuilder concurrency maxQueueSize = \<lparr> sb_token = None, sb_sender = None, sb_recipient = None, sb_amount = None,
     sb_ratePerSecond = None, sb_startTime = None, sb_endTime = None, sb_clawbackEnabled = None, sb_cancelable = None,
     sb_clawbackable = None, sb_memo = None, sb_pendingQueue = [], sb_isDestroyed = False,
     sb_semaphore = new_semaphore (given_or DEFAULT_CONCURRENCY concurrency),
     sb_maxQueueSize = given_or DEFAULT_MAX_QUEUE_SIZE maxQueueSize, sb_issued = 0 \<rparr>"

definition bad_parameter :: "string \<Rightarrow> thrown" where
  "bad_parameter m = plain_error (''Invalid StreamBuilder parameter: '' @ m)"

definition checked_address :: "strkey \<Rightarrow> string \<Rightarrow> string \<Rightarrow> (thrown, string) result" where
  "checked_address K a field =
    (if trim a = [] then Inl (bad_parameter (field @ '' must be a non-empty string''))
     else if field = ''token'' then
       (if \<not> isValidContract K a
        then Inl (bad_parameter (field @ '' must be a valid Soroban contract ID (C-address), got \"'' @ a @ ''\"''))
        else Inr a)
     else if \<not> isValidAddress K a
     then Inl (bad_parameter (field @ '' must be a valid Stellar public key or contract address (G-address or C-address), got \"'' @ a @ ''\"''))
     else Inr a)"

definition set_token :: "strkey \<Rightarrow> string \<Rightarrow> StreamBuilder \<Rightarrow> (thrown, StreamBuilder) result" where
  "set_token K a b = result_bind (checked_address K a ''token'') (\<lambda>x. Inr (b \<lparr> sb_token := Some x \<rparr>))"

definition set_sender :: "strkey \<Rightarrow> string \<Rightarrow> StreamBuilder \<Rightarrow> (thrown, StreamBuilder) result" where
  "set_sender K a b = result_bind (checked_address K a ''sender'') (\<lambda>x. Inr (b \<lparr> sb_sender := Some x \<rparr>))"

definition set_recipient :: "strkey \<Rightarrow> string \<Rightarrow> StreamBuilder \<Rightarrow> (thrown, StreamBuilder) result" where
  "set_recipient K a b = result_bind (checked_address K a ''recipient'') (\<lambda>x. Inr (b \<lparr> sb_recipient := Some x \<rparr>))"

text \<open>An amount or a rate is a number, a bigint or a string.\<close>

datatype numeric_input = Given numeric_arg | GivenText string

definition signed_digits :: "string \<Rightarrow> bool" where
  "signed_digits s = (let d = (if s \<noteq> [] \<and> hd s = CHR ''-'' then tl s else s) in d \<noteq> [] \<and> list_all is_digit d)"

definition signed_value :: "string \<Rightarrow> int" where
  "signed_value s = (if hd s = CHR ''-'' then - int (digits_val (tl s)) else int (digits_val s))"

definition normalized_number :: "numeric_input \<Rightarrow> numeric_arg" where
  "normalized_number v =
    (case v of
       Given n \<Rightarrow> n
     | GivenText s \<Rightarrow>
         let trimmed = trim s in
         if signed_digits trimmed then BigintArg (signed_value trimmed) else NumberArg (number_of_string trimmed))"

fun positive_number :: "numeric_arg \<Rightarrow> bool" where
  "positive_number (BigintArg n) = (0 < n)"
| "positive_number (NumberArg (Num q)) = (0 < q)"
| "positive_number (NumberArg _) = False"

definition checked_number :: "string \<Rightarrow> numeric_input \<Rightarrow> (thrown, numeric_arg) result" where
  "checked_number field v =
    (let n = normalized_number v in
     if positive_number n then Inr n
     else Inl (bad_parameter (field @ (case n of BigintArg _ \<Rightarrow> '' must be a positive value''
                                       | NumberArg _ \<Rightarrow> '' must be a positive finite number''))))"

definition set_amount :: "numeric_input \<Rightarrow> StreamBuilder \<Rightarrow> (thrown, StreamBuilder) result" where
  "set_amount v b = result_bind (checked_number ''amount'' v) (\<lambda>n. Inr (b \<lparr> sb_amount := Some n \<rparr>))"

definition set_ratePerSecond :: "numeric_input \<Rightarrow> StreamBuilder \<Rightarrow> (thrown, StreamBuilder) result" where
  "set_ratePerSecond v b = result_bind (checked_number ''ratePerSecond'' v) (\<lambda>n. Inr (b \<lparr> sb_ratePerSecond := Some n \<rparr>))"

definition timestamp_ok :: "jsnum \<Rightarrow> bool" where
  "timestamp_ok v = (is_integer_num v \<and> 0 \<le> int_of_num v)"

text \<open>nowMs is Date.now() at the call.\<close>

definition set_startTime :: "int \<Rightarrow> jsnum \<Rightarrow> StreamBuilder \<Rightarrow> (thrown, StreamBuilder) result" where
  "set_startTime nowMs v b =
    (if \<not> timestamp_ok v then Inl (bad_parameter ''startTime must be a non-negative integer Unix timestamp'')
     else if int_of_num v < nowMs div 1000 then Inl (bad_parameter ''startTime cannot be in the past'')
     else Inr (b \<lparr> sb_startTime := Some v \<rparr>))"

definition set_endTime :: "jsnum \<Rightarrow> StreamBuilder \<Rightarrow> (thrown, StreamBuilder) result" where
  "set_endTime v b =
    (if \<not> timestamp_ok v then Inl (bad_parameter ''endTime must be a non-negative integer Unix timestamp'')
     else Inr (b \<lparr> sb_endTime := Some v \<rparr>))"

definition set_clawbackEnabled :: "jsval \<Rightarrow> StreamBuilder \<Rightarrow> (thrown, StreamBuilder) result" where
  "set_clawbackEnabled v b =
    (case v of JBool c \<Rightarrow> Inr (b \<lparr> sb_clawbackEnabled := Some c \<rparr>) | _ \<Rightarrow> Inl (bad_parameter ''clawbackEnabled must be a boolean''))"

definition setCancelable :: "jsval \<Rightarrow> StreamBuilder \<Rightarrow> (thrown, StreamBuilder) result" where
  "setCancelable v b =
    (case v of JBool c \<Rightarrow> Inr (b \<lparr> sb_cancelable := Some c \<rparr>) | _ \<Rightarrow> Inl (bad_parameter ''cancelable must be a boolean''))"

definition setClawbackable :: "jsval \<Rightarrow> StreamBuilder \<Rightarrow> (thrown, StreamBuilder) result" where
  "setClawbackable v b =
    (case v of JBool c \<Rightarrow> Inr (b \<lparr> sb_clawbackable := Some c, sb_clawbackEnabled := Some c \<rparr>)
     | _ \<Rightarrow> Inl (bad_parameter ''clawbackable must be a boolean''))"

text \<open>Memo.text of the Stellar SDK is the argument memo_text.\<close>

definition validation_error :: "string list \<Rightarrow> thrown" where
  "validation_error issues =
    new_error (ValidationError issues)
      (case issues of [i] \<Rightarrow> i | _ \<Rightarrow> show_nat (length issues) @ '' validation issue(s): '' @ join_with ''; '' issues)"

definition withMemo :: "(string \<Rightarrow> (thrown, string) result) \<Rightarrow> string \<Rightarrow> StreamBuilder \<Rightarrow> (thrown, StreamBuilder) result" where
  "withMemo memo_text m b =
    (case memo_text m of
       Inl e \<Rightarrow> Inl (validation_error [''memo is invalid: '' @ err_message e])
     | Inr x \<Rightarrow> Inr (b \<lparr> sb_memo := Some x \<rparr>))"

section \<open>Building\<close>

definition missing :: "'a option \<Rightarrow> string \<Rightarrow> string list" where
  "missing v field = (if v = None then [field @ '' is required''] else [])"

definition validate_builder :: "StreamBuilder \<Rightarrow> string list" where
  "validate_builder b = missing (sb_token b) ''token'' @ missing (sb_sender b) ''sender'' @ missing (sb_recipient b) ''recipient'' @
     missing (sb_amount b) ''amount''"

text \<open>String of a number or a bigint; show_number prints a number that is no integer.\<close>

definition numeric_text :: "(jsnum \<Rightarrow> string) \<Rightarrow> numeric_arg \<Rightarrow> string" where
  "numeric_text show_number n =
    (case n of BigintArg i \<Rightarrow> show_int i
     | NumberArg q \<Rightarrow> if is_integer_num q then show_int (int_of_num q) else show_number q)"

definition builder_destroyed :: thrown where
  "builder_destroyed = plain_error ''StreamBuilder has been destroyed''"

definition build :: "(jsnum \<Rightarrow> string) \<Rightarrow> StreamBuilder \<Rightarrow> (thrown, BuiltConfig) result" where
  "build show_number b =
    (if sb_isDestroyed b then Inl builder_destroyed
     else
       let issues = validate_builder b in
       if issues \<noteq> [] then Inl (validation_error issues)
       else Inr \<lparr> bf_token = given_or [] (sb_token b), bf_sender = given_or [] (sb_sender b), bf_recipient = given_or [] (sb_recipient b),
         bf_amount = numeric_text show_number (given_or (BigintArg 0) (sb_amount b)),
         bf_ratePerSecond = map_option (numeric_text show_number) (sb_ratePerSecond b), bf_startTime = sb_startTime b,
         bf_endTime = sb_endTime b, bf_clawbackEnabled = sb_clawbackEnabled b, bf_cancelable = sb_cancelable b,
         bf_clawbackable = sb_clawbackable b \<rparr>)"

definition js_numeric :: "numeric_arg \<Rightarrow> jsval" where
  "js_numeric n = (case n of NumberArg q \<Rightarrow> JNumber q | BigintArg i \<Rightarrow> JBigint i)"

text \<open>The positional arguments of create_stream; native is nativeToScVal of the Stellar SDK.\<close>

definition toContractArgs ::
    "outside \<Rightarrow> native_codec \<Rightarrow> (jsnum \<Rightarrow> string) \<Rightarrow> int \<Rightarrow> StreamBuilder \<Rightarrow> (thrown, sc_val list) result" where
  "toContractArgs env native show_number nowMs b =
    result_bind (build show_number b) (\<lambda>cfg.
    case sb_ratePerSecond b of
      None \<Rightarrow> Inl (bad_parameter ''ratePerSecond is required to build create_stream contract arguments'')
    | Some rate \<Rightarrow>
        result_bind (address_toScVal env (bf_sender cfg)) (\<lambda>s.
        result_bind (address_toScVal env (bf_recipient cfg)) (\<lambda>r.
        result_bind (address_toScVal env (bf_token cfg)) (\<lambda>t.
        result_bind (native (JString (bf_amount cfg)) (Some ''i128'')) (\<lambda>a.
        result_bind (native (js_numeric rate) (Some ''i128'')) (\<lambda>q.
        result_bind (native (JNumber (given_or (Num (of_int (nowMs div 1000))) (sb_startTime b))) (Some ''u64'')) (\<lambda>st.
        result_bind (native (JNumber (given_or (Num 0) (sb_endTime b))) (Some ''u64'')) (\<lambda>en.
        Inr [s, r, t, a, q, st, en, boolToScVal (given_or False (sb_clawbackEnabled b))]))))))))"

definition toBatchOperation ::
    "outside \<Rightarrow> native_codec \<Rightarrow> (jsnum \<Rightarrow> string) \<Rightarrow> int \<Rightarrow> string option \<Rightarrow> StreamBuilder \<Rightarrow> (thrown, BuildableOperation) result" where
  "toBatchOperation env native show_number nowMs m b =
    result_bind (toContractArgs env native show_number nowMs b) (\<lambda>args.
      Inr \<lparr> op_method = Some (given_or ''create_stream'' m), op_params = [], op_types = (\<lambda>_. None), op_args = Some (List.map Encoded args) \<rparr>)"

text \<open>Network settings.\<close>

record SimulateOptions =
  so_factoryId :: string
  so_network :: "string option"
  so_rpcUrl :: "string option"
  so_networkPassphrase :: "string option"
  so_fee :: "string option"
  so_feeMultiplier :: "jsnum option"

definition builder_url :: "SimulateOptions \<Rightarrow> string" where
  "builder_url options = given_or (DEFAULT_RPC (given_or ''testnet'' (so_network options))) (so_rpcUrl options)"

definition buildTransaction ::
    "outside \<Rightarrow> native_codec \<Rightarrow> (jsnum \<Rightarrow> string) \<Rightarrow> SimulateOptions \<Rightarrow> StreamBuilder
      \<Rightarrow> ('z rpc_world_scheme, contract_tx) io" where
  "buildTransaction env native show_number options b =
    io_bind (io_guard (\<not> sb_isDestroyed b) builder_destroyed) (\<lambda>_.
    io_bind (io_now env) (\<lambda>now.
    io_bind (io_lift (toContractArgs env native show_number now b)) (\<lambda>args.
    io_bind (io_lift (resolveFee (so_fee options) (so_feeMultiplier options))) (\<lambda>fee.
    buildContractCallTx env (builder_url options) (given_or [] (sb_sender b)) (so_factoryId options) ''create_stream'' args
      fee (sb_memo b) None))))"

record SimulationResult =
  sr_minResourceFee :: int
  sr_cpuInstructions :: int
  sr_readBytes :: int
  sr_writeBytes :: int
  sr_raw :: sim_success

text \<open>
  resources reads the footprint out of the simulation, bigint_of is BigInt of its fee; both are
  the Stellar SDK's and JavaScript's on values the model does not look into.
\<close>

definition simulate_builder ::
    "outside \<Rightarrow> native_codec \<Rightarrow> (jsnum \<Rightarrow> string) \<Rightarrow> (sim_success \<Rightarrow> int \<times> int \<times> int) \<Rightarrow> (jsval \<Rightarrow> (thrown, int) result)
      \<Rightarrow> SimulateOptions \<Rightarrow> StreamBuilder \<Rightarrow> ('z rpc_world_scheme, SimulationResult) io" where
  "simulate_builder env native show_number resources bigint_of options b =
    io_bind (buildTransaction env native show_number options b) (\<lambda>tx.
    io_bind (simulate env (builder_url options) ''simulateTransaction (dry run)'' tx) (\<lambda>sim.
    case sim of
      Sim_error e \<Rightarrow> io_throw (plain_error (''Simulation failed: '' @ e))
    | Sim_ok r \<Rightarrow>
        io_bind (io_lift (bigint_of (sim_minResourceFee r))) (\<lambda>fee.
        let (cpu, reads, writes) = resources r in
        io_return \<lparr> sr_minResourceFee = fee, sr_cpuInstructions = cpu, sr_readBytes = reads, sr_writeBytes = writes, sr_raw = r \<rparr>)))"

section \<open>Submission\<close>

text \<open>
  What happens around the attempts of one submission: the answers of submitFn, the abort
  signal before an attempt, after a failure and during a wait, and whether the builder is
  destroyed before an attempt or its timers are cleared during a wait.
\<close>

record submission =
  submit_answer :: "nat \<Rightarrow> (thrown, jsval) result"
  aborted_before :: "nat \<Rightarrow> bool"
  aborted_after :: "nat \<Rightarrow> bool"
  aborted_waiting :: "nat \<Rightarrow> bool"
  destroyed_before :: "nat \<Rightarrow> bool"
  cleared_waiting :: "nat \<Rightarrow> bool"

text \<open>A wait whose timer is cleared never ends, and neither does the promise of its submission.\<close>

datatype submit_end = Returned jsval | Raised thrown | Never

definition submit_aborted :: thrown where
  "submit_aborted = new_error (OperationAbortedError ''submit'') ''Operation aborted: submit''"

fun submit_attempts ::
    "submission \<Rightarrow> int \<Rightarrow> int \<Rightarrow> nat \<Rightarrow> string \<Rightarrow> nat \<Rightarrow> submit_end \<times> nat \<times> int list" where
  "submit_attempts S retries base att lastError 0 =
    (Raised (plain_error (''StreamBuilder network payload submission failed after '' @ show_int retries @ '' retries: '' @ lastError)), 0, [])"
| "submit_attempts S retries base att lastError (Suc n) =
    (if destroyed_before S att then (Raised (plain_error ''StreamBuilder was destroyed during submission''), 0, [])
     else if aborted_before S att then (Raised submit_aborted, 0, [])
     else case submit_answer S att of
       Inr v \<Rightarrow> (Returned v, 1, [])
     | Inl e \<Rightarrow>
         if aborted_after S att then (Raised submit_aborted, 1, [])
         else if int (att + 1) \<le> retries then
           (let delay = base * 2 ^ att in
            if cleared_waiting S att then (Never, 1, [delay])
            else if aborted_waiting S att then (Raised submit_aborted, 1, [delay])
            else case submit_attempts S retries base (att + 1) (err_message e) n of
                   (r, calls, delays) \<Rightarrow> (r, calls + 1, delay # delays))
         else (case submit_attempts S retries base (att + 1) (err_message e) n of (r, calls, delays) \<Rightarrow> (r, calls + 1, delays)))"

definition submit_run :: "submission \<Rightarrow> int option \<Rightarrow> int option \<Rightarrow> submit_end \<times> nat \<times> int list" where
  "submit_run S retries retryDelay =
    submit_attempts S (given_or 3 retries) (given_or 100 retryDelay) 0 ''undefined'' (nat (given_or 3 retries + 1))"

text \<open>submit up to its wait for the semaphore: the number of its payload, and whether it may run.\<close>

definition submit_begin :: "(jsnum \<Rightarrow> string) \<Rightarrow> bool \<Rightarrow> StreamBuilder \<Rightarrow> (thrown, nat \<times> bool \<times> StreamBuilder) result" where
  "submit_begin show_number gone b =
    (if sb_isDestroyed b then Inl builder_destroyed
     else if gone then Inl submit_aborted
     else if int (length (sb_pendingQueue b)) \<ge> sb_maxQueueSize b then
       Inl (plain_error (''StreamBuilder queue is full ('' @ show_int (sb_maxQueueSize b) @ '' pending). '' @
         ''Retry later or increase maxQueueSize.''))
     else result_bind (build show_number b) (\<lambda>payload.
       let i = sb_issued b; (granted, sem) = sem_acquire i (sb_semaphore b) in
       Inr (i, granted, b \<lparr> sb_pendingQueue := sb_pendingQueue b @ [(i, payload)], sb_issued := i + 1, sb_semaphore := sem \<rparr>)))"

text \<open>Its finally block: the payload leaves the queue, the semaphore may wake another submission.\<close>

definition submit_finally :: "nat \<Rightarrow> StreamBuilder \<Rightarrow> nat option \<times> StreamBuilder" where
  "submit_finally i b =
    (let (woken, sem) = sem_release (sb_semaphore b) in
     (woken, b \<lparr> sb_pendingQueue := filter (\<lambda>p. fst p \<noteq> i) (sb_pendingQueue b), sb_semaphore := sem \<rparr>))"

definition getPendingQueue :: "StreamBuilder \<Rightarrow> BuiltConfig list" where
  "getPendingQueue b = List.map snd (sb_pendingQueue b)"

section \<open>Tear-down, reset and copies\<close>

definition builder_cleanup :: "StreamBuilder \<Rightarrow> StreamBuilder" where
  "builder_cleanup b = b \<lparr> sb_isDestroyed := True, sb_pendingQueue := [] \<rparr>"

definition builder_destroy :: "StreamBuilder \<Rightarrow> StreamBuilder" where
  "builder_destroy b = builder_cleanup b"

definition builder_reset :: "StreamBuilder \<Rightarrow> StreamBuilder" where
  "builder_reset b = b \<lparr> sb_token := None, sb_sender := None, sb_recipient := None, sb_amount := None, sb_ratePerSecond := None,
     sb_startTime := None, sb_endTime := None, sb_clawbackEnabled := None, sb_memo := None, sb_pendingQueue := [], sb_isDestroyed := False \<rparr>"

definition builder_clone :: "StreamBuilder \<Rightarrow> StreamBuilder" where
  "builder_clone b = (new_StreamBuilder None (Some (sb_maxQueueSize b))) \<lparr> sb_token := sb_token b, sb_sender := sb_sender b,
     sb_recipient := sb_recipient b, sb_amount := sb_amount b, sb_ratePerSecond := sb_ratePerSecond b, sb_startTime := sb_startTime b,
     sb_endTime := sb_endTime b, sb_clawbackEnabled := sb_clawbackEnabled b, sb_memo := sb_memo b \<rparr>"

record BuilderConfig =
  fc_token :: "string option"
  fc_sender :: "string option"
  fc_recipient :: "string option"
  fc_amount :: "numeric_input option"
  fc_depositAmount :: "numeric_input option"
  fc_ratePerSecond :: "numeric_input option"
  fc_startTime :: "jsnum option"
  fc_endTime :: "jsnum option"
  fc_durationSeconds :: "jsnum option"
  fc_clawbackEnabled :: "bool option"

text \<open>A setter for an optional value: nothing when it is absent.\<close>

definition set_given :: "('a \<Rightarrow> StreamBuilder \<Rightarrow> (thrown, StreamBuilder) result) \<Rightarrow> 'a option \<Rightarrow> StreamBuilder \<Rightarrow> (thrown, StreamBuilder) result" where
  "set_given f v b = (case v of None \<Rightarrow> Inr b | Some x \<Rightarrow> f x b)"

definition set_named :: "(string \<Rightarrow> StreamBuilder \<Rightarrow> (thrown, StreamBuilder) result) \<Rightarrow> string option \<Rightarrow> StreamBuilder \<Rightarrow> (thrown, StreamBuilder) result" where
  "set_named f v b = (case v of None \<Rightarrow> Inr b | Some x \<Rightarrow> if x = [] then Inr b else f x b)"

definition start_from_config :: "int \<Rightarrow> jsnum \<Rightarrow> StreamBuilder \<Rightarrow> (thrown, StreamBuilder) result" where
  "start_from_config nowMs v b =
    (if num_le (Num (of_int (nowMs div 1000))) v then set_startTime nowMs v b else Inr (b \<lparr> sb_startTime := Some v \<rparr>))"

definition end_from_config :: "BuilderConfig \<Rightarrow> jsnum option" where
  "end_from_config cfg =
    (case fc_endTime cfg of Some e \<Rightarrow> Some e
     | None \<Rightarrow> (case (fc_durationSeconds cfg, fc_startTime cfg) of (Some d, Some s) \<Rightarrow> Some (num_add s d) | _ \<Rightarrow> None))"

definition fromConfig :: "strkey \<Rightarrow> int \<Rightarrow> BuilderConfig \<Rightarrow> (thrown, StreamBuilder) result" where
  "fromConfig K nowMs cfg =
    result_bind (set_named (set_token K) (fc_token cfg) (new_StreamBuilder None None)) (\<lambda>b1.
    result_bind (set_named (set_sender K) (fc_sender cfg) b1) (\<lambda>b2.
    result_bind (set_named (set_recipient K) (fc_recipient cfg) b2) (\<lambda>b3.
    result_bind (set_given set_amount (case fc_amount cfg of Some a \<Rightarrow> Some a | None \<Rightarrow> fc_depositAmount cfg) b3) (\<lambda>b4.
    result_bind (set_given set_ratePerSecond (fc_ratePerSecond cfg) b4) (\<lambda>b5.
    result_bind (set_given (start_from_config nowMs) (fc_startTime cfg) b5) (\<lambda>b6.
    result_bind (set_given set_endTime (end_from_config cfg) b6) (\<lambda>b7.
    set_given (\<lambda>c. set_clawbackEnabled (JBool c)) (fc_clawbackEnabled cfg) b7)))))))"

end
