(* ===== verification/Builder_Properties.thy ===== *)
theory Builder_Properties
  imports Builder
begin

text \<open>
  Properties of the builder: what its setters let through, how its semaphore serves
  submissions, when a submission settles, and that a dry run only reads.
\<close>

section \<open>Configured builders\<close>

text \<open>Builders reached by successful setter calls, at whatever times and arguments.\<close>

inductive configured :: "strkey \<Rightarrow> StreamBuilder \<Rightarrow> bool" for K where
  fresh: "configured K (new_StreamBuilder c q)"
| token: "configured K b \<Longrightarrow> set_token K a b = Inr b' \<Longrightarrow> configured K b'"
| sender: "configured K b \<Longrightarrow> set_sender K a b = Inr b' \<Longrightarrow> configured K b'"
| recipient: "configured K b \<Longrightarrow> set_recipient K a b = Inr b' \<Longrightarrow> configured K b'"
| amount: "configured K b \<Longrightarrow> set_amount v b = Inr b' \<Longrightarrow> configured K b'"
| rate: "configured K b \<Longrightarrow> set_ratePerSecond v b = Inr b' \<Longrightarrow> configured K b'"
| start_time: "configured K b \<Longrightarrow> set_startTime now t b = Inr b' \<Longrightarrow> configured K b'"
| end_time: "configured K b \<Longrightarrow> set_endTime t b = Inr b' \<Longrightarrow> configured K b'"
| clawback: "configured K b \<Longrightarrow> set_clawbackEnabled x b = Inr b' \<Longrightarrow> configured K b'"
| cancelable: "configured K b \<Longrightarrow> setCancelable x b = Inr b' \<Longrightarrow> configured K b'"
| clawbackable: "configured K b \<Longrightarrow> setClawbackable x b = Inr b' \<Longrightarrow> configured K b'"
| memo: "configured K b \<Longrightarrow> withMemo memo_text m b = Inr b' \<Longrightarrow> configured K b'"

definition all_given :: "('a \<Rightarrow> bool) \<Rightarrow> 'a option \<Rightarrow> bool" where
  "all_given p v = (case v of None \<Rightarrow> True | Some x \<Rightarrow> p x)"

definition builder_ok :: "strkey \<Rightarrow> StreamBuilder \<Rightarrow> bool" where
  "builder_ok K b = (all_given (isValidContract K) (sb_token b) \<and> all_given (isValidAddress K) (sb_sender b) \<and>
     all_given (isValidAddress K) (sb_recipient b) \<and> all_given positive_number (sb_amount b) \<and>
     all_given positive_number (sb_ratePerSecond b) \<and> all_given timestamp_ok (sb_startTime b) \<and> all_given timestamp_ok (sb_endTime b) \<and>
     (sb_clawbackable b \<noteq> None \<longrightarrow> sb_clawbackEnabled b \<noteq> None) \<and> \<not> sb_isDestroyed b)"


lemma checked_address_Inr: "checked_address K a field = Inr x \<Longrightarrow> x = a \<and> (if field = ''token'' then isValidContract K a else isValidAddress K a)"
  by (simp add: checked_address_def split: if_splits)

lemma checked_number_Inr: "checked_number field v = Inr n \<Longrightarrow> positive_number n"
  by (simp add: checked_number_def Let_def split: if_splits)

lemma configured_ok: "configured K b \<Longrightarrow> builder_ok K b"
proof (induction rule: configured.induct)
  case (amount b v b')
  then show ?case by (auto simp: set_amount_def builder_ok_def all_given_def result_bind_Inr_iff dest: checked_number_Inr)
next
  case (rate b v b')
  then show ?case by (auto simp: set_ratePerSecond_def builder_ok_def all_given_def result_bind_Inr_iff dest: checked_number_Inr)
qed (auto simp: set_token_def set_sender_def set_recipient_def set_startTime_def set_endTime_def set_clawbackEnabled_def setCancelable_def
    setClawbackable_def withMemo_def builder_ok_def all_given_def new_StreamBuilder_def result_bind_Inr_iff dest!: checked_address_Inr
    split: if_splits jsval.splits sum.splits)

text \<open>
  A configuration that is built has a valid contract as token, valid addresses as sender and
  recipient, and sensible times; what cannot be built is reported with one issue for each
  missing field, in the order of the fields, and with nothing else.
\<close>
theorem built_configurations_valid:
  assumes "configured K b"
  shows "case build show_number b of
      Inl e \<Rightarrow> e = validation_error (validate_builder b) \<and> validate_builder b \<noteq> []
    | Inr cfg \<Rightarrow> isValidContract K (bf_token cfg) \<and> isValidAddress K (bf_sender cfg) \<and> isValidAddress K (bf_recipient cfg) \<and>
        (\<exists>n. positive_number n \<and> bf_amount cfg = numeric_text show_number n) \<and>
        all_given timestamp_ok (bf_startTime cfg) \<and> all_given timestamp_ok (bf_endTime cfg)"
  using configured_ok [OF assms]
  by (auto simp: builder_ok_def build_def Let_def validate_builder_def missing_def all_given_def given_or_def split: option.splits)

lemma built_configurations_valid_witness:
  "build (\<lambda>_. []) (new_StreamBuilder None None) =
    Inl (validation_error [''token is required'', ''sender is required'', ''recipient is required'', ''amount is required''])"
  using built_configurations_valid [of sample_strkey "new_StreamBuilder None None" "\<lambda>_. []", OF configured.fresh]
  by (auto simp: build_def Let_def validate_builder_def missing_def new_StreamBuilder_def)

text \<open>A start time in the past goes into a builder unchecked when it comes from a configuration.\<close>

lemma config_start_unchecked:
  "\<exists>b. fromConfig K 5000 \<lparr> fc_token = None, fc_sender = None, fc_recipient = None, fc_amount = None, fc_depositAmount = None,
     fc_ratePerSecond = None, fc_startTime = Some (Num (- 3 / 2)), fc_endTime = None, fc_durationSeconds = None, fc_clawbackEnabled = None \<rparr> = Inr b \<and>
     sb_startTime b = Some (Num (- 3 / 2)) \<and> \<not> timestamp_ok (Num (- 3 / 2))"
  by (simp add: fromConfig_def set_named_def set_given_def start_from_config_def end_from_config_def timestamp_ok_def)

section \<open>Copies\<close>

text \<open>Reset keeps, and clone drops, the two flags the newer setters write.\<close>

lemma reset_keeps_flags: "sb_cancelable (builder_reset b) = sb_cancelable b \<and> sb_clawbackable (builder_reset b) = sb_clawbackable b"
  by (simp add: builder_reset_def)

lemma clone_drops_flags:
  "sb_cancelable (builder_clone b) = None \<and> sb_clawbackable (builder_clone b) = None \<and>
   sem_max (sb_semaphore (builder_clone b)) = DEFAULT_CONCURRENCY"
  by (simp add: builder_clone_def new_StreamBuilder_def new_semaphore_def given_or_def)

section \<open>Submissions behind the semaphore\<close>

text \<open>
  A builder with its submissions: those that hold the semaphore, and the orders in which
  submissions asked for it and got it.  Between them the caller may set any field, clean up or
  reset.
\<close>

definition same_queues :: "StreamBuilder \<Rightarrow> StreamBuilder \<Rightarrow> bool" where
  "same_queues b b' = (sb_semaphore b' = sb_semaphore b \<and> sb_pendingQueue b' = sb_pendingQueue b \<and>
     sb_maxQueueSize b' = sb_maxQueueSize b \<and> sb_issued b' = sb_issued b)"

inductive builder_run :: "(jsnum \<Rightarrow> string) \<Rightarrow> StreamBuilder \<Rightarrow> nat list \<Rightarrow> nat list \<Rightarrow> nat list \<Rightarrow> bool"
  for show_number where
  fresh: "builder_run show_number (new_StreamBuilder c q) [] [] []"
| submit: "builder_run show_number b held asked got \<Longrightarrow> submit_begin show_number gone b = Inr (i, granted, b') \<Longrightarrow>
    builder_run show_number b' (held @ (if granted then [i] else [])) (asked @ [i]) (got @ (if granted then [i] else []))"
| settle: "builder_run show_number b held asked got \<Longrightarrow> i \<in> set held \<Longrightarrow> submit_finally i b = (woken, b') \<Longrightarrow>
    builder_run show_number b' (remove1 i held @ (case woken of None \<Rightarrow> [] | Some j \<Rightarrow> [j])) asked
      (got @ (case woken of None \<Rightarrow> [] | Some j \<Rightarrow> [j]))"
| configure: "builder_run show_number b held asked got \<Longrightarrow> same_queues b b' \<Longrightarrow> builder_run show_number b' held asked got"
| cleanup: "builder_run show_number b held asked got \<Longrightarrow> builder_run show_number (builder_cleanup b) held asked got"
| reset: "builder_run show_number b held asked got \<Longrightarrow> builder_run show_number (builder_reset b) held asked got"

definition serving :: "StreamBuilder \<Rightarrow> nat list \<Rightarrow> nat list \<Rightarrow> nat list \<Rightarrow> bool" where
  "serving b held asked got =
    (let s = sb_semaphore b in
     sem_running s = int (length held) \<and> sem_running s \<le> max 0 (sem_max s) \<and> (sem_queue s \<noteq> [] \<longrightarrow> sem_max s \<le> sem_running s) \<and>
     got @ sem_queue s = asked \<and> set held \<subseteq> set got \<and> int (length (sb_pendingQueue b)) \<le> max 0 (sb_maxQueueSize b) \<and>
     set (List.map fst (sb_pendingQueue b)) \<subseteq> set held \<union> set (sem_queue s))"

lemma serving_submit:
  assumes "serving b held asked got" "submit_begin show_number gone b = Inr (i, granted, b')"
  shows "serving b' (held @ (if granted then [i] else [])) (asked @ [i]) (got @ (if granted then [i] else []))"
proof -
  obtain g sem where a: "sem_acquire (sb_issued b) (sb_semaphore b) = (g, sem)" by fastforce
  from assms(2) a obtain payload where "int (length (sb_pendingQueue b)) < sb_maxQueueSize b" "sem_acquire i (sb_semaphore b) = (granted, sem)"
      "b' = b \<lparr> sb_pendingQueue := sb_pendingQueue b @ [(i, payload)], sb_issued := i + 1, sb_semaphore := sem \<rparr>"
    by (auto simp: submit_begin_def result_bind_Inr_iff Let_def split: if_splits)
  then show ?thesis using assms(1)
    by (cases "sem_running (sb_semaphore b) < sem_max (sb_semaphore b)")
       (auto simp: serving_def sem_acquire_def Let_def)
qed

lemma serving_settle:
  assumes "serving b held asked got" "i \<in> set held" "submit_finally i b = (woken, b')"
  shows "serving b' (remove1 i held @ (case woken of None \<Rightarrow> [] | Some j \<Rightarrow> [j])) asked (got @ (case woken of None \<Rightarrow> [] | Some j \<Rightarrow> [j]))"
proof -
  have b': "b' = b \<lparr> sb_pendingQueue := filter (\<lambda>p. fst p \<noteq> i) (sb_pendingQueue b), sb_semaphore := snd (sem_release (sb_semaphore b)) \<rparr>"
      "woken = fst (sem_release (sb_semaphore b))"
    using assms(3) by (auto simp: submit_finally_def split: prod.splits)
  have len: "length held = Suc (length (remove1 i held))" using assms(2) by (metis length_remove1 One_nat_def Suc_pred length_pos_if_in_set)
  have sub: "set (remove1 i held) \<subseteq> set got" "\<And>x. x \<in> set held \<Longrightarrow> x \<noteq> i \<Longrightarrow> x \<in> set (remove1 i held)"
    using assms(1) by (auto simp: serving_def Let_def dest: notin_set_remove1 set_remove1_subset [THEN subsetD])
  have q: "int (length (filter (\<lambda>p. fst p \<noteq> i) (sb_pendingQueue b))) \<le> max 0 (sb_maxQueueSize b)"
  proof (rule order_trans)
    show "int (length (filter (\<lambda>p. fst p \<noteq> i) (sb_pendingQueue b))) \<le> int (length (sb_pendingQueue b))" by simp
    show "int (length (sb_pendingQueue b)) \<le> max 0 (sb_maxQueueSize b)" using assms(1) by (simp add: serving_def Let_def)
  qed
  show ?thesis
  proof (cases "sem_queue (sb_semaphore b)")
    case Nil
    then show ?thesis using assms(1) sub q len
      by (auto simp: serving_def Let_def b' sem_release_def)
  next
    case (Cons j rest)
    then show ?thesis using assms(1) sub q len
      by (auto simp: serving_def Let_def b' sem_release_def)
  qed
qed

text \<open>
  C16: However submissions, their ends, resets and clean-ups interleave: no more submissions run
  than the semaphore allows, none waits while there is room, they get it in the order they
  asked, and the queue of payloads never exceeds its bound.
\<close>
theorem submissions_bounded_and_in_order:
  assumes "builder_run show_number b held asked got"
  shows "int (length held) \<le> max 0 (sem_max (sb_semaphore b)) \<and> got @ sem_queue (sb_semaphore b) = asked \<and>
    (int (length held) < sem_max (sb_semaphore b) \<longrightarrow> got = asked) \<and>
    int (length (sb_pendingQueue b)) \<le> max 0 (sb_maxQueueSize b)"
proof -
  have "serving b held asked got"
    using assms
  proof induction
    case (submit b held asked got gone i granted b')
    then show ?case by (blast intro: serving_submit)
  next
    case (settle b held asked got i woken b')
    then show ?case by (blast intro: serving_settle)
  qed (auto simp: serving_def Let_def new_StreamBuilder_def new_semaphore_def same_queues_def builder_cleanup_def builder_reset_def)
  then show ?thesis by (auto simp: serving_def Let_def)
qed

lemma submissions_bounded_and_in_order_witness: "sem_queue (sb_semaphore (new_StreamBuilder (Some 2) None)) = []"
  using submissions_bounded_and_in_order [of "\<lambda>_. []" "new_StreamBuilder (Some 2) None" "[]" "[]" "[]", OF builder_run.fresh] by simp

text \<open>With a concurrency of zero every submission waits for ever.\<close>

lemma no_room_no_submission:
  "submit_begin show_number gone b = Inr (i, granted, b') \<Longrightarrow> sem_max (sb_semaphore b) \<le> 0 \<Longrightarrow> 0 \<le> sem_running (sb_semaphore b) \<Longrightarrow> \<not> granted"
  by (auto simp: submit_begin_def result_bind_Inr_iff Let_def sem_acquire_def split: if_splits prod.splits)

section \<open>When a submission settles\<close>

definition undisturbed :: "submission \<Rightarrow> bool" where
  "undisturbed S = (\<forall>k. \<not> aborted_before S k \<and> \<not> aborted_after S k \<and> \<not> aborted_waiting S k \<and> \<not> destroyed_before S k \<and> \<not> cleared_waiting S k)"

lemma submit_attempts_calls: "fst (snd (submit_attempts S retries base att e n)) \<le> n"
proof (induction n arbitrary: att e)
  case (Suc n)
  show ?case
    using Suc [of "att + 1"] by (auto simp: Let_def split: sum.split prod.split) (metis fst_conv snd_conv)+
qed simp

lemma submit_attempts_success:
  assumes "undisturbed S" "\<forall>j < k. \<exists>e. submit_answer S (att + j) = Inl e" "submit_answer S (att + k) = Inr v"
    "int (att + k) \<le> retries" "k < n"
  shows "submit_attempts S retries base att e n = (Returned v, k + 1, List.map (\<lambda>j. base * 2 ^ (att + j)) [0..<k])"
  using assms(2-5)
proof (induction k arbitrary: att e n)
  case 0
  then obtain m where "n = Suc m" using less_imp_Suc_add by auto
  then show ?case using 0 assms(1) by (simp add: undisturbed_def)
next
  case (Suc k)
  then obtain m where n: "n = Suc m" "k < m" using Suc_less_eq2 by auto
  obtain x where x: "submit_answer S att = Inl x" using Suc.prems(1) by force
  have "submit_attempts S retries base (att + 1) (err_message x) m = (Returned v, k + 1, List.map (\<lambda>j. base * 2 ^ (att + 1 + j)) [0..<k])"
    using Suc.prems n by (intro Suc.IH) (auto simp: add.assoc [symmetric])
  moreover have "List.map (\<lambda>j. base * 2 ^ (att + j)) [0..<Suc k] = base * 2 ^ att # List.map (\<lambda>j. base * 2 ^ (att + 1 + j)) [0..<k]"
    by (simp add: upt_conv_Cons map_Suc_upt [symmetric] del: upt_Suc)
  moreover have "int (att + 1) \<le> retries" using Suc.prems(3) by simp
  ultimately show ?case using x assms(1) by (simp add: n undisturbed_def Let_def)
qed

lemma submit_attempts_exhausted:
  assumes "undisturbed S" "\<forall>j < n. \<exists>e. submit_answer S (att + j) = Inl e" "int (att + n) = retries + 1" "0 < n"
  shows "\<exists>e'. submit_answer S (att + n - 1) = Inl e' \<and> submit_attempts S retries base att e n =
    (Raised (plain_error (''StreamBuilder network payload submission failed after '' @ show_int retries @ '' retries: '' @ err_message e')),
     n, List.map (\<lambda>j. base * 2 ^ (att + j)) [0..<n - 1])"
  using assms(2-4)
proof (induction n arbitrary: att e)
  case (Suc n)
  obtain x where x: "submit_answer S att = Inl x" using Suc.prems(1) by force
  show ?case
  proof (cases n)
    case 0
    then show ?thesis using x assms(1) Suc.prems(2) by (simp add: undisturbed_def)
  next
    case (Suc m)
    have "\<forall>j < n. \<exists>e. submit_answer S (att + 1 + j) = Inl e" using Suc.prems(1) by (metis Suc_less_eq add.assoc plus_1_eq_Suc)
    moreover have "int (att + 1 + n) = retries + 1" using Suc.prems(2) by simp
    ultimately obtain e' where e': "submit_answer S (att + 1 + n - 1) = Inl e'" "submit_attempts S retries base (att + 1) (err_message x) n =
        (Raised (plain_error (''StreamBuilder network payload submission failed after '' @ show_int retries @ '' retries: '' @ err_message e')),
         n, List.map (\<lambda>j. base * 2 ^ (att + 1 + j)) [0..<n - 1])"
      using Suc.IH [of "att + 1"] Suc by blast
    have "List.map (\<lambda>j. base * 2 ^ (att + j)) [0..<Suc m] = base * 2 ^ att # List.map (\<lambda>j. base * 2 ^ (att + 1 + j)) [0..<m]"
      by (simp add: upt_conv_Cons map_Suc_upt [symmetric] del: upt_Suc)
    then show ?thesis using e' x assms(1) Suc.prems(2) Suc
      by (simp add: undisturbed_def Let_def del: upt_Suc)
  qed
qed simp

text \<open>
  C17: A submission that nothing disturbs settles: with the first answer that succeeds, if it comes
  within maxRetries, and otherwise with an error that carries the last failure; it waits
  twice as long after each failure, and calls submitFn at most maxRetries + 1 times.
\<close>
theorem submission_settles:
  assumes "undisturbed S" "0 \<le> given_or 3 retries"
  shows "(\<exists>k v. int k \<le> given_or 3 retries \<and> (\<forall>j < k. \<exists>e. submit_answer S j = Inl e) \<and> submit_answer S k = Inr v \<and>
      submit_run S retries delay = (Returned v, k + 1, List.map (\<lambda>j. given_or 100 delay * 2 ^ j) [0..<k])) \<or>
    (\<exists>e'. (\<forall>j. int j \<le> given_or 3 retries \<longrightarrow> (\<exists>e. submit_answer S j = Inl e)) \<and> submit_answer S (nat (given_or 3 retries)) = Inl e' \<and>
      submit_run S retries delay = (Raised (plain_error (''StreamBuilder network payload submission failed after '' @
        show_int (given_or 3 retries) @ '' retries: '' @ err_message e')), nat (given_or 3 retries) + 1,
        List.map (\<lambda>j. given_or 100 delay * 2 ^ j) [0..<nat (given_or 3 retries)]))"
proof (cases "\<exists>k. int k \<le> given_or 3 retries \<and> (\<exists>v. submit_answer S k = Inr v)")
  case True
  define k where "k = (LEAST k. int k \<le> given_or 3 retries \<and> (\<exists>v. submit_answer S k = Inr v))"
  obtain v where k: "int k \<le> given_or 3 retries" "submit_answer S k = Inr v"
    using LeastI_ex [OF True] unfolding k_def by blast
  have before: "\<forall>j < k. \<exists>e. submit_answer S j = Inl e"
  proof (intro allI impI)
    fix j
    assume "j < k"
    then have "\<not> (\<exists>v. submit_answer S j = Inr v)" using not_less_Least [of j] k(1) unfolding k_def by fastforce
    then show "\<exists>e. submit_answer S j = Inl e" by (cases "submit_answer S j") auto
  qed
  have "submit_run S retries delay = (Returned v, k + 1, List.map (\<lambda>j. given_or 100 delay * 2 ^ j) [0..<k])"
    using submit_attempts_success [OF assms(1), of k 0 v "given_or 3 retries" "nat (given_or 3 retries + 1)" "given_or 100 delay" "''undefined''"]
      before k by (simp add: submit_run_def)
  then show ?thesis using k before by blast
next
  case False
  then have fails: "\<exists>e. submit_answer S j = Inl e" if "int j \<le> given_or 3 retries" for j
    using that by (cases "submit_answer S j") auto
  let ?n = "nat (given_or 3 retries + 1)"
  have n: "?n = nat (given_or 3 retries) + 1" "int ?n = given_or 3 retries + 1" using assms(2) by simp_all
  obtain e' where "submit_answer S (?n - 1) = Inl e'" "submit_attempts S (given_or 3 retries) (given_or 100 delay) 0 ''undefined'' ?n =
      (Raised (plain_error (''StreamBuilder network payload submission failed after '' @ show_int (given_or 3 retries) @ '' retries: '' @ err_message e')),
       ?n, List.map (\<lambda>j. given_or 100 delay * 2 ^ j) [0..<?n - 1])"
    using submit_attempts_exhausted [OF assms(1), of ?n 0 "given_or 3 retries" "given_or 100 delay" "''undefined''"] fails n by auto
  then show ?thesis using fails n by (simp add: submit_run_def)
qed

definition calm :: "(nat \<Rightarrow> (thrown, jsval) result) \<Rightarrow> submission" where
  "calm f = \<lparr> submit_answer = f, aborted_before = (\<lambda>_. False), aborted_after = (\<lambda>_. False), aborted_waiting = (\<lambda>_. False),
     destroyed_before = (\<lambda>_. False), cleared_waiting = (\<lambda>_. False) \<rparr>"

lemma submission_settles_witness:
  "fst (snd (submit_run (calm (\<lambda>k. if k = 0 then Inl aborted else Inr JNull)) None None)) = 2"
  using submission_settles [of "calm (\<lambda>k. if k = 0 then Inl aborted else Inr JNull)" None None]
  by (auto simp: calm_def undisturbed_def given_or_def dest: spec [of _ "0 :: nat"] spec [of _ "1 :: nat"] split: if_splits)

text \<open>
  A clean-up or a reset during the wait after a failure clears the timer the submission waits
  for: its promise never settles, its finally block never runs, and its place in the semaphore
  is never given back.
\<close>
lemma cleared_submission_never_settles:
  assumes "submit_answer S 0 = Inl e" "cleared_waiting S 0" "\<not> destroyed_before S 0" "\<not> aborted_before S 0" "\<not> aborted_after S 0"
  shows "fst (submit_run S None None) = Never"
  using assms by (simp add: submit_run_def given_or_def numeral_eq_Suc)

section \<open>The dry run\<close>

text \<open>Building the transaction and simulating it ask for no signature and submit nothing.\<close>
theorem dry_run_only_reads:
  "list_all read_only (drop (length (trace w)) (trace (snd (simulate_builder env native show_number resources bigint_of options b w))))"
proof -
  have "runs read_only (\<lambda>_. True) (buildTransaction env native show_number options b)"
    unfolding buildTransaction_def
    by (rule runs_then [OF runs_value [OF runs_guard]], rule runs_then [OF runs_now], rule runs_then [OF runs_any_lift],
        rule runs_then [OF runs_any_lift], rule runs_value [OF runs_read_build])
  then have "runs read_only (\<lambda>_. True) (simulate_builder env native show_number resources bigint_of options b)"
    unfolding simulate_builder_def
    by (rule runs_then) (auto intro!: runs_then [OF runs_read_simulate] runs_then [OF runs_any_lift] runs_throw runs_return
        split: sim_reply.split prod.split)
  then show ?thesis by (rule runs_calls)
qed

end
