(* ===== verification/Batcher.thy ===== *)
theory Batcher
  imports Builder Json_Text
begin

text \<open>
  The batcher (src/builder.ts, class ConduitBatcher): payload validation, synchronous
  building, and the queue of asynchronous batches with the building of one entry chunk by
  chunk.
\<close>

section \<open>Payloads\<close>

text \<open>
  An element of a payload is a JavaScript value.
\<close>

definition at_item :: "nat \<Rightarrow> string \<Rightarrow> string" where
  "at_item i m = ''Batch item at index '' @ show_nat i @ m"

definition check_field :: "(string \<Rightarrow> bool) \<Rightarrow> string \<Rightarrow> string \<Rightarrow> nat \<Rightarrow> jsval \<Rightarrow> string list" where
  "check_field valid field wanted i obj =
    (let v = field_of obj field in
     if v = JUndefined \<or> v = JNull \<or> valid (js_string v) then []
     else [at_item i ('': '' @ field @ '' must be a valid '' @ wanted @ '', got \"'' @ js_string v @ ''\"'')])"

definition check_amount :: "nat \<Rightarrow> jsval \<Rightarrow> string list" where
  "check_amount i obj =
    (case field_of obj ''amount'' of
       JUndefined \<Rightarrow> []
     | JNull \<Rightarrow> []
     | JBigint n \<Rightarrow> if n \<le> 0 then [at_item i ('': amount must be a positive bigint, got '' @ show_int n)] else []
     | JString s \<Rightarrow>
         (case toStroops s 7 of
            Inl _ \<Rightarrow> [at_item i ('': amount must be a valid decimal string (e.g. \"1000\" or \"1.5\"), got \"'' @ s @ ''\"'')]
          | Inr n \<Rightarrow> if n \<le> 0 then [at_item i ('': amount must be a positive value, got \"'' @ s @ ''\"'')] else [])
     | v \<Rightarrow> [at_item i ('': amount must be a bigint or decimal string, got '' @ typeof_js v)])"

definition either_address :: string where
  "either_address = ''Stellar public key or contract address (G-address or C-address)''"

definition check_item :: "strkey \<Rightarrow> nat \<times> jsval \<Rightarrow> string list" where
  "check_item K ix =
    (case ix of (i, item) \<Rightarrow>
       if item = JNull \<or> item = JUndefined then [at_item i '' cannot be null or undefined'']
       else if typeof_js item \<noteq> ''object'' then [at_item i ('' must be an object, got '' @ typeof_js item)]
       else check_field (isValidContract K) ''token'' ''Soroban contract ID (C-address)'' i item @
         check_field (isValidAddress K) ''sender'' either_address i item @
         check_field (isValidAddress K) ''recipient'' either_address i item @ check_amount i item)"

definition validatePayload :: "strkey \<Rightarrow> jsval \<Rightarrow> string list" where
  "validatePayload K streams =
    (case streams of
       JNull \<Rightarrow> [''Batch payload cannot be null or undefined'']
     | JUndefined \<Rightarrow> [''Batch payload cannot be null or undefined'']
     | JArray items \<Rightarrow> concat (List.map (check_item K) (enumerate 0 items))
     | _ \<Rightarrow> [''Batch payload must be an array''])"

section \<open>Results\<close>

record BatchResult =
  res_success :: bool
  res_operations :: nat
  res_xdrs :: "contract_tx list"
  res_transactions :: "BuiltBatchTransaction list option"
  res_prepared :: "bool option"
  res_chunks :: "jsnum option"
  res_errors :: "string list option"

definition toBatchResult :: "BuiltBatchTransaction list \<Rightarrow> jsnum option \<Rightarrow> BatchResult" where
  "toBatchResult built chunks = \<lparr> res_success = True, res_operations = length built, res_xdrs = List.map bt_xdr built,
     res_transactions = Some built, res_prepared = Some (built \<noteq> [] \<and> list_all bt_prepared built), res_chunks = chunks, res_errors = None \<rparr>"

definition toFailure :: "string list \<Rightarrow> jsnum option \<Rightarrow> BatchResult" where
  "toFailure issues chunks = \<lparr> res_success = False, res_operations = 0, res_xdrs = [], res_transactions = None, res_prepared = None,
     res_chunks = chunks, res_errors = Some issues \<rparr>"

definition empty_result :: "jsnum option \<Rightarrow> BatchResult" where
  "empty_result chunks = \<lparr> res_success = True, res_operations = 0, res_xdrs = [], res_transactions = Some [], res_prepared = Some True,
     res_chunks = chunks, res_errors = None \<rparr>"

definition MISSING_CONTEXT_ERROR :: string where
  "MISSING_CONTEXT_ERROR = ''ConduitBatcher cannot build transaction XDR without a BatchTransactionContext '' @
     ''(contractId, sourceAccount, network/networkPassphrase, and either sequence or rpcUrl). '' @ ''Pass one via options.context.''"

definition DEFAULT_MAX_BATCH_SIZE :: nat where "DEFAULT_MAX_BATCH_SIZE = 50"

text \<open>Math.ceil of a count divided by a number.\<close>

definition ceil_quotient :: "nat \<Rightarrow> jsnum \<Rightarrow> jsnum" where
  "ceil_quotient n d =
    (case d of
       NaN \<Rightarrow> NaN
     | Num q \<Rightarrow> if q = 0 then (if n = 0 then NaN else Infinity) else Num (of_int \<lceil>of_nat n / q\<rceil>)
     | _ \<Rightarrow> Num 0)"

section \<open>Synchronous batches\<close>

record BatchExecuteOptions =
  eo_maxBatchSize :: "jsnum option"
  eo_context :: "BatchTransactionContext option"
  eo_method :: "string option"

definition plain_field :: "jsval \<Rightarrow> string \<Rightarrow> batch_value" where
  "plain_field params k = Plain (field_of params k)"

definition or_zero :: "jsval \<Rightarrow> jsval" where
  "or_zero v = (if v = JUndefined \<or> v = JNull then JNumber (Num 0) else v)"

text \<open>The arguments of create_stream, each with the width the contract asks for.\<close>

definition create_args :: "outside \<Rightarrow> native_codec \<Rightarrow> jsval \<Rightarrow> (thrown, sc_val list) result" where
  "create_args env native params =
    result_bind (paramToScVal env native (plain_field params ''sender'') None) (\<lambda>s.
    result_bind (paramToScVal env native (plain_field params ''recipient'') None) (\<lambda>r.
    result_bind (paramToScVal env native (plain_field params ''token'') None) (\<lambda>t.
    result_bind (paramToScVal env native (plain_field params ''amount'') (Some ''i128'')) (\<lambda>a.
    result_bind (paramToScVal env native (plain_field params ''ratePerSecond'') (Some ''i128'')) (\<lambda>q.
    result_bind (paramToScVal env native (Plain (or_zero (field_of params ''startTime''))) (Some ''u64'')) (\<lambda>st.
    result_bind (paramToScVal env native (Plain (or_zero (field_of params ''endTime''))) (Some ''u64'')) (\<lambda>en.
    Inr [s, r, t, a, q, st, en, boolToScVal (field_of params ''clawbackEnabled'' = JBool True)])))))))"

definition stream_operation :: "outside \<Rightarrow> native_codec \<Rightarrow> string \<Rightarrow> jsval \<Rightarrow> (thrown, BuildableOperation) result" where
  "stream_operation env native m params =
    (if m = ''create_stream'' then
       result_bind (create_args env native params) (\<lambda>args.
         Inr \<lparr> op_method = Some m, op_params = [], op_types = (\<lambda>_. None), op_args = Some (List.map Encoded args) \<rparr>)
     else Inr \<lparr> op_method = Some m, op_params = (case params of JObject kvs \<Rightarrow> List.map (\<lambda>kv. (fst kv, Plain (snd kv))) kvs | _ \<Rightarrow> []),
       op_types = (\<lambda>_. None), op_args = None \<rparr>)"

text \<open>
  execute.  It throws when the batcher is destroyed or a parameter cannot be encoded; what
  building throws becomes a failed result.
\<close>

definition execute ::
    "outside \<Rightarrow> native_codec \<Rightarrow> (string \<Rightarrow> string) \<Rightarrow> bool \<Rightarrow> jsval \<Rightarrow> BatchExecuteOptions option
      \<Rightarrow> (thrown, BatchResult) result" where
  "execute env native networks destroyed streams options =
    (if destroyed then Inl (plain_error ''ConduitBatcher has been destroyed'')
     else if validatePayload (keys env) streams \<noteq> [] then Inr (toFailure (validatePayload (keys env) streams) None)
     else
       let items = (case streams of JArray vs \<Rightarrow> vs | _ \<Rightarrow> []);
           sanitized = List.map bigintSafeStringify items;
           chunks = (if sanitized = [] then Num 0
             else ceil_quotient (length sanitized)
               (case options of Some p \<Rightarrow> given_or (Num (of_nat DEFAULT_MAX_BATCH_SIZE)) (eo_maxBatchSize p) | None \<Rightarrow> Num (of_nat DEFAULT_MAX_BATCH_SIZE)))
       in
       if sanitized = [] then Inr (empty_result (Some chunks))
       else case (case options of Some p \<Rightarrow> eo_context p | None \<Rightarrow> None) of
         None \<Rightarrow> Inr (toFailure [MISSING_CONTEXT_ERROR] (Some chunks))
       | Some c \<Rightarrow>
           if validateContext (keys env) networks c \<noteq> [] then Inr (toFailure (validateContext (keys env) networks c) (Some chunks))
           else if bc_sequence c = None then
             Inr (toFailure [''execute() is synchronous and cannot fetch a sequence number; '' @
               ''supply context.sequence, or use executeAsync() to fetch it via rpcUrl''] (Some chunks))
           else
             result_bind (results_of (stream_operation env native
               (case options of Some p \<Rightarrow> given_or ''create_stream'' (eo_method p) | None \<Rightarrow> ''create_stream'')) sanitized) (\<lambda>operations.
             Inr (case buildBatchTransactionsSync env native networks operations c of
                    Inr built \<Rightarrow> toBatchResult built (Some chunks)
                  | Inl e \<Rightarrow> toFailure [err_message e] (Some chunks))))"

section \<open>One asynchronous batch\<close>

text \<open>The object of an operation, as validatePayload sees it.\<close>

definition operation_object :: "BuildableOperation \<Rightarrow> jsval" where
  "operation_object op = JObject
    ((''method'', (case op_method op of Some m \<Rightarrow> JString m | None \<Rightarrow> JUndefined)) #
     (''params'', JObject (List.map_filter (\<lambda>kv. case snd kv of Plain v \<Rightarrow> Some (fst kv, v) | _ \<Rightarrow> None) (op_params op))) #
     (case op_args op of None \<Rightarrow> [] | Some _ \<Rightarrow> [(''args'', JArray [])]))"

definition sanitize_value :: "batch_value \<Rightarrow> batch_value" where
  "sanitize_value v = (case v of Plain j \<Rightarrow> Plain (bigintSafeStringify j) | x \<Rightarrow> x)"

definition sanitize_operation :: "BuildableOperation \<Rightarrow> BuildableOperation" where
  "sanitize_operation op = op \<lparr> op_params := List.map (\<lambda>kv. (fst kv, sanitize_value (snd kv))) (op_params op) \<rparr>"

text \<open>
  The chunks of an entry.  cancelled is read at the points where the code looks at it; the
  second component of the result lists the progress reports.
\<close>

fun build_chunks ::
    "outside \<Rightarrow> native_codec \<Rightarrow> (string \<Rightarrow> string) \<Rightarrow> BatchTransactionContext \<Rightarrow> bool \<Rightarrow> nat \<Rightarrow> BuildableOperation list list
      \<Rightarrow> nat \<Rightarrow> BuiltBatchTransaction list \<Rightarrow> (nat \<times> nat) list \<Rightarrow> ('z rpc_world_scheme, BatchResult \<times> (nat \<times> nat) list) io" where
  "build_chunks env native networks c signal n [] i built progress =
    io_return (toBatchResult built (Some (Num (of_nat n))), progress)"
| "build_chunks env native networks c signal n (chunk # chunks) i built progress =
    io_bind (io_gets (\<lambda>w. signal \<and> aborted_now env (calls_made w))) (\<lambda>cancelled.
    if cancelled then io_return (toFailure [''Operation aborted''] None, progress)
    else io_bind (io_try (buildBatchTransactions env native networks chunk c)) (\<lambda>r.
      case r of
        Inl e \<Rightarrow> io_return (toFailure [err_message e] None, progress)
      | Inr b \<Rightarrow>
          io_bind (io_gets (\<lambda>w. signal \<and> aborted_now env (calls_made w))) (\<lambda>cancelled'.
          if cancelled' then io_return (toFailure [''Operation aborted''] None, progress)
          else build_chunks env native networks c signal n chunks (i + 1) (built @ b) (progress @ [(i + 1, n)]))))"

definition process_entry ::
    "outside \<Rightarrow> native_codec \<Rightarrow> (string \<Rightarrow> string) \<Rightarrow> BuildableOperation list \<Rightarrow> BatchTransactionContext option \<Rightarrow> bool
      \<Rightarrow> ('z rpc_world_scheme, BatchResult \<times> (nat \<times> nat) list) io" where
  "process_entry env native networks ops context signal =
    io_bind (io_gets (\<lambda>w. signal \<and> aborted_now env (calls_made w))) (\<lambda>cancelled.
    if cancelled then io_return (toFailure [''Operation aborted''] None, [])
    else
      let issues = validatePayload (keys env) (JArray (List.map operation_object ops));
          sanitized = List.map sanitize_operation ops
      in
      if issues \<noteq> [] then io_return (toFailure issues None, [])
      else if sanitized = [] then io_return (empty_result None, [])
      else case context of
        None \<Rightarrow> io_return (toFailure [MISSING_CONTEXT_ERROR] None, [])
      | Some c \<Rightarrow>
          if validateContext (keys env) networks c \<noteq> [] then io_return (toFailure (validateContext (keys env) networks c) None, [])
          else let chunks = chunks_from DEFAULT_MAX_BATCH_SIZE sanitized 0 in
            build_chunks env native networks c signal (length chunks) chunks 0 [] [])"

section \<open>The queue of batches\<close>

text \<open>
  An entry is a number.  q_loops is the number of processQueue runs that have not ended, and
  q_inFlight the entries they hold; q_processing is the flag of the code.
\<close>

record batcher =
  q_queue :: "nat list"
  q_processing :: bool
  q_destroyed :: bool
  q_loops :: nat
  q_inFlight :: "nat list"
  q_resolved :: "nat list"

definition new_batcher :: batcher where
  "new_batcher = \<lparr> q_queue = [], q_processing = False, q_destroyed = False, q_loops = 0, q_inFlight = [], q_resolved = [] \<rparr>"

text \<open>A run of processQueue takes its next entry, or ends and clears the flag.\<close>

definition loop_next :: "batcher \<Rightarrow> batcher" where
  "loop_next s =
    (case q_queue s of
       e # rest \<Rightarrow> if q_destroyed s then s \<lparr> q_processing := False, q_loops := q_loops s - 1 \<rparr>
                  else s \<lparr> q_queue := rest, q_inFlight := q_inFlight s @ [e] \<rparr>
     | [] \<Rightarrow> s \<lparr> q_processing := False, q_loops := q_loops s - 1 \<rparr>)"

definition executeAsync :: "nat \<Rightarrow> batcher \<Rightarrow> (thrown, batcher) result" where
  "executeAsync e s =
    (if q_destroyed s then Inl (plain_error ''ConduitBatcher has been destroyed'')
     else
       let s1 = s \<lparr> q_queue := q_queue s @ [e] \<rparr> in
       Inr (if q_processing s1 then s1 else loop_next (s1 \<lparr> q_processing := True, q_loops := q_loops s1 + 1 \<rparr>)))"

text \<open>An entry in flight is resolved, and its run goes on.\<close>

definition settle_entry :: "nat \<Rightarrow> batcher \<Rightarrow> batcher" where
  "settle_entry e s = loop_next (s \<lparr> q_inFlight := remove1 e (q_inFlight s), q_resolved := q_resolved s @ [e] \<rparr>)"

definition batcher_cleanup :: "batcher \<Rightarrow> batcher" where
  "batcher_cleanup s = s \<lparr> q_processing := False, q_queue := [], q_resolved := q_resolved s @ q_queue s \<rparr>"

definition batcher_destroy :: "batcher \<Rightarrow> batcher" where
  "batcher_destroy s = batcher_cleanup (s \<lparr> q_destroyed := True \<rparr>)"

definition batcher_reset :: "batcher \<Rightarrow> batcher" where
  "batcher_reset s = batcher_cleanup (s \<lparr> q_destroyed := False \<rparr>)"

end
