(* ===== verification/Batcher_Properties.thy ===== *)
theory Batcher_Properties
  imports Batcher Batch_Properties "HOL-Library.Multiset"
begin

text \<open>
  Properties of the batcher: no accepted batch is lost or resolved twice, a synchronous batch
  is built only from a valid payload on consecutive sequence numbers, and an asynchronous one
  starts its sequence numbers anew in every chunk.
\<close>

section \<open>The queue\<close>

inductive batcher_run :: "batcher \<Rightarrow> nat list \<Rightarrow> bool" where
  fresh: "batcher_run new_batcher []"
| accept: "batcher_run s accepted \<Longrightarrow> e \<notin> set accepted \<Longrightarrow> executeAsync e s = Inr s' \<Longrightarrow> batcher_run s' (accepted @ [e])"
| settle: "batcher_run s accepted \<Longrightarrow> e \<in> set (q_inFlight s) \<Longrightarrow> batcher_run (settle_entry e s) accepted"
| cleanup: "batcher_run s accepted \<Longrightarrow> batcher_run (batcher_cleanup s) accepted"
| destroy: "batcher_run s accepted \<Longrightarrow> batcher_run (batcher_destroy s) accepted"
| reset: "batcher_run s accepted \<Longrightarrow> batcher_run (batcher_reset s) accepted"

definition batcher_ok :: "batcher \<Rightarrow> nat list \<Rightarrow> bool" where
  "batcher_ok s accepted =
    (distinct accepted \<and> mset accepted = mset (q_queue s) + mset (q_inFlight s) + mset (q_resolved s) \<and>
     q_loops s = length (q_inFlight s) \<and> (q_processing s \<longrightarrow> q_inFlight s \<noteq> []) \<and> (q_queue s \<noteq> [] \<longrightarrow> q_inFlight s \<noteq> []) \<and>
     (q_destroyed s \<longrightarrow> q_queue s = []))"

lemma batcher_ok_accept:
  assumes "batcher_ok s accepted" "e \<notin> set accepted" "executeAsync e s = Inr s'"
  shows "batcher_ok s' (accepted @ [e])"
proof (cases "q_processing s")
  case True
  then have "s' = s \<lparr> q_queue := q_queue s @ [e] \<rparr>" "\<not> q_destroyed s" using assms(3) by (auto simp: executeAsync_def Let_def split: if_splits)
  then show ?thesis using assms(1,2) True by (auto simp: batcher_ok_def)
next
  case False
  obtain h rest where q: "q_queue s @ [e] = h # rest" by (cases "q_queue s") auto
  have "s' = s \<lparr> q_queue := rest, q_processing := True, q_loops := q_loops s + 1, q_inFlight := q_inFlight s @ [h] \<rparr>" "\<not> q_destroyed s"
    using assms(3) False q by (auto simp: executeAsync_def Let_def loop_next_def split: if_splits)
  moreover have "mset (q_queue s) + {#e#} = {#h#} + mset rest" using arg_cong [OF q, of mset] by simp
  ultimately show ?thesis using assms(1,2) by (auto simp: batcher_ok_def)
qed

lemma batcher_ok_settle:
  assumes "batcher_ok s accepted" "e \<in> set (q_inFlight s)"
  shows "batcher_ok (settle_entry e s) accepted"
proof -
  obtain F where F: "remove1 e (q_inFlight s) = F" "mset (q_inFlight s) = add_mset e (mset F)" "length (q_inFlight s) = Suc (length F)"
  proof
    show "mset (q_inFlight s) = add_mset e (mset (remove1 e (q_inFlight s)))" using assms(2) by simp
    show "length (q_inFlight s) = Suc (length (remove1 e (q_inFlight s)))"
      using assms(2) length_pos_if_in_set [OF assms(2)] by (simp add: length_remove1)
  qed (rule refl)
  show ?thesis
  proof (cases "q_queue s")
    case Nil
    then show ?thesis using assms(1) F by (simp add: batcher_ok_def settle_entry_def loop_next_def)
  next
    case (Cons h rest)
    then have "\<not> q_destroyed s" using assms(1) by (auto simp: batcher_ok_def)
    then show ?thesis using assms(1) F Cons by (simp add: batcher_ok_def settle_entry_def loop_next_def)
  qed
qed



text \<open>A clean-up lets the next batch run beside the one in flight.\<close>

lemma two_batches_in_flight:
  "\<exists>s. batcher_run s [0, 1] \<and> q_inFlight s = [0, 1]"
proof -
  let ?s1 = "new_batcher \<lparr> q_processing := True, q_loops := 1, q_inFlight := [0] \<rparr>"
  let ?s3 = "(batcher_cleanup ?s1) \<lparr> q_processing := True, q_loops := 2, q_inFlight := [0, 1] \<rparr>"
  have "executeAsync 0 new_batcher = Inr ?s1" by (simp add: executeAsync_def loop_next_def new_batcher_def)
  then have "batcher_run ?s1 [0]" using batcher_run.accept [OF batcher_run.fresh] by simp
  then have "batcher_run (batcher_cleanup ?s1) [0]" by (rule batcher_run.cleanup)
  moreover have "executeAsync 1 (batcher_cleanup ?s1) = Inr ?s3"
    by (simp add: executeAsync_def loop_next_def new_batcher_def batcher_cleanup_def)
  ultimately have "batcher_run ?s3 [0, 1]" using batcher_run.accept [of "batcher_cleanup ?s1" "[0]" 1 ?s3] by simp
  then show ?thesis by (intro exI [of _ ?s3]) simp
qed

section \<open>Payloads\<close>

text \<open>An asynchronous batch checks the operations, which have none of the fields it looks for, and not their parameters.\<close>

lemma operations_not_validated: "validatePayload K (JArray (List.map operation_object ops)) = []"
proof -
  have "check_item K (i, operation_object op) = []" for i op
    by (simp add: check_item_def operation_object_def check_field_def check_amount_def Let_def split: option.split)
  moreover have "v \<in> set (enumerate 0 (List.map operation_object ops)) \<Longrightarrow> \<exists>i op. v = (i, operation_object op)" for v
    by (cases v) (auto dest!: in_set_enumerate_eq [THEN iffD1])
  ultimately show ?thesis by (fastforce simp: validatePayload_def)
qed

section \<open>Sequence numbers\<close>

lemma sync_built:
  assumes "buildBatchTransactionsSync env native networks ops c = Inr txs"
  shows "validateContext (keys env) networks c = [] \<and> length txs = length ops \<and>
    (\<exists>sq. bc_sequence c = Some sq \<and> (\<forall>i < length ops. bt_index (txs ! i) = i \<and> bt_method (txs ! i) = given_or [] (op_method (ops ! i)) \<and>
       tx_sequence (bt_xdr (txs ! i)) = int (digits_val sq) + int i + 1))"
proof -
  from assms obtain sq built where "validateContext (keys env) networks c = []" "bc_sequence c = Some sq"
    and b: "build_all env native networks c (int (digits_val sq)) ops = Inr built"
    and t: "txs = List.map (\<lambda>(i, m, tx). \<lparr> bt_index = i, bt_method = m, bt_xdr = tx, bt_prepared = False \<rparr>) (enumerate 0 built)"
    by (auto simp: buildBatchTransactionsSync_def check_context_def Let_def result_bind_Inr_iff split: if_splits option.splits)
  moreover have "txs ! i = \<lparr> bt_index = i, bt_method = fst (built ! i), bt_xdr = snd (built ! i), bt_prepared = False \<rparr>"
    if "i < length built" for i
    using that by (simp add: t nth_enumerate_eq split_beta)
  ultimately show ?thesis using build_all_transactions [OF b] by (simp add: t transaction_of_def given_or_def)
qed

text \<open>
  A synchronous batch that succeeds was a valid payload for a valid context, and has one
  transaction per element on consecutive sequence numbers.
\<close>
theorem execute_builds_valid_payloads:
  assumes "execute env native networks destroyed (JArray items) (Some options) = Inr r" "res_success r" "items \<noteq> []"
  shows "validatePayload (keys env) (JArray items) = [] \<and>
    (\<exists>c sq txs. eo_context options = Some c \<and> validateContext (keys env) networks c = [] \<and> bc_sequence c = Some sq \<and>
      res_transactions r = Some txs \<and> res_xdrs r = List.map bt_xdr txs \<and> length txs = length items \<and>
      (\<forall>i < length items. bt_index (txs ! i) = i \<and> tx_sequence (bt_xdr (txs ! i)) = int (digits_val sq) + int i + 1))"
proof -
  from assms(1,3) obtain c ops n where v: "validatePayload (keys env) (JArray items) = [] \<or> \<not> res_success r"
      "eo_context options = Some c \<and> validateContext (keys env) networks c = [] \<and>
       results_of (stream_operation env native (given_or ''create_stream'' (eo_method options))) (List.map bigintSafeStringify items) = Inr ops \<and>
       r = (case buildBatchTransactionsSync env native networks ops c of Inr built \<Rightarrow> toBatchResult built n | Inl e \<Rightarrow> toFailure [err_message e] n) \<or>
       \<not> res_success r"
    by (auto simp: execute_def Let_def result_bind_Inr_iff toFailure_def split: if_splits option.splits)
  then obtain built where b: "buildBatchTransactionsSync env native networks ops c = Inr built" and r: "\<exists>n. r = toBatchResult built n"
    using assms(2) by (cases "buildBatchTransactionsSync env native networks ops c") (auto simp: toFailure_def)
  have ops: "results_of (stream_operation env native (given_or ''create_stream'' (eo_method options))) (List.map bigintSafeStringify items) = Inr ops"
    using v(2) assms(2) by blast
  have "validatePayload (keys env) (JArray items) = []" "eo_context options = Some c" "validateContext (keys env) networks c = []"
    using v assms(2) by blast+
  moreover have "length ops = length items" using results_of_nth [OF ops] by simp
  ultimately show ?thesis using sync_built [OF b] r by (auto simp: toBatchResult_def)
qed

text \<open>Where an asynchronous batch puts its operations.\<close>

definition restarts :: "nat \<Rightarrow> BuiltBatchTransaction list \<Rightarrow> bool" where
  "restarts sq built = (\<forall>p < length built. bt_index (built ! p) = p mod DEFAULT_MAX_BATCH_SIZE \<and>
     tx_sequence (bt_xdr (built ! p)) = int sq + int (p mod DEFAULT_MAX_BATCH_SIZE) + 1)"

lemma offline_build:
  assumes "\<not> named (bc_rpcUrl c)"
  shows "\<exists>r. buildBatchTransactions env native networks ops c w = (r, w) \<and>
    (\<forall>txs. r = Inr txs \<longrightarrow> buildBatchTransactionsSync env native networks ops c = Inr txs)"
  using assms
  by (cases "check_context env networks c") (auto simp: buildBatchTransactions_def io_bind_def io_lift_def)

lemma restarts_append:
  assumes "restarts sq built" "length built = DEFAULT_MAX_BATCH_SIZE * i" "length b \<le> DEFAULT_MAX_BATCH_SIZE"
    "\<forall>k < length b. bt_index (b ! k) = k \<and> tx_sequence (bt_xdr (b ! k)) = int sq + int k + 1"
  shows "restarts sq (built @ b)"
  unfolding restarts_def
proof (intro allI impI)
  fix p
  assume p: "p < length (built @ b)"
  show "bt_index ((built @ b) ! p) = p mod DEFAULT_MAX_BATCH_SIZE \<and> tx_sequence (bt_xdr ((built @ b) ! p)) = int sq + int (p mod DEFAULT_MAX_BATCH_SIZE) + 1"
  proof (cases "p < length built")
    case True
    then show ?thesis using assms(1) by (simp add: restarts_def nth_append)
  next
    case False
    then obtain k where k: "p = DEFAULT_MAX_BATCH_SIZE * i + k" using assms(2) le_Suc_ex by (metis not_le)
    then have "k < length b" "p mod DEFAULT_MAX_BATCH_SIZE = k" using p assms(2,3) by simp_all
    then show ?thesis using assms(2,4) k by (simp add: nth_append)
  qed
qed

lemma build_chunks_restart:
  assumes "\<not> named (bc_rpcUrl c)" "bc_sequence c = Some sq" "restarts (digits_val sq) built" "length built = DEFAULT_MAX_BATCH_SIZE * i"
    "\<forall>ch \<in> set chunks. length ch \<le> DEFAULT_MAX_BATCH_SIZE" "\<forall>ch \<in> set (butlast chunks). length ch = DEFAULT_MAX_BATCH_SIZE"
    "fst (build_chunks env native networks c signal n chunks i built progress w) = Inr (res, told)" "res_success res"
  shows "\<exists>txs. res = toBatchResult txs (Some (Num (of_nat n))) \<and> restarts (digits_val sq) txs \<and> length txs = length built + length (concat chunks)"
  using assms(3-8)
proof (induction chunks arbitrary: i built progress w)
  case Nil
  then show ?case by (auto simp: io_return_def)
next
  case (Cons ch chunks)
  show ?case
  proof (cases "signal \<and> aborted_now env (calls_made w)")
    case True
    then show ?thesis using Cons.prems by (auto simp: io_bind_def io_gets_def io_return_def toFailure_def)
  next
    case False
    then have go: "(signal \<and> aborted_now env (calls_made w)) = False" by simp
    obtain r where r: "buildBatchTransactions env native networks ch c w = (r, w)"
        "\<forall>txs. r = Inr txs \<longrightarrow> buildBatchTransactionsSync env native networks ch c = Inr txs"
      using offline_build [OF assms(1)] by blast
    show ?thesis
    proof (cases r)
      case (Inl e)
      then show ?thesis using Cons.prems r(1) by (simp add: io_bind_def io_gets_def io_return_def go io_try_def toFailure_def) (auto simp: toFailure_def)
    next
      case (Inr b)
      then have b: "length b = length ch" "\<forall>k < length b. bt_index (b ! k) = k \<and> tx_sequence (bt_xdr (b ! k)) = int (digits_val sq) + int k + 1"
        using sync_built [of env native networks ch c b] r(2) assms(2) by auto
      have f: "fst (build_chunks env native networks c signal n chunks (i + 1) (built @ b) (progress @ [(i + 1, n)]) w) = Inr (res, told)"
        using Cons.prems(5) r(1) Inr by (simp add: io_bind_def io_gets_def io_try_def go)
      have rs: "restarts (digits_val sq) (built @ b)"
        using restarts_append [OF Cons.prems(1,2)] Cons.prems(3) b by simp
      show ?thesis
      proof (cases chunks)
        case Nil
        then show ?thesis using f rs b by (auto simp: io_return_def)
      next
        case (Cons c2 cs)
        then have "length ch = DEFAULT_MAX_BATCH_SIZE" "\<forall>ch \<in> set (butlast chunks). length ch = DEFAULT_MAX_BATCH_SIZE"
          using Cons.prems(4) by auto
        then show ?thesis using Cons.IH [OF rs _ _ _ f Cons.prems(6)] Cons.prems(2,3) b by auto
      qed
    qed
  qed
qed

text \<open>
  An asynchronous batch built offline gives each operation the sequence number of its place in
  its chunk of fifty, not of its place in the batch.
\<close>
theorem async_batch_restarts_sequences:
  assumes "\<not> named (bc_rpcUrl c)" "bc_sequence c = Some sq" "ops \<noteq> []"
    "fst (process_entry env native networks ops (Some c) signal w) = Inr (res, told)" "res_success res"
  shows "\<exists>txs. res_transactions res = Some txs \<and> length txs = length ops \<and>
    (\<forall>p < length ops. bt_index (txs ! p) = p mod 50 \<and> tx_sequence (bt_xdr (txs ! p)) = int (digits_val sq) + int (p mod 50) + 1)"
proof -
  let ?chunks = "chunks_from DEFAULT_MAX_BATCH_SIZE (List.map sanitize_operation ops) 0"
  have n: "0 < DEFAULT_MAX_BATCH_SIZE" by (simp add: DEFAULT_MAX_BATCH_SIZE_def)
  note ch = chunks_from_properties [OF n, of "List.map sanitize_operation ops" 0]
  have "fst (build_chunks env native networks c signal (length ?chunks) ?chunks 0 [] [] w) = Inr (res, told)"
    using assms(3,4,5) operations_not_validated
    by (auto simp: process_entry_def io_bind_def io_gets_def io_return_def Let_def toFailure_def empty_result_def split: if_splits)
  from build_chunks_restart [OF assms(1,2) _ _ _ _ this assms(5)] ch obtain txs where
    "res = toBatchResult txs (Some (Num (of_nat (length ?chunks))))" "restarts (digits_val sq) txs" "length txs = length (concat ?chunks)"
    by (auto simp: restarts_def)
  moreover have "length (concat ?chunks) = length ops" using ch by simp
  ultimately show ?thesis by (auto simp: toBatchResult_def restarts_def DEFAULT_MAX_BATCH_SIZE_def)
qed

section \<open>Sample batches\<close>

lemma results_of_total: "\<forall>x \<in> set xs. \<exists>y. f x = Inr y \<Longrightarrow> \<exists>ys. results_of f xs = Inr ys"
  by (induction xs) (auto simp: result_bind_Inr_iff)

lemma sample_builds:
  assumes "\<forall>op \<in> set ops. named (op_method op) \<and> (\<exists>args. operationToScVals sample_outside native op = Inr args)"
  shows "validateContext (keys sample_outside) (\<lambda>n. n) sample_context = [] \<and>
    (\<exists>txs. buildBatchTransactionsSync sample_outside native (\<lambda>n. n) ops sample_context = Inr txs)"
proof -
  have v: "validateContext (keys sample_outside) (\<lambda>n. n) sample_context = []"
    by (simp add: validateContext_def sample_context_def sample_outside_def sample_strkey_def named_def given_or_def network_passphrase_def
        SUPPORTED_NETWORKS_def resolvePassphrase_def trim_def is_space_def is_digit_def Let_def)
  have "\<exists>ys. results_of (build_operation sample_outside native sample_context contract sq) (enumerate 0 ops) = Inr ys" for contract sq
    by (rule results_of_total) (use assms in \<open>auto simp: build_operation_def Let_def result_bind_Inr_iff in_set_enumerate_eq all_set_conv_all_nth nth_enumerate_eq split: prod.split\<close>)
  then have "\<exists>txs. build_all sample_outside native (\<lambda>n. n) sample_context sq ops = Inr txs" for sq
    by (simp add: build_all_def resolvePassphrase_def sample_context_def sample_outside_def sample_strkey_def named_def given_or_def
        network_passphrase_def SUPPORTED_NETWORKS_def)
  then have "\<exists>txs. build_all sample_outside native (\<lambda>n. n) sample_context (int (digits_val ''7'')) ops = Inr txs" by blast
  moreover have "bc_sequence sample_context = Some ''7''" by (simp add: sample_context_def)
  ultimately show ?thesis using v by (auto simp: buildBatchTransactionsSync_def check_context_def Let_def)
qed

definition sample_options :: BatchExecuteOptions where
  "sample_options = \<lparr> eo_maxBatchSize = None, eo_context = Some sample_context, eo_method = Some ''withdraw'' \<rparr>"

lemma execute_builds_valid_payloads_witness:
  "\<exists>r txs. execute sample_outside (\<lambda>_ _. Inr ScvVoid) (\<lambda>n. n) False (JArray [JObject [], JObject []]) (Some sample_options) = Inr r \<and>
     res_transactions r = Some txs \<and> tx_sequence (bt_xdr (txs ! 1)) = 9"
proof -
  let ?b = "execute sample_outside (\<lambda>_ _. Inr ScvVoid) (\<lambda>n. n) False (JArray [JObject [], JObject []]) (Some sample_options)"
  let ?op = "\<lparr> op_method = Some ''withdraw'', op_params = [], op_types = (\<lambda>_. None), op_args = None \<rparr>"
  obtain txs where txs: "validateContext (keys sample_outside) (\<lambda>n. n) sample_context = []"
      "buildBatchTransactionsSync sample_outside (\<lambda>_ _. Inr ScvVoid) (\<lambda>n. n) [?op, ?op] sample_context = Inr txs"
    using sample_builds [of "[?op, ?op]" "\<lambda>_ _. Inr ScvVoid"] by (auto simp: named_def operationToScVals_def)
  have "validatePayload (keys sample_outside) (JArray [JObject [], JObject []]) = []"
    by (simp add: validatePayload_def check_item_def check_field_def check_amount_def)
  moreover have "stream_operation sample_outside (\<lambda>_ _. Inr ScvVoid) ''withdraw'' (JObject []) = Inr ?op"
    by (simp add: stream_operation_def)
  moreover have "bc_sequence sample_context = Some ''7''" by (simp add: sample_context_def)
  moreover have "List.map bigintSafeStringify [JObject [], JObject []] = [JObject [], JObject []]" by (simp add: bigintSafeStringify_def)
  ultimately have "\<exists>r. ?b = Inr r \<and> res_success r"
    using txs by (simp only: execute_def) (simp add: sample_options_def given_or_def Let_def toBatchResult_def)
  then obtain r where r: "?b = Inr r" "res_success r" by blast
  from execute_builds_valid_payloads [OF r] obtain txs where "res_transactions r = Some txs" "tx_sequence (bt_xdr (txs ! 1)) = 9"
    by (auto simp: sample_options_def sample_context_def digits_val_def digit_val_def)
  then show ?thesis using r by blast
qed

lemma sample_chunks:
  assumes "\<forall>ch \<in> set chunks. set ch \<subseteq> {sample_operation}"
  shows "\<exists>res told. fst (build_chunks sample_outside native (\<lambda>n. n) sample_context False n chunks i built progress w) = Inr (res, told) \<and> res_success res"
  using assms
proof (induction chunks arbitrary: i built progress)
  case (Cons ch chunks)
  have "\<exists>args. operationToScVals sample_outside native sample_operation = Inr args" "named (op_method sample_operation)"
    by (simp_all add: operationToScVals_def sample_operation_def paramToScVal_def named_def)
  then have "\<forall>op \<in> set ch. named (op_method op) \<and> (\<exists>args. operationToScVals sample_outside native op = Inr args)"
    using Cons.prems by auto
  then obtain txs where txs: "check_context sample_outside (\<lambda>n. n) sample_context = Inr ()"
      "buildBatchTransactionsSync sample_outside native (\<lambda>n. n) ch sample_context = Inr txs"
    using sample_builds [of ch native] by (auto simp: check_context_def Let_def)
  have "\<not> named (bc_rpcUrl sample_context)" by (simp add: sample_context_def named_def)
  then have "buildBatchTransactions sample_outside native (\<lambda>n. n) ch sample_context w = (Inr txs, w)"
    using txs by (simp add: buildBatchTransactions_def io_bind_def io_lift_def)
  then show ?case using Cons.IH Cons.prems by (simp add: io_bind_def io_gets_def io_try_def)
qed (simp add: io_return_def toBatchResult_def)

lemma async_batch_restarts_sequences_witness:
  "\<exists>res told txs. fst (process_entry sample_outside (\<lambda>_ _. Inr ScvVoid) (\<lambda>n. n) (replicate 51 sample_operation)
      (Some sample_context) False initial_rpc_world) = Inr (res, told) \<and>
     res_transactions res = Some txs \<and> tx_sequence (bt_xdr (txs ! 0)) = 8 \<and> tx_sequence (bt_xdr (txs ! 50)) = 8"
proof -
  let ?ops = "replicate 51 sample_operation"
  let ?p = "fst (process_entry sample_outside (\<lambda>_ _. Inr ScvVoid) (\<lambda>n. n) ?ops (Some sample_context) False initial_rpc_world)"
  have s: "sanitize_operation sample_operation = sample_operation" by (simp add: sanitize_operation_def sample_operation_def)
  have n: "0 < DEFAULT_MAX_BATCH_SIZE" by (simp add: DEFAULT_MAX_BATCH_SIZE_def)
  let ?chunks = "chunks_from DEFAULT_MAX_BATCH_SIZE ?ops 0"
  have "concat ?chunks = ?ops" using chunks_from_properties [OF n, of ?ops 0] by simp
  then have "\<forall>ch \<in> set ?chunks. set ch \<subseteq> {sample_operation}"
    by (metis UN_upper set_concat set_replicate_conv_if numeral_neq_zero)
  then have "\<exists>res told. ?p = Inr (res, told) \<and> res_success res"
    using sample_chunks [of ?chunks "\<lambda>_ _. Inr ScvVoid"] sample_builds [of "[]" "\<lambda>_ _. Inr ScvVoid"] operations_not_validated [of "keys sample_outside" ?ops]
    by (simp add: process_entry_def io_bind_def io_gets_def io_return_def Let_def s)
  then obtain res told where p: "?p = Inr (res, told)" "res_success res" by blast
  have "\<not> named (bc_rpcUrl sample_context)" "bc_sequence sample_context = Some ''7''" "?ops \<noteq> []" by (simp_all add: sample_context_def named_def)
  from async_batch_restarts_sequences [OF this p] obtain txs where "res_transactions res = Some txs"
      "\<forall>q < 51. tx_sequence (bt_xdr (txs ! q)) = int (digits_val ''7'') + int (q mod 50) + 1"
    by auto
  then have "res_transactions res = Some txs \<and> tx_sequence (bt_xdr (txs ! 0)) = 8 \<and> tx_sequence (bt_xdr (txs ! 50)) = 8"
    by (auto dest: spec [of _ 0] spec [of _ 50] simp: digits_val_def digit_val_def)
  then show ?thesis using p by blast
qed

end
