(* ===== verification/Graph_Query.thy ===== *)
theory Graph_Query
  imports Factory Json_Text "HOL-Library.AList"
begin

text \<open>
  Queries of the GraphQL indexer (src/indexer.ts): one POST under a timeout, automatic persisted
  queries with their fallback, the errors of a reply, the metric of a query, and the walks over
  all pages of a collection.
\<close>

section \<open>The network\<close>

text \<open>
  The body of a request is the value whose JSON text is sent.  The network answers the request
  with the number of requests made before it; a fetch that rejects says whether the SDK's own
  timer had fired.
\<close>

record http_request =
  hr_endpoint :: string
  hr_headers :: "(string \<times> string) list"
  hr_body :: jsval

record http_response =
  rs_ok :: bool
  rs_status :: int
  rs_statusText :: string
  rs_json :: "(thrown, jsval) result"

record network =
  fetch_answer :: "nat \<Rightarrow> http_request \<Rightarrow> (thrown \<times> bool, http_response) result"
  net_aborted :: "nat \<Rightarrow> bool"
  net_clock :: "nat \<Rightarrow> int"
  net_sha256hex :: "string \<Rightarrow> string"
  has_fetch :: bool

record IndexerQueryMetric =
  mq_queryName :: string
  mq_durationMs :: int
  mq_success :: bool
  mq_error :: "thrown option"

record http_world =
  hw_requests :: "http_request list"
  hw_metrics :: "IndexerQueryMetric list"
  hw_destroyed :: bool

record GraphQLIndexer =
  gi_endpoint :: string
  gi_onQueryMetric :: bool

definition new_GraphQLIndexer :: "string option \<Rightarrow> bool \<Rightarrow> (thrown, GraphQLIndexer) result" where
  "new_GraphQLIndexer endpoint onQueryMetric =
    (case endpoint of
       Some u \<Rightarrow> if trim u = [] then Inl (plain_error ''GraphQLIndexer endpoint must be a non-empty string'')
                 else Inr \<lparr> gi_endpoint = u, gi_onQueryMetric = onQueryMetric \<rparr>
     | None \<Rightarrow> Inl (plain_error ''GraphQLIndexer endpoint must be a non-empty string''))"

definition requests_made :: "http_world \<Rightarrow> nat" where "requests_made w = length (hw_requests w)"

section \<open>One request\<close>

definition DEFAULT_INDEXER_TIMEOUT_MS :: int where "DEFAULT_INDEXER_TIMEOUT_MS = 15000"
definition DEFAULT_INDEXER_MAX_PAGES :: nat where "DEFAULT_INDEXER_MAX_PAGES = 1000"

definition effective_timeout :: "jsnum option \<Rightarrow> jsnum" where
  "effective_timeout timeoutMs = given_or (Num (of_int DEFAULT_INDEXER_TIMEOUT_MS)) timeoutMs"

definition uses_timeout :: "jsnum option \<Rightarrow> bool" where
  "uses_timeout timeoutMs = (is_finite_num (effective_timeout timeoutMs) \<and> num_less (Num 0) (effective_timeout timeoutMs))"

definition indexer_timeout :: "string \<Rightarrow> jsnum \<Rightarrow> thrown" where
  "indexer_timeout endpoint t = new_error (IndexerTimeoutError endpoint (int_of_num t))
    (''GraphQL indexer query to '' @ endpoint @ '' timed out after '' @ show_jsnum t @ ''ms. '' @ ''The query has been aborted.'')"

definition query_aborted :: thrown where
  "query_aborted = new_error (OperationAbortedError ''GraphQLIndexer.query'') ''Operation aborted: GraphQLIndexer.query''"

definition fetchWithTimeout :: "network \<Rightarrow> http_request \<Rightarrow> jsnum option \<Rightarrow> bool \<Rightarrow> (http_world, http_response) io" where
  "fetchWithTimeout env req timeoutMs signal w =
    (if signal \<and> net_aborted env (requests_made w) then (Inl query_aborted, w)
     else
       let w' = w \<lparr> hw_requests := hw_requests w @ [req] \<rparr> in
       (case fetch_answer env (requests_made w) req of
          Inr r \<Rightarrow> Inr r
        | Inl (e, timer_fired) \<Rightarrow>
            if uses_timeout timeoutMs \<and> timer_fired \<and> \<not> (signal \<and> net_aborted env (requests_made w'))
            then Inl (indexer_timeout (hr_endpoint req) (effective_timeout timeoutMs)) else Inl e, w'))"

text \<open>The payload: the query or null, the variables without bigints, and the hash of a persisted query.\<close>

definition request_body :: "string option \<Rightarrow> jsval \<Rightarrow> string option \<Rightarrow> jsval" where
  "request_body q variables sha = JObject
    ([(''query'', case q of Some s \<Rightarrow> JString s | None \<Rightarrow> JNull), (''variables'', bigintSafeStringify variables)] @
     (case sha of None \<Rightarrow> [] | Some h \<Rightarrow>
       [(''extensions'', JObject [(''persistedQuery'', JObject [(''version'', JNumber (Num 1)), (''sha256Hash'', JString h)])])]))"

definition executeGraphQLRequest ::
    "network \<Rightarrow> GraphQLIndexer \<Rightarrow> (string \<times> string) list \<Rightarrow> jsval \<Rightarrow> jsnum option \<Rightarrow> bool \<Rightarrow> (http_world, jsval) io" where
  "executeGraphQLRequest env ix headers body timeoutMs signal =
    io_bind (fetchWithTimeout env \<lparr> hr_endpoint = gi_endpoint ix, hr_headers = headers, hr_body = body \<rparr> timeoutMs signal) (\<lambda>response.
    if \<not> rs_ok response
    then io_throw (plain_error (''GraphQL query failed with status '' @ show_int (rs_status response) @ '': '' @ rs_statusText response))
    else io_lift (rs_json response))"

section \<open>Persisted queries\<close>

definition is_object :: "jsval \<Rightarrow> bool" where "is_object v = (typeof_js v = ''object'' \<and> v \<noteq> JNull)"

definition NOT_FOUND :: string where "NOT_FOUND = ''PERSISTED_QUERY_NOT_FOUND''"

text \<open>The includes method of a message, which only strings and arrays have.\<close>

definition message_includes :: "jsval \<Rightarrow> (thrown, bool) result" where
  "message_includes m =
    (case m of
       JUndefined \<Rightarrow> Inr False
     | JNull \<Rightarrow> Inr False
     | JString s \<Rightarrow> Inr (contains_text NOT_FOUND s)
     | JArray vs \<Rightarrow> Inr (JString NOT_FOUND \<in> set vs)
     | _ \<Rightarrow> Inl (new_error TypeErrorClass ''(error.message ?? \"\").includes is not a function''))"

fun some_not_found :: "jsval list \<Rightarrow> (thrown, bool) result" where
  "some_not_found [] = Inr False"
| "some_not_found (e # es) =
    (if is_object e then result_bind (message_includes (field_of e ''message'')) (\<lambda>found. if found then Inr True else some_not_found es)
     else some_not_found es)"

definition isPersistedQueryNotFound :: "jsval \<Rightarrow> (thrown, bool) result" where
  "isPersistedQueryNotFound body = (case field_of body ''errors'' of JArray es \<Rightarrow> some_not_found es | _ \<Rightarrow> Inr False)"

section \<open>A query\<close>

record GraphQLQueryOptions =
  go_query :: string
  go_variables :: "jsval option"
  go_headers :: "(string \<times> string) list"
  go_signal :: bool
  go_timeoutMs :: "jsnum option"
  go_persist :: "bool option"

text \<open>An object spread: the entries of the second over those of the first.\<close>

definition spread :: "(string \<times> 'a) list \<Rightarrow> (string \<times> 'a) list \<Rightarrow> (string \<times> 'a) list" where
  "spread base over = foldl (\<lambda>acc kv. AList.update (fst kv) (snd kv) acc) base over"

definition query_headers :: "(string \<times> string) list \<Rightarrow> (string \<times> string) list" where
  "query_headers headers = spread [(''Content-Type'', ''application/json''), (''Accept'', ''application/json'')] headers"

definition has_key :: "jsval \<Rightarrow> string \<Rightarrow> bool" where
  "has_key v k = (case v of JObject kvs \<Rightarrow> k \<in> fst ` set kvs | _ \<Rightarrow> False)"

definition graph_error_text :: "jsval \<Rightarrow> string" where
  "graph_error_text e =
    (if has_key e ''message'' then
       (case field_of e ''message'' of JString m \<Rightarrow> if m \<noteq> [] then m else json_text e | _ \<Rightarrow> json_text e)
     else js_string e)"

text \<open>What a reply is worth: its data, unless it lists errors.\<close>

definition reply_data :: "jsval \<Rightarrow> (thrown, jsval) result" where
  "reply_data body =
    (case field_of body ''errors'' of
       JArray (e # es) \<Rightarrow>
         Inl (conduit_error Stream UNKNOWN_CONTRACT_ERROR_CODE
           (Some (join_with ''; '' (filter (\<lambda>m. m \<noteq> []) (List.map graph_error_text (e # es))))))
     | _ \<Rightarrow> Inr (field_of body ''data''))"

text \<open>
  The body of the reply: a persisted query sends its hash first, and the full query when the
  server has not seen it.
\<close>

definition query_body ::
    "network \<Rightarrow> GraphQLIndexer \<Rightarrow> GraphQLQueryOptions \<Rightarrow> jsval \<Rightarrow> (string \<times> string) list \<Rightarrow> (http_world, jsval) io" where
  "query_body env ix options variables headers =
    (let persist = (go_persist options \<noteq> Some False);
         sha = (if persist then Some (net_sha256hex env (go_query options)) else None);
         send = (\<lambda>q. executeGraphQLRequest env ix headers (request_body q variables sha) (go_timeoutMs options) (go_signal options))
     in
     io_bind (send (if persist then None else Some (go_query options))) (\<lambda>body.
     io_bind (io_lift (if persist then isPersistedQueryNotFound body else Inr False)) (\<lambda>missing_query.
     if missing_query then send (Some (go_query options)) else io_return body)))"

definition queryInternal :: "network \<Rightarrow> GraphQLIndexer \<Rightarrow> GraphQLQueryOptions \<Rightarrow> (http_world, jsval) io" where
  "queryInternal env ix options =
    io_bind (io_gets hw_destroyed) (\<lambda>destroyed.
    io_bind (io_guard (\<not> destroyed) (plain_error ''GraphQLIndexer has been destroyed'')) (\<lambda>_.
    io_bind (io_guard (trim (go_query options) \<noteq> []) (plain_error ''GraphQL query string cannot be null or empty'')) (\<lambda>_.
    let variables = (case go_variables options of None \<Rightarrow> JObject [] | Some v \<Rightarrow> if v = JUndefined \<or> v = JNull then JObject [] else v) in
    io_bind (io_guard (is_object variables) (plain_error ''GraphQL query variables must be an object'')) (\<lambda>_.
    let headers = query_headers (go_headers options) in
    io_bind (io_guard (has_fetch env) (plain_error ''Fetch API is not available in the current environment'')) (\<lambda>_.
    io_bind (query_body env ix options variables headers) (\<lambda>body. io_lift (reply_data body)))))))"

section \<open>The name and the metric of a query\<close>

definition word_char :: "char \<Rightarrow> bool" where
  "word_char c = (let n = of_char c :: nat in is_digit c \<or> (65 \<le> n \<and> n \<le> 90) \<or> (97 \<le> n \<and> n \<le> 122) \<or> n = 95)"

definition name_start :: "char \<Rightarrow> bool" where "name_start c = (word_char c \<and> \<not> is_digit c)"

text \<open>The name after a keyword, white space between them.\<close>

definition name_after :: "string \<Rightarrow> string \<Rightarrow> string option" where
  "name_after keyword s =
    (if take (length keyword) s = keyword then
       let r = drop (length keyword) s; r' = dropWhile is_space r in
       if r \<noteq> r' \<and> r' \<noteq> [] \<and> name_start (hd r') then Some (takeWhile word_char r') else None
     else None)"

definition named_operation :: "string \<Rightarrow> string option" where
  "named_operation s =
    (case name_after ''query'' s of Some n \<Rightarrow> Some n
     | None \<Rightarrow> (case name_after ''mutation'' s of Some n \<Rightarrow> Some n | None \<Rightarrow> name_after ''subscription'' s))"

text \<open>The leftmost match of the pattern; inside tells whether a word character comes before.\<close>

fun operation_name :: "bool \<Rightarrow> string \<Rightarrow> string option" where
  "operation_name inside [] = None"
| "operation_name inside (c # s) =
    (case (if inside then None else named_operation (c # s)) of
       Some n \<Rightarrow> Some n
     | None \<Rightarrow> operation_name (word_char c) s)"

definition getQueryName :: "string \<Rightarrow> string" where
  "getQueryName q = given_or ''anonymous'' (operation_name False q)"

definition emitQueryMetric :: "GraphQLIndexer \<Rightarrow> IndexerQueryMetric \<Rightarrow> http_world \<Rightarrow> http_world" where
  "emitQueryMetric ix m w = (if gi_onQueryMetric ix then w \<lparr> hw_metrics := hw_metrics w @ [m] \<rparr> else w)"

definition as_error :: "thrown \<Rightarrow> thrown" where
  "as_error e = (case e of ThrownString m \<Rightarrow> plain_error m | _ \<Rightarrow> e)"

definition query :: "network \<Rightarrow> GraphQLIndexer \<Rightarrow> GraphQLQueryOptions \<Rightarrow> (http_world, jsval) io" where
  "query env ix options w =
    (let startedAt = net_clock env (requests_made w);
         (r, w') = queryInternal env ix options w
     in (r, emitQueryMetric ix
          \<lparr> mq_queryName = getQueryName (go_query options), mq_durationMs = net_clock env (requests_made w') - startedAt,
            mq_success = result_ok r, mq_error = (case r of Inl e \<Rightarrow> Some (as_error e) | Inr _ \<Rightarrow> None) \<rparr> w'))"

end
