(* ===== verification/Graph_Pages.thy ===== *)
theory Graph_Pages
  imports Graph_Query
begin

text \<open>
  Pages of a GraphQL collection (src/indexer.ts): page information, the search for a collection
  in a reply, the two walks over all pages, and the paged query for the streams of a sender.
\<close>

section \<open>Page information\<close>

record IndexerPageInfo =
  pi_hasNextPage :: bool
  pi_hasPreviousPage :: bool
  pi_startCursor :: "string option"
  pi_endCursor :: "string option"

record IndexerPage =
  ip_items :: jsval
  ip_pageInfo :: IndexerPageInfo

definition string_field :: "jsval \<Rightarrow> string \<Rightarrow> string option" where
  "string_field v k = (case field_of v k of JString s \<Rightarrow> Some s | _ \<Rightarrow> None)"

definition decodePageInfo :: "jsval \<Rightarrow> IndexerPageInfo" where
  "decodePageInfo raw = \<lparr> pi_hasNextPage = (field_of raw ''hasNextPage'' = JBool True),
     pi_hasPreviousPage = (field_of raw ''hasPreviousPage'' = JBool True),
     pi_startCursor = string_field raw ''startCursor'', pi_endCursor = string_field raw ''endCursor'' \<rparr>"

section \<open>The collection in a reply\<close>

record PaginatedCollection =
  pc_items :: "jsval list"
  pc_hasNextPage :: bool
  pc_endCursor :: "string option"

text \<open>Object.values of an object or an array.\<close>

fun values_of :: "jsval \<Rightarrow> jsval list" where
  "values_of (JObject kvs) = List.map snd kvs"
| "values_of (JArray vs) = vs"
| "values_of _ = []"

definition items_of :: "jsval \<Rightarrow> jsval list option" where
  "items_of v = (case field_of v ''items'' of JArray vs \<Rightarrow> Some vs
     | _ \<Rightarrow> (case field_of v ''nodes'' of JArray vs \<Rightarrow> Some vs
       | _ \<Rightarrow> (case field_of v ''results'' of JArray vs \<Rightarrow> Some vs | _ \<Rightarrow> None)))"

definition collection_of :: "jsval \<Rightarrow> PaginatedCollection option" where
  "collection_of v =
    (case items_of v of
       None \<Rightarrow> None
     | Some vs \<Rightarrow> let info = field_of v ''pageInfo'' in
         if is_object info then Some \<lparr> pc_items = vs, pc_hasNextPage = (field_of info ''hasNextPage'' = JBool True),
           pc_endCursor = string_field info ''endCursor'' \<rparr>
         else None)"

lemma size_values_of: "is_object v \<Longrightarrow> size_list size (values_of v) < size v"
proof -
  have "size_list size (List.map snd kvs) \<le> size_list (size_prod (\<lambda>_. 0) size) kvs" for kvs :: "(string \<times> jsval) list"
    by (induction kvs) auto
  then show "is_object v \<Longrightarrow> size_list size (values_of v) < size v"
    by (cases v) (auto simp: is_object_def less_Suc_eq_le intro: order_trans)
qed

function find_in :: "jsval list \<Rightarrow> PaginatedCollection option" where
  "find_in [] = None"
| "find_in (e # es) =
    (if \<not> is_object e then find_in es
     else case collection_of e of
       Some c \<Rightarrow> Some c
     | None \<Rightarrow> (case find_in (values_of e) of Some c \<Rightarrow> Some c | None \<Rightarrow> find_in es))"
  by pat_completeness auto
termination
  by (relation "measure (size_list size)") (auto dest: size_values_of)

definition findPaginatedCollection :: "jsval \<Rightarrow> PaginatedCollection option" where
  "findPaginatedCollection v = (if is_object v then find_in (values_of v) else None)"

section \<open>All pages\<close>

definition object_entries :: "jsval option \<Rightarrow> (string \<times> jsval) list" where
  "object_entries v = (case v of Some (JObject kvs) \<Rightarrow> kvs | _ \<Rightarrow> [])"

definition max_pages_error :: "nat \<Rightarrow> jsnum \<Rightarrow> thrown" where
  "max_pages_error attempted m = new_error (IndexerMaxPagesExceededError (int attempted) (int_of_num m))
    (''GraphQLIndexer.fetchAll exceeded the maximum page limit of '' @ show_jsnum m @ '' (fetched '' @ show_nat attempted @ '' pages). '' @
     ''Refine your query filters or increase the limit via fetchAllOptions.maxPages.'')"

fun auto_pages :: "network \<Rightarrow> GraphQLIndexer \<Rightarrow> GraphQLQueryOptions \<Rightarrow> nat \<Rightarrow> jsval \<Rightarrow> jsval list \<Rightarrow> (http_world, jsval list) io" where
  "auto_pages env ix options 0 cursor results =
    io_throw (max_pages_error DEFAULT_INDEXER_MAX_PAGES (Num (of_nat DEFAULT_INDEXER_MAX_PAGES)))"
| "auto_pages env ix options (Suc n) cursor results =
    io_bind (query env ix (options \<lparr> go_variables := Some (JObject (spread (object_entries (go_variables options)) [(''cursor'', cursor)])) \<rparr>)) (\<lambda>data.
    case findPaginatedCollection data of
      None \<Rightarrow> io_throw (plain_error ''GraphQLIndexer.fetchAllAuto expected a paginated collection response'')
    | Some c \<Rightarrow>
        if \<not> pc_hasNextPage c then io_return (results @ pc_items c)
        else case pc_endCursor c of
          None \<Rightarrow> io_throw (plain_error ''GraphQLIndexer.fetchAllAuto received a page with no next cursor'')
        | Some e \<Rightarrow>
            if e = [] then io_throw (plain_error ''GraphQLIndexer.fetchAllAuto received a page with no next cursor'')
            else if JString e = cursor then io_throw (plain_error ''GraphQLIndexer.fetchAllAuto received an unchanged pagination cursor'')
            else auto_pages env ix options n (JString e) (results @ pc_items c))"

definition fetchAllAuto :: "network \<Rightarrow> GraphQLIndexer \<Rightarrow> GraphQLQueryOptions \<Rightarrow> (http_world, jsval list) io" where
  "fetchAllAuto env ix options =
    auto_pages env ix options DEFAULT_INDEXER_MAX_PAGES
      (case go_variables options of Some v \<Rightarrow> field_of v ''cursor'' | None \<Rightarrow> JUndefined) []"

record FetchAllOptions =
  fa_query :: string
  fa_variables :: "jsval option"
  fa_headers :: "(string \<times> string) list"
  fa_getNextCursor :: "jsval \<Rightarrow> (thrown, string option) result"
  fa_maxPages :: "jsnum option"

definition page_query :: "FetchAllOptions \<Rightarrow> string option \<Rightarrow> GraphQLQueryOptions" where
  "page_query options cursor = \<lparr> go_query = fa_query options,
     go_variables = Some (JObject (spread (object_entries (fa_variables options))
       (case cursor of None \<Rightarrow> [] | Some c \<Rightarrow> [(''cursor'', JString c)]))),
     go_headers = fa_headers options, go_signal = False, go_timeoutMs = None, go_persist = None \<rparr>"

text \<open>The loop may run for ever when the limit of pages is not a finite number.\<close>

partial_function (option) fetch_pages ::
    "network \<Rightarrow> GraphQLIndexer \<Rightarrow> FetchAllOptions \<Rightarrow> jsnum \<Rightarrow> string option \<Rightarrow> nat \<Rightarrow> jsval list \<Rightarrow> http_world
      \<Rightarrow> ((thrown, jsval list) result \<times> http_world) option" where
  "fetch_pages env ix options m cursor n pages w =
    (if num_le m (Num (of_nat n)) then Some (Inl (max_pages_error n m), w)
     else case query env ix (page_query options cursor) w of
       (Inl e, w') \<Rightarrow> Some (Inl e, w')
     | (Inr page, w') \<Rightarrow>
         (case fa_getNextCursor options page of
            Inl e \<Rightarrow> Some (Inl e, w')
          | Inr None \<Rightarrow> Some (Inr (pages @ [page]), w')
          | Inr (Some c) \<Rightarrow> fetch_pages env ix options m (Some c) (n + 1) (pages @ [page]) w'))"

definition fetchAll ::
    "network \<Rightarrow> GraphQLIndexer \<Rightarrow> FetchAllOptions \<Rightarrow> http_world \<Rightarrow> ((thrown, jsval list) result \<times> http_world) option" where
  "fetchAll env ix options w =
    fetch_pages env ix options (given_or (Num (of_nat DEFAULT_INDEXER_MAX_PAGES)) (fa_maxPages options)) None 0 [] w"

section \<open>The streams of an address\<close>

definition newline :: char where "newline = CHR 0x0A"

definition graph_text :: "string list \<Rightarrow> string" where
  "graph_text ls = concat (List.map (\<lambda>l. newline # l) ls) @ newline # ''    ''"

definition stream_fields :: "string list" where
  "stream_fields = List.map (\<lambda>f. ''            '' @ f)
    [''id'', ''sender'', ''recipient'', ''token'', ''ratePerSecond'', ''startTime'', ''endTime'', ''withdrawn'', ''deposited'',
     ''paused'', ''pausedAt'', ''cancelled'', ''clawbackEnabled'']"

definition streams_query :: "string \<Rightarrow> string \<Rightarrow> string list \<Rightarrow> string" where
  "streams_query heading selection infos = graph_text
    ([''      '' @ heading, ''        '' @ selection, ''          items {''] @ stream_fields @ [''          }'', ''          pageInfo {''] @
     List.map (\<lambda>f. ''            '' @ f) infos @ [''          }'', ''        }'', ''      }''])"

definition streams_by :: "string \<Rightarrow> string \<Rightarrow> string \<Rightarrow> GraphQLQueryOptions \<Rightarrow> GraphQLQueryOptions" where
  "streams_by heading field account options = options
     \<lparr> go_query := streams_query (''query '' @ heading @ ''($'' @ field @ '': String!) {'')
         ((if field = ''sender'' then ''streamsBySender'' else ''streamsByRecipient'') @ ''('' @ field @ '': $'' @ field @ '') {'')
         [''hasNextPage'', ''endCursor''],
       go_variables := Some (JObject [(field, JString account)]) \<rparr>"

definition streamsBySender :: "network \<Rightarrow> GraphQLIndexer \<Rightarrow> string \<Rightarrow> GraphQLQueryOptions \<Rightarrow> (http_world, jsval) io" where
  "streamsBySender env ix senderAddress options = query env ix (streams_by ''StreamsBySender'' ''sender'' senderAddress options)"

definition streamsByRecipient :: "network \<Rightarrow> GraphQLIndexer \<Rightarrow> string \<Rightarrow> GraphQLQueryOptions \<Rightarrow> (http_world, jsval) io" where
  "streamsByRecipient env ix recipientAddress options = query env ix (streams_by ''StreamsByRecipient'' ''recipient'' recipientAddress options)"

record FetchStreamsBySenderOptions =
  fs_first :: "jsnum option"
  fs_last :: "jsnum option"
  fs_afterCursor :: "string option"
  fs_beforeCursor :: "string option"
  fs_options :: GraphQLQueryOptions

definition page_size_ok :: "jsnum option \<Rightarrow> bool" where
  "page_size_ok n = (case n of None \<Rightarrow> True | Some k \<Rightarrow> is_integer_num k \<and> \<not> num_less k (Num 1))"

definition fetch_streams_error :: "string \<Rightarrow> thrown" where
  "fetch_streams_error m = plain_error (''fetchStreamsBySender: '' @ m)"

definition check_paging :: "FetchStreamsBySenderOptions \<Rightarrow> (thrown, unit) result" where
  "check_paging o' =
    (if fs_afterCursor o' \<noteq> None \<and> fs_beforeCursor o' \<noteq> None
     then Inl (fetch_streams_error ''afterCursor and beforeCursor are mutually exclusive'')
     else if \<not> page_size_ok (fs_first o') then Inl (fetch_streams_error ''first must be a positive integer'')
     else if \<not> page_size_ok (fs_last o') then Inl (fetch_streams_error ''last must be a positive integer'')
     else if fs_first o' \<noteq> None \<and> fs_last o' \<noteq> None then Inl (fetch_streams_error ''first and last are mutually exclusive'')
     else if fs_beforeCursor o' \<noteq> None \<and> fs_first o' \<noteq> None
     then Inl (fetch_streams_error ''beforeCursor must be paired with last, not first'')
     else if fs_afterCursor o' \<noteq> None \<and> fs_last o' \<noteq> None
     then Inl (fetch_streams_error ''afterCursor must be paired with first, not last'')
     else Inr ())"

definition given_entry :: "string \<Rightarrow> jsval option \<Rightarrow> (string \<times> jsval) list" where
  "given_entry k v = (case v of None \<Rightarrow> [] | Some x \<Rightarrow> [(k, x)])"

definition paging_variables :: "string \<Rightarrow> FetchStreamsBySenderOptions \<Rightarrow> (string \<times> jsval) list" where
  "paging_variables senderAddress o' =
    (''sender'', JString senderAddress) #
    (if fs_beforeCursor o' \<noteq> None \<or> fs_last o' \<noteq> None
     then given_entry ''last'' (map_option JNumber (fs_last o')) @ given_entry ''before'' (map_option JString (fs_beforeCursor o'))
     else given_entry ''first'' (map_option JNumber (fs_first o')) @ given_entry ''after'' (map_option JString (fs_afterCursor o')))"

definition present :: "jsval \<Rightarrow> jsval \<Rightarrow> jsval" where
  "present v v' = (if v = JUndefined \<or> v = JNull then v' else v)"

definition stream_page :: "jsval \<Rightarrow> IndexerPage" where
  "stream_page data =
    (let connection = field_of data ''streamsBySender'' in
     \<lparr> ip_items = present (field_of connection ''items'') (present (field_of connection ''nodes'')
         (present (field_of connection ''results'') (JArray []))),
       ip_pageInfo = decodePageInfo (field_of connection ''pageInfo'') \<rparr>)"

definition fetchStreamsBySender ::
    "network \<Rightarrow> GraphQLIndexer \<Rightarrow> string \<Rightarrow> FetchStreamsBySenderOptions \<Rightarrow> (http_world, IndexerPage) io" where
  "fetchStreamsBySender env ix senderAddress o' =
    io_bind (io_lift (check_paging o')) (\<lambda>_.
    io_bind (query env ix ((fs_options o')
      \<lparr> go_query := streams_query
          ''query FetchStreamsBySender($sender: String!, $first: Int, $after: String, $last: Int, $before: String) {''
          ''streamsBySender(sender: $sender, first: $first, after: $after, last: $last, before: $before) {''
          [''hasNextPage'', ''hasPreviousPage'', ''startCursor'', ''endCursor''],
        go_variables := Some (JObject (paging_variables senderAddress o')) \<rparr>)) (\<lambda>data.
    io_return (stream_page data)))"

end
