(* ===== verification/Graph_Properties.thy ===== *)
theory Graph_Properties
  imports Graph_Pages
begin

text \<open>
  Properties of the indexer's queries: what a query sends and reports, that persisted queries do
  not change its answer, which collection a reply holds, and when a walk over the pages ends.
\<close>

section \<open>What a query sends\<close>

lemma bigint_free_request: "bigint_free (request_body q v sha)"
  by (auto simp: request_body_def bigintSafeStringify_def bigintSafe_value bigint_free_stringify split: option.split)

lemma fetchWithTimeout_posts:
  "\<exists>reqs. set reqs \<subseteq> {req} \<and> length reqs \<le> 1 \<and> snd (fetchWithTimeout env req t signal w) = w \<lparr> hw_requests := hw_requests w @ reqs \<rparr>"
proof (cases "signal \<and> net_aborted env (requests_made w)")
  case True
  then show ?thesis by (intro exI [of _ "[]"]) (simp add: fetchWithTimeout_def)
next
  case False
  then show ?thesis by (intro exI [of _ "[req]"]) (auto simp: fetchWithTimeout_def Let_def)
qed

text \<open>The requests a query of these options may send.\<close>

definition query_request :: "network \<Rightarrow> GraphQLIndexer \<Rightarrow> GraphQLQueryOptions \<Rightarrow> http_request \<Rightarrow> bool" where
  "query_request env ix options req = (hr_endpoint req = gi_endpoint ix \<and> hr_headers req = query_headers (go_headers options) \<and>
     (\<exists>q v sha. hr_body req = request_body q v sha \<and> (q = None \<or> q = Some (go_query options)) \<and>
        (sha = None \<or> sha = Some (net_sha256hex env (go_query options))) \<and> (q = None \<longrightarrow> sha \<noteq> None)))"

definition posts :: "(http_request \<Rightarrow> bool) \<Rightarrow> nat \<Rightarrow> (http_world, 'a) io \<Rightarrow> bool" where
  "posts P n m = (\<forall>w. \<exists>reqs. list_all P reqs \<and> length reqs \<le> n \<and> snd (m w) = w \<lparr> hw_requests := hw_requests w @ reqs \<rparr>)"

lemma posts_quiet:
  "(\<And>w. snd (m w) = w) \<Longrightarrow> posts P n m"
  unfolding posts_def by (intro allI exI [of _ "[]"]) simp

lemma posts_bind:
  assumes "posts P k m" "\<And>a. posts P n (f a)"
  shows "posts P (k + n) (io_bind m f)"
  unfolding posts_def
proof
  fix w
  obtain reqs where r: "list_all P reqs" "length reqs \<le> k" "snd (m w) = w \<lparr> hw_requests := hw_requests w @ reqs \<rparr>"
    using assms(1) unfolding posts_def by blast
  show "\<exists>reqs. list_all P reqs \<and> length reqs \<le> k + n \<and> snd (io_bind m f w) = w \<lparr> hw_requests := hw_requests w @ reqs \<rparr>"
  proof (cases "fst (m w)")
    case (Inl e)
    then have "snd (io_bind m f w) = snd (m w)" by (cases "m w") (simp add: io_bind_def)
    then show ?thesis using r by (intro exI [of _ reqs]) auto
  next
    case (Inr a)
    then have b: "io_bind m f w = f a (snd (m w))" by (cases "m w") (simp add: io_bind_def)
    obtain reqs' where "list_all P reqs'" "length reqs' \<le> n"
        "snd (f a (snd (m w))) = (snd (m w)) \<lparr> hw_requests := hw_requests (snd (m w)) @ reqs' \<rparr>"
      using assms(2) [of a] unfolding posts_def by blast
    then show ?thesis using r b by (intro exI [of _ "reqs @ reqs'"]) simp
  qed
qed

lemma posts_first: "(\<And>w. snd (m w) = w) \<Longrightarrow> (\<And>a. posts P n (f a)) \<Longrightarrow> posts P n (io_bind m f)"
  using posts_bind [OF posts_quiet, of m P n f 0] by simp

lemma posts_request:
  assumes "P \<lparr> hr_endpoint = gi_endpoint ix, hr_headers = headers, hr_body = body \<rparr>"
  shows "posts P 1 (executeGraphQLRequest env ix headers body t signal)"
proof -
  have "posts P 1 (fetchWithTimeout env \<lparr> hr_endpoint = gi_endpoint ix, hr_headers = headers, hr_body = body \<rparr> t signal)"
    unfolding posts_def
  proof
    fix w
    show "\<exists>reqs. list_all P reqs \<and> length reqs \<le> 1 \<and>
        snd (fetchWithTimeout env \<lparr> hr_endpoint = gi_endpoint ix, hr_headers = headers, hr_body = body \<rparr> t signal w)
          = w \<lparr> hw_requests := hw_requests w @ reqs \<rparr>"
      using fetchWithTimeout_posts [of "\<lparr> hr_endpoint = gi_endpoint ix, hr_headers = headers, hr_body = body \<rparr>" env t signal w] assms
      by (auto simp: list_all_iff)
  qed
  then have "posts P (1 + 0) (executeGraphQLRequest env ix headers body t signal)"
    unfolding executeGraphQLRequest_def by (rule posts_bind) (auto intro: posts_quiet simp: io_throw_def io_lift_def)
  then show ?thesis by simp
qed

lemma posts_body:
  "posts (query_request env ix options) (if go_persist options = Some False then 1 else 2)
    (query_body env ix options v (query_headers (go_headers options)))"
proof (cases "go_persist options = Some False")
  case True
  have "posts (query_request env ix options) 1
      (executeGraphQLRequest env ix (query_headers (go_headers options)) (request_body (Some (go_query options)) v None)
        (go_timeoutMs options) (go_signal options))"
    by (rule posts_request) (auto simp: query_request_def)
  moreover have "query_body env ix options v (query_headers (go_headers options)) =
      executeGraphQLRequest env ix (query_headers (go_headers options)) (request_body (Some (go_query options)) v None)
        (go_timeoutMs options) (go_signal options)"
    by (rule ext) (simp add: query_body_def True io_bind_def io_lift_def io_return_def split: prod.split sum.split)
  ultimately show ?thesis using True by simp
next
  case False
  let ?sha = "Some (net_sha256hex env (go_query options))"
  have one: "posts (query_request env ix options) 1
      (executeGraphQLRequest env ix (query_headers (go_headers options)) (request_body q v ?sha) (go_timeoutMs options) (go_signal options))"
    if "q = None \<or> q = Some (go_query options)" for q
    by (rule posts_request) (use that in \<open>auto simp: query_request_def\<close>)
  have "posts (query_request env ix options) 1
      (io_bind (io_lift (isPersistedQueryNotFound body)) (\<lambda>missing_query.
        if missing_query then executeGraphQLRequest env ix (query_headers (go_headers options))
          (request_body (Some (go_query options)) v ?sha) (go_timeoutMs options) (go_signal options)
        else io_return body))" for body
    by (rule posts_first) (auto simp: io_lift_def io_return_def simp del: One_nat_def intro!: one posts_quiet [of "io_return _"])
  then have "posts (query_request env ix options) (1 + 1)
      (io_bind (executeGraphQLRequest env ix (query_headers (go_headers options)) (request_body None v ?sha) (go_timeoutMs options) (go_signal options))
        (\<lambda>body. io_bind (io_lift (isPersistedQueryNotFound body)) (\<lambda>missing_query.
          if missing_query then executeGraphQLRequest env ix (query_headers (go_headers options))
            (request_body (Some (go_query options)) v ?sha) (go_timeoutMs options) (go_signal options)
          else io_return body)))"
    by (intro posts_bind one) simp
  then show ?thesis using False by (simp add: query_body_def Let_def numeral_2_eq_2)
qed

lemma posts_query: "posts (query_request env ix options) (if go_persist options = Some False then 1 else 2) (queryInternal env ix options)"
proof -
  let ?n = "if go_persist options = Some False then 1 else 2 :: nat"
  have "posts (query_request env ix options) (?n + 0)
      (io_bind (query_body env ix options v (query_headers (go_headers options))) (\<lambda>body. io_lift (reply_data body)))" for v
    by (rule posts_bind [OF posts_body], rule posts_quiet) (simp add: io_lift_def)
  note tail = this [unfolded Nat.add_0_right]
  show ?thesis
    unfolding queryInternal_def Let_def
    apply (rule posts_first, simp add: io_gets_def)
    apply (rule posts_first, simp add: io_guard_def)
    apply (rule posts_first, simp add: io_guard_def)
    apply (rule posts_first, simp add: io_guard_def)
    apply (rule posts_first, simp add: io_guard_def)
    by (rule tail)
qed

text \<open>
  A query sends at most two requests, one unless it is persisted, each to the endpoint, with no
  bigint in its body and with no other text or hash than those of the query; it sends nothing
  once the indexer is destroyed, and reports itself once, as what it returned.
\<close>
theorem query_sends_and_reports:
  "\<exists>reqs. list_all (query_request env ix options) reqs \<and> list_all (\<lambda>r. bigint_free (hr_body r)) reqs \<and>
    length reqs \<le> (if go_persist options = Some False then 1 else 2) \<and> (hw_destroyed w \<longrightarrow> reqs = []) \<and>
    hw_requests (snd (query env ix options w)) = hw_requests w @ reqs \<and>
    (\<exists>ms. hw_metrics (snd (query env ix options w)) = hw_metrics w @ (if gi_onQueryMetric ix then [ms] else []) \<and>
       mq_queryName ms = getQueryName (go_query options) \<and> (mq_success ms \<longleftrightarrow> (\<exists>v. fst (query env ix options w) = Inr v)))"
proof -
  obtain r w' where r: "queryInternal env ix options w = (r, w')" by fastforce
  obtain reqs where reqs: "list_all (query_request env ix options) reqs" "length reqs \<le> (if go_persist options = Some False then 1 else 2)"
      "w' = w \<lparr> hw_requests := hw_requests w @ reqs \<rparr>"
    using posts_query [of env ix options] r unfolding posts_def by (metis snd_conv)
  have "hw_destroyed w \<Longrightarrow> w' = w"
    using r by (auto simp: queryInternal_def io_bind_def io_gets_def io_guard_def)
  then have "hw_destroyed w \<longrightarrow> reqs = []"
    using reqs(3) by (metis append_self_conv http_world.select_convs(1) http_world.surjective http_world.update_convs(1))
  moreover have "list_all (\<lambda>r. bigint_free (hr_body r)) reqs"
    using reqs(1) by (auto simp: list_all_iff query_request_def bigint_free_request)
  ultimately show ?thesis using reqs r
    by (intro exI [of _ reqs])
       (auto simp: query_def Let_def emitQueryMetric_def result_ok_iff
          intro!: exI [of _ "\<lparr> mq_queryName = getQueryName (go_query options), mq_durationMs = net_clock env (requests_made w') - net_clock env (requests_made w),
            mq_success = result_ok r, mq_error = (case r of Inl e \<Rightarrow> Some (as_error e) | Inr _ \<Rightarrow> None) \<rparr>"])
qed

lemma query_requests:
  "length (hw_requests (snd (query env ix options w))) \<le> length (hw_requests w) + (if go_persist options = Some False then 1 else 2)"
proof -
  obtain reqs where "length reqs \<le> (if go_persist options = Some False then 1 else 2)"
      "snd (queryInternal env ix options w) = w \<lparr> hw_requests := hw_requests w @ reqs \<rparr>"
    using posts_query [of env ix options] unfolding posts_def by blast
  then show ?thesis by (cases "go_persist options = Some False") (simp_all add: query_def Let_def split_beta emitQueryMetric_def)
qed

section \<open>Persisted queries\<close>

definition not_found_body :: jsval where
  "not_found_body = JObject [(''errors'', JArray [JObject [(''message'', JString ''PERSISTED_QUERY_NOT_FOUND'')]])]"

definition answers_ok :: "(thrown \<times> bool, http_response) result \<Rightarrow> jsval \<Rightarrow> bool" where
  "answers_ok r body = (\<exists>x. r = Inr x \<and> rs_ok x \<and> rs_json x = Inr body)"

text \<open>
  A server that answers a query and its variables with one body, and a hash alone with the same
  body or with not found, as it likes.
\<close>

definition serves :: "network \<Rightarrow> string \<Rightarrow> jsval \<Rightarrow> jsval \<Rightarrow> bool" where
  "serves env q v body = (isPersistedQueryNotFound body = Inr False \<and>
     (\<forall>n req sha. hr_body req = request_body (Some q) v sha \<longrightarrow> answers_ok (fetch_answer env n req) body) \<and>
     (\<forall>n req. hr_body req = request_body None v (Some (net_sha256hex env q)) \<longrightarrow>
        answers_ok (fetch_answer env n req) body \<or> answers_ok (fetch_answer env n req) not_found_body))"

lemma not_found_seen: "isPersistedQueryNotFound not_found_body = Inr True"
  by (simp add: isPersistedQueryNotFound_def not_found_body_def is_object_def message_includes_def NOT_FOUND_def)

lemma execute_answered:
  assumes "answers_ok (fetch_answer env (requests_made w) \<lparr> hr_endpoint = gi_endpoint ix, hr_headers = headers, hr_body = body \<rparr>) x"
    "\<forall>n. \<not> net_aborted env n"
  shows "executeGraphQLRequest env ix headers body t signal w =
    (Inr x, w \<lparr> hw_requests := hw_requests w @ [\<lparr> hr_endpoint = gi_endpoint ix, hr_headers = headers, hr_body = body \<rparr>] \<rparr>)"
  using assms by (auto simp: answers_ok_def executeGraphQLRequest_def fetchWithTimeout_def io_bind_def io_lift_def Let_def)

lemma body_served:
  assumes "serves env (go_query options) v body" "\<forall>n. \<not> net_aborted env n"
  shows "fst (query_body env ix options v headers w) = Inr body"
proof -
  let ?q = "go_query options" and ?sha = "Some (net_sha256hex env (go_query options))"
  have full: "fst (executeGraphQLRequest env ix headers (request_body (Some ?q) v sha) t signal w') = Inr body" for sha t signal w'
  proof -
    have "answers_ok (fetch_answer env (requests_made w')
        \<lparr> hr_endpoint = gi_endpoint ix, hr_headers = headers, hr_body = request_body (Some ?q) v sha \<rparr>) body"
      using assms(1) unfolding serves_def by (metis http_request.select_convs(3))
    from execute_answered [OF this assms(2)] show ?thesis by simp
  qed
  show ?thesis
  proof (cases "go_persist options = Some False")
    case True
    then show ?thesis using full [of None "go_timeoutMs options" "go_signal options" w]
      by (auto simp: query_body_def io_bind_def io_lift_def io_return_def split: prod.split sum.split)
  next
    case False
    let ?req = "\<lparr> hr_endpoint = gi_endpoint ix, hr_headers = headers, hr_body = request_body None v ?sha \<rparr>"
    have "answers_ok (fetch_answer env (requests_made w) ?req) body \<or> answers_ok (fetch_answer env (requests_made w) ?req) not_found_body"
      using assms(1) unfolding serves_def by (metis http_request.select_convs(3))
    then obtain b where b: "answers_ok (fetch_answer env (requests_made w) ?req) b"
        "isPersistedQueryNotFound b = Inr (b \<noteq> body)"
    proof -
      have "isPersistedQueryNotFound body = Inr False" using assms(1) by (simp add: serves_def)
      moreover from this have "not_found_body \<noteq> body" using not_found_seen by auto
      ultimately show ?thesis using that not_found_seen \<open>_ \<or> _\<close> by auto
    qed
    note first = execute_answered [OF b(1) assms(2), of "go_timeoutMs options" "go_signal options"]
    have "fst (executeGraphQLRequest env ix headers (request_body (Some ?q) v ?sha) (go_timeoutMs options) (go_signal options)
        (w \<lparr> hw_requests := hw_requests w @ [?req] \<rparr>)) = Inr body"
      by (rule full)
    then show ?thesis using False b(2)
      by (simp add: query_body_def io_bind_def first io_lift_def io_return_def Let_def)
  qed
qed

lemma query_persisted:
  assumes "trim (go_query options) \<noteq> []" "has_fetch env" "\<not> hw_destroyed w" "\<forall>n. \<not> net_aborted env n"
    "go_variables options = Some (JObject kvs)" "serves env (go_query options) (JObject kvs) body"
  shows "fst (query env ix options w) = reply_data body \<and>
    fst (query env ix (options \<lparr> go_persist := Some False \<rparr>) w) = reply_data body"
proof -
  have "fst (queryInternal env ix o' w) = reply_data body"
    if "go_query o' = go_query options" "go_variables o' = go_variables options" for o'
  proof -
    have "fst (query_body env ix o' (JObject kvs) (query_headers (go_headers o')) w) = Inr body"
      using body_served assms that by simp
    then show ?thesis using assms that
      by (cases "query_body env ix o' (JObject kvs) (query_headers (go_headers o')) w")
         (simp add: queryInternal_def Let_def io_bind_def io_gets_def io_guard_def io_lift_def is_object_def)
  qed
  from this [of options] this [of "options \<lparr> go_persist := Some False \<rparr>"] show ?thesis
    by (simp add: query_def Let_def split_beta)
qed

text \<open>
  C20: Persisting a query does not change its answer: against a server that keeps to the protocol,
  whichever hashes it knows at whichever time, a query returns what the body of the full query
  is worth, and the errors of that body are thrown together as one error.
\<close>
theorem persisted_query_transparent:
  assumes "trim (go_query options) \<noteq> []" "has_fetch env" "\<not> hw_destroyed w" "\<forall>n. \<not> net_aborted env n"
    "go_variables options = Some (JObject kvs)" "serves env (go_query options) (JObject kvs) body"
  shows "fst (query env ix options w) = reply_data body \<and>
    fst (query env ix (options \<lparr> go_persist := Some False \<rparr>) w) = reply_data body"
  using assms by (rule query_persisted)

definition new_http_world :: http_world where
  "new_http_world = \<lparr> hw_requests = [], hw_metrics = [], hw_destroyed = False \<rparr>"

text \<open>A server that has seen no query and answers every one with the same data.\<close>

definition forgetful_network :: "jsval \<Rightarrow> network" where
  "forgetful_network v = \<lparr> fetch_answer = (\<lambda>_ req. Inr \<lparr> rs_ok = True, rs_status = 200, rs_statusText = ''OK'',
       rs_json = Inr (if field_of (hr_body req) ''query'' = JNull then not_found_body else JObject [(''data'', v)]) \<rparr>),
     net_aborted = (\<lambda>_. False), net_clock = int, net_sha256hex = (\<lambda>q. q), has_fetch = True \<rparr>"

definition sample_query :: GraphQLQueryOptions where
  "sample_query = \<lparr> go_query = ''query Q { n }'', go_variables = Some (JObject [(''n'', JBigint 7)]), go_headers = [], go_signal = False,
     go_timeoutMs = None, go_persist = None \<rparr>"

definition sample_indexer :: GraphQLIndexer where
  "sample_indexer = \<lparr> gi_endpoint = ''https://indexer'', gi_onQueryMetric = True \<rparr>"

lemma forgetful_serves: "serves (forgetful_network v) q vars (JObject [(''data'', v)])"
  by (auto simp: serves_def answers_ok_def forgetful_network_def request_body_def isPersistedQueryNotFound_def)

lemma persisted_query_transparent_witness:
  "fst (query (forgetful_network (JString ''d'')) sample_indexer sample_query new_http_world) = Inr (JString ''d'')"
  using persisted_query_transparent [of sample_query "forgetful_network (JString ''d'')" new_http_world _ _ sample_indexer, OF _ _ _ _ _ forgetful_serves]
  by (simp add: sample_query_def forgetful_network_def new_http_world_def trim_def is_space_def reply_data_def)

text \<open>
  The Apollo protocol reports an unknown hash with the code as an extension and another
  message: the reply is not recognised, and the query fails.
\<close>

lemma apollo_not_found_unseen:
  "isPersistedQueryNotFound (JObject [(''errors'', JArray [JObject [(''message'', JString ''PersistedQueryNotFound''),
     (''extensions'', JObject [(''code'', JString ''PERSISTED_QUERY_NOT_FOUND'')])]])]) = Inr False"
  by (simp add: isPersistedQueryNotFound_def is_object_def message_includes_def NOT_FOUND_def)

text \<open>An error whose message is a number makes a persisted query fail with a type error instead of that error.\<close>

lemma numeric_message_throws:
  "\<exists>e. isPersistedQueryNotFound (JObject [(''errors'', JArray [JObject [(''message'', JNumber (Num 5))]])]) = Inl e \<and> err_class e = Some TypeErrorClass"
  by (simp add: isPersistedQueryNotFound_def is_object_def message_includes_def new_error_def)

section \<open>The collection in a reply\<close>

text \<open>All collections in a reply, outermost first, and no collection inside another.\<close>

function all_collections :: "jsval list \<Rightarrow> PaginatedCollection list" where
  "all_collections [] = []"
| "all_collections (e # es) =
    (if is_object e then (case collection_of e of Some c \<Rightarrow> [c] | None \<Rightarrow> all_collections (values_of e)) else []) @ all_collections es"
  by pat_completeness auto
termination
  by (relation "measure (size_list size)") (auto dest: size_values_of)

text \<open>The search gives the first collection of the reply, and gives none only when the reply holds none.\<close>
theorem search_finds_first_collection:
  "findPaginatedCollection v =
    (if is_object v then (case all_collections (values_of v) of [] \<Rightarrow> None | c # _ \<Rightarrow> Some c) else None)"
proof -
  have "find_in vs = (case all_collections vs of [] \<Rightarrow> None | c # _ \<Rightarrow> Some c)" for vs
    by (induction vs rule: find_in.induct) (auto split: option.splits list.splits)
  then show ?thesis by (simp add: findPaginatedCollection_def)
qed

section \<open>All pages\<close>

text \<open>The pages a server gives, from a cursor on, as far as the caller's function asks for more.\<close>

fun page_chain :: "(string option \<Rightarrow> jsval) \<Rightarrow> (jsval \<Rightarrow> (thrown, string option) result) \<Rightarrow> string option \<Rightarrow> jsval list \<Rightarrow> bool" where
  "page_chain page next cursor [] = False"
| "page_chain page next cursor (p # ps) =
    (p = page cursor \<and> (case next p of Inl _ \<Rightarrow> False | Inr None \<Rightarrow> ps = [] | Inr (Some c) \<Rightarrow> page_chain page next (Some c) ps))"

definition pages_served :: "network \<Rightarrow> GraphQLIndexer \<Rightarrow> FetchAllOptions \<Rightarrow> (string option \<Rightarrow> jsval) \<Rightarrow> bool" where
  "pages_served env ix options page = (\<forall>cursor w. \<not> hw_destroyed w \<longrightarrow>
     (\<exists>w'. query env ix (page_query options cursor) w = (Inr (page cursor), w') \<and> \<not> hw_destroyed w'))"

lemma fetch_pages_within:
  assumes "pages_served env ix options page" "\<not> hw_destroyed w"
    "page_chain page (fa_getNextCursor options) cursor ps" "\<forall>k < length ps. \<not> num_le m (Num (of_nat (n + k)))"
  shows "\<exists>w'. fetch_pages env ix options m cursor n pages w = Some (Inr (pages @ ps), w')"
  using assms(2-)
proof (induction ps arbitrary: cursor n pages w)
  case (Cons p ps)
  obtain w' where w': "query env ix (page_query options cursor) w = (Inr p, w')" "\<not> hw_destroyed w'"
    using assms(1) Cons.prems(1,2) by (fastforce simp: pages_served_def)
  have go: "\<not> num_le m (Num (of_nat n))" using Cons.prems(3) by force
  show ?case
  proof (cases "fa_getNextCursor options p")
    case (Inl e)
    then show ?thesis using Cons.prems(2) by simp
  next
    case (Inr c)
    show ?thesis
    proof (cases c)
      case None
      then show ?thesis using Cons.prems(2) Inr w' go by (subst fetch_pages.simps) simp
    next
      case (Some c')
      have "\<forall>k < length ps. \<not> num_le m (Num (of_nat (n + 1 + k)))"
        using Cons.prems(3) by (metis Suc_less_eq add_Suc_right add_Suc_shift Suc_eq_plus1 length_Cons)
      then have "\<exists>w''. fetch_pages env ix options m (Some c') (n + 1) (pages @ [p]) w' = Some (Inr ((pages @ [p]) @ ps), w'')"
        using Cons.IH [of w' "Some c'" "n + 1" "pages @ [p]"] w'(2) Cons.prems(2) Inr Some by simp
      then show ?thesis using Inr Some w' go by (subst fetch_pages.simps) simp
    qed
  qed
qed simp

lemma fetch_pages_ends:
  assumes "q \<le> of_nat (n + d)"
  shows "\<exists>r w'. fetch_pages env ix options (Num q) cursor n pages w = Some (r, w') \<and>
    length (hw_requests w') \<le> length (hw_requests w) + 2 * d"
  using assms
proof (induction d arbitrary: n cursor pages w)
  case 0
  then show ?case by (subst fetch_pages.simps) simp
next
  case (Suc d)
  show ?case
  proof (cases "q \<le> of_nat n")
    case True
    then show ?thesis by (subst fetch_pages.simps) simp
  next
    case False
    obtain r w' where r: "query env ix (page_query options cursor) w = (r, w')" by fastforce
    have len: "length (hw_requests w') \<le> length (hw_requests w) + 2"
      using query_requests [of env ix "page_query options cursor" w] by (auto simp: r split: if_splits)
    show ?thesis
    proof (cases r)
      case (Inl e)
      then show ?thesis using r len False by (subst fetch_pages.simps) simp
    next
      case (Inr p)
      show ?thesis
      proof (cases "fa_getNextCursor options p = Inr None \<or> (\<exists>e. fa_getNextCursor options p = Inl e)")
        case True
        then show ?thesis using r Inr len False by (subst fetch_pages.simps) auto
      next
        case go: False
        then obtain c where c: "fa_getNextCursor options p = Inr (Some c)" by (cases "fa_getNextCursor options p") auto
        obtain r' w'' where "fetch_pages env ix options (Num q) (Some c) (n + 1) (pages @ [p]) w' = Some (r', w'')"
            "length (hw_requests w'') \<le> length (hw_requests w') + 2 * d"
          using Suc.IH [of "n + 1"] Suc.prems by fastforce
        then show ?thesis using r Inr c len False by (subst fetch_pages.simps) simp
      qed
    qed
  qed
qed

lemma fetch_pages_chain:
  assumes "pages_served env ix options page" "\<not> hw_destroyed w" "q \<le> of_nat (n + d)"
    "fetch_pages env ix options (Num q) cursor n pages w = Some (r, w')"
  shows "case r of
      Inr res \<Rightarrow> \<exists>ps. res = pages @ ps \<and> page_chain page (fa_getNextCursor options) cursor ps \<and> (\<forall>k < length ps. of_nat (n + k) < q)
    | Inl e \<Rightarrow> (\<exists>p. fa_getNextCursor options p = Inl e) \<or> e = max_pages_error (max n (nat \<lceil>q\<rceil>)) (Num q)"
  using assms(2-)
proof (induction d arbitrary: n cursor pages w)
  case 0
  then have "r = Inl (max_pages_error n (Num q))" by (subst (asm) fetch_pages.simps) simp
  moreover have "nat \<lceil>q\<rceil> \<le> n" using 0 by (simp add: nat_le_iff ceiling_le_iff)
  ultimately show ?case by (simp add: max_def)
next
  case (Suc d)
  show ?case
  proof (cases "q \<le> of_nat n")
    case True
    then have "r = Inl (max_pages_error n (Num q))" using Suc.prems by (subst (asm) fetch_pages.simps) simp
    moreover have "nat \<lceil>q\<rceil> \<le> n" using True by (simp add: nat_le_iff ceiling_le_iff)
    ultimately show ?thesis by (simp add: max_def)
  next
    case False
    obtain w1 where w1: "query env ix (page_query options cursor) w = (Inr (page cursor), w1)" "\<not> hw_destroyed w1"
      using assms(1) Suc.prems(1) unfolding pages_served_def by blast
    show ?thesis
    proof (cases "fa_getNextCursor options (page cursor)")
      case (Inl e)
      then have "r = Inl e" using Suc.prems(3) w1 False by (subst (asm) fetch_pages.simps) simp
      then show ?thesis using Inl by auto
    next
      case (Inr c)
      show ?thesis
      proof (cases c)
        case None
        then have "r = Inr (pages @ [page cursor])" using Suc.prems(3) w1 Inr False by (subst (asm) fetch_pages.simps) simp
        then show ?thesis using Inr None False by (auto intro!: exI [of _ "[page cursor]"])
      next
        case (Some c')
        then have f: "fetch_pages env ix options (Num q) (Some c') (n + 1) (pages @ [page cursor]) w1 = Some (r, w')"
          using Suc.prems(3) w1 Inr False by (subst (asm) fetch_pages.simps) simp
        have ih: "case r of
            Inr res \<Rightarrow> \<exists>ps. res = (pages @ [page cursor]) @ ps \<and> page_chain page (fa_getNextCursor options) (Some c') ps \<and>
              (\<forall>k < length ps. of_nat (n + 1 + k) < q)
          | Inl e \<Rightarrow> (\<exists>p. fa_getNextCursor options p = Inl e) \<or> e = max_pages_error (max (n + 1) (nat \<lceil>q\<rceil>)) (Num q)"
          by (rule Suc.IH) (use w1(2) Suc.prems(2) f in auto)
        have "max (n + 1) (nat \<lceil>q\<rceil>) = max n (nat \<lceil>q\<rceil>)" using False by (simp add: max_def) linarith
        show ?thesis
        proof (cases r)
          case (Inl e)
          then show ?thesis using ih \<open>max (n + 1) _ = _\<close> by simp
        next
          case res: (Inr res)
          then obtain ps where "res = pages @ page cursor # ps" "page_chain page (fa_getNextCursor options) (Some c') ps"
              "\<forall>k < length ps. of_nat (n + 1 + k) < q"
            using ih by auto
          then show ?thesis using res Inr Some False
            by (auto intro!: exI [of _ "page cursor # ps"] simp: less_Suc_eq_0_disj)
        qed
      qed
    qed
  qed
qed

text \<open>
  With a finite limit of pages fetchAll returns, whatever the server answers, after at most two
  requests for each page of the limit.
\<close>
theorem fetchAll_terminates:
  assumes "given_or (Num (of_nat DEFAULT_INDEXER_MAX_PAGES)) (fa_maxPages options) = Num q"
  shows "\<exists>r w'. fetchAll env ix options w = Some (r, w') \<and> length (hw_requests w') \<le> length (hw_requests w) + 2 * nat \<lceil>q\<rceil>"
proof -
  have "q \<le> of_nat (0 + nat \<lceil>q\<rceil>)" by (simp add: of_nat_ceiling)
  from fetch_pages_ends [OF this] show ?thesis using assms by (simp add: fetchAll_def)
qed

text \<open>
  It returns the chain of pages from the first to the one whose cursor is null, exactly when
  this chain is no longer than the limit, and the page limit error otherwise, unless the
  caller's function throws.
\<close>
theorem fetchAll_exact:
  assumes "given_or (Num (of_nat DEFAULT_INDEXER_MAX_PAGES)) (fa_maxPages options) = Num q"
    "pages_served env ix options page" "\<not> hw_destroyed w" "\<forall>p e. fa_getNextCursor options p \<noteq> Inl e"
  shows "\<exists>w'. fetchAll env ix options w = Some (Inl (max_pages_error (nat \<lceil>q\<rceil>) (Num q)), w') \<and>
        \<not> (\<exists>ps. page_chain page (fa_getNextCursor options) None ps \<and> length ps \<le> nat \<lceil>q\<rceil>) \<or>
      (\<exists>ps. fetchAll env ix options w = Some (Inr ps, w') \<and> page_chain page (fa_getNextCursor options) None ps \<and> length ps \<le> nat \<lceil>q\<rceil>)"
proof -
  have q: "q \<le> of_nat (0 + nat \<lceil>q\<rceil>)" by (simp add: of_nat_ceiling)
  obtain r w' where r: "fetch_pages env ix options (Num q) None 0 [] w = Some (r, w')"
    using fetch_pages_ends [OF q] by blast
  have limit: "(\<forall>k < length ps. of_nat k < q) \<longleftrightarrow> length ps \<le> nat \<lceil>q\<rceil>" for ps :: "jsval list"
  proof -
    have "of_nat k < q \<longleftrightarrow> k < nat \<lceil>q\<rceil>" for k
      using less_ceiling_iff [of "int k" q] by (simp add: zless_nat_eq_int_zless)
    then show ?thesis by (auto simp: not_le [symmetric])
  qed
  show ?thesis
  proof (cases r)
    case (Inl e)
    then have "e = max_pages_error (nat \<lceil>q\<rceil>) (Num q)" using fetch_pages_chain [OF assms(2,3) q r] assms(4) by simp
    moreover have "\<not> (\<exists>ps. page_chain page (fa_getNextCursor options) None ps \<and> length ps \<le> nat \<lceil>q\<rceil>)"
      using fetch_pages_within [OF assms(2,3), of None _ "Num q" 0 "[]"] limit r Inl by (fastforce simp: not_le)
    ultimately show ?thesis using r Inl assms(1) by (auto simp: fetchAll_def)
  next
    case (Inr ps)
    then show ?thesis using fetch_pages_chain [OF assms(2,3) q r] limit r assms(1) by (auto simp: fetchAll_def)
  qed
qed

text \<open>Against the forgetful server every page is the same.\<close>

lemma forgetful_pages:
  assumes "trim (fa_query options) \<noteq> []"
  shows "pages_served (forgetful_network v) ix options (\<lambda>_. v)"
  unfolding pages_served_def
proof (intro allI impI)
  fix cursor and w :: http_world
  assume w: "\<not> hw_destroyed w"
  let ?o = "page_query options cursor"
  obtain kvs where kvs: "go_variables ?o = Some (JObject kvs)" "trim (go_query ?o) \<noteq> []" using assms by (simp add: page_query_def)
  have "fst (query (forgetful_network v) ix ?o w) = reply_data (JObject [(''data'', v)])"
    by (rule conjunct1 [OF query_persisted [OF kvs(2) _ w _ kvs(1) forgetful_serves]]) (simp_all add: forgetful_network_def)
  moreover obtain reqs where "snd (queryInternal (forgetful_network v) ix ?o w) = w \<lparr> hw_requests := hw_requests w @ reqs \<rparr>"
    using posts_query [of "forgetful_network v" ix ?o] unfolding posts_def by blast
  then have "\<not> hw_destroyed (snd (query (forgetful_network v) ix ?o w))"
    using w by (simp add: query_def Let_def split_beta emitQueryMetric_def)
  ultimately show "\<exists>w'. query (forgetful_network v) ix ?o w = (Inr v, w') \<and> \<not> hw_destroyed w'"
    by (cases "query (forgetful_network v) ix ?o w") (simp add: reply_data_def)
qed

definition endless_options :: FetchAllOptions where
  "endless_options = \<lparr> fa_query = ''query Q { n }'', fa_variables = None, fa_headers = [], fa_getNextCursor = (\<lambda>_. Inr (Some ''c'')),
     fa_maxPages = None \<rparr>"

lemma fetchAll_terminates_witness:
  "\<exists>r w'. fetchAll (forgetful_network JNull) sample_indexer endless_options new_http_world = Some (r, w') \<and> length (hw_requests w') \<le> 2000"
  using fetchAll_terminates [of endless_options 1000 "forgetful_network JNull" sample_indexer new_http_world]
  by (simp add: endless_options_def given_or_def DEFAULT_INDEXER_MAX_PAGES_def new_http_world_def)

lemma endless_chain: "\<not> page_chain page (\<lambda>_. Inr (Some c)) cursor ps"
  by (induction ps arbitrary: cursor) auto

text \<open>A server that gives the same cursor again is asked for the same page a thousand times: fetchAll has no check for it.\<close>

lemma fetchAll_exact_witness:
  "\<exists>w'. fetchAll (forgetful_network JNull) sample_indexer endless_options new_http_world = Some (Inl (max_pages_error 1000 (Num 1000)), w')"
proof -
  have "trim (fa_query endless_options) \<noteq> []" by (simp add: endless_options_def trim_def is_space_def)
  note served = forgetful_pages [OF this, of JNull sample_indexer]
  have "\<not> page_chain (\<lambda>_. JNull) (fa_getNextCursor endless_options) None ps" for ps
    using endless_chain by (simp add: endless_options_def)
  then show ?thesis
    using fetchAll_exact [OF _ served, of 1000 new_http_world]
    by (auto simp: endless_options_def given_or_def DEFAULT_INDEXER_MAX_PAGES_def new_http_world_def)
qed

text \<open>What a walk of fetchAllAuto goes through: pages whose cursors are given, not empty and not the one asked for.\<close>

fun auto_chain :: "jsval \<Rightarrow> PaginatedCollection list \<Rightarrow> bool" where
  "auto_chain cursor [] = False"
| "auto_chain cursor (c # cs) =
    (if pc_hasNextPage c then (\<exists>e. pc_endCursor c = Some e \<and> e \<noteq> [] \<and> JString e \<noteq> cursor \<and> auto_chain (JString e) cs) else cs = [])"

lemma auto_pages_chain:
  "(\<forall>res. fst (auto_pages env ix options n cursor results w) = Inr res \<longrightarrow>
      (\<exists>cs. res = results @ concat (List.map pc_items cs) \<and> auto_chain cursor cs \<and> length cs \<le> n)) \<and>
    length (hw_requests (snd (auto_pages env ix options n cursor results w))) \<le> length (hw_requests w) + 2 * n"
proof (induction n arbitrary: cursor results w)
  case 0
  then show ?case by (simp add: io_throw_def)
next
  case (Suc n)
  let ?o = "options \<lparr> go_variables := Some (JObject (spread (object_entries (go_variables options)) [(''cursor'', cursor)])) \<rparr>"
  obtain r w1 where w1: "query env ix ?o w = (r, w1)" by fastforce
  have len: "length (hw_requests w1) \<le> length (hw_requests w) + 2"
    using query_requests [of env ix ?o w] by (auto simp: w1 split: if_splits)
  show ?case
  proof (cases r)
    case (Inl e)
    then show ?thesis using w1 len by (simp add: io_bind_def)
  next
    case (Inr data)
    show ?thesis
    proof (cases "\<exists>c e. findPaginatedCollection data = Some c \<and> pc_hasNextPage c \<and> pc_endCursor c = Some e \<and> e \<noteq> [] \<and> JString e \<noteq> cursor")
      case False
      then show ?thesis using w1 len Inr
        by (auto simp: io_bind_def io_throw_def io_return_def split: option.splits if_splits intro!: exI [of _ "[_]"])
    next
      case True
      then obtain c e where c: "findPaginatedCollection data = Some c" "pc_hasNextPage c" "pc_endCursor c = Some e" "e \<noteq> []" "JString e \<noteq> cursor"
        by blast
      then have "auto_pages env ix options (Suc n) cursor results w = auto_pages env ix options n (JString e) (results @ pc_items c) w1"
        using w1 Inr by (simp add: io_bind_def)
      moreover have "\<exists>cs. res = results @ concat (List.map pc_items cs) \<and> auto_chain cursor cs \<and> length cs \<le> Suc n"
        if "fst (auto_pages env ix options n (JString e) (results @ pc_items c) w1) = Inr res" for res
      proof -
        obtain cs where "res = (results @ pc_items c) @ concat (List.map pc_items cs)" "auto_chain (JString e) cs" "length cs \<le> n"
          using Suc [of "JString e" "results @ pc_items c" w1] \<open>fst _ = Inr res\<close> by blast
        then show ?thesis using c by (intro exI [of _ "c # cs"]) simp
      qed
      ultimately show ?thesis using Suc [of "JString e" "results @ pc_items c" w1] len by simp
    qed
  qed
qed

text \<open>
  fetchAllAuto returns after at most a thousand queries; what it returns are the items of the
  pages it went through, in order, from the cursor of the caller to the first page that has no
  next one.
\<close>
theorem fetchAllAuto_collects:
  "length (hw_requests (snd (fetchAllAuto env ix options w))) \<le> length (hw_requests w) + 2000 \<and>
    (\<forall>res. fst (fetchAllAuto env ix options w) = Inr res \<longrightarrow>
      (\<exists>cs. res = concat (List.map pc_items cs) \<and> length cs \<le> 1000 \<and>
        auto_chain (case go_variables options of Some v \<Rightarrow> field_of v ''cursor'' | None \<Rightarrow> JUndefined) cs))"
  using auto_pages_chain [of env ix options DEFAULT_INDEXER_MAX_PAGES _ "[]" w]
  by (fastforce simp: fetchAllAuto_def DEFAULT_INDEXER_MAX_PAGES_def)

section \<open>The streams of a sender\<close>

text \<open>
  A paged query goes out only with a consistent choice of direction, and then passes on exactly
  the options given.
\<close>
theorem paging_passes_options:
  assumes "check_paging o' = Inr ()"
  shows "\<not> ((fs_first o' \<noteq> None \<or> fs_afterCursor o' \<noteq> None) \<and> (fs_last o' \<noteq> None \<or> fs_beforeCursor o' \<noteq> None)) \<and>
    page_size_ok (fs_first o') \<and> page_size_ok (fs_last o') \<and>
    map_of (paging_variables a o') = (\<lambda>k. if k = ''sender'' then Some (JString a)
      else if k = ''first'' then map_option JNumber (fs_first o') else if k = ''last'' then map_option JNumber (fs_last o')
      else if k = ''after'' then map_option JString (fs_afterCursor o')
      else if k = ''before'' then map_option JString (fs_beforeCursor o') else None)"
  using assms
  by (auto simp: check_paging_def paging_variables_def given_entry_def fun_eq_iff split: if_splits option.splits)

section \<open>The name of a query\<close>

lemma space_not_word: "is_space c \<Longrightarrow> \<not> word_char c"
  by (auto simp: is_space_def word_char_def is_digit_def)

lemma name_after_keyword:
  assumes "gap \<noteq> []" "list_all is_space gap" "nm \<noteq> []" "name_start (hd nm)" "list_all word_char nm" "rest = [] \<or> \<not> word_char (hd rest)"
  shows "name_after keyword (keyword @ gap @ nm @ rest) = Some nm"
proof -
  have h: "\<not> is_space (hd nm)" using assms(4) space_not_word by (auto simp: name_start_def)
  have d: "dropWhile is_space (gap @ nm @ rest) = nm @ rest"
    using assms(2,3) h by (cases nm) (auto simp: dropWhile_append list_all_iff)
  have t: "takeWhile word_char (nm @ rest) = nm"
    using assms(5,6) by (cases rest) (auto simp: takeWhile_append list_all_iff)
  have "gap @ nm @ rest \<noteq> nm @ rest" using assms(1) by simp
  then show ?thesis using d t assms(3,4) by (simp add: name_after_def del: dropWhile_eq_Nil_conv)
qed

lemma space_no_name: "is_space c \<Longrightarrow> named_operation (c # s) = None"
  by (auto simp: named_operation_def name_after_def is_space_def)

lemma operation_name_spaces: "list_all is_space pre \<Longrightarrow> operation_name False (pre @ s) = operation_name False s"
  by (induction pre) (simp_all add: space_no_name space_not_word)

text \<open>The metric of a named operation carries its name.\<close>
theorem query_name_read:
  assumes "list_all is_space pre" "keyword \<in> {''query'', ''mutation'', ''subscription''}"
    "gap \<noteq> []" "list_all is_space gap" "nm \<noteq> []" "name_start (hd nm)" "list_all word_char nm" "rest = [] \<or> \<not> word_char (hd rest)"
  shows "getQueryName (pre @ keyword @ gap @ nm @ rest) = nm"
proof -
  note n = name_after_keyword [OF assms(3-8)]
  have "named_operation (keyword @ gap @ nm @ rest) = Some nm"
    using assms(2) n [of keyword] by (auto simp: named_operation_def name_after_def)
  then have "operation_name False (keyword @ gap @ nm @ rest) = Some nm"
    using assms(2) by auto
  then show ?thesis using operation_name_spaces [OF assms(1)] by (simp add: getQueryName_def given_or_def)
qed

section \<open>Samples\<close>

lemma query_sends_and_reports_witness:
  "\<exists>ms. hw_metrics (snd (query (forgetful_network JNull) sample_indexer sample_query (new_http_world \<lparr> hw_destroyed := True \<rparr>))) = [ms] \<and>
     mq_queryName ms = ''Q'' \<and>
     hw_requests (snd (query (forgetful_network JNull) sample_indexer sample_query (new_http_world \<lparr> hw_destroyed := True \<rparr>))) = []"
proof -
  have "getQueryName (go_query sample_query) = ''Q''"
    by (simp add: sample_query_def getQueryName_def named_operation_def name_after_def is_space_def name_start_def word_char_def is_digit_def given_or_def)
  then show ?thesis
    using query_sends_and_reports [of "forgetful_network JNull" sample_indexer sample_query "new_http_world \<lparr> hw_destroyed := True \<rparr>"]
    by (auto simp: new_http_world_def sample_indexer_def)
qed

lemma fetchAllAuto_collects_witness:
  "length (hw_requests (snd (fetchAllAuto (forgetful_network JNull) sample_indexer sample_query new_http_world))) \<le> 2000"
  using fetchAllAuto_collects [of "forgetful_network JNull" sample_indexer sample_query new_http_world]
  by (simp add: new_http_world_def)

definition sample_paging :: FetchStreamsBySenderOptions where
  "sample_paging = \<lparr> fs_first = Some (Num 2), fs_last = None, fs_afterCursor = Some ''c'', fs_beforeCursor = None, fs_options = sample_query \<rparr>"

lemma paging_passes_options_witness: "map_of (paging_variables ''GA'' sample_paging) ''after'' = Some (JString ''c'')"
proof -
  have "check_paging sample_paging = Inr ()"
    by (simp add: check_paging_def sample_paging_def page_size_ok_def num_less_def)
  from paging_passes_options [OF this, of "''GA''"] show ?thesis by (simp add: sample_paging_def)
qed

lemma query_name_read_witness: "getQueryName ''query Streams { id }'' = ''Streams''"
  using query_name_read [of "[]" "''query''" "'' ''" "''Streams''" "'' { id }''"]
  by (simp add: is_space_def name_start_def word_char_def is_digit_def)

end
