(* ===== verification/Graph_Subscription.thy ===== *)
theory Graph_Subscription
  imports Graph_Query
begin

text \<open>
  Subscriptions of the GraphQL indexer (src/indexer.ts, subscribe): the WebSocket with its
  handshake, its heartbeat and its reconnects as a state machine whose events may come in any
  order, and the stream of server-sent events used where there is no WebSocket.
\<close>

section \<open>Options\<close>

definition parseBoundedInt :: "jsval \<Rightarrow> int \<Rightarrow> int \<Rightarrow> int \<Rightarrow> string \<Rightarrow> (thrown, int) result" where
  "parseBoundedInt v fallback lo hi field =
    (case v of
       JUndefined \<Rightarrow> Inr fallback
     | JNumber n \<Rightarrow> if is_integer_num n \<and> lo \<le> int_of_num n \<and> int_of_num n \<le> hi then Inr (int_of_num n)
         else Inl (plain_error (''GraphQL subscription '' @ field @ '' must be an integer between '' @ show_int lo @ '' and '' @ show_int hi))
     | _ \<Rightarrow> Inl (plain_error (''GraphQL subscription '' @ field @ '' must be an integer between '' @ show_int lo @ '' and '' @ show_int hi)))"

definition getWsUrl :: "string \<Rightarrow> string" where
  "getWsUrl endpoint =
    (if take 8 endpoint = ''https://'' then ''wss://'' @ drop 8 endpoint
     else if take 7 endpoint = ''http://'' then ''ws://'' @ drop 7 endpoint
     else endpoint)"

text \<open>The callback onData throws or not; an absent or throwing onError changes nothing.\<close>

record graph_options =
  gr_endpoint :: string
  gr_query :: string
  gr_variables :: jsval
  gr_maxReconnectAttempts :: int
  gr_reconnectDelayMs :: int
  gr_heartbeatIntervalMs :: int
  gr_heartbeatTimeoutMs :: int
  gr_onData :: "jsval \<Rightarrow> thrown option"

record GraphQLSubscriptionOptions =
  gq_query :: string
  gq_variables :: "jsval option"
  gq_maxReconnectAttempts :: jsval
  gq_reconnectDelayMs :: jsval
  gq_heartbeatIntervalMs :: jsval
  gq_heartbeatTimeoutMs :: jsval
  gq_onData :: "jsval \<Rightarrow> thrown option"

definition subscription_options :: "string \<Rightarrow> bool \<Rightarrow> GraphQLSubscriptionOptions \<Rightarrow> (thrown, graph_options) result" where
  "subscription_options endpoint destroyed o' =
    (if destroyed then Inl (plain_error ''GraphQLIndexer has been destroyed'')
     else if trim (gq_query o') = [] then Inl (plain_error ''GraphQL subscription query string cannot be null or empty'')
     else
       let variables = (case gq_variables o' of None \<Rightarrow> JObject [] | Some v \<Rightarrow> if v = JUndefined \<or> v = JNull then JObject [] else v) in
       if \<not> is_object variables then Inl (plain_error ''GraphQL query variables must be an object'')
       else
         result_bind (parseBoundedInt (gq_maxReconnectAttempts o') 5 0 32 ''maxReconnectAttempts'') (\<lambda>a.
         result_bind (parseBoundedInt (gq_reconnectDelayMs o') 1000 0 60000 ''reconnectDelayMs'') (\<lambda>d.
         result_bind (parseBoundedInt (gq_heartbeatIntervalMs o') 30000 0 600000 ''heartbeatIntervalMs'') (\<lambda>i.
         result_bind (parseBoundedInt (gq_heartbeatTimeoutMs o') 5000 0 600000 ''heartbeatTimeoutMs'') (\<lambda>t.
         Inr \<lparr> gr_endpoint = endpoint, gr_query = gq_query o', gr_variables = variables, gr_maxReconnectAttempts = a,
           gr_reconnectDelayMs = d, gr_heartbeatIntervalMs = i, gr_heartbeatTimeoutMs = t, gr_onData = gq_onData o' \<rparr>)))))"

section \<open>The state\<close>

text \<open>
  A socket is connecting, opened or shut; its handlers are attached until the code sets them to
  null.  Sockets are numbered as they are made, and so are timers: the lists hold the timers
  that are armed, the handles what the code's variables refer to.
\<close>

datatype socket_phase = Connecting | Opened | Shut

datatype frame = Ping | Pong | Connection_init | Subscribe jsval | Complete

datatype graph_notice = Data jsval | Failure thrown

record ws_socket =
  sk_phase :: socket_phase
  sk_attached :: bool
  sk_queued :: bool

record graph_sub =
  gs_unsubscribed :: bool
  gs_destroyed :: bool
  gs_ws :: "nat option"
  gs_sockets :: "ws_socket list"
  gs_attempts :: nat
  gs_reconnectTimer :: "nat option"
  gs_reconnects :: "nat list"
  gs_heartbeatInterval :: "nat option"
  gs_heartbeatTimeout :: "nat option"
  gs_pongs :: "nat list"
  gs_awaitingPong :: bool
  gs_issued :: nat
  gs_frames :: "(nat \<times> frame) list"
  gs_told :: "graph_notice list"
  gs_delays :: "rat list"

definition new_graph_sub :: graph_sub where
  "new_graph_sub = \<lparr> gs_unsubscribed = False, gs_destroyed = False, gs_ws = None, gs_sockets = [], gs_attempts = 0,
     gs_reconnectTimer = None, gs_reconnects = [], gs_heartbeatInterval = None, gs_heartbeatTimeout = None, gs_pongs = [],
     gs_awaitingPong = False, gs_issued = 0, gs_frames = [], gs_told = [], gs_delays = [] \<rparr>"

definition gone :: "graph_sub \<Rightarrow> bool" where "gone s = (gs_unsubscribed s \<or> gs_destroyed s)"

definition on_socket :: "nat \<Rightarrow> (ws_socket \<Rightarrow> ws_socket) \<Rightarrow> graph_sub \<Rightarrow> graph_sub" where
  "on_socket k f s = s \<lparr> gs_sockets := (gs_sockets s)[k := f (gs_sockets s ! k)] \<rparr>"

definition send_frame :: "nat \<Rightarrow> frame \<Rightarrow> graph_sub \<Rightarrow> graph_sub" where
  "send_frame k f s = s \<lparr> gs_frames := gs_frames s @ [(k, f)] \<rparr>"

definition tell :: "graph_notice \<Rightarrow> graph_sub \<Rightarrow> graph_sub" where
  "tell n s = s \<lparr> gs_told := gs_told s @ [n] \<rparr>"

definition clearReconnectTimer :: "graph_sub \<Rightarrow> graph_sub" where
  "clearReconnectTimer s =
    (case gs_reconnectTimer s of None \<Rightarrow> s
     | Some t \<Rightarrow> s \<lparr> gs_reconnects := removeAll t (gs_reconnects s), gs_reconnectTimer := None \<rparr>)"

definition clearHeartbeatTimeout :: "graph_sub \<Rightarrow> graph_sub" where
  "clearHeartbeatTimeout s =
    (case gs_heartbeatTimeout s of None \<Rightarrow> s
     | Some t \<Rightarrow> s \<lparr> gs_pongs := removeAll t (gs_pongs s), gs_heartbeatTimeout := None \<rparr>)"

definition stopHeartbeat :: "graph_sub \<Rightarrow> graph_sub" where
  "stopHeartbeat s = (clearHeartbeatTimeout s) \<lparr> gs_heartbeatInterval := None, gs_awaitingPong := False \<rparr>"

section \<open>Ending and reconnecting\<close>

text \<open>A send on an open socket does not throw.\<close>

definition close_detached :: "nat \<Rightarrow> graph_sub \<Rightarrow> graph_sub" where
  "close_detached k s = on_socket k (\<lambda>x. x \<lparr> sk_attached := False, sk_phase := Shut \<rparr>) s"

definition unsubscribe_graph :: "graph_sub \<Rightarrow> graph_sub" where
  "unsubscribe_graph s =
    (if gs_unsubscribed s then s
     else
       let s1 = stopHeartbeat (clearReconnectTimer (s \<lparr> gs_unsubscribed := True \<rparr>)) in
       case gs_ws s1 of
         None \<Rightarrow> s1
       | Some k \<Rightarrow>
           let s2 = (if sk_phase (gs_sockets s1 ! k) = Opened then send_frame k Complete s1 else s1) in
           (close_detached k s2) \<lparr> gs_ws := None \<rparr>)"

definition reconnect_delay :: "int \<Rightarrow> nat \<Rightarrow> rat \<Rightarrow> rat" where
  "reconnect_delay base attempts r =
    (let capped = min (of_int (base * int attempts)) 30000 in capped + r * (3 / 10) * capped)"

definition exhausted_error :: "graph_options \<Rightarrow> thrown" where
  "exhausted_error opts = plain_error (''GraphQL subscription WebSocket closed on '' @ gr_endpoint opts @ '' after '' @
     show_int (gr_maxReconnectAttempts opts) @ '' reconnect attempts exhausted'')"

definition scheduleReconnect :: "graph_options \<Rightarrow> rat \<Rightarrow> graph_sub \<Rightarrow> graph_sub" where
  "scheduleReconnect opts r s =
    (if gone s then s
     else if gr_maxReconnectAttempts opts \<le> int (gs_attempts s) then unsubscribe_graph (tell (Failure (exhausted_error opts)) s)
     else s \<lparr> gs_attempts := gs_attempts s + 1, gs_reconnectTimer := Some (gs_issued s), gs_reconnects := gs_reconnects s @ [gs_issued s],
       gs_issued := gs_issued s + 1, gs_delays := gs_delays s @ [reconnect_delay (gr_reconnectDelayMs opts) (gs_attempts s + 1) r] \<rparr>)"

text \<open>What the WebSocket constructor does: it may be missing, throw, or give a socket.\<close>

datatype ctor_outcome = No_ctor | Ctor_throws thrown | Ctor_ok

definition openSocket :: "ctor_outcome \<Rightarrow> graph_sub \<Rightarrow> graph_sub" where
  "openSocket c s =
    (if gone s then s
     else case c of
       No_ctor \<Rightarrow> s
     | Ctor_throws e \<Rightarrow> tell (Failure (as_error e)) s
     | Ctor_ok \<Rightarrow> s \<lparr> gs_ws := Some (length (gs_sockets s)),
         gs_sockets := gs_sockets s @ [\<lparr> sk_phase = Connecting, sk_attached = True, sk_queued = False \<rparr>] \<rparr>)"

section \<open>Handlers\<close>

definition startHeartbeat :: "graph_options \<Rightarrow> nat \<Rightarrow> graph_sub \<Rightarrow> graph_sub" where
  "startHeartbeat opts k s =
    (let s1 = stopHeartbeat s in
     if gr_heartbeatIntervalMs opts > 0 then s1 \<lparr> gs_heartbeatInterval := Some k \<rparr> else s1)"

definition on_open :: "graph_options \<Rightarrow> nat \<Rightarrow> graph_sub \<Rightarrow> graph_sub" where
  "on_open opts k s =
    (if gone s then unsubscribe_graph s
     else on_socket k (\<lambda>x. x \<lparr> sk_queued := True \<rparr>)
       (send_frame k Connection_init (startHeartbeat opts k (s \<lparr> gs_attempts := 0 \<rparr>))))"

definition subscribe_payload :: "graph_options \<Rightarrow> jsval" where
  "subscribe_payload opts = JObject [(''query'', JString (gr_query opts)), (''variables'', bigintSafeStringify (gr_variables opts))]"

definition nullish_or :: "jsval \<Rightarrow> jsval \<Rightarrow> jsval" where
  "nullish_or v v' = (if v = JUndefined \<or> v = JNull then v' else v)"

definition message_failure :: "jsval \<Rightarrow> thrown" where
  "message_failure m =
    (let payload = nullish_or (field_of m ''payload'') (field_of m ''errors'') in
     plain_error (case payload of JString t \<Rightarrow> t | JUndefined \<Rightarrow> [] | v \<Rightarrow> json_text v))"

text \<open>raw is the parsed message, or what parsing it throws.\<close>

definition on_message :: "graph_options \<Rightarrow> nat \<Rightarrow> (thrown, jsval) result \<Rightarrow> graph_sub \<Rightarrow> graph_sub" where
  "on_message opts k raw s =
    (if gone s then s
     else case raw of
       Inl e \<Rightarrow> tell (Failure (as_error e)) s
     | Inr m \<Rightarrow>
         if \<not> is_object m then s
         else if field_of m ''type'' = JString ''ping'' then send_frame k Pong s
         else if field_of m ''type'' = JString ''pong'' then clearHeartbeatTimeout (s \<lparr> gs_awaitingPong := False \<rparr>)
         else if field_of m ''type'' = JString ''connection_ack'' then
           (if sk_queued (gs_sockets s ! k)
            then on_socket k (\<lambda>x. x \<lparr> sk_queued := False \<rparr>) (send_frame k (Subscribe (subscribe_payload opts)) s) else s)
         else if field_of m ''type'' = JString ''next'' \<or> field_of m ''type'' = JString ''data'' then
           (let v = nullish_or (field_of m ''payload'') (field_of m ''data''); s1 = tell (Data v) s in
            case gr_onData opts v of None \<Rightarrow> s1 | Some e \<Rightarrow> tell (Failure (as_error e)) s1)
         else if field_of m ''type'' = JString ''error'' then tell (Failure (message_failure m)) s
         else s)"

definition on_error :: "graph_options \<Rightarrow> graph_sub \<Rightarrow> graph_sub" where
  "on_error opts s =
    (if gone s then s else tell (Failure (plain_error (''GraphQL subscription WebSocket error on '' @ gr_endpoint opts))) s)"

definition on_close :: "graph_options \<Rightarrow> rat \<Rightarrow> graph_sub \<Rightarrow> graph_sub" where
  "on_close opts r s =
    (let s1 = stopHeartbeat s in
     if gone s1 then s1
     else scheduleReconnect opts r (tell (Failure (plain_error (''GraphQL subscription WebSocket closed on '' @ gr_endpoint opts))) s1))"

definition reconnect_due :: "nat \<Rightarrow> ctor_outcome \<Rightarrow> graph_sub \<Rightarrow> graph_sub" where
  "reconnect_due t c s =
    (let s1 = s \<lparr> gs_reconnects := removeAll t (gs_reconnects s), gs_reconnectTimer := None \<rparr> in
     if gone s1 then s1 else openSocket c s1)"

definition heartbeat_tick :: "nat \<Rightarrow> graph_sub \<Rightarrow> graph_sub" where
  "heartbeat_tick k s =
    (if gone s then s
     else if sk_phase (gs_sockets s ! k) = Opened \<and> \<not> gs_awaitingPong s then
       (send_frame k Ping s) \<lparr> gs_awaitingPong := True, gs_heartbeatTimeout := Some (gs_issued s), gs_pongs := gs_pongs s @ [gs_issued s],
         gs_issued := gs_issued s + 1 \<rparr>
     else s)"

definition handleHeartbeatTimeout :: "graph_options \<Rightarrow> rat \<Rightarrow> graph_sub \<Rightarrow> graph_sub" where
  "handleHeartbeatTimeout opts r s =
    (let s1 = (stopHeartbeat s) \<lparr> gs_ws := None \<rparr> in
     scheduleReconnect opts r (case gs_ws s of None \<Rightarrow> s1 | Some k \<Rightarrow> close_detached k s1))"

definition pong_due :: "graph_options \<Rightarrow> nat \<Rightarrow> rat \<Rightarrow> graph_sub \<Rightarrow> graph_sub" where
  "pong_due opts t r s =
    (let s1 = s \<lparr> gs_pongs := removeAll t (gs_pongs s) \<rparr> in
     if gs_awaitingPong s1 then handleHeartbeatTimeout opts r s1 else s1)"

text \<open>cleanup of the indexer, as this subscription sees it.\<close>

definition indexer_cleanup :: "graph_sub \<Rightarrow> graph_sub" where
  "indexer_cleanup s = unsubscribe_graph (s \<lparr> gs_destroyed := True \<rparr>)"

section \<open>Runs\<close>

text \<open>
  The events of a subscription.  The browser or Node gives a socket's events in the order open,
  messages, close, and only to attached handlers; everything else may interleave.  r is a value
  of Math.random.
\<close>

definition live :: "graph_sub \<Rightarrow> nat \<Rightarrow> socket_phase \<Rightarrow> bool" where
  "live s k p = (k < length (gs_sockets s) \<and> sk_phase (gs_sockets s ! k) = p)"

definition attached :: "graph_sub \<Rightarrow> nat \<Rightarrow> bool" where
  "attached s k = sk_attached (gs_sockets s ! k)"

definition set_phase :: "nat \<Rightarrow> socket_phase \<Rightarrow> graph_sub \<Rightarrow> graph_sub" where
  "set_phase k p s = on_socket k (\<lambda>x. x \<lparr> sk_phase := p \<rparr>) s"

inductive graph_step :: "graph_options \<Rightarrow> ctor_outcome set \<Rightarrow> graph_sub \<Rightarrow> graph_sub \<Rightarrow> bool" for opts C where
  opened: "live s k Connecting \<Longrightarrow> attached s k \<Longrightarrow> graph_step opts C s (on_open opts k (set_phase k Opened s))"
| message: "live s k Opened \<Longrightarrow> attached s k \<Longrightarrow> graph_step opts C s (on_message opts k raw s)"
| failed: "live s k Connecting \<or> live s k Opened \<Longrightarrow> attached s k \<Longrightarrow> graph_step opts C s (on_error opts s)"
| closed: "live s k Connecting \<or> live s k Opened \<Longrightarrow> attached s k \<Longrightarrow> 0 \<le> r \<Longrightarrow> r < 1 \<Longrightarrow>
    graph_step opts C s (on_close opts r (set_phase k Shut s))"
| reconnect: "t \<in> set (gs_reconnects s) \<Longrightarrow> c \<in> C \<Longrightarrow> graph_step opts C s (reconnect_due t c s)"
| tick: "gs_heartbeatInterval s = Some k \<Longrightarrow> graph_step opts C s (heartbeat_tick k s)"
| pong: "t \<in> set (gs_pongs s) \<Longrightarrow> 0 \<le> r \<Longrightarrow> r < 1 \<Longrightarrow> graph_step opts C s (pong_due opts t r s)"
| unsubscribed: "graph_step opts C s (unsubscribe_graph s)"
| cleaned: "graph_step opts C s (indexer_cleanup s)"

inductive graph_run :: "graph_options \<Rightarrow> ctor_outcome set \<Rightarrow> graph_sub \<Rightarrow> bool" for opts C where
  subscribed: "c \<in> C \<Longrightarrow> graph_run opts C (openSocket c new_graph_sub)"
| step: "graph_run opts C s \<Longrightarrow> graph_step opts C s s' \<Longrightarrow> graph_run opts C s'"

section \<open>Server-sent events\<close>

text \<open>Without a WebSocket the reply of a POST is read as a stream of lines; parse_json is JSON.parse.\<close>

fun split_lines :: "string \<Rightarrow> string \<Rightarrow> string list" where
  "split_lines acc [] = [acc]"
| "split_lines acc (c # s) = (if c = CHR 0x0A then acc # split_lines [] s else split_lines (acc @ [c]) s)"

datatype sse_line = Sse_done | Sse_data jsval | Sse_other

definition sse_inner :: "jsval \<Rightarrow> jsval" where
  "sse_inner parsed = nullish_or (if is_object parsed then field_of parsed ''data'' else JUndefined) parsed"

definition sse_line :: "(string \<Rightarrow> jsval option) \<Rightarrow> string \<Rightarrow> sse_line" where
  "sse_line parse_json l =
    (let trimmed = trim l in
     if take 5 trimmed = ''data:'' then
       (let d = trim (drop 5 trimmed) in
        if d = ''[DONE]'' then Sse_done else case parse_json d of Some v \<Rightarrow> Sse_data (sse_inner v) | None \<Rightarrow> Sse_other)
     else Sse_other)"

fun sse_lines :: "(string \<Rightarrow> jsval option) \<Rightarrow> string list \<Rightarrow> jsval list" where
  "sse_lines parse_json [] = []"
| "sse_lines parse_json (l # ls) =
    (case sse_line parse_json l of Sse_done \<Rightarrow> [] | Sse_data v \<Rightarrow> v # sse_lines parse_json ls | Sse_other \<Rightarrow> sse_lines parse_json ls)"

text \<open>One read of the body: the complete lines are handled, the rest stays in the buffer.\<close>

definition sse_read :: "(string \<Rightarrow> jsval option) \<Rightarrow> string \<Rightarrow> string \<times> jsval list \<Rightarrow> string \<times> jsval list" where
  "sse_read parse_json chunk st =
    (let ls = split_lines [] (fst st @ chunk) in (last ls, snd st @ sse_lines parse_json (butlast ls)))"

definition sse_body :: "(string \<Rightarrow> jsval option) \<Rightarrow> string list \<Rightarrow> jsval list" where
  "sse_body parse_json chunks = snd (foldl (\<lambda>st chunk. sse_read parse_json chunk st) ([], []) chunks)"

end
