(* ===== verification/Graph_Sub_Properties.thy ===== *)
theory Graph_Sub_Properties
  imports Graph_Subscription
begin

text \<open>
  Properties of the indexer's subscriptions: what holds in every reachable state whatever the
  order of its events, when a subscription stays alive, that an ended one is silent, the order of
  the handshake, the reconnect delays, and that server-sent events do not depend on how the body
  is cut into chunks.
\<close>

section \<open>The invariant\<close>

text \<open>A current socket has its handlers and is not shut.\<close>

definition current_in :: "ws_socket list \<Rightarrow> nat \<Rightarrow> bool" where
  "current_in xs k = (k < length xs \<and> sk_attached (xs ! k) \<and> sk_phase (xs ! k) \<noteq> Shut)"

lemma current_update [simp]:
  "k < length xs \<Longrightarrow> current_in (xs[k := x]) j = (if j = k then sk_attached x \<and> sk_phase x \<noteq> Shut else current_in xs j)"
  by (auto simp: current_in_def nth_list_update)

lemma current_append [simp]:
  "current_in (xs @ [x]) j = (if j = length xs then sk_attached x \<and> sk_phase x \<noteq> Shut else current_in xs j)"
  by (auto simp: current_in_def nth_append)

lemma current_length: "current_in xs k \<Longrightarrow> k < length xs"
  by (simp add: current_in_def)

definition pongs_ok :: "graph_sub \<Rightarrow> bool" where
  "pongs_ok s = ((gs_awaitingPong s \<longleftrightarrow> gs_pongs s \<noteq> []) \<and> (gs_pongs s = [] \<or> (\<exists>t. gs_pongs s = [t] \<and> gs_heartbeatTimeout s = Some t)) \<and>
     (gs_pongs s \<noteq> [] \<longrightarrow> gs_heartbeatInterval s \<noteq> None))"

definition reconnects_ok :: "graph_sub \<Rightarrow> bool" where
  "reconnects_ok s = (gs_reconnects s = (case gs_reconnectTimer s of None \<Rightarrow> [] | Some t \<Rightarrow> [t]))"

definition sockets_ok :: "graph_sub \<Rightarrow> bool" where
  "sockets_ok s = ((\<forall>k. current_in (gs_sockets s) k \<longrightarrow> gs_ws s = Some k) \<and> (\<forall>k. gs_ws s = Some k \<longrightarrow> k < length (gs_sockets s)) \<and>
     (\<forall>k. gs_heartbeatInterval s = Some k \<longrightarrow> current_in (gs_sockets s) k) \<and>
     (gs_reconnectTimer s \<noteq> None \<longrightarrow> (\<forall>k. \<not> current_in (gs_sockets s) k)))"

definition ended_ok :: "graph_sub \<Rightarrow> bool" where
  "ended_ok s = ((gs_unsubscribed s \<longrightarrow> gs_ws s = None \<and> gs_reconnectTimer s = None) \<and> (gs_destroyed s \<longrightarrow> gs_unsubscribed s))"

definition graph_ok :: "graph_options \<Rightarrow> graph_sub \<Rightarrow> bool" where
  "graph_ok opts s = (pongs_ok s \<and> reconnects_ok s \<and> sockets_ok s \<and> ended_ok s \<and> int (gs_attempts s) \<le> max 0 (gr_maxReconnectAttempts opts))"

definition idle :: "graph_sub \<Rightarrow> bool" where
  "idle s = (gs_reconnectTimer s = None \<and> gs_heartbeatInterval s = None \<and> (\<forall>k. \<not> current_in (gs_sockets s) k))"

lemmas ok_defs = graph_ok_def pongs_ok_def reconnects_ok_def sockets_ok_def ended_ok_def

lemma tell_fields [simp]:
  "gs_unsubscribed (tell n s) = gs_unsubscribed s" "gs_destroyed (tell n s) = gs_destroyed s" "gs_ws (tell n s) = gs_ws s"
  "gs_sockets (tell n s) = gs_sockets s" "gs_attempts (tell n s) = gs_attempts s" "gs_reconnectTimer (tell n s) = gs_reconnectTimer s"
  "gs_reconnects (tell n s) = gs_reconnects s" "gs_heartbeatInterval (tell n s) = gs_heartbeatInterval s"
  "gs_heartbeatTimeout (tell n s) = gs_heartbeatTimeout s" "gs_pongs (tell n s) = gs_pongs s" "gs_awaitingPong (tell n s) = gs_awaitingPong s"
  "gs_frames (tell n s) = gs_frames s" "gs_delays (tell n s) = gs_delays s" "gs_told (tell n s) = gs_told s @ [n]"
  by (simp_all add: tell_def)

lemma send_fields [simp]:
  "gs_unsubscribed (send_frame j f s) = gs_unsubscribed s" "gs_destroyed (send_frame j f s) = gs_destroyed s" "gs_ws (send_frame j f s) = gs_ws s"
  "gs_sockets (send_frame j f s) = gs_sockets s" "gs_attempts (send_frame j f s) = gs_attempts s"
  "gs_reconnectTimer (send_frame j f s) = gs_reconnectTimer s" "gs_reconnects (send_frame j f s) = gs_reconnects s"
  "gs_heartbeatInterval (send_frame j f s) = gs_heartbeatInterval s" "gs_heartbeatTimeout (send_frame j f s) = gs_heartbeatTimeout s"
  "gs_pongs (send_frame j f s) = gs_pongs s" "gs_awaitingPong (send_frame j f s) = gs_awaitingPong s" "gs_delays (send_frame j f s) = gs_delays s"
  "gs_frames (send_frame j f s) = gs_frames s @ [(j, f)]" "gs_told (send_frame j f s) = gs_told s"
  by (simp_all add: send_frame_def)

lemma socket_fields [simp]:
  "gs_unsubscribed (on_socket k f s) = gs_unsubscribed s" "gs_destroyed (on_socket k f s) = gs_destroyed s" "gs_ws (on_socket k f s) = gs_ws s"
  "gs_attempts (on_socket k f s) = gs_attempts s" "gs_reconnectTimer (on_socket k f s) = gs_reconnectTimer s"
  "gs_reconnects (on_socket k f s) = gs_reconnects s" "gs_heartbeatInterval (on_socket k f s) = gs_heartbeatInterval s"
  "gs_heartbeatTimeout (on_socket k f s) = gs_heartbeatTimeout s" "gs_pongs (on_socket k f s) = gs_pongs s"
  "gs_awaitingPong (on_socket k f s) = gs_awaitingPong s" "gs_frames (on_socket k f s) = gs_frames s" "gs_told (on_socket k f s) = gs_told s"
  "gs_delays (on_socket k f s) = gs_delays s" "gs_sockets (on_socket k f s) = (gs_sockets s)[k := f (gs_sockets s ! k)]"
  by (simp_all add: on_socket_def)

lemma pong_fields [simp]:
  "gs_unsubscribed (clearHeartbeatTimeout s) = gs_unsubscribed s" "gs_destroyed (clearHeartbeatTimeout s) = gs_destroyed s"
  "gs_ws (clearHeartbeatTimeout s) = gs_ws s" "gs_sockets (clearHeartbeatTimeout s) = gs_sockets s"
  "gs_attempts (clearHeartbeatTimeout s) = gs_attempts s" "gs_reconnectTimer (clearHeartbeatTimeout s) = gs_reconnectTimer s"
  "gs_reconnects (clearHeartbeatTimeout s) = gs_reconnects s" "gs_heartbeatInterval (clearHeartbeatTimeout s) = gs_heartbeatInterval s"
  "gs_awaitingPong (clearHeartbeatTimeout s) = gs_awaitingPong s" "gs_frames (clearHeartbeatTimeout s) = gs_frames s"
  "gs_told (clearHeartbeatTimeout s) = gs_told s" "gs_delays (clearHeartbeatTimeout s) = gs_delays s"
  by (simp_all add: clearHeartbeatTimeout_def split: option.split)

lemma cleared_pongs: "gs_pongs s = [] \<or> (\<exists>t. gs_pongs s = [t] \<and> gs_heartbeatTimeout s = Some t) \<Longrightarrow> gs_pongs (clearHeartbeatTimeout s) = []"
  by (auto simp: clearHeartbeatTimeout_def split: option.split)

lemma stop_fields [simp]:
  "gs_unsubscribed (stopHeartbeat s) = gs_unsubscribed s" "gs_destroyed (stopHeartbeat s) = gs_destroyed s"
  "gs_ws (stopHeartbeat s) = gs_ws s" "gs_sockets (stopHeartbeat s) = gs_sockets s" "gs_attempts (stopHeartbeat s) = gs_attempts s"
  "gs_reconnectTimer (stopHeartbeat s) = gs_reconnectTimer s" "gs_reconnects (stopHeartbeat s) = gs_reconnects s"
  "gs_heartbeatInterval (stopHeartbeat s) = None" "\<not> gs_awaitingPong (stopHeartbeat s)" "gs_frames (stopHeartbeat s) = gs_frames s"
  "gs_told (stopHeartbeat s) = gs_told s" "gs_delays (stopHeartbeat s) = gs_delays s"
  by (simp_all add: stopHeartbeat_def)

lemma stopped_pongs: "pongs_ok s \<Longrightarrow> gs_pongs (stopHeartbeat s) = []"
  using cleared_pongs [of s] by (simp add: pongs_ok_def stopHeartbeat_def)

lemma clear_fields [simp]:
  "gs_unsubscribed (clearReconnectTimer s) = gs_unsubscribed s" "gs_destroyed (clearReconnectTimer s) = gs_destroyed s"
  "gs_ws (clearReconnectTimer s) = gs_ws s" "gs_sockets (clearReconnectTimer s) = gs_sockets s" "gs_attempts (clearReconnectTimer s) = gs_attempts s"
  "gs_reconnectTimer (clearReconnectTimer s) = None" "gs_heartbeatInterval (clearReconnectTimer s) = gs_heartbeatInterval s"
  "gs_heartbeatTimeout (clearReconnectTimer s) = gs_heartbeatTimeout s" "gs_pongs (clearReconnectTimer s) = gs_pongs s"
  "gs_awaitingPong (clearReconnectTimer s) = gs_awaitingPong s" "gs_frames (clearReconnectTimer s) = gs_frames s"
  "gs_told (clearReconnectTimer s) = gs_told s" "gs_delays (clearReconnectTimer s) = gs_delays s"
  by (simp_all add: clearReconnectTimer_def split: option.split)

lemma cleared_reconnects: "reconnects_ok s \<Longrightarrow> gs_reconnects (clearReconnectTimer s) = []"
  by (auto simp: reconnects_ok_def clearReconnectTimer_def split: option.splits)

section \<open>Every handler keeps it\<close>

lemma tell_ok [simp]: "graph_ok opts (tell n s) = graph_ok opts s"
  by (simp add: ok_defs)

lemma send_ok [simp]: "graph_ok opts (send_frame j f s) = graph_ok opts s"
  by (simp add: ok_defs)

lemma unsubscribed_fields:
  assumes "pongs_ok s" "reconnects_ok s" "sockets_ok s" "\<not> gs_unsubscribed s"
  shows "graph_ok opts (unsubscribe_graph s) = (int (gs_attempts s) \<le> max 0 (gr_maxReconnectAttempts opts))"
    "gs_unsubscribed (unsubscribe_graph s)" "gs_told (unsubscribe_graph s) = gs_told s"
proof -
  let ?s0 = "clearReconnectTimer (s \<lparr> gs_unsubscribed := True \<rparr>)"
  have p: "pongs_ok ?s0" "gs_reconnects ?s0 = []"
    using assms cleared_reconnects [of "s \<lparr> gs_unsubscribed := True \<rparr>"] by (simp_all add: pongs_ok_def reconnects_ok_def)
  show "graph_ok opts (unsubscribe_graph s) = (int (gs_attempts s) \<le> max 0 (gr_maxReconnectAttempts opts))"
    using assms p stopped_pongs [OF p(1)]
    by (cases "gs_ws s") (auto simp: unsubscribe_graph_def Let_def ok_defs close_detached_def)
  show "gs_unsubscribed (unsubscribe_graph s)" "gs_told (unsubscribe_graph s) = gs_told s"
    using assms(4) by (auto simp: unsubscribe_graph_def Let_def close_detached_def split: option.split)
qed

lemma unsubscribe_ok: "graph_ok opts s \<Longrightarrow> graph_ok opts (unsubscribe_graph s)"
  using unsubscribed_fields(1) [of s opts] by (cases "gs_unsubscribed s") (auto simp: unsubscribe_graph_def graph_ok_def)

lemma cleanup_ok: "graph_ok opts s \<Longrightarrow> graph_ok opts (indexer_cleanup s)"
  using unsubscribed_fields(1) [of "s \<lparr> gs_destroyed := True \<rparr>" opts]
  by (cases "gs_unsubscribed s") (auto simp: indexer_cleanup_def unsubscribe_graph_def ok_defs)

lemma schedule_ok:
  assumes "graph_ok opts s" "idle s"
  shows "graph_ok opts (scheduleReconnect opts r s)"
  using assms unsubscribe_ok [of opts "tell (Failure (exhausted_error opts)) s"]
  by (auto simp: scheduleReconnect_def idle_def gone_def ok_defs)

lemma open_ok:
  assumes "graph_ok opts s" "idle s"
  shows "graph_ok opts (openSocket c s)"
  using assms
  by (cases c) (auto simp: openSocket_def idle_def gone_def ok_defs)

lemma current_facts:
  assumes "graph_ok opts s" "current_in (gs_sockets s) k"
  shows "gs_reconnectTimer s = None" "gs_reconnects s = []" "gs_ws s = Some k" "\<not> gs_unsubscribed s" "\<not> gs_destroyed s"
    "current_in (gs_sockets s) j \<longleftrightarrow> j = k" "k < length (gs_sockets s)" "gs_heartbeatInterval s = None \<or> gs_heartbeatInterval s = Some k"
    "int (gs_attempts s) \<le> max 0 (gr_maxReconnectAttempts opts)" "pongs_ok s"
proof -
  have so: "sockets_ok s" and en: "ended_ok s" and re: "reconnects_ok s" using assms(1) by (simp_all add: graph_ok_def)
  show t: "gs_reconnectTimer s = None" using so assms(2) unfolding sockets_ok_def by blast
  then show "gs_reconnects s = []" using re by (simp add: reconnects_ok_def)
  show w: "gs_ws s = Some k" using so assms(2) unfolding sockets_ok_def by blast
  show u: "\<not> gs_unsubscribed s" using en w by (auto simp: ended_ok_def)
  then show "\<not> gs_destroyed s" using en by (auto simp: ended_ok_def)
  show j: "current_in (gs_sockets s) j \<longleftrightarrow> j = k" for j using so assms(2) w unfolding sockets_ok_def by fastforce
  show "k < length (gs_sockets s)" using assms(2) by (rule current_length)
  show "gs_heartbeatInterval s = None \<or> gs_heartbeatInterval s = Some k"
    using so j unfolding sockets_ok_def by (cases "gs_heartbeatInterval s") auto
  show "int (gs_attempts s) \<le> max 0 (gr_maxReconnectAttempts opts)" "pongs_ok s" using assms(1) by (simp_all add: graph_ok_def)
qed

text \<open>Between the event that shuts a socket and its handler the interval still names that socket.\<close>

lemma stop_idle:
  assumes "graph_ok opts s" "current_in (gs_sockets s) k" "\<not> (sk_attached x \<and> sk_phase x \<noteq> Shut)"
  shows "graph_ok opts (stopHeartbeat (s \<lparr> gs_sockets := (gs_sockets s)[k := x] \<rparr>))"
    "idle (stopHeartbeat (s \<lparr> gs_sockets := (gs_sockets s)[k := x] \<rparr>))"
proof -
  note c = current_facts [OF assms(1,2)]
  have "pongs_ok (s \<lparr> gs_sockets := (gs_sockets s)[k := x] \<rparr>)" using c(10) by (simp add: pongs_ok_def)
  note p = stopped_pongs [OF this]
  show "graph_ok opts (stopHeartbeat (s \<lparr> gs_sockets := (gs_sockets s)[k := x] \<rparr>))"
    using assms(3) by (simp add: ok_defs c(1-7,9) p)
  show "idle (stopHeartbeat (s \<lparr> gs_sockets := (gs_sockets s)[k := x] \<rparr>))"
    using assms(3) by (simp add: idle_def c(1-7))
qed

lemma idle_tell [simp]: "idle (tell n s) = idle s"
  by (simp add: idle_def)

lemma close_ok:
  assumes "graph_ok opts s" "current_in (gs_sockets s) k"
  shows "graph_ok opts (on_close opts r (set_phase k Shut s))"
proof -
  note f = stop_idle [OF assms, of "(gs_sockets s ! k) \<lparr> sk_phase := Shut \<rparr>", simplified]
  have "stopHeartbeat (set_phase k Shut s) = stopHeartbeat (s \<lparr> gs_sockets := (gs_sockets s)[k := (gs_sockets s ! k) \<lparr> sk_phase := Shut \<rparr>] \<rparr>)"
    by (simp add: set_phase_def on_socket_def)
  then show ?thesis using f schedule_ok [of opts "tell _ _"] by (simp add: on_close_def Let_def)
qed

lemma pong_due_ok:
  assumes "graph_ok opts s" "t \<in> set (gs_pongs s)"
  shows "graph_ok opts (pong_due opts t r s)"
proof -
  have t: "gs_pongs s = [t]" "gs_awaitingPong s" "gs_heartbeatInterval s \<noteq> None" using assms by (auto simp: graph_ok_def pongs_ok_def)
  then obtain k where "current_in (gs_sockets s) k" using assms(1) by (auto simp: graph_ok_def sockets_ok_def)
  note c = current_facts [OF assms(1) this]
  let ?s1 = "s \<lparr> gs_pongs := [] \<rparr>"
  let ?s = "close_detached k ((stopHeartbeat ?s1) \<lparr> gs_ws := None \<rparr>)"
  have "gs_pongs (stopHeartbeat ?s1) = []"
    by (simp add: stopHeartbeat_def clearHeartbeatTimeout_def split: option.split)
  then have "graph_ok opts ?s" "idle ?s"
    by (simp_all add: ok_defs idle_def close_detached_def c(1-7,9))
  then show ?thesis using schedule_ok [of opts ?s r] t by (simp add: pong_due_def handleHeartbeatTimeout_def c(3))
qed

lemma opened_ok:
  assumes "graph_ok opts s" "current_in (gs_sockets s) k"
  shows "graph_ok opts (on_open opts k (set_phase k Opened s))"
proof -
  note c = current_facts [OF assms]
  have a: "sk_attached (gs_sockets s ! k)" using assms(2) by (simp add: current_in_def)
  let ?s = "(set_phase k Opened s) \<lparr> gs_attempts := 0 \<rparr>"
  have "pongs_ok ?s" using c(10) by (simp add: pongs_ok_def set_phase_def)
  note p = stopped_pongs [OF this]
  have "graph_ok opts (on_socket k (\<lambda>x. x \<lparr> sk_queued := True \<rparr>) (send_frame k Connection_init (startHeartbeat opts k ?s)))"
    using p a by (simp add: ok_defs startHeartbeat_def Let_def set_phase_def c(1-7,9))
  then show ?thesis using c(4,5) by (simp add: on_open_def gone_def set_phase_def)
qed

lemma message_ok:
  assumes "graph_ok opts s" "current_in (gs_sockets s) k"
  shows "graph_ok opts (on_message opts k raw s)"
proof -
  note c = current_facts [OF assms]
  have a: "sk_attached (gs_sockets s ! k)" "sk_phase (gs_sockets s ! k) \<noteq> Shut" using assms(2) by (simp_all add: current_in_def)
  have "gs_pongs (clearHeartbeatTimeout (s \<lparr> gs_awaitingPong := False \<rparr>)) = []"
    using c(10) by (intro cleared_pongs) (simp add: pongs_ok_def)
  then have "graph_ok opts (clearHeartbeatTimeout (s \<lparr> gs_awaitingPong := False \<rparr>))"
    using c(8) by (simp add: ok_defs c(1-7,9)) auto
  moreover have "graph_ok opts (on_socket k (\<lambda>x. x \<lparr> sk_queued := False \<rparr>) (send_frame k f s))" for f
    using c(8,10) a by (simp add: ok_defs c(1-7,9)) auto
  ultimately show ?thesis using assms(1)
    by (simp add: on_message_def Let_def split: sum.split option.split)
qed

lemma due_ok:
  assumes "graph_ok opts s" "t \<in> set (gs_reconnects s)"
  shows "graph_ok opts (reconnect_due t c s)"
proof -
  have t: "gs_reconnectTimer s = Some t" "gs_reconnects s = [t]"
    using assms by (auto simp: graph_ok_def reconnects_ok_def split: option.splits)
  have no: "\<not> current_in (gs_sockets s) k" "gs_heartbeatInterval s = None" for k
    using assms(1) t by (auto simp: graph_ok_def sockets_ok_def)
  let ?s = "s \<lparr> gs_reconnects := [], gs_reconnectTimer := None \<rparr>"
  have "graph_ok opts ?s" using assms(1) no by (simp add: ok_defs)
  moreover have "idle ?s" using no by (simp add: idle_def)
  ultimately show ?thesis using open_ok [of opts ?s c] t by (simp add: reconnect_due_def Let_def)
qed

lemma tick_ok:
  assumes "graph_ok opts s" "gs_heartbeatInterval s = Some k"
  shows "graph_ok opts (heartbeat_tick k s)"
proof -
  have "current_in (gs_sockets s) k" using assms by (simp add: graph_ok_def sockets_ok_def)
  note c = current_facts [OF assms(1) this]
  show ?thesis using assms c(10)
    by (simp add: heartbeat_tick_def) (simp add: ok_defs c(1-7,9))
qed

lemma step_ok: "graph_step opts C s s' \<Longrightarrow> graph_ok opts s \<Longrightarrow> graph_ok opts s'"
proof (induction rule: graph_step.induct)
  case (opened s k)
  then show ?case by (intro opened_ok) (auto simp: live_def attached_def current_in_def)
next
  case (message s k raw)
  then show ?case by (intro message_ok) (auto simp: live_def attached_def current_in_def)
next
  case (closed s k r)
  then show ?case by (intro close_ok) (auto simp: live_def attached_def current_in_def)
qed (auto simp: on_error_def intro: due_ok tick_ok pong_due_ok unsubscribe_ok cleanup_ok)

lemma run_ok: "graph_run opts C s \<Longrightarrow> graph_ok opts s"
proof (induction rule: graph_run.induct)
  case (subscribed c)
  have "graph_ok opts new_graph_sub" "idle new_graph_sub"
    by (auto simp: new_graph_sub_def ok_defs idle_def current_in_def)
  then show ?case by (rule open_ok)
next
  case (step s s')
  then show ?case by (blast intro: step_ok)
qed

text \<open>
  C8: In every reachable state, whatever the order of the events: at most one socket is in use, at
  most one reconnect is pending and none while a socket is in use, no more reconnects in a row
  than allowed have been started, and an ended subscription has no socket, timer or heartbeat.
\<close>
theorem subscription_single_connection:
  assumes "graph_run opts C s"
  shows "(\<forall>j k. current_in (gs_sockets s) j \<and> current_in (gs_sockets s) k \<longrightarrow> j = k) \<and> length (gs_reconnects s) \<le> 1 \<and>
    (gs_reconnects s \<noteq> [] \<longrightarrow> (\<forall>k. \<not> current_in (gs_sockets s) k)) \<and> length (gs_pongs s) \<le> 1 \<and>
    int (gs_attempts s) \<le> max 0 (gr_maxReconnectAttempts opts) \<and>
    (gs_unsubscribed s \<longrightarrow> gs_reconnects s = [] \<and> gs_pongs s = [] \<and> gs_heartbeatInterval s = None \<and> (\<forall>k. \<not> current_in (gs_sockets s) k))"
proof -
  have ok: "pongs_ok s" "reconnects_ok s" "sockets_ok s" "ended_ok s" "int (gs_attempts s) \<le> max 0 (gr_maxReconnectAttempts opts)"
    using run_ok [OF assms] by (simp_all add: graph_ok_def)
  have "(\<forall>j k. current_in (gs_sockets s) j \<and> current_in (gs_sockets s) k \<longrightarrow> j = k)"
    using ok(3) unfolding sockets_ok_def by (metis option.inject)
  moreover have "length (gs_reconnects s) \<le> 1 \<and> (gs_reconnects s \<noteq> [] \<longrightarrow> (\<forall>k. \<not> current_in (gs_sockets s) k))"
    using ok(2,3) by (auto simp: reconnects_ok_def sockets_ok_def split: option.splits)
  moreover have "length (gs_pongs s) \<le> 1" using ok(1) by (auto simp: pongs_ok_def)
  moreover have "gs_unsubscribed s \<longrightarrow> gs_reconnects s = [] \<and> gs_pongs s = [] \<and> gs_heartbeatInterval s = None \<and> (\<forall>k. \<not> current_in (gs_sockets s) k)"
  proof
    assume u: "gs_unsubscribed s"
    then have no: "\<not> current_in (gs_sockets s) k" for k using current_facts(4) [OF run_ok [OF assms]] by blast
    then have "gs_heartbeatInterval s = None" using ok(3) by (cases "gs_heartbeatInterval s") (auto simp: sockets_ok_def)
    then show "gs_reconnects s = [] \<and> gs_pongs s = [] \<and> gs_heartbeatInterval s = None \<and> (\<forall>k. \<not> current_in (gs_sockets s) k)"
      using u no ok(1,2,4) by (auto simp: reconnects_ok_def ended_ok_def pongs_ok_def)
  qed
  ultimately show ?thesis using ok(5) by blast
qed

section \<open>An ended subscription is silent\<close>

text \<open>After unsubscribe, or a clean-up of the indexer, no callback is called, nothing is sent and nothing starts again.\<close>
theorem ended_subscription_silent:
  assumes "graph_run opts C s" "gs_unsubscribed s" "graph_step opts C s s'"
  shows "gs_told s' = gs_told s \<and> gs_frames s' = gs_frames s \<and> gs_sockets s' = gs_sockets s \<and> gs_unsubscribed s' \<and> gs_reconnects s' = []"
proof -
  have ok: "pongs_ok s" "reconnects_ok s" "sockets_ok s" "ended_ok s" using run_ok [OF assms(1)] by (simp_all add: graph_ok_def)
  have no: "\<not> current_in (gs_sockets s) k" for k using current_facts(4) [OF run_ok [OF assms(1)]] assms(2) by blast
  then have "\<not> (live s k Connecting \<and> attached s k)" "\<not> (live s k Opened \<and> attached s k)" for k
    by (auto simp: live_def attached_def current_in_def)
  moreover have i: "gs_heartbeatInterval s = None" using ok(3) no by (cases "gs_heartbeatInterval s") (auto simp: sockets_ok_def)
  moreover have "gs_pongs s = []" "gs_reconnects s = []" using ok(1,2,4) i assms(2) by (auto simp: reconnects_ok_def ended_ok_def pongs_ok_def)
  moreover note assms(2)
  ultimately have quiet: "\<forall>k. \<not> (live s k Connecting \<and> attached s k)" "\<forall>k. \<not> (live s k Opened \<and> attached s k)"
      "gs_heartbeatInterval s = None" "gs_pongs s = []" "gs_reconnects s = []" "gs_unsubscribed s"
    by blast+
  from assms(3) show ?thesis
    by (rule graph_step.cases) (use quiet in \<open>auto simp: unsubscribe_graph_def indexer_cleanup_def\<close>)
qed

section \<open>A subscription stays alive\<close>

definition alive :: "graph_sub \<Rightarrow> bool" where
  "alive s = (gs_unsubscribed s \<or> gs_reconnectTimer s \<noteq> None \<or> (\<exists>k. current_in (gs_sockets s) k))"

lemma unsubscribe_alive: "alive (unsubscribe_graph s)"
  by (auto simp: alive_def unsubscribe_graph_def Let_def close_detached_def split: option.split)

lemma schedule_alive: "\<not> gone s \<Longrightarrow> alive (scheduleReconnect opts r s)"
  using unsubscribe_alive by (auto simp: scheduleReconnect_def) (simp add: alive_def)

lemma current_alive: "current_in (gs_sockets s) k \<Longrightarrow> alive s"
  by (auto simp: alive_def)

lemma step_alive:
  assumes "graph_step opts {Ctor_ok} s s'" "graph_ok opts s" "alive s"
  shows "alive s'"
  using assms
proof (induction rule: graph_step.induct)
  case (opened s k)
  then have c: "current_in (gs_sockets s) k" by (auto simp: live_def attached_def current_in_def)
  note f = current_facts [OF opened(3) c]
  have "current_in (gs_sockets (on_open opts k (set_phase k Opened s))) k"
    using c f(4,5,7) by (simp add: on_open_def gone_def set_phase_def startHeartbeat_def Let_def current_in_def)
  then show ?case by (rule current_alive)
next
  case (message s k raw)
  then have c: "current_in (gs_sockets s) k" by (auto simp: live_def attached_def current_in_def)
  have "current_in (gs_sockets (on_message opts k raw s)) k"
    using c by (simp add: on_message_def Let_def current_in_def split: sum.split option.split)
  then show ?case by (rule current_alive)
next
  case (failed s k)
  then show ?case by (simp add: on_error_def alive_def)
next
  case (closed s k r)
  then have c: "current_in (gs_sockets s) k" by (auto simp: live_def attached_def current_in_def)
  note f = current_facts [OF closed(5) c]
  show ?case unfolding on_close_def Let_def
    using f(4,5) by (simp add: gone_def set_phase_def) (rule schedule_alive, simp add: gone_def)
next
  case (reconnect t s c)
  then show ?case by (auto simp: reconnect_due_def Let_def gone_def openSocket_def alive_def graph_ok_def ended_ok_def)
next
  case (tick s k)
  then show ?case by (simp add: heartbeat_tick_def alive_def)
next
  case (pong t s r)
  have "gs_awaitingPong s" "gs_heartbeatInterval s \<noteq> None" using pong by (auto simp: graph_ok_def pongs_ok_def)
  then obtain k where c: "current_in (gs_sockets s) k" using pong by (auto simp: graph_ok_def sockets_ok_def)
  note f = current_facts [OF pong(4) c]
  show ?case unfolding pong_due_def handleHeartbeatTimeout_def Let_def
    using f(3-5) \<open>gs_awaitingPong s\<close> by (simp add: close_detached_def) (rule schedule_alive, simp add: gone_def)
qed (simp_all add: unsubscribe_alive indexer_cleanup_def)

text \<open>
  C9: As long as sockets can be made, a subscription that has not ended has a socket in use or a
  reconnect pending, whatever happened to its connections.
\<close>
theorem subscription_stays_alive:
  assumes "graph_run opts {Ctor_ok} s" "\<not> gs_unsubscribed s"
  shows "gs_reconnects s \<noteq> [] \<or> (\<exists>k. current_in (gs_sockets s) k)"
proof -
  have "alive s"
    using assms(1)
  proof induction
    case (subscribed c)
    then show ?case by (auto simp: openSocket_def new_graph_sub_def gone_def alive_def current_in_def)
  next
    case (step s s')
    then show ?case by (blast intro: step_alive run_ok)
  qed
  then show ?thesis using assms(2) run_ok [OF assms(1)] by (auto simp: alive_def graph_ok_def reconnects_ok_def split: option.splits)
qed

text \<open>
  A socket that cannot be made at a reconnect strands the subscription: it has no socket, no
  timer and never ends by itself.
\<close>

lemma failed_reconnect_strands:
  "\<not> gone s \<Longrightarrow> gs_reconnects s = [t] \<Longrightarrow> gs_unsubscribed (reconnect_due t (Ctor_throws e) s) = False \<and>
     gs_reconnects (reconnect_due t (Ctor_throws e) s) = [] \<and> gs_sockets (reconnect_due t (Ctor_throws e) s) = gs_sockets s"
  by (simp add: reconnect_due_def openSocket_def gone_def Let_def)

section \<open>The handshake\<close>

text \<open>The frames sent on a socket besides the heartbeat, and what they may be at a stage of the socket.\<close>

definition handshake :: "graph_sub \<Rightarrow> nat \<Rightarrow> frame list" where
  "handshake s k = filter (\<lambda>f. f \<noteq> Ping \<and> f \<noteq> Pong) (List.map snd (filter (\<lambda>jf. fst jf = k) (gs_frames s)))"

definition stage_ok :: "graph_options \<Rightarrow> ws_socket \<Rightarrow> frame list \<Rightarrow> bool" where
  "stage_ok opts x fs =
    (let p = Subscribe (subscribe_payload opts) in
     (fs = [] \<and> \<not> sk_queued x \<and> sk_phase x \<noteq> Opened) \<or>
     sk_phase x \<noteq> Connecting \<and> (fs = [Connection_init] \<or> fs = [Connection_init, p] \<and> \<not> sk_queued x \<or>
       \<not> sk_attached x \<and> (fs = [Connection_init, Complete] \<or> fs = [Connection_init, p, Complete])))"

definition hand_ok :: "graph_options \<Rightarrow> graph_sub \<Rightarrow> bool" where
  "hand_ok opts s = ((\<forall>k. gs_ws s = Some k \<longrightarrow> k < length (gs_sockets s) \<and> sk_attached (gs_sockets s ! k)) \<and>
     (\<forall>k. length (gs_sockets s) \<le> k \<longrightarrow> handshake s k = []) \<and>
     (\<forall>k < length (gs_sockets s). stage_ok opts (gs_sockets s ! k) (handshake s k)))"

lemma handshake_send [simp]: "handshake (send_frame j f s) k = handshake s k @ (if j = k \<and> f \<noteq> Ping \<and> f \<noteq> Pong then [f] else [])"
  by (simp add: handshake_def)

lemma handshake_same: "gs_frames s' = gs_frames s \<Longrightarrow> handshake s' k = handshake s k"
  by (simp add: handshake_def)

lemma handshake_frames [simp]:
  "handshake (on_socket j g s) k = handshake s k" "handshake (tell n s) k = handshake s k" "handshake (stopHeartbeat s) k = handshake s k"
  "handshake (clearHeartbeatTimeout s) k = handshake s k" "handshake (clearReconnectTimer s) k = handshake s k"
  by (simp_all add: handshake_def)

lemma hand_same:
  assumes "hand_ok opts s" "gs_frames s' = gs_frames s" "gs_sockets s' = gs_sockets s" "gs_ws s' = gs_ws s \<or> gs_ws s' = None"
  shows "hand_ok opts s'"
  using assms(1,4) by (cases "gs_ws s' = None") (simp_all add: hand_ok_def handshake_same [OF assms(2)] assms(3))

text \<open>A change of one socket and of its frames.\<close>

lemma hand_change:
  assumes "hand_ok opts s" "k < length (gs_sockets s)" "gs_sockets s' = (gs_sockets s)[k := x]" "\<forall>j. j \<noteq> k \<longrightarrow> handshake s' j = handshake s j"
    "stage_ok opts x (handshake s' k)" "gs_ws s' = None \<or> gs_ws s' = gs_ws s \<and> sk_attached x"
  shows "hand_ok opts s'"
  using assms by (auto simp: hand_ok_def nth_list_update)

lemma close_hand:
  assumes "hand_ok opts s" "k < length (gs_sockets s)"
  shows "hand_ok opts ((close_detached k (if sk_phase (gs_sockets s ! k) = Opened \<and> gs_ws s = Some k then send_frame k Complete s else s)) \<lparr> gs_ws := None \<rparr>)"
proof (rule hand_change [OF assms, where x = "(gs_sockets s ! k) \<lparr> sk_attached := False, sk_phase := Shut \<rparr>"])
  have st: "stage_ok opts (gs_sockets s ! k) (handshake s k)" "gs_ws s = Some k \<longrightarrow> sk_attached (gs_sockets s ! k)"
    using assms by (auto simp: hand_ok_def)
  show "stage_ok opts ((gs_sockets s ! k) \<lparr> sk_attached := False, sk_phase := Shut \<rparr>)
     (handshake ((close_detached k (if sk_phase (gs_sockets s ! k) = Opened \<and> gs_ws s = Some k then send_frame k Complete s else s)) \<lparr> gs_ws := None \<rparr>) k)"
    using st by (auto simp: close_detached_def stage_ok_def Let_def handshake_def on_socket_def send_frame_def)
qed (auto simp: close_detached_def handshake_def on_socket_def send_frame_def)

lemma unsubscribe_hand: "hand_ok opts s \<Longrightarrow> hand_ok opts (unsubscribe_graph s)"
proof -
  assume h: "hand_ok opts s"
  let ?s1 = "stopHeartbeat (clearReconnectTimer (s \<lparr> gs_unsubscribed := True \<rparr>))"
  have h1: "hand_ok opts ?s1" by (rule hand_same [OF h]) simp_all
  show ?thesis
  proof (cases "gs_unsubscribed s \<or> gs_ws s = None")
    case True
    then show ?thesis using h h1 by (auto simp: unsubscribe_graph_def Let_def)
  next
    case False
    then obtain k where k: "gs_ws s = Some k" "k < length (gs_sockets ?s1)" using h by (auto simp: hand_ok_def)
    show ?thesis using close_hand [OF h1 k(2)] False k(1) by (simp add: unsubscribe_graph_def Let_def)
  qed
qed

lemma schedule_hand: "hand_ok opts s \<Longrightarrow> hand_ok opts (scheduleReconnect opts r s)"
proof -
  assume h: "hand_ok opts s"
  have "hand_ok opts (tell n s)" for n by (rule hand_same [OF h]) simp_all
  note u = unsubscribe_hand [OF this]
  show ?thesis using h u by (auto simp: scheduleReconnect_def intro!: hand_same [OF h])
qed

lemma open_hand:
  assumes "hand_ok opts s"
  shows "hand_ok opts (openSocket c s)"
proof (cases "gone s \<or> c \<noteq> Ctor_ok")
  case True
  then show ?thesis using assms
    by (cases c) (auto simp: openSocket_def intro: hand_same [OF assms])
next
  case False
  let ?x = "\<lparr> sk_phase = Connecting, sk_attached = True, sk_queued = False \<rparr>"
  have o: "openSocket c s = s \<lparr> gs_ws := Some (length (gs_sockets s)), gs_sockets := gs_sockets s @ [?x] \<rparr>"
    using False by (simp add: openSocket_def)
  have h: "handshake (openSocket c s) k = handshake s k" for k by (simp add: o handshake_def)
  have "stage_ok opts ((gs_sockets s @ [?x]) ! k) (handshake s k)" if "k < Suc (length (gs_sockets s))" for k
    using that assms by (cases "k = length (gs_sockets s)") (simp_all add: hand_ok_def nth_append stage_ok_def)
  then show ?thesis using assms unfolding hand_ok_def h by (simp add: o)
qed

lemma step_hand:
  assumes "graph_step opts C s s'" "graph_ok opts s" "hand_ok opts s"
  shows "hand_ok opts s'"
  using assms
proof (induction rule: graph_step.induct)
  case (opened s k)
  then have c: "current_in (gs_sockets s) k" by (auto simp: live_def attached_def current_in_def)
  note f = current_facts [OF opened(3) c]
  have "sk_phase (gs_sockets s ! k) = Connecting" "stage_ok opts (gs_sockets s ! k) (handshake s k)"
    using opened f(7) by (auto simp: live_def hand_ok_def)
  then have "handshake s k = []" "\<not> sk_queued (gs_sockets s ! k)" by (auto simp: stage_ok_def Let_def)
  then show ?case using opened(2,4) f(4,5,7)
    by (intro hand_change [OF opened(4) f(7), where x = "(gs_sockets s ! k) \<lparr> sk_phase := Opened, sk_queued := True \<rparr>"])
       (auto simp: on_open_def gone_def set_phase_def startHeartbeat_def Let_def stage_ok_def attached_def handshake_def)
next
  case (message s k raw)
  then have c: "current_in (gs_sockets s) k" by (auto simp: live_def attached_def current_in_def)
  note f = current_facts [OF message(3) c]
  have st: "stage_ok opts (gs_sockets s ! k) (handshake s k)" "sk_attached (gs_sockets s ! k)"
    using message f(7) by (auto simp: hand_ok_def attached_def)
  let ?s = "on_socket k (\<lambda>x. x \<lparr> sk_queued := False \<rparr>) (send_frame k (Subscribe (subscribe_payload opts)) s)"
  have "hand_ok opts ?s" if "sk_queued (gs_sockets s ! k)"
    by (rule hand_change [OF message(4) f(7), where x = "(gs_sockets s ! k) \<lparr> sk_queued := False \<rparr>"])
       (use st that in \<open>auto simp: stage_ok_def Let_def\<close>)
  moreover have "hand_ok opts (send_frame k Pong s)"
    using message(4) by (simp add: hand_ok_def)
  ultimately show ?case using message(4)
    by (auto simp: on_message_def Let_def split: sum.split option.split intro: hand_same [OF message(4)])
next
  case (failed s k)
  then show ?case by (auto simp: on_error_def intro: hand_same [OF failed(4)])
next
  case (closed s k r)
  then have k: "k < length (gs_sockets s)" by (auto simp: live_def)
  have "hand_ok opts (stopHeartbeat (set_phase k Shut s))"
    by (rule hand_change [OF closed(6) k, where x = "(gs_sockets s ! k) \<lparr> sk_phase := Shut \<rparr>"])
       (use closed k in \<open>auto simp: set_phase_def stage_ok_def Let_def hand_ok_def attached_def\<close>)
  note h = this hand_same [OF this]
  show ?case unfolding on_close_def Let_def using h(1) by (auto intro!: schedule_hand h(2))
next
  case (reconnect t s c)
  let ?s = "s \<lparr> gs_reconnects := removeAll t (gs_reconnects s), gs_reconnectTimer := None \<rparr>"
  have "hand_ok opts ?s" by (rule hand_same [OF reconnect(4)]) simp_all
  then show ?case by (simp add: reconnect_due_def Let_def open_hand)
next
  case (tick s k)
  then show ?case by (auto simp: heartbeat_tick_def hand_ok_def handshake_def)
next
  case (pong t s r)
  show ?case
  proof (cases "gs_awaitingPong s")
    case True
    let ?s1 = "(stopHeartbeat (s \<lparr> gs_pongs := removeAll t (gs_pongs s) \<rparr>)) \<lparr> gs_ws := None \<rparr>"
    have h: "hand_ok opts ?s1" by (rule hand_same [OF pong(5)]) simp_all
    have "hand_ok opts (case gs_ws s of None \<Rightarrow> ?s1 | Some k \<Rightarrow> close_detached k ?s1)"
    proof (cases "gs_ws s")
      case (Some k)
      then have "k < length (gs_sockets ?s1)" using pong(5) by (auto simp: hand_ok_def)
      note ch = close_hand [OF h this]
      show ?thesis by (rule hand_same [OF ch]) (simp_all add: Some close_detached_def)
    qed (simp add: h)
    then show ?thesis using True by (simp add: pong_due_def handleHeartbeatTimeout_def Let_def schedule_hand)
  next
    case False
    then show ?thesis by (auto simp: pong_due_def Let_def intro: hand_same [OF pong(5)])
  qed
next
  case (unsubscribed s)
  then show ?case by (blast intro: unsubscribe_hand)
next
  case (cleaned s)
  have "hand_ok opts (s \<lparr> gs_destroyed := True \<rparr>)" by (rule hand_same [OF cleaned(2)]) simp_all
  then show ?case by (simp add: indexer_cleanup_def unsubscribe_hand)
qed

text \<open>
  On every socket the connection is initialised first, the subscription is sent at most once and
  only then, and complete, if it is sent, is last.
\<close>
theorem handshake_in_order:
  assumes "graph_run opts C s"
  shows "handshake s k \<in> {[], [Connection_init], [Connection_init, Subscribe (subscribe_payload opts)], [Connection_init, Complete],
    [Connection_init, Subscribe (subscribe_payload opts), Complete]}"
proof -
  have "hand_ok opts s"
    using assms
  proof induction
    case (subscribed c)
    show ?case by (cases c) (auto simp: openSocket_def new_graph_sub_def gone_def hand_ok_def handshake_def stage_ok_def tell_def)
  next
    case (step s s')
    then show ?case by (blast intro: step_hand run_ok)
  qed
  then have "handshake s k = [] \<or> stage_ok opts (gs_sockets s ! k) (handshake s k)"
    by (cases "k < length (gs_sockets s)") (simp_all add: hand_ok_def)
  then show ?thesis by (simp add: stage_ok_def Let_def) blast
qed

section \<open>Reconnect delays\<close>

lemma delay_bounds:
  assumes "0 \<le> base" "0 \<le> r" "r < 1"
  shows "min (of_int (base * int n)) 30000 \<le> reconnect_delay base n r \<and> reconnect_delay base n r \<le> 13 / 10 * min (of_int (base * int n)) 30000"
proof -
  let ?c = "min (of_int (base * int n)) 30000 :: rat"
  have c: "0 \<le> ?c" using assms(1) by simp
  have "0 \<le> r * (3 / 10) * ?c" using assms(2) c by simp
  moreover have "r * (3 / 10) * ?c \<le> 1 * (3 / 10) * ?c"
    using assms(3) c by (intro mult_right_mono) simp_all
  ultimately show ?thesis by (simp add: reconnect_delay_def Let_def)
qed

text \<open>
  A reconnect waits between the capped delay of its attempt and thirty per cent more; the delay
  before the cap grows with the number of the attempt, not with a power of two.
\<close>
theorem reconnect_delay_linear:
  assumes "0 \<le> base" "0 \<le> r" "r < 1"
  shows "0 \<le> reconnect_delay base n r \<and> reconnect_delay base n r \<le> 39000 \<and>
    (of_int (base * int n) \<le> (30000 :: rat) \<longrightarrow>
      of_int (base * int n) \<le> reconnect_delay base n r \<and> reconnect_delay base n r \<le> 13 / 10 * of_int (base * int n))"
proof -
  have "0 \<le> base * int n" using assms(1) by simp
  then have "(0 :: rat) \<le> of_int (base * int n)" by (simp only: of_int_0_le_iff)
  then have "0 \<le> min (of_int (base * int n)) (30000 :: rat)" "min (of_int (base * int n)) (30000 :: rat) \<le> 30000" by linarith+
  then show ?thesis using delay_bounds [OF assms, of n] by (simp add: min_def split: if_splits)
qed

lemma reconnect_delay_linear_witness: "reconnect_delay 1000 4 0 \<le> 13 / 10 * 4000"
  using reconnect_delay_linear [of 1000 0 4] by simp

section \<open>Server-sent events\<close>

lemma split_nonempty [simp]: "split_lines acc s \<noteq> []"
  by (induction acc s rule: split_lines.induct) auto

lemma split_append:
  "split_lines acc (s @ t) = butlast (split_lines acc s) @ split_lines (last (split_lines acc s)) t"
  by (induction acc s rule: split_lines.induct) (auto simp del: split_lines.simps(1) simp: split_lines.simps(1))

lemma sse_lines_append:
  "Sse_done \<notin> set (List.map (sse_line parse_json) ls) \<Longrightarrow>
    sse_lines parse_json (ls @ ls') = sse_lines parse_json ls @ sse_lines parse_json ls'"
  by (induction ls) (auto split: sse_line.splits)

lemma split_plain: "CHR 0x0A \<notin> set s \<Longrightarrow> split_lines acc s = [acc @ s]"
  by (induction s arbitrary: acc) auto

lemma rest_plain: "CHR 0x0A \<notin> set acc \<Longrightarrow> CHR 0x0A \<notin> set (last (split_lines acc s))"
  by (induction acc s rule: split_lines.induct) auto

text \<open>The complete lines of a body.\<close>

definition body_lines :: "string list \<Rightarrow> string list" where
  "body_lines chunks = butlast (split_lines [] (concat chunks))"

lemma sse_reads:
  assumes "\<forall>l \<in> set (body_lines chunks). sse_line parse_json l \<noteq> Sse_done"
  shows "foldl (\<lambda>st chunk. sse_read parse_json chunk st) ([], []) chunks =
    (last (split_lines [] (concat chunks)), sse_lines parse_json (body_lines chunks))"
  using assms
proof (induction chunks rule: rev_induct)
  case Nil
  then show ?case by (simp add: body_lines_def)
next
  case (snoc c chunks)
  let ?buf = "last (split_lines [] (concat chunks))"
  have "CHR 0x0A \<notin> set ?buf" by (rule rest_plain) simp
  then have b: "split_lines [] (?buf @ c) = split_lines ?buf c" by (simp add: split_append split_plain)
  have bl: "body_lines (chunks @ [c]) = body_lines chunks @ butlast (split_lines ?buf c)"
    by (simp add: body_lines_def split_append butlast_append)
  then have here: "\<forall>l \<in> set (body_lines chunks). sse_line parse_json l \<noteq> Sse_done" using snoc.prems by simp
  note ih = snoc.IH [OF here]
  have "Sse_done \<notin> set (List.map (sse_line parse_json) (body_lines chunks))"
    using here by force
  then have "sse_lines parse_json (body_lines (chunks @ [c])) =
      sse_lines parse_json (body_lines chunks) @ sse_lines parse_json (butlast (split_lines ?buf c))"
    by (simp add: bl sse_lines_append)
  moreover have "last (split_lines [] (concat (chunks @ [c]))) = last (split_lines ?buf c)"
    by (simp add: split_append)
  ultimately show ?case using ih b by (simp add: sse_read_def Let_def)
qed

text \<open>
  C25: What the callback gets depends on the text of the body and not on how it was cut into chunks,
  unless one of its lines is the end marker.
\<close>
theorem sse_chunks_irrelevant:
  assumes "\<forall>l \<in> set (body_lines chunks). sse_line parse_json l \<noteq> Sse_done"
  shows "sse_body parse_json chunks = sse_body parse_json [concat chunks] \<and>
    sse_body parse_json chunks = List.map_filter (\<lambda>l. case sse_line parse_json l of Sse_data v \<Rightarrow> Some v | _ \<Rightarrow> None) (body_lines chunks)"
proof -
  have "body_lines [concat chunks] = body_lines chunks" by (simp add: body_lines_def)
  moreover have "sse_lines parse_json ls = List.map_filter (\<lambda>l. case sse_line parse_json l of Sse_data v \<Rightarrow> Some v | _ \<Rightarrow> None) ls"
    if "\<forall>l \<in> set ls. sse_line parse_json l \<noteq> Sse_done" for ls
    using that by (induction ls) (auto simp: map_filter_simps split: sse_line.split)
  ultimately show ?thesis using sse_reads [OF assms] sse_reads [of "[concat chunks]" parse_json] assms
    by (simp add: sse_body_def)
qed

definition sample_json :: "string \<Rightarrow> jsval option" where
  "sample_json s = (if s = ''1'' then Some (JNumber (Num 1)) else None)"

definition line_end :: string where "line_end = [CHR 0x0A]"

lemma sse_chunks_irrelevant_witness:
  "sse_body sample_json [''da'', ''ta: 1'' @ line_end] = sse_body sample_json [''data: 1'' @ line_end]"
  using sse_chunks_irrelevant [of "[''da'', ''ta: 1'' @ line_end]" sample_json]
  by (simp add: body_lines_def line_end_def sse_line_def trim_def is_space_def sample_json_def)

text \<open>
  The end marker only ends the chunk it arrives in: what follows it in the same chunk is
  dropped, what follows in the next one is delivered.
\<close>

lemma sse_done_depends_on_chunks:
  "sse_body sample_json [''data: [DONE]'' @ line_end, ''data: 1'' @ line_end] = [JNumber (Num 1)] \<and>
   sse_body sample_json [''data: [DONE]'' @ line_end @ ''data: 1'' @ line_end] = []"
  by (simp add: sse_body_def sse_read_def line_end_def sse_line_def trim_def is_space_def sample_json_def sse_inner_def is_object_def
      nullish_or_def Let_def)

section \<open>Samples\<close>

definition sample_graph_options :: graph_options where
  "sample_graph_options = \<lparr> gr_endpoint = ''https://indexer'', gr_query = ''subscription { n }'', gr_variables = JObject [],
     gr_maxReconnectAttempts = 5, gr_reconnectDelayMs = 1000, gr_heartbeatIntervalMs = 30000, gr_heartbeatTimeoutMs = 5000,
     gr_onData = (\<lambda>_. None) \<rparr>"

lemma sample_run: "graph_run sample_graph_options {Ctor_ok} (openSocket Ctor_ok new_graph_sub)"
  by (rule graph_run.subscribed) simp

lemma sample_ended: "graph_run sample_graph_options {Ctor_ok} (unsubscribe_graph (openSocket Ctor_ok new_graph_sub))"
  using graph_run.step [OF sample_run graph_step.unsubscribed] .

lemma subscription_single_connection_witness: "length (gs_reconnects (openSocket Ctor_ok new_graph_sub)) \<le> 1"
  using subscription_single_connection [OF sample_run] by blast

lemma ended_subscription_silent_witness:
  "gs_frames (unsubscribe_graph (unsubscribe_graph (openSocket Ctor_ok new_graph_sub))) = []"
  using ended_subscription_silent [OF sample_ended _ graph_step.unsubscribed]
  by (simp add: unsubscribe_graph_def openSocket_def new_graph_sub_def gone_def Let_def close_detached_def)

lemma subscription_stays_alive_witness: "\<exists>k. current_in (gs_sockets (openSocket Ctor_ok new_graph_sub)) k"
  using subscription_stays_alive [OF sample_run] by (simp add: openSocket_def new_graph_sub_def gone_def)

lemma handshake_in_order_witness: "handshake (openSocket Ctor_ok new_graph_sub) 0 \<noteq> [Complete]"
  using handshake_in_order [OF sample_run, of 0] by auto

end
