(* ===== verification/Js_Coercions.thy ===== *)
theory Js_Coercions
  imports Json_Text
begin

text \<open>
  The conversions between JavaScript values, numbers, texts and dates: Number of a value, String
  of a number, letter case, toISOString and Date.parse.
\<close>

section \<open>Numbers\<close>

text \<open>Number of a value: an array converts through its text.\<close>

definition js_number :: "jsval \<Rightarrow> jsnum" where
  "js_number v =
    (case v of JUndefined \<Rightarrow> NaN | JNull \<Rightarrow> Num 0 | JBool b \<Rightarrow> Num (if b then 1 else 0)
     | JNumber n \<Rightarrow> n | JBigint z \<Rightarrow> Num (of_int z) | JString s \<Rightarrow> number_of_string s
     | JArray vs \<Rightarrow> number_of_string (js_string v) | JObject kvs \<Rightarrow> NaN)"

text \<open>Math.trunc of a finite number.\<close>

definition truncated :: "rat \<Rightarrow> int" where
  "truncated r = (if r < 0 then \<lceil>r\<rceil> else \<lfloor>r\<rfloor>)"

text \<open>
  String of a finite number: an integer prints its digits, a fraction its finite decimal
  expansion (a double has one), and what is tiny or huge prints with an exponent.
\<close>

fun decimals_of :: "nat \<Rightarrow> rat \<Rightarrow> string" where
  "decimals_of 0 r = []"
| "decimals_of (Suc n) r = (if r = 0 then []
     else digit_char (nat \<lfloor>10 * r\<rfloor>) # decimals_of n (10 * r - of_int \<lfloor>10 * r\<rfloor>))"

definition plain_decimal :: "rat \<Rightarrow> string" where
  "plain_decimal r =
    (let ds = decimals_of 23 (r - of_int \<lfloor>r\<rfloor>) in show_int \<lfloor>r\<rfloor> @ (if ds = [] then [] else CHR ''.'' # ds))"

fun scaled :: "nat \<Rightarrow> int \<Rightarrow> rat \<Rightarrow> rat \<times> int" where
  "scaled 0 e r = (r, e)"
| "scaled (Suc n) e r = (if 10 \<le> r then scaled n (e + 1) (r / 10) else if r < 1 then scaled n (e - 1) (10 * r) else (r, e))"

definition scientific :: "rat \<Rightarrow> string" where
  "scientific r = (let (m, e) = scaled 400 0 r in
     plain_decimal m @ ''e'' @ (if e < 0 then show_int e else CHR ''+'' # show_int e))"

definition number_text :: "rat \<Rightarrow> string" where
  "number_text r =
    (if r = 0 then ''0''
     else (if r < 0 then ''-'' else []) @
       (if 1 / 10 ^ 6 \<le> \<bar>r\<bar> \<and> \<bar>r\<bar> < 10 ^ 21 then plain_decimal \<bar>r\<bar> else scientific \<bar>r\<bar>))"

section \<open>Hexadecimal text\<close>

text \<open>toString(16) of a number that is a natural one.\<close>

definition hex_char :: "nat \<Rightarrow> char" where
  "hex_char d = (if d < 10 then digit_char d else char_of (87 + d))"

fun show_hex :: "nat \<Rightarrow> string" where
  "show_hex n = (if n < 16 then [hex_char n] else show_hex (n div 16) @ [hex_char (n mod 16)])"

declare show_hex.simps [simp del]

lemma show_hex_not_Nil [simp]: "show_hex n \<noteq> []"
  by (subst show_hex.simps) simp

lemma hex_digit_hex_char [simp]: "d < 16 \<Longrightarrow> hex_digit (hex_char d) = Some d"
  by (auto simp: hex_char_def hex_digit_def digit_char_def Let_def)

lemma radix_value_append:
  "radix_value b a (s @ t) = (case radix_value b a s of None \<Rightarrow> None | Some v \<Rightarrow> radix_value b v t)"
  by (induction s arbitrary: a) (auto split: option.splits)

lemma radix_value_show_hex [simp]: "radix_value 16 0 (show_hex n) = Some n"
proof (induction n rule: show_hex.induct)
  case (1 n)
  then show ?case by (subst show_hex.simps) (auto simp: radix_value_append)
qed

lemma show_hex_length: "n < 16 ^ k \<Longrightarrow> 0 < k \<Longrightarrow> length (show_hex n) \<le> k"
proof (induction k arbitrary: n)
  case (Suc k)
  show ?case
  proof (cases "n < 16")
    case True then show ?thesis by (subst show_hex.simps) simp
  next
    case False
    with Suc.prems have "0 < k" by (cases k) auto
    moreover have "n div 16 < 16 ^ k" using Suc.prems by (simp add: less_mult_imp_div_less mult.commute)
    ultimately show ?thesis using Suc.IH False by (subst show_hex.simps) simp
  qed
qed simp

lemma show_hex_digits: "c \<in> set (show_hex n) \<Longrightarrow> hex_digit c \<noteq> None"
proof (induction n rule: show_hex.induct)
  case (1 n)
  then show ?case by (subst (asm) show_hex.simps) (auto split: if_splits)
qed

section \<open>Letter case\<close>

definition upper_char :: "char \<Rightarrow> char" where
  "upper_char c = (let n = of_char c :: nat in if 97 \<le> n \<and> n \<le> 122 then char_of (n - 32) else c)"

definition lower_text :: "string \<Rightarrow> string" where "lower_text s = List.map lower_char s"
definition upper_text :: "string \<Rightarrow> string" where "upper_text s = List.map upper_char s"

text \<open>A chain of ?? takes the first operand that is neither null nor undefined.\<close>

fun nullish_chain :: "jsval list \<Rightarrow> jsval" where
  "nullish_chain [] = JUndefined"
| "nullish_chain [v] = v"
| "nullish_chain (v # vs) = (if v = JUndefined \<or> v = JNull then nullish_chain vs else v)"

section \<open>Dates\<close>

text \<open>toISOString of a date in milliseconds, for the years of four digits.\<close>

definition padded :: "nat \<Rightarrow> int \<Rightarrow> string" where
  "padded n z = pad_start n CHR ''0'' (show_int z)"

definition civil_date :: "int \<Rightarrow> int \<times> int \<times> int" where
  "civil_date dayno =
    (let z = dayno + 719468; era = z div 146097; doe = z mod 146097;
         yoe = (doe - doe div 1460 + doe div 36524 - doe div 146096) div 365;
         doy = doe - (365 * yoe + yoe div 4 - yoe div 100);
         mp = (5 * doy + 2) div 153;
         d = doy - (153 * mp + 2) div 5 + 1;
         m = (if mp < 10 then mp + 3 else mp - 9)
     in (yoe + era * 400 + (if m \<le> 2 then 1 else 0), m, d))"

definition toISOString :: "int \<Rightarrow> string" where
  "toISOString ms =
    (let (y, m, d) = civil_date (ms div 86400000); r = ms mod 86400000 in
     padded 4 y @ ''-'' @ padded 2 m @ ''-'' @ padded 2 d @ ''T'' @ padded 2 (r div 3600000) @ '':'' @
     padded 2 (r div 60000 mod 60) @ '':'' @ padded 2 (r div 1000 mod 60) @ ''.'' @ padded 3 (r mod 1000) @ ''Z'')"

text \<open>
  Date.parse: a date YYYY-MM-DD, alone (midnight in UTC) or with a time of day and an offset, is
  read as the language says.  For the rest (a time without an offset, which is local, and the
  formats of the host) the language leaves the answer to the host, the function host_date.
\<close>

definition number_in :: "string \<Rightarrow> int option" where
  "number_in s = (if s \<noteq> [] \<and> list_all is_digit s then Some (int (digits_val s)) else None)"

definition day_number :: "int \<Rightarrow> int \<Rightarrow> int \<Rightarrow> int" where
  "day_number y m d =
    (let y' = (if m \<le> 2 then y - 1 else y); yoe = y' mod 400;
         doy = (153 * (if 2 < m then m - 3 else m + 9) + 2) div 5 + d - 1
     in y' div 400 * 146097 + (365 * yoe + yoe div 4 - yoe div 100 + doy) - 719468)"

definition month_days :: "int \<Rightarrow> int \<Rightarrow> int" where
  "month_days y m =
    (if m = 2 then (if y mod 4 = 0 \<and> (y mod 100 \<noteq> 0 \<or> y mod 400 = 0) then 29 else 28)
     else if m = 4 \<or> m = 6 \<or> m = 9 \<or> m = 11 then 30 else 31)"

definition iso_date :: "string \<Rightarrow> int option" where
  "iso_date s =
    (if length s = 10 \<and> s ! 4 = CHR ''-'' \<and> s ! 7 = CHR ''-'' then
       (case (number_in (take 4 s), number_in (take 2 (drop 5 s)), number_in (drop 8 s)) of
          (Some y, Some m, Some d) \<Rightarrow>
            if 1 \<le> m \<and> m \<le> 12 \<and> 1 \<le> d \<and> d \<le> month_days y m then Some (day_number y m d) else None
        | _ \<Rightarrow> None)
     else None)"

text \<open>The time of day hh:mm:ss or hh:mm:ss.mmm in milliseconds, and the offset Z or +hh:mm in minutes.\<close>

definition iso_clock :: "string \<Rightarrow> int option" where
  "iso_clock s =
    (if (length s = 8 \<or> length s = 12 \<and> s ! 8 = CHR ''.'') \<and> s ! 2 = CHR '':'' \<and> s ! 5 = CHR '':'' then
       (case (number_in (take 2 s), number_in (take 2 (drop 3 s)), number_in (take 2 (drop 6 s)),
              if length s = 8 then Some 0 else number_in (drop 9 s)) of
          (Some h, Some m, Some sec, Some ms) \<Rightarrow>
            if h < 24 \<and> m < 60 \<and> sec < 60 then Some (((h * 60 + m) * 60 + sec) * 1000 + ms) else None
        | _ \<Rightarrow> None)
     else None)"

definition iso_zone :: "string \<Rightarrow> int option" where
  "iso_zone s =
    (if s = ''Z'' then Some 0
     else if length s = 6 \<and> s ! 3 = CHR '':'' then
       (case (number_in (take 2 (drop 1 s)), number_in (drop 4 s)) of
          (Some h, Some m) \<Rightarrow>
            if h < 24 \<and> m < 60 then Some (if hd s = CHR ''-'' then - (h * 60 + m) else h * 60 + m) else None
        | _ \<Rightarrow> None)
     else None)"

definition is_zone_mark :: "char \<Rightarrow> bool" where
  "is_zone_mark c = (c = CHR ''Z'' \<or> c = CHR ''+'' \<or> c = CHR ''-'')"

definition Date_parse :: "(string \<Rightarrow> int option) \<Rightarrow> string \<Rightarrow> int option" where
  "Date_parse host_date s =
    (case iso_date (take 10 s) of
       None \<Rightarrow> host_date s
     | Some day \<Rightarrow>
         if drop 10 s = [] then Some (day * 86400000)
         else if hd (drop 10 s) \<noteq> CHR ''T'' then host_date s
         else let t = drop 11 s in
           (case (iso_clock (takeWhile (Not \<circ> is_zone_mark) t), iso_zone (dropWhile (Not \<circ> is_zone_mark) t)) of
              (Some ms, Some zone) \<Rightarrow> Some (day * 86400000 + ms - zone * 60000)
            | _ \<Rightarrow> host_date s))"

end
