(* ===== verification/Mock_Indexer.thy ===== *)
theory Mock_Indexer
  imports Events Graph_Query Js_Coercions
begin

text \<open>
  The in-memory indexer for tests (src/mock-indexer.ts): preset answers and events with
  simulated failures, and the generator of a consistent run of stream events, with what makes
  the run consistent.
\<close>

section \<open>Preset answers\<close>

record MockIndexerOptions =
  mo_queries :: "(string \<times> jsval) list"
  mo_subscriptions :: "(string \<times> jsval list) list"
  mo_strict :: bool
  mo_failureRate :: rat
  mo_random :: "nat \<Rightarrow> rat"

text \<open>The state: whether the mock is destroyed, and how many random numbers it has drawn.\<close>

record mock_state =
  mk_destroyed :: bool
  mk_draws :: nat

definition simulated_drop :: thrown where
  "simulated_drop = plain_error ''MockGraphQLIndexer: simulated RPC connection drop''"

definition shouldFail :: "MockIndexerOptions \<Rightarrow> (mock_state, bool) io" where
  "shouldFail opts s =
    (if mo_failureRate opts > 0
     then (Inr (mo_random opts (mk_draws s) < mo_failureRate opts), s \<lparr> mk_draws := mk_draws s + 1 \<rparr>)
     else (Inr False, s))"

definition mock_destroyed :: thrown where
  "mock_destroyed = plain_error ''MockGraphQLIndexer has been destroyed''"

definition mock_query :: "MockIndexerOptions \<Rightarrow> string \<Rightarrow> (mock_state, jsval) io" where
  "mock_query opts q =
    io_bind (io_gets mk_destroyed) (\<lambda>destroyed.
    io_bind (io_guard (\<not> destroyed) mock_destroyed) (\<lambda>_.
    io_bind (shouldFail opts) (\<lambda>fails.
    io_bind (io_guard (\<not> fails) simulated_drop) (\<lambda>_.
    case map_of (mo_queries opts) (trim q) of
      Some v \<Rightarrow> io_return v
    | None \<Rightarrow>
        if mo_strict opts
        then io_throw (plain_error (''MockGraphQLIndexer: no preset response for query '' @ CHR 0x22 # trim q @ [CHR 0x22]))
        else io_return JUndefined))))"

text \<open>The events of a subscription, each on a timer of its own, in the order of the timers.\<close>

definition mock_events :: "MockIndexerOptions \<Rightarrow> string \<Rightarrow> jsval list" where
  "mock_events opts q = given_or [] (map_of (mo_subscriptions opts) (trim q))"

definition mock_emit :: "MockIndexerOptions \<Rightarrow> bool \<Rightarrow> jsval \<Rightarrow> mock_state \<Rightarrow> (thrown, jsval) result option \<times> mock_state" where
  "mock_emit opts unsubscribed evt s =
    (if unsubscribed \<or> mk_destroyed s then (None, s)
     else case shouldFail opts s of
       (Inr True, s') \<Rightarrow> (Some (Inl simulated_drop), s')
     | (_, s') \<Rightarrow> (Some (Inr evt), s'))"

fun mock_emissions :: "MockIndexerOptions \<Rightarrow> (nat \<Rightarrow> bool) \<Rightarrow> nat \<Rightarrow> jsval list \<Rightarrow> mock_state \<Rightarrow> (thrown, jsval) result list" where
  "mock_emissions opts unsubscribed i [] s = []"
| "mock_emissions opts unsubscribed i (e # es) s =
    (case mock_emit opts (unsubscribed i) e s of
       (None, s') \<Rightarrow> mock_emissions opts unsubscribed (i + 1) es s'
     | (Some r, s') \<Rightarrow> r # mock_emissions opts unsubscribed (i + 1) es s')"

section \<open>Hashes\<close>

definition mockTxHash :: "nat \<Rightarrow> string" where
  "mockTxHash i = pad_start 64 CHR ''0'' (show_hex (i + 1))"

section \<open>The event generator\<close>

datatype MockStreamEventKind = KCreated | KTop_up | KWithdraw | KPause | KResume | KCancel | KClawback

definition DEFAULT_MOCK_EVENT_LIFECYCLE :: "MockStreamEventKind list" where
  "DEFAULT_MOCK_EVENT_LIFECYCLE = [KCreated, KTop_up, KWithdraw, KPause, KResume, KWithdraw, KCancel]"

record MockEventStreamOptions =
  me_sender :: "string option"
  me_recipient :: "string option"
  me_token :: "string option"
  me_depositAmount :: "int option"
  me_ratePerSecond :: "int option"
  me_startLedger :: "int option"
  me_startTimestamp :: "int option"
  me_kinds :: "MockStreamEventKind list option"

definition MOCK_SENDER :: string where "MOCK_SENDER = CHR ''G'' # replicate 55 CHR ''S''"
definition MOCK_RECIPIENT :: string where "MOCK_RECIPIENT = CHR ''G'' # replicate 55 CHR ''R''"

record mock_totals =
  withdrawnTotal :: int
  toppedUpTotal :: int
  withdrawCount :: nat
  topUpCount :: nat

definition deposit_of :: "MockEventStreamOptions \<Rightarrow> int" where
  "deposit_of opts = given_or 1000000000 (me_depositAmount opts)"

definition start_ledger_of :: "MockEventStreamOptions \<Rightarrow> int" where
  "start_ledger_of opts = given_or 1000000 (me_startLedger opts)"

definition start_timestamp_of :: "MockEventStreamOptions \<Rightarrow> int" where
  "start_timestamp_of opts = given_or 1700000000000 (me_startTimestamp opts)"

text \<open>The totals after an event, which its own fields use.\<close>

fun advance_totals :: "MockStreamEventKind \<Rightarrow> mock_totals \<Rightarrow> mock_totals" where
  "advance_totals KTop_up t = t \<lparr> topUpCount := topUpCount t + 1, toppedUpTotal := toppedUpTotal t + 2000000 * int (topUpCount t + 1) \<rparr>"
| "advance_totals KWithdraw t = t \<lparr> withdrawCount := withdrawCount t + 1, withdrawnTotal := withdrawnTotal t + 500000 * int (withdrawCount t + 1) \<rparr>"
| "advance_totals _ t = t"

definition left_of :: "MockEventStreamOptions \<Rightarrow> mock_totals \<Rightarrow> int" where
  "left_of opts t = deposit_of opts + toppedUpTotal t - withdrawnTotal t"

fun mock_event :: "MockEventStreamOptions \<Rightarrow> nat \<Rightarrow> mock_totals \<Rightarrow> MockStreamEventKind \<Rightarrow> StreamEvent" where
  "mock_event opts i t KCreated = EvCreated \<lparr> cr_sender = given_or MOCK_SENDER (me_sender opts), cr_recipient = given_or MOCK_RECIPIENT (me_recipient opts),
     cr_token = given_or ''native'' (me_token opts), cr_depositAmount = deposit_of opts, cr_ratePerSecond = given_or 1000 (me_ratePerSecond opts),
     cr_startTime = start_timestamp_of opts div 1000, cr_endTime = 0, cr_sequence = Some (int i + 1) \<rparr>"
| "mock_event opts i t KTop_up = EvToppedUp \<lparr> te_sender = given_or MOCK_SENDER (me_sender opts), te_amount = 2000000 * int (topUpCount t),
     te_newBalance = left_of opts t, te_sequence = Some (int i + 1) \<rparr>"
| "mock_event opts i t KWithdraw = EvWithdrawn \<lparr> we_recipient = given_or MOCK_RECIPIENT (me_recipient opts), we_amount = 500000 * int (withdrawCount t),
     we_totalWithdrawn = withdrawnTotal t, we_remaining = left_of opts t, we_sequence = Some (int i + 1) \<rparr>"
| "mock_event opts i t KPause = EvPaused \<lparr> pv_sender = given_or MOCK_SENDER (me_sender opts), pv_pausedAt = start_timestamp_of opts div 1000 + int i * 5,
     pv_withdrawable = left_of opts t, pv_sequence = Some (int i + 1) \<rparr>"
| "mock_event opts i t KResume = EvResumed \<lparr> re_sender = given_or MOCK_SENDER (me_sender opts), re_resumedAt = start_timestamp_of opts div 1000 + int i * 5,
     re_sequence = Some (int i + 1) \<rparr>"
| "mock_event opts i t KCancel = EvCancelled \<lparr> ce_sender = given_or MOCK_SENDER (me_sender opts), ce_refundAmount = left_of opts t,
     ce_withdrawnSoFar = withdrawnTotal t, ce_sequence = Some (int i + 1) \<rparr>"
| "mock_event opts i t KClawback = EvClawback \<lparr> cl_sender = given_or MOCK_SENDER (me_sender opts), cl_amount = left_of opts t, cl_sequence = Some (int i + 1) \<rparr>"

fun mock_entries :: "MockEventStreamOptions \<Rightarrow> nat \<Rightarrow> mock_totals \<Rightarrow> MockStreamEventKind list \<Rightarrow> StreamHistoryEntry list" where
  "mock_entries opts i t [] = []"
| "mock_entries opts i t (k # ks) =
    (let t' = advance_totals k t; ledger = start_ledger_of opts + int i in
     \<lparr> he_id = show_int ledger @ ''-0'', he_ledger = Some (Num (of_int ledger)), he_timestamp = toISOString (start_timestamp_of opts + int i * 5000),
       he_txHash = mockTxHash i, he_event = mock_event opts i t' k \<rparr> # mock_entries opts (i + 1) t' ks)"

definition createMockEventStream :: "MockEventStreamOptions \<Rightarrow> StreamHistoryEntry list" where
  "createMockEventStream opts = mock_entries opts 0 \<lparr> withdrawnTotal = 0, toppedUpTotal = 0, withdrawCount = 0, topUpCount = 0 \<rparr>
     (given_or DEFAULT_MOCK_EVENT_LIFECYCLE (me_kinds opts))"

definition createMockEventStreamPage :: "MockEventStreamOptions \<Rightarrow> StreamHistoryPage" where
  "createMockEventStreamPage opts = \<lparr> hp_entries = createMockEventStream opts, hp_nextCursor = None \<rparr>"

section \<open>What makes a run consistent\<close>

text \<open>What an event adds to the balance of its stream, and the balance it reports.\<close>

fun balance_flow :: "StreamEvent \<Rightarrow> int" where
  "balance_flow (EvToppedUp e) = te_amount e"
| "balance_flow (EvWithdrawn e) = - we_amount e"
| "balance_flow _ = 0"

fun reported_balance :: "StreamEvent \<Rightarrow> int option" where
  "reported_balance (EvToppedUp e) = Some (te_newBalance e)"
| "reported_balance (EvWithdrawn e) = Some (we_remaining e)"
| "reported_balance (EvPaused e) = Some (pv_withdrawable e)"
| "reported_balance (EvCancelled e) = Some (ce_refundAmount e)"
| "reported_balance (EvClawback e) = Some (cl_amount e)"
| "reported_balance _ = None"

fun event_sequence :: "StreamEvent \<Rightarrow> int option" where
  "event_sequence (EvCreated e) = cr_sequence e"
| "event_sequence (EvToppedUp e) = te_sequence e"
| "event_sequence (EvWithdrawn e) = we_sequence e"
| "event_sequence (EvPaused e) = pv_sequence e"
| "event_sequence (EvResumed e) = re_sequence e"
| "event_sequence (EvCancelled e) = ce_sequence e"
| "event_sequence (EvClawback e) = cl_sequence e"
| "event_sequence (EvForceCancelled e) = fc_sequence e"
| "event_sequence (EvRecipientTransferred e) = rt_sequence e"
| "event_sequence (EvOperatorSet e) = os_sequence e"
| "event_sequence (EvOperatorRevoked e) = or_sequence e"

fun kind_topic :: "MockStreamEventKind \<Rightarrow> string" where
  "kind_topic KCreated = ''created''"
| "kind_topic KTop_up = ''topped_up''"
| "kind_topic KWithdraw = ''withdrawn''"
| "kind_topic KPause = ''paused''"
| "kind_topic KResume = ''resumed''"
| "kind_topic KCancel = ''cancelled''"
| "kind_topic KClawback = ''clawback''"

lemma mock_event_flow: "left_of opts (advance_totals k t) = left_of opts t + balance_flow (mock_event opts i (advance_totals k t) k)"
  by (cases k) (simp_all add: left_of_def)

lemma mock_entry_balance:
  assumes "j < length ks"
  shows "let e = he_event (mock_entries opts i t ks ! j) in
    topic_of e = kind_topic (ks ! j) \<and> event_sequence e = Some (int (i + j) + 1) \<and>
    he_ledger (mock_entries opts i t ks ! j) = Some (Num (of_int (start_ledger_of opts + int (i + j)))) \<and>
    (\<forall>b. reported_balance e = Some b \<longrightarrow>
       b = left_of opts t + (\<Sum>l \<le> j. balance_flow (he_event (mock_entries opts i t ks ! l))))"
  using assms
proof (induction ks arbitrary: i t j)
  case (Cons k ks)
  let ?t = "advance_totals k t"
  have flow: "left_of opts ?t = left_of opts t + balance_flow (mock_event opts i ?t k)" by (rule mock_event_flow)
  show ?case
  proof (cases j)
    case 0
    then show ?thesis using flow by (cases k) (simp_all add: Let_def)
  next
    case (Suc j')
    then have "j' < length ks" using Cons.prems by simp
    have "(\<Sum>l \<le> j. balance_flow (he_event (mock_entries opts i t (k # ks) ! l))) =
        balance_flow (mock_event opts i ?t k) + (\<Sum>l \<le> j'. balance_flow (he_event (mock_entries opts (i + 1) ?t ks ! l)))"
      unfolding Suc by (subst sum.atMost_Suc_shift) (simp add: Let_def)
    then show ?thesis using Cons.IH [OF \<open>j' < length ks\<close>, of "i + 1" ?t] flow Suc by (simp add: Let_def add.assoc)
  qed
qed simp

lemma mock_entries_length: "length (mock_entries opts i t ks) = length ks"
  by (induction ks arbitrary: i t) (simp_all add: Let_def)

text \<open>
  A generated run has one event of each kind asked for, in order, on consecutive ledgers and
  with consecutive sequence numbers from one, and every balance an event reports is the deposit
  plus all that was topped up minus all that was withdrawn up to it.
\<close>
theorem mock_run_consistent:
  assumes "me_kinds opts = Some ks"
  shows "length (createMockEventStream opts) = length ks \<and>
    (\<forall>j < length ks. let e = he_event (createMockEventStream opts ! j) in
      topic_of e = kind_topic (ks ! j) \<and> event_sequence e = Some (int j + 1) \<and>
      he_ledger (createMockEventStream opts ! j) = Some (Num (of_int (start_ledger_of opts + int j))) \<and>
      (\<forall>b. reported_balance e = Some b \<longrightarrow>
        b = deposit_of opts + (\<Sum>l \<le> j. balance_flow (he_event (createMockEventStream opts ! l)))))"
proof -
  let ?t = "\<lparr> withdrawnTotal = 0, toppedUpTotal = 0, withdrawCount = 0, topUpCount = 0 \<rparr>"
  have c: "createMockEventStream opts = mock_entries opts 0 ?t ks" by (simp add: createMockEventStream_def assms given_or_def)
  have "left_of opts ?t = deposit_of opts" by (simp add: left_of_def)
  then show ?thesis using mock_entry_balance [of _ ks opts 0 ?t] by (simp add: c mock_entries_length Let_def)
qed

text \<open>The ledger gap detector reports no gap over a generated run.\<close>

fun gaps_found :: "int option \<Rightarrow> jsnum option list \<Rightarrow> (int \<times> int) list" where
  "gaps_found cur [] = []"
| "gaps_found cur (None # ls) = gaps_found cur ls"
| "gaps_found cur (Some l # ls) =
    (case observe_ledger l cur of Inl _ \<Rightarrow> [(0, 0)] | Inr (None, cur') \<Rightarrow> gaps_found cur' ls | Inr (Some g, cur') \<Rightarrow> g # gaps_found cur' ls)"

lemma mock_no_gaps:
  "0 \<le> start_ledger_of opts \<Longrightarrow> cur = None \<or> cur = Some (start_ledger_of opts + int i - 1) \<Longrightarrow>
    gaps_found cur (List.map he_ledger (mock_entries opts i t ks)) = []"
proof (induction ks arbitrary: i t cur)
  case (Cons k ks)
  have "gaps_found (Some (start_ledger_of opts + int i)) (List.map he_ledger (mock_entries opts (i + 1) (advance_totals k t) ks)) = []"
    by (rule Cons.IH) (use Cons.prems in auto)
  then show ?case using Cons.prems by (auto simp: Let_def observe_ledger_def)
qed simp

theorem mock_run_has_no_ledger_gap:
  assumes "0 \<le> start_ledger_of opts"
  shows "gaps_found None (List.map he_ledger (createMockEventStream opts)) = []"
  using mock_no_gaps [OF assms] by (simp add: createMockEventStream_def)

definition sample_mock :: MockEventStreamOptions where
  "sample_mock = \<lparr> me_sender = None, me_recipient = None, me_token = None, me_depositAmount = None, me_ratePerSecond = None,
     me_startLedger = None, me_startTimestamp = None, me_kinds = Some [KCreated, KTop_up, KWithdraw] \<rparr>"

lemma mock_run_consistent_witness:
  "length (createMockEventStream sample_mock) = 3 \<and> event_sequence (he_event (createMockEventStream sample_mock ! 2)) = Some 3"
  using mock_run_consistent [of sample_mock "[KCreated, KTop_up, KWithdraw]"] by (simp add: sample_mock_def Let_def)

lemma mock_run_has_no_ledger_gap_witness: "gaps_found None (List.map he_ledger (createMockEventStream sample_mock)) = []"
  using mock_run_has_no_ledger_gap [of sample_mock] by (simp add: sample_mock_def start_ledger_of_def given_or_def)

lemma sample_timestamp: "toISOString 1700000000000 = ''2023-11-14T22:13:20.000Z''"
  by code_simp

section \<open>Preset answers\<close>

text \<open>Without simulated failures the callback gets every preset event, in order, up to unsubscribe.\<close>
theorem mock_emissions_in_order:
  assumes "mo_failureRate opts \<le> 0" "\<not> mk_destroyed s"
  shows "mock_emissions opts (\<lambda>j. n \<le> j) 0 es s = List.map Inr (take n es)"
proof -
  have "mock_emissions opts (\<lambda>j. n \<le> j) i es s = List.map Inr (take (n - i) es)" for i
    using assms
  proof (induction es arbitrary: i s)
    case (Cons e es)
    have d: "n - i = Suc (n - (i + 1))" if "\<not> n \<le> i" using that by simp
    have e: "mock_emit opts u e s = (if u then None else Some (Inr e), s)" for u
      using Cons.prems by (simp add: mock_emit_def shouldFail_def)
    show ?case using Cons.IH [OF Cons.prems, of "i + 1"] d by (cases "n \<le> i") (simp_all add: e)
  qed simp
  from this [of 0] show ?thesis by simp
qed

definition sample_mock_options :: MockIndexerOptions where
  "sample_mock_options = \<lparr> mo_queries = [], mo_subscriptions = [(''s'', [JNull, JBool True])], mo_strict = False, mo_failureRate = 0, mo_random = (\<lambda>_. 0) \<rparr>"

lemma mock_emissions_in_order_witness:
  "mock_emissions sample_mock_options (\<lambda>j. 1 \<le> j) 0 (mock_events sample_mock_options '' s '') \<lparr> mk_destroyed = False, mk_draws = 0 \<rparr> = [Inr JNull]"
  using mock_emissions_in_order [of sample_mock_options "\<lparr> mk_destroyed = False, mk_draws = 0 \<rparr>" 1 "mock_events sample_mock_options '' s ''"]
  by (simp add: sample_mock_options_def mock_events_def trim_def is_space_def given_or_def)

end
