(* ===== verification/Tx_Records.thy ===== *)
theory Tx_Records
  imports Js_Coercions Factory Graph_Query
begin

text \<open>
  The rows of the transaction history (src/dashboard/transaction-history.ts): the coercions that
  turn whatever the indexer sent into complete records, the direction derived from the kind, and
  the normalisation of a payload, without duplicates.
\<close>

section \<open>Records\<close>

text \<open>
  The statuses, kinds and directions are unions of string literals: strings here too, so that
  being one of them is a fact to prove.  A timestamp is in milliseconds.
\<close>

type_synonym TransactionStatus = string
type_synonym TransactionDirection = string
type_synonym TransactionKind = string

record TransactionRecord =
  tx_id :: string
  tx_hash :: string
  tx_streamId :: string
  tx_kind :: TransactionKind
  tx_direction :: TransactionDirection
  tx_status :: TransactionStatus
  tx_amount :: string
  tx_asset :: string
  tx_counterparty :: string
  tx_timestamp :: int

definition VALID_STATUSES :: "TransactionStatus list" where
  "VALID_STATUSES = [''PENDING'', ''CONFIRMED'', ''FAILED'', ''CANCELLED'', ''UNKNOWN'']"

definition VALID_KINDS :: "TransactionKind list" where
  "VALID_KINDS = [''CREATE'', ''WITHDRAW'', ''PAUSE'', ''RESUME'', ''CANCEL'', ''TOP_UP'', ''UNKNOWN'']"

definition VALID_DIRECTIONS :: "TransactionDirection list" where
  "VALID_DIRECTIONS = [''IN'', ''OUT'', ''UNKNOWN'']"

section \<open>Coercions\<close>

definition asString :: "jsval \<Rightarrow> string \<Rightarrow> string" where
  "asString v fallback =
    (case v of JString s \<Rightarrow> s | JNumber (Num r) \<Rightarrow> number_text r | JBigint z \<Rightarrow> show_int z | _ \<Rightarrow> fallback)"

text \<open>The pattern of a date and time with a space between: ten characters, a blank, and the time.\<close>

definition shaped :: "string \<Rightarrow> string \<Rightarrow> bool" where
  "shaped pattern s = list_all2 (\<lambda>p c. if p = CHR ''d'' then is_digit c else c = p) pattern s"

definition is_space_separated_datetime :: "string \<Rightarrow> bool" where
  "is_space_separated_datetime s =
    (shaped ''dddd-dd-dd dd:dd:dd'' (take 19 s) \<and>
     (drop 19 s = [] \<or> hd (drop 19 s) = CHR ''.'' \<and> drop 20 s \<noteq> [] \<and> list_all is_digit (drop 20 s)))"

definition toIso8601 :: "string \<Rightarrow> string" where
  "toIso8601 s = (if is_space_separated_datetime s then take 10 s @ ''T'' @ drop 11 s @ ''Z'' else s)"

definition number_timestamp :: "rat \<Rightarrow> int" where
  "number_timestamp r =
    (if 10 ^ 9 \<le> \<bar>r\<bar> \<and> \<bar>r\<bar> < 10 ^ 10 then truncated r * 1000 else truncated r)"

text \<open>A payload comes from JSON, so that no Date object is in it.\<close>

definition asTimestamp :: "(string \<Rightarrow> int option) \<Rightarrow> jsval \<Rightarrow> int" where
  "asTimestamp host_date v =
    (case v of
       JNumber (Num r) \<Rightarrow> number_timestamp r
     | JString s \<Rightarrow>
         (if trim s = [] then 0
          else case number_of_string (trim s) of
            Num r \<Rightarrow> number_timestamp r
          | _ \<Rightarrow> given_or 0 (Date_parse host_date (toIso8601 (trim s))))
     | _ \<Rightarrow> 0)"

definition asEnum :: "jsval \<Rightarrow> string list \<Rightarrow> string \<Rightarrow> string" where
  "asEnum v allowed fallback =
    (case v of JString s \<Rightarrow> (let u = upper_text (trim s) in if u \<in> set allowed then u else fallback) | _ \<Rightarrow> fallback)"

text \<open>What a catch clause or a callback hands over: an Error object or any other value.\<close>

datatype caught = Caught_error thrown | Caught_value jsval

definition LOAD_FAILED :: string where "LOAD_FAILED = ''Failed to load transaction history.''"

definition toErrorMessage :: "caught \<Rightarrow> string \<Rightarrow> string" where
  "toErrorMessage e fallback =
    (case e of
       Caught_error err \<Rightarrow> if trim (err_message err) \<noteq> [] then err_message err else fallback
     | Caught_value v \<Rightarrow>
         (case v of
            JString s \<Rightarrow> if trim s \<noteq> [] then s else fallback
          | _ \<Rightarrow> (case field_of v ''message'' of
                    JString m \<Rightarrow> if trim m \<noteq> [] then m else fallback | _ \<Rightarrow> fallback)))"

section \<open>Normalisation\<close>

definition deriveTransactionDirection :: "TransactionKind \<Rightarrow> string \<Rightarrow> TransactionDirection" where
  "deriveTransactionDirection kind walletAddress =
    (if trim walletAddress = [] then ''UNKNOWN''
     else if kind = ''WITHDRAW'' then ''IN''
     else if kind = ''CREATE'' \<or> kind = ''TOP_UP'' then ''OUT''
     else ''UNKNOWN'')"

definition first_of :: "jsval \<Rightarrow> string list \<Rightarrow> jsval" where
  "first_of raw ks = nullish_chain (List.map (field_of raw) ks)"

definition optional_string :: "string option \<Rightarrow> jsval" where
  "optional_string w = (case w of None \<Rightarrow> JUndefined | Some s \<Rightarrow> JString s)"

definition normalizeTransaction ::
    "(string \<Rightarrow> int option) \<Rightarrow> jsval \<Rightarrow> string option \<Rightarrow> TransactionRecord option" where
  "normalizeTransaction host_date raw walletAddress =
    (case raw of
       JObject kvs \<Rightarrow>
         (let ident = asString (first_of raw [''id'', ''hash'']) [];
              hash = asString (first_of raw [''hash'', ''txHash'', ''id'']) [];
              streamId = asString (first_of raw [''streamId'', ''stream_id'']) [] in
          if ident = [] \<and> hash = [] \<and> streamId = [] then None
          else
            (let amountRaw = first_of raw [''amount'', ''value''];
                 kind = asEnum (first_of raw [''kind'', ''type'']) VALID_KINDS ''UNKNOWN'';
                 explicitDirection = asEnum (field_of raw ''direction'') VALID_DIRECTIONS ''UNKNOWN'';
                 timestamp = asTimestamp host_date (first_of raw [''timestamp'', ''createdAt'']) in
             Some \<lparr> tx_id = (if ident \<noteq> [] then ident else if hash \<noteq> [] then hash
                             else streamId @ '':'' @ kind @ '':'' @ show_int timestamp),
               tx_hash = hash, tx_streamId = streamId, tx_kind = kind,
               tx_direction = (if explicitDirection \<noteq> ''UNKNOWN'' then explicitDirection
                 else deriveTransactionDirection kind (asString (optional_string walletAddress) [])),
               tx_status = asEnum (field_of raw ''status'') VALID_STATUSES ''UNKNOWN'',
               tx_amount = asString amountRaw ''0'',
               tx_asset = asString (first_of raw [''asset'', ''token'', ''symbol'']) ''XLM'',
               tx_counterparty = asString (first_of raw [''counterparty'', ''recipient'', ''sender'']) [],
               tx_timestamp = timestamp \<rparr>))
     | _ \<Rightarrow> None)"

text \<open>The list inside a payload: a bare array, or a field of an object, or the nodes of its edges.\<close>

definition edge_node :: "jsval \<Rightarrow> jsval" where
  "edge_node edge = (if is_object edge then field_of edge ''node'' else edge)"

definition edge_nodes :: "jsval \<Rightarrow> jsval" where
  "edge_nodes v = (case v of JArray es \<Rightarrow> JArray (List.map edge_node es) | _ \<Rightarrow> JUndefined)"

definition payload_list :: "jsval \<Rightarrow> jsval" where
  "payload_list payload =
    (case payload of
       JObject kvs \<Rightarrow>
         nullish_chain (List.map (field_of payload) [''transactions'', ''transactionHistory'', ''streams'', ''items'', ''data'']
           @ [edge_nodes (field_of payload ''edges'')])
     | _ \<Rightarrow> payload)"

fun normalized_rows ::
    "(string \<Rightarrow> int option) \<Rightarrow> string option \<Rightarrow> string list \<Rightarrow> TransactionRecord list \<Rightarrow> jsval list \<Rightarrow> TransactionRecord list" where
  "normalized_rows host_date wallet seen acc [] = acc"
| "normalized_rows host_date wallet seen acc (entry # entries) =
    (case normalizeTransaction host_date entry wallet of
       None \<Rightarrow> normalized_rows host_date wallet seen acc entries
     | Some row \<Rightarrow>
         if tx_id row \<in> set seen then normalized_rows host_date wallet seen acc entries
         else normalized_rows host_date wallet (tx_id row # seen) (acc @ [row]) entries)"

definition normalizeTransactions ::
    "(string \<Rightarrow> int option) \<Rightarrow> jsval \<Rightarrow> string option \<Rightarrow> TransactionRecord list" where
  "normalizeTransactions host_date payload walletAddress =
    (case payload_list payload of JArray entries \<Rightarrow> normalized_rows host_date walletAddress [] [] entries | _ \<Rightarrow> [])"

section \<open>What a normalised row is\<close>

text \<open>A complete row: a name of its own, and a status, kind and direction the view knows.\<close>

definition well_formed_row :: "TransactionRecord \<Rightarrow> bool" where
  "well_formed_row t =
    (tx_id t \<noteq> [] \<and> tx_kind t \<in> set VALID_KINDS \<and> tx_direction t \<in> set VALID_DIRECTIONS \<and>
     tx_status t \<in> set VALID_STATUSES)"

lemma asEnum_valid: "d \<in> set allowed \<Longrightarrow> asEnum v allowed d \<in> set allowed"
  by (simp add: asEnum_def Let_def split: jsval.split)

lemma derived_direction: "deriveTransactionDirection k w \<in> set VALID_DIRECTIONS"
  by (simp add: deriveTransactionDirection_def VALID_DIRECTIONS_def)

lemma unknown_valid [simp]:
  "''UNKNOWN'' \<in> set VALID_KINDS" "''UNKNOWN'' \<in> set VALID_DIRECTIONS" "''UNKNOWN'' \<in> set VALID_STATUSES"
  by (simp_all add: VALID_KINDS_def VALID_DIRECTIONS_def VALID_STATUSES_def)

lemma normalized_well_formed:
  "normalizeTransaction host_date raw w = Some t \<Longrightarrow> well_formed_row t"
  by (cases raw) (auto simp: normalizeTransaction_def Let_def well_formed_row_def asEnum_valid derived_direction
      split: if_splits)

text \<open>The rows of a payload, before duplicates are dropped, and the specification of dropping them.\<close>

definition all_rows :: "(string \<Rightarrow> int option) \<Rightarrow> string option \<Rightarrow> jsval list \<Rightarrow> TransactionRecord list" where
  "all_rows host_date w entries = concat (List.map (\<lambda>e. case normalizeTransaction host_date e w of None \<Rightarrow> [] | Some t \<Rightarrow> [t]) entries)"

fun firsts :: "(string \<times> 'a) list \<Rightarrow> (string \<times> 'a) list" where
  "firsts [] = []"
| "firsts (kv # kvs) = kv # filter (\<lambda>p. fst p \<noteq> fst kv) (firsts kvs)"

definition first_rows :: "TransactionRecord list \<Rightarrow> TransactionRecord list" where
  "first_rows ts = List.map snd (firsts (List.map (\<lambda>t. (tx_id t, t)) ts))"

lemma map_of_firsts: "map_of (firsts kvs) = map_of kvs"
proof (induction kvs)
  case (Cons kv kvs)
  have "map_of (filter (\<lambda>p. fst p \<noteq> fst kv) l) k = (if k = fst kv then None else map_of l k)" for l :: "(string \<times> 'a) list" and k
    by (induction l) auto
  then show ?case using Cons by (cases kv) (auto simp: fun_eq_iff)
qed simp

lemma distinct_firsts: "distinct (List.map fst (firsts kvs))"
  by (induction kvs) (auto simp: distinct_map inj_on_filter_key_eq intro: inj_on_subset)

lemma filter_seen_firsts:
  "filter (\<lambda>p. fst p \<notin> S) (firsts (kv # kvs)) =
    (if fst kv \<in> S then filter (\<lambda>p. fst p \<notin> S) (firsts kvs)
     else kv # filter (\<lambda>p. fst p \<notin> insert (fst kv) S) (firsts kvs))"
  by (auto simp: filter_filter intro!: filter_cong)

lemma normalized_rows_spec:
  "normalized_rows host_date w seen acc entries =
    acc @ List.map snd (filter (\<lambda>p. fst p \<notin> set seen) (firsts (List.map (\<lambda>t. (tx_id t, t)) (all_rows host_date w entries))))"
proof (induction entries arbitrary: seen acc)
  case (Cons e entries)
  show ?case
  proof (cases "normalizeTransaction host_date e w")
    case None then show ?thesis using Cons by (simp add: all_rows_def)
  next
    case (Some t)
    have "all_rows host_date w (e # entries) = t # all_rows host_date w entries"
      using Some by (simp add: all_rows_def)
    then show ?thesis
      using Some filter_seen_firsts [of "set seen" "(tx_id t, t)" "List.map (\<lambda>t. (tx_id t, t)) (all_rows host_date w entries)"]
      by (simp add: Cons del: firsts.simps)
  qed
qed (simp add: all_rows_def)

lemma normalized_rows_first: "normalized_rows host_date w [] [] entries = first_rows (all_rows host_date w entries)"
  by (simp add: normalized_rows_spec first_rows_def)

lemma ids_first_rows: "List.map tx_id (first_rows ts) = List.map fst (firsts (List.map (\<lambda>t. (tx_id t, t)) ts))"
proof -
  have "\<forall>p \<in> set (firsts kvs). p \<in> set kvs" for kvs :: "(string \<times> TransactionRecord) list"
    by (induction kvs) auto
  then have "\<forall>p \<in> set (firsts (List.map (\<lambda>t. (tx_id t, t)) ts)). tx_id (snd p) = fst p" by fastforce
  then show ?thesis by (simp add: first_rows_def)
qed

end
