(* ===== verification/Tx_Ranking.thy ===== *)
theory Tx_Ranking
  imports Tx_Records "HOL-Library.Multiset" "HOL-Library.Product_Lexorder"
begin

text \<open>
  The bounded selection of the newest rows (src/dashboard/transaction-history.ts): a binary heap
  of at most k ranked rows, kept in an array by sifting up and down.  It returns the first k rows
  of the stable sort by decreasing timestamp.
\<close>

section \<open>The heap of the code\<close>

record RankedTransaction =
  rk_tx :: TransactionRecord
  rk_idx :: nat

definition isLowerPriority :: "RankedTransaction \<Rightarrow> RankedTransaction \<Rightarrow> bool" where
  "isLowerPriority a b =
    (if tx_timestamp (rk_tx a) \<noteq> tx_timestamp (rk_tx b) then tx_timestamp (rk_tx a) < tx_timestamp (rk_tx b)
     else rk_idx b < rk_idx a)"

definition swapped :: "'a list \<Rightarrow> nat \<Rightarrow> nat \<Rightarrow> 'a list" where
  "swapped h i j = h[i := h ! j, j := h ! i]"

text \<open>The child to exchange with, or the index itself when no child has lower priority.\<close>

definition smallest_child :: "RankedTransaction list \<Rightarrow> nat \<Rightarrow> nat" where
  "smallest_child h i =
    (let l = 2 * i + 1; r = 2 * i + 2;
         s1 = (if l < length h \<and> isLowerPriority (h ! l) (h ! i) then l else i)
     in if r < length h \<and> isLowerPriority (h ! r) (h ! s1) then r else s1)"

lemma smallest_child_bounds: "smallest_child h i \<noteq> i \<Longrightarrow> i < smallest_child h i \<and> smallest_child h i < length h"
  by (auto simp: smallest_child_def Let_def split: if_splits)

function siftDown :: "RankedTransaction list \<Rightarrow> nat \<Rightarrow> RankedTransaction list" where
  "siftDown h i =
    (let s = smallest_child h i in if s = i then h else siftDown (swapped h i s) s)"
  by auto
termination
  by (relation "measure (\<lambda>(h, i). length h - i)") (auto simp: swapped_def dest!: smallest_child_bounds)

declare siftDown.simps [simp del]

text \<open>The loop that moves the last element up.\<close>

fun sift_up :: "RankedTransaction list \<Rightarrow> nat \<Rightarrow> RankedTransaction list" where
  "sift_up h i =
    (if i = 0 then h
     else let parent = (i - 1) div 2 in
       if isLowerPriority (h ! parent) (h ! i) then h else sift_up (swapped h i parent) parent)"

declare sift_up.simps [simp del]

definition heap_step :: "nat \<Rightarrow> RankedTransaction list \<Rightarrow> RankedTransaction \<Rightarrow> RankedTransaction list" where
  "heap_step k heap candidate =
    (if length heap < k then sift_up (heap @ [candidate]) (length heap)
     else if isLowerPriority (heap ! 0) candidate then siftDown (heap[0 := candidate]) 0
     else heap)"

text \<open>The stable sort of an array by a comparator.\<close>

fun insert_by :: "('a \<Rightarrow> 'a \<Rightarrow> int) \<Rightarrow> 'a \<Rightarrow> 'a list \<Rightarrow> 'a list" where
  "insert_by cmp x [] = [x]"
| "insert_by cmp x (y # ys) = (if cmp y x \<le> 0 then y # insert_by cmp x ys else x # y # ys)"

definition js_sort :: "('a \<Rightarrow> 'a \<Rightarrow> int) \<Rightarrow> 'a list \<Rightarrow> 'a list" where
  "js_sort cmp xs = foldl (\<lambda>acc x. insert_by cmp x acc) [] xs"

definition compare_ranked :: "RankedTransaction \<Rightarrow> RankedTransaction \<Rightarrow> int" where
  "compare_ranked a b = (if isLowerPriority a b then 1 else if isLowerPriority b a then - 1 else 0)"

definition ranked :: "TransactionRecord list \<Rightarrow> RankedTransaction list" where
  "ranked txs = List.map (\<lambda>idx. \<lparr> rk_tx = txs ! idx, rk_idx = idx \<rparr>) [0..<length txs]"

definition topKByTimestampDesc :: "TransactionRecord list \<Rightarrow> int \<Rightarrow> TransactionRecord list" where
  "topKByTimestampDesc txs k =
    (if k \<le> 0 \<or> txs = [] then []
     else List.map rk_tx (js_sort compare_ranked (foldl (heap_step (nat k)) [] (ranked txs))))"

section \<open>Priorities are a linear order\<close>

definition rank :: "RankedTransaction \<Rightarrow> int \<times> nat" where
  "rank r = (- tx_timestamp (rk_tx r), rk_idx r)"

lemma lower_rank [simp]: "isLowerPriority a b \<longleftrightarrow> rank b < rank a"
  by (auto simp: isLowerPriority_def rank_def less_prod_def')

lemma set_swapped [simp]: "i < length h \<Longrightarrow> j < length h \<Longrightarrow> mset (swapped h i j) = mset h"
  by (simp add: swapped_def mset_swap)

lemma length_swapped [simp]: "length (swapped h i j) = length h"
  by (simp add: swapped_def)

lemma nth_swapped:
  "i < length h \<Longrightarrow> j < length h \<Longrightarrow> swapped h i j ! n = (if n = j then h ! i else if n = i then h ! j else h ! n)"
  by (auto simp: swapped_def nth_list_update)

section \<open>The heap invariant\<close>

definition parent_of :: "nat \<Rightarrow> nat" where "parent_of n = (n - 1) div 2"

definition is_heap :: "RankedTransaction list \<Rightarrow> bool" where
  "is_heap h = (\<forall>n. 0 < n \<longrightarrow> n < length h \<longrightarrow> rank (h ! n) \<le> rank (h ! parent_of n))"

text \<open>A heap except below index i, and except above it.\<close>

definition heap_but_below :: "RankedTransaction list \<Rightarrow> nat \<Rightarrow> bool" where
  "heap_but_below h i =
    (\<forall>n. 0 < n \<longrightarrow> n < length h \<longrightarrow>
       (parent_of n \<noteq> i \<longrightarrow> rank (h ! n) \<le> rank (h ! parent_of n)) \<and>
       (parent_of n = i \<longrightarrow> 0 < i \<longrightarrow> rank (h ! n) \<le> rank (h ! parent_of i)))"

definition heap_but_above :: "RankedTransaction list \<Rightarrow> nat \<Rightarrow> bool" where
  "heap_but_above h i =
    (\<forall>n. 0 < n \<longrightarrow> n < length h \<longrightarrow>
       (n \<noteq> i \<longrightarrow> rank (h ! n) \<le> rank (h ! parent_of n)) \<and>
       (parent_of n = i \<longrightarrow> 0 < i \<longrightarrow> rank (h ! n) \<le> rank (h ! parent_of i)))"

lemma children: "parent_of n = i \<Longrightarrow> 0 < n \<Longrightarrow> n = 2 * i + 1 \<or> n = 2 * i + 2"
  by (auto simp: parent_of_def)

lemma parent_less: "0 < n \<Longrightarrow> parent_of n < n"
  by (auto simp: parent_of_def)

lemma smallest_child_parent: "smallest_child h i \<noteq> i \<Longrightarrow> parent_of (smallest_child h i) = i"
  by (auto simp: smallest_child_def parent_of_def Let_def split: if_splits)

lemma smallest_child_max:
  assumes "parent_of n = i" "0 < n" "n < length h"
  shows "rank (h ! n) \<le> rank (h ! smallest_child h i)"
  using children [OF assms(1,2)] assms(3)
  by (auto simp: smallest_child_def Let_def not_less)

lemma smallest_child_above: "rank (h ! i) \<le> rank (h ! smallest_child h i)"
  by (auto simp: smallest_child_def Let_def not_less)

lemma sift_done:
  assumes "heap_but_below h i" "smallest_child h i = i"
  shows "is_heap h"
  using assms smallest_child_max [of _ i h] unfolding is_heap_def heap_but_below_def by metis

lemma sift_step:
  assumes h: "heap_but_below h i" and s: "smallest_child h i \<noteq> i"
  shows "heap_but_below (swapped h i (smallest_child h i)) (smallest_child h i)"
proof -
  let ?s = "smallest_child h i"
  have b: "i < ?s" "?s < length h" "i < length h" using smallest_child_bounds [OF s] by auto
  have p: "parent_of ?s = i" by (rule smallest_child_parent [OF s])
  have "rank (h ! ?s) \<le> rank (h ! parent_of i)" if "0 < i"
    using h b p that unfolding heap_but_below_def by auto
  moreover have "rank (h ! i) \<le> rank (h ! ?s)" by (rule smallest_child_above)
  moreover have "rank (h ! n) \<le> rank (h ! ?s)" if "parent_of n = i" "0 < n" "n < length h" for n
    using smallest_child_max that by blast
  moreover have "rank (h ! n) \<le> rank (h ! parent_of n)" if "0 < n" "n < length h" "parent_of n \<noteq> i" for n
    using h that unfolding heap_but_below_def by auto
  moreover have "rank (h ! n) \<le> rank (h ! ?s)" if "0 < n" "n < length h" "parent_of n = ?s" for n
    using h b that unfolding heap_but_below_def by (metis less_irrefl)
  moreover have "parent_of n < n" if "0 < n" for n using parent_less that .
  ultimately show ?thesis
    using b p unfolding heap_but_below_def by (auto simp: nth_swapped)
qed

lemma siftDown_heap: "heap_but_below h i \<Longrightarrow> is_heap (siftDown h i) \<and> mset (siftDown h i) = mset h"
proof (induction h i rule: siftDown.induct)
  case (1 h i)
  show ?case
  proof (cases "smallest_child h i = i")
    case True then show ?thesis using sift_done [OF 1(2) True] by (simp add: siftDown.simps [of h i])
  next
    case False
    then show ?thesis
      using 1(1) [OF refl False sift_step [OF 1(2) False]] smallest_child_bounds [OF False]
      by (simp add: siftDown.simps [of h i] Let_def)
  qed
qed

lemma sift_up_step:
  assumes h: "heap_but_above h i" and i: "0 < i" "i < length h" and low: "\<not> rank (h ! i) < rank (h ! parent_of i)"
  shows "heap_but_above (swapped h i (parent_of i)) (parent_of i)"
proof -
  let ?p = "parent_of i"
  have b: "?p < i" "?p < length h" using parent_less [of i] i by auto
  have up: "rank (h ! ?p) \<le> rank (h ! i)" using low by (simp add: not_less)
  have "rank (h ! n) \<le> rank (h ! ?p)" if "parent_of n = i" "0 < n" "n < length h" for n
    using h i that unfolding heap_but_above_def by auto
  moreover have q: "rank (h ! n) \<le> rank (h ! parent_of n)" if "0 < n" "n < length h" "n \<noteq> i" for n
    using h that unfolding heap_but_above_def by auto
  moreover have pp: "rank (h ! ?p) \<le> rank (h ! parent_of ?p)" if "0 < ?p" using q b that by auto
  moreover have s: "rank (h ! n) \<le> rank (h ! ?p)" if "0 < n" "n < length h" "n \<noteq> i" "parent_of n = ?p" for n
    using q that by metis
  moreover have "rank (h ! n) \<le> rank (h ! i)" if "0 < n" "n < length h" "n \<noteq> i" "parent_of n = ?p" for n
    using s [OF that] up by (rule order_trans)
  moreover have "rank (h ! n) \<le> rank (h ! parent_of ?p)"
    if "0 < n" "n < length h" "n \<noteq> i" "parent_of n = ?p" "0 < ?p" for n
    using s [OF that(1-4)] pp [OF that(5)] by (rule order_trans)
  moreover have "parent_of n < n" if "0 < n" for n using parent_less that .
  ultimately show ?thesis
    using b i up unfolding heap_but_above_def by (auto simp: nth_swapped)
qed

lemma sift_up_heap: "heap_but_above h i \<Longrightarrow> i < length h \<Longrightarrow> is_heap (sift_up h i) \<and> mset (sift_up h i) = mset h"
proof (induction h i rule: sift_up.induct)
  case (1 h i)
  have b: "0 < i \<Longrightarrow> parent_of i < length h" using parent_less [of i] 1(3) by auto
  show ?case
  proof (cases "i = 0 \<or> rank (h ! i) < rank (h ! parent_of i)")
    case True
    have "rank (h ! n) \<le> rank (h ! parent_of n)" if "0 < n" "n < length h" for n
      using 1(2) True that unfolding heap_but_above_def by (cases "n = i") auto
    then have "is_heap h" by (simp add: is_heap_def)
    then show ?thesis using True by (auto simp: sift_up.simps [of h i] parent_of_def)
  next
    case False
    then have "is_heap (sift_up (swapped h i (parent_of i)) (parent_of i)) \<and>
      mset (sift_up (swapped h i (parent_of i)) (parent_of i)) = mset (swapped h i (parent_of i))"
      using 1(1) [OF _ _ _ sift_up_step [OF 1(2) _ 1(3)], unfolded parent_of_def [symmetric]] b
      by (auto simp: parent_of_def)
    then show ?thesis using False b 1(3) by (simp add: sift_up.simps [of h i] parent_of_def Let_def)
  qed
qed

text \<open>The root is the greatest.\<close>

lemma heap_root: "is_heap h \<Longrightarrow> n < length h \<Longrightarrow> rank (h ! n) \<le> rank (h ! 0)"
proof (induction n rule: less_induct)
  case (less n)
  show ?case
  proof (cases "n = 0")
    case False
    then have "rank (h ! n) \<le> rank (h ! parent_of n)" using less.prems by (simp add: is_heap_def)
    also have "\<dots> \<le> rank (h ! 0)" using less parent_less [of n] False by simp
    finally show ?thesis .
  qed simp
qed

lemma push_heap:
  assumes "is_heap h"
  shows "is_heap (sift_up (h @ [c]) (length h)) \<and> mset (sift_up (h @ [c]) (length h)) = mset (h @ [c])"
proof (rule sift_up_heap)
  have "parent_of n < length h" if "n < Suc (length h)" "0 < n" for n using that parent_less [of n] by auto
  then show "heap_but_above (h @ [c]) (length h)"
    using assms unfolding heap_but_above_def is_heap_def
    by (auto simp: nth_append dest: parent_less)
qed simp

lemma replace_heap:
  assumes "is_heap h"
  shows "is_heap (siftDown (h[0 := c]) 0) \<and> mset (siftDown (h[0 := c]) 0) = mset (h[0 := c])"
  by (rule siftDown_heap) (use assms in \<open>auto simp: heap_but_below_def is_heap_def nth_list_update\<close>)

section \<open>The heap holds the first k ranks\<close>

lemma inj_rank_ranked: "inj_on rank (set (ranked txs))"
  by (auto simp: inj_on_def rank_def ranked_def)

lemma nth_as_last: "mset xs = mset ys \<Longrightarrow> ys \<noteq> [] \<Longrightarrow> xs \<noteq> []"
  by auto

text \<open>Adding an element to the k least of a list.\<close>

lemma take_insort_less:
  fixes f :: "'a \<Rightarrow> 'k::linorder"
  assumes "0 < k" "k \<le> length s" "f x < f (s ! (k - 1))" "sorted (List.map f s)"
  shows "take k (insort_key f x s) = insort_key f x (take (k - 1) s)"
  using assms
proof (induction s arbitrary: k)
  case (Cons y s)
  show ?case
  proof (cases "k = 1")
    case True then show ?thesis using Cons.prems by (auto dest: less_imp_le)
  next
    case False
    then obtain j where k: "k = Suc (Suc j)" using Cons.prems(1) by (metis One_nat_def gr0_implies_Suc neq0_conv)
    then show ?thesis using Cons.IH [of "Suc j"] Cons.prems by simp
  qed
qed simp

lemma take_insort_greater:
  fixes f :: "'a \<Rightarrow> 'k::linorder"
  assumes "\<And>y. y \<in> set (take k s) \<Longrightarrow> f y < f x" "k \<le> length s"
  shows "take k (insort_key f x s) = take k s"
  using assms
proof (induction s arbitrary: k)
  case (Cons y s)
  show ?case
  proof (cases k)
    case (Suc j)
    then have "f y < f x" using Cons.prems(1) [of y] by simp
    moreover have "take j (insort_key f x s) = take j s" using Cons Suc by simp
    ultimately show ?thesis using Suc by (simp add: not_le)
  qed simp
qed simp

lemma last_greatest:
  fixes f :: "'a \<Rightarrow> 'k::linorder"
  assumes "sorted (List.map f s)" "0 < k" "k \<le> length s" "y \<in> set (take k s)"
  shows "f y \<le> f (s ! (k - 1))"
proof -
  obtain i where i: "i < k" "y = s ! i" using assms(3,4) by (auto simp: in_set_conv_nth)
  then have "List.map f s ! i \<le> List.map f s ! (k - 1)" using assms by (intro sorted_nth_mono) auto
  then show ?thesis using i assms(2,3) by simp
qed

lemma root_is_last:
  assumes h: "is_heap h" "mset h = mset (take k s)" and s: "sorted (List.map rank s)" "0 < k" "k \<le> length s" "inj_on rank (set s)"
  shows "h ! 0 = s ! (k - 1)"
proof -
  have len: "length h = k" using mset_eq_length [OF h(2)] s(3) by simp
  have set: "set h = set (take k s)" using h(2) by (rule mset_eq_setD)
  have "take k s ! (k - 1) \<in> set (take k s)" using s(2,3) by (intro nth_mem) simp
  then have l: "s ! (k - 1) \<in> set (take k s)" using s(2) by simp
  then obtain n where n: "n < length h" "h ! n = s ! (k - 1)" using set by (metis in_set_conv_nth)
  have "rank (s ! (k - 1)) \<le> rank (h ! 0)" using heap_root [OF h(1) n(1)] n(2) by simp
  moreover have z: "h ! 0 \<in> set (take k s)" using set len s(2) nth_mem [of 0 h] by simp
  then have "rank (h ! 0) \<le> rank (s ! (k - 1))" by (rule last_greatest [OF s(1-3)])
  ultimately show ?thesis
    using s(4) z l by (meson antisym in_set_takeD inj_on_def)
qed

lemma heap_step_spec:
  assumes h: "is_heap h" "mset h = mset (take k (sort_key rank xs))" and k: "0 < k"
    and inj: "inj_on rank (insert c (set xs))" and c: "c \<notin> set xs"
  shows "is_heap (heap_step k h c) \<and> mset (heap_step k h c) = mset (take k (sort_key rank (xs @ [c])))"
proof -
  let ?s = "sort_key rank xs"
  have snoc: "sort_key rank (xs @ [c]) = insort_key rank c ?s"
    using inj by (intro sort_key_inj_key_eq) (auto simp: sorted_insort_key)
  have len: "length h = min k (length xs)" using mset_eq_length [OF h(2)] by (simp add: min.commute)
  show ?thesis
  proof (cases "length xs < k")
    case True
    then have "mset h = mset xs" "length h < k" using h(2) len by auto
    then show ?thesis using push_heap [OF h(1), of c] True by (simp add: heap_step_def snoc)
  next
    case False
    have root: "h ! 0 = ?s ! (k - 1)"
      using False inj k h by (intro root_is_last) (auto intro: inj_on_subset)
    have ne: "h \<noteq> []" using len False k by auto
    show ?thesis
    proof (cases "rank c < rank (h ! 0)")
      case True
      have "take k ?s = take (k - 1) ?s @ [?s ! (k - 1)]"
        using False k take_Suc_conv_app_nth [of "k - 1" ?s] by simp
      then have "mset (h[0 := c]) = mset (insort_key rank c (take (k - 1) ?s))"
        using ne h(2) root by (simp add: mset_update)
      then show ?thesis
        using True False k len replace_heap [OF h(1), of c] take_insort_less [of k ?s rank c] root
        by (simp add: heap_step_def snoc)
    next
      case Higher: False
      have "rank y < rank c" if "y \<in> set (take k ?s)" for y
      proof -
        have "rank y \<le> rank c"
          using last_greatest [of rank ?s k y] that False k Higher root by simp
        moreover have "y \<in> set xs" using that by (metis in_set_takeD set_sort)
        then have "rank y \<noteq> rank c" using c inj by (auto simp: inj_on_def)
        ultimately show ?thesis by simp
      qed
      then have "take k (insort_key rank c ?s) = take k ?s" using False by (intro take_insort_greater) auto
      then show ?thesis using Higher False len h by (simp add: heap_step_def snoc)
    qed
  qed
qed

lemma foldl_heap:
  assumes "0 < k" "inj_on rank (set xs)" "distinct xs"
  shows "is_heap (foldl (heap_step k) [] xs) \<and> mset (foldl (heap_step k) [] xs) = mset (take k (sort_key rank xs))"
  using assms(2,3)
proof (induction xs rule: rev_induct)
  case (snoc c xs)
  then show ?case
    using heap_step_spec [of "foldl (heap_step k) [] xs" k xs c] assms(1) by (simp add: inj_on_insert)
qed (simp add: is_heap_def)

section \<open>The final sort\<close>

lemma insert_by_rank: "rank x \<notin> rank ` set ys \<Longrightarrow> insert_by compare_ranked x ys = insort_key rank x ys"
  by (induction ys) (auto simp: compare_ranked_def not_less)

lemma js_sort_rank:
  assumes "inj_on rank (set xs)" "distinct xs"
  shows "js_sort compare_ranked xs = sort_key rank xs"
  using assms unfolding js_sort_def
proof (induction xs rule: rev_induct)
  case (snoc x xs)
  have "rank x \<notin> rank ` set (sort_key rank xs)" using snoc.prems by (auto simp: inj_on_def)
  moreover have "sort_key rank (xs @ [x]) = insort_key rank x (sort_key rank xs)"
    using snoc.prems by (intro sort_key_inj_key_eq) (auto simp: sorted_insort_key)
  ultimately show ?case using snoc by (simp add: insert_by_rank inj_on_insert)
qed simp

text \<open>Sorting by rank is the stable sort by decreasing timestamp.\<close>

lemma ranked_rows [simp]: "List.map rk_tx (ranked txs) = txs"
  by (simp add: ranked_def comp_def map_nth)

lemma distinct_ranked: "distinct (ranked txs)"
  by (auto simp: ranked_def distinct_map inj_on_def)

lemma sorted_idx_filter: "sorted (List.map rk_idx (filter P (ranked txs)))"
  by (rule sorted_filter) (simp add: ranked_def comp_def)

lemma sorted_by_rank:
  "sorted (List.map rank rs) \<Longrightarrow> sorted (List.map (\<lambda>r. - tx_timestamp (rk_tx r)) rs)"
  by (induction rs) (fastforce simp: rank_def less_eq_prod_def)+

lemma sort_rank_stable: "List.map rk_tx (sort_key rank (ranked txs)) = sort_key (\<lambda>t. - tx_timestamp t) txs"
proof (rule properties_for_sort_key [symmetric])
  show "mset (List.map rk_tx (sort_key rank (ranked txs))) = mset txs"
    by (metis mset_map mset_sort ranked_rows)
  show "sorted (List.map (\<lambda>t. - tx_timestamp t) (List.map rk_tx (sort_key rank (ranked txs))))"
    using sorted_by_rank [of "sort_key rank (ranked txs)"] by (simp add: comp_def)
  fix t
  let ?P = "\<lambda>r. - tx_timestamp t = - tx_timestamp (rk_tx r)"
  have "sorted (List.map rank (filter ?P (ranked txs)))"
    using sorted_idx_filter [of ?P txs] by (auto simp: sorted_wrt_map rank_def less_eq_prod_def intro: sorted_wrt_mono_rel [rotated])
  then have "sort_key rank (filter ?P (ranked txs)) = filter ?P (ranked txs)" by (rule sort_key_id_if_sorted)
  then have "filter ?P (sort_key rank (ranked txs)) = filter ?P (ranked txs)" by (simp add: filter_sort)
  then have "List.map rk_tx (filter ?P (sort_key rank (ranked txs))) = List.map rk_tx (filter ?P (ranked txs))" by simp
  then show "filter (\<lambda>x. - tx_timestamp t = - tx_timestamp x) (List.map rk_tx (sort_key rank (ranked txs))) =
      filter (\<lambda>x. - tx_timestamp t = - tx_timestamp x) txs"
    by (metis (no_types, lifting) filter_map comp_def filter_cong ranked_rows)
qed

lemma newest_first_take: "topKByTimestampDesc txs k = take (nat k) (sort_key (\<lambda>t. - tx_timestamp t) txs)"
proof (cases "k \<le> 0 \<or> txs = []")
  case True then show ?thesis by (auto simp: topKByTimestampDesc_def)
next
  case False
  let ?h = "foldl (heap_step (nat k)) [] (ranked txs)" and ?t = "take (nat k) (sort_key rank (ranked txs))"
  have m: "mset ?h = mset ?t" using foldl_heap [of "nat k" "ranked txs"] False inj_rank_ranked distinct_ranked by simp
  have d: "distinct ?t" using distinct_ranked by simp
  have i: "inj_on rank (set ?t)"
    using inj_rank_ranked [of txs] by (rule inj_on_subset) (use set_take_subset in fastforce)
  have sh: "set ?h = set ?t" using m by (rule mset_eq_setD)
  have "js_sort compare_ranked ?h = sort_key rank ?h"
    using i d sh m by (intro js_sort_rank) (metis mset_eq_imp_distinct_iff)+
  also have "\<dots> = ?t" using m i sh by (intro sort_key_inj_key_eq) (auto simp flip: take_map intro: sorted_wrt_take)
  finally show ?thesis using False by (simp add: topKByTimestampDesc_def sort_rank_stable flip: take_map)
qed

end
