(* ===== verification/Tx_State.thy ===== *)
theory Tx_State
  imports Tx_Ranking Rpc_World
begin

text \<open>
  The state of the transaction history view (src/dashboard/transaction-history.ts): the total
  reducer, the selectors with the cache keyed by the identity of the rows array, and the pages.
\<close>

section \<open>The state\<close>

text \<open>
  The rows array is kept by reference, since the selector cache is keyed by its identity: the
  world maps each array allocated so far to its rows (arrays are never changed), the next free
  reference, the cache, and the clock.  Reference 0 is the frozen array NO_TRANSACTIONS.
\<close>

record TransactionFilters =
  hf_status :: string
  hf_kind :: string
  hf_direction :: string
  hf_search :: string

record TransactionHistoryState =
  hs_transactions :: nat
  hs_filters :: TransactionFilters
  hs_page :: int
  hs_pageSize :: int
  hs_loading :: bool
  hs_error :: "string option"
  hs_lastUpdated :: rat

record SelectorCacheEntry =
  ce_signature :: string
  ce_filtered :: "TransactionRecord list"

record history_world =
  hw_arrays :: "nat \<Rightarrow> TransactionRecord list"
  hw_next :: nat
  hw_cache :: "nat \<Rightarrow> SelectorCacheEntry option"
  hw_now :: rat

datatype TransactionHistoryAction =
    LOAD_START
  | LOAD_SUCCESS jsval "jsnum option" "string option"
  | LOAD_FAILURE caught
  | SET_FILTER jsval
  | SET_PAGE jsval
  | SET_PAGE_SIZE jsval
  | RESET
  | Other_action

definition DEFAULT_PAGE_SIZE :: int where "DEFAULT_PAGE_SIZE = 10"

definition INITIAL_TRANSACTION_FILTERS :: TransactionFilters where
  "INITIAL_TRANSACTION_FILTERS = \<lparr> hf_status = ''ALL'', hf_kind = ''ALL'', hf_direction = ''ALL'', hf_search = [] \<rparr>"

definition new_array :: "TransactionRecord list \<Rightarrow> history_world \<Rightarrow> nat \<times> history_world" where
  "new_array rows w = (hw_next w, w\<lparr> hw_arrays := (hw_arrays w)(hw_next w := rows), hw_next := hw_next w + 1 \<rparr>)"

text \<open>The overrides of the initial state: an absent field keeps the base value.\<close>

record history_overrides =
  ov_transactions :: "nat option"
  ov_status :: "string option"
  ov_kind :: "string option"
  ov_direction :: "string option"
  ov_search :: "string option"
  ov_page :: "int option"
  ov_pageSize :: "int option"
  ov_loading :: "bool option"
  ov_error :: "string option option"
  ov_lastUpdated :: "rat option"

definition no_overrides :: history_overrides where
  "no_overrides = \<lparr> ov_transactions = None, ov_status = None, ov_kind = None, ov_direction = None, ov_search = None,
     ov_page = None, ov_pageSize = None, ov_loading = None, ov_error = None, ov_lastUpdated = None \<rparr>"

definition createInitialTransactionHistoryState ::
    "history_overrides \<Rightarrow> history_world \<Rightarrow> TransactionHistoryState \<times> history_world" where
  "createInitialTransactionHistoryState ov w =
    (let (base, w1) = new_array [] w; f = INITIAL_TRANSACTION_FILTERS in
     (\<lparr> hs_transactions = given_or base (ov_transactions ov),
        hs_filters = \<lparr> hf_status = given_or (hf_status f) (ov_status ov), hf_kind = given_or (hf_kind f) (ov_kind ov),
          hf_direction = given_or (hf_direction f) (ov_direction ov), hf_search = given_or (hf_search f) (ov_search ov) \<rparr>,
        hs_page = given_or 0 (ov_page ov), hs_pageSize = given_or DEFAULT_PAGE_SIZE (ov_pageSize ov),
        hs_loading = given_or False (ov_loading ov), hs_error = given_or None (ov_error ov),
        hs_lastUpdated = given_or 0 (ov_lastUpdated ov) \<rparr>, w1))"

section \<open>Selectors\<close>

definition clampPage :: "jsval \<Rightarrow> int \<Rightarrow> int" where
  "clampPage page totalPages =
    (case js_number page of
       Num r \<Rightarrow> (let floored = truncated r; maxPage = max 0 (totalPages - 1) in
         if floored < 0 then 0 else if maxPage < floored then maxPage else floored)
     | _ \<Rightarrow> 0)"

definition search_text :: "TransactionFilters \<Rightarrow> string" where
  "search_text f = lower_text (trim (hf_search f))"

definition signature_of :: "TransactionFilters \<Rightarrow> string" where
  "signature_of f = hf_status f @ '' '' @ hf_kind f @ '' '' @ hf_direction f @ '' '' @ search_text f"

definition filter_matches :: "TransactionFilters \<Rightarrow> TransactionRecord \<Rightarrow> bool" where
  "filter_matches f tx =
    (if hf_status f \<noteq> ''ALL'' \<and> tx_status tx \<noteq> hf_status f then False
     else if hf_kind f \<noteq> ''ALL'' \<and> tx_kind tx \<noteq> hf_kind f then False
     else if hf_direction f \<noteq> ''ALL'' \<and> tx_direction tx \<noteq> hf_direction f then False
     else if search_text f = [] then True
     else list_ex (\<lambda>field. contains_text (search_text f) (lower_text field))
            [tx_hash tx, tx_streamId tx, tx_counterparty tx, tx_asset tx])"

definition selectorEntry :: "TransactionHistoryState option \<Rightarrow> history_world \<Rightarrow> SelectorCacheEntry \<times> history_world" where
  "selectorEntry state w =
    (let rows = (case state of Some s \<Rightarrow> hs_transactions s | None \<Rightarrow> 0);
         f = (case state of Some s \<Rightarrow> hs_filters s | None \<Rightarrow> INITIAL_TRANSACTION_FILTERS);
         signature = signature_of f;
         fresh = \<lparr> ce_signature = signature, ce_filtered = filter (filter_matches f) (hw_arrays w rows) \<rparr>
     in case hw_cache w rows of
          Some e \<Rightarrow> if ce_signature e = signature then (e, w)
                     else (fresh, w\<lparr> hw_cache := (hw_cache w)(rows := Some fresh) \<rparr>)
        | None \<Rightarrow> (fresh, w\<lparr> hw_cache := (hw_cache w)(rows := Some fresh) \<rparr>))"

definition selectFilteredTransactions ::
    "TransactionHistoryState option \<Rightarrow> history_world \<Rightarrow> TransactionRecord list \<times> history_world" where
  "selectFilteredTransactions state w = (let (e, w1) = selectorEntry state w in (ce_filtered e, w1))"

definition page_size_of :: "TransactionHistoryState option \<Rightarrow> int" where
  "page_size_of state = max 1 (case state of Some s \<Rightarrow> hs_pageSize s | None \<Rightarrow> DEFAULT_PAGE_SIZE)"

text \<open>The number of pages: the rows over the page size, rounded up, and at least 1.\<close>

definition pages_for :: "nat \<Rightarrow> int \<Rightarrow> int" where
  "pages_for n pageSize = max 1 (\<lceil>of_nat n / (of_int pageSize :: rat)\<rceil>)"

definition array_slice :: "int \<Rightarrow> int \<Rightarrow> 'a list \<Rightarrow> 'a list" where
  "array_slice a b xs = take (nat (b - a)) (drop (nat a) xs)"

definition selectVisibleTransactions ::
    "TransactionHistoryState option \<Rightarrow> history_world \<Rightarrow> TransactionRecord list \<times> history_world" where
  "selectVisibleTransactions state w =
    (let (filtered, w1) = selectFilteredTransactions state w;
         pageSize = page_size_of state;
         totalPages = pages_for (length filtered) pageSize;
         page = clampPage (JNumber (Num (of_int (case state of Some s \<Rightarrow> hs_page s | None \<Rightarrow> 0)))) totalPages;
         start = page * pageSize
     in (array_slice start (start + pageSize) (topKByTimestampDesc filtered (start + pageSize)), w1))"

definition selectTotalPages :: "TransactionHistoryState option \<Rightarrow> history_world \<Rightarrow> int \<times> history_world" where
  "selectTotalPages state w =
    (let (e, w1) = selectorEntry state w in (pages_for (length (ce_filtered e)) (page_size_of state), w1))"

datatype view_status = View_loading | View_error | View_empty | View_ready

definition selectViewStatus :: "TransactionHistoryState option \<Rightarrow> history_world \<Rightarrow> view_status \<times> history_world" where
  "selectViewStatus state w =
    (let (current, w1) = (case state of Some s \<Rightarrow> (s, w) | None \<Rightarrow> createInitialTransactionHistoryState no_overrides w);
         (filtered, w2) = selectFilteredTransactions (Some current) w1;
         hasRows = (filtered \<noteq> [])
     in (if hs_loading current \<and> \<not> hasRows then View_loading
         else if hs_error current \<noteq> None \<and> \<not> hasRows then View_error
         else if \<not> hasRows then View_empty else View_ready, w2))"

section \<open>The reducer\<close>

text \<open>The fields of a filter change that are not undefined replace the current ones.\<close>

definition changed :: "jsval \<Rightarrow> string \<Rightarrow> (jsval \<Rightarrow> string) \<Rightarrow> string \<Rightarrow> string" where
  "changed raw k read current = (if field_of raw k = JUndefined then current else read (field_of raw k))"

definition changed_filters :: "jsval \<Rightarrow> TransactionFilters \<Rightarrow> TransactionFilters" where
  "changed_filters raw f =
    \<lparr> hf_status = changed raw ''status'' (\<lambda>v. asEnum v VALID_STATUSES ''ALL'') (hf_status f),
      hf_kind = changed raw ''kind'' (\<lambda>v. asEnum v VALID_KINDS ''ALL'') (hf_kind f),
      hf_direction = changed raw ''direction'' (\<lambda>v. asEnum v VALID_DIRECTIONS ''ALL'') (hf_direction f),
      hf_search = changed raw ''search'' (\<lambda>v. asString v []) (hf_search f) \<rparr>"

definition transactionHistoryReducer ::
    "(string \<Rightarrow> int option) \<Rightarrow> TransactionHistoryState option \<Rightarrow> TransactionHistoryAction option \<Rightarrow>
     history_world \<Rightarrow> TransactionHistoryState \<times> history_world" where
  "transactionHistoryReducer host_date state action w =
    (let (current, w1) = (case state of Some s \<Rightarrow> (s, w) | None \<Rightarrow> createInitialTransactionHistoryState no_overrides w) in
     case action of
       None \<Rightarrow> (current, w1)
     | Some LOAD_START \<Rightarrow> (current\<lparr> hs_loading := True, hs_error := None \<rparr>, w1)
     | Some (LOAD_SUCCESS payload receivedAt walletAddress) \<Rightarrow>
         (let transactions = normalizeTransactions host_date payload walletAddress;
              (rows, w2) = new_array transactions w1;
              totalPages = pages_for (length transactions) (max 1 (hs_pageSize current))
          in (current\<lparr> hs_transactions := rows, hs_loading := False, hs_error := None,
                hs_page := clampPage (JNumber (Num (of_int (hs_page current)))) totalPages,
                hs_lastUpdated := (case receivedAt of Some (Num r) \<Rightarrow> r | _ \<Rightarrow> hw_now w2) \<rparr>, w2))
     | Some (LOAD_FAILURE e) \<Rightarrow> (current\<lparr> hs_loading := False, hs_error := Some (toErrorMessage e LOAD_FAILED) \<rparr>, w1)
     | Some (SET_FILTER raw) \<Rightarrow>
         (current\<lparr> hs_filters := changed_filters raw (hs_filters current), hs_page := 0 \<rparr>, w1)
     | Some (SET_PAGE page) \<Rightarrow>
         (let (visible, w2) = selectFilteredTransactions (Some current) w1;
              totalPages = pages_for (length visible) (max 1 (hs_pageSize current))
          in (current\<lparr> hs_page := clampPage page totalPages \<rparr>, w2))
     | Some (SET_PAGE_SIZE pageSize) \<Rightarrow>
         (current\<lparr> hs_pageSize := (case js_number pageSize of
              Num r \<Rightarrow> if 0 < r then truncated r else DEFAULT_PAGE_SIZE | _ \<Rightarrow> DEFAULT_PAGE_SIZE), hs_page := 0 \<rparr>, w1)
     | Some RESET \<Rightarrow> createInitialTransactionHistoryState no_overrides w1
     | Some Other_action \<Rightarrow> (current, w1))"

section \<open>The helpers for a range of dates and a page\<close>

definition filterByDateRange :: "TransactionRecord list \<Rightarrow> jsnum \<Rightarrow> jsnum \<Rightarrow> TransactionRecord list" where
  "filterByDateRange history from_ms to_ms =
    (case (from_ms, to_ms) of
       (Num a, Num b) \<Rightarrow>
         if b < a then [] else filter (\<lambda>tx. a \<le> of_int (tx_timestamp tx) \<and> of_int (tx_timestamp tx) \<le> b) history
     | _ \<Rightarrow> [])"

definition paginateHistory :: "'a list \<Rightarrow> rat \<Rightarrow> rat \<Rightarrow> 'a list" where
  "paginateHistory history page pageSize =
    (let safePageSize = max 1 (truncated pageSize); safePage = max 0 (truncated page); start = safePage * safePageSize
     in if int (length history) \<le> start then [] else array_slice start (start + safePageSize) history)"

end
