(* ===== verification/Tx_Properties.thy ===== *)
theory Tx_Properties
  imports Tx_State
begin

text \<open>
  What the transaction history view promises: rows of the right type and without duplicates in
  every reachable state, a cache that never shows, pages that partition the rows newest first,
  and failures that lose nothing.
\<close>

section \<open>Pages of a bounded selection\<close>

text \<open>
  The contract between the pages and the selection of the newest rows: asked for k rows it gives
  the first k of an order of all rows.
\<close>

locale bounded_selection =
  fixes top :: "'a list \<Rightarrow> int \<Rightarrow> 'a list" and ordered :: "'a list \<Rightarrow> 'a list"
  assumes top_take: "top xs k = take (nat k) (ordered xs)"
    and ordered_length: "length (ordered xs) = length xs"
begin

lemma slice_top:
  assumes "0 \<le> p" "0 < s"
  shows "array_slice (p * s) (p * s + s) (top xs (p * s + s)) = take (nat s) (drop (nat p * nat s) (ordered xs))"
proof -
  have "nat (p * s + s) = nat p * nat s + nat s" using assms by (simp add: nat_add_distrib nat_mult_distrib)
  moreover have "nat (p * s) = nat p * nat s" using assms by (simp add: nat_mult_distrib)
  ultimately show ?thesis by (simp add: array_slice_def top_take drop_take)
qed

lemma slices_concat: "concat (List.map (\<lambda>p. take s (drop (p * s) ys)) [0..<n]) = take (n * s) ys"
proof (induction n)
  case (Suc n)
  then show ?case using take_add [of "n * s" s ys] by (simp add: add.commute)
qed simp

lemma pages_cover:
  assumes "0 < s" "int (length xs) \<le> int n * s"
  shows "concat (List.map (\<lambda>p. array_slice (int p * s) (int p * s + s) (top xs (int p * s + s))) [0..<n]) = ordered xs"
proof -
  have "int (length xs) \<le> int (n * nat s)" using assms by simp
  then have l: "length (ordered xs) \<le> n * nat s" unfolding ordered_length of_nat_le_iff .
  have m: "List.map (\<lambda>p. array_slice (int p * s) (int p * s + s) (top xs (int p * s + s))) [0..<n] =
      List.map (\<lambda>p. take (nat s) (drop (p * nat s) (ordered xs))) [0..<n]"
    using assms by (simp add: slice_top)
  show ?thesis unfolding m slices_concat using l by simp
qed

lemma page_not_empty:
  assumes "0 \<le> p" "0 < s" "p * s < int (length xs)"
  shows "array_slice (p * s) (p * s + s) (top xs (p * s + s)) \<noteq> []"
proof -
  have "int (nat p * nat s) < int (length xs)" using assms by simp
  then show ?thesis using assms by (simp add: slice_top ordered_length not_le del: of_nat_mult)
qed

end

definition newest_first :: "TransactionRecord list \<Rightarrow> TransactionRecord list" where
  "newest_first txs = sort_key (\<lambda>t. - tx_timestamp t) txs"

interpretation newest: bounded_selection topKByTimestampDesc newest_first
  by unfold_locales (simp_all add: newest_first_take newest_first_def)

section \<open>The number of pages\<close>

lemma pages_for_positive: "1 \<le> pages_for n s"
  by (simp add: pages_for_def)

lemma pages_for_enough: "0 < s \<Longrightarrow> int n \<le> pages_for n s * s"
proof -
  assume s: "0 < s"
  let ?q = "of_nat n / of_int s :: rat"
  have "?q \<le> of_int \<lceil>?q\<rceil>" by (rule le_of_int_ceiling)
  also have "\<dots> \<le> of_int (pages_for n s)" by (simp add: pages_for_def)
  finally have "of_nat n \<le> of_int (pages_for n s) * (of_int s :: rat)" using s by (simp add: pos_divide_le_eq)
  then show ?thesis by (metis of_int_le_iff of_int_mult of_int_of_nat_eq)
qed

lemma pages_for_tight: "0 < s \<Longrightarrow> 0 < n \<Longrightarrow> (pages_for n s - 1) * s < int n"
proof -
  assume s: "0 < s" and n: "0 < n"
  let ?q = "of_nat n / of_int s :: rat"
  have pos: "0 < ?q" using s n by simp
  then have "1 \<le> \<lceil>?q\<rceil>" by linarith
  then have "pages_for n s = \<lceil>?q\<rceil>" by (simp add: pages_for_def)
  moreover have "of_int (\<lceil>?q\<rceil> - 1) < ?q" using ceiling_correct [of ?q] by simp
  ultimately have "of_int (pages_for n s - 1) * of_int s < (of_nat n :: rat)" using s by (simp add: pos_less_divide_eq)
  then show ?thesis by (metis of_int_less_iff of_int_mult of_int_of_nat_eq)
qed

lemma clampPage_bounds: "1 \<le> n \<Longrightarrow> 0 \<le> clampPage v n \<and> clampPage v n < n"
  by (auto simp: clampPage_def Let_def split: jsnum.split)

lemma truncated_of_int [simp]: "truncated (of_int z) = z"
  by (simp add: truncated_def)

lemma clampPage_int: "clampPage (JNumber (Num (of_int z))) n = (if z < 0 then 0 else min z (max 0 (n - 1)))"
  by (auto simp: clampPage_def js_number_def Let_def)

section \<open>Filters and their signature\<close>

definition valid_filters :: "TransactionFilters \<Rightarrow> bool" where
  "valid_filters f =
    (hf_status f \<in> insert ''ALL'' (set VALID_STATUSES) \<and> hf_kind f \<in> insert ''ALL'' (set VALID_KINDS) \<and>
     hf_direction f \<in> insert ''ALL'' (set VALID_DIRECTIONS))"

lemma no_blank:
  assumes "valid_filters f"
  shows "CHR '' '' \<notin> set (hf_status f) \<and> CHR '' '' \<notin> set (hf_kind f) \<and> CHR '' '' \<notin> set (hf_direction f)"
  using assms by (auto simp: valid_filters_def VALID_STATUSES_def VALID_KINDS_def VALID_DIRECTIONS_def)

lemma split_blank:
  "a @ CHR '' '' # s = b @ CHR '' '' # t \<Longrightarrow> CHR '' '' \<notin> set a \<Longrightarrow> CHR '' '' \<notin> set b \<Longrightarrow> a = b \<and> s = t"
proof (induction a arbitrary: b)
  case Nil then show ?case by (cases b) auto
next
  case (Cons c a) then show ?case by (cases b) auto
qed

lemma signature_determines:
  assumes "valid_filters f" "valid_filters g" "signature_of f = signature_of g"
  shows "filter_matches f = filter_matches g"
proof -
  have "hf_status f = hf_status g \<and> hf_kind f = hf_kind g \<and> hf_direction f = hf_direction g \<and> search_text f = search_text g"
    using assms(3) no_blank [OF assms(1)] no_blank [OF assms(2)] unfolding signature_of_def
    by (auto dest!: split_blank)
  then show ?thesis by (simp add: filter_matches_def fun_eq_iff)
qed

lemma changed_filters_valid: "valid_filters f \<Longrightarrow> valid_filters (changed_filters raw f)"
  using asEnum_valid [of "''ALL''" "''ALL'' # l" for l]
  by (auto simp: valid_filters_def changed_filters_def changed_def asEnum_def Let_def split: jsval.splits)

section \<open>Reachable states\<close>

text \<open>
  Several states may be in use at once, as a rendering may look at an older one: the relation
  collects the states produced so far, over the one module-level cache.  The clock may advance
  at any time.
\<close>

definition fresh_history_world :: "rat \<Rightarrow> history_world" where
  "fresh_history_world now = \<lparr> hw_arrays = (\<lambda>_. []), hw_next = 1, hw_cache = (\<lambda>_. None), hw_now = now \<rparr>"

inductive history_reaches ::
    "(string \<Rightarrow> int option) \<Rightarrow> TransactionHistoryState set \<Rightarrow> history_world \<Rightarrow> bool" for host_date where
  no_state: "history_reaches host_date {} (fresh_history_world now)"
| first_state: "history_reaches host_date S w \<Longrightarrow> createInitialTransactionHistoryState no_overrides w = (s, w') \<Longrightarrow>
    history_reaches host_date (insert s S) w'"
| reduced: "history_reaches host_date S w \<Longrightarrow> s \<in> S \<Longrightarrow>
    transactionHistoryReducer host_date (Some s) action w = (s', w') \<Longrightarrow> history_reaches host_date (insert s' S) w'"
| selected: "history_reaches host_date S w \<Longrightarrow> s \<in> S \<Longrightarrow> selectorEntry (Some s) w = (e, w') \<Longrightarrow>
    history_reaches host_date S w'"
| nothing_selected: "history_reaches host_date S w \<Longrightarrow> selectorEntry None w = (e, w') \<Longrightarrow> history_reaches host_date S w'"
| time_passes: "history_reaches host_date S w \<Longrightarrow> history_reaches host_date S (w\<lparr> hw_now := now \<rparr>)"

definition rows_of :: "history_world \<Rightarrow> TransactionHistoryState \<Rightarrow> TransactionRecord list" where
  "rows_of w s = hw_arrays w (hs_transactions s)"

text \<open>What holds of the module's world, and of each state in it.\<close>

definition entry_ok :: "history_world \<Rightarrow> nat \<Rightarrow> SelectorCacheEntry \<Rightarrow> bool" where
  "entry_ok w r e = (\<exists>f. valid_filters f \<and> ce_signature e = signature_of f \<and>
     ce_filtered e = filter (filter_matches f) (hw_arrays w r))"

definition world_ok :: "history_world \<Rightarrow> bool" where
  "world_ok w = (hw_arrays w 0 = [] \<and> 0 < hw_next w \<and>
     (\<forall>r e. hw_cache w r = Some e \<longrightarrow> r < hw_next w \<and> entry_ok w r e))"

definition state_ok :: "history_world \<Rightarrow> TransactionHistoryState \<Rightarrow> bool" where
  "state_ok w s =
    (hs_transactions s < hw_next w \<and> distinct (List.map tx_id (rows_of w s)) \<and> list_all well_formed_row (rows_of w s) \<and>
     valid_filters (hs_filters s) \<and> 0 \<le> hs_page s \<and> 0 \<le> hs_pageSize s \<and> hs_error s \<noteq> Some [])"

text \<open>One world extends another when it keeps every array of it.\<close>

definition extends_world :: "history_world \<Rightarrow> history_world \<Rightarrow> bool" where
  "extends_world w w' = (hw_next w \<le> hw_next w' \<and> (\<forall>r < hw_next w. hw_arrays w' r = hw_arrays w r))"

lemma extends_refl [simp]: "extends_world w w"
  by (simp add: extends_world_def)

lemma state_ok_extends: "state_ok w s \<Longrightarrow> extends_world w w' \<Longrightarrow> state_ok w' s"
  by (auto simp: state_ok_def extends_world_def rows_of_def)

lemma valid_initial [simp]: "valid_filters INITIAL_TRANSACTION_FILTERS"
  by (simp add: valid_filters_def INITIAL_TRANSACTION_FILTERS_def)

section \<open>Steps keep the invariant\<close>

lemma new_array_facts:
  assumes "new_array rows w = (r, w')" "world_ok w"
  shows "world_ok w' \<and> extends_world w w' \<and> hw_arrays w' r = rows \<and> r < hw_next w'"
  using assms by (fastforce simp: new_array_def world_ok_def extends_world_def entry_ok_def)

lemma selector_value:
  assumes "world_ok w" "valid_filters f"
    and "f = (case state of Some s \<Rightarrow> hs_filters s | None \<Rightarrow> INITIAL_TRANSACTION_FILTERS)"
    and "r = (case state of Some s \<Rightarrow> hs_transactions s | None \<Rightarrow> 0)" and "r < hw_next w"
    and "selectorEntry state w = (e, w')"
  shows "ce_filtered e = filter (filter_matches f) (hw_arrays w r) \<and> world_ok w' \<and> extends_world w w'"
proof -
  let ?fresh = "\<lparr> ce_signature = signature_of f, ce_filtered = filter (filter_matches f) (hw_arrays w r) \<rparr>"
  show ?thesis
  proof (cases "hw_cache w r = None \<or> ce_signature (the (hw_cache w r)) \<noteq> signature_of f")
    case True
    then have "e = ?fresh \<and> w' = w\<lparr> hw_cache := (hw_cache w)(r := Some ?fresh) \<rparr>"
      using assms(6) unfolding selectorEntry_def assms(3,4) [symmetric] Let_def by (auto split: option.splits)
    then show ?thesis using assms(1,2,5) by (auto simp: world_ok_def entry_ok_def extends_world_def)
  next
    case False
    then have e: "hw_cache w r = Some e" "ce_signature e = signature_of f" "w' = w"
      using assms(6) unfolding selectorEntry_def assms(3,4) [symmetric] Let_def by (auto split: option.splits if_splits)
    then obtain g where g: "valid_filters g" "signature_of f = signature_of g" "ce_filtered e = filter (filter_matches g) (hw_arrays w r)"
      using assms(1) unfolding world_ok_def entry_ok_def by metis
    then show ?thesis using signature_determines [OF assms(2) g(1,2)] e assms(1) by simp
  qed
qed

lemma selected_rows:
  assumes "world_ok w" "state_ok w s" "selectorEntry (Some s) w = (e, w')"
  shows "ce_filtered e = filter (filter_matches (hs_filters s)) (rows_of w s) \<and> world_ok w' \<and> extends_world w w'"
  unfolding rows_of_def
  by (rule selector_value [OF assms(1) _ _ _ _ assms(3)]) (use assms(2) in \<open>simp_all add: state_ok_def\<close>)

lemma initial_ok:
  assumes "createInitialTransactionHistoryState no_overrides w = (s, w')" "world_ok w"
  shows "world_ok w' \<and> extends_world w w' \<and> state_ok w' s"
proof -
  obtain r w1 where n: "new_array [] w = (r, w1)" by fastforce
  show ?thesis
    using assms(1) new_array_facts [OF n assms(2)] n
    by (auto simp: createInitialTransactionHistoryState_def INITIAL_TRANSACTION_FILTERS_def valid_filters_def no_overrides_def given_or_def state_ok_def rows_of_def DEFAULT_PAGE_SIZE_def)
qed

lemma normalized_all: "t \<in> set (all_rows host_date w entries) \<Longrightarrow> well_formed_row t"
  by (auto simp: all_rows_def normalized_well_formed split: option.splits)

lemma set_firsts: "set (firsts kvs) \<subseteq> set kvs"
  by (induction kvs) auto

lemma normalizeTransactions_ok:
  "distinct (List.map tx_id (normalizeTransactions host_date payload w)) \<and>
   list_all well_formed_row (normalizeTransactions host_date payload w)"
proof (cases "payload_list payload")
  case (JArray entries)
  have "set (first_rows ts) \<subseteq> set ts" for ts
    using set_firsts [of "List.map (\<lambda>t. (tx_id t, t)) ts"] by (fastforce simp: first_rows_def)
  then show ?thesis
    using JArray normalized_all [of _ host_date w entries] ids_first_rows distinct_firsts
    by (fastforce simp: normalizeTransactions_def normalized_rows_first list_all_iff)
qed (simp_all add: normalizeTransactions_def)

lemma truncated_nonneg: "0 < r \<Longrightarrow> 0 \<le> truncated r"
  by (simp add: truncated_def)

lemma toErrorMessage_nonempty: "fallback \<noteq> [] \<Longrightarrow> toErrorMessage e fallback \<noteq> []"
  by (auto simp: toErrorMessage_def trim_def split: caught.split jsval.split)

lemma clamp_nonneg [simp]: "0 \<le> clampPage v n"
  by (auto simp: clampPage_def Let_def split: jsnum.split)

lemma reducer_ok:
  assumes w: "world_ok w" and s: "state_ok w s" and r: "transactionHistoryReducer host_date (Some s) action w = (s', w')"
  shows "world_ok w' \<and> extends_world w w' \<and> state_ok w' s'"
proof (cases action)
  case None then show ?thesis using assms by (simp add: transactionHistoryReducer_def)
next
  case (Some a)
  show ?thesis
  proof (cases a)
    case (LOAD_SUCCESS payload receivedAt wallet)
    let ?t = "normalizeTransactions host_date payload wallet"
    obtain x w2 where n: "new_array ?t w = (x, w2)" by fastforce
    have "state_ok w2 s" using s new_array_facts [OF n w] state_ok_extends by blast
    then show ?thesis
      using r Some LOAD_SUCCESS new_array_facts [OF n w] n normalizeTransactions_ok [of host_date payload wallet]
      by (auto simp: transactionHistoryReducer_def state_ok_def rows_of_def)
  next
    case (SET_PAGE p)
    obtain e w2 where e: "selectorEntry (Some s) w = (e, w2)" by fastforce
    have "state_ok w2 s" using s selected_rows [OF w s e] state_ok_extends by blast
    then show ?thesis
      using r Some SET_PAGE e selected_rows [OF w s e]
      by (auto simp: transactionHistoryReducer_def selectFilteredTransactions_def state_ok_def rows_of_def)
  next
    case RESET then show ?thesis using r Some initial_ok w by (simp add: transactionHistoryReducer_def)
  next
    case (LOAD_FAILURE e)
    have "toErrorMessage e LOAD_FAILED \<noteq> []" by (rule toErrorMessage_nonempty) (simp add: LOAD_FAILED_def)
    then show ?thesis using assms Some LOAD_FAILURE by (auto simp: transactionHistoryReducer_def state_ok_def rows_of_def)
  next
    case (SET_PAGE_SIZE v)
    then show ?thesis using assms Some
      by (auto simp: transactionHistoryReducer_def state_ok_def rows_of_def truncated_nonneg DEFAULT_PAGE_SIZE_def split: jsnum.split)
  qed (use assms Some in \<open>auto simp: transactionHistoryReducer_def state_ok_def rows_of_def changed_filters_valid\<close>)
qed

lemma reaches_ok: "history_reaches host_date S w \<Longrightarrow> world_ok w \<and> (\<forall>s \<in> S. state_ok w s)"
proof (induction rule: history_reaches.induct)
  case (no_state now)
  then show ?case by (simp add: world_ok_def fresh_history_world_def)
next
  case (first_state S w s w')
  then show ?case using initial_ok [of w s w'] state_ok_extends [of w _ w'] by auto
next
  case (reduced S w s action s' w')
  then show ?case using reducer_ok [of w s host_date action s' w'] state_ok_extends [of w _ w'] by auto
next
  case (selected S w s e w')
  then show ?case using selected_rows [of w s e w'] state_ok_extends [of w _ w'] by auto
next
  case (nothing_selected S w e w')
  then have "world_ok w' \<and> extends_world w w'"
    using selector_value [of w INITIAL_TRANSACTION_FILTERS None 0 e w'] by (simp add: world_ok_def)
  then show ?case using nothing_selected state_ok_extends [of w _ w'] by auto
next
  case (time_passes S w now)
  then have "extends_world w (w\<lparr> hw_now := now \<rparr>)" by (simp add: extends_world_def)
  then show ?case using time_passes state_ok_extends by (fastforce simp: world_ok_def entry_ok_def)
qed

section \<open>What the selectors return in a reachable state\<close>

definition matching :: "history_world \<Rightarrow> TransactionHistoryState \<Rightarrow> TransactionRecord list" where
  "matching w s = filter (filter_matches (hs_filters s)) (rows_of w s)"

lemma selected_value:
  assumes "world_ok w" "state_ok w s"
  obtains w' where "selectFilteredTransactions (Some s) w = (matching w s, w')" "world_ok w'" "extends_world w w'"
proof -
  obtain e w' where e: "selectorEntry (Some s) w = (e, w')" by fastforce
  then show thesis using selected_rows [OF assms e] by (intro that [of w']) (simp_all add: selectFilteredTransactions_def matching_def)
qed

lemma total_pages:
  assumes "world_ok w" "state_ok w s"
  shows "fst (selectTotalPages (Some s) w) = pages_for (length (matching w s)) (page_size_of (Some s))"
proof -
  obtain e w' where e: "selectorEntry (Some s) w = (e, w')" by fastforce
  then show ?thesis using selected_rows [OF assms e] by (simp add: selectTotalPages_def matching_def)
qed

definition shown_page :: "history_world \<Rightarrow> TransactionHistoryState \<Rightarrow> int" where
  "shown_page w s = min (hs_page s) (pages_for (length (matching w s)) (page_size_of (Some s)) - 1)"

lemma visible_rows:
  assumes "world_ok w" "state_ok w s"
  shows "fst (selectVisibleTransactions (Some s) w) =
    (let n = page_size_of (Some s); p = shown_page w s in
     array_slice (p * n) (p * n + n) (topKByTimestampDesc (matching w s) (p * n + n)))"
proof -
  obtain w' where e: "selectFilteredTransactions (Some s) w = (matching w s, w')" by (rule selected_value [OF assms])
  have "0 \<le> hs_page s" using assms(2) by (simp add: state_ok_def)
  then show ?thesis
    using e pages_for_positive [of "length (matching w s)" "page_size_of (Some s)"]
    by (simp add: selectVisibleTransactions_def clampPage_int shown_page_def Let_def)
qed

lemma page_size_positive [simp]: "0 < page_size_of s"
  by (simp add: page_size_of_def)

lemma view_status:
  assumes "world_ok w" "state_ok w s"
  shows "fst (selectViewStatus (Some s) w) =
    (if matching w s \<noteq> [] then View_ready else if hs_loading s then View_loading
     else if hs_error s \<noteq> None then View_error else View_empty)"
proof -
  obtain w' where e: "selectFilteredTransactions (Some s) w = (matching w s, w')" by (rule selected_value [OF assms])
  then show ?thesis by (simp add: selectViewStatus_def)
qed

lemma visible_not_empty:
  assumes "world_ok w" "state_ok w s"
  shows "fst (selectVisibleTransactions (Some s) w) \<noteq> [] \<longleftrightarrow> matching w s \<noteq> []"
proof
  assume ne: "matching w s \<noteq> []"
  let ?n = "page_size_of (Some s)" and ?p = "shown_page w s"
  have "0 \<le> ?p" using assms(2) pages_for_positive [of "length (matching w s)" ?n] by (simp add: shown_page_def state_ok_def)
  moreover have "?p * ?n \<le> (pages_for (length (matching w s)) ?n - 1) * ?n"
    by (intro mult_right_mono) (simp_all add: shown_page_def less_imp_le)
  then have "?p * ?n < int (length (matching w s))"
    by (rule le_less_trans) (use pages_for_tight [of ?n "length (matching w s)"] ne in simp)
  ultimately show "fst (selectVisibleTransactions (Some s) w) \<noteq> []"
    using newest.page_not_empty [of ?p ?n "matching w s"] by (simp add: visible_rows [OF assms] Let_def)
next
  assume "fst (selectVisibleTransactions (Some s) w) \<noteq> []"
  then show "matching w s \<noteq> []"
    by (auto simp: visible_rows [OF assms] Let_def topKByTimestampDesc_def array_slice_def)
qed

lemma pages_of_a_state:
  assumes "world_ok w" "state_ok w s"
  shows "concat (List.map (\<lambda>p. fst (selectVisibleTransactions (Some (s\<lparr> hs_page := int p \<rparr>)) w))
      [0..<nat (fst (selectTotalPages (Some s) w))]) = newest_first (matching w s)"
proof -
  let ?n = "page_size_of (Some s)"
  let ?t = "pages_for (length (matching w s)) ?n"
  have page: "fst (selectVisibleTransactions (Some (s\<lparr> hs_page := int p \<rparr>)) w) =
      array_slice (int p * ?n) (int p * ?n + ?n) (topKByTimestampDesc (matching w s) (int p * ?n + ?n))"
    if "int p < ?t" for p
  proof -
    let ?s = "s\<lparr> hs_page := int p \<rparr>"
    have m: "matching w ?s = matching w s" "page_size_of (Some ?s) = ?n"
      by (simp_all add: matching_def rows_of_def page_size_of_def)
    have "state_ok w ?s" using assms(2) by (simp add: state_ok_def rows_of_def)
    moreover have "shown_page w ?s = int p" using that by (simp add: shown_page_def m)
    ultimately show ?thesis using visible_rows [OF assms(1), of ?s] by (simp add: m Let_def)
  qed
  have pages: "List.map (\<lambda>p. fst (selectVisibleTransactions (Some (s\<lparr> hs_page := int p \<rparr>)) w)) [0..<nat ?t] =
      List.map (\<lambda>p. array_slice (int p * ?n) (int p * ?n + ?n) (topKByTimestampDesc (matching w s) (int p * ?n + ?n))) [0..<nat ?t]"
    by (intro map_cong refl page) auto
  show ?thesis
    unfolding total_pages [OF assms] pages
    by (rule newest.pages_cover) (use pages_for_enough [of ?n "length (matching w s)"] pages_for_positive [of "length (matching w s)" ?n] in auto)
qed

section \<open>A sample history\<close>

definition sample_row :: "string \<Rightarrow> int \<Rightarrow> jsval" where
  "sample_row ident t = JObject [(''id'', JString ident), (''kind'', JString ''withdraw''), (''timestamp'', JNumber (Num (of_int t)))]"

definition sample_payload :: jsval where
  "sample_payload = JObject [(''transactions'', JArray
     [sample_row ''a'' 1700000000000, JNull, sample_row ''b'' 1700000001, sample_row ''a'' 5, sample_row ''c'' 1700000000000])]"

definition sample_start :: "TransactionHistoryState \<times> history_world" where
  "sample_start = createInitialTransactionHistoryState no_overrides (fresh_history_world 0)"

definition sample_step :: "TransactionHistoryAction \<Rightarrow> TransactionHistoryState \<times> history_world \<Rightarrow> TransactionHistoryState \<times> history_world" where
  "sample_step a sw = transactionHistoryReducer Map.empty (Some (fst sw)) (Some a) (snd sw)"

definition sample_loaded :: "TransactionHistoryState \<times> history_world" where
  "sample_loaded = sample_step (SET_PAGE (JNumber (Num 1))) (sample_step (SET_PAGE_SIZE (JNumber (Num 2)))
     (sample_step (LOAD_SUCCESS sample_payload None (Some ''GABC'')) sample_start))"

lemma sample_step_reaches:
  "\<exists>S. history_reaches Map.empty S (snd sw) \<and> fst sw \<in> S \<Longrightarrow>
   \<exists>S. history_reaches Map.empty S (snd (sample_step a sw)) \<and> fst (sample_step a sw) \<in> S"
  unfolding sample_step_def by (metis history_reaches.reduced insertI1 prod.collapse)

lemma sample_reaches: "\<exists>S. history_reaches Map.empty S (snd sample_loaded) \<and> fst sample_loaded \<in> S"
proof -
  have "history_reaches Map.empty (insert (fst sample_start) {}) (snd sample_start)"
    unfolding sample_start_def by (rule history_reaches.first_state [OF history_reaches.no_state]) simp
  then show ?thesis unfolding sample_loaded_def by (intro sample_step_reaches) blast
qed

section \<open>Properties\<close>

text \<open>
  In every state the view can reach, whatever the indexer sent and in whatever order the actions
  came: each row has a name of its own and a known status, kind and direction, the filters are
  valid, the page and the page size are not negative, and a reported error has a message.
\<close>
theorem history_state_invariant:
  assumes "history_reaches host_date S w" "s \<in> S"
  shows "distinct (List.map tx_id (rows_of w s)) \<and> list_all well_formed_row (rows_of w s) \<and>
    valid_filters (hs_filters s) \<and> 0 \<le> hs_page s \<and> 0 \<le> hs_pageSize s \<and> hs_error s \<noteq> Some []"
  using reaches_ok [OF assms(1)] assms(2) by (auto simp: state_ok_def)

lemma history_state_invariant_witness:
  "distinct (List.map tx_id (rows_of (snd sample_loaded) (fst sample_loaded)))"
  using sample_reaches history_state_invariant by blast

text \<open>
  C22: The selector cache never shows: for every state reached so far, the newest or an older one,
  selectFilteredTransactions returns the rows of that state's array that match its filters,
  although the cache keeps one entry per array and recognises filters by a joined text.
\<close>
theorem selector_cache_transparent:
  assumes "history_reaches host_date S w" "s \<in> S"
  shows "fst (selectFilteredTransactions (Some s) w) = filter (filter_matches (hs_filters s)) (rows_of w s)"
  using reaches_ok [OF assms(1)] assms(2) selected_value [of w s] by (metis fst_conv matching_def)

lemma selector_cache_transparent_witness:
  "fst (selectFilteredTransactions (Some (fst sample_loaded)) (snd sample_loaded)) =
    filter (filter_matches (hs_filters (fst sample_loaded))) (rows_of (snd sample_loaded) (fst sample_loaded))"
  using sample_reaches selector_cache_transparent by blast

text \<open>
  C21: The pages the view shows, one after the other up to selectTotalPages, are all the matching rows
  sorted stably by decreasing timestamp: none is skipped or shown twice, equal timestamps included.
\<close>
theorem view_pages_partition:
  assumes "history_reaches host_date S w" "s \<in> S"
  shows "concat (List.map (\<lambda>p. fst (selectVisibleTransactions (Some (s\<lparr> hs_page := int p \<rparr>)) w))
      [0..<nat (fst (selectTotalPages (Some s) w))]) =
    sort_key (\<lambda>t. - tx_timestamp t) (filter (filter_matches (hs_filters s)) (rows_of w s))"
  using pages_of_a_state [of w s] reaches_ok [OF assms(1)] assms(2) by (simp add: newest_first_def matching_def)

lemma view_pages_partition_witness:
  "concat (List.map (\<lambda>p. fst (selectVisibleTransactions (Some ((fst sample_loaded)\<lparr> hs_page := int p \<rparr>)) (snd sample_loaded)))
      [0..<nat (fst (selectTotalPages (Some (fst sample_loaded)) (snd sample_loaded)))]) =
    sort_key (\<lambda>t. - tx_timestamp t) (filter (filter_matches (hs_filters (fst sample_loaded))) (rows_of (snd sample_loaded) (fst sample_loaded)))"
  using sample_reaches view_pages_partition by blast

text \<open>
  C10: The bounded heap selection of k rows is the first k rows of the stable sort by decreasing
  timestamp, for every k and every list.
\<close>
theorem top_k_is_stable_sort:
  "topKByTimestampDesc txs k = take (nat k) (sort_key (\<lambda>t. - tx_timestamp t) txs)"
  by (rule newest_first_take)

text \<open>
  The view never draws a table without rows: its status is ready exactly when the page it shows
  has a row, whatever page the state remembers.
\<close>
theorem ready_has_rows:
  assumes "history_reaches host_date S w" "s \<in> S"
  shows "fst (selectViewStatus (Some s) w) = View_ready \<longleftrightarrow> fst (selectVisibleTransactions (Some s) w) \<noteq> []"
  using view_status [of w s] visible_not_empty [of w s] reaches_ok [OF assms(1)] assms(2) by auto

lemma ready_has_rows_witness:
  "fst (selectViewStatus (Some (fst sample_loaded)) (snd sample_loaded)) = View_ready \<longleftrightarrow>
   fst (selectVisibleTransactions (Some (fst sample_loaded)) (snd sample_loaded)) \<noteq> []"
  using sample_reaches ready_has_rows by blast

lemma toErrorMessage_readable: "trim fallback \<noteq> [] \<Longrightarrow> trim (toErrorMessage e fallback) \<noteq> []"
  by (auto simp: toErrorMessage_def split: caught.split jsval.split)

lemma load_failed_readable: "trim LOAD_FAILED \<noteq> []"
  by (simp add: LOAD_FAILED_def trim_def is_space_def)

text \<open>
  C24: A failed load degrades to stale data: the rows, filters and page stay, loading ends, a readable
  message is recorded whatever was thrown, and the view reports the error exactly when there is
  no row to show.
\<close>
theorem failed_load_keeps_rows:
  assumes "history_reaches host_date S w" "s \<in> S"
    and "transactionHistoryReducer host_date (Some s) (Some (LOAD_FAILURE e)) w = (s', w')"
  shows "rows_of w' s' = rows_of w s \<and> hs_filters s' = hs_filters s \<and> hs_page s' = hs_page s \<and> \<not> hs_loading s' \<and>
    (\<exists>m. hs_error s' = Some m \<and> trim m \<noteq> []) \<and>
    fst (selectViewStatus (Some s') w') = (if filter (filter_matches (hs_filters s)) (rows_of w s) = [] then View_error else View_ready)"
proof -
  have eq: "s' = s\<lparr> hs_loading := False, hs_error := Some (toErrorMessage e LOAD_FAILED) \<rparr>" "w' = w"
    using assms(3) by (simp_all add: transactionHistoryReducer_def)
  have "world_ok w" "state_ok w s" using reaches_ok [OF assms(1)] assms(2) by auto
  moreover have "state_ok w s'" using reducer_ok [OF calculation assms(3)] eq(2) by simp
  ultimately show ?thesis
    using view_status [of w s'] toErrorMessage_readable [OF load_failed_readable, of e]
    by (simp add: eq rows_of_def matching_def)
qed

lemma failed_load_keeps_rows_witness:
  "rows_of (snd (sample_step (LOAD_FAILURE (Caught_value JNull)) sample_loaded)) (fst (sample_step (LOAD_FAILURE (Caught_value JNull)) sample_loaded)) =
   rows_of (snd sample_loaded) (fst sample_loaded)"
  using sample_reaches failed_load_keeps_rows [of Map.empty _ "snd sample_loaded" "fst sample_loaded" "Caught_value JNull"]
  unfolding sample_step_def by (metis prod.collapse)

text \<open>
  normalizeTransactions is total and keeps, in order, the first row of each id among the records
  that have an identity; it drops nothing else, and the rows are well formed.
\<close>
theorem normalized_payload:
  "normalizeTransactions host_date payload w =
    (case payload_list payload of JArray entries \<Rightarrow> first_rows (all_rows host_date w entries) | _ \<Rightarrow> []) \<and>
   distinct (List.map tx_id (normalizeTransactions host_date payload w)) \<and>
   list_all well_formed_row (normalizeTransactions host_date payload w)"
  using normalizeTransactions_ok by (simp add: normalizeTransactions_def normalized_rows_first split: jsval.split)

text \<open>
  SET_PAGE stores a page of the current filters whatever it is given, a NaN, a fraction or a
  page too far included, and leaves rows and filters alone.
\<close>
theorem set_page_in_range:
  assumes "history_reaches host_date S w" "s \<in> S"
    and "transactionHistoryReducer host_date (Some s) (Some (SET_PAGE v)) w = (s', w')"
  shows "0 \<le> hs_page s' \<and> hs_page s' < fst (selectTotalPages (Some s') w') \<and> rows_of w' s' = rows_of w s \<and>
    hs_filters s' = hs_filters s"
proof -
  have ok: "world_ok w" "state_ok w s" using reaches_ok [OF assms(1)] assms(2) by auto
  then obtain w1 where f: "selectFilteredTransactions (Some s) w = (matching w s, w1)" "extends_world w w1"
    by (rule selected_value)
  let ?n = "pages_for (length (matching w s)) (max 1 (hs_pageSize s))"
  have eq: "s' = s\<lparr> hs_page := clampPage v ?n \<rparr>" "w' = w1"
    using assms(3) f by (simp_all add: transactionHistoryReducer_def)
  have rows: "rows_of w' s' = rows_of w s" using f(2) ok(2) by (simp add: eq rows_of_def extends_world_def state_ok_def)
  have "fst (selectTotalPages (Some s') w') = pages_for (length (matching w' s')) (page_size_of (Some s'))"
    using total_pages reducer_ok [OF ok assms(3)] by blast
  also have "\<dots> = ?n" using rows by (simp add: eq matching_def page_size_of_def)
  finally show ?thesis using clampPage_bounds [OF pages_for_positive] rows by (simp add: eq)
qed

lemma set_page_in_range_witness:
  "0 \<le> hs_page (fst (sample_step (SET_PAGE (JString ''99'')) sample_loaded))"
  using sample_reaches set_page_in_range [of Map.empty _ "snd sample_loaded" "fst sample_loaded" "JString ''99''"]
  unfolding sample_step_def by (metis prod.collapse)

end
