(* ===== verification/Tx_Export.thy ===== *)
theory Tx_Export
  imports Tx_Records
begin

text \<open>
  The display formats of the transaction history and its export to CSV and JSON
  (src/dashboard/transaction-history.ts), with a reader of CSV that gives the exported cells back.
\<close>

section \<open>Display formats\<close>

text \<open>The em dash and the ellipsis, in UTF-8.\<close>

definition em_dash :: string where "em_dash = [CHR 0xE2, CHR 0x80, CHR 0x94]"
definition ellipsis :: string where "ellipsis = [CHR 0xE2, CHR 0x80, CHR 0xA6]"

definition suffix_of :: "nat \<Rightarrow> string \<Rightarrow> string" where
  "suffix_of n s = drop (length s - n) s"

definition shortened :: "nat \<Rightarrow> string \<Rightarrow> string" where
  "shortened h value = take h value @ ellipsis @ suffix_of 4 value"

text \<open>A head of NaN characters takes none; Math.max keeps a NaN.\<close>

definition formatAddress :: "jsval \<Rightarrow> jsnum \<Rightarrow> string" where
  "formatAddress addr visible =
    (let value = asString addr [] in
     if value = [] then em_dash
     else case visible of
       Num r \<Rightarrow> (let h = nat (max 2 (truncated r)) in if length value \<le> h + 4 + 1 then value else shortened h value)
     | Infinity \<Rightarrow> value
     | NegInfinity \<Rightarrow> (if length value \<le> 2 + 4 + 1 then value else shortened 2 value)
     | NaN \<Rightarrow> shortened 0 value)"

text \<open>The text -?\d+, its sign and its digits.\<close>

definition unsigned_part :: "string \<Rightarrow> string" where
  "unsigned_part s = (if s \<noteq> [] \<and> hd s = CHR ''-'' then tl s else s)"

definition is_integer_text :: "string \<Rightarrow> bool" where
  "is_integer_text s = (unsigned_part s \<noteq> [] \<and> list_all is_digit (unsigned_part s))"

text \<open>Leading zeros go while a digit follows.\<close>

fun strip_zeros :: "string \<Rightarrow> string" where
  "strip_zeros (c # d # s) = (if c = CHR ''0'' then strip_zeros (d # s) else c # d # s)"
| "strip_zeros s = s"

definition strip_trailing :: "string \<Rightarrow> string" where
  "strip_trailing s = rev (dropWhile (\<lambda>c. c = CHR ''0'') (rev s))"

text \<open>A comma goes before each digit, but the first, with a multiple of three digits from it on.\<close>

fun grouped :: "bool \<Rightarrow> string \<Rightarrow> string" where
  "grouped inside [] = []"
| "grouped inside (c # s) = (if inside \<and> length (c # s) mod 3 = 0 then CHR '','' # c # grouped True s else c # grouped True s)"

definition places_of :: "jsnum \<Rightarrow> nat" where
  "places_of decimals = (case decimals of Num r \<Rightarrow> nat (max 0 (truncated r)) | _ \<Rightarrow> 7)"

definition formatAmount :: "jsval \<Rightarrow> jsnum \<Rightarrow> string" where
  "formatAmount v decimals =
    (let raw = trim (asString v ''0'') in
     if \<not> is_integer_text raw then ''0''
     else
       let negative = (hd raw = CHR ''-''); digits = unsigned_part raw; places = places_of decimals;
           zero_padded = pad_start (places + 1) CHR ''0'' digits;
           whole = strip_zeros (take (length zero_padded - places) zero_padded);
           fraction = (if places = 0 then [] else drop (length zero_padded - places) zero_padded);
           trimmedFraction = strip_trailing fraction;
           formattedWhole = grouped False whole;
           isZero = (formattedWhole = ''0'' \<and> trimmedFraction = []);
           sign = (if negative \<and> \<not> isZero then ''-'' else [])
       in if trimmedFraction = [] then sign @ formattedWhole
          else sign @ formattedWhole @ CHR ''.'' # trimmedFraction)"

text \<open>
  A date is invalid beyond 8640000000000000 milliseconds; toISOString has years of four digits
  in the model, and the range of the texts below is the first 9999 years.
\<close>

definition formatTimestamp :: "(string \<Rightarrow> int option) \<Rightarrow> jsval \<Rightarrow> string" where
  "formatTimestamp host_date timestamp =
    (let ms = asTimestamp host_date timestamp in
     if ms = 0 then em_dash
     else if 8640000000000000 < \<bar>ms\<bar> then em_dash
     else take 19 (List.map (\<lambda>c. if c = CHR ''T'' then CHR '' '' else c) (toISOString ms)))"

section \<open>Export\<close>

record ExportTransactionsOptions =
  eo_formatAmounts :: "bool option"
  eo_decimals :: "jsnum option"
  eo_formatAddresses :: "bool option"
  eo_visibleAddressChars :: "jsnum option"
  eo_formatTimestamps :: "bool option"
  eo_includeHeader :: "bool option"
  eo_pretty :: "bool option"

definition no_export_options :: ExportTransactionsOptions where
  "no_export_options = \<lparr> eo_formatAmounts = None, eo_decimals = None, eo_formatAddresses = None,
     eo_visibleAddressChars = None, eo_formatTimestamps = None, eo_includeHeader = None, eo_pretty = None \<rparr>"

definition escapeCsvCell :: "jsval \<Rightarrow> string" where
  "escapeCsvCell v =
    (if v = JNull \<or> v = JUndefined then []
     else let str = js_string v in
       if CHR '','' \<in> set str \<or> CHR 0x22 \<in> set str \<or> CHR 0x0A \<in> set str \<or> CHR 0x0D \<in> set str
       then CHR 0x22 # concat (List.map (\<lambda>c. if c = CHR 0x22 then [CHR 0x22, CHR 0x22] else [c]) str) @ [CHR 0x22]
       else str)"

definition csv_headers :: "string list" where
  "csv_headers = [''id'', ''hash'', ''streamId'', ''kind'', ''direction'', ''status'', ''amount'', ''asset'', ''counterparty'', ''timestamp'']"

definition amount_value :: "ExportTransactionsOptions \<Rightarrow> TransactionRecord \<Rightarrow> string" where
  "amount_value opts tx =
    (if eo_formatAmounts opts \<noteq> Some False then formatAmount (JString (tx_amount tx)) (given_or (Num 7) (eo_decimals opts))
     else asString (JString (tx_amount tx)) [])"

definition counterparty_value :: "ExportTransactionsOptions \<Rightarrow> TransactionRecord \<Rightarrow> string" where
  "counterparty_value opts tx =
    (if eo_formatAddresses opts \<noteq> Some False
     then formatAddress (JString (tx_counterparty tx)) (given_or (Num 6) (eo_visibleAddressChars opts))
     else asString (JString (tx_counterparty tx)) [])"

definition timestamp_value :: "(string \<Rightarrow> int option) \<Rightarrow> ExportTransactionsOptions \<Rightarrow> TransactionRecord \<Rightarrow> jsval" where
  "timestamp_value host_date opts tx =
    (let t = JNumber (Num (of_int (tx_timestamp tx))) in
     if eo_formatTimestamps opts = Some True then JString (formatTimestamp host_date t)
     else JNumber (Num (of_int (asTimestamp host_date t))))"

definition csv_cells :: "(string \<Rightarrow> int option) \<Rightarrow> ExportTransactionsOptions \<Rightarrow> TransactionRecord \<Rightarrow> jsval list" where
  "csv_cells host_date opts tx =
    [JString (tx_id tx), JString (tx_hash tx), JString (tx_streamId tx), JString (tx_kind tx), JString (tx_direction tx),
     JString (tx_status tx), JString (amount_value opts tx), JString (tx_asset tx), JString (counterparty_value opts tx),
     timestamp_value host_date opts tx]"

definition exportTransactionsToCsv ::
    "(string \<Rightarrow> int option) \<Rightarrow> TransactionRecord list \<Rightarrow> ExportTransactionsOptions \<Rightarrow> string" where
  "exportTransactionsToCsv host_date txs opts =
    (let header = (if eo_includeHeader opts \<noteq> Some False
           then [join_with '','' (List.map escapeCsvCell (List.map JString csv_headers))] else []);
         rows = List.map (\<lambda>tx. join_with '','' (List.map escapeCsvCell (csv_cells host_date opts tx))) txs
     in join_with [CHR 0x0A] (header @ rows))"

text \<open>JSON.stringify with an indent of two.\<close>

definition indent :: "nat \<Rightarrow> string" where "indent n = CHR 0x0A # replicate (2 * n) CHR '' ''"

fun json_pretty :: "nat \<Rightarrow> jsval \<Rightarrow> string" where
  "json_pretty n (JArray vs) = (if vs = [] then ''[]''
     else ''['' @ indent (n + 1) @ join_with ('','' @ indent (n + 1)) (List.map (json_pretty (n + 1)) vs) @ indent n @ '']'')"
| "json_pretty n (JObject kvs) = (if filter (\<lambda>kv. snd kv \<noteq> JUndefined) kvs = [] then ''{}''
     else ''{'' @ indent (n + 1) @ join_with ('','' @ indent (n + 1))
       (List.map (\<lambda>kv. json_string (fst kv) @ '': '' @ json_pretty (n + 1) (snd kv)) (filter (\<lambda>kv. snd kv \<noteq> JUndefined) kvs))
       @ indent n @ ''}'')"
| "json_pretty n v = json_text v"

definition exported_json :: "(string \<Rightarrow> int option) \<Rightarrow> ExportTransactionsOptions \<Rightarrow> TransactionRecord \<Rightarrow> jsval" where
  "exported_json host_date opts tx = JObject
    [(''id'', JString (tx_id tx)), (''hash'', JString (tx_hash tx)), (''streamId'', JString (tx_streamId tx)),
     (''kind'', JString (tx_kind tx)), (''direction'', JString (tx_direction tx)), (''status'', JString (tx_status tx)),
     (''amount'', JString (amount_value opts tx)), (''asset'', JString (tx_asset tx)),
     (''counterparty'', JString (counterparty_value opts tx)), (''timestamp'', timestamp_value host_date opts tx)]"

definition exportTransactionsToJson ::
    "(string \<Rightarrow> int option) \<Rightarrow> TransactionRecord list \<Rightarrow> bool + ExportTransactionsOptions \<Rightarrow> string" where
  "exportTransactionsToJson host_date txs options =
    (let opts = (case options of Inl pretty \<Rightarrow> no_export_options\<lparr> eo_pretty := Some pretty \<rparr> | Inr opts \<Rightarrow> opts);
         exported = JArray (List.map (exported_json host_date opts) txs)
     in if eo_pretty opts \<noteq> Some False then json_pretty 0 exported else json_text exported)"

section \<open>A reader of CSV\<close>

text \<open>
  The reader of RFC 4180: a cell in quotes holds anything, with a quote doubled; outside quotes
  a comma ends a cell and a line feed a row.
\<close>

fun csv_scan :: "bool \<Rightarrow> string \<Rightarrow> string list \<Rightarrow> string \<Rightarrow> string list list" where
  "csv_scan quoted cell row [] = [row @ [cell]]"
| "csv_scan True cell row (c # s) =
    (if c \<noteq> CHR 0x22 then csv_scan True (cell @ [c]) row s
     else (case s of d # s' \<Rightarrow> if d = CHR 0x22 then csv_scan True (cell @ [d]) row s' else csv_scan False cell row s
           | [] \<Rightarrow> csv_scan False cell row s))"
| "csv_scan False cell row (c # s) =
    (if c = CHR 0x22 then csv_scan True cell row s
     else if c = CHR '','' then csv_scan False [] (row @ [cell]) s
     else if c = CHR 0x0A then (row @ [cell]) # csv_scan False [] [] s
     else csv_scan False (cell @ [c]) row s)"

definition parse_csv :: "string \<Rightarrow> string list list" where "parse_csv s = csv_scan False [] [] s"

text \<open>What may follow a cell: the end, a comma or a line feed.\<close>

definition cell_end :: "string \<Rightarrow> bool" where
  "cell_end rest = (rest = [] \<or> hd rest = CHR '','' \<or> hd rest = CHR 0x0A)"

lemma scan_plain:
  "CHR '','' \<notin> set s \<Longrightarrow> CHR 0x22 \<notin> set s \<Longrightarrow> CHR 0x0A \<notin> set s \<Longrightarrow>
   csv_scan False cell row (s @ rest) = csv_scan False (cell @ s) row rest"
  by (induction s arbitrary: cell) auto

lemma scan_quoted:
  assumes "cell_end rest"
  shows "csv_scan True cell row (concat (List.map (\<lambda>c. if c = CHR 0x22 then [CHR 0x22, CHR 0x22] else [c]) s) @ CHR 0x22 # rest) =
    csv_scan False (cell @ s) row rest"
proof (induction s arbitrary: cell)
  case Nil
  show ?case using assms by (cases rest) (auto simp: cell_end_def)
next
  case (Cons c s)
  then show ?case by simp
qed

lemma scan_cell:
  assumes "cell_end rest"
  shows "csv_scan False [] row (escapeCsvCell (JString s) @ rest) = csv_scan False s row rest"
proof (cases "CHR '','' \<in> set s \<or> CHR 0x22 \<in> set s \<or> CHR 0x0A \<in> set s \<or> CHR 0x0D \<in> set s")
  case True
  then show ?thesis using scan_quoted [OF assms, of "[]" row s] by (simp add: escapeCsvCell_def Let_def)
next
  case False
  then show ?thesis using scan_plain [of s "[]" row rest] by (auto simp: escapeCsvCell_def Let_def)
qed

lemma join_with_Cons: "join_with sep (s # ss) = s @ concat (List.map (\<lambda>x. sep @ x) ss)"
  by (simp add: join_with_def)

lemma scan_row:
  assumes "rest = [] \<or> hd rest = CHR 0x0A"
  shows "csv_scan False c row (concat (List.map (\<lambda>x. CHR '','' # escapeCsvCell (JString x)) ss) @ rest) =
    (if rest = [] then [row @ c # ss] else (row @ c # ss) # csv_scan False [] [] (tl rest))"
proof (induction ss arbitrary: row c)
  case Nil
  then show ?case using assms by (cases rest) auto
next
  case (Cons s ss)
  have "cell_end (concat (List.map (\<lambda>x. CHR '','' # escapeCsvCell (JString x)) ss) @ rest)"
    using assms by (cases ss) (auto simp: cell_end_def)
  then show ?case using Cons by (simp add: scan_cell)
qed

lemma scan_rows:
  assumes "list_all (\<lambda>r. r \<noteq> []) rows" "rows \<noteq> []"
  shows "parse_csv (join_with [CHR 0x0A] (List.map (\<lambda>r. join_with '','' (List.map (\<lambda>x. escapeCsvCell (JString x)) r)) rows)) = rows"
  using assms
proof (induction rows)
  case (Cons r rows)
  then obtain c cs where r: "r = c # cs" by (cases r) auto
  let ?row = "\<lambda>r. join_with '','' (List.map (\<lambda>x. escapeCsvCell (JString x)) r)"
  define rest where "rest = concat (List.map (\<lambda>x. CHR 0x0A # ?row x) rows)"
  have end_ok: "rest = [] \<or> hd rest = CHR 0x0A" by (cases rows) (auto simp: rest_def)
  let ?cells = "concat (List.map (\<lambda>x. CHR '','' # escapeCsvCell (JString x)) cs)"
  have cell: "cell_end (?cells @ rest)" using end_ok by (cases cs) (auto simp: cell_end_def)
  have printed: "join_with [CHR 0x0A] (List.map ?row (r # rows)) = escapeCsvCell (JString c) @ ?cells @ rest"
    by (simp add: r join_with_Cons rest_def comp_def)
  have parsed: "parse_csv (escapeCsvCell (JString c) @ ?cells @ rest) =
      (if rest = [] then [r] else r # csv_scan False [] [] (tl rest))"
    using scan_row [OF end_ok, of c "[]" cs] scan_cell [OF cell, of "[]" c] by (simp add: parse_csv_def r)
  show ?case
  proof (cases rows)
    case Nil then show ?thesis using parsed printed by (simp add: rest_def)
  next
    case (Cons r' rows')
    then have "tl rest = join_with [CHR 0x0A] (List.map ?row rows)" "rest \<noteq> []"
      by (simp_all add: rest_def join_with_Cons comp_def)
    moreover have "parse_csv (join_with [CHR 0x0A] (List.map ?row rows)) = rows"
      using Cons.IH Cons.prems Cons by simp
    ultimately show ?thesis using parsed printed by (simp add: parse_csv_def)
  qed
qed simp

section \<open>Exported cells\<close>

text \<open>Every cell is a text or a number, and prints as the text of it.\<close>

definition cell_texts :: "(string \<Rightarrow> int option) \<Rightarrow> ExportTransactionsOptions \<Rightarrow> TransactionRecord \<Rightarrow> string list" where
  "cell_texts host_date opts tx = List.map js_string (csv_cells host_date opts tx)"

lemma escape_text: "v \<noteq> JNull \<Longrightarrow> v \<noteq> JUndefined \<Longrightarrow> escapeCsvCell v = escapeCsvCell (JString (js_string v))"
  by (simp add: escapeCsvCell_def)

lemma timestamp_cell: "timestamp_value h opts tx \<noteq> JNull \<and> timestamp_value h opts tx \<noteq> JUndefined"
  by (simp add: timestamp_value_def Let_def)

lemma escaped_cells:
  "List.map escapeCsvCell (csv_cells h opts tx) = List.map (\<lambda>x. escapeCsvCell (JString x)) (cell_texts h opts tx)"
  using escape_text [of "timestamp_value h opts tx"] timestamp_cell [of h opts tx]
  by (simp add: cell_texts_def csv_cells_def)

lemma csv_text:
  "exportTransactionsToCsv h txs opts =
    join_with [CHR 0x0A] (List.map (\<lambda>r. join_with '','' (List.map (\<lambda>x. escapeCsvCell (JString x)) r))
      ((if eo_includeHeader opts \<noteq> Some False then [csv_headers] else []) @ List.map (cell_texts h opts) txs))"
  by (simp add: exportTransactionsToCsv_def Let_def escaped_cells comp_def)

section \<open>Amounts read back\<close>

lemma filter_grouped: "CHR '','' \<notin> set s \<Longrightarrow> filter (\<lambda>c. c \<noteq> CHR '','') (grouped b s) = s"
  by (induction s arbitrary: b) auto

lemma strip_zeros_val: "digits_val (strip_zeros s) = digits_val s"
  by (induction s rule: strip_zeros.induct) (simp_all add: digits_val_Cons)

lemma strip_zeros_digits: "list_all is_digit s \<Longrightarrow> list_all is_digit (strip_zeros s)"
  by (induction s rule: strip_zeros.induct) auto

lemma strip_zeros_nonempty: "s \<noteq> [] \<Longrightarrow> strip_zeros s \<noteq> []"
  by (induction s rule: strip_zeros.induct) auto

lemma strip_zeros_head: "strip_zeros s = c # d # t \<Longrightarrow> c \<noteq> CHR ''0''"
  by (induction s rule: strip_zeros.induct) (auto split: if_splits)

lemma strip_trailing_split: "\<exists>k. s = strip_trailing s @ replicate k CHR ''0''"
proof -
  have "takeWhile (\<lambda>c. c = CHR ''0'') (rev s) = replicate (length (takeWhile (\<lambda>c. c = CHR ''0'') (rev s))) CHR ''0''"
    by (rule replicate_eqI [symmetric, THEN sym]) (auto dest: set_takeWhileD)
  moreover have "s = strip_trailing s @ rev (takeWhile (\<lambda>c. c = CHR ''0'') (rev s))"
    by (simp add: strip_trailing_def flip: rev_append)
  ultimately show ?thesis by (metis rev_replicate)
qed

lemma strip_trailing_last: "strip_trailing s \<noteq> [] \<Longrightarrow> last (strip_trailing s) \<noteq> CHR ''0''"
  using hd_dropWhile [of "\<lambda>c. c = CHR ''0''" "rev s"] by (simp add: strip_trailing_def last_rev)

lemma digit_zero_char: "is_digit c \<Longrightarrow> digit_val c = 0 \<Longrightarrow> c = CHR ''0''"
proof -
  assume "is_digit c" "digit_val c = 0"
  then have "(of_char c :: nat) = of_char CHR ''0''" by (simp add: is_digit_def digit_val_def)
  then show ?thesis by (rule of_char_eq_iff [THEN iffD1])
qed

lemma minus_not_space: "\<not> is_space CHR ''-''"
  by (simp add: is_space_def)

text \<open>Number of a decimal text.\<close>

lemma number_of_decimal:
  assumes w: "list_all is_digit w" "w \<noteq> []" and f: "list_all is_digit f"
    and plain: "\<And>c d t. w = c # d # t \<Longrightarrow> c \<noteq> CHR ''0''"
  shows "number_of_string ((if neg then ''-'' else []) @ w @ (if f = [] then [] else CHR ''.'' # f)) =
    Num ((if neg then - 1 else 1) * (of_nat (digits_val (w @ f)) / 10 ^ length f))"
proof -
  let ?u = "w @ (if f = [] then [] else CHR ''.'' # f)"
  let ?s = "(if neg then ''-'' else []) @ ?u"
  obtain c w' where c: "w = c # w'" using w(2) by (cases w) auto
  have dc: "is_digit c" using w(1) c by simp
  have ends: "is_digit (last ?u)" using w f by (auto simp: list_all_iff)
  have trim: "trim ?s = ?s"
  proof (rule trim_solid)
    show "\<not> is_space (hd ?s)" using digit_not_space [OF dc] by (simp add: c minus_not_space)
    show "\<not> is_space (last ?s)" using digit_not_space [OF ends] w(2) by simp
  qed (use w(2) in simp)
  have radix: "prefixed_radix ?s = None"
  proof (cases neg)
    case True then show ?thesis by (cases w) (auto simp: prefixed_radix_def)
  next
    case False
    have "take 2 ?u \<noteq> CHR ''0'' # [x]" if "\<not> is_digit x" "x \<noteq> CHR ''.''" for x
      using plain that w(1) by (cases w'; cases f) (auto simp: c numeral_2_eq_2)
    then show ?thesis using False by (simp add: prefixed_radix_def is_digit_def)
  qed
  have tw: "takeWhile is_digit ?u = w" "dropWhile is_digit ?u = (if f = [] then [] else CHR ''.'' # f)"
    using w(1) by (auto simp: list_all_iff takeWhile_append2 dropWhile_append2)
  have tf: "takeWhile is_digit f = f" "dropWhile is_digit f = []" using f by (auto simp: list_all_iff)
  have "unsigned_decimal ?u = Some (of_nat (digits_val (w @ f)) / 10 ^ length f)"
    unfolding unsigned_decimal_def tw Let_def using w(2) by (cases "f = []") (simp_all add: tf)
  moreover have "?u \<noteq> ''Infinity''" using dc by (auto simp: c is_digit_def)
  moreover have "c \<noteq> CHR ''-''" "c \<noteq> CHR ''+''" using dc by (auto simp: is_digit_def)
  ultimately show ?thesis
    unfolding number_of_string_def trim Let_def radix by (cases neg) (simp_all add: c)
qed


lemma no_comma: "list_all is_digit s \<Longrightarrow> CHR '','' \<notin> set s"
  by (auto simp: list_all_iff is_digit_def)

lemma formatAmount_text:
  fixes p :: nat
  assumes ds: "list_all is_digit ds" "ds \<noteq> []" and neg: "neg = (sg = ''-'')" "sg = ''-'' \<or> sg = []"
  obtains w f k where "formatAmount (JString (sg @ ds)) (Num (of_nat p)) =
      (if neg \<and> \<not> (grouped False w = ''0'' \<and> f = []) then ''-'' else []) @ grouped False w @ (if f = [] then [] else CHR ''.'' # f)"
    "list_all is_digit w" "w \<noteq> []" "list_all is_digit f" "\<And>c d t. w = c # d # t \<Longrightarrow> c \<noteq> CHR ''0''"
    "length f + k = p" "digits_val (w @ f @ replicate k CHR ''0'') = digits_val ds"
    "f \<noteq> [] \<Longrightarrow> last f \<noteq> CHR ''0''"
proof -
  let ?z = "pad_start (p + 1) CHR ''0'' ds"
  let ?whole = "take (length ?z - p) ?z" and ?frac = "drop (length ?z - p) ?z"
  define w where "w = strip_zeros ?whole"
  define f where "f = strip_trailing ?frac"
  obtain k where k: "?frac = f @ replicate k CHR ''0''" using strip_trailing_split unfolding f_def by blast
  have z: "list_all is_digit ?z" "p < length ?z" using ds(1) by simp_all
  have dw: "list_all is_digit ?whole" "list_all is_digit ?frac" using z(1) by (auto simp: list_all_iff dest: in_set_takeD in_set_dropD)
  have raw: "trim (sg @ ds) = sg @ ds"
  proof (rule trim_solid)
    have "\<not> is_space (hd ds)" "\<not> is_space (last ds)" using ds by (auto simp: list_all_iff intro!: digit_not_space)
    then show "\<not> is_space (hd (sg @ ds))" "\<not> is_space (last (sg @ ds))"
      using ds(2) neg(2) minus_not_space by auto
  qed (use ds in simp)
  have hd: "hd ds \<noteq> CHR ''-''" using ds by (cases ds) (auto simp: is_digit_def)
  have u: "unsigned_part (sg @ ds) = ds" "hd (sg @ ds) = CHR ''-'' \<longleftrightarrow> neg"
    using neg hd ds(2) by (auto simp: unsigned_part_def)
  have fr: "(if p = 0 then [] else ?frac) = ?frac" by simp
  have pl: "places_of (Num (of_nat p)) = p"
    using truncated_def [of "of_nat p"] by (simp add: places_of_def)
  have "formatAmount (JString (sg @ ds)) (Num (of_nat p)) =
      (if neg \<and> \<not> (grouped False w = ''0'' \<and> f = []) then ''-'' else []) @ grouped False w @ (if f = [] then [] else CHR ''.'' # f)"
    unfolding formatAmount_def Let_def pl asString_def jsval.case raw is_integer_text_def u fr w_def [symmetric] f_def [symmetric]
    using ds by auto
  moreover have "list_all is_digit w" unfolding w_def using dw(1) by (rule strip_zeros_digits)
  moreover have "w \<noteq> []" unfolding w_def using z(2) by (intro strip_zeros_nonempty) (metis length_0_conv length_take min_def not_less0 zero_less_diff less_imp_le diff_le_self neq0_conv)
  moreover have "list_all is_digit f" using dw(2) unfolding k by simp
  moreover have "\<And>c d t. w = c # d # t \<Longrightarrow> c \<noteq> CHR ''0''" unfolding w_def by (rule strip_zeros_head)
  moreover have "length f + k = p" using arg_cong [OF k, of length] z(2) by simp
  moreover have "digits_val (w @ ?frac) = digits_val (?whole @ ?frac)"
    by (simp only: digits_val_append w_def strip_zeros_val)
  then have "digits_val (w @ f @ replicate k CHR ''0'') = digits_val ds"
    unfolding append_take_drop_id k [symmetric] by simp
  moreover have "f \<noteq> [] \<Longrightarrow> last f \<noteq> CHR ''0''" unfolding f_def by (rule strip_trailing_last)
  ultimately show thesis by (rule that)
qed

section \<open>Properties\<close>

text \<open>
  C23: Exporting to CSV and reading the text by RFC 4180 gives back the header and, for each row, the
  text of every cell, whatever commas, quotes and line breaks they hold.
\<close>
theorem csv_round_trip:
  assumes "txs \<noteq> [] \<or> eo_includeHeader opts \<noteq> Some False"
  shows "parse_csv (exportTransactionsToCsv host_date txs opts) =
    (if eo_includeHeader opts \<noteq> Some False then [csv_headers] else []) @ List.map (cell_texts host_date opts) txs"
  unfolding csv_text
  by (rule scan_rows) (use assms in \<open>auto simp: list_all_iff csv_headers_def cell_texts_def csv_cells_def\<close>)

definition sample_record :: TransactionRecord where
  "sample_record = \<lparr> tx_id = ''a,1'', tx_hash = [CHR ''h'', CHR 0x22], tx_streamId = ''s'', tx_kind = ''WITHDRAW'', tx_direction = ''IN'',
     tx_status = ''CONFIRMED'', tx_amount = ''-12345678900000'', tx_asset = [CHR ''X'', CHR 0x0A], tx_counterparty = ''GABCDEFGHIJKLMNOP'',
     tx_timestamp = 1700000000000 \<rparr>"

lemma csv_round_trip_witness:
  "parse_csv (exportTransactionsToCsv Map.empty [sample_record] no_export_options) =
    [csv_headers, cell_texts Map.empty no_export_options sample_record]"
  using csv_round_trip [of "[sample_record]" no_export_options Map.empty] by (simp add: no_export_options_def)

text \<open>
  formatAmount shows the exact value: its text without the grouping commas reads back as the
  stroops over ten to the number of places, for every integer text, and no zero is signed.
\<close>
theorem formatAmount_exact:
  assumes "list_all is_digit ds" "ds \<noteq> []" "sg = ''-'' \<or> sg = []"
  shows "number_of_string (filter (\<lambda>c. c \<noteq> CHR '','') (formatAmount (JString (sg @ ds)) (Num (of_nat p)))) =
      Num ((if sg = ''-'' then - 1 else 1) * (of_nat (digits_val ds) / 10 ^ p)) \<and>
    (digits_val ds = 0 \<longrightarrow> formatAmount (JString (sg @ ds)) (Num (of_nat p)) = ''0'')"
proof -
  obtain w f k where t: "formatAmount (JString (sg @ ds)) (Num (of_nat p)) =
      (if sg = ''-'' \<and> \<not> (grouped False w = ''0'' \<and> f = []) then ''-'' else []) @ grouped False w @ (if f = [] then [] else CHR ''.'' # f)"
    and w: "list_all is_digit w" "w \<noteq> []" and f: "list_all is_digit f" and p: "\<And>c d t. w = c # d # t \<Longrightarrow> c \<noteq> CHR ''0''"
    and k: "length f + k = p" and v: "digits_val (w @ f @ replicate k CHR ''0'') = digits_val ds"
    and l: "f \<noteq> [] \<Longrightarrow> last f \<noteq> CHR ''0''"
    by (rule formatAmount_text [OF assms(1,2) refl assms(3), where p = p], rule that)
  let ?zero = "grouped False w = ''0'' \<and> f = []" let ?neg = "sg = ''-'' \<and> \<not> ?zero"
  have filt: "filter (\<lambda>c. c \<noteq> CHR '','') (formatAmount (JString (sg @ ds)) (Num (of_nat p))) =
      (if ?neg then ''-'' else []) @ w @ (if f = [] then [] else CHR ''.'' # f)"
    using no_comma [OF w(1)] no_comma [OF f] by (auto simp: t filter_grouped filter_id_conv)
  have val: "digits_val ds = digits_val (w @ f) * 10 ^ k"
    using v digits_val_append [of "w @ f" "replicate k CHR ''0''"] by simp
  have zero: "w = ''0''" if "grouped False w = ''0''"
    using filter_grouped [OF no_comma [OF w(1)], of False] that by auto
  have "(of_nat (digits_val ds) / 10 ^ p :: rat) = of_nat (digits_val (w @ f)) / 10 ^ length f"
    unfolding val k [symmetric] by (simp add: power_add)
  moreover have "(if ?neg then - 1 else 1) * (of_nat (digits_val (w @ f)) / 10 ^ length f :: rat) =
      (if sg = ''-'' then - 1 else 1) * (of_nat (digits_val (w @ f)) / 10 ^ length f)"
    using zero by auto
  ultimately have "number_of_string (filter (\<lambda>c. c \<noteq> CHR '','') (formatAmount (JString (sg @ ds)) (Num (of_nat p)))) =
      Num ((if sg = ''-'' then - 1 else 1) * (of_nat (digits_val ds) / 10 ^ p))"
    unfolding filt using number_of_decimal [OF w f p, where neg = ?neg] by simp
  moreover have "formatAmount (JString (sg @ ds)) (Num (of_nat p)) = ''0''" if z: "digits_val ds = 0"
  proof -
    have vz: "digits_val (w @ f) = 0" using z val by simp
    have "w = ''0''"
    proof (cases w)
      case (Cons c w')
      have "digit_val c = 0" using vz Cons by (simp add: digits_val_append digits_val_Cons)
      then have "c = CHR ''0''" using w(1) Cons by (simp add: digit_zero_char)
      then show ?thesis using p Cons by (cases w') auto
    qed (use w in simp)
    moreover have "f = []"
    proof (rule ccontr)
      assume ne: "f \<noteq> []"
      then have split: "f = butlast f @ [last f]" by simp
      have "digits_val (w @ butlast f @ [last f]) = 0" using vz split by simp
      then have "digit_val (last f) = 0" using digits_val_append [of "w @ butlast f" "[last f]"] by simp
      moreover have "is_digit (last f)" using f ne by (simp add: list_all_iff)
      ultimately show False using digit_zero_char l [OF ne] by blast
    qed
    ultimately show ?thesis by (simp add: t)
  qed
  ultimately show ?thesis by blast
qed

lemma number_timestamp_int:
  "number_timestamp (of_int t) = (if 10 ^ 9 \<le> \<bar>t\<bar> \<and> \<bar>t\<bar> < 10 ^ 10 then t * 1000 else t)"
proof -
  have "(10 ^ 9 \<le> \<bar>of_int t :: rat\<bar>) = (10 ^ 9 \<le> \<bar>t\<bar>)" "(\<bar>of_int t :: rat\<bar> < 10 ^ 10) = (\<bar>t\<bar> < 10 ^ 10)"
    by (metis of_int_abs of_int_le_iff of_int_numeral of_int_power, metis of_int_abs of_int_less_iff of_int_numeral of_int_power)
  then show ?thesis by (simp add: number_timestamp_def truncated_def)
qed

lemma truncated_ten_digits:
  "10 ^ 9 \<le> \<bar>truncated r\<bar> \<Longrightarrow> \<bar>truncated r\<bar> < 10 ^ 10 \<Longrightarrow> 10 ^ 9 \<le> \<bar>r\<bar> \<and> \<bar>r\<bar> < 10 ^ 10"
  unfolding truncated_def by (cases "r < 0"; simp; linarith)

text \<open>
  Reading a timestamp is stable on numbers: what normalisation made of a number of seconds or
  milliseconds, the formats and the export read again as the same time.
\<close>
theorem numeric_timestamp_stable:
  "asTimestamp host_date (JNumber (Num (of_int (asTimestamp host_date (JNumber n))))) = asTimestamp host_date (JNumber n)"
proof (cases n)
  case (Num r)
  let ?t = "number_timestamp r"
  have "number_timestamp (of_int ?t) = ?t"
    unfolding number_timestamp_int
  proof (rule if_not_P, rule notI)
    assume t: "10 ^ 9 \<le> \<bar>?t\<bar> \<and> \<bar>?t\<bar> < 10 ^ 10"
    show False
    proof (cases "10 ^ 9 \<le> \<bar>r\<bar> \<and> \<bar>r\<bar> < 10 ^ 10")
      case True
      then have "?t = truncated r * 1000" by (simp add: number_timestamp_def)
      moreover have "10 ^ 9 \<le> \<bar>truncated r\<bar>" using True unfolding truncated_def by (cases "r < 0"; simp; linarith)
      ultimately show False using t by (simp add: abs_mult)
    next
      case False
      then have "?t = truncated r" by (auto simp: number_timestamp_def)
      then show False using truncated_ten_digits [of r] t False by simp
    qed
  qed
  then show ?thesis using Num by (simp add: asTimestamp_def)
qed (simp_all add: asTimestamp_def number_timestamp_def truncated_def)

text \<open>
  A date of early 1970 is different: its milliseconds have ten digits, so that the export takes
  the time of the normalised row for seconds and writes a date of 2008.
\<close>
lemma early_date_moves:
  "asTimestamp Map.empty (JString ''1970-01-15'') = 1209600000 \<and>
   timestamp_value Map.empty no_export_options (sample_record\<lparr> tx_timestamp := 1209600000 \<rparr>) = JNumber (Num 1209600000000)"
proof -
  have t: "trim ''1970-01-15'' = ''1970-01-15''" by code_simp
  have "number_of_string (trim ''1970-01-15'') = NaN"
    unfolding number_of_string_def t Let_def by (simp add: prefixed_radix_def unsigned_decimal_def is_digit_def)
  moreover have "toIso8601 ''1970-01-15'' = ''1970-01-15''" by code_simp
  moreover note t
  moreover have "Date_parse Map.empty ''1970-01-15'' = Some 1209600000" by code_simp
  ultimately have "asTimestamp Map.empty (JString ''1970-01-15'') = 1209600000"
    by (simp add: asTimestamp_def given_or_def)
  moreover have "number_timestamp (of_int 1209600000) = 1209600000000" unfolding number_timestamp_int by simp
  ultimately show ?thesis by (simp add: timestamp_value_def no_export_options_def asTimestamp_def)
qed

end
