(* ===== verification/Relayer.thy ===== *)
theory Relayer
  imports Factory "HOL-Library.AList"
begin

text \<open>
  The WebSocket relayer (src/relayer/WebSocketRelayer.ts) as a state machine: its asynchronous
  lock, the calls waiting in it, the sockets it made, reconnects with backoff, the heartbeat and
  the bounded offline queue.
\<close>

section \<open>The lock\<close>

text \<open>
  A call that awaits is a task.  It is queued for the lock, has entered (its continuation is a
  pending microtask), sleeps before a reconnect, awaits a socket, sees its promise settled, or is
  done, with success or with a rejection.
\<close>

datatype task_kind = Connecting | Reconnecting | Sending jsval

datatype task_pc = Queued | Entered | Sleeping | Awaiting nat | Settled bool | Done bool

record task =
  tk_kind :: task_kind
  tk_pc :: task_pc

record mutex =
  isLocked :: bool
  lockQueue :: "nat list"
  mx_tasks :: "task list"

definition acquireLock :: "task_kind \<Rightarrow> mutex \<Rightarrow> mutex" where
  "acquireLock k mx =
    (if isLocked mx then mx\<lparr> lockQueue := lockQueue mx @ [length (mx_tasks mx)], mx_tasks := mx_tasks mx @ [\<lparr> tk_kind = k, tk_pc = Queued \<rparr>] \<rparr>
     else mx\<lparr> isLocked := True, mx_tasks := mx_tasks mx @ [\<lparr> tk_kind = k, tk_pc = Entered \<rparr>] \<rparr>)"

definition set_pc :: "nat \<Rightarrow> task_pc \<Rightarrow> mutex \<Rightarrow> mutex" where
  "set_pc t p mx = mx\<lparr> mx_tasks := (mx_tasks mx)[t := (mx_tasks mx ! t)\<lparr> tk_pc := p \<rparr>] \<rparr>"

definition releaseLock :: "mutex \<Rightarrow> mutex" where
  "releaseLock mx =
    (case lockQueue mx of
       t # ts \<Rightarrow> set_pc t Entered (mx\<lparr> lockQueue := ts \<rparr>)
     | [] \<Rightarrow> mx\<lparr> isLocked := False \<rparr>)"

text \<open>A socket's promise settles: the task that awaits it goes on.\<close>

definition settle_socket :: "nat \<Rightarrow> bool \<Rightarrow> mutex \<Rightarrow> mutex" where
  "settle_socket k ok mx =
    mx\<lparr> mx_tasks := List.map (\<lambda>tk. if tk_pc tk = Awaiting k then tk\<lparr> tk_pc := Settled ok \<rparr> else tk) (mx_tasks mx) \<rparr>"

section \<open>The relayer\<close>

record WebSocketRelayerOptions =
  wo_maxPendingMessages :: "int option"
  wo_maxReconnectAttempts :: "int option"
  wo_reconnectDelayMs :: "rat option"
  wo_maxReconnectDelayMs :: "rat option"
  wo_heartbeatIntervalMs :: "rat option"
  wo_heartbeatTimeoutMs :: "rat option"
  wo_offlineBufferTtlMs :: "rat option"
  wo_onStateChange :: "nat option"

record relayer_config =
  rc_maxPendingMessages :: int
  rc_maxReconnectAttempts :: int
  rc_reconnectDelayMs :: rat
  rc_maxReconnectDelayMs :: rat
  rc_heartbeatIntervalMs :: rat
  rc_heartbeatTimeoutMs :: rat
  rc_offlineBufferTtlMs :: rat

definition relayer_config_of :: "WebSocketRelayerOptions \<Rightarrow> relayer_config" where
  "relayer_config_of opts =
    \<lparr> rc_maxPendingMessages = given_or 1000 (wo_maxPendingMessages opts),
      rc_maxReconnectAttempts = given_or 5 (wo_maxReconnectAttempts opts),
      rc_reconnectDelayMs = given_or 1000 (wo_reconnectDelayMs opts),
      rc_maxReconnectDelayMs = given_or 30000 (wo_maxReconnectDelayMs opts),
      rc_heartbeatIntervalMs = given_or 30000 (wo_heartbeatIntervalMs opts),
      rc_heartbeatTimeoutMs = given_or 5000 (wo_heartbeatTimeoutMs opts),
      rc_offlineBufferTtlMs = given_or 0 (wo_offlineBufferTtlMs opts) \<rparr>"

datatype RelayerStateTransition = To_connecting | To_connected | To_disconnected | To_reconnecting | To_destroyed

record RelayerState =
  rs_connected :: bool
  rs_reconnecting :: bool
  rs_destroyed :: bool
  rs_pendingCount :: nat

text \<open>
  A socket: its readyState (0 connecting, 1 open, 2 closing, 3 closed), whether its promise is
  settled, and which of its handlers are attached.
\<close>

record relayer_socket =
  rk_readyState :: nat
  rk_settled :: bool
  rk_onopen :: bool
  rk_others :: bool

record QueuedMessage =
  qm_message :: jsval
  qm_enqueuedAt :: rat

text \<open>
  The fields of the class; what it did (transitions announced to its observers, messages and
  pings sent on a socket, handlers called, delays before reconnects); and two lists that only
  account for messages: those send accepted, and those given up (expired, pushed out of the full
  queue, refused after the lock, or destroyed).
\<close>

record relayer =
  rl_ws :: "nat option"
  rl_sockets :: "relayer_socket list"
  rl_handlers :: "(string \<times> nat list) list"
  rl_stateChangeHandlers :: "nat list"
  rl_isDestroyed :: bool
  rl_mutex :: mutex
  rl_connectPromise :: "nat option"
  rl_reconnectAttempts :: int
  rl_reconnectEnabled :: bool
  rl_reconnectExhausted :: bool
  rl_offlineQueue :: "QueuedMessage list"
  rl_transition :: RelayerStateTransition
  rl_heartbeatInterval :: bool
  rl_heartbeatTimeout :: bool
  rl_awaitingPong :: bool
  rl_now :: rat
  rl_emitted :: "(RelayerStateTransition \<times> RelayerState \<times> nat list) list"
  rl_sent :: "(nat \<times> jsval) list"
  rl_pings :: "nat list"
  rl_called :: "(nat \<times> jsval) list"
  rl_delays :: "rat list"
  rl_accepted :: "jsval list"
  rl_dropped :: "jsval list"

definition new_WebSocketRelayer :: "WebSocketRelayerOptions \<Rightarrow> relayer" where
  "new_WebSocketRelayer opts =
    \<lparr> rl_ws = None, rl_sockets = [], rl_handlers = [],
      rl_stateChangeHandlers = (case wo_onStateChange opts of Some h \<Rightarrow> [h] | None \<Rightarrow> []),
      rl_isDestroyed = False, rl_mutex = \<lparr> isLocked = False, lockQueue = [], mx_tasks = [] \<rparr>, rl_connectPromise = None,
      rl_reconnectAttempts = 0, rl_reconnectEnabled = True, rl_reconnectExhausted = False, rl_offlineQueue = [],
      rl_transition = To_disconnected, rl_heartbeatInterval = False, rl_heartbeatTimeout = False, rl_awaitingPong = False,
      rl_now = 0, rl_emitted = [], rl_sent = [], rl_pings = [], rl_called = [], rl_delays = [], rl_accepted = [], rl_dropped = [] \<rparr>"

definition ws_open :: "relayer \<Rightarrow> bool" where
  "ws_open s = (case rl_ws s of Some k \<Rightarrow> rk_readyState (rl_sockets s ! k) = 1 | None \<Rightarrow> False)"

definition relayer_state :: "relayer \<Rightarrow> RelayerState" where
  "relayer_state s =
    \<lparr> rs_connected = ws_open s,
      rs_reconnecting = (\<not> rl_isDestroyed s \<and> \<not> rl_reconnectExhausted s \<and> rl_reconnectEnabled s \<and>
        0 < rl_reconnectAttempts s \<and> \<not> ws_open s),
      rs_destroyed = rl_isDestroyed s, rs_pendingCount = length (rl_offlineQueue s) \<rparr>"

definition with_mutex :: "(mutex \<Rightarrow> mutex) \<Rightarrow> relayer \<Rightarrow> relayer" where
  "with_mutex f s = s\<lparr> rl_mutex := f (rl_mutex s) \<rparr>"

definition emitStateChange :: "RelayerStateTransition \<Rightarrow> relayer \<Rightarrow> relayer" where
  "emitStateChange transition s =
    (if rl_transition s = transition then s
     else let s1 = s\<lparr> rl_transition := transition \<rparr> in
       s1\<lparr> rl_emitted := rl_emitted s @ [(transition, relayer_state s1, rl_stateChangeHandlers s)] \<rparr>)"

definition end_task :: "nat \<Rightarrow> bool \<Rightarrow> relayer \<Rightarrow> relayer" where
  "end_task t ok s =
    (let s1 = with_mutex (releaseLock \<circ> set_pc t (Done ok)) s in
     s1\<lparr> rl_connectPromise := (if rl_connectPromise s = Some t then None else rl_connectPromise s) \<rparr>)"

section \<open>Connections\<close>

definition shouldAttemptReconnect :: "relayer_config \<Rightarrow> relayer \<Rightarrow> bool" where
  "shouldAttemptReconnect cfg s =
    (\<not> rl_isDestroyed s \<and> rl_reconnectEnabled s \<and> rl_reconnectAttempts s < rc_maxReconnectAttempts cfg \<and> \<not> ws_open s)"

definition isPermanentlyDown :: "relayer_config \<Rightarrow> relayer \<Rightarrow> bool" where
  "isPermanentlyDown cfg s =
    (\<not> rl_isDestroyed s \<and> rl_reconnectEnabled s \<and> rc_maxReconnectAttempts cfg \<le> rl_reconnectAttempts s \<and> \<not> ws_open s)"

definition give_up :: "relayer_config \<Rightarrow> relayer \<Rightarrow> relayer" where
  "give_up cfg s =
    emitStateChange To_disconnected (if isPermanentlyDown cfg s then s\<lparr> rl_reconnectExhausted := True \<rparr> else s)"

text \<open>attemptReconnect up to its first await.\<close>

definition attemptReconnect :: "relayer_config \<Rightarrow> relayer \<Rightarrow> relayer" where
  "attemptReconnect cfg s =
    (if \<not> shouldAttemptReconnect cfg s then give_up cfg s else with_mutex (acquireLock Reconnecting) s)"

text \<open>What the constructor of the platform does when a connection is established.\<close>

datatype socket_made = No_constructor | Construction_fails | Nothing_made | Socket_made

definition establishConnection :: "nat \<Rightarrow> socket_made \<Rightarrow> relayer \<Rightarrow> relayer" where
  "establishConnection t made s =
    (case made of
       No_constructor \<Rightarrow> with_mutex (set_pc t (Settled True)) (emitStateChange To_disconnected s)
     | Construction_fails \<Rightarrow> with_mutex (set_pc t (Settled False)) s
     | Nothing_made \<Rightarrow> with_mutex (set_pc t (Settled True)) s
     | Socket_made \<Rightarrow>
         (let k = length (rl_sockets s) in
          with_mutex (set_pc t (Awaiting k))
            (s\<lparr> rl_sockets := rl_sockets s @ [\<lparr> rk_readyState = 0, rk_settled = False, rk_onopen = True, rk_others = True \<rparr>],
                rl_ws := Some k \<rparr>)))"

definition connect :: "relayer \<Rightarrow> relayer" where
  "connect s =
    (if rl_isDestroyed s then s
     else let s1 = s\<lparr> rl_reconnectEnabled := True, rl_reconnectExhausted := False, rl_reconnectAttempts := 0 \<rparr> in
       if rl_connectPromise s1 \<noteq> None then s1
       else with_mutex (acquireLock Connecting) (s1\<lparr> rl_connectPromise := Some (length (mx_tasks (rl_mutex s1))) \<rparr>))"

definition close_socket :: "nat \<Rightarrow> relayer \<Rightarrow> relayer" where
  "close_socket k s = s\<lparr> rl_sockets := (rl_sockets s)[k := (rl_sockets s ! k)\<lparr> rk_readyState := max 2 (rk_readyState (rl_sockets s ! k)) \<rparr>] \<rparr>"

section \<open>The heartbeat\<close>

definition clearHeartbeatTimeout :: "relayer \<Rightarrow> relayer" where
  "clearHeartbeatTimeout s = s\<lparr> rl_heartbeatTimeout := False \<rparr>"

definition stopHeartbeat :: "relayer \<Rightarrow> relayer" where
  "stopHeartbeat s = (clearHeartbeatTimeout s)\<lparr> rl_heartbeatInterval := False, rl_awaitingPong := False \<rparr>"

definition startHeartbeat :: "relayer_config \<Rightarrow> relayer \<Rightarrow> relayer" where
  "startHeartbeat cfg s =
    (let s1 = stopHeartbeat s in if 0 < rc_heartbeatIntervalMs cfg then s1\<lparr> rl_heartbeatInterval := True \<rparr> else s1)"

definition heartbeat_tick :: "relayer \<Rightarrow> relayer" where
  "heartbeat_tick s =
    (if rl_heartbeatInterval s \<and> ws_open s \<and> \<not> rl_awaitingPong s
     then s\<lparr> rl_pings := rl_pings s @ [the (rl_ws s)], rl_awaitingPong := True, rl_heartbeatTimeout := True \<rparr>
     else s)"

definition handleHeartbeatTimeout :: "relayer_config \<Rightarrow> relayer \<Rightarrow> relayer" where
  "handleHeartbeatTimeout cfg s =
    (let s1 = stopHeartbeat s; s2 = s1\<lparr> rl_ws := None \<rparr>;
         s3 = (case rl_ws s of None \<Rightarrow> s2
               | Some k \<Rightarrow> close_socket k (s2\<lparr> rl_sockets := (rl_sockets s2)[k := (rl_sockets s2 ! k)\<lparr> rk_onopen := False, rk_others := False \<rparr>] \<rparr>))
     in if rl_isDestroyed s3 then s3
        else if rl_reconnectEnabled s3 \<and> shouldAttemptReconnect cfg s3 then attemptReconnect cfg s3
        else give_up cfg s3)"

definition heartbeat_due :: "relayer_config \<Rightarrow> relayer \<Rightarrow> relayer" where
  "heartbeat_due cfg s =
    (if \<not> rl_heartbeatTimeout s then s
     else let s1 = s\<lparr> rl_heartbeatTimeout := False \<rparr> in
       if rl_awaitingPong s1 \<and> rl_ws s1 \<noteq> None then handleHeartbeatTimeout cfg s1 else s1)"

section \<open>Messages\<close>

definition queueMessage :: "relayer_config \<Rightarrow> jsval \<Rightarrow> relayer \<Rightarrow> relayer" where
  "queueMessage cfg m s =
    (let full = (rc_maxPendingMessages cfg \<le> int (length (rl_offlineQueue s)));
         kept = (if full then tl (rl_offlineQueue s) else rl_offlineQueue s);
         pushed_out = (if full then List.map qm_message (take 1 (rl_offlineQueue s)) else [])
     in s\<lparr> rl_offlineQueue := kept @ [\<lparr> qm_message = m, qm_enqueuedAt = rl_now s \<rparr>], rl_dropped := rl_dropped s @ pushed_out \<rparr>)"

text \<open>send up to its first await: refused, queued, or waiting for the lock.\<close>

definition send_refused :: "relayer \<Rightarrow> bool" where
  "send_refused s = (rl_isDestroyed s \<or> rl_reconnectExhausted s)"

definition send :: "relayer_config \<Rightarrow> jsval \<Rightarrow> relayer \<Rightarrow> relayer" where
  "send cfg m s =
    (if send_refused s then s\<lparr> rl_dropped := rl_dropped s @ [m] \<rparr>
     else if \<not> ws_open s then queueMessage cfg m s
     else with_mutex (acquireLock (Sending m)) s)"

definition expired :: "relayer_config \<Rightarrow> rat \<Rightarrow> QueuedMessage \<Rightarrow> bool" where
  "expired cfg now q = (0 < rc_offlineBufferTtlMs cfg \<and> rc_offlineBufferTtlMs cfg < now - qm_enqueuedAt q)"

definition flush_one :: "relayer_config \<Rightarrow> rat \<Rightarrow> relayer \<Rightarrow> QueuedMessage \<Rightarrow> relayer" where
  "flush_one cfg now s q =
    (if expired cfg now q then s\<lparr> rl_dropped := rl_dropped s @ [qm_message q] \<rparr> else send cfg (qm_message q) s)"

definition flushPendingMessages :: "relayer_config \<Rightarrow> relayer \<Rightarrow> relayer" where
  "flushPendingMessages cfg s =
    foldl (flush_one cfg (rl_now s)) (s\<lparr> rl_offlineQueue := [] \<rparr>) (rl_offlineQueue s)"

definition handlers_for :: "string \<Rightarrow> relayer \<Rightarrow> nat list" where
  "handlers_for ty s = given_or [] (map_of (rl_handlers s) ty)"

definition on :: "string \<Rightarrow> nat \<Rightarrow> relayer \<Rightarrow> relayer" where
  "on ty h s =
    (let hs = handlers_for ty s in
     s\<lparr> rl_handlers := AList.update ty (if h \<in> set hs then hs else hs @ [h]) (rl_handlers s) \<rparr>)"

definition off :: "string \<Rightarrow> nat \<Rightarrow> relayer \<Rightarrow> relayer" where
  "off ty h s =
    (let hs = removeAll h (handlers_for ty s) in
     s\<lparr> rl_handlers := (if hs = [] then AList.delete ty (rl_handlers s) else AList.update ty hs (rl_handlers s)) \<rparr>)"

text \<open>A parsed frame; None is a frame that is no JSON.\<close>

definition handleMessageSafe :: "jsval option \<Rightarrow> relayer \<Rightarrow> relayer" where
  "handleMessageSafe parsed s =
    (case parsed of
       None \<Rightarrow> s
     | Some msg \<Rightarrow>
         (case field_of msg ''type'' of
            JString ty \<Rightarrow>
              if ty = [] then s
              else if ty = ''pong'' \<and> rl_awaitingPong s then (clearHeartbeatTimeout s)\<lparr> rl_awaitingPong := False \<rparr>
              else s\<lparr> rl_called := rl_called s @ List.map (\<lambda>h. (h, msg)) (handlers_for ty s) \<rparr>
          | _ \<Rightarrow> s))"

section \<open>Events of a socket\<close>

definition change_socket :: "nat \<Rightarrow> (relayer_socket \<Rightarrow> relayer_socket) \<Rightarrow> relayer \<Rightarrow> relayer" where
  "change_socket k f s = s\<lparr> rl_sockets := (rl_sockets s)[k := f (rl_sockets s ! k)] \<rparr>"

definition socket_open :: "relayer_config \<Rightarrow> nat \<Rightarrow> relayer \<Rightarrow> relayer" where
  "socket_open cfg k s =
    (let sock = rl_sockets s ! k in
     if length (rl_sockets s) \<le> k \<or> rk_readyState sock \<noteq> 0 then s
     else if \<not> rk_onopen sock \<or> rk_settled sock then change_socket k (\<lambda>x. x\<lparr> rk_readyState := 1 \<rparr>) s
     else
       let s1 = (change_socket k (\<lambda>x. x\<lparr> rk_readyState := 1, rk_settled := True \<rparr>) s)
             \<lparr> rl_reconnectAttempts := 0, rl_reconnectExhausted := False \<rparr>;
           s2 = flushPendingMessages cfg (startHeartbeat cfg s1)
       in with_mutex (settle_socket k True) (emitStateChange To_connected s2))"

definition socket_message :: "nat \<Rightarrow> jsval option \<Rightarrow> relayer \<Rightarrow> relayer" where
  "socket_message k parsed s =
    (let sock = rl_sockets s ! k in
     if length (rl_sockets s) \<le> k \<or> rk_readyState sock \<noteq> 1 \<or> \<not> rk_others sock then s
     else handleMessageSafe parsed
       (if rl_awaitingPong s then (clearHeartbeatTimeout s)\<lparr> rl_awaitingPong := False \<rparr> else s))"

definition socket_close :: "relayer_config \<Rightarrow> nat \<Rightarrow> relayer \<Rightarrow> relayer" where
  "socket_close cfg k s =
    (let sock = rl_sockets s ! k in
     if length (rl_sockets s) \<le> k \<or> rk_readyState sock = 3 then s
     else if \<not> rk_others sock then change_socket k (\<lambda>x. x\<lparr> rk_readyState := 3 \<rparr>) s
     else
       let s1 = (stopHeartbeat (change_socket k (\<lambda>x. x\<lparr> rk_readyState := 3, rk_settled := True \<rparr>) s))\<lparr> rl_ws := None \<rparr>;
           s2 = (if rk_settled sock then s1 else with_mutex (settle_socket k False) s1)
       in if \<not> rl_isDestroyed s2 \<and> rl_reconnectEnabled s2 \<and> shouldAttemptReconnect cfg s2 then attemptReconnect cfg s2
          else give_up cfg s2)"

definition socket_error :: "nat \<Rightarrow> relayer \<Rightarrow> relayer" where
  "socket_error k s =
    (let sock = rl_sockets s ! k in
     if length (rl_sockets s) \<le> k \<or> rk_readyState sock = 3 \<or> \<not> rk_others sock \<or> rk_settled sock then s
     else with_mutex (settle_socket k False) (change_socket k (\<lambda>x. x\<lparr> rk_settled := True \<rparr>) s))"

section \<open>Continuations\<close>

definition backoff :: "relayer_config \<Rightarrow> int \<Rightarrow> rat \<Rightarrow> rat" where
  "backoff cfg attempts r =
    min (rc_maxReconnectDelayMs cfg) (rc_reconnectDelayMs cfg * 2 ^ nat (attempts - 1)) * (1 / 2 + r * (1 / 2))"

text \<open>
  A task goes on after an await; the outcome of the constructor and the random number are those
  it would meet.
\<close>

definition resume_reconnect :: "relayer_config \<Rightarrow> nat \<Rightarrow> rat \<Rightarrow> relayer \<Rightarrow> relayer" where
  "resume_reconnect cfg t r s =
    (if \<not> shouldAttemptReconnect cfg s then end_task t True (give_up cfg s)
     else let s1 = emitStateChange To_reconnecting (s\<lparr> rl_reconnectAttempts := rl_reconnectAttempts s + 1 \<rparr>) in
       with_mutex (set_pc t Sleeping) (s1\<lparr> rl_delays := rl_delays s1 @ [backoff cfg (rl_reconnectAttempts s1) r] \<rparr>))"

definition resume_send :: "relayer_config \<Rightarrow> nat \<Rightarrow> jsval \<Rightarrow> relayer \<Rightarrow> relayer" where
  "resume_send cfg t m s =
    (if send_refused s then end_task t False (s\<lparr> rl_dropped := rl_dropped s @ [m] \<rparr>)
     else if \<not> ws_open s then end_task t True (queueMessage cfg m s)
     else if \<not> bigint_free m then end_task t False (s\<lparr> rl_dropped := rl_dropped s @ [m] \<rparr>)
     else end_task t True (s\<lparr> rl_sent := rl_sent s @ [(the (rl_ws s), m)] \<rparr>))"

definition resume :: "relayer_config \<Rightarrow> nat \<Rightarrow> socket_made \<Rightarrow> rat \<Rightarrow> relayer \<Rightarrow> relayer" where
  "resume cfg t made r s =
    (if length (mx_tasks (rl_mutex s)) \<le> t then s
     else let tk = mx_tasks (rl_mutex s) ! t in
       case tk_pc tk of
         Entered \<Rightarrow>
           (case tk_kind tk of
              Connecting \<Rightarrow> if ws_open s then end_task t True s else establishConnection t made (emitStateChange To_connecting s)
            | Reconnecting \<Rightarrow> resume_reconnect cfg t r s
            | Sending m \<Rightarrow> resume_send cfg t m s)
       | Sleeping \<Rightarrow>
           if rl_isDestroyed s \<or> \<not> rl_reconnectEnabled s then end_task t True s else establishConnection t made s
       | Settled ok \<Rightarrow> end_task t ok s
       | _ \<Rightarrow> s)"

section \<open>The end\<close>

definition disconnect :: "relayer \<Rightarrow> relayer" where
  "disconnect s =
    (let s1 = stopHeartbeat (s\<lparr> rl_reconnectEnabled := False, rl_connectPromise := None, rl_reconnectAttempts := 0,
           rl_reconnectExhausted := False \<rparr>)
     in emitStateChange To_disconnected
       (case rl_ws s1 of Some k \<Rightarrow> (close_socket k s1)\<lparr> rl_ws := None \<rparr> | None \<Rightarrow> s1))"

definition destroy :: "relayer_config \<Rightarrow> relayer \<Rightarrow> relayer" where
  "destroy cfg s =
    (let s1 = stopHeartbeat (s\<lparr> rl_isDestroyed := True, rl_reconnectEnabled := False, rl_reconnectExhausted := True,
           rl_connectPromise := None, rl_dropped := rl_dropped s @ List.map qm_message (rl_offlineQueue s), rl_offlineQueue := [],
           rl_reconnectAttempts := rc_maxReconnectAttempts cfg \<rparr>);
         s2 = (case rl_ws s1 of
                 Some k \<Rightarrow> (close_socket k (change_socket k (\<lambda>x. x\<lparr> rk_others := False \<rparr>) s1))\<lparr> rl_ws := None \<rparr>
               | None \<Rightarrow> s1)
     in (emitStateChange To_destroyed s2)
          \<lparr> rl_handlers := [], rl_stateChangeHandlers := [], rl_mutex := (rl_mutex s)\<lparr> lockQueue := [], isLocked := False \<rparr> \<rparr>)"

section \<open>Runs\<close>

datatype relayer_event =
    Call_connect
  | Call_send jsval
  | Call_disconnect
  | Call_destroy
  | Call_on string nat
  | Call_off string nat
  | Call_onStateChange nat
  | Call_offStateChange nat
  | Resumes nat socket_made rat
  | Opens nat
  | Receives nat "jsval option"
  | Closes nat
  | Fails nat
  | Heartbeat_tick
  | Heartbeat_due
  | Clock rat

fun relayer_step :: "relayer_config \<Rightarrow> relayer \<Rightarrow> relayer_event \<Rightarrow> relayer" where
  "relayer_step cfg s Call_connect = connect s"
| "relayer_step cfg s (Call_send m) = (if send_refused s then s else send cfg m (s\<lparr> rl_accepted := rl_accepted s @ [m] \<rparr>))"
| "relayer_step cfg s Call_disconnect = disconnect s"
| "relayer_step cfg s Call_destroy = destroy cfg s"
| "relayer_step cfg s (Call_on ty h) = on ty h s"
| "relayer_step cfg s (Call_off ty h) = off ty h s"
| "relayer_step cfg s (Call_onStateChange h) =
     s\<lparr> rl_stateChangeHandlers := (if h \<in> set (rl_stateChangeHandlers s) then rl_stateChangeHandlers s else rl_stateChangeHandlers s @ [h]) \<rparr>"
| "relayer_step cfg s (Call_offStateChange h) = s\<lparr> rl_stateChangeHandlers := removeAll h (rl_stateChangeHandlers s) \<rparr>"
| "relayer_step cfg s (Resumes t made r) = resume cfg t made r s"
| "relayer_step cfg s (Opens k) = socket_open cfg k s"
| "relayer_step cfg s (Receives k v) = socket_message k v s"
| "relayer_step cfg s (Closes k) = socket_close cfg k s"
| "relayer_step cfg s (Fails k) = socket_error k s"
| "relayer_step cfg s Heartbeat_tick = heartbeat_tick s"
| "relayer_step cfg s Heartbeat_due = heartbeat_due cfg s"
| "relayer_step cfg s (Clock t) = s\<lparr> rl_now := t \<rparr>"

definition relayer_run :: "WebSocketRelayerOptions \<Rightarrow> relayer_event list \<Rightarrow> relayer" where
  "relayer_run opts evs = foldl (relayer_step (relayer_config_of opts)) (new_WebSocketRelayer opts) evs"

end
