(* ===== verification/Relayer_Properties.thy ===== *)
theory Relayer_Properties
  imports Relayer "HOL-Library.Multiset"
begin

text \<open>
  What the WebSocket relayer promises under every order of calls, socket events, timers and
  microtasks: its lock, its accounting of messages, its bounds; and runs that show where it
  fails its intentions.
\<close>

section \<open>The lock\<close>

fun holding :: "task_pc \<Rightarrow> bool" where
  "holding Queued = False"
| "holding (Done ok) = False"
| "holding p = True"

definition holders :: "mutex \<Rightarrow> nat" where
  "holders mx = sum_list (List.map (\<lambda>tk. if holding (tk_pc tk) then 1 else 0) (mx_tasks mx))"

definition waiting :: "mutex \<Rightarrow> nat set" where
  "waiting mx = {t. t < length (mx_tasks mx) \<and> tk_pc (mx_tasks mx ! t) = Queued}"

definition lock_ok :: "mutex \<Rightarrow> bool" where
  "lock_ok mx =
    (holders mx = (if isLocked mx then 1 else 0) \<and> distinct (lockQueue mx) \<and> set (lockQueue mx) = waiting mx \<and>
     (lockQueue mx \<noteq> [] \<longrightarrow> isLocked mx))"

lemma waiting_append:
  "waiting (mx\<lparr> mx_tasks := mx_tasks mx @ [tk] \<rparr>) = (if tk_pc tk = Queued then insert (length (mx_tasks mx)) (waiting mx) else waiting mx)"
  by (auto simp: waiting_def nth_append less_Suc_eq)

lemma waiting_other [simp]:
  "waiting (mx\<lparr> lockQueue := q \<rparr>) = waiting mx" "waiting (mx\<lparr> isLocked := b \<rparr>) = waiting mx"
  "waiting (mx\<lparr> lockQueue := q, mx_tasks := ts \<rparr>) = waiting (mx\<lparr> mx_tasks := ts \<rparr>)"
  "waiting (mx\<lparr> isLocked := b, mx_tasks := ts \<rparr>) = waiting (mx\<lparr> mx_tasks := ts \<rparr>)"
  by (simp_all add: waiting_def)

lemma waiting_less: "t \<in> waiting mx \<Longrightarrow> t < length (mx_tasks mx)"
  by (simp add: waiting_def)

lemma waiting_set_pc:
  "t < length (mx_tasks mx) \<Longrightarrow> waiting (set_pc t p mx) = (if p = Queued then insert t (waiting mx) else waiting mx - {t})"
  by (auto simp: waiting_def set_pc_def nth_list_update)

lemma lock_acquire: "lock_ok mx \<Longrightarrow> lock_ok (acquireLock k mx)"
  using waiting_less [of "length (mx_tasks mx)" mx]
  by (auto simp: lock_ok_def acquireLock_def holders_def waiting_append)

lemma set_pc_frame [simp]:
  "length (mx_tasks (set_pc t p mx)) = length (mx_tasks mx)" "lockQueue (set_pc t p mx) = lockQueue mx" "isLocked (set_pc t p mx) = isLocked mx"
  by (simp_all add: set_pc_def)

lemma holders_set_pc:
  assumes "t < length (mx_tasks mx)"
  shows "holders (set_pc t p mx) + (if holding (tk_pc (mx_tasks mx ! t)) then 1 else 0) = holders mx + (if holding p then 1 else 0)"
proof -
  let ?ns = "List.map (\<lambda>tk. if holding (tk_pc tk) then 1 else 0 :: nat) (mx_tasks mx)"
  have "?ns ! t \<le> sum_list ?ns" using assms by (intro elem_le_sum_list) simp
  then show ?thesis
    using assms by (simp add: holders_def set_pc_def map_update sum_list_update)
qed

lemma holders_other [simp]: "holders (mx\<lparr> lockQueue := q \<rparr>) = holders mx" "holders (mx\<lparr> isLocked := b \<rparr>) = holders mx"
  by (simp_all add: holders_def)

lemma holding_not_waiting: "holding (tk_pc (mx_tasks mx ! t)) \<Longrightarrow> t \<notin> waiting mx"
  by (auto simp: waiting_def)

lemma lock_set_pc:
  assumes "lock_ok mx" "t < length (mx_tasks mx)" "holding (tk_pc (mx_tasks mx ! t))" "holding p"
  shows "lock_ok (set_pc t p mx)"
proof -
  have "p \<noteq> Queued" using assms(4) by auto
  then show ?thesis
    using assms holders_set_pc [OF assms(2), of p] holding_not_waiting [OF assms(3)] by (simp add: lock_ok_def waiting_set_pc)
qed

lemma lock_end:
  assumes "lock_ok mx" "t < length (mx_tasks mx)" "holding (tk_pc (mx_tasks mx ! t))"
  shows "lock_ok (releaseLock (set_pc t (Done ok) mx))"
proof -
  let ?m = "set_pc t (Done ok) mx"
  have locked: "isLocked mx" using assms(1,3) holders_set_pc [OF assms(2), of Queued] by (auto simp: lock_ok_def split: if_splits)
  have h: "holders ?m = 0" using assms(1,3) locked holders_set_pc [OF assms(2), of "Done ok"] by (simp add: lock_ok_def)
  have q: "set (lockQueue mx) = waiting ?m" "distinct (lockQueue mx)"
    using assms holding_not_waiting [OF assms(3)] by (simp_all add: lock_ok_def waiting_set_pc)
  show ?thesis
  proof (cases "lockQueue mx")
    case Nil
    then show ?thesis using h q by (simp add: releaseLock_def lock_ok_def)
  next
    case (Cons u us)
    let ?n = "?m\<lparr> lockQueue := us \<rparr>"
    have w: "u \<in> waiting ?n" using q Cons by auto
    then have u: "u < length (mx_tasks ?n)" "tk_pc (mx_tasks ?n ! u) = Queued" by (simp_all add: waiting_def)
    have "holders (set_pc u Entered ?n) = 1"
      using holders_set_pc [OF u(1), of Entered] u(2) h by simp
    moreover have "waiting (set_pc u Entered ?n) = waiting ?m - {u}" using waiting_set_pc [OF u(1), of Entered] by simp
    moreover have "set us = waiting ?m - {u}" using q Cons by (metis Diff_insert_absorb distinct.simps(2) list.simps(15))
    ultimately show ?thesis
      using Cons locked q by (simp add: releaseLock_def lock_ok_def)
  qed
qed

lemma lock_settle: "lock_ok mx \<Longrightarrow> lock_ok (settle_socket k ok mx)"
proof -
  have "holders (settle_socket k ok mx) = holders mx"
    unfolding holders_def settle_socket_def by (simp add: comp_def) (rule arg_cong [where f = sum_list], auto)
  moreover have "waiting (settle_socket k ok mx) = waiting mx" by (auto simp: waiting_def settle_socket_def split: if_splits)
  moreover assume "lock_ok mx"
  ultimately show ?thesis by (simp add: lock_ok_def settle_socket_def)
qed

section \<open>What the parts leave alone\<close>

lemma mutex_frame [simp]:
  "rl_mutex (emitStateChange tr s) = rl_mutex s" "rl_mutex (give_up cfg s) = rl_mutex s"
  "rl_mutex (close_socket k s) = rl_mutex s" "rl_mutex (stopHeartbeat s) = rl_mutex s"
  "rl_mutex (startHeartbeat cfg s) = rl_mutex s" "rl_mutex (heartbeat_tick s) = rl_mutex s"
  "rl_mutex (queueMessage cfg m s) = rl_mutex s" "rl_mutex (handleMessageSafe v s) = rl_mutex s"
  "rl_mutex (change_socket k f s) = rl_mutex s" "rl_mutex (on ty h s) = rl_mutex s" "rl_mutex (off ty h s) = rl_mutex s"
  "rl_mutex (clearHeartbeatTimeout s) = rl_mutex s" "rl_mutex (with_mutex g s) = g (rl_mutex s)" "rl_mutex (disconnect s) = rl_mutex s"
  "rl_mutex (end_task t ok s) = releaseLock (set_pc t (Done ok) (rl_mutex s))"
  by (simp_all add: emitStateChange_def give_up_def close_socket_def stopHeartbeat_def clearHeartbeatTimeout_def startHeartbeat_def
      heartbeat_tick_def queueMessage_def handleMessageSafe_def change_socket_def on_def off_def with_mutex_def disconnect_def
      end_task_def Let_def split: option.split jsval.split)

lemma destroyed_frame [simp]:
  "rl_isDestroyed (emitStateChange tr s) = rl_isDestroyed s" "rl_isDestroyed (give_up cfg s) = rl_isDestroyed s"
  "rl_isDestroyed (close_socket k s) = rl_isDestroyed s" "rl_isDestroyed (stopHeartbeat s) = rl_isDestroyed s"
  "rl_isDestroyed (startHeartbeat cfg s) = rl_isDestroyed s" "rl_isDestroyed (heartbeat_tick s) = rl_isDestroyed s"
  "rl_isDestroyed (queueMessage cfg m s) = rl_isDestroyed s" "rl_isDestroyed (handleMessageSafe v s) = rl_isDestroyed s"
  "rl_isDestroyed (change_socket k f s) = rl_isDestroyed s" "rl_isDestroyed (on ty h s) = rl_isDestroyed s"
  "rl_isDestroyed (off ty h s) = rl_isDestroyed s" "rl_isDestroyed (clearHeartbeatTimeout s) = rl_isDestroyed s"
  "rl_isDestroyed (with_mutex g s) = rl_isDestroyed s" "rl_isDestroyed (disconnect s) = rl_isDestroyed s"
  "rl_isDestroyed (end_task t ok s) = rl_isDestroyed s" "rl_isDestroyed (attemptReconnect cfg s) = rl_isDestroyed s"
  "rl_isDestroyed (send cfg m s) = rl_isDestroyed s" "rl_isDestroyed (connect s) = rl_isDestroyed s"
  "rl_isDestroyed (establishConnection t made s) = rl_isDestroyed s"
  by (simp_all add: emitStateChange_def give_up_def close_socket_def stopHeartbeat_def clearHeartbeatTimeout_def startHeartbeat_def
      heartbeat_tick_def queueMessage_def handleMessageSafe_def change_socket_def on_def off_def with_mutex_def disconnect_def
      end_task_def attemptReconnect_def send_def connect_def establishConnection_def Let_def split: option.split jsval.split socket_made.split)

lemma flush_destroyed [simp]: "rl_isDestroyed (flushPendingMessages cfg s) = rl_isDestroyed s"
proof -
  have "rl_isDestroyed (foldl (flush_one cfg now) s qs) = rl_isDestroyed s" for now qs and s :: relayer
    by (induction qs arbitrary: s) (simp_all add: flush_one_def)
  then show ?thesis by (simp add: flushPendingMessages_def)
qed

lemma lock_attempt: "lock_ok (rl_mutex s) \<Longrightarrow> lock_ok (rl_mutex (attemptReconnect cfg s))"
  by (simp add: attemptReconnect_def lock_acquire)

lemma lock_send: "lock_ok (rl_mutex s) \<Longrightarrow> lock_ok (rl_mutex (send cfg m s))"
  by (simp add: send_def lock_acquire)

lemma lock_flush: "lock_ok (rl_mutex s) \<Longrightarrow> lock_ok (rl_mutex (flushPendingMessages cfg s))"
proof -
  have "lock_ok (rl_mutex s) \<Longrightarrow> lock_ok (rl_mutex (foldl (flush_one cfg now) s qs))" for now qs s
    by (induction qs arbitrary: s) (simp_all add: flush_one_def lock_send)
  then show "lock_ok (rl_mutex s) \<Longrightarrow> ?thesis" by (simp add: flushPendingMessages_def)
qed

lemma lock_establish:
  assumes "lock_ok (rl_mutex s)" "t < length (mx_tasks (rl_mutex s))" "holding (tk_pc (mx_tasks (rl_mutex s) ! t))"
  shows "lock_ok (rl_mutex (establishConnection t made s))"
  using assms by (cases made) (simp_all add: establishConnection_def lock_set_pc Let_def)

lemma lock_resume:
  assumes "lock_ok (rl_mutex s)"
  shows "lock_ok (rl_mutex (resume cfg t made r s))"
proof (cases "length (mx_tasks (rl_mutex s)) \<le> t")
  case True then show ?thesis using assms by (simp add: resume_def)
next
  case False
  then have t: "t < length (mx_tasks (rl_mutex s))" by simp
  show ?thesis
  proof (cases "tk_pc (mx_tasks (rl_mutex s) ! t)")
    case Entered
    then have h: "holding (tk_pc (mx_tasks (rl_mutex s) ! t))" by simp
    note go = lock_end [OF assms t h] lock_establish [of _ t] lock_set_pc [OF assms t h]
    show ?thesis using t assms Entered go
      by (cases "tk_kind (mx_tasks (rl_mutex s) ! t)")
         (simp_all add: resume_def resume_reconnect_def resume_send_def Let_def)
  next
    case Sleeping
    then have h: "holding (tk_pc (mx_tasks (rl_mutex s) ! t))" by simp
    show ?thesis using t Sleeping lock_end [OF assms t h] lock_establish [OF assms t h] by (simp add: resume_def)
  next
    case (Settled ok)
    then have h: "holding (tk_pc (mx_tasks (rl_mutex s) ! t))" by simp
    show ?thesis using t Settled lock_end [OF assms t h] by (simp add: resume_def)
  qed (use t assms in \<open>simp_all add: resume_def\<close>)
qed

lemma lock_step:
  assumes "lock_ok (rl_mutex s)" "e \<noteq> Call_destroy"
  shows "lock_ok (rl_mutex (relayer_step cfg s e))"
proof (cases e)
  case Call_connect then show ?thesis using assms by (simp add: connect_def lock_acquire Let_def)
next
  case (Call_send m) then show ?thesis using assms by (simp add: lock_send)
next
  case (Resumes t made r) then show ?thesis using assms by (simp add: lock_resume)
next
  case (Opens k) then show ?thesis using assms by (simp add: socket_open_def Let_def lock_settle lock_flush)
next
  case (Closes k) then show ?thesis using assms by (simp add: socket_close_def Let_def lock_settle lock_attempt)
next
  case (Fails k) then show ?thesis using assms by (simp add: socket_error_def Let_def lock_settle)
next
  case (Receives k v) then show ?thesis using assms by (simp add: socket_message_def Let_def)
next
  case Heartbeat_due
  then show ?thesis using assms
    by (simp add: heartbeat_due_def handleHeartbeatTimeout_def Let_def lock_attempt split: option.split)
qed (use assms in simp_all)

lemma resume_destroyed [simp]: "rl_isDestroyed (resume cfg t made r s) = rl_isDestroyed s"
  by (simp add: resume_def resume_reconnect_def resume_send_def Let_def split: task_pc.split task_kind.split)

lemma destroyed_step: "rl_isDestroyed (relayer_step cfg s e) = (rl_isDestroyed s \<or> e = Call_destroy)"
  by (cases e) (simp_all add: socket_open_def socket_message_def socket_close_def socket_error_def heartbeat_due_def
      handleHeartbeatTimeout_def destroy_def Let_def split: option.split)

lemma run_snoc: "relayer_run opts (evs @ [e]) = relayer_step (relayer_config_of opts) (relayer_run opts evs) e"
  by (simp add: relayer_run_def)

lemma run_destroyed: "rl_isDestroyed (relayer_run opts evs) \<longleftrightarrow> Call_destroy \<in> set evs"
proof (induction evs rule: rev_induct)
  case Nil then show ?case by (simp add: relayer_run_def new_WebSocketRelayer_def)
next
  case (snoc e evs) then show ?case by (auto simp: run_snoc destroyed_step)
qed

lemma run_lock: "Call_destroy \<notin> set evs \<Longrightarrow> lock_ok (rl_mutex (relayer_run opts evs))"
proof (induction evs rule: rev_induct)
  case Nil then show ?case by (simp add: relayer_run_def new_WebSocketRelayer_def lock_ok_def holders_def waiting_def)
next
  case (snoc e evs)
  then show ?case using lock_step [of "relayer_run opts evs" e] by (auto simp: run_snoc)
qed

text \<open>Whoever is in the queue is waiting, after destroy too, as the queue is empty then.\<close>

definition queue_ok :: "mutex \<Rightarrow> bool" where
  "queue_ok mx = (set (lockQueue mx) \<subseteq> waiting mx)"

definition no_queue :: "relayer \<Rightarrow> bool" where
  "no_queue s = (rl_isDestroyed s \<and> lockQueue (rl_mutex s) = [])"

lemma queue_release_empty: "lockQueue mx = [] \<Longrightarrow> lockQueue (releaseLock mx) = []"
  by (simp add: releaseLock_def)

lemma no_queue_send: "no_queue s \<Longrightarrow> no_queue (send cfg m s)"
  by (simp add: no_queue_def send_def send_refused_def)

lemma no_queue_flush: "no_queue s \<Longrightarrow> no_queue (flushPendingMessages cfg s)"
proof -
  have "no_queue s \<Longrightarrow> no_queue (foldl (flush_one cfg now) s qs)" for now qs and s :: relayer
  proof (induction qs arbitrary: s)
    case (Cons q qs)
    have "no_queue (flush_one cfg now s q)"
      using Cons.prems no_queue_send [OF Cons.prems] by (auto simp: flush_one_def no_queue_def)
    then show ?case using Cons by simp
  qed simp
  then show "no_queue s \<Longrightarrow> ?thesis" by (simp add: flushPendingMessages_def no_queue_def)
qed

lemma no_queue_establish: "no_queue s \<Longrightarrow> no_queue (establishConnection t made s)"
  by (cases made) (simp_all add: no_queue_def establishConnection_def Let_def)

lemma no_queue_resume: "no_queue s \<Longrightarrow> no_queue (resume cfg t made r s)"
  using no_queue_establish [of s t made] no_queue_establish [of "emitStateChange To_connecting s" t made]
  by (auto simp: resume_def resume_reconnect_def resume_send_def Let_def no_queue_def queue_release_empty send_refused_def
      shouldAttemptReconnect_def split: task_pc.split task_kind.split)

lemma settle_queue [simp]: "lockQueue (settle_socket k ok mx) = lockQueue mx"
  by (simp add: settle_socket_def)

lemma destroy_no_queue: "no_queue (destroy cfg s)"
  by (simp add: no_queue_def destroy_def Let_def split: option.split)

lemma no_queue_step:
  assumes "no_queue s"
  shows "no_queue (relayer_step cfg s e)"
proof (cases e)
  case (Opens k)
  let ?s1 = "(change_socket k (\<lambda>x. x\<lparr> rk_readyState := 1, rk_settled := True \<rparr>) s)\<lparr> rl_reconnectAttempts := 0, rl_reconnectExhausted := False \<rparr>"
  have "no_queue (flushPendingMessages cfg (startHeartbeat cfg ?s1))"
    using assms by (intro no_queue_flush) (simp add: no_queue_def)
  then show ?thesis using assms Opens by (simp add: socket_open_def Let_def no_queue_def)
next
  case (Resumes t made r) then show ?thesis using assms by (simp add: no_queue_resume)
next
  case (Call_send m) then show ?thesis using assms by (simp add: no_queue_def send_refused_def)
next
  case Call_destroy then show ?thesis using destroy_no_queue by simp
qed (use assms in \<open>auto simp: no_queue_def connect_def socket_message_def socket_close_def socket_error_def heartbeat_due_def
      handleHeartbeatTimeout_def shouldAttemptReconnect_def Let_def split: option.split\<close>)

lemma run_queue: "queue_ok (rl_mutex (relayer_run opts evs))"
proof -
  have "Call_destroy \<in> set evs \<longrightarrow> no_queue (relayer_run opts evs)"
  proof (induction evs rule: rev_induct)
    case (snoc e evs)
    then show ?case using no_queue_step destroy_no_queue by (cases "e = Call_destroy") (auto simp: run_snoc)
  qed simp
  then show ?thesis
    using run_lock [of evs opts] by (cases "Call_destroy \<in> set evs") (auto simp: queue_ok_def no_queue_def lock_ok_def)
qed

section \<open>The accounting of messages\<close>

definition task_messages :: "task \<Rightarrow> jsval multiset" where
  "task_messages tk =
    (case tk_kind tk of Sending m \<Rightarrow> if tk_pc tk = Queued \<or> tk_pc tk = Entered then {#m#} else {#} | _ \<Rightarrow> {#})"

definition carried :: "mutex \<Rightarrow> jsval multiset" where
  "carried mx = sum_list (List.map task_messages (mx_tasks mx))"

lemma sum_list_change:
  "t < length xs \<Longrightarrow> sum_list (List.map f (xs[t := x])) + f (xs ! t) = sum_list (List.map f xs) + (f x :: 'b multiset)"
proof (induction xs arbitrary: t)
  case (Cons y ys)
  then show ?case by (cases t) (simp_all add: ac_simps)
qed simp

lemma carried_set_pc:
  "t < length (mx_tasks mx) \<Longrightarrow>
   carried (set_pc t p mx) + task_messages (mx_tasks mx ! t) = carried mx + task_messages ((mx_tasks mx ! t)\<lparr> tk_pc := p \<rparr>)"
  by (simp add: carried_def set_pc_def sum_list_change)

lemma carried_acquire:
  "carried (acquireLock k mx) = carried mx + (case k of Sending m \<Rightarrow> {#m#} | _ \<Rightarrow> {#})"
  by (simp add: carried_def acquireLock_def task_messages_def split: task_kind.split)

lemma carried_settle [simp]: "carried (settle_socket k ok mx) = carried mx"
  unfolding carried_def settle_socket_def
  by (simp add: comp_def) (rule arg_cong [where f = sum_list], auto simp: task_messages_def split: task_kind.split)

lemma carried_release: "queue_ok mx \<Longrightarrow> carried (releaseLock mx) = carried mx"
proof (cases "lockQueue mx")
  case (Cons t ts)
  assume "queue_ok mx"
  then have t: "t < length (mx_tasks mx)" "tk_pc (mx_tasks mx ! t) = Queued" using Cons by (auto simp: queue_ok_def waiting_def)
  have "task_messages ((mx_tasks mx ! t)\<lparr> tk_pc := Entered \<rparr>) = task_messages (mx_tasks mx ! t)"
    using t(2) by (simp add: task_messages_def split: task_kind.split)
  then show ?thesis using carried_set_pc [of t "mx\<lparr> lockQueue := ts \<rparr>" Entered] t(1) Cons by (simp add: releaseLock_def carried_def)
qed (simp add: releaseLock_def carried_def)

definition books :: "relayer \<Rightarrow> jsval list \<times> (nat \<times> jsval) list \<times> QueuedMessage list \<times> jsval list" where
  "books s = (rl_accepted s, rl_sent s, rl_offlineQueue s, rl_dropped s)"

definition in_hand :: "relayer \<Rightarrow> jsval multiset" where
  "in_hand s = mset (List.map snd (rl_sent s)) + mset (List.map qm_message (rl_offlineQueue s)) + mset (rl_dropped s)"

lemma books_frame [simp]:
  "books (emitStateChange tr s) = books s" "books (give_up cfg s) = books s" "books (close_socket k s) = books s"
  "books (stopHeartbeat s) = books s" "books (startHeartbeat cfg s) = books s" "books (heartbeat_tick s) = books s"
  "books (handleMessageSafe v s) = books s" "books (change_socket k f s) = books s" "books (on ty h s) = books s"
  "books (off ty h s) = books s" "books (clearHeartbeatTimeout s) = books s" "books (with_mutex g s) = books s"
  "books (disconnect s) = books s" "books (end_task t ok s) = books s" "books (connect s) = books s"
  "books (attemptReconnect cfg s) = books s" "books (establishConnection t made s) = books s"
  "books (socket_message k v s) = books s" "books (socket_error k s) = books s" "books (socket_close cfg k s) = books s"
  "books (heartbeat_due cfg s) = books s"
  by (simp_all add: books_def emitStateChange_def give_up_def close_socket_def stopHeartbeat_def clearHeartbeatTimeout_def startHeartbeat_def
      heartbeat_tick_def handleMessageSafe_def change_socket_def on_def off_def with_mutex_def disconnect_def end_task_def connect_def
      attemptReconnect_def establishConnection_def socket_message_def socket_error_def socket_close_def heartbeat_due_def
      handleHeartbeatTimeout_def Let_def split: option.split jsval.split socket_made.split)

lemma books_observers [simp]:
  "books (s\<lparr> rl_stateChangeHandlers := hs \<rparr>) = books s" "books (s\<lparr> rl_now := t \<rparr>) = books s"
  by (simp_all add: books_def)

definition total_messages :: "relayer \<Rightarrow> jsval multiset" where
  "total_messages s = in_hand s + carried (rl_mutex s)"

lemma in_hand_books: "books s = books s' \<Longrightarrow> in_hand s = in_hand s'"
  by (simp add: books_def in_hand_def)

lemma accepted_books: "books s = books s' \<Longrightarrow> rl_accepted s = rl_accepted s'"
  by (simp add: books_def)

lemma in_hand_frame [simp]:
  "in_hand (emitStateChange tr s) = in_hand s" "in_hand (give_up cfg s) = in_hand s" "in_hand (with_mutex g s) = in_hand s"
  "in_hand (end_task t ok s) = in_hand s" "in_hand (attemptReconnect cfg s) = in_hand s"
  "in_hand (establishConnection tt made s) = in_hand s" "in_hand (connect s) = in_hand s"
  by (rule in_hand_books, simp)+

lemma accepted_frame [simp]:
  "rl_accepted (emitStateChange tr s) = rl_accepted s" "rl_accepted (give_up cfg s) = rl_accepted s"
  "rl_accepted (with_mutex g s) = rl_accepted s" "rl_accepted (end_task t ok s) = rl_accepted s"
  "rl_accepted (establishConnection tt made s) = rl_accepted s" "rl_accepted (connect s) = rl_accepted s"
  by (rule accepted_books, simp)+

lemma accepted_queue [simp]: "rl_accepted (queueMessage cfg m s) = rl_accepted s"
  by (simp add: queueMessage_def Let_def)

lemma total_same: "books s = books s' \<Longrightarrow> carried (rl_mutex s) = carried (rl_mutex s') \<Longrightarrow> total_messages s = total_messages s'"
  by (simp add: total_messages_def books_def in_hand_def)

lemma in_hand_queue: "in_hand (queueMessage cfg m s) = in_hand s + {#m#}"
proof (cases "rl_offlineQueue s")
  case (Cons q qs) then show ?thesis by (simp add: queueMessage_def Let_def in_hand_def)
qed (simp add: queueMessage_def Let_def in_hand_def)

lemma total_send: "total_messages (send cfg m s) = total_messages s + {#m#} \<and> rl_accepted (send cfg m s) = rl_accepted s"
proof -
  consider "send_refused s" | "\<not> send_refused s" "\<not> ws_open s" | "\<not> send_refused s" "ws_open s" by blast
  then show ?thesis
  proof cases
    case 1 then show ?thesis by (simp add: send_def total_messages_def in_hand_def)
  next
    case 2 then show ?thesis by (simp add: send_def total_messages_def in_hand_queue)
  next
    case 3 then show ?thesis by (simp add: send_def total_messages_def carried_acquire)
  qed
qed

lemma total_flush:
  "total_messages (flushPendingMessages cfg s) = total_messages s \<and> rl_accepted (flushPendingMessages cfg s) = rl_accepted s"
proof -
  have one: "total_messages (flush_one cfg now s q) = total_messages s + {#qm_message q#} \<and> rl_accepted (flush_one cfg now s q) = rl_accepted s"
    for now q and s :: relayer
    using total_send [of cfg "qm_message q" s] by (simp add: flush_one_def total_messages_def in_hand_def)
  have "total_messages (foldl (flush_one cfg now) s qs) = total_messages s + mset (List.map qm_message qs) \<and>
      rl_accepted (foldl (flush_one cfg now) s qs) = rl_accepted s" for now qs and s :: relayer
    by (induction qs arbitrary: s) (simp_all add: one)
  then show ?thesis by (simp add: flushPendingMessages_def total_messages_def in_hand_def)
qed

lemma total_attempt: "total_messages (attemptReconnect cfg s) = total_messages s"
  by (rule total_same) (simp_all add: attemptReconnect_def carried_acquire)

text \<open>A task that ends carries its message no more; one that goes on without one carries none.\<close>

lemma total_end:
  assumes "queue_ok (rl_mutex s)" "t < length (mx_tasks (rl_mutex s))" "holding (tk_pc (mx_tasks (rl_mutex s) ! t))"
  shows "total_messages (end_task t ok s) + task_messages (mx_tasks (rl_mutex s) ! t) = total_messages s"
proof -
  let ?m = "set_pc t (Done ok) (rl_mutex s)"
  have "queue_ok ?m" using assms holding_not_waiting [OF assms(3)] by (auto simp: queue_ok_def waiting_set_pc)
  moreover have "carried ?m + task_messages (mx_tasks (rl_mutex s) ! t) = carried (rl_mutex s)"
    using carried_set_pc [OF assms(2), of "Done ok"] by (simp add: task_messages_def split: task_kind.splits)
  ultimately show ?thesis by (simp add: total_messages_def carried_release add.assoc)
qed

lemma total_go_on:
  assumes "t < length (mx_tasks (rl_mutex s))" "task_messages (mx_tasks (rl_mutex s) ! t) = {#}" "p \<noteq> Queued" "p \<noteq> Entered"
  shows "total_messages (with_mutex (set_pc t p) s) = total_messages s"
  using carried_set_pc [OF assms(1), of p] assms(2-4)
  by (simp add: total_messages_def task_messages_def split: task_kind.splits)

lemma total_establish:
  assumes "t < length (mx_tasks (rl_mutex s))" "task_messages (mx_tasks (rl_mutex s) ! t) = {#}"
  shows "total_messages (establishConnection t made s) = total_messages s"
proof -
  have "books (establishConnection t made s) = books s" by simp
  moreover have "carried (rl_mutex (establishConnection t made s)) = carried (rl_mutex s)"
    using assms carried_set_pc [OF assms(1)]
    by (cases made) (simp_all add: establishConnection_def Let_def task_messages_def split: task_kind.splits)
  ultimately show ?thesis by (rule total_same)
qed

lemma carried_mutex: "rl_mutex s = rl_mutex s' \<Longrightarrow> books s = books s' \<Longrightarrow> total_messages s = total_messages s'"
  by (rule total_same) simp_all

lemma total_resume_send:
  assumes "queue_ok (rl_mutex s)" "t < length (mx_tasks (rl_mutex s))" "mx_tasks (rl_mutex s) ! t = \<lparr> tk_kind = Sending m, tk_pc = Entered \<rparr>"
  shows "total_messages (resume_send cfg t m s) = total_messages s \<and> rl_accepted (resume_send cfg t m s) = rl_accepted s"
proof -
  have ends: "total_messages (end_task t ok s') = total_messages s \<and> rl_accepted (end_task t ok s') = rl_accepted s"
    if "rl_mutex s' = rl_mutex s" "in_hand s' = in_hand s + {#m#}" "rl_accepted s' = rl_accepted s" for s' ok
  proof -
    have "total_messages (end_task t ok s') + {#m#} = total_messages s'"
      using total_end [of s' t ok] assms that(1) by (simp add: task_messages_def)
    then have "total_messages (end_task t ok s') + {#m#} = total_messages s + {#m#}" using that by (simp add: total_messages_def)
    then show ?thesis using that(3) by simp
  qed
  show ?thesis
    unfolding resume_send_def
    by (cases "send_refused s"; cases "ws_open s"; cases "bigint_free m")
       (simp_all add: ends in_hand_queue, simp_all add: ends in_hand_def)
qed

lemma total_resume_reconnect:
  assumes "queue_ok (rl_mutex s)" "t < length (mx_tasks (rl_mutex s))" "mx_tasks (rl_mutex s) ! t = \<lparr> tk_kind = Reconnecting, tk_pc = Entered \<rparr>"
  shows "total_messages (resume_reconnect cfg t r s) = total_messages s \<and> rl_accepted (resume_reconnect cfg t r s) = rl_accepted s"
proof (cases "shouldAttemptReconnect cfg s")
  case True
  define s1 where "s1 = emitStateChange To_reconnecting (s\<lparr> rl_reconnectAttempts := rl_reconnectAttempts s + 1 \<rparr>)"
  define s2 where "s2 = s1\<lparr> rl_delays := rl_delays s1 @ [backoff cfg (rl_reconnectAttempts s1) r] \<rparr>"
  have b: "books s2 = books s" "rl_mutex s2 = rl_mutex s" by (simp_all add: s2_def s1_def emitStateChange_def books_def Let_def)
  have "total_messages (with_mutex (set_pc t Sleeping) s2) = total_messages s2"
    by (rule total_go_on) (use assms b in \<open>simp_all add: task_messages_def\<close>)
  also have "\<dots> = total_messages s" using b by (intro carried_mutex) simp_all
  finally show ?thesis
    using True accepted_books [OF b(1)] by (simp add: resume_reconnect_def s2_def s1_def Let_def)
next
  case False
  have "total_messages (end_task t True (give_up cfg s)) = total_messages (give_up cfg s)"
    using total_end [of "give_up cfg s" t True] assms by (simp add: task_messages_def)
  also have "\<dots> = total_messages s" by (intro carried_mutex) simp_all
  finally show ?thesis using False by (simp add: resume_reconnect_def)
qed

lemma total_resume:
  assumes "queue_ok (rl_mutex s)"
  shows "total_messages (resume cfg t made r s) = total_messages s \<and> rl_accepted (resume cfg t made r s) = rl_accepted s"
proof (cases "t < length (mx_tasks (rl_mutex s))")
  case t: True
  obtain k p where tk: "mx_tasks (rl_mutex s) ! t = \<lparr> tk_kind = k, tk_pc = p \<rparr>" by (cases "mx_tasks (rl_mutex s) ! t") auto
  have ends: "total_messages (end_task t ok s) = total_messages s" if "holding p" "task_messages (mx_tasks (rl_mutex s) ! t) = {#}" for ok
    using total_end [OF assms t, of ok] that tk by simp
  have est: "total_messages (establishConnection t made s') = total_messages s"
    if "rl_mutex s' = rl_mutex s" "books s' = books s" "task_messages (mx_tasks (rl_mutex s) ! t) = {#}" for s'
    using total_establish [of t s' made] carried_mutex [OF that(1,2)] t that by simp
  show ?thesis
  proof (cases p)
    case Entered
    then show ?thesis
      using t tk ends est [of "emitStateChange To_connecting s"] total_resume_send [OF assms t] total_resume_reconnect [OF assms t]
      by (cases k) (simp_all add: resume_def Let_def task_messages_def)
  next
    case Sleeping
    then show ?thesis using t tk ends est [of s] by (simp add: resume_def Let_def task_messages_def split: task_kind.split)
  next
    case (Settled ok)
    then show ?thesis using t tk ends by (simp add: resume_def Let_def task_messages_def split: task_kind.split)
  qed (use t tk in \<open>simp_all add: resume_def Let_def\<close>)
qed (simp add: resume_def)

definition balanced :: "relayer \<Rightarrow> bool" where
  "balanced s = (mset (rl_accepted s) = total_messages s)"

lemma balanced_same:
  "balanced s \<Longrightarrow> books s' = books s \<Longrightarrow> carried (rl_mutex s') = carried (rl_mutex s) \<Longrightarrow> balanced s'"
  using total_same [of s' s] by (simp add: balanced_def books_def)

lemma total_destroy: "total_messages (destroy cfg s) = total_messages s \<and> rl_accepted (destroy cfg s) = rl_accepted s"
proof -
  define s0 where "s0 = s\<lparr> rl_isDestroyed := True, rl_reconnectEnabled := False, rl_reconnectExhausted := True,
    rl_connectPromise := None, rl_dropped := rl_dropped s @ List.map qm_message (rl_offlineQueue s), rl_offlineQueue := [],
    rl_reconnectAttempts := rc_maxReconnectAttempts cfg \<rparr>"
  have h: "in_hand s0 = in_hand s" "rl_accepted s0 = rl_accepted s" by (simp_all add: s0_def in_hand_def)
  have b: "books (destroy cfg s) = books s0"
    unfolding destroy_def s0_def [symmetric] Let_def
    by (simp add: books_def emitStateChange_def close_socket_def change_socket_def stopHeartbeat_def clearHeartbeatTimeout_def Let_def
        split: option.split)
  have "carried (rl_mutex (destroy cfg s)) = carried (rl_mutex s)"
    unfolding destroy_def Let_def by (simp add: carried_def)
  then show ?thesis using h in_hand_books [OF b] accepted_books [OF b] by (simp add: total_messages_def)
qed

lemma balanced_step:
  assumes "balanced s" "queue_ok (rl_mutex s)"
  shows "balanced (relayer_step cfg s e)"
proof (cases e)
  case (Call_send m)
  let ?s = "s\<lparr> rl_accepted := rl_accepted s @ [m] \<rparr>"
  have "total_messages ?s = total_messages s" by (simp add: total_messages_def in_hand_def)
  then show ?thesis using assms Call_send total_send [of cfg m ?s] by (simp add: balanced_def)
next
  case (Resumes t made r) then show ?thesis using assms total_resume [of s] by (simp add: balanced_def)
next
  case Call_destroy then show ?thesis using assms total_destroy by (simp add: balanced_def)
next
  case (Opens k)
  define s1 where "s1 = startHeartbeat cfg ((change_socket k (\<lambda>x. x\<lparr> rk_readyState := 1, rk_settled := True \<rparr>) s)
    \<lparr> rl_reconnectAttempts := 0, rl_reconnectExhausted := False \<rparr>)"
  have b: "books s1 = books s" "rl_mutex s1 = rl_mutex s" by (simp_all add: s1_def, simp add: books_def change_socket_def)
  let ?f = "emitStateChange To_connected (flushPendingMessages cfg s1)"
  have "balanced s1" using assms(1) by (rule balanced_same) (simp_all add: b)
  then have "balanced (flushPendingMessages cfg s1)" using total_flush [of cfg s1] by (simp add: balanced_def)
  then have "balanced ?f" by (rule balanced_same) simp_all
  then have "balanced (with_mutex (settle_socket k True) ?f)" by (rule balanced_same) simp_all
  moreover have "balanced (change_socket k f s)" for f using assms(1) by (rule balanced_same) simp_all
  ultimately show ?thesis using assms(1) Opens by (simp add: socket_open_def Let_def s1_def)
next
  case (Closes k)
  show ?thesis using assms(1) unfolding Closes relayer_step.simps
    by (rule balanced_same) (simp, simp add: socket_close_def attemptReconnect_def carried_acquire Let_def)
next
  case Heartbeat_due
  show ?thesis using assms(1) unfolding Heartbeat_due relayer_step.simps
    by (rule balanced_same)
       (simp, simp add: heartbeat_due_def handleHeartbeatTimeout_def attemptReconnect_def carried_acquire Let_def split: option.split)
next
  case (Fails k)
  show ?thesis using assms(1) unfolding Fails relayer_step.simps
    by (rule balanced_same) (simp, simp add: socket_error_def Let_def)
next
  case (Receives k v)
  show ?thesis using assms(1) unfolding Receives relayer_step.simps
    by (rule balanced_same) (simp, simp add: socket_message_def Let_def)
next
  case Call_connect
  show ?thesis using assms(1) unfolding Call_connect relayer_step.simps
    by (rule balanced_same) (simp, simp add: connect_def carried_acquire Let_def)
qed ((rule balanced_same [OF assms(1)]; simp)+)

lemma run_balanced: "balanced (relayer_run opts evs)"
proof (induction evs rule: rev_induct)
  case Nil
  show ?case by (simp add: relayer_run_def new_WebSocketRelayer_def balanced_def total_messages_def in_hand_def carried_def)
next
  case (snoc e evs) then show ?case by (simp add: run_snoc balanced_step run_queue)
qed

section \<open>Bounds\<close>

definition in_bounds :: "relayer_config \<Rightarrow> relayer \<Rightarrow> bool" where
  "in_bounds cfg s =
    (int (length (rl_offlineQueue s)) \<le> max 1 (rc_maxPendingMessages cfg) \<and>
     0 \<le> rl_reconnectAttempts s \<and> rl_reconnectAttempts s \<le> rc_maxReconnectAttempts cfg)"

lemma attempts_frame [simp]:
  "rl_reconnectAttempts (emitStateChange tr s) = rl_reconnectAttempts s" "rl_reconnectAttempts (give_up cfg s) = rl_reconnectAttempts s"
  "rl_reconnectAttempts (close_socket k s) = rl_reconnectAttempts s" "rl_reconnectAttempts (stopHeartbeat s) = rl_reconnectAttempts s"
  "rl_reconnectAttempts (startHeartbeat cfg s) = rl_reconnectAttempts s" "rl_reconnectAttempts (heartbeat_tick s) = rl_reconnectAttempts s"
  "rl_reconnectAttempts (queueMessage cfg m s) = rl_reconnectAttempts s" "rl_reconnectAttempts (handleMessageSafe v s) = rl_reconnectAttempts s"
  "rl_reconnectAttempts (change_socket k f s) = rl_reconnectAttempts s" "rl_reconnectAttempts (on ty h s) = rl_reconnectAttempts s"
  "rl_reconnectAttempts (off ty h s) = rl_reconnectAttempts s" "rl_reconnectAttempts (clearHeartbeatTimeout s) = rl_reconnectAttempts s"
  "rl_reconnectAttempts (with_mutex g s) = rl_reconnectAttempts s" "rl_reconnectAttempts (end_task t ok s) = rl_reconnectAttempts s"
  "rl_reconnectAttempts (attemptReconnect cfg s) = rl_reconnectAttempts s" "rl_reconnectAttempts (send cfg m s) = rl_reconnectAttempts s"
  "rl_reconnectAttempts (establishConnection tt made s) = rl_reconnectAttempts s"
  by (simp_all add: emitStateChange_def give_up_def close_socket_def stopHeartbeat_def clearHeartbeatTimeout_def startHeartbeat_def
      heartbeat_tick_def queueMessage_def handleMessageSafe_def change_socket_def on_def off_def with_mutex_def
      end_task_def attemptReconnect_def send_def establishConnection_def Let_def split: option.split jsval.split socket_made.split)

lemma bounds_books: "in_bounds cfg s \<Longrightarrow> books s' = books s \<Longrightarrow> rl_reconnectAttempts s' = rl_reconnectAttempts s \<Longrightarrow> in_bounds cfg s'"
  by (simp add: in_bounds_def books_def)

lemma bounds_queue: "in_bounds cfg s \<Longrightarrow> in_bounds cfg (queueMessage cfg m s)"
  by (auto simp: in_bounds_def queueMessage_def Let_def)

lemma bounds_drop: "in_bounds cfg s \<Longrightarrow> in_bounds cfg (s\<lparr> rl_dropped := d \<rparr>)"
  by (simp add: in_bounds_def)

lemma bounds_send: "in_bounds cfg s \<Longrightarrow> in_bounds cfg (send cfg m s)"
proof -
  assume w: "in_bounds cfg s"
  have "in_bounds cfg (with_mutex (acquireLock (Sending m)) s)" by (rule bounds_books [OF w]) simp_all
  then show ?thesis using w by (simp add: send_def bounds_queue bounds_drop)
qed

lemma bounds_flush: "in_bounds cfg s \<Longrightarrow> in_bounds cfg (flushPendingMessages cfg s)"
proof -
  have "in_bounds cfg s \<Longrightarrow> in_bounds cfg (foldl (flush_one cfg now) s qs)" for now qs and s :: relayer
    by (induction qs arbitrary: s) (simp_all add: flush_one_def bounds_send bounds_drop)
  moreover assume "in_bounds cfg s"
  then have "in_bounds cfg (s\<lparr> rl_offlineQueue := [] \<rparr>)" by (simp add: in_bounds_def)
  ultimately show ?thesis by (simp add: flushPendingMessages_def)
qed

lemma bounds_end: "in_bounds cfg s \<Longrightarrow> in_bounds cfg (end_task t ok s)"
  by (rule bounds_books) simp_all

lemma bounds_establish: "in_bounds cfg s \<Longrightarrow> in_bounds cfg (establishConnection t made s)"
  by (rule bounds_books) simp_all

lemma bounds_emit: "in_bounds cfg s \<Longrightarrow> in_bounds cfg (emitStateChange tr s)"
  by (rule bounds_books) simp_all

lemma bounds_resume:
  assumes "in_bounds cfg s"
  shows "in_bounds cfg (resume cfg t made r s)"
proof -
  have send: "in_bounds cfg (resume_send cfg t m s)" for m
    using assms bounds_queue [OF assms, of m] bounds_drop [OF assms]
    by (simp add: resume_send_def bounds_end) (simp add: in_bounds_def end_task_def with_mutex_def Let_def)
  have "in_bounds cfg (resume_reconnect cfg t r s)"
  proof (cases "shouldAttemptReconnect cfg s")
    case True
    define s1 where "s1 = emitStateChange To_reconnecting (s\<lparr> rl_reconnectAttempts := rl_reconnectAttempts s + 1 \<rparr>)"
    have "in_bounds cfg s1"
      unfolding s1_def by (rule bounds_emit) (use assms True in \<open>simp add: in_bounds_def shouldAttemptReconnect_def\<close>)
    then have "in_bounds cfg (with_mutex (set_pc t Sleeping) (s1\<lparr> rl_delays := d \<rparr>))" for d
      by (rule bounds_books) (simp, simp add: books_def, simp)
    then show ?thesis using True by (simp add: resume_reconnect_def s1_def Let_def)
  next
    case False
    have "in_bounds cfg (end_task t True (give_up cfg s))" by (rule bounds_books [OF assms]) simp_all
    then show ?thesis using False by (simp add: resume_reconnect_def)
  qed
  then show ?thesis using assms send
    by (simp add: resume_def bounds_end bounds_establish bounds_emit Let_def split: task_pc.split task_kind.split)
qed

lemma bounds_reset: "in_bounds cfg s \<Longrightarrow> 0 \<le> rc_maxReconnectAttempts cfg \<Longrightarrow> books s' = books s \<Longrightarrow>
    rl_reconnectAttempts s' = 0 \<or> rl_reconnectAttempts s' = rl_reconnectAttempts s \<Longrightarrow> in_bounds cfg s'"
  by (auto simp: in_bounds_def books_def)

lemma bounds_step:
  assumes "in_bounds cfg s" "0 \<le> rc_maxReconnectAttempts cfg"
  shows "in_bounds cfg (relayer_step cfg s e)"
proof (cases e)
  case (Call_send m)
  have "in_bounds cfg (s\<lparr> rl_accepted := rl_accepted s @ [m] \<rparr>)" using assms(1) by (simp add: in_bounds_def)
  then show ?thesis using assms(1) Call_send by (simp add: bounds_send)
next
  case (Resumes t made r) then show ?thesis using assms(1) by (simp add: bounds_resume)
next
  case Call_connect
  show ?thesis unfolding Call_connect relayer_step.simps
    by (rule bounds_reset [OF assms]) (simp, simp add: connect_def Let_def)
next
  case Call_disconnect
  show ?thesis unfolding Call_disconnect relayer_step.simps
    by (rule bounds_reset [OF assms]) (simp, simp add: disconnect_def Let_def split: option.split)
next
  case Call_destroy
  have "rl_offlineQueue (destroy cfg s) = [] \<and> rl_reconnectAttempts (destroy cfg s) = rc_maxReconnectAttempts cfg"
    by (simp add: destroy_def emitStateChange_def close_socket_def change_socket_def stopHeartbeat_def clearHeartbeatTimeout_def Let_def
        split: option.split)
  then show ?thesis using Call_destroy assms(2) by (simp add: in_bounds_def)
next
  case (Opens k)
  define s1 where "s1 = startHeartbeat cfg ((change_socket k (\<lambda>x. x\<lparr> rk_readyState := 1, rk_settled := True \<rparr>) s)
    \<lparr> rl_reconnectAttempts := 0, rl_reconnectExhausted := False \<rparr>)"
  have "in_bounds cfg s1"
    unfolding s1_def by (rule bounds_reset [OF assms]) (simp, simp add: books_def change_socket_def, simp)
  then have "in_bounds cfg (emitStateChange To_connected (flushPendingMessages cfg s1))"
    by (intro bounds_emit bounds_flush)
  then have "in_bounds cfg (with_mutex (settle_socket k True) (emitStateChange To_connected (flushPendingMessages cfg s1)))"
    by (rule bounds_books) simp_all
  moreover have "in_bounds cfg (change_socket k f s)" for f by (rule bounds_books [OF assms(1)]) simp_all
  ultimately show ?thesis using assms(1) Opens by (simp add: socket_open_def Let_def s1_def)
next
  case (Closes k)
  show ?thesis unfolding Closes relayer_step.simps
    by (rule bounds_books [OF assms(1)]) (simp, simp add: socket_close_def Let_def)
next
  case Heartbeat_due
  show ?thesis unfolding Heartbeat_due relayer_step.simps
    by (rule bounds_books [OF assms(1)]) (simp, simp add: heartbeat_due_def handleHeartbeatTimeout_def Let_def split: option.split)
next
  case (Fails k)
  show ?thesis unfolding Fails relayer_step.simps
    by (rule bounds_books [OF assms(1)]) (simp, simp add: socket_error_def Let_def)
next
  case (Receives k v)
  show ?thesis unfolding Receives relayer_step.simps
    by (rule bounds_books [OF assms(1)]) (simp, simp add: socket_message_def Let_def)
qed ((rule bounds_books [OF assms(1)]; simp)+)

lemma run_bounds:
  assumes "0 \<le> rc_maxReconnectAttempts (relayer_config_of opts)"
  shows "in_bounds (relayer_config_of opts) (relayer_run opts evs)"
proof (induction evs rule: rev_induct)
  case Nil
  show ?case using assms by (simp add: relayer_run_def new_WebSocketRelayer_def in_bounds_def)
next
  case (snoc e evs) then show ?case using assms by (simp add: run_snoc bounds_step)
qed

end
