(* ===== verification/Relayer_Runs.thy ===== *)
theory Relayer_Runs
  imports Relayer_Properties
begin

text \<open>
  The properties of the WebSocket relayer, and the runs that show where it fails its intentions.
\<close>

section \<open>Announced transitions\<close>

definition announced :: "relayer \<Rightarrow> RelayerStateTransition \<times> (RelayerStateTransition \<times> RelayerState \<times> nat list) list" where
  "announced s = (rl_transition s, rl_emitted s)"

definition chain_ok :: "relayer \<Rightarrow> bool" where
  "chain_ok s = (let ts = To_disconnected # List.map fst (rl_emitted s) in distinct_adj ts \<and> last ts = rl_transition s)"

lemma chain_same: "chain_ok s \<Longrightarrow> announced s' = announced s \<Longrightarrow> chain_ok s'"
  by (simp add: chain_ok_def announced_def)

lemma announced_frame [simp]:
  "announced (close_socket k s) = announced s" "announced (stopHeartbeat s) = announced s"
  "announced (startHeartbeat cfg s) = announced s" "announced (heartbeat_tick s) = announced s"
  "announced (queueMessage cfg m s) = announced s" "announced (handleMessageSafe v s) = announced s"
  "announced (change_socket k f s) = announced s" "announced (on ty h s) = announced s" "announced (off ty h s) = announced s"
  "announced (clearHeartbeatTimeout s) = announced s" "announced (with_mutex g s) = announced s"
  "announced (end_task t ok s) = announced s" "announced (send cfg m s) = announced s" "announced (connect s) = announced s"
  "announced (resume_send cfg t m s) = announced s" "announced (socket_message k v s) = announced s" "announced (socket_error k s) = announced s"
  by (simp_all add: announced_def close_socket_def stopHeartbeat_def clearHeartbeatTimeout_def startHeartbeat_def heartbeat_tick_def
      queueMessage_def handleMessageSafe_def change_socket_def on_def off_def with_mutex_def end_task_def send_def connect_def
      resume_send_def socket_message_def socket_error_def Let_def split: option.split jsval.split)

lemma announced_updates [simp]:
  "announced (s\<lparr> rl_ws := x1 \<rparr>) = announced s" "announced (s\<lparr> rl_reconnectExhausted := x2 \<rparr>) = announced s"
  "announced (s\<lparr> rl_sockets := x3 \<rparr>) = announced s" "announced (s\<lparr> rl_reconnectAttempts := x4 \<rparr>) = announced s"
  "announced (s\<lparr> rl_heartbeatTimeout := x5 \<rparr>) = announced s" "announced (s\<lparr> rl_delays := x6 \<rparr>) = announced s"
  "announced (s\<lparr> rl_stateChangeHandlers := x7 \<rparr>) = announced s" "announced (s\<lparr> rl_now := x8 \<rparr>) = announced s"
  "announced (s\<lparr> rl_accepted := x9 \<rparr>) = announced s" "announced (s\<lparr> rl_dropped := x10 \<rparr>) = announced s"
  by (simp_all add: announced_def)

lemma announced_flush [simp]: "announced (flushPendingMessages cfg s) = announced s"
proof -
  have "announced (foldl (flush_one cfg now) s qs) = announced s" for now qs and s :: relayer
    by (induction qs arbitrary: s) (simp_all add: flush_one_def)
  then show ?thesis by (simp add: flushPendingMessages_def) (simp add: announced_def)
qed

lemma distinct_adj_snoc: "distinct_adj xs \<Longrightarrow> xs \<noteq> [] \<Longrightarrow> last xs \<noteq> x \<Longrightarrow> distinct_adj (xs @ [x])"
  by (simp add: distinct_adj_append_iff)

lemma chain_emit:
  assumes "chain_ok s"
  shows "chain_ok (emitStateChange tr s)"
proof (cases "rl_transition s = tr")
  case True then show ?thesis using assms by (simp add: emitStateChange_def)
next
  case False
  let ?ts = "To_disconnected # List.map fst (rl_emitted s)"
  have "distinct_adj (?ts @ [tr])"
    using assms False by (intro distinct_adj_snoc) (simp_all add: chain_ok_def Let_def)
  then show ?thesis using False by (simp add: emitStateChange_def chain_ok_def Let_def)
qed

lemma chain_give_up: "chain_ok s \<Longrightarrow> chain_ok (give_up cfg s)"
  by (auto simp: give_up_def intro!: chain_emit elim: chain_same)

lemma chain_attempt: "chain_ok s \<Longrightarrow> chain_ok (attemptReconnect cfg s)"
  by (auto simp: attemptReconnect_def chain_give_up elim: chain_same)

lemma chain_establish: "chain_ok s \<Longrightarrow> chain_ok (establishConnection t made s)"
  using chain_emit [of s To_disconnected]
  by (cases made) (auto simp: establishConnection_def Let_def elim: chain_same)

lemma chain_resume: "chain_ok s \<Longrightarrow> chain_ok (resume cfg t made r s)"
proof -
  assume c: "chain_ok s"
  have e: "chain_ok (end_task t ok s')" if "chain_ok s'" for s' ok using that by (rule chain_same) simp
  have "chain_ok (resume_reconnect cfg t r s)"
  proof (cases "shouldAttemptReconnect cfg s")
    case True
    have "chain_ok (s\<lparr> rl_reconnectAttempts := n \<rparr>)" for n using c by (rule chain_same) simp
    then have "chain_ok (emitStateChange To_reconnecting (s\<lparr> rl_reconnectAttempts := n \<rparr>))" for n by (rule chain_emit)
    then have "chain_ok (with_mutex g ((emitStateChange To_reconnecting (s\<lparr> rl_reconnectAttempts := n \<rparr>))\<lparr> rl_delays := d \<rparr>))" for n d g
      by (rule chain_same) simp
    then show ?thesis using True by (simp add: resume_reconnect_def Let_def)
  qed (simp add: resume_reconnect_def e chain_give_up c)
  moreover have "chain_ok (resume_send cfg t m s)" for m using c by (rule chain_same) simp
  ultimately show ?thesis using c
    by (simp add: resume_def e chain_establish chain_emit Let_def split: task_pc.split task_kind.split)
qed

lemma chain_step:
  assumes "chain_ok s"
  shows "chain_ok (relayer_step cfg s e)"
proof (cases e)
  case (Resumes t made r) then show ?thesis using assms by (simp add: chain_resume)
next
  case (Opens k)
  have "chain_ok (flushPendingMessages cfg (startHeartbeat cfg ((change_socket k f s)\<lparr> rl_reconnectAttempts := 0, rl_reconnectExhausted := False \<rparr>)))" for f
    using assms by (rule chain_same) simp
  then have "chain_ok (with_mutex g (emitStateChange To_connected (flushPendingMessages cfg (startHeartbeat cfg
      ((change_socket k f s)\<lparr> rl_reconnectAttempts := 0, rl_reconnectExhausted := False \<rparr>)))))" for f g
    by (rule chain_same [OF chain_emit]) simp
  moreover have "chain_ok (change_socket k f s)" for f using assms by (rule chain_same) simp
  ultimately show ?thesis using assms Opens by (simp add: socket_open_def Let_def)
next
  case (Closes k)
  have "chain_ok ((stopHeartbeat (change_socket k f s))\<lparr> rl_ws := None \<rparr>)" for f using assms by (rule chain_same) simp
  moreover have "chain_ok (with_mutex g ((stopHeartbeat (change_socket k f s))\<lparr> rl_ws := None \<rparr>))" for f g
    using assms by (rule chain_same) simp
  moreover have "chain_ok (change_socket k f s)" for f using assms by (rule chain_same) simp
  ultimately show ?thesis using assms Closes by (simp add: socket_close_def Let_def chain_attempt chain_give_up)
next
  case Heartbeat_due
  have "chain_ok (handleHeartbeatTimeout cfg (s\<lparr> rl_heartbeatTimeout := False \<rparr>))"
  proof -
    define s3 where "s3 = (let s1 = stopHeartbeat (s\<lparr> rl_heartbeatTimeout := False \<rparr>); s2 = s1\<lparr> rl_ws := None \<rparr> in
      case rl_ws (s\<lparr> rl_heartbeatTimeout := False \<rparr>) of None \<Rightarrow> s2
      | Some k \<Rightarrow> close_socket k (s2\<lparr> rl_sockets := (rl_sockets s2)[k := (rl_sockets s2 ! k)\<lparr> rk_onopen := False, rk_others := False \<rparr>] \<rparr>))"
    have "announced s3 = announced s" by (simp add: s3_def Let_def split: option.split)
    then have "chain_ok s3" by (rule chain_same [OF assms])
    then show ?thesis unfolding handleHeartbeatTimeout_def Let_def s3_def [unfolded Let_def, symmetric]
      by (simp add: chain_attempt chain_give_up)
  qed
  moreover have "chain_ok (s\<lparr> rl_heartbeatTimeout := False \<rparr>)" using assms by (rule chain_same) simp
  ultimately show ?thesis using assms Heartbeat_due by (simp add: heartbeat_due_def Let_def)
next
  case Call_disconnect
  show ?thesis unfolding Call_disconnect relayer_step.simps disconnect_def Let_def
    by (rule chain_emit, rule chain_same [OF assms]) (simp split: option.split, simp add: announced_def)
next
  case Call_destroy
  define s2 where "s2 = (let s1 = stopHeartbeat (s\<lparr> rl_isDestroyed := True, rl_reconnectEnabled := False, rl_reconnectExhausted := True,
           rl_connectPromise := None, rl_dropped := rl_dropped s @ List.map qm_message (rl_offlineQueue s), rl_offlineQueue := [],
           rl_reconnectAttempts := rc_maxReconnectAttempts cfg \<rparr>) in
    case rl_ws s1 of Some k \<Rightarrow> (close_socket k (change_socket k (\<lambda>x. x\<lparr> rk_others := False \<rparr>) s1))\<lparr> rl_ws := None \<rparr> | None \<Rightarrow> s1)"
  have "announced s2 = announced s" by (simp add: s2_def Let_def split: option.split) (simp add: announced_def)
  then have "chain_ok (emitStateChange To_destroyed s2)" by (intro chain_emit chain_same [OF assms])
  then show ?thesis unfolding Call_destroy relayer_step.simps destroy_def Let_def s2_def [unfolded Let_def, symmetric]
    by (rule chain_same) (simp add: announced_def)
next
  case Call_connect show ?thesis unfolding Call_connect by (rule chain_same [OF assms]) simp
next
  case (Call_send m) show ?thesis unfolding Call_send by (rule chain_same [OF assms]) simp
next
  case (Call_on ty h) show ?thesis unfolding Call_on by (rule chain_same [OF assms]) simp
next
  case (Call_off ty h) show ?thesis unfolding Call_off by (rule chain_same [OF assms]) simp
next
  case (Call_onStateChange h) show ?thesis unfolding Call_onStateChange by (rule chain_same [OF assms]) simp
next
  case (Call_offStateChange h) show ?thesis unfolding Call_offStateChange by (rule chain_same [OF assms]) simp
next
  case (Receives k v) show ?thesis unfolding Receives by (rule chain_same [OF assms]) simp
next
  case (Fails k) show ?thesis unfolding Fails by (rule chain_same [OF assms]) simp
next
  case Heartbeat_tick show ?thesis unfolding Heartbeat_tick by (rule chain_same [OF assms]) simp
next
  case (Clock t) show ?thesis unfolding Clock by (rule chain_same [OF assms]) simp
qed

lemma run_chain: "chain_ok (relayer_run opts evs)"
proof (induction evs rule: rev_induct)
  case Nil then show ?case by (simp add: relayer_run_def new_WebSocketRelayer_def chain_ok_def)
next
  case (snoc e evs) then show ?case by (simp add: run_snoc chain_step)
qed

section \<open>Nothing is sent after the end\<close>

lemma sent_frame: "books s' = books s \<Longrightarrow> rl_sent s' = rl_sent s"
  by (simp add: books_def)

lemma sent_send [simp]: "rl_sent (send cfg m s) = rl_sent s"
  by (simp add: send_def queueMessage_def with_mutex_def Let_def)

lemma sent_flush [simp]: "rl_sent (flushPendingMessages cfg s) = rl_sent s"
proof -
  have "rl_sent (foldl (flush_one cfg now) s qs) = rl_sent s" for now qs and s :: relayer
    by (induction qs arbitrary: s) (simp_all add: flush_one_def)
  then show ?thesis by (simp add: flushPendingMessages_def)
qed

lemma sent_destroyed: "rl_isDestroyed s \<Longrightarrow> rl_sent (relayer_step cfg s e) = rl_sent s"
proof (cases e)
  assume d: "rl_isDestroyed s"
  case (Resumes t made r)
  have "rl_sent (resume_send cfg t m s) = rl_sent s" for m
    using d by (simp add: resume_send_def send_refused_def end_task_def with_mutex_def Let_def)
  then show ?thesis using d Resumes
    by (auto simp: resume_def resume_reconnect_def shouldAttemptReconnect_def Let_def intro!: sent_frame split: task_pc.split task_kind.split)
next
  case (Opens k)
  then show ?thesis by (simp add: socket_open_def startHeartbeat_def stopHeartbeat_def clearHeartbeatTimeout_def change_socket_def
      emitStateChange_def with_mutex_def Let_def)
next
  case (Call_send m)
  assume "rl_isDestroyed s" then show ?thesis using Call_send by (simp add: send_refused_def)
next
  case Call_destroy
  then show ?thesis by (simp add: destroy_def emitStateChange_def close_socket_def change_socket_def stopHeartbeat_def
      clearHeartbeatTimeout_def Let_def split: option.split)
qed ((rule sent_frame; simp)+)

lemma run_append: "relayer_run opts (evs @ evs') = foldl (relayer_step (relayer_config_of opts)) (relayer_run opts evs) evs'"
  by (simp add: relayer_run_def)

lemma destroyed_run_sends: "rl_isDestroyed s \<Longrightarrow> rl_sent (foldl (relayer_step cfg) s evs) = rl_sent s"
proof (induction evs arbitrary: s)
  case (Cons e evs)
  then show ?case using destroyed_step [of cfg s e] sent_destroyed [of s cfg e] by simp
qed simp

section \<open>Runs where the relayer fails its intentions\<close>

definition default_relayer :: WebSocketRelayerOptions where
  "default_relayer = \<lparr> wo_maxPendingMessages = None, wo_maxReconnectAttempts = None, wo_reconnectDelayMs = None,
     wo_maxReconnectDelayMs = None, wo_heartbeatIntervalMs = None, wo_heartbeatTimeoutMs = None,
     wo_offlineBufferTtlMs = None, wo_onStateChange = None \<rparr>"

definition connected_run :: "relayer_event list" where
  "connected_run = [Call_connect, Resumes 0 Socket_made 0, Opens 0, Resumes 0 Socket_made 0]"

text \<open>
  disconnect leaves the handlers of the socket attached: its close event, when it comes after
  the next connect, drops the new socket and reconnects, and two sockets stay open, of which the
  relayer knows one; messages arrive on both.
\<close>
lemma stale_close_leaks_socket:
  "let s = relayer_run default_relayer (connected_run @ [Call_disconnect, Call_connect, Resumes 1 Socket_made 0, Closes 0, Opens 1,
      Resumes 1 Socket_made 0, Resumes 2 Socket_made 0, Resumes 2 Socket_made 0, Opens 2])
   in List.map (\<lambda>k. rk_readyState k = 1 \<and> rk_others k) (rl_sockets s) = [False, True, True] \<and> rl_ws s = Some 2"
  by code_simp

text \<open>
  doConnect does not look again after it waited for the lock: connect followed at once by destroy
  opens a socket all the same, and its heartbeat pings for ever.
\<close>
lemma destroyed_relayer_connects:
  "let s = relayer_run default_relayer [Call_connect, Call_destroy, Resumes 0 Socket_made 0, Opens 0, Heartbeat_tick]
   in rl_isDestroyed s \<and> ws_open s \<and> rl_pings s = [0] \<and> rl_transition s = To_connected"
  by code_simp

text \<open>
  destroy forgets the calls in the lock's queue and detaches the close handler of a connecting
  socket: a send that waits for the lock and a connect under way never settle.
\<close>
lemma destroy_leaves_calls_hanging:
  "let s = relayer_run default_relayer (connected_run @ [Call_send JNull, Call_send JNull, Call_destroy, Resumes 1 Socket_made 0, Resumes 2 Socket_made 0])
   in lockQueue (rl_mutex s) = [] \<and> List.map tk_pc (mx_tasks (rl_mutex s)) = [Done True, Done False, Queued]"
  "let s = relayer_run default_relayer [Call_connect, Resumes 0 Socket_made 0, Call_destroy, Closes 0, Resumes 0 Socket_made 0]
   in List.map tk_pc (mx_tasks (rl_mutex s)) = [Awaiting 0] \<and> List.map rk_readyState (rl_sockets s) = [3]"
  by code_simp+

text \<open>
  A send that waits for the lock while the socket closes is queued behind a later send that finds
  the relayer offline at once: the two messages leave in the wrong order.
\<close>
lemma closing_reorders_messages:
  "List.map qm_message (rl_offlineQueue (relayer_run default_relayer
     (connected_run @ [Call_send (JString ''first''), Closes 0, Call_send (JString ''second''), Resumes 1 Socket_made 0]))) =
   [JString ''second'', JString ''first'']"
  by code_simp

text \<open>
  A constructor that throws during a reconnect ends the reconnect: nothing is pending any more,
  attempts are left, and the state reports that it is reconnecting.
\<close>
lemma failed_construction_strands:
  "let s = relayer_run default_relayer (connected_run @ [Closes 0, Resumes 1 Socket_made 0, Resumes 1 Construction_fails 0, Resumes 1 Socket_made 0])
   in List.map tk_pc (mx_tasks (rl_mutex s)) = [Done True, Done False] \<and> rs_reconnecting (relayer_state s) \<and>
      rl_reconnectAttempts s = 1 \<and> \<not> rl_reconnectExhausted s"
  by code_simp

section \<open>Properties\<close>

text \<open>
  C11: The lock, until destroy: at most one call is past acquireLock and not finished, exactly one
  while it is locked, so that at most one connection is being made; the waiting calls are in the
  queue once each, and only while someone holds the lock.
\<close>
theorem relayer_lock_exclusive:
  assumes "Call_destroy \<notin> set evs"
  shows "length (filter (\<lambda>tk. holding (tk_pc tk)) (mx_tasks (rl_mutex (relayer_run opts evs)))) =
      (if isLocked (rl_mutex (relayer_run opts evs)) then 1 else 0) \<and>
    distinct (lockQueue (rl_mutex (relayer_run opts evs))) \<and>
    set (lockQueue (rl_mutex (relayer_run opts evs))) = waiting (rl_mutex (relayer_run opts evs)) \<and>
    (lockQueue (rl_mutex (relayer_run opts evs)) \<noteq> [] \<longrightarrow> isLocked (rl_mutex (relayer_run opts evs)))"
proof -
  have "length (filter P xs) = sum_list (List.map (\<lambda>x. if P x then 1 else 0) xs)" for P and xs :: "task list"
    by (induction xs) auto
  then show ?thesis using run_lock [OF assms, of opts] by (simp add: lock_ok_def holders_def)
qed

lemma relayer_lock_exclusive_witness:
  "set (lockQueue (rl_mutex (relayer_run default_relayer (connected_run @ [Call_send JNull, Call_send JNull])))) =
   waiting (rl_mutex (relayer_run default_relayer (connected_run @ [Call_send JNull, Call_send JNull])))"
  using relayer_lock_exclusive [of "connected_run @ [Call_send JNull, Call_send JNull]" default_relayer]
  by (simp add: connected_run_def)

text \<open>
  C12: No message is lost track of: the messages send accepted are, as a multiset, those sent, those in
  the offline queue, those carried by calls in the lock, and those dropped, under every order of
  calls, socket events, timers and microtasks, destroy included.
\<close>
theorem relayer_accounts_for_messages:
  "mset (rl_accepted (relayer_run opts evs)) =
    mset (List.map snd (rl_sent (relayer_run opts evs))) + mset (List.map qm_message (rl_offlineQueue (relayer_run opts evs))) +
    mset (rl_dropped (relayer_run opts evs)) + carried (rl_mutex (relayer_run opts evs))"
  using run_balanced [of opts evs] by (simp add: balanced_def total_messages_def in_hand_def)

lemma jittered:
  fixes d r :: rat
  assumes "0 \<le> d" "0 \<le> r" "r \<le> 1"
  shows "d / 2 \<le> d * (1 / 2 + r * (1 / 2)) \<and> d * (1 / 2 + r * (1 / 2)) \<le> d"
proof -
  have "0 \<le> d * r" "d * r \<le> d" using assms by (simp_all add: mult_left_le)
  then show ?thesis by (simp add: distrib_left)
qed

text \<open>
  C13: The offline queue never grows beyond its maximum (or one message, when that is smaller), the
  attempts stay between zero and theirs, and a delay before a reconnect is between half and all
  of the capped exponential one.
\<close>
theorem relayer_bounds:
  assumes "0 \<le> rc_maxReconnectAttempts (relayer_config_of opts)" "0 \<le> r" "r \<le> 1"
    and "0 \<le> rc_maxReconnectDelayMs (relayer_config_of opts)" "0 \<le> rc_reconnectDelayMs (relayer_config_of opts)"
  shows "int (length (rl_offlineQueue (relayer_run opts evs))) \<le> max 1 (rc_maxPendingMessages (relayer_config_of opts)) \<and>
    0 \<le> rl_reconnectAttempts (relayer_run opts evs) \<and>
    rl_reconnectAttempts (relayer_run opts evs) \<le> rc_maxReconnectAttempts (relayer_config_of opts) \<and>
    (let d = min (rc_maxReconnectDelayMs (relayer_config_of opts)) (rc_reconnectDelayMs (relayer_config_of opts) * 2 ^ nat (n - 1))
     in d / 2 \<le> Relayer.backoff (relayer_config_of opts) n r \<and> Relayer.backoff (relayer_config_of opts) n r \<le> d)"
proof -
  let ?d = "min (rc_maxReconnectDelayMs (relayer_config_of opts)) (rc_reconnectDelayMs (relayer_config_of opts) * 2 ^ nat (n - 1))"
  have "0 \<le> ?d" using assms by simp
  then have "?d / 2 \<le> ?d * (1 / 2 + r * (1 / 2)) \<and> ?d * (1 / 2 + r * (1 / 2)) \<le> ?d"
    by (rule jittered) (use assms in simp_all)
  then have "?d / 2 \<le> Relayer.backoff (relayer_config_of opts) n r" "Relayer.backoff (relayer_config_of opts) n r \<le> ?d"
    unfolding Relayer.backoff_def by blast+
  then show ?thesis using run_bounds [OF assms(1), of evs] by (simp add: in_bounds_def Let_def)
qed

lemma relayer_bounds_witness:
  "rl_reconnectAttempts (relayer_run default_relayer (connected_run @ [Closes 0])) \<le> rc_maxReconnectAttempts (relayer_config_of default_relayer)"
  using relayer_bounds [of default_relayer 0 "connected_run @ [Closes 0]" 1]
  by (simp add: relayer_config_of_def default_relayer_def given_or_def)

text \<open>
  Observers are told only of changes: no two announcements in a row are equal, the first is not
  disconnected, the state the relayer starts in, and the last is the state it is in.
\<close>
theorem relayer_announces_changes:
  "let ts = To_disconnected # List.map fst (rl_emitted (relayer_run opts evs))
   in distinct_adj ts \<and> last ts = rl_transition (relayer_run opts evs)"
  using run_chain [of opts evs] by (simp add: chain_ok_def)

text \<open>
  After destroy no message leaves the relayer, whatever is called, whichever call was waiting and
  whatever socket still opens: the messages sent are those sent before.
\<close>
theorem destroyed_sends_nothing:
  "rl_sent (relayer_run opts (evs @ Call_destroy # evs')) = rl_sent (relayer_run opts evs)"
proof -
  let ?s = "relayer_run opts evs" and ?cfg = "relayer_config_of opts"
  have "rl_sent (foldl (relayer_step ?cfg) (relayer_step ?cfg ?s Call_destroy) evs') = rl_sent (relayer_step ?cfg ?s Call_destroy)"
    by (rule destroyed_run_sends) (simp only: destroyed_step, simp)
  also have "\<dots> = rl_sent ?s"
    by (simp add: destroy_def emitStateChange_def close_socket_def change_socket_def stopHeartbeat_def clearHeartbeatTimeout_def Let_def
        split: option.split)
  finally show ?thesis by (simp add: run_append)
qed

end
