(* ===== verification/Error_Mapper.thy ===== *)
theory Error_Mapper
  imports Relayer Js_Coercions Graph_Query
begin

text \<open>
  Errors read from raw responses: the result codes of Horizon and the diagnostics of a Soroban
  simulation (src/errors.ts), and the mapper that listens on the relayer for error messages
  (src/relayer/ErrorMapper.ts).
\<close>

section \<open>Result codes of Horizon\<close>

fun truthy :: "jsval \<Rightarrow> bool" where
  "truthy JUndefined = False"
| "truthy JNull = False"
| "truthy (JBool b) = b"
| "truthy (JNumber n) = num_truthy n"
| "truthy (JBigint z) = (z \<noteq> 0)"
| "truthy (JString s) = (s \<noteq> [])"
| "truthy _ = True"

definition horizon_body :: "jsval \<Rightarrow> jsval" where
  "horizon_body obj =
    (if truthy (field_of obj ''extras'') then obj
     else nullish_chain [field_of (field_of obj ''response'') ''data'', field_of obj ''data'', obj])"

definition string_value :: "jsval \<Rightarrow> string option" where
  "string_value v = (case v of JString s \<Rightarrow> Some s | _ \<Rightarrow> None)"

definition strings_of :: "jsval \<Rightarrow> string list option" where
  "strings_of v = (case v of JArray vs \<Rightarrow> Some (List.map_filter string_value vs) | _ \<Rightarrow> None)"

definition extractHorizonResultCodes :: "jsval \<Rightarrow> HorizonResultCodes option" where
  "extractHorizonResultCodes json =
    (if \<not> is_object json then None
     else
       let resultCodes = field_of (field_of (horizon_body json) ''extras'') ''result_codes'' in
       if \<not> truthy resultCodes then None
       else
         let transaction = string_value (field_of resultCodes ''transaction''); operations = strings_of (field_of resultCodes ''operations'')
         in if (transaction = None \<or> transaction = Some []) \<and> (operations = None \<or> operations = Some []) then None
            else Some \<lparr> transaction_code = transaction, operation_codes = operations \<rparr>)"

text \<open>
  The whole of mapHorizonError: the error object when the argument is one, and its fields.
\<close>

definition map_horizon_response :: "thrown option \<Rightarrow> jsval \<Rightarrow> thrown" where
  "map_horizon_response err json =
    mapHorizonError (extractHorizonResultCodes json)
      (if is_object json then string_value (field_of json ''detail'') else None)
      (case err of Some e \<Rightarrow> e | None \<Rightarrow> ThrownString (js_string json))"

section \<open>Diagnostics of a simulation\<close>

text \<open>
  A diagnostic event as its accessors answer: the texts of its topics (which may be null) and of
  its data (likewise), each None when the accessor throws.  Decoding one from its text may throw.
\<close>

record diagnostic_event =
  de_topics :: "string list option option"
  de_data :: "string option option"

record SorobanDiagnosticInfo =
  diagnosticEvents :: "diagnostic_event list"
  hostFunctionCallStack :: "string list option"
  authFailureReasons :: "string list option"
  rpcError :: string

definition stack_line :: "diagnostic_event \<Rightarrow> string list" where
  "stack_line event =
    (case (de_topics event, de_data event) of
       (Some ts, Some d) \<Rightarrow>
         (let topics = given_or [] ts; dataStr = given_or [] d in
          if topics \<noteq> [] \<or> dataStr \<noteq> [] then [''Topics: '' @ join_with '', '' topics @ '' | Data: '' @ dataStr] else [])
     | _ \<Rightarrow> [])"

definition list_or_null :: "'a list \<Rightarrow> 'a list option" where
  "list_or_null xs = (if xs = [] then None else Some xs)"

definition extractHostFunctionCallStack :: "diagnostic_event list \<Rightarrow> string list option" where
  "extractHostFunctionCallStack events = list_or_null (foldl (\<lambda>acc event. acc @ stack_line event) [] events)"

definition mentions_auth :: "string \<Rightarrow> bool" where
  "mentions_auth s =
    (let l = lower_text s in contains_text ''auth'' l \<or> contains_text ''authorize'' l \<or> contains_text ''permission'' l)"

definition auth_reason :: "diagnostic_event \<Rightarrow> string list" where
  "auth_reason event = (case de_data event of Some (Some d) \<Rightarrow> if mentions_auth d then [d] else [] | _ \<Rightarrow> [])"

definition extractAuthFailureReasons :: "diagnostic_event list \<Rightarrow> string list option" where
  "extractAuthFailureReasons events = list_or_null (foldl (\<lambda>acc event. acc @ auth_reason event) [] events)"

fun decode_events ::
    "(string \<Rightarrow> (thrown, diagnostic_event) result) \<Rightarrow> (string + diagnostic_event) list \<Rightarrow> (thrown, diagnostic_event list) result" where
  "decode_events fromXDR [] = Inr []"
| "decode_events fromXDR (e # es) =
    result_bind (case e of Inl text \<Rightarrow> fromXDR text | Inr event \<Rightarrow> Inr event) (\<lambda>event.
      result_bind (decode_events fromXDR es) (\<lambda>events. Inr (event # events)))"

definition fromSimulationError ::
    "(string \<Rightarrow> (thrown, diagnostic_event) result) \<Rightarrow> string option \<Rightarrow> (string + diagnostic_event) list option \<Rightarrow>
     (thrown, SorobanDiagnosticInfo) result" where
  "fromSimulationError fromXDR error events =
    result_bind (decode_events fromXDR (given_or [] events)) (\<lambda>decoded.
      Inr \<lparr> diagnosticEvents = decoded, hostFunctionCallStack = extractHostFunctionCallStack decoded,
            authFailureReasons = extractAuthFailureReasons decoded, rpcError = given_or ''Unknown Soroban RPC error'' error \<rparr>)"

text \<open>A raw reply: its error and events, and those of its result.\<close>

record raw_reply =
  rr_error :: jsval
  rr_events :: "(string + diagnostic_event) list option"
  rr_result :: "(jsval \<times> (string + diagnostic_event) list option) option"

definition fromRaw ::
    "(string \<Rightarrow> (thrown, diagnostic_event) result) \<Rightarrow> raw_reply option \<Rightarrow> (thrown, SorobanDiagnosticInfo option) result" where
  "fromRaw fromXDR raw =
    (case raw of
       None \<Rightarrow> Inr None
     | Some resp \<Rightarrow>
         (let inner = (case rr_result resp of Some r \<Rightarrow> string_value (fst r) | None \<Rightarrow> None);
              error = (case string_value (rr_error resp) of Some e \<Rightarrow> Some e | None \<Rightarrow> inner) in
          if error = None \<or> error = Some [] then Inr None
          else
            let events = (case rr_events resp of Some es \<Rightarrow> Some es
                          | None \<Rightarrow> (case rr_result resp of Some r \<Rightarrow> snd r | None \<Rightarrow> None))
            in result_bind (fromSimulationError fromXDR error (Some (given_or [] events))) (\<lambda>d. Inr (Some d))))"

text \<open>The error object of the diagnostics.\<close>

definition soroban_rpc_error :: "SorobanDiagnosticInfo \<Rightarrow> thrown" where
  "soroban_rpc_error d = new_error SorobanRpcError (rpcError d)"

text \<open>The argument is None when the simulation succeeded.\<close>

definition extractDiagnosticMessage ::
    "(string \<Rightarrow> (thrown, diagnostic_event) result) \<Rightarrow> (string option \<times> (string + diagnostic_event) list option) option \<Rightarrow>
     (thrown, string) result" where
  "extractDiagnosticMessage fromXDR simResult =
    (case simResult of
       None \<Rightarrow> Inr ''Simulation succeeded; no diagnostic message to extract.''
     | Some (error, events) \<Rightarrow>
         result_bind (fromSimulationError fromXDR error events) (\<lambda>d.
           Inr (join_with '' | ''
             ([rpcError d] @
              (case authFailureReasons d of Some rs \<Rightarrow> [''Auth failure: '' @ join_with ''; '' rs] | None \<Rightarrow> []) @
              (case hostFunctionCallStack d of Some ls \<Rightarrow> [''Call stack: '' @ join_with '' -> '' ls] | None \<Rightarrow> [])))))"

section \<open>The mapper\<close>

text \<open>
  The mapper registers a new handler per message type at each attach: handlers are numbered from
  a counter that no other handler uses.
\<close>

record ErrorMapper =
  em_errorMessageTypes :: "(string \<times> ConduitContract) list"
  em_unsubscribers :: "(string \<times> nat) list"
  em_isDisposed :: bool
  em_next :: nat

definition DEFAULT_ERROR_MESSAGE_TYPE_MAP :: "(string \<times> ConduitContract) list" where
  "DEFAULT_ERROR_MESSAGE_TYPE_MAP = [(''stream_error'', Stream), (''factory_error'', Factory), (''governor_error'', Governor)]"

definition new_ErrorMapper :: "(string \<times> ConduitContract) list \<Rightarrow> nat \<Rightarrow> ErrorMapper" where
  "new_ErrorMapper types n =
    \<lparr> em_errorMessageTypes = spread DEFAULT_ERROR_MESSAGE_TYPE_MAP types, em_unsubscribers = [], em_isDisposed = False, em_next = n \<rparr>"

definition detach :: "ErrorMapper \<times> relayer \<Rightarrow> ErrorMapper \<times> relayer" where
  "detach ms = ((fst ms)\<lparr> em_unsubscribers := [] \<rparr>, foldl (\<lambda>s u. off (fst u) (snd u) s) (snd ms) (em_unsubscribers (fst ms)))"

definition attach_one :: "ErrorMapper \<times> relayer \<Rightarrow> string \<Rightarrow> ErrorMapper \<times> relayer" where
  "attach_one ms ty =
    (let h = em_next (fst ms) in
     ((fst ms)\<lparr> em_unsubscribers := em_unsubscribers (fst ms) @ [(ty, h)], em_next := h + 1 \<rparr>, on ty h (snd ms)))"

definition attach :: "ErrorMapper \<times> relayer \<Rightarrow> (thrown, unit) result \<times> (ErrorMapper \<times> relayer)" where
  "attach ms =
    (if em_isDisposed (fst ms) then (Inl (plain_error ''ErrorMapper has been disposed and cannot be re-attached''), ms)
     else (Inr (), foldl attach_one (detach ms) (List.map fst (em_errorMessageTypes (fst ms)))))"

definition dispose :: "ErrorMapper \<times> relayer \<Rightarrow> ErrorMapper \<times> relayer" where
  "dispose ms = detach ((fst ms)\<lparr> em_isDisposed := True \<rparr>, snd ms)"

text \<open>The code property of a payload, when it has one.\<close>

definition payload_code :: "jsval \<Rightarrow> int option" where
  "payload_code payload =
    (case payload of
       JObject kvs \<Rightarrow>
         (if ''code'' \<in> set (List.map fst kvs) then
            (case js_number (field_of payload ''code'') of Num r \<Rightarrow> if is_integer_num (Num r) then Some \<lfloor>r\<rfloor> else None | _ \<Rightarrow> None)
          else None)
     | _ \<Rightarrow> None)"

definition handleMessage :: "ErrorMapper \<Rightarrow> string \<Rightarrow> jsval \<Rightarrow> thrown option" where
  "handleMessage m ty msg =
    (let payload = field_of msg ''payload'' in
     if em_isDisposed m \<or> \<not> is_object msg \<or> payload = JUndefined \<or> payload = JNull then None
     else case map_of (em_errorMessageTypes m) ty of
       None \<Rightarrow> None
     | Some contract \<Rightarrow> Some (fromContractError contract (payload_code payload) (js_string payload)))"

section \<open>What the readers return\<close>

lemma foldl_append: "foldl (\<lambda>acc x. acc @ f x) acc xs = acc @ concat (List.map f xs)"
  by (induction xs arbitrary: acc) simp_all

lemma handlers_for_on:
  "handlers_for ty' (on ty h s) =
    (if ty' = ty then (if h \<in> set (handlers_for ty s) then handlers_for ty s else handlers_for ty s @ [h]) else handlers_for ty' s)"
  by (cases "map_of (rl_handlers s) ty") (simp_all add: handlers_for_def on_def Let_def update_conv' given_or_def)

lemma handlers_for_off:
  "handlers_for ty' (off ty h s) = (if ty' = ty then removeAll h (handlers_for ty s) else handlers_for ty' s)"
  by (simp add: handlers_for_def off_def Let_def update_conv' delete_conv' given_or_def)

definition numbers_below :: "nat \<Rightarrow> relayer \<Rightarrow> bool" where
  "numbers_below n s = (\<forall>ty. \<forall>h \<in> set (handlers_for ty s). h < n)"

text \<open>Registering one handler per type, from a fresh number, and removing them again.\<close>

fun registered :: "nat \<Rightarrow> string list \<Rightarrow> (string \<times> nat) list" where
  "registered n [] = []"
| "registered n (ty # tys) = (ty, n) # registered (n + 1) tys"

definition own_handlers :: "string \<Rightarrow> (string \<times> nat) list \<Rightarrow> nat list" where
  "own_handlers ty us = List.map snd (filter (\<lambda>u. fst u = ty) us)"

lemma attach_all:
  assumes "numbers_below (em_next (fst ms)) (snd ms)"
  shows "foldl attach_one ms tys =
      ((fst ms)\<lparr> em_unsubscribers := em_unsubscribers (fst ms) @ registered (em_next (fst ms)) tys, em_next := em_next (fst ms) + length tys \<rparr>,
       snd (foldl attach_one ms tys)) \<and>
    numbers_below (em_next (fst ms) + length tys) (snd (foldl attach_one ms tys)) \<and>
    (\<forall>ty. handlers_for ty (snd (foldl attach_one ms tys)) = handlers_for ty (snd ms) @ own_handlers ty (registered (em_next (fst ms)) tys))"
  using assms
proof (induction tys arbitrary: ms)
  case Nil then show ?case by (simp add: own_handlers_def)
next
  case (Cons ty tys)
  let ?n = "em_next (fst ms)" and ?ms = "attach_one ms ty"
  have fresh: "?n \<notin> set (handlers_for ty (snd ms))" using Cons.prems by (auto simp: numbers_below_def)
  have h: "handlers_for ty' (snd ?ms) = (if ty' = ty then handlers_for ty (snd ms) @ [?n] else handlers_for ty' (snd ms))" for ty'
    using fresh by (simp add: attach_one_def Let_def handlers_for_on)
  have n: "em_next (fst ?ms) = Suc ?n" by (simp add: attach_one_def Let_def)
  have "numbers_below (em_next (fst ?ms)) (snd ?ms)"
    unfolding numbers_below_def n h using Cons.prems by (auto simp: numbers_below_def less_Suc_eq)
  from Cons.IH [OF this] show ?case
    by (simp add: attach_one_def Let_def own_handlers_def) (use h in \<open>auto simp: attach_one_def Let_def\<close>)
qed

lemma registered_bounds: "u \<in> set (registered n tys) \<Longrightarrow> n \<le> snd u"
  by (induction tys arbitrary: n) (auto dest: Suc_leD)

lemma detach_all:
  "handlers_for ty (foldl (\<lambda>s u. off (fst u) (snd u) s) s us) = filter (\<lambda>h. h \<notin> set (own_handlers ty us)) (handlers_for ty s)"
proof (induction us arbitrary: s)
  case (Cons u us)
  then show ?case by (cases u) (auto simp: handlers_for_off own_handlers_def removeAll_filter_not_eq intro!: filter_cong)
qed (simp add: own_handlers_def)

section \<open>Sequences of calls\<close>

datatype mapper_call = Attach | Detach | Dispose

fun mapper_step :: "ErrorMapper \<times> relayer \<Rightarrow> mapper_call \<Rightarrow> ErrorMapper \<times> relayer" where
  "mapper_step ms Attach = snd (attach ms)"
| "mapper_step ms Detach = detach ms"
| "mapper_step ms Dispose = dispose ms"

definition mapper_run :: "ErrorMapper \<Rightarrow> relayer \<Rightarrow> mapper_call list \<Rightarrow> ErrorMapper \<times> relayer" where
  "mapper_run m s calls = foldl mapper_step (m, s) calls"

text \<open>The relayer has the handlers of the base, and after them those of the mapper.\<close>

definition mapper_over :: "relayer \<Rightarrow> nat \<Rightarrow> ErrorMapper \<times> relayer \<Rightarrow> bool" where
  "mapper_over base n ms =
    (numbers_below n base \<and> n \<le> em_next (fst ms) \<and> (\<forall>u \<in> set (em_unsubscribers (fst ms)). n \<le> snd u \<and> snd u < em_next (fst ms)) \<and>
     (\<forall>ty. handlers_for ty (snd ms) = handlers_for ty base @ own_handlers ty (em_unsubscribers (fst ms))))"

lemma registered_less: "u \<in> set (registered n tys) \<Longrightarrow> snd u < n + length tys"
  by (induction tys arbitrary: n) fastforce+

lemma own_handlers_subset: "h \<in> set (own_handlers ty us) \<Longrightarrow> (ty, h) \<in> set us"
  by (auto simp: own_handlers_def)

lemma detach_over:
  assumes "mapper_over base n ms"
  shows "mapper_over base n (detach ms) \<and> em_unsubscribers (fst (detach ms)) = [] \<and>
    (\<forall>ty. handlers_for ty (snd (detach ms)) = handlers_for ty base)"
proof -
  have "filter (\<lambda>h. h \<notin> set (own_handlers ty us)) (handlers_for ty base @ own_handlers ty us) = handlers_for ty base"
    if "\<forall>u \<in> set us. n \<le> snd u" for ty us
  proof -
    have "h \<notin> set (own_handlers ty us)" if "h \<in> set (handlers_for ty base)" for h
      using own_handlers_subset [of h ty us] \<open>\<forall>u \<in> set us. n \<le> snd u\<close> assms that by (fastforce simp: mapper_over_def numbers_below_def)
    then show ?thesis by (auto simp: filter_id_conv)
  qed
  then have "\<forall>ty. handlers_for ty (snd (detach ms)) = handlers_for ty base"
    using assms by (auto simp: detach_def detach_all mapper_over_def)
  then show ?thesis using assms by (simp add: mapper_over_def detach_def own_handlers_def)
qed

lemma attach_over:
  assumes "mapper_over base n ms" "\<not> em_isDisposed (fst ms)"
  shows "mapper_over base n (snd (attach ms)) \<and>
    em_unsubscribers (fst (snd (attach ms))) = registered (em_next (fst ms)) (List.map fst (em_errorMessageTypes (fst ms)))"
proof -
  let ?d = "detach ms" and ?tys = "List.map fst (em_errorMessageTypes (fst ms))"
  have d: "mapper_over base n ?d" "em_unsubscribers (fst ?d) = []" "\<And>ty. handlers_for ty (snd ?d) = handlers_for ty base"
    using detach_over [OF assms(1)] by auto
  have nx: "em_next (fst ?d) = em_next (fst ms)" by (simp add: detach_def)
  have "numbers_below (em_next (fst ?d)) (snd ?d)"
    using d assms(1) by (fastforce simp: numbers_below_def mapper_over_def nx)
  note all = attach_all [OF this, of ?tys]
  let ?r = "foldl attach_one ?d ?tys" and ?reg = "registered (em_next (fst ms)) ?tys"
  have f: "fst ?r = (fst ?d)\<lparr> em_unsubscribers := ?reg, em_next := em_next (fst ms) + length ?tys \<rparr>"
    using conjunct1 [OF all, THEN arg_cong [where f = fst]] d(2) by (simp add: nx)
  have h: "handlers_for ty (snd ?r) = handlers_for ty base @ own_handlers ty ?reg" for ty
    using all d(3) by (simp add: nx)
  have "n \<le> snd u \<and> snd u < em_next (fst ms) + length ?tys" if "u \<in> set ?reg" for u
    using registered_bounds [OF that] registered_less [OF that] assms(1) by (simp add: mapper_over_def)
  then show ?thesis
    using assms h unfolding attach_def by (simp add: mapper_over_def f)
qed

lemma spread_distinct: "distinct (List.map fst xs) \<Longrightarrow> distinct (List.map fst (spread xs ys))"
  unfolding spread_def by (induction ys arbitrary: xs) (simp_all add: distinct_update)

lemma own_registered: "distinct tys \<Longrightarrow> length (own_handlers ty (registered n tys)) = (if ty \<in> set tys then 1 else 0)"
  by (induction tys arbitrary: n) (auto simp: own_handlers_def)

definition mapper_state :: "relayer \<Rightarrow> nat \<Rightarrow> (string \<times> ConduitContract) list \<Rightarrow> ErrorMapper \<times> relayer \<Rightarrow> bool" where
  "mapper_state base n types ms =
    (mapper_over base n ms \<and> em_errorMessageTypes (fst ms) = types \<and>
     (\<forall>ty. length (own_handlers ty (em_unsubscribers (fst ms))) \<le> 1) \<and>
     (em_isDisposed (fst ms) \<longrightarrow> em_unsubscribers (fst ms) = []))"

lemma attach_types: "em_errorMessageTypes (fst (foldl attach_one ms tys)) = em_errorMessageTypes (fst ms) \<and>
    em_isDisposed (fst (foldl attach_one ms tys)) = em_isDisposed (fst ms)"
  by (induction tys arbitrary: ms) (simp_all add: attach_one_def Let_def)

lemma mapper_state_step:
  assumes "mapper_state base n types ms" "distinct (List.map fst types)"
  shows "mapper_state base n types (mapper_step ms c)"
proof (cases c)
  case Attach
  show ?thesis
  proof (cases "em_isDisposed (fst ms)")
    case True then show ?thesis using assms Attach by (simp add: attach_def)
  next
    case False
    have over: "mapper_over base n (snd (attach ms))"
      "em_unsubscribers (fst (snd (attach ms))) = registered (em_next (fst ms)) (List.map fst types)"
      using attach_over [of base n ms] False assms(1) by (simp_all add: mapper_state_def)
    have "em_errorMessageTypes (fst (snd (attach ms))) = types \<and> \<not> em_isDisposed (fst (snd (attach ms)))"
      using False assms(1) attach_types [of "detach ms"] by (simp add: attach_def detach_def mapper_state_def)
    moreover have "length (own_handlers ty (registered (em_next (fst ms)) (List.map fst types))) \<le> 1" for ty
      using own_registered [OF assms(2)] by simp
    ultimately show ?thesis using over Attach by (simp add: mapper_state_def)
  qed
next
  case Detach
  then show ?thesis using assms(1) detach_over [of base n ms] by (simp add: mapper_state_def detach_def own_handlers_def)
next
  case Dispose
  let ?ms = "((fst ms)\<lparr> em_isDisposed := True \<rparr>, snd ms)"
  have "mapper_over base n ?ms" using assms(1) by (simp add: mapper_state_def mapper_over_def)
  then have "mapper_over base n (detach ?ms)" "em_unsubscribers (fst (detach ?ms)) = []"
    using detach_over [of base n ?ms] by blast+
  moreover have "em_errorMessageTypes (fst (detach ?ms)) = types" using assms(1) by (simp add: detach_def mapper_state_def)
  ultimately show ?thesis using Dispose by (simp add: mapper_state_def dispose_def own_handlers_def)
qed

lemma mapper_run_state:
  assumes "numbers_below n s"
  shows "mapper_state s n (spread DEFAULT_ERROR_MESSAGE_TYPE_MAP types) (mapper_run (new_ErrorMapper types n) s calls)"
proof -
  have d: "distinct (List.map fst (spread DEFAULT_ERROR_MESSAGE_TYPE_MAP types))"
    by (rule spread_distinct) (simp add: DEFAULT_ERROR_MESSAGE_TYPE_MAP_def)
  have "mapper_state s n (spread DEFAULT_ERROR_MESSAGE_TYPE_MAP types) ms \<Longrightarrow>
      mapper_state s n (spread DEFAULT_ERROR_MESSAGE_TYPE_MAP types) (foldl mapper_step ms calls)" for ms
    using d by (induction calls arbitrary: ms) (simp_all add: mapper_state_step)
  moreover have "mapper_state s n (spread DEFAULT_ERROR_MESSAGE_TYPE_MAP types) (new_ErrorMapper types n, s)"
    using assms by (simp add: mapper_state_def mapper_over_def new_ErrorMapper_def own_handlers_def)
  ultimately show ?thesis by (simp add: mapper_run_def)
qed

section \<open>Properties\<close>

text \<open>
  However attach, detach and dispose are called, the mapper has at most one handler per message
  type on the relayer and leaves those of others as they were; once the last call was detach or
  dispose it has none, and a disposed mapper forwards nothing and stays without handlers.
\<close>
theorem mapper_leaves_no_listeners:
  assumes "numbers_below n s"
  shows "(\<exists>own. handlers_for ty (snd (mapper_run (new_ErrorMapper types n) s calls)) = handlers_for ty s @ own \<and> length own \<le> 1) \<and>
    handlers_for ty (snd (mapper_run (new_ErrorMapper types n) s (calls @ [Detach]))) = handlers_for ty s \<and>
    (Dispose \<in> set calls \<longrightarrow> handlers_for ty (snd (mapper_run (new_ErrorMapper types n) s calls)) = handlers_for ty s \<and>
       handleMessage (fst (mapper_run (new_ErrorMapper types n) s calls)) ty msg = None)"
proof -
  let ?T = "spread DEFAULT_ERROR_MESSAGE_TYPE_MAP types" and ?run = "\<lambda>cs. mapper_run (new_ErrorMapper types n) s cs"
  have st: "mapper_state s n ?T (?run cs)" for cs by (rule mapper_run_state [OF assms])
  have disposed: "em_isDisposed (fst (foldl mapper_step ms cs))" if "em_isDisposed (fst ms) \<or> Dispose \<in> set cs" for ms cs
    using that
  proof (induction cs arbitrary: ms)
    case (Cons c cs)
    have "em_isDisposed (fst (mapper_step ms c))" if "em_isDisposed (fst ms) \<or> c = Dispose"
      using that by (cases c) (auto simp: attach_def detach_def dispose_def)
    then show ?case using Cons.IH [of "mapper_step ms c"] Cons.prems by auto
  qed simp
  have first: "\<exists>own. handlers_for ty (snd (?run calls)) = handlers_for ty s @ own \<and> length own \<le> 1"
    using st [of calls] by (auto simp: mapper_state_def mapper_over_def)
  have "handlers_for ty (snd (?run (calls @ [Detach]))) = handlers_for ty s"
    using detach_over [of s n "?run calls"] st [of calls] by (simp add: mapper_run_def mapper_state_def)
  moreover have "handlers_for ty (snd (?run calls)) = handlers_for ty s \<and> handleMessage (fst (?run calls)) ty msg = None"
    if "Dispose \<in> set calls"
  proof -
    have "em_isDisposed (fst (?run calls))" unfolding mapper_run_def by (rule disposed) (simp add: that)
    then show ?thesis using st [of calls] by (simp add: mapper_state_def mapper_over_def own_handlers_def handleMessage_def)
  qed
  ultimately show ?thesis using first by blast
qed

lemma mapper_leaves_no_listeners_witness:
  "handlers_for ''stream_error'' (snd (mapper_run (new_ErrorMapper [] 7) (on ''stream_error'' 3 (new_WebSocketRelayer
     \<lparr> wo_maxPendingMessages = None, wo_maxReconnectAttempts = None, wo_reconnectDelayMs = None, wo_maxReconnectDelayMs = None,
       wo_heartbeatIntervalMs = None, wo_heartbeatTimeoutMs = None, wo_offlineBufferTtlMs = None, wo_onStateChange = None \<rparr>))
     ([Attach, Attach] @ [Detach]))) = [3]"
proof -
  let ?s = "new_WebSocketRelayer \<lparr> wo_maxPendingMessages = None, wo_maxReconnectAttempts = None, wo_reconnectDelayMs = None,
    wo_maxReconnectDelayMs = None, wo_heartbeatIntervalMs = None, wo_heartbeatTimeoutMs = None, wo_offlineBufferTtlMs = None, wo_onStateChange = None \<rparr>"
  have h: "handlers_for ty ?s = []" for ty by (simp add: handlers_for_def new_WebSocketRelayer_def given_or_def)
  have "numbers_below 7 (on ''stream_error'' 3 ?s)" by (simp add: numbers_below_def handlers_for_on h)
  from mapper_leaves_no_listeners [OF this, of "''stream_error''" "[]" "[Attach, Attach]"] show ?thesis
    by (simp add: handlers_for_on h)
qed

text \<open>
  mapHorizonError reads the same codes from the plain body of Horizon and from its wrappings as
  the data of a response (axios) or as data (fetch), so that the same error comes out.
\<close>
theorem horizon_wrappings_agree:
  assumes "truthy (field_of (JObject body) ''extras'')"
  shows "extractHorizonResultCodes (JObject [(''response'', JObject [(''data'', JObject body)])]) = extractHorizonResultCodes (JObject body) \<and>
    extractHorizonResultCodes (JObject [(''data'', JObject body)]) = extractHorizonResultCodes (JObject body)"
  using assms by (simp add: extractHorizonResultCodes_def horizon_body_def is_object_def)

text \<open>
  The diagnostics of a simulation error: one line per event that can be read and is not blank, in
  the order of the events, the data texts that mention authorisation, null instead of an empty
  list, and the error text itself; an event that cannot be read is skipped.
\<close>
theorem diagnostics_complete:
  "fromSimulationError fromXDR error (Some (List.map Inr events)) =
    Inr \<lparr> diagnosticEvents = events,
          hostFunctionCallStack = list_or_null (concat (List.map stack_line events)),
          authFailureReasons = list_or_null (filter mentions_auth (List.map_filter (\<lambda>e. given_or None (de_data e)) events)),
          rpcError = given_or ''Unknown Soroban RPC error'' error \<rparr>"
proof -
  have d: "decode_events fromXDR (List.map Inr events) = Inr events" by (induction events) simp_all
  have "concat (List.map auth_reason events) = filter mentions_auth (List.map_filter (\<lambda>e. given_or None (de_data e)) events)"
    by (induction events) (auto simp: auth_reason_def given_or_def map_filter_simps split: option.split)
  then show ?thesis
    by (simp add: fromSimulationError_def given_or_def d extractHostFunctionCallStack_def extractAuthFailureReasons_def foldl_append)
qed

end
