(* ===== verification/Der_Signature.thy ===== *)
theory Der_Signature
  imports Js_Coercions Retry
begin

text \<open>
  derToRawSignature of src/signer.ts: the conversion of the ASN.1 DER signature a passkey
  returns into the 64 raw bytes a contract verifies.  A Uint8Array is a list of 8-bit words;
  offsets are integers, because a long-form length is assembled with the 32-bit operators of
  the language and may come out negative.
\<close>

unbundle bit_operations_syntax

type_synonym byte = "8 word"

section \<open>Byte arrays\<close>

text \<open>Reading outside the array gives undefined; slice counts a negative bound from the end.\<close>

definition byte_at :: "byte list \<Rightarrow> int \<Rightarrow> byte option" where
  "byte_at buf i = (if 0 \<le> i \<and> i < int (length buf) then Some (buf ! nat i) else None)"

definition slice_bound :: "nat \<Rightarrow> int \<Rightarrow> nat" where
  "slice_bound n k = (if k < 0 then nat (int n + k) else min n (nat k))"

definition byte_slice :: "byte list \<Rightarrow> int \<Rightarrow> int \<Rightarrow> byte list" where
  "byte_slice buf a b =
    (let i = slice_bound (length buf) a; j = slice_bound (length buf) b in take (j - i) (drop i buf))"

definition describeByte :: "byte option \<Rightarrow> string" where
  "describeByte b = (case b of None \<Rightarrow> ''<nothing>'' | Some x \<Rightarrow> ''0x'' @ pad_start 2 CHR ''0'' (show_hex (unat x)))"

section \<open>Lengths and integers\<close>

definition malformed :: "string \<Rightarrow> thrown" where
  "malformed what = plain_error (''Malformed DER signature: '' @ what)"

definition no_length_byte :: thrown where
  "no_length_byte = malformed ''unexpected end of input while reading a length''"

text \<open>length = (length << 8) | b, on the 32-bit integers of the bitwise operators.\<close>

fun long_length :: "byte list \<Rightarrow> int \<Rightarrow> nat \<Rightarrow> 32 word \<Rightarrow> (thrown, 32 word) result" where
  "long_length buf p 0 acc = Inr acc"
| "long_length buf p (Suc n) acc =
    (case byte_at buf p of
       None \<Rightarrow> Inl no_length_byte
     | Some b \<Rightarrow> long_length buf (p + 1) n (push_bit 8 acc OR ucast b))"

definition readDerLength :: "byte list \<Rightarrow> int \<Rightarrow> (thrown, int \<times> int) result" where
  "readDerLength buf offset =
    (case byte_at buf offset of
       None \<Rightarrow> Inl no_length_byte
     | Some first \<Rightarrow>
         if first AND 0x80 = 0 then Inr (uint first, offset + 1)
         else
           let numBytes = unat (first AND 0x7F) in
           if numBytes = 0 \<or> 4 < numBytes then Inl (malformed ''unsupported length encoding'')
           else result_bind (long_length buf (offset + 1) numBytes 0) (\<lambda>w.
             Inr (sint w, offset + 1 + int numBytes)))"

definition readDerInteger :: "byte list \<Rightarrow> int \<Rightarrow> (thrown, byte list \<times> int) result" where
  "readDerInteger buf offset =
    (let tag = byte_at buf offset in
     if tag \<noteq> Some 0x02 then Inl (malformed (''expected an INTEGER (0x02), got '' @ describeByte tag))
     else result_bind (readDerLength buf (offset + 1)) (\<lambda>(len, nxt).
       if len = 0 \<or> int (length buf) < nxt + len then Inl (malformed ''INTEGER has an invalid length'')
       else Inr (byte_slice buf nxt (nxt + len), nxt + len)))"

fun strip_padding :: "nat \<Rightarrow> byte list \<Rightarrow> byte list" where
  "strip_padding width [] = []"
| "strip_padding width (b # bs) =
    (if width < length (b # bs) \<and> b = 0 then strip_padding width bs else b # bs)"

definition derIntegerToFixedWidth :: "byte list \<Rightarrow> nat \<Rightarrow> (thrown, byte list) result" where
  "derIntegerToFixedWidth v width =
    (let trimmed = strip_padding width v in
     if width < length trimmed
     then Inl (malformed (''INTEGER is '' @ show_nat (length trimmed) @ '' bytes, expected at most '' @ show_nat width))
     else Inr (replicate (width - length trimmed) 0 @ trimmed))"

definition derToRawSignature :: "byte list \<Rightarrow> (thrown, byte list) result" where
  "derToRawSignature der =
    (if length der < 8 \<or> byte_at der 0 \<noteq> Some 0x30
     then Inl (malformed (''expected a SEQUENCE (0x30) of at least 8 bytes, got '' @ describeByte (byte_at der 0) @
       '' ('' @ show_nat (length der) @ '' bytes)''))
     else result_bind (readDerLength der 1) (\<lambda>(_, seqStart).
       result_bind (readDerInteger der seqStart) (\<lambda>(r, afterR).
       result_bind (readDerInteger der afterR) (\<lambda>(s, _).
       result_bind (derIntegerToFixedWidth r 32) (\<lambda>rawR.
       result_bind (derIntegerToFixedWidth s 32) (\<lambda>rawS. Inr (rawR @ rawS)))))))"

section \<open>What an authenticator returns\<close>

text \<open>
  The encoder of the format: an unsigned number in the fewest bytes, with a leading zero when
  its top bit is set, in a sequence of two integers.
\<close>

definition minimal_bytes :: "byte list \<Rightarrow> byte list" where
  "minimal_bytes v =
    (let t = dropWhile (\<lambda>b. b = 0) v
     in if t = [] then [0] else if hd t AND 0x80 \<noteq> 0 then 0 # t else t)"

definition der_integer :: "byte list \<Rightarrow> byte list" where
  "der_integer v = 0x02 # word_of_nat (length (minimal_bytes v)) # minimal_bytes v"

definition der_signature :: "byte list \<Rightarrow> byte list \<Rightarrow> byte list" where
  "der_signature r s =
    (let body = der_integer r @ der_integer s in 0x30 # word_of_nat (length body) # body)"

section \<open>Reading back\<close>

lemma length_minimal_bytes: "length v \<le> n \<Longrightarrow> length (minimal_bytes v) \<le> n + 1"
  using length_dropWhile_le [of "\<lambda>b. b = 0" v] by (simp add: minimal_bytes_def Let_def)

lemma minimal_bytes_positive: "0 < length (minimal_bytes v)"
  by (simp add: minimal_bytes_def Let_def)

lemma byte_at_append [simp]: "byte_at (xs @ ys) (int (length xs)) = (case ys of [] \<Rightarrow> None | y # _ \<Rightarrow> Some y)"
  by (cases ys) (auto simp: byte_at_def nth_append)

lemma small_length_byte:
  assumes "n < 128"
  shows "(word_of_nat n :: byte) AND 0x80 = 0" and "uint (word_of_nat n :: byte) = int n"
proof -
  have "\<not> bit (word_of_nat n :: byte) 7" 
    using assms by (simp add: bit_of_nat_iff bit_nat_def)
  then show "(word_of_nat n :: byte) AND 0x80 = 0"
    using and_exp_eq_0_iff_not_bit [of "word_of_nat n :: byte" 7] by simp
  show "uint (word_of_nat n :: byte) = int n" using assms by (simp add: unsigned_of_nat take_bit_nat_eq_self)
qed

lemma readDerLength_short:
  assumes "n < 128"
  shows "readDerLength (pre @ word_of_nat n # post) (int (length pre)) = Inr (int n, int (length pre) + 1)"
  using small_length_byte [OF assms] by (simp add: readDerLength_def)

lemma byte_slice_middle: "byte_slice (pre @ v @ post) (int (length pre)) (int (length pre) + int (length v)) = v"
  by (simp add: byte_slice_def slice_bound_def nat_add_distrib)

lemma readDerInteger_reads:
  assumes "length v \<le> 32"
  shows "readDerInteger (pre @ der_integer v @ post) (int (length pre)) =
    Inr (minimal_bytes v, int (length (pre @ der_integer v)))"
proof -
  let ?m = "minimal_bytes v" and ?pre = "pre @ [0x02, word_of_nat (length (minimal_bytes v))]"
  have small: "length ?m < 128" using length_minimal_bytes [OF assms] by simp
  have "readDerLength (pre @ der_integer v @ post) (int (length pre) + 1)
      = Inr (int (length ?m), int (length pre) + 2)"
    using readDerLength_short [OF small, of "pre @ [0x02]" "?m @ post"] by (simp add: der_integer_def add.commute)
  moreover have "byte_slice (pre @ der_integer v @ post) (int (length pre) + 2) (int (length pre) + 2 + int (length ?m)) = ?m"
    using byte_slice_middle [of ?pre ?m post] by (simp add: der_integer_def add.commute)
  moreover have "byte_at (pre @ der_integer v @ post) (int (length pre)) = Some 0x02"
    by (simp add: der_integer_def)
  ultimately show ?thesis
    using minimal_bytes_positive [of v] by (simp add: readDerInteger_def Let_def der_integer_def)
qed

text \<open>The width is restored whatever the number of leading zeros.\<close>

lemma strip_padding_zeros:
  assumes "length t \<le> w"
  shows "strip_padding w (replicate k 0 @ t) = replicate (min k (w - length t)) 0 @ t"
proof (induction k)
  case 0
  then show ?case using assms by (cases t) auto
next
  case (Suc k)
  then show ?case using assms by (cases "w < Suc k + length t") (auto simp: min_def)
qed

lemma fixed_width_zeros:
  "length t \<le> w \<Longrightarrow> derIntegerToFixedWidth (replicate k 0 @ t) w = Inr (replicate (w - length t) 0 @ t)"
  by (simp add: derIntegerToFixedWidth_def strip_padding_zeros Let_def flip: append_assoc replicate_add)

lemma minimal_bytes_zeros: "\<exists>k. minimal_bytes v = replicate k 0 @ dropWhile (\<lambda>b. b = 0) v"
proof (cases "minimal_bytes v = dropWhile (\<lambda>b. b = 0) v")
  case True
  then show ?thesis by (intro exI [of _ 0]) simp
next
  case False
  then have "minimal_bytes v = 0 # dropWhile (\<lambda>b. b = 0) v"
    by (auto simp: minimal_bytes_def Let_def simp del: dropWhile_eq_Nil_conv split: if_splits)
  then show ?thesis by (intro exI [of _ 1]) simp
qed

lemma fixed_width_minimal:
  assumes "length v = 32"
  shows "derIntegerToFixedWidth (minimal_bytes v) 32 = Inr v"
proof -
  let ?t = "dropWhile (\<lambda>b. b = 0) v" and ?z = "takeWhile (\<lambda>b. b = 0) v"
  have split: "replicate (length ?z) 0 @ ?t = v"
    by (metis (mono_tags, lifting) map_replicate_const map_idI set_takeWhileD takeWhile_dropWhile_id)
  have "length ?z + length ?t = 32" using assms length_append [of ?z ?t] by simp
  then have "length ?z = 32 - length ?t" "length ?t \<le> 32" by simp_all
  then show ?thesis using split fixed_width_zeros [of ?t 32] minimal_bytes_zeros [of v] by auto
qed




section \<open>What is accepted\<close>

lemma fixed_width_length: "derIntegerToFixedWidth v w = Inr raw \<Longrightarrow> length raw = w"
  by (auto simp: derIntegerToFixedWidth_def Let_def split: if_splits)

text \<open>Every signature returned has 64 bytes.\<close>

theorem raw_signature_length:
  assumes "derToRawSignature der = Inr raw"
  shows "length raw = 64"
  using assms
  by (auto simp: derToRawSignature_def result_bind_Inr_iff split: if_splits dest!: fixed_width_length)

text \<open>
  A long-form length is signed: this eight-byte input, whose integer claims a length of -6, is
  read twice at the same offset and accepted as the pair of zeros.
\<close>

lemma negative_length_accepted:
  "derToRawSignature [0x30, 6, 0x02, 0x84, 0xFF, 0xFF, 0xFF, 0xFA] = Inr (replicate 64 0)"
proof -
  let ?d = "[0x30, 6, 0x02, 0x84, 0xFF, 0xFF, 0xFF, 0xFA] :: byte list"
  have at: "byte_at ?d 0 = Some 0x30" "byte_at ?d 1 = Some 6" "byte_at ?d 2 = Some 2" "byte_at ?d 3 = Some 0x84"
      "byte_at ?d 4 = Some 0xFF" "byte_at ?d 5 = Some 0xFF" "byte_at ?d 6 = Some 0xFF" "byte_at ?d 7 = Some 0xFA"
    by (simp_all add: byte_at_def)
  have "long_length ?d 4 (Suc (Suc (Suc (Suc 0)))) 0 = Inr 0xFFFFFFFA" by (simp add: at)
  moreover have "(4 :: nat) = Suc (Suc (Suc (Suc 0)))" by simp
  ultimately have long: "long_length ?d 4 4 0 = Inr 0xFFFFFFFA" by metis
  have "readDerLength ?d 3 = Inr (-6, 8)" using at long by (simp add: readDerLength_def Let_def)
  then have "readDerInteger ?d 2 = Inr ([], 2)"
    using at by (simp add: readDerInteger_def byte_slice_def slice_bound_def)
  moreover have "readDerLength ?d 1 = Inr (6, 2)" using at by (simp add: readDerLength_def)
  ultimately show ?thesis
    using at by (simp add: derToRawSignature_def derIntegerToFixedWidth_def flip: replicate_add)
qed

lemma raw_signature_length_witness: "length (replicate 64 0 :: byte list) = 64"
  by (rule raw_signature_length [OF negative_length_accepted])

text \<open>With lengths in the short form, what is accepted is two integers, one after the other.\<close>

lemma byte_slice_inside:
  assumes "0 \<le> a" and "a \<le> b" and "b \<le> int (length buf)"
  shows "byte_slice buf a b = take (nat (b - a)) (drop (nat a) buf)"
  using assms by (simp add: byte_slice_def slice_bound_def min_absorb2 nat_le_iff nat_diff_distrib Let_def)

lemma readDerInteger_short:
  assumes read: "readDerInteger buf p = Inr (v, q)" and p: "0 \<le> p"
    and short: "byte_at buf (p + 1) = Some L" "L AND 0x80 = 0"
  shows "drop (nat p) buf = 0x02 # L # v @ drop (nat q) buf" and "v \<noteq> []" and "int (length v) = uint L"
    and "q = p + 2 + uint L"
proof -
  let ?a = "nat p" and ?n = "unat L"
  have "readDerLength buf (p + 1) = Inr (uint L, p + 2)" using short by (simp add: readDerLength_def)
  note step = read [unfolded readDerInteger_def Let_def this result_bind.simps prod.case]
  from step have all: "byte_at buf p = Some 0x02 \<and> uint L \<noteq> 0 \<and> p + 2 + uint L \<le> int (length buf) \<and>
      byte_slice buf (p + 2) (p + 2 + uint L) = v \<and> p + 2 + uint L = q"
    by (simp split: if_splits) auto
  note tag = all [THEN conjunct1] and pos = all [THEN conjunct2, THEN conjunct1]
    and fits = all [THEN conjunct2, THEN conjunct2, THEN conjunct1]
    and v = all [THEN conjunct2, THEN conjunct2, THEN conjunct2, THEN conjunct1, symmetric]
    and q = all [THEN conjunct2, THEN conjunct2, THEN conjunct2, THEN conjunct2, symmetric]
  have "L \<noteq> 0" using pos by auto
  then have n: "int ?n = uint L" "0 < ?n" by (simp_all add: unat_gt_0)
  have v': "v = take ?n (drop (?a + 2) buf)"
    using fits p v byte_slice_inside [of "p + 2" "p + 2 + uint L" buf] by (simp add: nat_add_distrib)
  have first: "drop ?a buf = buf ! ?a # buf ! Suc ?a # drop (?a + 2) buf"
  proof -
    have "Suc ?a < length buf" using fits p n by linarith
    then show ?thesis using Cons_nth_drop_Suc [of ?a buf] Cons_nth_drop_Suc [of "Suc ?a" buf] by simp
  qed
  have "buf ! ?a = 0x02" "buf ! Suc ?a = L"
    using tag short(1) p by (auto simp: byte_at_def nat_add_distrib split: if_splits)
  moreover have "nat q = ?a + 2 + ?n" using q p n(1) by linarith
  ultimately show "drop ?a buf = 0x02 # L # v @ drop (nat q) buf"
    using first v' append_take_drop_id [of ?n "drop (?a + 2) buf"] by (simp add: add.commute)
  have "?a + 2 + ?n \<le> length buf" using fits p n(1) by linarith
  then show "int (length v) = uint L" using v' by simp
  then show "v \<noteq> []" using pos by auto
  show "q = p + 2 + uint L" by (rule q)
qed

text \<open>
  An input whose three lengths are in the short form is accepted only as a sequence byte, a
  length, and two non-empty integers that fit 32 bytes, and the result is these two; nothing is
  required of the outer length or of what follows.
\<close>

theorem accepted_short_forms:
  assumes ok: "derToRawSignature (0x30 # n # 0x02 # l # u) = Inr raw"
    and short: "n AND 0x80 = 0" "l AND 0x80 = 0" "\<And>m. byte_at u (uint l + 1) = Some m \<Longrightarrow> m AND 0x80 = 0"
  shows "\<exists>r s rest m. u = r @ 0x02 # m # s @ rest \<and> int (length r) = uint l \<and> int (length s) = uint m \<and> r \<noteq> [] \<and> s \<noteq> [] \<and>
    derIntegerToFixedWidth r 32 = Inr (take 32 raw) \<and> derIntegerToFixedWidth s 32 = Inr (drop 32 raw)"
proof -
  let ?der = "0x30 # n # 0x02 # l # u"
  have start: "readDerLength ?der 1 = Inr (uint n, 2)" using short(1) by (simp add: readDerLength_def byte_at_def)
  with ok obtain r s p q a b where r: "readDerInteger ?der 2 = Inr (r, p)" and s: "readDerInteger ?der p = Inr (s, q)"
    and fixed: "derIntegerToFixedWidth r 32 = Inr a" "derIntegerToFixedWidth s 32 = Inr b" and raw: "raw = a @ b"
    by (auto simp: derToRawSignature_def result_bind_Inr_iff split: if_splits)
  have "byte_at ?der (2 + 1) = Some l" by (simp add: byte_at_def)
  note R = readDerInteger_short [OF r _ this short(2)]
  from R have u: "u = r @ drop (nat p) ?der" and p: "p = 4 + uint l" and "r \<noteq> []" "int (length r) = uint l"
    by simp_all
  have at: "byte_at ?der (p + 1) = byte_at u (uint l + 1)"
    using p by (auto simp: byte_at_def nat_add_distrib nth_Cons')
  from s obtain m where m: "byte_at ?der (p + 1) = Some m"
    by (auto simp: readDerInteger_def readDerLength_def Let_def split: if_splits option.splits)
  note S = readDerInteger_short [OF s _ m short(3)]
  have "drop (nat p) ?der = 0x02 # m # s @ drop (nat q) ?der" "s \<noteq> []" "int (length s) = uint m"
    using S p m at by simp_all
  moreover have "length a = 32" using fixed(1) by (rule fixed_width_length)
  ultimately show ?thesis using u fixed raw \<open>r \<noteq> []\<close> \<open>int (length r) = uint l\<close>
    by (intro exI [of _ r] exI [of _ s] exI [of _ "drop (nat q) ?der"] exI [of _ m]) simp
qed

end
