(* ===== verification/Signer_Devices.thy ===== *)
theory Signer_Devices
  imports Der_Signature
begin

text \<open>
  The signers of src/signer.ts: the Ledger error table and its classification, LedgerSigner with
  its cached key, and WebAuthnSigner, which authorizes contract invocations with a passkey.  The
  device, the credential container and the XDR and hashing functions of the Stellar SDK are
  arguments; the calls that reach them are part of the result.
\<close>

text \<open>The straight quote of the messages (strings are bytes).\<close>

definition tick :: string where "tick = [CHR 0x27]"

section \<open>Ledger errors\<close>

datatype LedgerErrorType = UserRejected | DeviceLocked | AppNotOpen | DeviceDisconnected | TransportError
  | InvalidResponse | Unknown

primrec ledger_type_name :: "LedgerErrorType \<Rightarrow> string" where
  "ledger_type_name UserRejected = ''USER_REJECTED''"
| "ledger_type_name DeviceLocked = ''DEVICE_LOCKED''"
| "ledger_type_name AppNotOpen = ''APP_NOT_OPEN''"
| "ledger_type_name DeviceDisconnected = ''DEVICE_DISCONNECTED''"
| "ledger_type_name TransportError = ''TRANSPORT_ERROR''"
| "ledger_type_name InvalidResponse = ''INVALID_RESPONSE''"
| "ledger_type_name Unknown = ''UNKNOWN''"

definition LEDGER_ERROR_MAP :: "(nat \<times> LedgerErrorType \<times> string) list" where
  "LEDGER_ERROR_MAP =
    [(0x6982, UserRejected, ''Transaction rejected by the user on the Ledger device.''),
     (0x6984, InvalidResponse, ''Invalid data received from the Ledger device.''),
     (0x6985, AppNotOpen, ''Conditions not satisfied '' @ em_dash @ '' ensure the Ledger Stellar app is open.''),
     (0x6A80, InvalidResponse, ''Invalid parameters sent to the Ledger device.''),
     (0x6B00, InvalidResponse, ''Invalid instruction sent to the Ledger device.''),
     (0x6700, InvalidResponse, ''Wrong data length in Ledger response.''),
     (0x6F00, TransportError, ''Generic Ledger transport error.''),
     (0x9000, UserRejected, ''Ledger operation completed successfully.'')]"

definition normalizeLedgerError :: "nat \<Rightarrow> LedgerErrorType \<times> string" where
  "normalizeLedgerError statusCode =
    (case map_of LEDGER_ERROR_MAP statusCode of
       Some e \<Rightarrow> e
     | None \<Rightarrow> (Unknown, ''Unknown Ledger error code: 0x'' @ upper_text (show_hex statusCode)))"

definition ledger_marker :: string where "ledger_marker = ''Ledger status word: 0x''"

text \<open>The leftmost match of the pattern: the marker and four hexadecimal digits.\<close>

definition four_digits :: "string \<Rightarrow> string option" where
  "four_digits s = (let d = take 4 s in if length d = 4 \<and> list_all (\<lambda>c. hex_digit c \<noteq> None) d then Some d else None)"

fun ledger_match :: "string \<Rightarrow> string option" where
  "ledger_match [] = None"
| "ledger_match (c # s) =
    (if take (length ledger_marker) (c # s) = ledger_marker
     then (case four_digits (drop (length ledger_marker) (c # s)) of Some d \<Rightarrow> Some d | None \<Rightarrow> ledger_match s)
     else ledger_match s)"

definition classifyLedgerError :: "thrown \<Rightarrow> (LedgerErrorType \<times> string) option" where
  "classifyLedgerError e =
    (case e of
       ThrownString _ \<Rightarrow> None
     | ErrorObject _ m _ _ _ _ \<Rightarrow>
         (case ledger_match m of
            None \<Rightarrow> None
          | Some d \<Rightarrow> map_option normalizeLedgerError (radix_value 16 0 d)))"

section \<open>LedgerSigner\<close>

text \<open>What a Ledger call throws: a LedgerHardwareError, or what the device or the SDK threw.\<close>

datatype signer_failure = LedgerHardwareError LedgerErrorType string | Other_failure thrown

datatype device_call = Device_public_key string | Device_sign string string

text \<open>The replies of a device are functions of the number of calls made before.\<close>

record ledger_device =
  dev_public_key :: "nat \<Rightarrow> string \<Rightarrow> (thrown, string) result"
  dev_sign :: "nat \<Rightarrow> string \<Rightarrow> string \<Rightarrow> (thrown, string) result"

record LedgerSigner =
  ls_appName :: string
  ls_path :: string
  ls_device :: "ledger_device option"
  cachedPublicKey :: "string option"
  ls_calls :: "device_call list"

definition default_path :: string where
  "default_path = ''44'' @ tick @ ''/148'' @ tick @ ''/0'' @ tick @ ''/0/0''"

definition nullish_or :: "'a \<Rightarrow> 'a option \<Rightarrow> 'a" where
  "nullish_or d x = (case x of Some a \<Rightarrow> a | None \<Rightarrow> d)"

definition new_LedgerSigner :: "string option \<Rightarrow> string option \<Rightarrow> ledger_device option \<Rightarrow> string option \<Rightarrow> LedgerSigner" where
  "new_LedgerSigner appName path device key =
    \<lparr> ls_appName = nullish_or ''Stellar'' appName, ls_path = nullish_or default_path path, ls_device = device,
      cachedPublicKey = key, ls_calls = [] \<rparr>"

text \<open>An empty key counts as none.\<close>

definition known_key :: "LedgerSigner \<Rightarrow> string option" where
  "known_key s = (case cachedPublicKey s of Some k \<Rightarrow> if k = [] then None else Some k | None \<Rightarrow> None)"

definition ledger_publicKey :: "LedgerSigner \<Rightarrow> (signer_failure, string) result" where
  "ledger_publicKey s =
    (case known_key s of
       Some k \<Rightarrow> Inr k
     | None \<Rightarrow> Inl (LedgerHardwareError DeviceDisconnected
         (''Ledger public key not yet resolved '' @ em_dash @
           '' pass publicKey in the constructor or call getPublicKey() first.'')))"

text \<open>webusb is the device the optional libraries give, none when they are missing or fail.\<close>

definition resolveDevice :: "ledger_device option \<Rightarrow> LedgerSigner \<Rightarrow> (signer_failure, ledger_device) result" where
  "resolveDevice webusb s =
    (case ls_device s of
       Some d \<Rightarrow> Inr d
     | None \<Rightarrow> (case webusb of
         Some d \<Rightarrow> Inr d
       | None \<Rightarrow> Inl (LedgerHardwareError TransportError
           ''Ledger device not available: inject a LedgerDevice or install @ledgerhq/hw-app-str and @ledgerhq/hw-transport-webusb.'')))"

definition ledger_getPublicKey :: "ledger_device option \<Rightarrow> LedgerSigner \<Rightarrow> (signer_failure, string) result \<times> LedgerSigner" where
  "ledger_getPublicKey webusb s =
    (case known_key s of
       Some k \<Rightarrow> (Inr k, s)
     | None \<Rightarrow> (case resolveDevice webusb s of
         Inl e \<Rightarrow> (Inl e, s)
       | Inr d \<Rightarrow>
           let s1 = s \<lparr> ls_calls := ls_calls s @ [Device_public_key (ls_path s)] \<rparr>
           in (case dev_public_key d (length (ls_calls s)) (ls_path s) of
                 Inl e \<Rightarrow> (Inl (Other_failure e), s1)
               | Inr k \<Rightarrow> (Inr k, s1 \<lparr> cachedPublicKey := Some k \<rparr>))))"

text \<open>
  Transactions are a type of the Stellar SDK, reached through these functions; the keypair of a
  public key signs a transaction in place.
\<close>

record 't tx_api =
  parse_tx :: "string \<Rightarrow> string \<Rightarrow> (thrown, 't) result"
  tx_xdr :: "'t \<Rightarrow> string"
  passphrase_of :: "'t \<Rightarrow> string option"
  keypair_signed :: "string \<Rightarrow> 't \<Rightarrow> 't"

text \<open>KeypairSigner: the result of sign is the transaction as the call leaves it.\<close>

record KeypairSigner = ks_keypair :: string

definition keypair_signer_sign :: "'t tx_api \<Rightarrow> KeypairSigner \<Rightarrow> 't \<Rightarrow> 't" where
  "keypair_signer_sign api s tx = keypair_signed api (ks_keypair s) tx"

definition keypair_signer_publicKey :: "KeypairSigner \<Rightarrow> string" where "keypair_signer_publicKey s = ks_keypair s"

definition ledger_sign :: "'t tx_api \<Rightarrow> ledger_device option \<Rightarrow> 't \<Rightarrow> LedgerSigner \<Rightarrow> (signer_failure, 't) result \<times> LedgerSigner" where
  "ledger_sign api webusb tx s =
    (case resolveDevice webusb s of
       Inl e \<Rightarrow> (Inl e, s)
     | Inr d \<Rightarrow>
         let s1 = s \<lparr> ls_calls := ls_calls s @ [Device_sign (ls_path s) (tx_xdr api tx)] \<rparr>
         in (case result_bind (dev_sign d (length (ls_calls s)) (ls_path s) (tx_xdr api tx)) (\<lambda>signed.
                 parse_tx api signed (nullish_or [] (passphrase_of api tx))) of
               Inl e \<Rightarrow> (Inl (Other_failure e), s1)
             | Inr t \<Rightarrow> (Inr t, s1)))"

section \<open>WebAuthnSigner\<close>

datatype user_verification = UV_required | UV_preferred | UV_discouraged

record assertion_request =
  challenge :: "byte list"
  allow_credential :: "byte list"
  request_rpId :: "string option"
  userVerification :: user_verification

record assertion =
  authenticatorData :: "byte list"
  clientDataJSON :: "byte list"
  asn1_signature :: "byte list"

text \<open>The credential container: null when the request was cancelled.\<close>

type_synonym credential_container = "assertion_request \<Rightarrow> (thrown, assertion option) result"

record WebAuthnSigner =
  contractAddress :: string
  credential_id :: "byte list"
  credentialsContainer :: credential_container
  rpId :: "string option"
  wa_userVerification :: user_verification
  scValKeys :: "string \<times> string \<times> string"

definition DEFAULT_WEBAUTHN_SCVAL_KEYS :: "string \<times> string \<times> string" where
  "DEFAULT_WEBAUTHN_SCVAL_KEYS = (''authenticator_data'', ''client_data_json'', ''signature'')"

record WebAuthnSignerOptions =
  wo_contractAddress :: string
  wo_credential :: "byte list"
  wo_credentials :: "credential_container option"
  wo_rpId :: "string option"
  wo_userVerification :: "user_verification option"
  wo_keys :: "string option \<times> string option \<times> string option"

text \<open>navigator is the container of the environment, if it has one.\<close>

definition new_WebAuthnSigner :: "credential_container option \<Rightarrow> WebAuthnSignerOptions \<Rightarrow> (thrown, WebAuthnSigner) result" where
  "new_WebAuthnSigner navigator o1 =
    result_bind (case wo_credentials o1 of Some c \<Rightarrow> Inr c
      | None \<Rightarrow> (case navigator of Some c \<Rightarrow> Inr c
        | None \<Rightarrow> Inl (plain_error (''WebAuthnSigner: no `navigator.credentials` is available in this environment. '' @
            ''Pass a `credentials` implementation explicitly (required in Node/tests, and on non-browser runtimes).'')))) (\<lambda>c.
    Inr \<lparr> contractAddress = wo_contractAddress o1, credential_id = wo_credential o1, credentialsContainer = c,
      rpId = wo_rpId o1, wa_userVerification = nullish_or UV_preferred (wo_userVerification o1),
      scValKeys = (let (a, b, c) = DEFAULT_WEBAUTHN_SCVAL_KEYS; (x, y, z) = wo_keys o1
        in (nullish_or a x, nullish_or b y, nullish_or c z)) \<rparr>)"

text \<open>publicKey answers the contract address; sign returns the transaction as it is.\<close>

definition webauthn_publicKey :: "WebAuthnSigner \<Rightarrow> string" where "webauthn_publicKey s = contractAddress s"

definition webauthn_sign :: "WebAuthnSigner \<Rightarrow> 't \<Rightarrow> 't" where "webauthn_sign s tx = tx"

text \<open>An authorization entry: the credentials of the source account, or of an address.\<close>

record address_credentials =
  ac_address :: string
  ac_nonce :: int
  signatureExpirationLedger :: int
  ac_signature :: sc_val

datatype entry_credentials = Source_account | Address_credentials address_credentials

record 'i auth_entry =
  credentials :: entry_credentials
  rootInvocation :: 'i

text \<open>
  Functions of the SDK: the bytes of a passphrase, SHA-256, the XDR of the preimage (network id,
  nonce, invocation, expiration), and the map of symbols to bytes as an ScVal.
\<close>

record 'i auth_api =
  bytes_of :: "string \<Rightarrow> byte list"
  sha256 :: "byte list \<Rightarrow> byte list"
  preimage_xdr :: "byte list \<Rightarrow> int \<Rightarrow> 'i \<Rightarrow> int \<Rightarrow> byte list"
  native_map :: "(string \<times> byte list) list \<Rightarrow> (thrown, sc_val) result"

definition auth_payload :: "'i auth_api \<Rightarrow> string \<Rightarrow> int \<Rightarrow> 'i \<Rightarrow> int \<Rightarrow> byte list" where
  "auth_payload api passphrase nonce invocation expiration =
    sha256 api (preimage_xdr api (sha256 api (bytes_of api passphrase)) nonce invocation expiration)"

text \<open>An object literal with computed keys: a repeated key keeps its place and takes the last value.\<close>

fun put_key :: "string \<Rightarrow> 'v \<Rightarrow> (string \<times> 'v) list \<Rightarrow> (string \<times> 'v) list" where
  "put_key k v [] = [(k, v)]"
| "put_key k v ((k', v') # kvs) = (if k = k' then (k, v) # kvs else (k', v') # put_key k v kvs)"

definition assertion_object :: "string \<times> string \<times> string \<Rightarrow> assertion \<Rightarrow> byte list \<Rightarrow> (string \<times> byte list) list" where
  "assertion_object ks a raw =
    (case ks of (k1, k2, k3) \<Rightarrow> put_key k3 raw (put_key k2 (clientDataJSON a) (put_key k1 (authenticatorData a) [])))"

definition webauthn_cancelled :: thrown where
  "webauthn_cancelled = new_error (UserCancelledError ''webauthn'')
     ''The WebAuthn signing request was cancelled, or returned no credential.''"

definition assertion_request_for :: "WebAuthnSigner \<Rightarrow> byte list \<Rightarrow> assertion_request" where
  "assertion_request_for s c = \<lparr> challenge = c, allow_credential = credential_id s, request_rpId = rpId s,
     userVerification = wa_userVerification s \<rparr>"

definition requestAssertion :: "WebAuthnSigner \<Rightarrow> byte list \<Rightarrow> (thrown, assertion) result" where
  "requestAssertion s c =
    result_bind (credentialsContainer s (assertion_request_for s c)) (\<lambda>r.
    case r of Some a \<Rightarrow> Inr a | None \<Rightarrow> Inl webauthn_cancelled)"

text \<open>The requests made of the passkey, and the entry that comes out.\<close>

definition authorizeEntry ::
    "'i auth_api \<Rightarrow> WebAuthnSigner \<Rightarrow> 'i auth_entry \<Rightarrow> int \<Rightarrow> string \<Rightarrow> assertion_request list \<times> (thrown, 'i auth_entry) result" where
  "authorizeEntry api s entry validUntil passphrase =
    (case credentials entry of
       Source_account \<Rightarrow> ([], Inr entry)
     | Address_credentials auth \<Rightarrow>
         if ac_address auth \<noteq> contractAddress s
         then ([], Inl (plain_error (''WebAuthnSigner: authorization entry is for '' @ tick @ ac_address auth @ tick @
           '', not this signer'' @ tick @ ''s '' @ tick @ contractAddress s @ tick @ ''.'')))
         else
           let auth1 = auth \<lparr> signatureExpirationLedger := validUntil \<rparr>;
               payload = auth_payload api passphrase (ac_nonce auth1) (rootInvocation entry) (signatureExpirationLedger auth1)
           in ([assertion_request_for s payload],
               result_bind (requestAssertion s payload) (\<lambda>a.
               result_bind (derToRawSignature (asn1_signature a)) (\<lambda>raw.
               result_bind (native_map api (assertion_object (scValKeys s) a raw)) (\<lambda>v.
               Inr (entry \<lparr> credentials := Address_credentials (auth1 \<lparr> ac_signature := ScvVec (Some [v]) \<rparr>) \<rparr>))))))"

end
