(* ===== verification/Signer_Properties.thy ===== *)
theory Signer_Properties
  imports Signer_Devices
begin

text \<open>
  Properties of the signers: Ledger status words are recognised in a message and classified by
  the table, a LedgerSigner asks the device for its key once, and a passkey signs exactly the
  entry that is returned, and nothing for other accounts.
\<close>

section \<open>Ledger errors\<close>

definition status_word :: "nat \<Rightarrow> string" where
  "status_word n = ledger_marker @ pad_start 4 CHR ''0'' (show_hex n)"

lemma four_hex_digits:
  assumes "n < 65536"
  shows "four_digits (pad_start 4 CHR ''0'' (show_hex n) @ s) = Some (pad_start 4 CHR ''0'' (show_hex n))"
proof -
  have "length (show_hex n) \<le> 4" using show_hex_length [of n 4] assms by simp
  then have "length (pad_start 4 CHR ''0'' (show_hex n)) = 4" by simp
  moreover have "hex_digit CHR ''0'' \<noteq> None" by (simp add: hex_digit_def Let_def)
  then have "list_all (\<lambda>c. hex_digit c \<noteq> None) (pad_start 4 CHR ''0'' (show_hex n))"
    using show_hex_digits [of _ n] by (auto simp: pad_start_def list_all_iff)
  ultimately show ?thesis by (simp add: four_digits_def Let_def del: length_pad_start)
qed

lemma ledger_match_prefix: "CHR ''L'' \<notin> set p \<Longrightarrow> ledger_match (p @ s) = ledger_match s"
  by (induction p) (auto simp: ledger_marker_def)

lemma ledger_match_word:
  assumes "n < 65536"
  shows "ledger_match (status_word n @ s) = Some (pad_start 4 CHR ''0'' (show_hex n))"
  using four_hex_digits [OF assms, of s] by (simp add: status_word_def ledger_marker_def)

lemma radix_value_padded: "radix_value 16 0 (replicate k CHR ''0'' @ t) = radix_value 16 0 t"
  by (induction k) (simp_all add: hex_digit_def Let_def)

text \<open>A status word written in an error message is found and looked up in the table.\<close>

theorem ledger_word_classified:
  assumes "n < 65536" and "CHR ''L'' \<notin> set p"
  shows "classifyLedgerError (new_error c (p @ status_word n @ s)) = Some (normalizeLedgerError n)"
  using assms
  by (simp add: classifyLedgerError_def new_error_def ledger_match_prefix ledger_match_word pad_start_def radix_value_padded)

lemma ledger_word_classified_witness:
  "classifyLedgerError (new_error PlainError (''APDU failed: '' @ status_word 0x6982 @ ''!'')) =
     Some (UserRejected, ''Transaction rejected by the user on the Ledger device.'')"
  using ledger_word_classified [where n = "0x6982" and p = "''APDU failed: ''" and c = PlainError and s = "''!''"]
  by (simp add: normalizeLedgerError_def LEDGER_ERROR_MAP_def)

text \<open>No status word is ever reported as a locked or disconnected device, and success is a rejection.\<close>

lemma ledger_types_of_words: "fst (normalizeLedgerError n) \<in> {UserRejected, AppNotOpen, TransportError, InvalidResponse, Unknown}"
  by (simp add: normalizeLedgerError_def LEDGER_ERROR_MAP_def)

lemma ledger_success_rejected: "fst (normalizeLedgerError 0x9000) = UserRejected"
  by (simp add: normalizeLedgerError_def LEDGER_ERROR_MAP_def)

section \<open>LedgerSigner\<close>

text \<open>
  The device is asked for the key at most once: after an answer the signer knows it, gives it
  synchronously, and later calls do not reach the device.
\<close>

theorem ledger_key_asked_once:
  assumes "ledger_getPublicKey webusb s = (Inr k, s')" and "k \<noteq> []"
  shows "ledger_publicKey s' = Inr k \<and> ledger_getPublicKey webusb' s' = (Inr k, s') \<and> length (ls_calls s') \<le> length (ls_calls s) + 1"
  using assms
  by (auto simp: ledger_getPublicKey_def ledger_publicKey_def known_key_def Let_def split: option.splits sum.splits if_splits)

definition sample_ledger :: ledger_device where
  "sample_ledger = \<lparr> dev_public_key = (\<lambda>_ _. Inr ''GA''), dev_sign = (\<lambda>_ _ x. Inr x) \<rparr>"

lemma ledger_key_asked_once_witness:
  "ledger_publicKey (snd (ledger_getPublicKey None (new_LedgerSigner None None (Some sample_ledger) None))) = Inr ''GA''"
  using ledger_key_asked_once [of None "new_LedgerSigner None None (Some sample_ledger) None" "''GA''"
      "snd (ledger_getPublicKey None (new_LedgerSigner None None (Some sample_ledger) None))"]
  by (simp add: ledger_getPublicKey_def known_key_def new_LedgerSigner_def resolveDevice_def sample_ledger_def Let_def)

text \<open>Without a device and without the optional libraries every call that needs one fails, changing nothing.\<close>

lemma ledger_without_device:
  assumes "ls_device s = None" and "known_key s = None"
  shows "\<exists>m. ledger_getPublicKey None s = (Inl (LedgerHardwareError TransportError m), s) \<and>
    ledger_sign api None tx s = (Inl (LedgerHardwareError TransportError m), s)"
  using assms by (simp add: ledger_getPublicKey_def ledger_sign_def resolveDevice_def)

section \<open>WebAuthnSigner\<close>

text \<open>
  C18: The passkey is asked exactly once, for the payload of the entry that is returned, fields and
  expiration included; the rest of the entry is unchanged and the signature it carries is one
  of 64 raw bytes.
\<close>

theorem authorized_entry_is_signed:
  assumes address: "credentials entry = Address_credentials auth"
    and ok: "authorizeEntry api s entry validUntil passphrase = (asked, Inr e)"
  shows "\<exists>auth' a raw v. credentials e = Address_credentials auth' \<and> rootInvocation e = rootInvocation entry \<and>
    ac_address auth' = contractAddress s \<and> ac_nonce auth' = ac_nonce auth \<and> signatureExpirationLedger auth' = validUntil \<and>
    map challenge asked = [auth_payload api passphrase (ac_nonce auth') (rootInvocation e) (signatureExpirationLedger auth')] \<and>
    map allow_credential asked = [credential_id s] \<and>
    derToRawSignature (asn1_signature a) = Inr raw \<and> length raw = 64 \<and>
    native_map api (assertion_object (scValKeys s) a raw) = Inr v \<and> ac_signature auth' = ScvVec (Some [v])"
proof -
  let ?auth = "auth \<lparr> signatureExpirationLedger := validUntil \<rparr>"
  let ?payload = "auth_payload api passphrase (ac_nonce auth) (rootInvocation entry) validUntil"
  from assms obtain a raw v where own: "ac_address auth = contractAddress s" and asked: "asked = [assertion_request_for s ?payload]"
    and raw: "derToRawSignature (asn1_signature a) = Inr raw" and v: "native_map api (assertion_object (scValKeys s) a raw) = Inr v"
    and e: "e = entry \<lparr> credentials := Address_credentials (?auth \<lparr> ac_signature := ScvVec (Some [v]) \<rparr>) \<rparr>"
    by (auto simp: authorizeEntry_def Let_def result_bind_Inr_iff split: if_splits)
  have "length raw = 64" using raw by (rule raw_signature_length)
  then show ?thesis using own asked raw v e
    by (intro exI [of _ "?auth \<lparr> ac_signature := ScvVec (Some [v]) \<rparr>"] exI [of _ a] exI [of _ raw] exI [of _ v])
      (simp add: assertion_request_for_def)
qed

text \<open>Entries of another account are refused, and those of the source account returned, without asking the passkey.\<close>

theorem foreign_entry_not_signed:
  "fst (authorizeEntry api s entry validUntil passphrase) = [] \<longleftrightarrow>
     (\<forall>auth. credentials entry = Address_credentials auth \<longrightarrow> ac_address auth \<noteq> contractAddress s)"
  by (cases "credentials entry") (simp_all add: authorizeEntry_def Let_def)

text \<open>A dismissed prompt is a cancellation by the user, told apart from a failing container.\<close>

lemma dismissed_prompt_cancels:
  assumes "credentials entry = Address_credentials auth" and "ac_address auth = contractAddress s"
    and "\<And>r. credentialsContainer s r = Inr None"
  shows "snd (authorizeEntry api s entry validUntil passphrase) = Inl webauthn_cancelled"
  using assms by (simp add: authorizeEntry_def requestAssertion_def Let_def)

definition sample_auth_api :: "unit auth_api" where
  "sample_auth_api = \<lparr> bytes_of = (\<lambda>_. [1]), sha256 = rev, preimage_xdr = (\<lambda>b n _ m. word_of_int n # word_of_int m # b),
     native_map = (\<lambda>kvs. Inr (ScvOther (fst (hd kvs)))) \<rparr>"

definition sample_passkey :: WebAuthnSigner where
  "sample_passkey = \<lparr> contractAddress = ''CW'', credential_id = [9],
     credentialsContainer = (\<lambda>_. Inr (Some \<lparr> authenticatorData = [1], clientDataJSON = [2],
       asn1_signature = [0x30, 6, 0x02, 1, 7, 0x02, 1, 9] \<rparr>)),
     rpId = None, wa_userVerification = UV_preferred, scValKeys = DEFAULT_WEBAUTHN_SCVAL_KEYS \<rparr>"

definition sample_entry :: "unit auth_entry" where
  "sample_entry = \<lparr> credentials = Address_credentials \<lparr> ac_address = ''CW'', ac_nonce = 5, signatureExpirationLedger = 0,
     ac_signature = ScvVoid \<rparr>, rootInvocation = () \<rparr>"

lemma sample_raw_signature:
  "derToRawSignature [0x30, 6, 0x02, 1, 7, 0x02, 1, 9] = Inr (replicate 31 0 @ [7] @ replicate 31 0 @ [9])"
proof -
  let ?d = "[0x30, 6, 0x02, 1, 7, 0x02, 1, 9] :: byte list"
  have at: "byte_at ?d 0 = Some 0x30" "byte_at ?d 1 = Some 6" "byte_at ?d 2 = Some 2" "byte_at ?d 3 = Some 1"
      "byte_at ?d 5 = Some 2" "byte_at ?d 6 = Some 1"
    by (simp_all add: byte_at_def)
  then have "readDerLength ?d 1 = Inr (6, 2)" "readDerInteger ?d 2 = Inr ([7], 5)" "readDerInteger ?d 5 = Inr ([9], 8)"
    by (simp_all add: readDerLength_def readDerInteger_def byte_slice_def slice_bound_def)
  then show ?thesis using at by (simp add: derToRawSignature_def derIntegerToFixedWidth_def)
qed

definition sample_signed_entry :: "unit auth_entry" where
  "sample_signed_entry = \<lparr> credentials = Address_credentials \<lparr> ac_address = ''CW'', ac_nonce = 5, signatureExpirationLedger = 90,
     ac_signature = ScvVec (Some [ScvOther ''authenticator_data'']) \<rparr>, rootInvocation = () \<rparr>"

lemma sample_authorization:
  "authorizeEntry sample_auth_api sample_passkey sample_entry 90 ''T'' =
     ([assertion_request_for sample_passkey [1, 90, 5]], Inr sample_signed_entry)"
  by (simp add: authorizeEntry_def sample_entry_def sample_signed_entry_def sample_passkey_def sample_auth_api_def requestAssertion_def
      sample_raw_signature auth_payload_def assertion_object_def DEFAULT_WEBAUTHN_SCVAL_KEYS_def Let_def)

lemma authorized_entry_is_signed_witness:
  "\<exists>auth'. credentials sample_signed_entry = Address_credentials auth' \<and> signatureExpirationLedger auth' = 90 \<and>
     challenge (assertion_request_for sample_passkey [1, 90, 5]) = auth_payload sample_auth_api ''T'' (ac_nonce auth') () 90"
  using authorized_entry_is_signed [OF _ sample_authorization] by (auto simp: sample_entry_def)

end
