(* ===== verification/Spec2Isabelle.thy ===== *)
theory Spec2Isabelle
  imports Js_Values Durations Error_Properties Portfolio_Module Concurrency Coalesce Stream_Listing Fee_Properties Token Batch_Properties Event_Properties Builder_Properties Batcher_Properties Graph_Properties Graph_Sub_Properties Mock_Indexer Tx_Properties Tx_Export Relayer_Runs Error_Mapper Signer_Properties
begin

text \<open>
  A verification library for the StreamFi (Conduit protocol) TypeScript SDK, whose
  implementation is under src/ of the repository.  Each theory models one part of it and proves
  what that part promises; this theory imports them all.

  The program.  The SDK gives a client of the Conduit payment-stream contracts on Soroban three
  layers.  (1) Pure helpers: stroop amounts and rates (utils.ts), projections of a stream
  snapshot (streams.ts), durations, parameter validation, error decoding (errors.ts), memoised
  batch modules over an LRU cache (lru-memo-cache.ts, module26/36/44/48/49.ts).  (2) Plumbing:
  a circuit breaker per endpoint (rpc-circuit-state.ts) behind withRetry (with-retry.ts), shared
  in-flight promises (coalesce-async.ts), worker pools (map-with-concurrency.ts), and the pipeline
  of soroban.ts that builds, simulates, signs, submits and polls a contract call through
  createRpcServer, which puts retry and breaker around every RPC.  (3) Modules: the factory's
  cached reads (factory.ts), the stream operations (streams.ts), governance (governor.ts), token
  approvals (token.ts) and fee estimates (fee-estimator.ts), all over the pipeline.

  Theories and sources.
  StreamFi_Prelude, Js_Strings, Js_Values: results of operations that may throw, JavaScript
  numbers and strings, digit strings, JSON trees; bigintSafeStringify.
  Amounts (utils.ts): toStroops, fromStroops, rates.  Stream_Math (utils.ts, streams.ts):
  withdrawable and streamed amounts, vesting, portfolio sums, simulateWithdraw.
  Durations (utils.ts), Validation (streams.ts, utils.ts), Cursors (factory.ts, streams.ts).
  Error_Codes, Errors, Error_Properties (errors.ts): the catalogues, thrown values as trees,
  parsing, translation and retry classification.
  Lru_Cache (lru-memo-cache.ts), Memo_Modules, Portfolio_Module (the module files).
  Circuit (rpc-circuit-state.ts), Retry (with-retry.ts), Concurrency (map-with-concurrency.ts),
  Coalesce (coalesce-async.ts).
  Sc_Values (soroban.ts, streams.ts, factory.ts): contract values with words of their width.
  Rpc_World (soroban.ts): the world, the proxied server, the logic of handlers.
  Handler_Logic: frames, total correctness, and what may be signed.
  Soroban (soroban.ts): transactions, polling, invokeContract, the module-level caches.
  Factory (factory.ts); Streams, Stream_Handlers, Stream_Listing (streams.ts, signer.ts).
  Fee_Estimator, Fee_Properties (fee-estimator.ts); Governor, Governor_Properties (governor.ts);
  Token (token.ts, adapters/keypair.ts).  Batch_Tx, Batch_Properties (batch-tx.ts).
  Json_Text (JSON.stringify and String of a value).  Graph_Query, Graph_Pages, Graph_Properties,
  Graph_Subscription, Graph_Sub_Properties (indexer.ts), Mock_Indexer (mock-indexer.ts).
  Builder, Builder_Properties, Batcher, Batcher_Properties (builder.ts).
  Js_Coercions, Tx_Records, Tx_Ranking, Tx_State, Tx_Export, Tx_Properties
  (dashboard/transaction-history.ts): rows, the heap of the newest, the reducer and selectors.
  Relayer, Relayer_Properties, Relayer_Runs (relayer/WebSocketRelayer.ts), Error_Mapper
  (relayer/ErrorMapper.ts, errors.ts).
  Der_Signature, Signer_Devices, Signer_Properties (signer.ts): the conversion of a passkey's DER
  signature over 8-bit words, Ledger errors and the Ledger signer, passkey authorization.
  Events, Event_Properties (events.ts, types/index.ts, the gap detector of indexer.ts).

  How state and calls are modelled.  A handler is a function from a world to its result and the
  next world (type io).  The world holds the module-level state of soroban.ts (breakers,
  timeouts, ledger and decimals caches); the modules extend that record with their own fields,
  so a factory call inside a stream operation runs on the same world.  Every call that leaves
  the SDK is appended to the world's trace, and is answered by the record outside, whose
  functions (RPC node, Horizon, wallet, clock, random numbers, abort signal, codecs of the
  Stellar SDK) take the number of calls made so far.  No law is assumed of them, except by
  theorems that name it as a hypothesis, each with a witness on sample_outside.  Errors are
  values: thrown is the tree of a JavaScript error, result its sum with a value.

  What the groups of lemmas show.  Functional theorems give the exact value on every branch;
  the runs logic (Rpc_World) shows what calls a handler can make, hence what it can sign
  (Stream_Handlers, Token, Governor_Properties, Batch_Properties); the yields logic
  (Handler_Logic) shows that a handler returns (Stream_Listing, Factory); reachability by
  rule induction covers what interleaves (Circuit, Concurrency, Coalesce, Fee_Properties,
  Event_Properties);
  refinement theorems relate caches to their specification (Lru_Cache, Factory, Governor).

  Bounds and fuel.  Loops of the source are bounded by their own counters: poll_loop runs on the
  number of attempts, retry_loop on the retries left, paged walks on the number of items; the
  theorems state results for every value of these counters.  The decoder of error causes takes
  the depth limit of the source as its fuel.

  Not modelled.  Doubles beyond exact rationals: integers above 2 to the 53 and rounding of
  fractions in numbers are outside the model, and a fractional number prints as its integer part
  in an error message.  Strings are byte strings.  Whole handlers run one at a time; interleaving
  is modelled for the parts whose purpose it is (Circuit, Coalesce, Concurrency, Fee_Estimator,
  the polling subscription of Events, the submissions of Builder, the queue of Batcher, the
  sockets and timers of Graph_Subscription, the awaits of Relayer).
  Code of the Stellar SDK (XDR, StrKey, Address, transaction building and hashing), wallets,
  fetch, devices and timers are parameters.  The wallet adapters of adapters/, the wiring of
  client.ts, React bindings, examples and templates are left out, as are the parts PROJECT.json
  lists as not modelled.
\<close>

end
